(* ===== verification/Prelude.thy ===== *)
theory Prelude
  imports Main "HOL-Library.Word"
begin

unbundle bit_operations_syntax

text \<open>
  The prelude of the development: the names of the machine types the sources use, the
  little-endian layout of the integers that cross the wire, bounded reads of a byte buffer,
  and the contract of a fixed-width encoding (locale \<open>fixed_codec\<close>), with the facts about
  lists, options and words that the component theories share.

  The library is built for Win32 only (\<^verbatim>\<open>src/dpnet/dpnet.vcxproj\<close>), so \<^verbatim>\<open>size_t\<close> is 32 bits
  wide there; definitions in which the width of \<^verbatim>\<open>size_t\<close> matters take it as a type
  parameter.
\<close>

section \<open>Machine types\<close>

type_synonym byte = "8 word"
type_synonym wchar = "16 word"
type_synonym dword = "32 word"
type_synonym hresult = "32 word"
type_synonym dpnid = "32 word"
type_synonym dpnhandle = "32 word"

named_theorems codec_simps "lengths and inverses of the byte encodings"
named_theorems const_defs "the numeric constants of the headers"

section \<open>Errors as values\<close>

text \<open>
  A C++ expression that may throw is a value of a sum type, the exception on the left;
  \<open>ebind\<close> is the sequencing of two such expressions.
\<close>

definition ebind :: "'e + 'a \<Rightarrow> ('a \<Rightarrow> 'e + 'b) \<Rightarrow> 'e + 'b" where
  "ebind r f = (case r of Inl e \<Rightarrow> Inl e | Inr x \<Rightarrow> f x)"

lemma ebind_simps [simp]: "ebind (Inl e) f = Inl e" "ebind (Inr x) f = f x"
  by (simp_all add: ebind_def)

lemma ebind_eq_Inr: "ebind r f = Inr y \<longleftrightarrow> (\<exists>x. r = Inr x \<and> f x = Inr y)"
  by (cases r) simp_all

lemma ebind_eq_Inl: "ebind r f = Inl e \<longleftrightarrow> r = Inl e \<or> (\<exists>x. r = Inr x \<and> f x = Inl e)"
  by (cases r) simp_all

section \<open>Bounded reads\<close>

text \<open>
  \<open>slice mem off n\<close> is the read of \<open>n\<close> bytes at offset \<open>off\<close> of a buffer; \<open>None\<close> is a
  read outside it, which is undefined behaviour in the source.
\<close>

definition slice :: "'a list \<Rightarrow> nat \<Rightarrow> nat \<Rightarrow> 'a list option" where
  "slice mem off n = (if off + n \<le> length mem then Some (take n (drop off mem)) else None)"

lemma slice_middle [simp]: "slice (pre @ xs @ post) (length pre) (length xs) = Some xs"
  by (simp add: slice_def)

lemma slice_middle_eq:
  "off = length pre \<Longrightarrow> n = length xs \<Longrightarrow> slice (pre @ xs @ post) off n = Some xs"
  by simp

lemma slice_Some_length: "slice mem off n = Some xs \<Longrightarrow> length xs = n \<and> off + n \<le> length mem"
  by (auto simp: slice_def split: if_splits)

lemma slice_defined: "off + n \<le> length mem \<Longrightarrow> \<exists>xs. slice mem off n = Some xs"
  by (simp add: slice_def)

lemma slice_append_left:
  "off + n \<le> length xs \<Longrightarrow> slice (xs @ ys) off n = slice xs off n"
  by (simp add: slice_def)

section \<open>Fixed-width encodings\<close>

text \<open>
  What a client of an encoding relies on: every value takes the same number of bytes, and
  decoding gives the value back. The lemmas read an encoded value out of a larger buffer.
\<close>

locale fixed_codec =
  fixes enc :: "'a \<Rightarrow> byte list"
    and dec :: "byte list \<Rightarrow> 'a"
    and width :: nat
  assumes length_enc: "length (enc x) = width"
    and dec_enc: "dec (enc x) = x"
begin

lemma slice_enc: "off = length pre \<Longrightarrow> slice (pre @ enc x @ post) off width = Some (enc x)"
  by (rule slice_middle_eq) (simp_all add: length_enc)

lemma read_enc:
  "off = length pre \<Longrightarrow> map_option dec (slice (pre @ enc x @ post) off width) = Some x"
  by (simp add: slice_enc dec_enc)

lemma enc_inject: "enc x = enc y \<longleftrightarrow> x = y"
  by (metis dec_enc)

lemma length_concat_enc: "length (concat (map enc xs)) = width * length xs"
  by (induction xs) (simp_all add: length_enc)

end

definition le16 :: "wchar \<Rightarrow> byte list" where
  "le16 w = [ucast w, ucast (drop_bit 8 w)]"

fun de16 :: "byte list \<Rightarrow> wchar" where
  "de16 [a, b] = ucast a OR push_bit 8 (ucast b)"
| "de16 _ = 0"

definition le32 :: "dword \<Rightarrow> byte list" where
  "le32 w = [ucast w, ucast (drop_bit 8 w), ucast (drop_bit 16 w), ucast (drop_bit 24 w)]"

fun de32 :: "byte list \<Rightarrow> dword" where
  "de32 [a, b, c, d] =
     ucast a OR push_bit 8 (ucast b) OR push_bit 16 (ucast c) OR push_bit 24 (ucast d)"
| "de32 _ = 0"

lemma de16_le16: "de16 (le16 w) = w"
  unfolding le16_def de16.simps
  by (rule bit_word_eqI) (auto simp: bit_simps)

lemma de32_le32: "de32 (le32 w) = w"
  unfolding le32_def de32.simps
proof (rule bit_word_eqI)
  fix n
  assume n: "n < LENGTH(32)"
  then consider "n < 8" | "8 \<le> n" "n < 16" | "16 \<le> n" "n < 24" | "24 \<le> n" "n < 32"
    by force
  then show "bit (ucast (ucast w :: byte) OR push_bit 8 (ucast (ucast (drop_bit 8 w) :: byte))
      OR push_bit 16 (ucast (ucast (drop_bit 16 w) :: byte))
      OR push_bit 24 (ucast (ucast (drop_bit 24 w) :: byte)) :: dword) n = bit w n"
    by cases (auto simp: bit_simps)
qed

interpretation le16: fixed_codec le16 de16 2
  by unfold_locales (simp add: le16_def, rule de16_le16)

interpretation le32: fixed_codec le32 de32 4
  by unfold_locales (simp add: le32_def, rule de32_le32)

declare le16.length_enc [codec_simps, simp] le32.length_enc [codec_simps, simp]
declare le16.dec_enc [codec_simps, simp] le32.dec_enc [codec_simps, simp]

text \<open>The byte image of a wider word, least significant byte first.\<close>

fun le_bytes :: "nat \<Rightarrow> 'a::len word \<Rightarrow> byte list" where
  "le_bytes 0 w = []"
| "le_bytes (Suc n) w = ucast w # le_bytes n (drop_bit 8 w)"

fun de_bytes :: "byte list \<Rightarrow> 'a::len word" where
  "de_bytes [] = 0"
| "de_bytes (b # bs) = ucast b OR push_bit 8 (de_bytes bs)"

lemma length_le_bytes [simp]: "length (le_bytes n w) = n"
  by (induction n arbitrary: w) simp_all

lemma de_bytes_le_bytes: "de_bytes (le_bytes n w) = take_bit (8 * n) w"
proof (induction n arbitrary: w)
  case 0
  then show ?case by simp
next
  case (Suc n)
  have "ucast (ucast w :: byte) OR push_bit 8 (take_bit (8 * n) (drop_bit 8 w)) =
      take_bit (8 * Suc n) w"
    by (rule bit_word_eqI) (auto simp: bit_simps)
  with Suc show ?case by simp
qed

section \<open>Words\<close>

lemma unat_word_of_nat_small: "n < 2 ^ LENGTH('a) \<Longrightarrow> unat (word_of_nat n :: 'a::len word) = n"
  by (simp add: unsigned_of_nat take_bit_nat_eq_self)

lemma unat_add_small:
  fixes a b :: "'a::len word"
  shows "unat a + unat b < 2 ^ LENGTH('a) \<Longrightarrow> unat (a + b) = unat a + unat b"
  by (simp add: unat_word_ariths)

lemma unat_sub_small:
  fixes a b :: "'a::len word"
  shows "b \<le> a \<Longrightarrow> unat (a - b) = unat a - unat b"
  by (rule unat_sub)

end
