(* ===== verification/Packet.thy ===== *)
theory Packet
  imports Prelude
begin

text \<open>
  The wire format of \<^verbatim>\<open>src/src/packet.hpp\<close> and \<^verbatim>\<open>src/src/packet.cpp\<close>: a packet is a TLV
  chunk whose value is a sequence of TLV chunks, the fields. \<open>PacketSerialiser\<close> builds a packet
  in a byte vector, adding each field's size to the length in the header as it goes;
  \<open>PacketDeserialiser\<close> walks a received buffer once and keeps a pointer to every field.

  Pointers are offsets into the memory the packet was received into, and every read of that
  memory is bounds-checked by the model: a read outside it is the result \<open>OutOfBounds\<close>, which
  stands for undefined behaviour and is not an exception of the code. The walk is written with
  the arithmetic of the code's \<^verbatim>\<open>size_t\<close>, whose width is the type parameter \<open>'z\<close>; as the sum of
  a chunk's header and value can wrap, the walk may fail to end, and it is a partial function. Every
  configuration of the repository is built for Win32, so the theorems about received bytes are at 32 bits.
\<close>

section \<open>Data\<close>

text \<open>\<^verbatim>\<open>GUID\<close> is its 16-byte memory image, on which the code's copies and comparisons act.\<close>

type_synonym guid = "128 word"

definition guid_bytes :: "guid \<Rightarrow> byte list" where
  "guid_bytes g = le_bytes 16 g"

definition guid_of_bytes :: "byte list \<Rightarrow> guid" where
  "guid_of_bytes bs = de_bytes bs"

interpretation guid: fixed_codec guid_bytes guid_of_bytes 16
  by unfold_locales
    (simp_all add: guid_bytes_def guid_of_bytes_def de_bytes_le_bytes take_bit_word_eq_self)

declare guid.length_enc [codec_simps, simp] guid.dec_enc [codec_simps, simp]

definition wstring_bytes :: "wchar list \<Rightarrow> byte list" where
  "wstring_bytes ws = concat (map le16 ws)"

fun wstring_of_bytes :: "byte list \<Rightarrow> wchar list" where
  "wstring_of_bytes (a # b # bs) = de16 [a, b] # wstring_of_bytes bs"
| "wstring_of_bytes _ = []"

lemma length_wstring_bytes [codec_simps, simp]: "length (wstring_bytes ws) = 2 * length ws"
  by (simp add: wstring_bytes_def le16.length_concat_enc)

lemma wstring_of_bytes_bytes [codec_simps, simp]: "wstring_of_bytes (wstring_bytes ws) = ws"
proof (induction ws)
  case Nil
  then show ?case by (simp add: wstring_bytes_def)
next
  case (Cons w ws)
  have "le16 w = [ucast w, ucast (drop_bit 8 w)]"
    by (simp add: le16_def)
  with Cons show ?case
    using le16.dec_enc [of w] by (simp add: wstring_bytes_def)
qed

text \<open>The header of a chunk, \<^verbatim>\<open>struct TLVChunk\<close>: a type and the length of the value after it.\<close>

record TLVChunk =
  chunk_type :: dword
  chunk_value_length :: dword

definition chunk_bytes :: "TLVChunk \<Rightarrow> byte list" where
  "chunk_bytes c = le32 (chunk_type c) @ le32 (chunk_value_length c)"

lemma length_chunk_bytes [codec_simps, simp]: "length (chunk_bytes c) = 8"
  by (simp add: chunk_bytes_def)

definition FIELD_TYPE_NULL :: dword where "FIELD_TYPE_NULL = 0"
definition FIELD_TYPE_DWORD :: dword where "FIELD_TYPE_DWORD = 1"
definition FIELD_TYPE_DATA :: dword where "FIELD_TYPE_DATA = 2"
definition FIELD_TYPE_WSTRING :: dword where "FIELD_TYPE_WSTRING = 3"
definition FIELD_TYPE_GUID :: dword where "FIELD_TYPE_GUID = 4"

lemmas field_type_defs [const_defs] =
  FIELD_TYPE_NULL_def FIELD_TYPE_DWORD_def FIELD_TYPE_DATA_def FIELD_TYPE_WSTRING_def
  FIELD_TYPE_GUID_def

section \<open>Serialiser\<close>

text \<open>
  The state of a \<open>PacketSerialiser\<close> is its byte vector \<open>sbuf\<close>. Every append inserts a chunk at
  the end and adds the chunk's size to the \<^verbatim>\<open>value_length\<close> at offset 4, modulo \<open>2 ^ 32\<close>.
\<close>

type_synonym sbuf = "byte list"

definition PacketSerialiser :: "dword \<Rightarrow> sbuf" where
  "PacketSerialiser type = chunk_bytes \<lparr>chunk_type = type, chunk_value_length = 0\<rparr>"

definition raw_packet :: "sbuf \<Rightarrow> byte list \<times> nat" where
  "raw_packet sbuf = (sbuf, length sbuf)"

definition add_value_length :: "sbuf \<Rightarrow> dword \<Rightarrow> sbuf" where
  "add_value_length sbuf n =
     take 4 sbuf @ le32 (de32 (take 4 (drop 4 sbuf)) + n) @ drop 8 sbuf"

definition append_null :: "sbuf \<Rightarrow> sbuf" where
  "append_null sbuf =
     (let header = \<lparr>chunk_type = FIELD_TYPE_NULL, chunk_value_length = 0\<rparr>
      in add_value_length (sbuf @ chunk_bytes header) 8)"

definition append_dword :: "sbuf \<Rightarrow> dword \<Rightarrow> sbuf" where
  "append_dword sbuf v =
     (let header = \<lparr>chunk_type = FIELD_TYPE_DWORD, chunk_value_length = 4\<rparr>
      in add_value_length (sbuf @ chunk_bytes header @ le32 v) (8 + 4))"

definition append_data :: "sbuf \<Rightarrow> byte list \<Rightarrow> sbuf" where
  "append_data sbuf data =
     (let size = word_of_nat (length data);
          header = \<lparr>chunk_type = FIELD_TYPE_DATA, chunk_value_length = size\<rparr>
      in add_value_length (sbuf @ chunk_bytes header @ data) (8 + size))"

definition append_wstring :: "sbuf \<Rightarrow> wchar list \<Rightarrow> sbuf" where
  "append_wstring sbuf str =
     (let string_bytes = word_of_nat (length str) * 2;
          header = \<lparr>chunk_type = FIELD_TYPE_WSTRING, chunk_value_length = string_bytes\<rparr>
      in add_value_length (sbuf @ chunk_bytes header @ wstring_bytes str) (8 + string_bytes))"

definition append_guid :: "sbuf \<Rightarrow> guid \<Rightarrow> sbuf" where
  "append_guid sbuf g =
     (let header = \<lparr>chunk_type = FIELD_TYPE_GUID, chunk_value_length = 16\<rparr>
      in add_value_length (sbuf @ chunk_bytes header @ guid_bytes g) (8 + 16))"

section \<open>Deserialiser\<close>

text \<open>
  The exceptions \<^verbatim>\<open>PacketDeserialiser::Error\<close> and its subclasses, and \<open>OutOfBounds\<close> for a read
  outside the buffer.
\<close>

datatype pd_error = Incomplete | Malformed | MissingField | TypeMismatch | OutOfBounds

record pd =
  pd_mem :: "byte list"
  pd_header :: nat
  pd_fields :: "nat list"

definition peek32 :: "byte list \<Rightarrow> nat \<Rightarrow> dword option" where
  "peek32 mem off = map_option de32 (slice mem off 4)"

text \<open>The loop of the constructor: \<open>at\<close> and \<open>value_remain\<close> as in the code.\<close>

partial_function (option) pd_scan ::
  "byte list \<Rightarrow> nat \<Rightarrow> 'z::len word \<Rightarrow> nat list \<Rightarrow> (pd_error + nat list) option" where
  "pd_scan mem at value_remain found =
     (if value_remain > 0 then
        if value_remain < 8 then Some (Inl Malformed)
        else case peek32 mem (at + 4) of
          None \<Rightarrow> Some (Inl OutOfBounds)
        | Some value_length \<Rightarrow>
            (if value_remain < 8 + ucast value_length then Some (Inl Malformed)
             else pd_scan mem (at + unat (8 + ucast value_length :: 'z word))
                    (value_remain - (8 + ucast value_length)) (found @ [at]))
      else Some (Inr found))"

declare pd_scan.simps [code]

definition PacketDeserialiser :: "byte list \<Rightarrow> 'z::len word \<Rightarrow> (pd_error + pd) option" where
  "PacketDeserialiser mem packet_size =
     (if packet_size < 8 then Some (Inl Incomplete)
      else case peek32 mem 4 of
        None \<Rightarrow> Some (Inl OutOfBounds)
      | Some value_length \<Rightarrow>
          (if packet_size < 8 + ucast value_length then Some (Inl Incomplete)
           else map_option
             (map_sum id (\<lambda>fs. \<lparr>pd_mem = mem, pd_header = 0, pd_fields = fs\<rparr>))
             (pd_scan mem 8 (ucast value_length :: 'z word) [])))"

text \<open>Reads through a field pointer: \<^verbatim>\<open>fields[index]->type\<close>, \<^verbatim>\<open>->value_length\<close> and the value.\<close>

definition pd_read :: "pd \<Rightarrow> nat \<Rightarrow> nat \<Rightarrow> pd_error + byte list" where
  "pd_read p off n = (case slice (pd_mem p) off n of None \<Rightarrow> Inl OutOfBounds | Some bs \<Rightarrow> Inr bs)"

definition pd_field :: "pd \<Rightarrow> nat \<Rightarrow> pd_error + nat" where
  "pd_field p index =
     (if length (pd_fields p) \<le> index then Inl MissingField else Inr (pd_fields p ! index))"

definition pd_chunk :: "pd \<Rightarrow> nat \<Rightarrow> pd_error + TLVChunk" where
  "pd_chunk p off =
     ebind (pd_read p off 4) (\<lambda>t. ebind (pd_read p (off + 4) 4) (\<lambda>n.
       Inr \<lparr>chunk_type = de32 t, chunk_value_length = de32 n\<rparr>))"

definition packet_type :: "pd \<Rightarrow> pd_error + dword" where
  "packet_type p = ebind (pd_chunk p (pd_header p)) (\<lambda>c. Inr (chunk_type c))"

definition num_fields :: "pd \<Rightarrow> nat" where
  "num_fields p = length (pd_fields p)"

definition is_null :: "pd \<Rightarrow> nat \<Rightarrow> pd_error + bool" where
  "is_null p index =
     ebind (pd_field p index) (\<lambda>off. ebind (pd_chunk p off) (\<lambda>c.
       Inr (chunk_type c = FIELD_TYPE_NULL)))"

definition get_dword :: "pd \<Rightarrow> nat \<Rightarrow> pd_error + dword" where
  "get_dword p index =
     ebind (pd_field p index) (\<lambda>off. ebind (pd_chunk p off) (\<lambda>c.
       if chunk_type c \<noteq> FIELD_TYPE_DWORD then Inl TypeMismatch
       else if chunk_value_length c \<noteq> 4 then Inl Malformed
       else ebind (pd_read p (off + 8) 4) (\<lambda>bs. Inr (de32 bs))))"

text \<open>\<^verbatim>\<open>get_data\<close> returns a pointer and a size; the model returns the bytes they denote.\<close>

definition get_data :: "pd \<Rightarrow> nat \<Rightarrow> pd_error + byte list" where
  "get_data p index =
     ebind (pd_field p index) (\<lambda>off. ebind (pd_chunk p off) (\<lambda>c.
       if chunk_type c \<noteq> FIELD_TYPE_DATA then Inl TypeMismatch
       else pd_read p (off + 8) (unat (chunk_value_length c))))"

definition get_wstring :: "pd \<Rightarrow> nat \<Rightarrow> pd_error + wchar list" where
  "get_wstring p index =
     ebind (pd_field p index) (\<lambda>off. ebind (pd_chunk p off) (\<lambda>c.
       if chunk_type c \<noteq> FIELD_TYPE_WSTRING then Inl TypeMismatch
       else if chunk_value_length c mod 2 \<noteq> 0 then Inl Malformed
       else ebind (pd_read p (off + 8) (2 * unat (chunk_value_length c div 2)))
              (\<lambda>bs. Inr (wstring_of_bytes bs))))"

definition get_guid :: "pd \<Rightarrow> nat \<Rightarrow> pd_error + guid" where
  "get_guid p index =
     ebind (pd_field p index) (\<lambda>off. ebind (pd_chunk p off) (\<lambda>c.
       if chunk_type c \<noteq> FIELD_TYPE_GUID then Inl TypeMismatch
       else if chunk_value_length c \<noteq> 16 then Inl Malformed
       else ebind (pd_read p (off + 8) 16) (\<lambda>bs. Inr (guid_of_bytes bs))))"

section \<open>The packet as a list of fields\<close>

text \<open>
  The abstract view of a packet: its type and the list of typed fields that were appended, and
  the bytes they stand for. \<open>append_field\<close> names the append operation of each kind of field.
\<close>

datatype field = FNull | FDword dword | FData "byte list" | FWstring "wchar list" | FGuid guid

fun field_type :: "field \<Rightarrow> dword" where
  "field_type FNull = FIELD_TYPE_NULL"
| "field_type (FDword v) = FIELD_TYPE_DWORD"
| "field_type (FData d) = FIELD_TYPE_DATA"
| "field_type (FWstring s) = FIELD_TYPE_WSTRING"
| "field_type (FGuid g) = FIELD_TYPE_GUID"

fun field_value :: "field \<Rightarrow> byte list" where
  "field_value FNull = []"
| "field_value (FDword v) = le32 v"
| "field_value (FData d) = d"
| "field_value (FWstring s) = wstring_bytes s"
| "field_value (FGuid g) = guid_bytes g"

definition tlv :: "dword \<Rightarrow> byte list \<Rightarrow> byte list" where
  "tlv t v = chunk_bytes \<lparr>chunk_type = t, chunk_value_length = word_of_nat (length v)\<rparr> @ v"

definition field_bytes :: "field \<Rightarrow> byte list" where
  "field_bytes f = tlv (field_type f) (field_value f)"

definition packet_bytes :: "dword \<Rightarrow> field list \<Rightarrow> byte list" where
  "packet_bytes t fs = tlv t (concat (map field_bytes fs))"

lemma length_tlv [codec_simps, simp]: "length (tlv t v) = 8 + length v"
  by (simp add: tlv_def)

lemma length_field_bytes [codec_simps]: "length (field_bytes f) = 8 + length (field_value f)"
  by (simp add: field_bytes_def)

lemma add_value_length_tlv:
  "add_value_length (tlv t v @ c) n =
     le32 t @ le32 (word_of_nat (length v) + n) @ v @ c"
  by (simp add: add_value_length_def tlv_def chunk_bytes_def)

lemma append_tlv:
  "n = word_of_nat (length c) \<Longrightarrow> add_value_length (tlv t v @ c) n = tlv t (v @ c)"
  unfolding add_value_length_tlv by (simp add: tlv_def chunk_bytes_def)

fun append_field :: "sbuf \<Rightarrow> field \<Rightarrow> sbuf" where
  "append_field b FNull = append_null b"
| "append_field b (FDword v) = append_dword b v"
| "append_field b (FData d) = append_data b d"
| "append_field b (FWstring s) = append_wstring b s"
| "append_field b (FGuid g) = append_guid b g"

lemma PacketSerialiser_packet_bytes: "PacketSerialiser t = packet_bytes t []"
  by (simp add: PacketSerialiser_def packet_bytes_def tlv_def)

lemma append_field_packet_bytes:
  "append_field (packet_bytes t fs) f = packet_bytes t (fs @ [f])"
proof -
  have "append_field (packet_bytes t fs) f =
      add_value_length (packet_bytes t fs @ field_bytes f) (word_of_nat (length (field_bytes f)))"
    by (cases f) (simp_all add: append_null_def append_dword_def append_data_def append_wstring_def
        append_guid_def field_bytes_def tlv_def Let_def mult.commute)
  also have "\<dots> = packet_bytes t (fs @ [f])"
    unfolding packet_bytes_def by (simp add: append_tlv)
  finally show ?thesis .
qed

lemma foldl_append_field: "foldl append_field (packet_bytes t fs) gs = packet_bytes t (fs @ gs)"
  by (induction gs arbitrary: fs) (simp_all add: append_field_packet_bytes)


section \<open>The walk over a packet that was serialised\<close>

fun field_offsets :: "nat \<Rightarrow> field list \<Rightarrow> nat list" where
  "field_offsets off [] = []"
| "field_offsets off (f # fs) = off # field_offsets (off + length (field_bytes f)) fs"

lemma length_field_offsets [simp]: "length (field_offsets off fs) = length fs"
  by (induction fs arbitrary: off) simp_all

lemma peek32_tlv_length:
  "off = length pre + 4 \<Longrightarrow> peek32 (pre @ tlv t v @ post) off = Some (word_of_nat (length v))"
proof -
  assume "off = length pre + 4"
  then have "off = length (pre @ le32 t)" by simp
  from le32.read_enc [OF this, of "word_of_nat (length v)" "v @ post"]
  show ?thesis by (simp add: peek32_def tlv_def chunk_bytes_def)
qed

text \<open>The step of the walk over a field that fits, in the unbounded arithmetic of offsets.\<close>

lemma unat_numeral_8: "32 \<le> LENGTH('z::len) \<Longrightarrow> unat (8 :: 'z word) = 8"
proof -
  assume "32 \<le> LENGTH('z)"
  then have "(2::nat) ^ 32 \<le> 2 ^ LENGTH('z)" by (rule power_increasing) simp
  then show ?thesis using unat_word_of_nat_small [of 8, where 'a = 'z] by simp
qed

lemma pd_scan_field:
  fixes rem :: "'z::len word"
  assumes z: "32 \<le> LENGTH('z)" and at: "at = length pre"
    and fits: "length (tlv t v) + n < 2 ^ 32"
    and rem: "rem = word_of_nat (length (tlv t v) + n)"
  shows "pd_scan (pre @ tlv t v @ post) at rem found =
      pd_scan (pre @ tlv t v @ post) (at + length (tlv t v)) (word_of_nat n :: 'z word) (found @ [at])"
proof -
  have pow: "(2::nat) ^ 32 \<le> 2 ^ LENGTH('z)" using z by (rule power_increasing) simp
  let ?vl = "word_of_nat (length v) :: dword"
  have vl: "unat ?vl = length v" using fits by (simp add: unat_word_of_nat_small)
  have uc: "unat (ucast ?vl :: 'z word) = length v"
    using vl fits pow by (simp add: unsigned_ucast_eq take_bit_nat_eq_self)
  have s: "8 + ucast ?vl = (word_of_nat (8 + length v) :: 'z word)"
    by (rule word_unat_eq_iff [THEN iffD2]) (use uc fits pow in \<open>simp add: unat_word_ariths unsigned_of_nat take_bit_nat_eq_self\<close>)
  have r: "unat rem = 8 + length v + n"
    unfolding rem by (subst unat_word_of_nat_small) (use fits pow in simp_all)
  have s': "unat (8 + ucast ?vl :: 'z word) = 8 + length v"
    unfolding s by (subst unat_word_of_nat_small) (use fits pow in simp_all)
  note e = unat_numeral_8 [OF z]
  have "rem > 0" "\<not> rem < 8" "\<not> rem < 8 + ucast ?vl"
    unfolding word_less_nat_alt r s' e by simp_all
  moreover have "rem - (8 + ucast ?vl) = word_of_nat n"
    unfolding rem s by simp
  moreover have "peek32 (pre @ tlv t v @ post) (at + 4) = Some ?vl"
    using at by (simp add: peek32_tlv_length)
  ultimately show ?thesis
    by (simp add: pd_scan.simps [of "pre @ tlv t v @ post" at rem found] s')
qed

lemma pd_scan_fields:
  assumes z: "32 \<le> LENGTH('z::len)" and fits: "length (concat (map field_bytes fs)) < 2 ^ 32"
  shows "pd_scan (pre @ concat (map field_bytes fs) @ post) (length pre)
      (word_of_nat (length (concat (map field_bytes fs))) :: 'z word) found =
      Some (Inr (found @ field_offsets (length pre) fs))"
  using fits
proof (induction fs arbitrary: pre found)
  case Nil
  then show ?case by (simp add: pd_scan.simps)
next
  case (Cons f fs)
  let ?rest = "concat (map field_bytes fs)"
  have "pd_scan (pre @ field_bytes f @ ?rest @ post) (length pre)
      (word_of_nat (length (field_bytes f) + length ?rest) :: 'z word) found =
      pd_scan (pre @ field_bytes f @ ?rest @ post) (length pre + length (field_bytes f))
        (word_of_nat (length ?rest) :: 'z word) (found @ [length pre])"
    unfolding field_bytes_def
    by (rule pd_scan_field [OF z]) (use Cons.prems in \<open>simp_all add: field_bytes_def\<close>)
  also have "\<dots> = Some (Inr ((found @ [length pre]) @
      field_offsets (length (pre @ field_bytes f)) fs))"
    using Cons.IH [of "pre @ field_bytes f" "found @ [length pre]"] Cons.prems by simp
  finally show ?case by simp
qed

lemma PacketDeserialiser_packet_bytes:
  assumes z: "32 \<le> LENGTH('z::len)" and fits: "length (packet_bytes t fs) < 2 ^ 32"
  shows "PacketDeserialiser (packet_bytes t fs @ rest)
      (word_of_nat (length (packet_bytes t fs)) :: 'z word) =
      Some (Inr \<lparr>pd_mem = packet_bytes t fs @ rest, pd_header = 0, pd_fields = field_offsets 8 fs\<rparr>)"
proof -
  let ?v = "concat (map field_bytes fs)"
  let ?mem = "packet_bytes t fs @ rest"
  let ?vl = "word_of_nat (length ?v) :: dword"
  have pow: "(2::nat) ^ 32 \<le> 2 ^ LENGTH('z)" using z by (rule power_increasing) simp
  have len: "length (packet_bytes t fs) = 8 + length ?v" by (simp add: packet_bytes_def)
  have vl: "unat ?vl = length ?v" using fits len by (simp add: unat_word_of_nat_small)
  have uc: "ucast ?vl = (word_of_nat (length ?v) :: 'z word)"
    by (rule word_unat_eq_iff [THEN iffD2])
      (use vl fits len pow in \<open>simp add: unsigned_ucast_eq unsigned_of_nat take_bit_nat_eq_self\<close>)
  have ps: "(word_of_nat (length (packet_bytes t fs)) :: 'z word) = 8 + word_of_nat (length ?v)"
    by (simp add: len)
  have nless: "\<not> (word_of_nat (length (packet_bytes t fs)) :: 'z word) < 8"
    unfolding word_less_nat_alt unat_numeral_8 [OF z]
    by (subst unat_word_of_nat_small) (use fits pow len in simp_all)
  have "peek32 ?mem 4 = Some ?vl"
    using peek32_tlv_length [of 4 "[]" t ?v rest] by (simp add: packet_bytes_def)
  moreover have "pd_scan ?mem 8 (word_of_nat (length ?v) :: 'z word) [] =
      Some (Inr (field_offsets 8 fs))"
    using pd_scan_fields [OF z, of fs "chunk_bytes \<lparr>chunk_type = t, chunk_value_length = ?vl\<rparr>" rest "[]"]
      fits len by (simp add: packet_bytes_def tlv_def)
  ultimately show ?thesis
    using nless by (simp add: PacketDeserialiser_def uc ps)
qed

section \<open>Access to the fields\<close>

lemma field_split:
  "i < length fs \<Longrightarrow> \<exists>pre post. pre0 @ concat (map field_bytes fs) @ rest = pre @ field_bytes (fs ! i) @ post
     \<and> length pre = field_offsets (length pre0) fs ! i"
proof (induction fs arbitrary: i pre0)
  case Nil
  then show ?case by simp
next
  case (Cons f fs)
  show ?case
  proof (cases i)
    case 0
    then show ?thesis by (intro exI [of _ pre0] exI [of _ "concat (map field_bytes fs) @ rest"]) simp
  next
    case (Suc j)
    with Cons.prems Cons.IH [of j "pre0 @ field_bytes f"] show ?thesis by simp
  qed
qed

text \<open>A field of the packet, located: its chunk and its value are what was appended.\<close>

lemma pd_chunk_tlv:
  assumes "pd_mem p = pre @ tlv t v @ post" and "off = length pre"
  shows "pd_chunk p off = Inr \<lparr>chunk_type = t, chunk_value_length = word_of_nat (length v)\<rparr>"
proof -
  have a: "slice (pd_mem p) off 4 = Some (le32 t)"
    unfolding assms using slice_middle [of pre "le32 t" "le32 (word_of_nat (length v)) @ v @ post"]
    by (simp add: tlv_def chunk_bytes_def)
  have b: "slice (pd_mem p) (off + 4) 4 = Some (le32 (word_of_nat (length v)))"
    unfolding assms
    using slice_middle [of "pre @ le32 t" "le32 (word_of_nat (length v))" "v @ post"]
    by (simp add: tlv_def chunk_bytes_def)
  show ?thesis unfolding pd_chunk_def pd_read_def a b by simp
qed

lemma pd_read_tlv:
  assumes "pd_mem p = pre @ tlv t v @ post" and "off = length pre + 8" and "n = length v"
  shows "pd_read p off n = Inr v"
  unfolding pd_read_def assms
  using slice_middle [of "pre @ chunk_bytes \<lparr>chunk_type = t, chunk_value_length = word_of_nat (length v)\<rparr>" v post]
  by (simp add: tlv_def)

text \<open>What the accessors promise of a packet with the fields \<open>fs\<close>.\<close>

fun as_dword :: "field \<Rightarrow> pd_error + dword" where
  "as_dword (FDword v) = Inr v" | "as_dword _ = Inl TypeMismatch"

fun as_data :: "field \<Rightarrow> pd_error + byte list" where
  "as_data (FData d) = Inr d" | "as_data _ = Inl TypeMismatch"

fun as_wstring :: "field \<Rightarrow> pd_error + wchar list" where
  "as_wstring (FWstring s) = Inr s" | "as_wstring _ = Inl TypeMismatch"

fun as_guid :: "field \<Rightarrow> pd_error + guid" where
  "as_guid (FGuid g) = Inr g" | "as_guid _ = Inl TypeMismatch"

definition field_access :: "(field \<Rightarrow> pd_error + 'a) \<Rightarrow> field list \<Rightarrow> nat \<Rightarrow> pd_error + 'a" where
  "field_access as fs i = (if i < length fs then as (fs ! i) else Inl MissingField)"

definition represents :: "pd \<Rightarrow> dword \<Rightarrow> field list \<Rightarrow> bool" where
  "represents p t fs \<longleftrightarrow>
     packet_type p = Inr t \<and> num_fields p = length fs
     \<and> (\<forall>i. is_null p i = field_access (\<lambda>f. Inr (f = FNull)) fs i)
     \<and> (\<forall>i. get_dword p i = field_access as_dword fs i)
     \<and> (\<forall>i. get_data p i = field_access as_data fs i)
     \<and> (\<forall>i. get_wstring p i = field_access as_wstring fs i)
     \<and> (\<forall>i. get_guid p i = field_access as_guid fs i)"

lemma located_field_access:
  assumes mem: "pd_mem p = pre @ field_bytes f @ post" and i: "pd_field p i = Inr (length pre)"
    and len: "length (field_value f) < 2 ^ 32"
  shows "is_null p i = Inr (f = FNull)" "get_dword p i = as_dword f" "get_data p i = as_data f"
    "get_wstring p i = as_wstring f" "get_guid p i = as_guid f"
proof -
  have vl: "unat (word_of_nat (length (field_value f)) :: dword) = length (field_value f)"
    using len by (simp add: unat_word_of_nat_small)
  note c = pd_chunk_tlv [OF mem [unfolded field_bytes_def] refl]
  note r = pd_read_tlv [OF mem [unfolded field_bytes_def] refl]
  note defs = is_null_def get_dword_def get_data_def get_wstring_def get_guid_def
  show "is_null p i = Inr (f = FNull)" "get_dword p i = as_dword f"
    "get_guid p i = as_guid f"
    by (cases f; simp add: defs i c r const_defs)+
  show "get_data p i = as_data f"
    using vl by (cases f; simp add: defs i c r const_defs)
  show "get_wstring p i = as_wstring f"
  proof (cases f)
    case (FWstring s)
    then have "unat (word_of_nat (2 * length s) :: dword) = 2 * length s" using vl by simp
    then have "(word_of_nat (2 * length s) :: dword) mod 2 = 0"
      "2 * unat ((word_of_nat (2 * length s) :: dword) div 2) = 2 * length s"
      by (simp_all add: unat_div unat_mod word_unat_eq_iff [where w = 0] del: of_nat_mult)
    with FWstring r [of "2 * length s"] show ?thesis
      by (simp add: defs i c const_defs)
  qed (simp_all add: defs i c const_defs)
qed

lemma field_value_le: "f \<in> set fs \<Longrightarrow> length (field_value f) \<le> length (concat (map field_bytes fs))"
  by (induction fs) (auto simp: length_field_bytes)

lemma packet_bytes_represents:
  assumes fits: "length (packet_bytes t fs) < 2 ^ 32"
    and p: "p = \<lparr>pd_mem = packet_bytes t fs @ rest, pd_header = 0, pd_fields = field_offsets 8 fs\<rparr>"
  shows "represents p t fs"
proof -
  let ?v = "concat (map field_bytes fs)"
  let ?h = "chunk_bytes \<lparr>chunk_type = t, chunk_value_length = word_of_nat (length ?v)\<rparr>"
  have mem: "pd_mem p = [] @ tlv t ?v @ rest" by (simp add: p packet_bytes_def)
  have type: "packet_type p = Inr t"
    using pd_chunk_tlv [OF mem refl] by (simp add: packet_type_def p)
  have num: "num_fields p = length fs" by (simp add: p num_fields_def)
  have access: "is_null p i = Inr (fs ! i = FNull) \<and> get_dword p i = as_dword (fs ! i)
      \<and> get_data p i = as_data (fs ! i) \<and> get_wstring p i = as_wstring (fs ! i)
      \<and> get_guid p i = as_guid (fs ! i)" if i: "i < length fs" for i
  proof -
    from field_split [OF i, of ?h rest] obtain pre post where
      m: "pd_mem p = pre @ field_bytes (fs ! i) @ post" and off: "length pre = field_offsets 8 fs ! i"
      using mem by (auto simp: tlv_def)
    have "pd_field p i = Inr (length pre)" using i off by (simp add: pd_field_def p)
    moreover have "length (field_value (fs ! i)) < 2 ^ 32"
      using field_value_le [of "fs ! i" fs] i fits by (simp add: packet_bytes_def)
    ultimately show ?thesis using located_field_access [OF m] by simp
  qed
  have missing: "pd_field p i = Inl MissingField" if "\<not> i < length fs" for i
    using that by (simp add: pd_field_def p)
  show ?thesis
    unfolding represents_def field_access_def using type num access missing
    by (auto simp: is_null_def get_dword_def get_data_def get_wstring_def get_guid_def)
qed

text \<open>
  C12: the serialiser lays a packet out as its abstract view says: whatever sequence of append
  calls built it, the bytes are the header with the type and the total length of the fields,
  then the chunk of each field in the order of the calls (the incremental updates of the length
  in the header add up, modulo \<open>2 ^ 32\<close>).
\<close>

theorem serialiser_layout:
  "foldl append_field (PacketSerialiser t) fs = packet_bytes t fs"
  by (simp add: PacketSerialiser_packet_bytes foldl_append_field)

text \<open>
  C11: round trip. A packet of less than 4 GiB that was built by the serialiser and received
  whole, whatever bytes follow it in the receive buffer, is accepted; the deserialiser reports
  its type and number of fields, and at every index each accessor returns the value that was
  appended, \<open>TypeMismatch\<close> where a field of another type was, and \<open>MissingField\<close> past the end.
\<close>

theorem packet_round_trip:
  assumes "32 \<le> LENGTH('z::len)" and "length (foldl append_field (PacketSerialiser t) fs) < 2 ^ 32"
  shows "\<exists>p. PacketDeserialiser (foldl append_field (PacketSerialiser t) fs @ rest)
      (word_of_nat (length (foldl append_field (PacketSerialiser t) fs)) :: 'z word) = Some (Inr p)
      \<and> represents p t fs"
proof -
  have b: "foldl append_field (PacketSerialiser t) fs = packet_bytes t fs"
    by (simp add: PacketSerialiser_packet_bytes foldl_append_field)
  show ?thesis
    using PacketDeserialiser_packet_bytes [OF assms(1), of t fs rest]
      packet_bytes_represents [of t fs _ rest] assms(2) unfolding b by blast
qed

theorem packet_round_trip_witness:
  "length (foldl append_field (PacketSerialiser 3) [FDword 7, FWstring [65, 66], FNull]) < 2 ^ 32
   \<and> (\<exists>p. PacketDeserialiser
         (foldl append_field (PacketSerialiser 3) [FDword 7, FWstring [65, 66], FNull] @ [9])
         (word_of_nat (length (foldl append_field (PacketSerialiser 3)
            [FDword 7, FWstring [65, 66], FNull])) :: 32 word) = Some (Inr p)
       \<and> represents p 3 [FDword 7, FWstring [65, 66], FNull])"
proof -
  have len: "length (foldl append_field (PacketSerialiser 3) [FDword 7, FWstring [65, 66], FNull])
      < 2 ^ 32"
    by (simp add: append_dword_def append_wstring_def append_null_def PacketSerialiser_def
        add_value_length_def)
  show ?thesis
    using packet_round_trip [where 'z = 32, OF _ len, of "[9]"] len by simp
qed

section \<open>Reads stay inside the packet\<close>

text \<open>
  \<open>fields_within\<close>: every field pointer and the value it announces lie below a limit. \<open>announced\<close>: the
  lengths that the walk over a packet of \<open>n\<close> bytes meets, the header's first, in exact arithmetic.
\<close>

definition fields_within :: "byte list \<Rightarrow> nat \<Rightarrow> nat list \<Rightarrow> bool" where
  "fields_within mem limit offs \<longleftrightarrow>
     (\<forall>off \<in> set offs. \<exists>vl. peek32 mem (off + 4) = Some vl \<and> off + 8 + unat vl \<le> limit)"

function walk_lengths :: "byte list \<Rightarrow> nat \<Rightarrow> nat \<Rightarrow> dword list" where
  "walk_lengths mem at rem =
     (if rem < 8 then []
      else case peek32 mem (at + 4) of
        None \<Rightarrow> []
      | Some vl \<Rightarrow>
          vl # (if rem < 8 + unat vl then [] else walk_lengths mem (at + (8 + unat vl)) (rem - (8 + unat vl))))"
  by pat_completeness auto
termination by (relation "measure (\<lambda>(mem, at, rem). rem)") auto

declare walk_lengths.simps [simp del]

definition announced :: "byte list \<Rightarrow> nat \<Rightarrow> dword list" where
  "announced mem n =
     (if n < 8 then []
      else case peek32 mem 4 of
        None \<Rightarrow> []
      | Some vl \<Rightarrow> vl # (if n < 8 + unat vl then [] else walk_lengths mem 8 (unat vl)))"

lemma peek32_defined: "off + 4 \<le> length mem \<Longrightarrow> \<exists>vl. peek32 mem off = Some vl"
  by (auto simp: peek32_def slice_def)

lemma unat_chunk_size:
  assumes "8 + unat (vl :: dword) < 2 ^ LENGTH('z::len)" and "32 \<le> LENGTH('z)"
  shows "unat (8 + ucast vl :: 'z word) = 8 + unat vl" "unat (ucast vl :: 'z word) = unat vl"
proof -
  show u: "unat (ucast vl :: 'z word) = unat vl"
    using assms(1) by (simp add: unsigned_ucast_eq take_bit_nat_eq_self)
  show "unat (8 + ucast vl :: 'z word) = 8 + unat vl"
    by (subst unat_add_small) (simp_all only: u unat_numeral_8 [OF assms(2)] assms(1))
qed

lemma pd_scan_safe:
  assumes z: "32 \<le> LENGTH('z::len)"
    and "\<forall>vl \<in> set (walk_lengths mem at (unat rem)). 8 + unat vl < 2 ^ LENGTH('z)"
    and "at + unat (rem :: 'z word) \<le> length mem" and "fields_within mem (at + unat rem) found"
  shows "\<exists>r. pd_scan mem at rem found = Some r \<and> r \<noteq> Inl OutOfBounds
      \<and> (\<forall>offs. r = Inr offs \<longrightarrow> fields_within mem (at + unat rem) offs)"
  using assms(2-4)
proof (induction "unat rem" arbitrary: at rem found rule: less_induct)
  case less
  show ?case
  proof (cases "rem > 0 \<and> \<not> rem < 8")
    case False
    then show ?thesis using less.prems by (subst pd_scan.simps) auto
  next
    case True
    then have "\<not> unat rem < unat (8 :: 'z word)" unfolding word_less_nat_alt by blast
    then have r8: "8 \<le> unat rem" by (simp only: unat_numeral_8 [OF z] linorder_not_less)
    then obtain vl where vl: "peek32 mem (at + 4) = Some vl"
      using peek32_defined [of "at + 4" mem] less.prems(2) by fastforce
    have w: "walk_lengths mem at (unat rem) =
        vl # (if unat rem < 8 + unat vl then [] else walk_lengths mem (at + (8 + unat vl)) (unat rem - (8 + unat vl)))"
      using r8 vl by (subst walk_lengths.simps) simp
    have "8 + unat vl < 2 ^ LENGTH('z)" using less.prems(1) unfolding w by simp
    note sz = unat_chunk_size [OF this z]
    show ?thesis
    proof (cases "rem < 8 + ucast vl")
      case True
      with \<open>rem > 0 \<and> \<not> rem < 8\<close> vl show ?thesis by (subst pd_scan.simps) simp
    next
      case False
      let ?rem = "rem - (8 + ucast vl)"
      from False have le: "8 + unat vl \<le> unat rem" by (simp add: word_less_nat_alt sz linorder_not_less)
      have ur: "unat ?rem = unat rem - (8 + unat vl)"
        using False by (subst unat_sub_small) (simp_all add: sz linorder_not_less)
      have e: "pd_scan mem at rem found = pd_scan mem (at + (8 + unat vl)) ?rem (found @ [at])"
        using True vl False by (subst pd_scan.simps) (simp add: sz)
      have lim: "at + (8 + unat vl) + unat ?rem = at + unat rem" using ur le by simp
      have "fields_within mem (at + unat rem) (found @ [at])"
        using less.prems(3) vl le by (auto simp: fields_within_def)
      moreover have "\<forall>vl \<in> set (walk_lengths mem (at + (8 + unat vl)) (unat ?rem)). 8 + unat vl < 2 ^ LENGTH('z)"
        using less.prems(1) le unfolding w ur by simp
      ultimately show ?thesis
        using less.hyps [of ?rem "at + (8 + unat vl)" "found @ [at]"] less.prems(2) ur le r8
        unfolding e lim by simp
    qed
  qed
qed

lemma fields_within_access:
  assumes w: "fields_within (pd_mem p) (length (pd_mem p)) (pd_fields p)"
  shows "is_null p i \<noteq> Inl OutOfBounds" "get_dword p i \<noteq> Inl OutOfBounds"
    "get_data p i \<noteq> Inl OutOfBounds" "get_wstring p i \<noteq> Inl OutOfBounds"
    "get_guid p i \<noteq> Inl OutOfBounds"
proof -
  note defs = is_null_def get_dword_def get_data_def get_wstring_def get_guid_def
  have "is_null p i \<noteq> Inl OutOfBounds \<and> get_dword p i \<noteq> Inl OutOfBounds
      \<and> get_data p i \<noteq> Inl OutOfBounds \<and> get_wstring p i \<noteq> Inl OutOfBounds
      \<and> get_guid p i \<noteq> Inl OutOfBounds"
  proof (cases "i < length (pd_fields p)")
    case False
    then show ?thesis by (simp add: defs pd_field_def)
  next
    case True
    define off where "off = pd_fields p ! i"
    from True have "off \<in> set (pd_fields p)" by (simp add: off_def)
    with w obtain vl where vl: "peek32 (pd_mem p) (off + 4) = Some vl"
      and lim: "off + 8 + unat vl \<le> length (pd_mem p)" by (auto simp: fields_within_def)
    from vl have n: "pd_read p (off + 4) 4 = Inr bs \<Longrightarrow> de32 bs = vl" for bs
      by (auto simp: peek32_def pd_read_def)
    have rd: "pd_read p x k \<noteq> Inl OutOfBounds" if "x + k \<le> off + 8 + unat vl" for x k
      using that lim by (simp add: pd_read_def slice_def)
    have f: "pd_field p i = Inr off" using True by (simp add: pd_field_def off_def)
    obtain t where c: "pd_chunk p off = Inr \<lparr>chunk_type = t, chunk_value_length = vl\<rparr>"
      using n lim by (auto simp: pd_chunk_def pd_read_def slice_def)
    have "2 * unat (vl div 2) \<le> unat vl" by (simp add: unat_div)
    then show ?thesis
      using rd by (auto simp: defs f c ebind_eq_Inl)
  qed
  then show "is_null p i \<noteq> Inl OutOfBounds" "get_dword p i \<noteq> Inl OutOfBounds"
    "get_data p i \<noteq> Inl OutOfBounds" "get_wstring p i \<noteq> Inl OutOfBounds"
    "get_guid p i \<noteq> Inl OutOfBounds" by blast+
qed

lemma PacketDeserialiser_within:
  assumes z: "32 \<le> LENGTH('z::len)"
    and fit: "\<forall>vl \<in> set (announced mem (unat packet_size)). 8 + unat vl < 2 ^ LENGTH('z)"
    and size: "unat (packet_size :: 'z word) \<le> length mem"
  shows "\<exists>r. PacketDeserialiser mem packet_size = Some r \<and> r \<noteq> Inl OutOfBounds
      \<and> (\<forall>p. r = Inr p \<longrightarrow> pd_mem p = mem \<and> fields_within mem (unat packet_size) (pd_fields p))"
proof (cases "packet_size < 8")
  case True
  then show ?thesis by (simp add: PacketDeserialiser_def)
next
  case False
  then have "\<not> unat packet_size < unat (8 :: 'z word)" unfolding word_less_nat_alt .
  then have s8: "8 \<le> unat packet_size" by (simp only: unat_numeral_8 [OF z] linorder_not_less)
  then obtain vl where vl: "peek32 mem 4 = Some vl"
    using peek32_defined [of 4 mem] size by fastforce
  have a: "announced mem (unat packet_size) =
      vl # (if unat packet_size < 8 + unat vl then [] else walk_lengths mem 8 (unat vl))"
    using s8 vl by (simp add: announced_def)
  have "8 + unat vl < 2 ^ LENGTH('z)" using fit unfolding a by simp
  note sz = unat_chunk_size [OF this z]
  show ?thesis
  proof (cases "packet_size < 8 + ucast vl")
    case True
    with False vl show ?thesis by (simp add: PacketDeserialiser_def)
  next
    case nless: False
    then have le: "8 + unat vl \<le> unat packet_size" by (simp add: word_less_nat_alt sz linorder_not_less)
    have "\<exists>r. pd_scan mem 8 (ucast vl :: 'z word) [] = Some r \<and> r \<noteq> Inl OutOfBounds
        \<and> (\<forall>offs. r = Inr offs \<longrightarrow> fields_within mem (8 + unat (ucast vl :: 'z word)) offs)"
      by (rule pd_scan_safe [OF z]) (use le size sz fit a in \<open>simp_all add: fields_within_def\<close>)
    then obtain r where r: "pd_scan mem 8 (ucast vl :: 'z word) [] = Some r" "r \<noteq> Inl OutOfBounds"
      and w: "\<And>offs. r = Inr offs \<Longrightarrow> fields_within mem (8 + unat vl) offs"
      unfolding sz by blast
    have mono: "fields_within mem (8 + unat vl) offs \<Longrightarrow> fields_within mem (unat packet_size) offs" for offs
      using le by (fastforce simp: fields_within_def)
    show ?thesis
      using False nless vl r w mono by (cases r) (auto simp: PacketDeserialiser_def)
  qed
qed

lemma fields_within_take:
  assumes "fields_within mem n offs" "n \<le> length mem"
  shows "fields_within (take n mem) (length (take n mem)) offs"
proof -
  have "peek32 (take n mem) (off + 4) = peek32 mem (off + 4)" if "off + 8 + unat (vl :: dword) \<le> n" for off vl
    using that assms(2) by (simp add: peek32_def slice_def drop_take)
  then have peek: "peek32 mem (off + 4) = Some vl \<Longrightarrow> off + 8 + unat vl \<le> n \<Longrightarrow> peek32 (take n mem) (off + 4) = Some vl" for off vl
    by metis
  have len: "length (take n mem) = n" using assms(2) by simp
  show ?thesis
    unfolding fields_within_def len
  proof
    fix off assume "off \<in> set offs"
    with assms(1) obtain vl where "peek32 mem (off + 4) = Some vl" "off + 8 + unat vl \<le> n"
      unfolding fields_within_def by blast
    with peek show "\<exists>vl. peek32 (take n mem) (off + 4) = Some vl \<and> off + 8 + unat vl \<le> n" by blast
  qed
qed

text \<open>
  C13: the deserialiser of the 32-bit build on received bytes. Whatever the bytes are, as long as no length
  that the walk meets (the header's, or a field's) is within 8 of \<open>2 ^ 32\<close>, the constructor ends, by returning
  or by throwing one of its exceptions, without a read outside the packet; and no accessor of the result, at
  any index, reads beyond the \<open>packet_size\<close> bytes, even where the buffer goes on with the next packet.
\<close>

theorem PacketDeserialiser_safe:
  assumes "unat (packet_size :: 32 word) \<le> length mem"
    and "\<forall>vl \<in> set (announced mem (unat packet_size)). unat vl < 2 ^ 32 - 8"
  shows "\<exists>r. PacketDeserialiser mem packet_size = Some r \<and> r \<noteq> Inl OutOfBounds
      \<and> (\<forall>p i. r = Inr p \<longrightarrow>
          (let q = p\<lparr>pd_mem := take (unat packet_size) mem\<rparr> in
            is_null q i \<noteq> Inl OutOfBounds \<and> get_dword q i \<noteq> Inl OutOfBounds
            \<and> get_data q i \<noteq> Inl OutOfBounds \<and> get_wstring q i \<noteq> Inl OutOfBounds
            \<and> get_guid q i \<noteq> Inl OutOfBounds))"
proof -
  have "\<forall>vl \<in> set (announced mem (unat packet_size)). 8 + unat vl < 2 ^ LENGTH(32)"
  proof
    fix vl assume "vl \<in> set (announced mem (unat packet_size))"
    with assms(2) have "unat vl < 2 ^ 32 - 8" by (rule bspec)
    then show "8 + unat vl < 2 ^ LENGTH(32)" by simp
  qed
  from PacketDeserialiser_within [OF _ this assms(1)]
  obtain r where r: "PacketDeserialiser mem packet_size = Some r" "r \<noteq> Inl OutOfBounds"
    and w: "\<And>p. r = Inr p \<Longrightarrow> pd_mem p = mem \<and> fields_within mem (unat packet_size) (pd_fields p)"
    by auto
  have "fields_within (pd_mem q) (length (pd_mem q)) (pd_fields q)"
    if "r = Inr p" "q = p\<lparr>pd_mem := take (unat packet_size) mem\<rparr>" for p q
    using fields_within_take [of mem "unat packet_size" "pd_fields p"] w [OF that(1)] assms(1) that(2) by simp
  then show ?thesis
    unfolding Let_def by (intro exI [of _ r] conjI r allI impI) (rule fields_within_access, blast)+
qed

text \<open>A packet with one field that announces more bytes than there are, followed by another packet.\<close>

theorem PacketDeserialiser_safe_witness:
  "\<exists>r. PacketDeserialiser (le32 1 @ le32 8 @ le32 2 @ le32 0xFFFF @ le32 7) (16 :: 32 word) = Some r \<and> r \<noteq> Inl OutOfBounds"
proof -
  let ?mem = "le32 1 @ le32 8 @ le32 2 @ le32 0xFFFF @ le32 7"
  have "peek32 ?mem 4 = Some 8" "peek32 ?mem (8 + 4) = Some 0xFFFF"
    by (simp_all add: peek32_def slice_def le32_def)
  then have "announced ?mem 16 = [8, 0xFFFF]" by (simp add: announced_def walk_lengths.simps)
  then show ?thesis using PacketDeserialiser_safe [of 16 ?mem] by auto
qed

section \<open>The 32-bit build\<close>

text \<open>
  With the 32-bit \<^verbatim>\<open>size_t\<close> of the Win32 build the sums \<^verbatim>\<open>sizeof(TLVChunk) + value_length\<close> wrap:
  a field that announces \<open>0xFFFFFFF8\<close> bytes has size 0, so the walk never moves past it, and a
  header that announces \<open>0xFFFFFFFF\<close> bytes passes the check of the packet's size.
\<close>

lemma pd_scan_stuck:
  fixes rem :: "32 word"
  assumes rem: "8 \<le> rem" and vl: "peek32 mem (at + 4) = Some 0xFFFFFFF8"
  shows "pd_scan mem at rem found = None"
proof (rule ccontr)
  assume "pd_scan mem at rem found \<noteq> None"
  then obtain r where ret: "pd_scan mem at rem found = Some r" by auto
  have wrap: "(4294967296 :: 32 word) = 0" by code_simp
  have pos: "0 < rem" using rem by (rule less_le_trans [rotated]) simp
  have "mem = mem \<and> at = at \<and> rem = rem \<longrightarrow> False"
    by (rule pd_scan.raw_induct [where P = "\<lambda>m a r f _. m = mem \<and> a = at \<and> r = rem \<longrightarrow> False", OF _ ret])
      (use assms pos in \<open>(auto simp: wrap split: if_splits; blast)\<close>)
  then show False by simp
qed


definition stuck_packet :: "byte list" where
  "stuck_packet = le32 1 @ le32 8 @ le32 0 @ le32 0xFFFFFFF8"

definition overrun_packet :: "byte list" where
  "overrun_packet = le32 1 @ le32 0xFFFFFFFF"

lemma PacketDeserialiser_overrun:
  "PacketDeserialiser overrun_packet (8 :: 32 word) = Some (Inl OutOfBounds)"
proof -
  have p: "peek32 overrun_packet 4 = Some 0xFFFFFFFF" "peek32 overrun_packet 12 = None"
    by (simp_all add: overrun_packet_def peek32_def slice_def le32_def)
  show ?thesis using p by (simp add: PacketDeserialiser_def pd_scan.simps)
qed

text \<open>
  What the wrap-around means in the 32-bit build. A packet of 16 bytes whose one field
  announces a length with a chunk size of 0 makes the constructor loop forever, and a packet of 8
  bytes whose header announces \<open>0xFFFFFFFF\<close> bytes of fields is read past its end. With a \<^verbatim>\<open>size_t\<close>
  of 64 bits both are rejected with an exception.
\<close>

theorem PacketDeserialiser_wraps_32:
  "PacketDeserialiser stuck_packet (16 :: 32 word) = None
   \<and> PacketDeserialiser overrun_packet (8 :: 32 word) = Some (Inl OutOfBounds)
   \<and> PacketDeserialiser stuck_packet (16 :: 64 word) = Some (Inl Malformed)
   \<and> PacketDeserialiser overrun_packet (8 :: 64 word) = Some (Inl Incomplete)"
proof -
  have p: "peek32 stuck_packet 4 = Some 8" "peek32 stuck_packet (8 + 4) = Some 0xFFFFFFF8"
    by (simp_all add: stuck_packet_def peek32_def slice_def le32_def)
  have q: "peek32 overrun_packet 4 = Some 0xFFFFFFFF"
    by (simp add: overrun_packet_def peek32_def slice_def le32_def)
  have "PacketDeserialiser stuck_packet (16 :: 32 word) = None"
    using pd_scan_stuck [of 8 stuck_packet 8 "[]"] p by (simp add: PacketDeserialiser_def)
  moreover have "PacketDeserialiser stuck_packet (16 :: 64 word) = Some (Inl Malformed)"
    using p by (simp add: PacketDeserialiser_def pd_scan.simps)
  moreover have "PacketDeserialiser overrun_packet (8 :: 64 word) = Some (Inl Incomplete)"
    using q by (simp add: PacketDeserialiser_def)
  ultimately show ?thesis using PacketDeserialiser_overrun by blast
qed

text \<open>
  C30: non-termination on received bytes. In the 32-bit build, any packet that is complete (its
  header announces the bytes that follow) and whose first field, of any type, announces \<open>0xFFFFFFF8\<close> bytes
  makes the constructor loop forever, whatever comes after that field's header.
\<close>

theorem PacketDeserialiser_hangs:
  assumes "8 + length rest < 2 ^ 32 - 8"
  shows "PacketDeserialiser (le32 t @ le32 (word_of_nat (8 + length rest)) @ le32 ft @ le32 0xFFFFFFF8 @ rest)
    (word_of_nat (16 + length rest) :: 32 word) = None"
proof -
  let ?n = "8 + length rest" and ?l = "word_of_nat (8 + length rest) :: 32 word"
  let ?mem = "le32 t @ le32 ?l @ le32 ft @ le32 0xFFFFFFF8 @ rest"
  have p: "peek32 ?mem 4 = Some ?l" "peek32 ?mem (8 + 4) = Some 0xFFFFFFF8"
    by (simp_all add: peek32_def slice_def)
  have u: "unat ?l = ?n" "unat (word_of_nat (16 + length rest) :: 32 word) = 16 + length rest"
    using assms by (simp_all add: unat_of_nat del: of_nat_add)
  have "unat (8 + ?l) = 16 + length rest"
    using u(1) assms by (subst unat_add_small) simp_all
  then have "\<not> (word_of_nat (16 + length rest) :: 32 word) < 8 + ?l" "\<not> (word_of_nat (16 + length rest) :: 32 word) < 8"
    "8 \<le> ?l"
    using u by (simp_all add: word_less_nat_alt word_le_nat_alt del: of_nat_add)
  with p pd_scan_stuck [of ?l ?mem 8 "[]"] show ?thesis by (simp add: PacketDeserialiser_def del: of_nat_add)
qed

theorem PacketDeserialiser_hangs_witness:
  "PacketDeserialiser (le32 1 @ le32 9 @ le32 0 @ le32 0xFFFFFFF8 @ [7]) (17 :: 32 word) = None"
  using PacketDeserialiser_hangs [of "[7]" 1 0] by simp

end
