(* ===== verification/AsyncHandles.thy ===== *)
theory AsyncHandles
  imports Prelude
begin

text \<open>
  The allocator of asynchronous operation handles, \<^verbatim>\<open>src/src/AsyncHandleAllocator.hpp\<close> and
  \<^verbatim>\<open>.cpp\<close>: eight counters, one for each kind of operation, whose values are combined with a tag
  in the three high bits of the handle. The locale \<open>handle_source\<close> is the contract of one counter
  and its \<^verbatim>\<open>new_...()\<close> method; it is interpreted for all eight.
\<close>

section \<open>Data and operations\<close>

record AsyncHandleAllocator =
  next_enum_id :: dpnhandle
  next_connect_id :: dpnhandle
  next_send_id :: dpnhandle
  next_pinfo_id :: dpnhandle
  next_cgroup_id :: dpnhandle
  next_dgroup_id :: dpnhandle
  next_apgroup_id :: dpnhandle
  next_rpgroup_id :: dpnhandle

definition TYPE_MASK :: dpnhandle where "TYPE_MASK = 0xE0000000"
definition TYPE_ENUM :: dpnhandle where "TYPE_ENUM = 0x00000000"
definition TYPE_CONNECT :: dpnhandle where "TYPE_CONNECT = 0x20000000"
definition TYPE_SEND :: dpnhandle where "TYPE_SEND = 0x40000000"
definition TYPE_PINFO :: dpnhandle where "TYPE_PINFO = 0x60000000"
definition TYPE_CGROUP :: dpnhandle where "TYPE_CGROUP = 0x80000000"
definition TYPE_DGROUP :: dpnhandle where "TYPE_DGROUP = 0xA0000000"
definition TYPE_APGROUP :: dpnhandle where "TYPE_APGROUP = 0xC0000000"
definition TYPE_RPGROUP :: dpnhandle where "TYPE_RPGROUP = 0xE0000000"

lemmas handle_type_defs [const_defs] =
  TYPE_MASK_def TYPE_ENUM_def TYPE_CONNECT_def TYPE_SEND_def TYPE_PINFO_def TYPE_CGROUP_def
  TYPE_DGROUP_def TYPE_APGROUP_def TYPE_RPGROUP_def

definition new_allocator :: AsyncHandleAllocator where
  "new_allocator = \<lparr>next_enum_id = 1, next_connect_id = 1, next_send_id = 1, next_pinfo_id = 1,
     next_cgroup_id = 1, next_dgroup_id = 1, next_apgroup_id = 1, next_rpgroup_id = 1\<rparr>"

text \<open>\<open>new_XXX\<close> returns the handle and the new value of the counter.\<close>

definition new_XXX :: "dpnhandle \<Rightarrow> dpnhandle \<Rightarrow> dpnhandle \<times> dpnhandle" where
  "new_XXX next type =
     (let handle = next OR type;
          next' = (next + 1) AND NOT TYPE_MASK
      in (handle, if next' = 0 then 1 else next'))"

definition new_enum :: "AsyncHandleAllocator \<Rightarrow> dpnhandle \<times> AsyncHandleAllocator" where
  "new_enum a = (let (h, n) = new_XXX (next_enum_id a) TYPE_ENUM in (h, a\<lparr>next_enum_id := n\<rparr>))"

definition new_connect :: "AsyncHandleAllocator \<Rightarrow> dpnhandle \<times> AsyncHandleAllocator" where
  "new_connect a =
     (let (h, n) = new_XXX (next_connect_id a) TYPE_CONNECT in (h, a\<lparr>next_connect_id := n\<rparr>))"

definition new_send :: "AsyncHandleAllocator \<Rightarrow> dpnhandle \<times> AsyncHandleAllocator" where
  "new_send a = (let (h, n) = new_XXX (next_send_id a) TYPE_SEND in (h, a\<lparr>next_send_id := n\<rparr>))"

definition new_pinfo :: "AsyncHandleAllocator \<Rightarrow> dpnhandle \<times> AsyncHandleAllocator" where
  "new_pinfo a = (let (h, n) = new_XXX (next_pinfo_id a) TYPE_PINFO in (h, a\<lparr>next_pinfo_id := n\<rparr>))"

definition new_cgroup :: "AsyncHandleAllocator \<Rightarrow> dpnhandle \<times> AsyncHandleAllocator" where
  "new_cgroup a =
     (let (h, n) = new_XXX (next_cgroup_id a) TYPE_CGROUP in (h, a\<lparr>next_cgroup_id := n\<rparr>))"

definition new_dgroup :: "AsyncHandleAllocator \<Rightarrow> dpnhandle \<times> AsyncHandleAllocator" where
  "new_dgroup a =
     (let (h, n) = new_XXX (next_dgroup_id a) TYPE_DGROUP in (h, a\<lparr>next_dgroup_id := n\<rparr>))"

definition new_apgroup :: "AsyncHandleAllocator \<Rightarrow> dpnhandle \<times> AsyncHandleAllocator" where
  "new_apgroup a =
     (let (h, n) = new_XXX (next_apgroup_id a) TYPE_APGROUP in (h, a\<lparr>next_apgroup_id := n\<rparr>))"

definition new_rpgroup :: "AsyncHandleAllocator \<Rightarrow> dpnhandle \<times> AsyncHandleAllocator" where
  "new_rpgroup a =
     (let (h, n) = new_XXX (next_rpgroup_id a) TYPE_RPGROUP in (h, a\<lparr>next_rpgroup_id := n\<rparr>))"

lemmas new_handle_defs = new_enum_def new_connect_def new_send_def new_pinfo_def new_cgroup_def
  new_dgroup_def new_apgroup_def new_rpgroup_def

section \<open>One counter\<close>

text \<open>The values a counter takes: the low 29 bits, never 0.\<close>

definition valid_id :: "dpnhandle \<Rightarrow> bool" where
  "valid_id n \<longleftrightarrow> 0 < unat n \<and> unat n < 2 ^ 29"

lemma and_not_type_mask: "x AND NOT TYPE_MASK = take_bit 29 x"
proof -
  have "NOT TYPE_MASK = mask 29" by (simp add: TYPE_MASK_def mask_eq_exp_minus_1)
  then show ?thesis by (simp add: take_bit_eq_mask)
qed

lemma valid_id_take_bit: "valid_id n \<Longrightarrow> take_bit 29 n = n"
  by (simp add: valid_id_def word_unat_eq_iff unsigned_take_bit_eq take_bit_nat_eq_self)

lemma new_XXX_next:
  assumes "valid_id n"
  shows "valid_id (snd (new_XXX n type))"
    and "unat (snd (new_XXX n type)) = (if unat n = 2 ^ 29 - 1 then 1 else unat n + 1)"
proof -
  have u: "unat (n + 1) = unat n + 1"
    using assms by (subst unat_add_small) (simp_all add: valid_id_def)
  have t: "unat (take_bit 29 (n + 1)) = (if unat n = 2 ^ 29 - 1 then 0 else unat n + 1)"
    using assms unfolding unsigned_take_bit_eq u
    by (auto simp: valid_id_def take_bit_nat_eq_self take_bit_eq_mod)
  have z: "take_bit 29 (n + 1) = 0 \<longleftrightarrow> unat n = 2 ^ 29 - 1"
    using t by (simp add: word_unat_eq_iff split: if_splits)
  show s: "unat (snd (new_XXX n type)) = (if unat n = 2 ^ 29 - 1 then 1 else unat n + 1)"
    using t z by (simp add: new_XXX_def and_not_type_mask Let_def)
  show "valid_id (snd (new_XXX n type))"
    using assms unfolding valid_id_def s by auto
qed

lemma new_XXX_tag:
  assumes "valid_id n" and "type AND TYPE_MASK = type"
  shows "fst (new_XXX n type) AND TYPE_MASK = type"
    and "fst (new_XXX n type) AND NOT TYPE_MASK = n"
proof -
  have n: "n AND NOT TYPE_MASK = n"
    using assms(1) by (simp add: and_not_type_mask valid_id_take_bit)
  have "n AND TYPE_MASK = (n AND NOT TYPE_MASK) AND TYPE_MASK" unfolding n ..
  then have n0: "n AND TYPE_MASK = 0" by (simp add: and.assoc)
  show "fst (new_XXX n type) AND TYPE_MASK = type"
    using assms(2) n0 by (simp add: new_XXX_def Let_def bit.conj_disj_distrib2)
  have "type AND NOT TYPE_MASK = (type AND TYPE_MASK) AND NOT TYPE_MASK" unfolding assms(2) ..
  then have "type AND NOT TYPE_MASK = 0" by (simp add: and.assoc)
  then show "fst (new_XXX n type) AND NOT TYPE_MASK = n"
    using n by (simp add: new_XXX_def Let_def bit.conj_disj_distrib2)
qed

text \<open>
  The contract of one counter and its method, over the allocator as a whole: the method hands out
  the counter's value under its tag and advances only that counter.
\<close>

locale handle_source =
  fixes new :: "'a \<Rightarrow> dpnhandle \<times> 'a"
    and nxt :: "'a \<Rightarrow> dpnhandle"
    and type :: dpnhandle
  assumes fst_new: "fst (new a) = fst (new_XXX (nxt a) type)"
    and nxt_new: "nxt (snd (new a)) = snd (new_XXX (nxt a) type)"
    and type_tag: "type AND TYPE_MASK = type"
begin

definition after :: "nat \<Rightarrow> 'a \<Rightarrow> 'a" where
  "after k a = ((snd \<circ> new) ^^ k) a"

lemma after_nxt:
  assumes "valid_id (nxt a)"
  shows "valid_id (nxt (after k a)) \<and>
    unat (nxt (after k a)) = 1 + (unat (nxt a) - 1 + k) mod (2 ^ 29 - 1)"
proof (induction k)
  case 0
  have "unat (nxt a) - 1 < 2 ^ 29 - 1" using assms by (auto simp: valid_id_def)
  then have "(unat (nxt a) - 1) mod (2 ^ 29 - 1) = unat (nxt a) - 1" by (rule mod_less)
  then show ?case using assms by (simp add: after_def valid_id_def)
next
  case (Suc k)
  let ?n = "nxt (after k a)"
  let ?m = "unat (nxt a) - 1 + k"
  have s: "nxt (after (Suc k) a) = snd (new_XXX ?n type)" by (simp add: after_def nxt_new)
  have "unat (nxt (after (Suc k) a)) = (if unat ?n = 2 ^ 29 - 1 then 1 else unat ?n + 1)"
    using Suc new_XXX_next(2) [of ?n] unfolding s by simp
  also have "\<dots> = 1 + Suc ?m mod (2 ^ 29 - 1)"
    using Suc by (simp add: mod_Suc)
  finally show ?case using Suc new_XXX_next(1) [of ?n] unfolding s by simp
qed

lemma handle_tag:
  assumes "valid_id (nxt a)"
  shows "fst (new (after k a)) AND TYPE_MASK = type"
    and "fst (new (after k a)) AND NOT TYPE_MASK = nxt (after k a)"
  using after_nxt [OF assms, of k] new_XXX_tag [OF _ type_tag] by (simp_all add: fst_new)

lemma handles_distinct:
  assumes v: "valid_id (nxt a)" and k: "i < j" "j < i + (2 ^ 29 - 1)"
  shows "fst (new (after i a)) \<noteq> fst (new (after j a))"
proof
  assume "fst (new (after i a)) = fst (new (after j a))"
  then have "nxt (after i a) = nxt (after j a)" using handle_tag(2) [OF v] by metis
  then have "(unat (nxt a) - 1 + i) mod (2 ^ 29 - 1) = (unat (nxt a) - 1 + j) mod (2 ^ 29 - 1)"
    using after_nxt [OF v] by (metis add_left_cancel)
  then have "(2 ^ 29 - 1) dvd (unat (nxt a) - 1 + j) - (unat (nxt a) - 1 + i)"
    using k by (metis mod_eq_dvd_iff_nat add_le_cancel_left less_imp_le)
  then show False using k by (auto dest: dvd_imp_le)
qed

end


interpretation enum_handles: handle_source new_enum next_enum_id TYPE_ENUM
  by unfold_locales (simp_all add: new_enum_def split_beta Let_def const_defs)

interpretation connect_handles: handle_source new_connect next_connect_id TYPE_CONNECT
  by unfold_locales (simp_all add: new_connect_def split_beta Let_def const_defs)

interpretation send_handles: handle_source new_send next_send_id TYPE_SEND
  by unfold_locales (simp_all add: new_send_def split_beta Let_def const_defs)

interpretation pinfo_handles: handle_source new_pinfo next_pinfo_id TYPE_PINFO
  by unfold_locales (simp_all add: new_pinfo_def split_beta Let_def const_defs)

interpretation cgroup_handles: handle_source new_cgroup next_cgroup_id TYPE_CGROUP
  by unfold_locales (simp_all add: new_cgroup_def split_beta Let_def const_defs)

interpretation dgroup_handles: handle_source new_dgroup next_dgroup_id TYPE_DGROUP
  by unfold_locales (simp_all add: new_dgroup_def split_beta Let_def const_defs)

interpretation apgroup_handles: handle_source new_apgroup next_apgroup_id TYPE_APGROUP
  by unfold_locales (simp_all add: new_apgroup_def split_beta Let_def const_defs)

interpretation rpgroup_handles: handle_source new_rpgroup next_rpgroup_id TYPE_RPGROUP
  by unfold_locales (simp_all add: new_rpgroup_def split_beta Let_def const_defs)

section \<open>The allocator as a state machine\<close>

text \<open>The operation kinds, and any interleaving of allocations as a list of them.\<close>

datatype handle_kind = KEnum | KConnect | KSend | KPinfo | KCgroup | KDgroup | KApgroup | KRpgroup

fun new_handle :: "handle_kind \<Rightarrow> AsyncHandleAllocator \<Rightarrow> dpnhandle \<times> AsyncHandleAllocator" where
  "new_handle KEnum = new_enum"
| "new_handle KConnect = new_connect"
| "new_handle KSend = new_send"
| "new_handle KPinfo = new_pinfo"
| "new_handle KCgroup = new_cgroup"
| "new_handle KDgroup = new_dgroup"
| "new_handle KApgroup = new_apgroup"
| "new_handle KRpgroup = new_rpgroup"

fun kind_type :: "handle_kind \<Rightarrow> dpnhandle" where
  "kind_type KEnum = TYPE_ENUM"
| "kind_type KConnect = TYPE_CONNECT"
| "kind_type KSend = TYPE_SEND"
| "kind_type KPinfo = TYPE_PINFO"
| "kind_type KCgroup = TYPE_CGROUP"
| "kind_type KDgroup = TYPE_DGROUP"
| "kind_type KApgroup = TYPE_APGROUP"
| "kind_type KRpgroup = TYPE_RPGROUP"

fun kind_next :: "handle_kind \<Rightarrow> AsyncHandleAllocator \<Rightarrow> dpnhandle" where
  "kind_next KEnum = next_enum_id"
| "kind_next KConnect = next_connect_id"
| "kind_next KSend = next_send_id"
| "kind_next KPinfo = next_pinfo_id"
| "kind_next KCgroup = next_cgroup_id"
| "kind_next KDgroup = next_dgroup_id"
| "kind_next KApgroup = next_apgroup_id"
| "kind_next KRpgroup = next_rpgroup_id"

fun allocate :: "AsyncHandleAllocator \<Rightarrow> handle_kind list \<Rightarrow> dpnhandle list \<times> AsyncHandleAllocator" where
  "allocate a [] = ([], a)"
| "allocate a (k # ks) =
     (let (h, a') = new_handle k a; (hs, a'') = allocate a' ks in (h # hs, a''))"

definition allocator_inv :: "AsyncHandleAllocator \<Rightarrow> bool" where
  "allocator_inv a \<longleftrightarrow> (\<forall>k. valid_id (kind_next k a))"

lemma kind_source: "handle_source (new_handle k) (kind_next k) (kind_type k)"
  by (cases k)
    (simp_all add: enum_handles.handle_source_axioms connect_handles.handle_source_axioms
      send_handles.handle_source_axioms pinfo_handles.handle_source_axioms
      cgroup_handles.handle_source_axioms dgroup_handles.handle_source_axioms
      apgroup_handles.handle_source_axioms rpgroup_handles.handle_source_axioms)

lemma kind_next_other: "j \<noteq> k \<Longrightarrow> kind_next j (snd (new_handle k a)) = kind_next j a"
  by (cases j; cases k) (simp_all add: new_handle_defs split_beta Let_def)

lemma kind_next_same: "kind_next k (snd (new_handle k a)) = snd (new_XXX (kind_next k a) (kind_type k))"
  by (rule handle_source.nxt_new [OF kind_source])

lemma new_handle_inv: "allocator_inv a \<Longrightarrow> allocator_inv (snd (new_handle k a))"
  unfolding allocator_inv_def
  by (metis kind_next_other kind_next_same new_XXX_next(1))

lemma new_handle_tag:
  assumes "allocator_inv a"
  shows "fst (new_handle k a) AND TYPE_MASK = kind_type k"
    and "fst (new_handle k a) AND NOT TYPE_MASK = kind_next k a"
  using assms new_XXX_tag handle_source.fst_new [OF kind_source, of k a]
    handle_source.type_tag [OF kind_source, of k]
  by (simp_all add: allocator_inv_def)

lemma kind_type_inject: "kind_type j = kind_type k \<longleftrightarrow> j = k"
  by (cases j; cases k) (simp_all add: const_defs)

lemma new_allocator_inv: "allocator_inv new_allocator"
  unfolding allocator_inv_def
proof
  fix k show "valid_id (kind_next k new_allocator)"
    by (cases k) (simp_all add: new_allocator_def valid_id_def)
qed


lemma allocate_Cons:
  "allocate a (k # ks) =
     (fst (new_handle k a) # fst (allocate (snd (new_handle k a)) ks),
      snd (allocate (snd (new_handle k a)) ks))"
  by (simp add: split_beta Let_def)

declare allocate.simps(2) [simp del]

lemma allocate_inv: "allocator_inv a \<Longrightarrow> allocator_inv (snd (allocate a ks))"
  by (induction ks arbitrary: a) (simp_all add: allocate_Cons new_handle_inv)

lemma length_allocate: "length (fst (allocate a ks)) = length ks"
  by (induction ks arbitrary: a) (simp_all add: allocate_Cons)

lemma allocate_nth:
  "i < length ks \<Longrightarrow>
     fst (allocate a ks) ! i = fst (new_handle (ks ! i) (snd (allocate a (take i ks))))"
proof (induction ks arbitrary: a i)
  case Nil
  then show ?case by simp
next
  case (Cons k ks)
  then show ?case by (cases i) (simp_all add: allocate_Cons)
qed

lemma kind_next_allocate:
  assumes "allocator_inv a"
  shows "unat (kind_next k (snd (allocate a ks))) =
    1 + (unat (kind_next k a) - 1 + count_list ks k) mod (2 ^ 29 - 1)"
  using assms
proof (induction ks arbitrary: a)
  case Nil
  then have "valid_id (kind_next k a)" by (simp add: allocator_inv_def)
  then have "unat (kind_next k a) - 1 < 2 ^ 29 - 1" "0 < unat (kind_next k a)"
    by (auto simp: valid_id_def)
  then show ?case by simp
next
  case (Cons j ks)
  let ?a = "snd (new_handle j a)"
  have v: "valid_id (kind_next k a)" using Cons.prems by (simp add: allocator_inv_def)
  have IH: "unat (kind_next k (snd (allocate ?a ks))) =
      1 + (unat (kind_next k ?a) - 1 + count_list ks k) mod (2 ^ 29 - 1)"
    using Cons new_handle_inv by blast
  show ?case
  proof (cases "j = k")
    case False
    with IH show ?thesis by (simp add: allocate_Cons kind_next_other)
  next
    case True
    have "unat (kind_next k ?a) =
        (if unat (kind_next k a) = 2 ^ 29 - 1 then 1 else unat (kind_next k a) + 1)"
      using new_XXX_next(2) [OF v] True kind_next_same by metis
    with v have "(unat (kind_next k ?a) - 1 + count_list ks k) mod (2 ^ 29 - 1) =
        (unat (kind_next k a) - 1 + Suc (count_list ks k)) mod (2 ^ 29 - 1)"
      by (auto simp: valid_id_def)
    with IH True show ?thesis by (simp add: allocate_Cons)
  qed
qed

lemma allocate_handle:
  assumes "i < length ks"
  shows "fst (allocate new_allocator ks) ! i AND TYPE_MASK = kind_type (ks ! i)"
    and "unat (fst (allocate new_allocator ks) ! i AND NOT TYPE_MASK) =
      1 + count_list (take i ks) (ks ! i) mod (2 ^ 29 - 1)"
proof -
  let ?a = "snd (allocate new_allocator (take i ks))"
  have inv: "allocator_inv ?a" by (rule allocate_inv [OF new_allocator_inv])
  have "unat (kind_next (ks ! i) new_allocator) = 1"
    by (cases "ks ! i") (simp_all add: new_allocator_def)
  then have n: "unat (kind_next (ks ! i) ?a) = 1 + count_list (take i ks) (ks ! i) mod (2 ^ 29 - 1)"
    using kind_next_allocate [OF new_allocator_inv, of "ks ! i" "take i ks"] by simp
  show "fst (allocate new_allocator ks) ! i AND TYPE_MASK = kind_type (ks ! i)"
    using new_handle_tag(1) [OF inv] by (simp add: allocate_nth [OF assms])
  show "unat (fst (allocate new_allocator ks) ! i AND NOT TYPE_MASK) =
      1 + count_list (take i ks) (ks ! i) mod (2 ^ 29 - 1)"
    using new_handle_tag(2) [OF inv] n by (simp add: allocate_nth [OF assms])
qed

lemma count_list_take_less:
  "i < j \<Longrightarrow> j \<le> length ks \<Longrightarrow> count_list (take i ks) (ks ! i) < count_list (take j ks) (ks ! i)"
proof -
  assume a: "i < j" "j \<le> length ks"
  then have "take j ks = take (Suc i) ks @ take (j - Suc i) (drop (Suc i) ks)"
    using take_add [of "Suc i" "j - Suc i" ks] by simp
  also have "take (Suc i) ks = take i ks @ [ks ! i]"
    using a by (simp add: take_Suc_conv_app_nth)
  finally show ?thesis by simp
qed

lemma count_list_replicate: "count_list (replicate n x) x = n"
  by (induction n) simp_all

lemma allocate_distinct:
  assumes "\<And>k. count_list ks k < 2 ^ 29"
  shows "distinct (fst (allocate new_allocator ks))"
proof -
  let ?h = "\<lambda>i. fst (allocate new_allocator ks) ! i"
  have neq: "?h i \<noteq> ?h j" if ij: "i < j" "j < length ks" for i j
  proof
    assume eq: "?h i = ?h j"
    have k: "ks ! i = ks ! j"
      using allocate_handle(1) [of i ks] allocate_handle(1) [of j ks] eq ij kind_type_inject by simp
    let ?c = "\<lambda>m. count_list (take m ks) (ks ! i)"
    have "?c j < count_list ks (ks ! i)"
      using count_list_take_less [of j "length ks" ks] ij k by simp
    with assms [of "ks ! i"] have "?c j < 2 ^ 29 - 1" by simp
    moreover have "?c i < ?c j" using count_list_take_less [of i j ks] ij by simp
    moreover have "?c i mod (2 ^ 29 - 1) = ?c j mod (2 ^ 29 - 1)"
      using allocate_handle(2) [of i ks] allocate_handle(2) [of j ks] eq ij k by simp
    ultimately show False by simp
  qed
  then show ?thesis unfolding distinct_conv_nth length_allocate by (metis linorder_neqE_nat)
qed

lemma handle_parts: "(x :: dpnhandle) = y \<longleftrightarrow> x AND TYPE_MASK = y AND TYPE_MASK \<and> x AND NOT TYPE_MASK = y AND NOT TYPE_MASK"
  by (metis bit.conj_disj_distrib bit.disj_cancel_right and.right_neutral)

text \<open>
  C34: along any sequence of allocations of mixed kinds, of any length, the tag in the high bits of every
  handle is that of its kind, so \<^verbatim>\<open>CancelAsyncOperation\<close> can dispatch on it; the low bits count the
  allocations of the kind from 1 and start again at 1 after \<open>2 ^ 29 - 1\<close> of them, so that no handle is ever 0;
  and two handles are equal exactly when they are of one kind and a whole number of turns of its counter
  apart. In particular all handles are distinct as long as no kind is allocated \<open>2 ^ 29\<close> times.
\<close>

theorem handles_tagged_distinct:
  assumes "i < length ks" "j < length ks"
  shows "let h = \<lambda>m. fst (allocate new_allocator ks) ! m;
             turn = \<lambda>m. count_list (take m ks) (ks ! m) mod (2 ^ 29 - 1) in
     h i AND TYPE_MASK = kind_type (ks ! i)
     \<and> unat (h i AND NOT TYPE_MASK) = 1 + turn i
     \<and> h i \<noteq> 0
     \<and> (h i = h j \<longleftrightarrow> ks ! i = ks ! j \<and> turn i = turn j)
     \<and> ((\<forall>k. count_list ks k < 2 ^ 29) \<longrightarrow> distinct (fst (allocate new_allocator ks)))"
proof -
  let ?h = "\<lambda>m. fst (allocate new_allocator ks) ! m"
  note hi = allocate_handle [OF assms(1)] and hj = allocate_handle [OF assms(2)]
  have "unat (?h i AND NOT TYPE_MASK) \<noteq> 0" using hi(2) by linarith
  then have "?h i \<noteq> 0" by auto
  moreover have "?h i = ?h j \<longleftrightarrow> ks ! i = ks ! j
      \<and> count_list (take i ks) (ks ! i) mod (2 ^ 29 - 1) = count_list (take j ks) (ks ! j) mod (2 ^ 29 - 1)"
    unfolding handle_parts [of "?h i"] hi(1) hj(1) kind_type_inject word_unat_eq_iff [of "_ AND NOT _"] hi(2) hj(2) by simp
  ultimately show ?thesis using hi allocate_distinct [of ks] unfolding Let_def by blast
qed

text \<open>
  A send handle and a handle of another kind, and the first send handle met again a whole turn later.
\<close>

theorem handles_tagged_distinct_witness:
  "fst (allocate new_allocator [KSend, KRpgroup, KSend]) ! 0 \<noteq> fst (allocate new_allocator [KSend, KRpgroup, KSend]) ! 2
   \<and> fst (allocate new_allocator (replicate (2 ^ 29) KSend)) ! 0
     = fst (allocate new_allocator (replicate (2 ^ 29) KSend)) ! (2 ^ 29 - 1)"
proof
  show "fst (allocate new_allocator [KSend, KRpgroup, KSend]) ! 0 \<noteq> fst (allocate new_allocator [KSend, KRpgroup, KSend]) ! 2"
    using handles_tagged_distinct [of 0 "[KSend, KRpgroup, KSend]" 2] by (simp add: Let_def)
  let ?ks = "replicate (2 ^ 29) KSend"
  have l: "0 < length ?ks" "2 ^ 29 - 1 < length ?ks" by simp_all
  show "fst (allocate new_allocator ?ks) ! 0 = fst (allocate new_allocator ?ks) ! (2 ^ 29 - 1)"
    using handles_tagged_distinct [OF l] by (simp add: Let_def count_list_replicate del: replicate.simps)
qed

text \<open>
  the header says that \<open>0xFFFFFFFF\<close> is an impossible handle. It is what the
  \<open>2 ^ 29 - 1\<close>st call of \<^verbatim>\<open>new_rpgroup()\<close> returns; no other kind of handle takes that value.
\<close>

theorem handle_all_ones:
  "fst (allocate new_allocator (replicate (2 ^ 29 - 1) KRpgroup)) ! (2 ^ 29 - 2) = 0xFFFFFFFF
   \<and> 0xFFFFFFFF \<notin> {fst (allocate new_allocator ks) ! i | ks i. i < length ks \<and> ks ! i \<noteq> KRpgroup}"
proof (intro conjI)
  let ?N = "2 ^ 29 - 1 :: nat"
  let ?ks = "replicate ?N KRpgroup"
  let ?h = "fst (allocate new_allocator ?ks) ! (2 ^ 29 - 2)"
  have i: "2 ^ 29 - 2 < length ?ks" by simp
  have t: "?h AND TYPE_MASK = TYPE_RPGROUP"
    using allocate_handle(1) [OF i] nth_replicate [of "2 ^ 29 - 2" ?N KRpgroup] i
    by (simp del: replicate.simps)
  have "unat (?h AND NOT TYPE_MASK) = 2 ^ 29 - 1"
    using allocate_handle(2) [OF i] nth_replicate [of "2 ^ 29 - 2" ?N KRpgroup] i
    by (simp add: count_list_replicate del: replicate.simps)
  then have n: "?h AND NOT TYPE_MASK = 0x1FFFFFFF" by (simp add: word_unat_eq_iff)
  have "?h = (?h AND TYPE_MASK) OR (?h AND NOT TYPE_MASK)"
    by (simp add: bit.conj_disj_distrib [symmetric])
  also have "\<dots> = 0xFFFFFFFF" unfolding t n by (simp add: TYPE_RPGROUP_def)
  finally show "?h = 0xFFFFFFFF" .
next
  have "fst (allocate new_allocator ks) ! i \<noteq> 0xFFFFFFFF" if i: "i < length ks" "ks ! i \<noteq> KRpgroup"
    for ks i
  proof
    assume "fst (allocate new_allocator ks) ! i = 0xFFFFFFFF"
    with allocate_handle(1) [of i ks] i have "kind_type (ks ! i) = kind_type KRpgroup"
      by (simp add: TYPE_MASK_def TYPE_RPGROUP_def)
    with i kind_type_inject show False by blast
  qed
  then show "0xFFFFFFFF \<notin> {fst (allocate new_allocator ks) ! i | ks i. i < length ks \<and> ks ! i \<noteq> KRpgroup}"
    by fastforce
qed

end
