(* ===== verification/SendQueue.thy ===== *)
theory SendQueue
  imports Packet "HOL-Library.Multiset"
begin

text \<open>
  The send queue of \<^verbatim>\<open>src/src/SendQueue.hpp\<close> and \<^verbatim>\<open>.cpp\<close>: three lists of send operations, one
  for each priority, and the operation in transmission (\<open>current\<close>). The callback of an operation is
  the type parameter \<open>'cb\<close>; the peer theories instantiate it with the closures the code installs.
  The event object given to the constructor is the flag \<open>signal_on_queue\<close>.

  An operation is identified by its content: the only comparison of operation pointers is the
  assertion of \<open>pop_pending\<close>, whose failure is the result \<open>None\<close>.

  The locale \<open>send_discipline\<close> states what the transmitting code relies on (the operation in
  transmission stays until it is popped, the rest is served in a fixed order, nothing is lost),
  and proves what the loop of \<^verbatim>\<open>io_peer_send\<close> gets from it.
\<close>

section \<open>Data\<close>

datatype SendPriority = SEND_PRI_LOW | SEND_PRI_MEDIUM | SEND_PRI_HIGH

text \<open>Priorities are ordered like the values of the enumeration.\<close>

fun priority_value :: "SendPriority \<Rightarrow> nat" where
  "priority_value SEND_PRI_LOW = 1"
| "priority_value SEND_PRI_MEDIUM = 2"
| "priority_value SEND_PRI_HIGH = 4"

lemma priority_value_inject: "priority_value p = priority_value p' \<Longrightarrow> p = p'"
  by (cases p; cases p') simp_all

instantiation SendPriority :: linorder
begin

definition less_eq_SendPriority :: "SendPriority \<Rightarrow> SendPriority \<Rightarrow> bool" where
  "p \<le> p' \<longleftrightarrow> priority_value p \<le> priority_value p'"

definition less_SendPriority :: "SendPriority \<Rightarrow> SendPriority \<Rightarrow> bool" where
  "p < p' \<longleftrightarrow> priority_value p < priority_value p'"

instance
  by standard (auto simp: less_eq_SendPriority_def less_SendPriority_def intro: priority_value_inject)

end

text \<open>An IPv4 socket address; the address and the port as the code stores them.\<close>

record sockaddr_in =
  sin_addr :: dword
  sin_port :: "16 word"

record 'cb SendOp =
  op_data :: "byte list"
  sent_data :: nat
  dest_addr :: "sockaddr_in option"
  dest_addr_size :: nat
  callback :: 'cb
  async_handle :: dpnhandle

record 'cb SendQueue =
  low_queue :: "'cb SendOp list"
  medium_queue :: "'cb SendOp list"
  high_queue :: "'cb SendOp list"
  current :: "'cb SendOp option"
  signal_on_queue :: bool

definition new_SendQueue :: "'cb SendQueue" where
  "new_SendQueue = \<lparr>low_queue = [], medium_queue = [], high_queue = [], current = None,
     signal_on_queue = False\<rparr>"

section \<open>Operations of a send operation\<close>

text \<open>
  \<^verbatim>\<open>sizeof(struct sockaddr_in)\<close>. The assertion of the constructor of \<open>SendOp\<close>, that the address
  fits into a \<^verbatim>\<open>sockaddr_storage\<close> of 128 bytes, holds for the two sizes \<open>send_async\<close> passes.
\<close>

definition sizeof_sockaddr_in :: nat where
  "sizeof_sockaddr_in = 16"

definition new_SendOp :: "byte list \<Rightarrow> sockaddr_in option \<Rightarrow> nat \<Rightarrow> dpnhandle \<Rightarrow> 'cb \<Rightarrow> 'cb SendOp" where
  "new_SendOp data addr addr_size handle cb =
     \<lparr>op_data = data, sent_data = 0, dest_addr = addr, dest_addr_size = addr_size, callback = cb,
      async_handle = handle\<rparr>"

definition op_get_data :: "'cb SendOp \<Rightarrow> byte list \<times> nat" where
  "op_get_data op = (op_data op, length (op_data op))"

definition get_dest_addr :: "'cb SendOp \<Rightarrow> sockaddr_in option \<times> nat" where
  "get_dest_addr op = (dest_addr op, dest_addr_size op)"

text \<open>
  \<open>sent_data\<close> is a \<^verbatim>\<open>size_t\<close> of 32 bits, so the sum wraps before the assertion looks at it; \<open>None\<close> is
  the failure of the assertion.
\<close>

definition inc_sent_data :: "'cb SendOp \<Rightarrow> nat \<Rightarrow> 'cb SendOp option" where
  "inc_sent_data op sent =
     (let op' = op\<lparr>sent_data := (sent_data op + sent) mod 2 ^ 32\<rparr>
      in if sent_data op' \<le> length (op_data op) then Some op' else None)"

definition get_pending_data :: "'cb SendOp \<Rightarrow> byte list \<times> nat" where
  "get_pending_data op =
     (drop (sent_data op) (op_data op), length (op_data op) - sent_data op)"

section \<open>Operations of the queue\<close>

fun queue_of :: "SendPriority \<Rightarrow> 'cb SendQueue \<Rightarrow> 'cb SendOp list" where
  "queue_of SEND_PRI_LOW q = low_queue q"
| "queue_of SEND_PRI_MEDIUM q = medium_queue q"
| "queue_of SEND_PRI_HIGH q = high_queue q"

fun set_queue :: "SendPriority \<Rightarrow> 'cb SendOp list \<Rightarrow> 'cb SendQueue \<Rightarrow> 'cb SendQueue" where
  "set_queue SEND_PRI_LOW xs q = q\<lparr>low_queue := xs\<rparr>"
| "set_queue SEND_PRI_MEDIUM xs q = q\<lparr>medium_queue := xs\<rparr>"
| "set_queue SEND_PRI_HIGH xs q = q\<lparr>high_queue := xs\<rparr>"

definition send_async ::
  "SendPriority \<Rightarrow> sbuf \<Rightarrow> sockaddr_in option \<Rightarrow> dpnhandle \<Rightarrow> 'cb \<Rightarrow> 'cb SendQueue \<Rightarrow> 'cb SendQueue" where
  "send_async priority ps addr handle cb q =
     (let op = new_SendOp (fst (raw_packet ps)) addr
            (case addr of None \<Rightarrow> 0 | Some _ \<Rightarrow> sizeof_sockaddr_in) handle cb
      in (set_queue priority (queue_of priority q @ [op]) q)\<lparr>signal_on_queue := True\<rparr>)"

definition send :: "SendPriority \<Rightarrow> sbuf \<Rightarrow> sockaddr_in option \<Rightarrow> 'cb \<Rightarrow> 'cb SendQueue \<Rightarrow> 'cb SendQueue" where
  "send priority ps addr cb q = send_async priority ps addr 0 cb q"

definition get_pending :: "'cb SendQueue \<Rightarrow> 'cb SendOp option \<times> 'cb SendQueue" where
  "get_pending q =
     (if current q \<noteq> None then (current q, q)
      else let q' = (case high_queue q of
            op # ops \<Rightarrow> q\<lparr>current := Some op, high_queue := ops\<rparr>
          | [] \<Rightarrow> (case medium_queue q of
              op # ops \<Rightarrow> q\<lparr>current := Some op, medium_queue := ops\<rparr>
            | [] \<Rightarrow> (case low_queue q of
                op # ops \<Rightarrow> q\<lparr>current := Some op, low_queue := ops\<rparr>
              | [] \<Rightarrow> q)))
        in (current q', q'))"

definition pop_pending :: "'cb SendOp \<Rightarrow> 'cb SendQueue \<Rightarrow> 'cb SendQueue option" where
  "pop_pending op q = (if current q = Some op then Some (q\<lparr>current := None\<rparr>) else None)"

text \<open>The inner loop of the removals: the first operation that satisfies a test is erased.\<close>

fun erase_first :: "('a \<Rightarrow> bool) \<Rightarrow> 'a list \<Rightarrow> ('a \<times> 'a list) option" where
  "erase_first P [] = None"
| "erase_first P (x # xs) =
     (if P x then Some (x, xs) else map_option (\<lambda>(y, ys). (y, x # ys)) (erase_first P xs))"

text \<open>The outer loop: the queues in the order of the array \<open>queues\<close>.\<close>

fun remove_from ::
  "('cb SendOp \<Rightarrow> bool) \<Rightarrow> SendPriority list \<Rightarrow> 'cb SendQueue \<Rightarrow> 'cb SendOp option \<times> 'cb SendQueue" where
  "remove_from P [] q = (None, q)"
| "remove_from P (pri # pris) q =
     (case erase_first P (queue_of pri q) of
        Some (op, ops) \<Rightarrow> (Some op, set_queue pri ops q)
      | None \<Rightarrow> remove_from P pris q)"

definition remove_queued :: "'cb SendQueue \<Rightarrow> 'cb SendOp option \<times> 'cb SendQueue" where
  "remove_queued q =
     remove_from (\<lambda>op. async_handle op \<noteq> 0) [SEND_PRI_HIGH, SEND_PRI_MEDIUM, SEND_PRI_LOW] q"

definition remove_queued_by_handle :: "dpnhandle \<Rightarrow> 'cb SendQueue \<Rightarrow> 'cb SendOp option \<times> 'cb SendQueue" where
  "remove_queued_by_handle handle q =
     remove_from (\<lambda>op. async_handle op \<noteq> 0 \<and> async_handle op = handle)
       [SEND_PRI_LOW, SEND_PRI_MEDIUM, SEND_PRI_HIGH] q"

definition remove_queued_by_priority ::
  "SendPriority \<Rightarrow> 'cb SendQueue \<Rightarrow> 'cb SendOp option \<times> 'cb SendQueue" where
  "remove_queued_by_priority priority q =
     (case erase_first (\<lambda>op. async_handle op \<noteq> 0) (queue_of priority q) of
        Some (op, ops) \<Rightarrow> (Some op, set_queue priority ops q)
      | None \<Rightarrow> (None, q))"

definition handle_is_pending :: "dpnhandle \<Rightarrow> 'cb SendQueue \<Rightarrow> bool" where
  "handle_is_pending handle q =
     (case current q of None \<Rightarrow> False | Some op \<Rightarrow> async_handle op = handle)"

section \<open>The contents of a queue\<close>

text \<open>
  The abstraction: the operations in the order in which \<open>get_pending\<close> hands them out, and the
  multiset of all of them.
\<close>

definition queued :: "'cb SendQueue \<Rightarrow> 'cb SendOp list" where
  "queued q = high_queue q @ medium_queue q @ low_queue q"

definition contents :: "'cb SendQueue \<Rightarrow> 'cb SendOp list" where
  "contents q = (case current q of None \<Rightarrow> [] | Some op \<Rightarrow> [op]) @ queued q"

lemma queue_of_set_queue [simp]:
  "queue_of p (set_queue r xs q) = (if p = r then xs else queue_of p q)"
  by (cases p; cases r) simp_all

lemma set_queue_frame [simp]:
  "current (set_queue p xs q) = current q" "signal_on_queue (set_queue p xs q) = signal_on_queue q"
  by (cases p; simp)+

lemma queue_of_update [simp]:
  "queue_of p (q\<lparr>signal_on_queue := b\<rparr>) = queue_of p q" "queue_of p (q\<lparr>current := c\<rparr>) = queue_of p q"
  by (cases p; simp)+

lemma queued_queue_of:
  "queued q = queue_of SEND_PRI_HIGH q @ queue_of SEND_PRI_MEDIUM q @ queue_of SEND_PRI_LOW q"
  by (simp add: queued_def)

lemma UNIV_SendPriority: "UNIV = {SEND_PRI_HIGH, SEND_PRI_MEDIUM, SEND_PRI_LOW}"
  by (auto intro: SendPriority.exhaust)

lemma priorities_ascending: "sorted_list_of_set UNIV = [SEND_PRI_LOW, SEND_PRI_MEDIUM, SEND_PRI_HIGH]"
  unfolding UNIV_SendPriority by (simp add: less_eq_SendPriority_def)

text \<open>What waits is listed by falling priority.\<close>

lemma queued_descending: "queued q = concat (map (\<lambda>p. queue_of p q) (rev (sorted_list_of_set UNIV)))"
  by (simp add: priorities_ascending queued_def)

lemma set_queued: "set (queued q) = (\<Union>p. set (queue_of p q))"
  unfolding UNIV_SendPriority queued_queue_of by simp

lemma get_pending_current: "current q = Some op \<Longrightarrow> get_pending q = (Some op, q)"
  by (simp add: get_pending_def)

lemma current_get_pending: "current (snd (get_pending q)) = fst (get_pending q)"
  by (simp add: get_pending_def Let_def)

lemma get_pending_idle:
  "current q = None \<Longrightarrow>
     (case queued q of
        [] \<Rightarrow> get_pending q = (None, q)
      | op # ops \<Rightarrow> \<exists>q'. get_pending q = (Some op, q') \<and> current q' = Some op \<and> queued q' = ops
          \<and> signal_on_queue q' = signal_on_queue q)"
  by (auto simp: get_pending_def queued_def split: list.splits)

lemma erase_first_Some:
  "erase_first P xs = Some (y, ys) \<Longrightarrow>
     \<exists>us vs. xs = us @ y # vs \<and> ys = us @ vs \<and> P y \<and> (\<forall>u \<in> set us. \<not> P u)"
proof (induction xs arbitrary: ys)
  case Nil
  then show ?case by simp
next
  case (Cons x xs)
  show ?case
  proof (cases "P x")
    case True
    with Cons.prems show ?thesis by (intro exI [of _ "[]"] exI [of _ xs]) simp
  next
    case False
    with Cons.prems obtain zs where z: "erase_first P xs = Some (y, zs)" and ys: "ys = x # zs"
      by auto
    from Cons.IH [OF z] obtain us vs where
      "xs = us @ y # vs" "zs = us @ vs" "P y" "\<forall>u \<in> set us. \<not> P u" by blast
    with False ys show ?thesis by (intro exI [of _ "x # us"] exI [of _ vs]) simp
  qed
qed

lemma erase_first_None: "erase_first P xs = None \<longleftrightarrow> (\<forall>x \<in> set xs. \<not> P x)"
  by (induction xs) auto

lemma mset_queued_set_queue:
  "mset (queue_of p q) = add_mset op (mset xs) \<Longrightarrow>
     mset (queued q) = add_mset op (mset (queued (set_queue p xs q)))"
  by (cases p) (simp_all add: queued_def ac_simps)

lemma remove_from_Some:
  assumes "remove_from P pris q = (Some op, q')"
  shows "P op \<and> op \<in> set (queued q) \<and> mset (queued q) = add_mset op (mset (queued q'))
    \<and> current q' = current q \<and> signal_on_queue q' = signal_on_queue q"
  using assms
proof (induction pris)
  case Nil
  then show ?case by simp
next
  case (Cons pri pris)
  show ?case
  proof (cases "erase_first P (queue_of pri q)")
    case None
    with Cons show ?thesis by simp
  next
    case (Some r)
    with Cons.prems obtain ops where e: "erase_first P (queue_of pri q) = Some (op, ops)"
      and q': "q' = set_queue pri ops q" by (cases r) auto
    from erase_first_Some [OF e] obtain us vs where
      s: "queue_of pri q = us @ op # vs" "ops = us @ vs" "P op" by blast
    then have "mset (queue_of pri q) = add_mset op (mset ops)" by simp
    from mset_queued_set_queue [OF this] s show ?thesis
      unfolding q' by (simp add: set_queued) (metis in_set_conv_decomp)
  qed
qed

lemma remove_from_None:
  "fst (remove_from P pris q) = None \<longleftrightarrow> (\<forall>p \<in> set pris. \<forall>op \<in> set (queue_of p q). \<not> P op)"
proof (induction pris)
  case (Cons p pris)
  then show ?case
    using erase_first_None [of P "queue_of p q"] by (cases "erase_first P (queue_of p q)") auto
qed simp

lemma remove_from_None_state: "fst (remove_from P pris q) = None \<Longrightarrow> snd (remove_from P pris q) = q"
  by (induction pris) (auto split: option.splits)


section \<open>The transmitting loop\<close>

text \<open>
  The shape of the loops over a send queue in \<^verbatim>\<open>io_udp_send\<close>, \<^verbatim>\<open>io_peer_send\<close> and
  \<^verbatim>\<open>peer_destroy\<close>: take the pending operation, pop it, go on, for at most \<open>n\<close> rounds.
\<close>

primrec serve_with ::
  "('q \<Rightarrow> 'op option \<times> 'q) \<Rightarrow> ('op \<Rightarrow> 'q \<Rightarrow> 'q option) \<Rightarrow> nat \<Rightarrow> 'q \<Rightarrow> 'op list \<times> 'q" where
  "serve_with pend pop 0 q = ([], q)"
| "serve_with pend pop (Suc n) q =
     (case pend q of
        (None, q') \<Rightarrow> ([], q')
      | (Some op, q') \<Rightarrow>
          (case pop op q' of
             None \<Rightarrow> ([], q')
           | Some q'' \<Rightarrow> (case serve_with pend pop n q'' of (ops, r) \<Rightarrow> (op # ops, r))))"

locale send_discipline =
  fixes pend :: "'q \<Rightarrow> 'op option \<times> 'q"
    and pop :: "'op \<Rightarrow> 'q \<Rightarrow> 'q option"
    and waiting :: "'q \<Rightarrow> 'op list"
  assumes pend_Nil: "waiting q = [] \<Longrightarrow> pend q = (None, q)"
    and pend_Cons: "waiting q = op # ops \<Longrightarrow>
      \<exists>q'. pend q = (Some op, q') \<and> waiting q' = op # ops \<and> pend q' = (Some op, q')"
    and pop_pend: "pend q = (Some op, q) \<Longrightarrow> \<exists>q'. pop op q = Some q' \<and> waiting q' = tl (waiting q)"
begin

lemma serve_take:
  "\<exists>q'. serve_with pend pop n q = (take n (waiting q), q') \<and> waiting q' = drop n (waiting q)"
proof (induction n arbitrary: q)
  case 0
  then show ?case by simp
next
  case (Suc n)
  show ?case
  proof (cases "waiting q")
    case Nil
    then show ?thesis by (simp add: pend_Nil)
  next
    case (Cons op ops)
    from pend_Cons [OF Cons] obtain q1 where q1: "pend q = (Some op, q1)" "waiting q1 = op # ops"
      "pend q1 = (Some op, q1)" by blast
    from pop_pend [OF q1(3)] q1(2) obtain q2 where q2: "pop op q1 = Some q2" "waiting q2 = ops"
      by auto
    from Suc [of q2] q1 q2 Cons show ?thesis by auto
  qed
qed

end

interpretation sq: send_discipline get_pending pop_pending contents
proof unfold_locales
  fix q :: "'a SendQueue"
  show "contents q = [] \<Longrightarrow> get_pending q = (None, q)"
    using get_pending_idle [of q] by (cases "current q") (simp_all add: contents_def)
next
  fix q :: "'a SendQueue" and op ops
  assume c: "contents q = op # ops"
  show "\<exists>q'. get_pending q = (Some op, q') \<and> contents q' = op # ops \<and> get_pending q' = (Some op, q')"
  proof (cases "current q")
    case None
    with c get_pending_idle [OF None] show ?thesis
      by (auto simp: contents_def intro: get_pending_current)
  next
    case (Some op')
    with c show ?thesis by (simp add: contents_def get_pending_current)
  qed
next
  fix q :: "'a SendQueue" and op
  assume "get_pending q = (Some op, q)"
  then have "current q = Some op" using current_get_pending [of q] by simp
  then show "\<exists>q'. pop_pending op q = Some q' \<and> contents q' = tl (contents q)"
    by (simp add: pop_pending_def contents_def queued_def)
qed

definition serve :: "nat \<Rightarrow> 'cb SendQueue \<Rightarrow> 'cb SendOp list \<times> 'cb SendQueue" where
  "serve = serve_with get_pending pop_pending"

text \<open>
  C16: service order. The loop hands out the operation in transmission first, then everything of
  high priority, of medium and of low priority, each in the order it was queued; as many rounds as
  there are operations empty the queue, and no assertion of \<open>pop_pending\<close> fails on the way.
\<close>

theorem serve_order:
  "\<exists>q'. serve n q = (take n ((case current q of None \<Rightarrow> [] | Some op \<Rightarrow> [op])
            @ high_queue q @ medium_queue q @ low_queue q), q')
      \<and> length (contents q') = length (contents q) - n"
proof -
  from sq.serve_take [of n q] obtain q' where
    s: "serve n q = (take n (contents q), q')" and d: "contents q' = drop n (contents q)"
    by (auto simp: serve_def)
  from d have "length (contents q') = length (contents q) - n" by simp
  moreover from s have "serve n q = (take n ((case current q of None \<Rightarrow> [] | Some op \<Rightarrow> [op])
      @ high_queue q @ medium_queue q @ low_queue q), q')"
    by (simp only: contents_def queued_def)
  ultimately show ?thesis by blast
qed

section \<open>Nothing is lost or sent twice\<close>

text \<open>
  Any use of a queue, as a sequence of steps; \<open>SqSent\<close> is the progress of the transmission of the
  current operation. The run records the operations that went in and those that came out.
\<close>

datatype 'cb sq_step =
    SqSend SendPriority sbuf "sockaddr_in option" dpnhandle 'cb
  | SqNext
  | SqSent nat
  | SqPop
  | SqRemove
  | SqRemoveHandle dpnhandle
  | SqRemovePriority SendPriority

definition removed :: "'cb SendOp option \<times> 'cb SendQueue \<Rightarrow> 'cb SendOp list \<times> 'cb SendQueue" where
  "removed r = ((case fst r of None \<Rightarrow> [] | Some op \<Rightarrow> [op]), snd r)"

fun sq_do :: "'cb sq_step \<Rightarrow> 'cb SendQueue \<Rightarrow> 'cb SendOp list \<times> 'cb SendQueue" where
  "sq_do (SqSend pri ps addr h cb) q = ([], send_async pri ps addr h cb q)"
| "sq_do SqNext q = ([], snd (get_pending q))"
| "sq_do (SqSent n) q =
     (case current q of
        None \<Rightarrow> ([], q)
      | Some op \<Rightarrow> (case inc_sent_data op n of None \<Rightarrow> ([], q) | Some op' \<Rightarrow> ([], q\<lparr>current := Some op'\<rparr>)))"
| "sq_do SqPop q =
     (case current q of
        None \<Rightarrow> ([], q)
      | Some op \<Rightarrow> (case pop_pending op q of None \<Rightarrow> ([], q) | Some q' \<Rightarrow> ([op], q')))"
| "sq_do SqRemove q = removed (remove_queued q)"
| "sq_do (SqRemoveHandle h) q = removed (remove_queued_by_handle h q)"
| "sq_do (SqRemovePriority pri) q = removed (remove_queued_by_priority pri q)"

fun sq_sent :: "'cb sq_step \<Rightarrow> 'cb SendOp list" where
  "sq_sent (SqSend pri ps addr h cb) =
     [new_SendOp ps addr (case addr of None \<Rightarrow> 0 | Some _ \<Rightarrow> sizeof_sockaddr_in) h cb]"
| "sq_sent _ = []"

fun sq_run :: "'cb sq_step list \<Rightarrow> 'cb SendQueue \<Rightarrow> 'cb SendOp list \<times> 'cb SendQueue" where
  "sq_run [] q = ([], q)"
| "sq_run (s # ss) q =
     (let (out, q') = sq_do s q; (outs, q'') = sq_run ss q' in (out @ outs, q''))"

text \<open>An operation up to the progress of its transmission.\<close>

definition unsent :: "'cb SendOp \<Rightarrow> 'cb SendOp" where
  "unsent op = op\<lparr>sent_data := 0\<rparr>"

abbreviation ops_mset :: "'cb SendOp list \<Rightarrow> 'cb SendOp multiset" where
  "ops_mset ops \<equiv> image_mset unsent (mset ops)"

lemma contents_remove_from:
  "ops_mset (contents q) =
     ops_mset (fst (removed (remove_from P pris q))) + ops_mset (contents (snd (removed (remove_from P pris q))))"
proof (cases "remove_from P pris q")
  case (Pair r q')
  show ?thesis
  proof (cases r)
    case None
    then show ?thesis
      using Pair remove_from_None_state [of P pris q] by (simp add: removed_def)
  next
    case (Some op)
    with Pair remove_from_Some [of P pris q op q'] show ?thesis
      by (simp add: removed_def contents_def)
  qed
qed

lemma remove_queued_by_priority_from:
  "remove_queued_by_priority pri q = remove_from (\<lambda>op. async_handle op \<noteq> 0) [pri] q"
  by (auto simp: remove_queued_by_priority_def split: option.splits)

lemma sq_do_conserves:
  "ops_mset (contents q) + ops_mset (sq_sent s) =
     ops_mset (fst (sq_do s q)) + ops_mset (contents (snd (sq_do s q)))"
proof (cases s)
  case (SqSend pri ps addr h cb)
  then show ?thesis
    by (cases pri) (simp_all add: send_async_def raw_packet_def contents_def queued_def Let_def)
next
  case SqNext
  have "mset (contents (snd (get_pending q))) = mset (contents q)"
    by (auto simp: get_pending_def contents_def queued_def Let_def split: list.splits)
  with SqNext show ?thesis by simp
next
  case (SqSent n)
  then show ?thesis
    by (auto simp: inc_sent_data_def contents_def queued_def unsent_def Let_def split: option.splits)
next
  case SqPop
  then show ?thesis by (auto simp: pop_pending_def contents_def queued_def split: option.splits)
next
  case SqRemove
  then show ?thesis using contents_remove_from by (simp add: remove_queued_def del: remove_from.simps)
next
  case (SqRemoveHandle h)
  then show ?thesis
    using contents_remove_from by (simp add: remove_queued_by_handle_def del: remove_from.simps)
next
  case (SqRemovePriority pri)
  then show ?thesis
    using contents_remove_from by (simp add: remove_queued_by_priority_from del: remove_from.simps)
qed

lemma sq_run_conserves:
  "ops_mset (contents q) + ops_mset (concat (map sq_sent ss)) =
     ops_mset (fst (sq_run ss q)) + ops_mset (contents (snd (sq_run ss q)))"
proof (induction ss arbitrary: q)
  case Nil
  then show ?case by simp
next
  case (Cons s ss)
  have "ops_mset (contents q) + ops_mset (concat (map sq_sent (s # ss))) =
      ops_mset (fst (sq_do s q))
      + (ops_mset (contents (snd (sq_do s q))) + ops_mset (concat (map sq_sent ss)))"
    using sq_do_conserves [of q s] by (simp add: ac_simps)
  also have "\<dots> = ops_mset (fst (sq_run (s # ss) q)) + ops_mset (contents (snd (sq_run (s # ss) q)))"
    unfolding Cons by (simp add: split_beta Let_def)
  finally show ?case .
qed

text \<open>
  C15: conservation. Whatever sequence of sends, transmissions, pops and cancellations a queue goes
  through, the operations that were queued are exactly those that came out, each once, and those
  still in the queue.
\<close>

theorem sq_conservation:
  "ops_mset (concat (map sq_sent ss)) =
     ops_mset (fst (sq_run ss new_SendQueue)) + ops_mset (contents (snd (sq_run ss new_SendQueue)))"
  using sq_run_conserves [of new_SendQueue ss]
  by (simp add: new_SendQueue_def contents_def queued_def)


section \<open>Cancellation\<close>

text \<open>The first operation of a list that satisfies a test, in the sense of a removal.\<close>

definition removes_first :: "('a \<Rightarrow> bool) \<Rightarrow> 'a list \<Rightarrow> 'a option \<Rightarrow> 'a list \<Rightarrow> bool" where
  "removes_first P xs r ys =
     (case r of
        None \<Rightarrow> ys = xs \<and> (\<forall>x \<in> set xs. \<not> P x)
      | Some x \<Rightarrow> \<exists>us vs. xs = us @ x # vs \<and> ys = us @ vs \<and> P x \<and> (\<forall>u \<in> set us. \<not> P u))"

lemma removes_first_SomeI:
  "P x \<Longrightarrow> \<forall>u \<in> set us. \<not> P u \<Longrightarrow> xs = us @ x # vs \<Longrightarrow> ys = us @ vs \<Longrightarrow> removes_first P xs (Some x) ys"
  unfolding removes_first_def by auto

lemma removes_first_append:
  assumes "removes_first P xs None xs" "removes_first P ys r zs"
  shows "removes_first P (xs @ ys) r (xs @ zs)"
proof (cases r)
  case None
  with assms show ?thesis by (auto simp: removes_first_def)
next
  case (Some x)
  with assms obtain us vs where "ys = us @ x # vs" "zs = us @ vs" "P x" "\<forall>u \<in> set us. \<not> P u"
    by (auto simp: removes_first_def)
  moreover have "\<forall>u \<in> set xs. \<not> P u" using assms(1) by (simp add: removes_first_def)
  ultimately show ?thesis using Some by (auto intro!: removes_first_SomeI [of _ _ "xs @ us" _ vs])
qed

lemma removes_first_left:
  assumes "removes_first P xs (Some x) zs"
  shows "removes_first P (xs @ ys) (Some x) (zs @ ys)"
proof -
  from assms obtain us vs where "xs = us @ x # vs" "zs = us @ vs" "P x" "\<forall>u \<in> set us. \<not> P u"
    by (auto simp: removes_first_def)
  then show ?thesis by (auto intro!: removes_first_SomeI [of _ _ us _ "vs @ ys"])
qed

lemma erase_first_removes:
  "removes_first P xs (map_option fst (erase_first P xs))
     (case erase_first P xs of None \<Rightarrow> xs | Some (x, ys) \<Rightarrow> ys)"
  using erase_first_Some [of P xs] erase_first_None [of P xs]
  by (cases "erase_first P xs") (auto simp: removes_first_def)

lemma remove_from_keeps [simp]:
  "current (snd (remove_from P pris q)) = current q" "signal_on_queue (snd (remove_from P pris q)) = signal_on_queue q"
  by (induction pris) (auto split: option.splits)

lemma remove_from_frame: "p \<notin> set pris \<Longrightarrow> remove_from P pris q = (r, q') \<Longrightarrow> queue_of p q' = queue_of p q"
  by (induction pris) (auto split: option.splits)

lemma remove_from_removes:
  "removes_first P (concat (map (\<lambda>p. queue_of p q) pris)) (fst (remove_from P pris q))
     (case remove_from P pris q of (None, q') \<Rightarrow> concat (map (\<lambda>p. queue_of p q) pris)
      | (Some op, q') \<Rightarrow> concat (map (\<lambda>p. queue_of p q') pris))"
  if "distinct pris"
  using that
proof (induction pris)
  case Nil
  then show ?case by (simp add: removes_first_def)
next
  case (Cons p pris)
  note e = erase_first_removes [of P "queue_of p q"]
  show ?case
  proof (cases "erase_first P (queue_of p q)")
    case None
    with e have n: "removes_first P (queue_of p q) None (queue_of p q)" by simp
    obtain r q' where r: "remove_from P pris q = (r, q')" by fastforce
    have "queue_of p q' = queue_of p q"
      using remove_from_frame [OF _ r] Cons.prems by simp
    with None r Cons removes_first_append [OF n] show ?thesis
      by (cases r) (fastforce simp: removes_first_def)+
  next
    case (Some x)
    then obtain op ops where x: "erase_first P (queue_of p q) = Some (op, ops)" by (cases x) simp
    have "map (\<lambda>p'. if p' = p then ops else queue_of p' q) pris = map (\<lambda>p'. queue_of p' q) pris"
      using Cons.prems by auto
    with x e show ?thesis using removes_first_left [of P "queue_of p q" op ops] by (simp del: map_eq_conv)
  qed
qed

lemma remove_from_whole:
  assumes "distinct pris" "set pris = UNIV"
  shows "removes_first P (concat (map (\<lambda>p. queue_of p q) pris)) (fst (remove_from P pris q))
    (concat (map (\<lambda>p. queue_of p (snd (remove_from P pris q))) pris))"
  using remove_from_removes [OF assms(1), of P q] remove_from_None_state [of P pris q]
  by (cases "remove_from P pris q") (auto split: option.splits)

text \<open>
  C17: the cancellation methods. Each takes the first operation of its search order that the application
  created (nonzero handle) and that it was asked for, or leaves the queue as it is if there is none, and
  never touches the operation in transmission: \<open>remove_queued\<close> searches in service order (high, medium,
  low), \<open>remove_queued_by_handle\<close> from low to high for the one handle, \<open>remove_queued_by_priority\<close> only
  the queue of that priority, the other queues staying as they are. Every queue keeps its order.
\<close>

theorem cancellation:
  "removes_first (\<lambda>op. async_handle op \<noteq> 0) (high_queue q @ medium_queue q @ low_queue q) (fst (remove_queued q))
     (let q' = snd (remove_queued q) in high_queue q' @ medium_queue q' @ low_queue q')
   \<and> removes_first (\<lambda>op. async_handle op \<noteq> 0 \<and> async_handle op = h) (low_queue q @ medium_queue q @ high_queue q)
       (fst (remove_queued_by_handle h q))
       (let q' = snd (remove_queued_by_handle h q) in low_queue q' @ medium_queue q' @ high_queue q')
   \<and> removes_first (\<lambda>op. async_handle op \<noteq> 0) (queue_of pri q) (fst (remove_queued_by_priority pri q))
       (queue_of pri (snd (remove_queued_by_priority pri q)))
   \<and> (pri' = pri \<or> queue_of pri' (snd (remove_queued_by_priority pri q)) = queue_of pri' q)
   \<and> (\<forall>q' \<in> snd ` {remove_queued q, remove_queued_by_handle h q, remove_queued_by_priority pri q}.
        current q' = current q \<and> signal_on_queue q' = signal_on_queue q)"
proof (intro conjI)
  let ?P = "\<lambda>op :: 'a SendOp. async_handle op \<noteq> 0"
  let ?H = "\<lambda>op :: 'a SendOp. async_handle op \<noteq> 0 \<and> async_handle op = h"
  let ?down = "[SEND_PRI_HIGH, SEND_PRI_MEDIUM, SEND_PRI_LOW]" and ?up = "[SEND_PRI_LOW, SEND_PRI_MEDIUM, SEND_PRI_HIGH]"
  have all: "set ?down = UNIV" "set ?up = UNIV" unfolding UNIV_SendPriority by auto
  show "removes_first ?P (high_queue q @ medium_queue q @ low_queue q) (fst (remove_queued q))
      (let q' = snd (remove_queued q) in high_queue q' @ medium_queue q' @ low_queue q')"
    using remove_from_whole [OF _ all(1), of ?P q]
    by (simp add: remove_queued_def Let_def del: remove_from.simps)
  show "removes_first ?H (low_queue q @ medium_queue q @ high_queue q) (fst (remove_queued_by_handle h q))
      (let q' = snd (remove_queued_by_handle h q) in low_queue q' @ medium_queue q' @ high_queue q')"
    using remove_from_whole [OF _ all(2), of ?H q]
    by (simp add: remove_queued_by_handle_def Let_def del: remove_from.simps)
  show "removes_first ?P (queue_of pri q) (fst (remove_queued_by_priority pri q))
      (queue_of pri (snd (remove_queued_by_priority pri q)))"
    using erase_first_removes [of ?P "queue_of pri q"]
    by (auto simp: remove_queued_by_priority_def split: option.splits)
  show "pri' = pri \<or> queue_of pri' (snd (remove_queued_by_priority pri q)) = queue_of pri' q"
    by (auto simp: remove_queued_by_priority_def split: option.splits)
  show "\<forall>q' \<in> snd ` {remove_queued q, remove_queued_by_handle h q, remove_queued_by_priority pri q}.
      current q' = current q \<and> signal_on_queue q' = signal_on_queue q"
    by (simp add: remove_queued_def remove_queued_by_handle_def remove_queued_by_priority_from remove_from_keeps
        del: remove_from.simps)
qed

theorem cancellation_witness:
  "removes_first (\<lambda>op. async_handle op \<noteq> 0 \<and> async_handle op = 5) (map (new_SendOp [1] None 0 5) [0 :: nat, 1])
     (Some (new_SendOp [1] None 0 5 0)) [new_SendOp [1] None 0 5 1]"
  using cancellation [of "new_SendQueue\<lparr>high_queue := map (new_SendOp [1] None 0 5) [0 :: nat, 1]\<rparr>" 5 SEND_PRI_LOW SEND_PRI_HIGH]
  by (simp add: new_SendQueue_def new_SendOp_def remove_queued_by_handle_def)

section \<open>Transmission of one operation\<close>

text \<open>
  A stream socket takes the pending data of an operation in pieces of the sizes \<open>ns\<close>;
  \<open>transmit\<close> collects what was handed to it.
\<close>

fun transmit :: "'cb SendOp \<Rightarrow> nat list \<Rightarrow> (byte list \<times> 'cb SendOp) option" where
  "transmit op [] = Some ([], op)"
| "transmit op (n # ns) =
     (case inc_sent_data op n of
        None \<Rightarrow> None
      | Some op' \<Rightarrow>
          map_option (\<lambda>(bs, op''). (take n (fst (get_pending_data op)) @ bs, op'')) (transmit op' ns))"

lemma transmit_snoc:
  "transmit op (ns @ [n]) =
     (case transmit op ns of
        None \<Rightarrow> None
      | Some (bs, op') \<Rightarrow>
          map_option (\<lambda>op''. (bs @ take n (fst (get_pending_data op')), op'')) (inc_sent_data op' n))"
  by (induction ns arbitrary: op) (auto simp: option.map_comp comp_def split: option.splits)

lemma transmit_from:
  "sent_data op + sum_list ns \<le> length (op_data op) \<Longrightarrow> length (op_data op) < 2 ^ 32 \<Longrightarrow>
     transmit op ns = Some (take (sum_list ns) (drop (sent_data op) (op_data op)),
       op\<lparr>sent_data := sent_data op + sum_list ns\<rparr>)"
proof (induction ns arbitrary: op)
  case Nil
  then show ?case by simp
next
  case (Cons n ns)
  then have "inc_sent_data op n = Some (op\<lparr>sent_data := sent_data op + n\<rparr>)"
    by (simp add: inc_sent_data_def)
  with Cons show ?case
    by (simp add: get_pending_data_def take_add add.commute add.left_commute)
qed

text \<open>
  C14: however the socket splits an operation, what it gets is the packet, byte for byte. The pieces \<open>ns\<close>
  have sizes the socket can report (\<^verbatim>\<open>send\<close> takes at most what it is offered, so they never add up to more
  than the packet), and the packet fits into the 32-bit address space. After any number of pieces the
  stream has received the bytes up to there and what is pending is the rest, so when they add up to the size
  of the packet it has received all of it and nothing is pending. One more piece of any reported size is
  refused by the assertion exactly when the sum, which wraps at 32 bits, is beyond the packet: a piece
  that is not larger than what is pending never is, a larger one always is unless the sum wraps.
\<close>

theorem transmit_complete:
  assumes "length data < 2 ^ 32" "sum_list ns \<le> length data"
  shows "let op = new_SendOp data addr asize h cb in
     (\<exists>op'. transmit op ns = Some (take (sum_list ns) data, op')
        \<and> get_pending_data op' = (drop (sum_list ns) data, length data - sum_list ns)
        \<and> (sum_list ns = length data \<longrightarrow> take (sum_list ns) data = data \<and> fst (get_pending_data op') = []))
     \<and> (transmit op (ns @ [n]) = None \<longleftrightarrow> length data < (sum_list ns + n) mod 2 ^ 32)
     \<and> (sum_list ns + n \<le> length data \<longrightarrow> transmit op (ns @ [n]) \<noteq> None)
     \<and> (length data < sum_list ns + n \<and> sum_list ns + n < 2 ^ 32 \<longrightarrow> transmit op (ns @ [n]) = None)"
proof -
  let ?op = "new_SendOp data addr asize h cb"
  have t: "transmit ?op ns = Some (take (sum_list ns) data, ?op\<lparr>sent_data := sum_list ns\<rparr>)"
    using transmit_from [of ?op ns] assms by (simp add: new_SendOp_def)
  have more: "transmit ?op (ns @ [n]) = None \<longleftrightarrow> length data < (sum_list ns + n) mod 2 ^ 32"
    using t by (simp add: transmit_snoc inc_sent_data_def new_SendOp_def Let_def not_le)
  have "transmit ?op (ns @ [n]) \<noteq> None" if "sum_list ns + n \<le> length data"
  proof -
    have "(sum_list ns + n) mod 2 ^ 32 = sum_list ns + n" using that assms(1) by (intro mod_less) simp
    with more that show ?thesis by linarith
  qed
  moreover have "transmit ?op (ns @ [n]) = None" if "length data < sum_list ns + n" "sum_list ns + n < 2 ^ 32"
    using more that by simp
  moreover have "get_pending_data (?op\<lparr>sent_data := sum_list ns\<rparr>) = (drop (sum_list ns) data, length data - sum_list ns)"
    by (simp add: get_pending_data_def new_SendOp_def)
  ultimately show ?thesis using t more unfolding Let_def by auto
qed

theorem transmit_complete_witness:
  "\<exists>op'. transmit (new_SendOp [1, 2, 3] None 0 0 ()) [2, 1] = Some ([1, 2, 3], op')
     \<and> fst (get_pending_data op') = [] \<and> transmit (new_SendOp [1, 2, 3] None 0 0 ()) ([2, 1] @ [1]) = None"
  using transmit_complete [of "[1, 2, 3]" "[2, 1]" None 0 0 "()" 1] by (auto simp: Let_def)

text \<open>The wrap: a count that a socket can never report passes the assertion.\<close>

lemma inc_sent_data_wraps:
  "sent_data op = 1 \<Longrightarrow> inc_sent_data op (2 ^ 32 - 1) = Some (op\<lparr>sent_data := 0\<rparr>)"
  by (simp add: inc_sent_data_def)

end
