(* ===== verification/Constants.thy ===== *)
theory Constants
  imports Packet
begin

text \<open>
  The numeric constants of the DirectPlay 8 headers \<^verbatim>\<open>src/include/dplay8.h\<close> and
  \<^verbatim>\<open>src/include/dpaddr.h\<close> that the sources use, with the values the headers give them: result codes,
  message identifiers, flags, keys of address components and the identifiers of classes and
  interfaces. The values of \<open>S_OK\<close> and the other general result codes are those of the Windows
  headers. Every definition is in the collection \<open>const_defs\<close>.
\<close>

section \<open>Result codes of Windows\<close>

definition MAKE_HRESULT :: "dword \<Rightarrow> dword \<Rightarrow> dword \<Rightarrow> hresult" where
  "MAKE_HRESULT sev fac code = push_bit 31 sev OR push_bit 16 fac OR code"

definition MAKE_DPNHRESULT :: "dword \<Rightarrow> hresult" where
  "MAKE_DPNHRESULT code = MAKE_HRESULT 1 0x015 (code + 0x8000)"

definition S_OK :: hresult where "S_OK = 0"
definition E_NOTIMPL :: hresult where "E_NOTIMPL = 0x80004001"
definition E_NOINTERFACE :: hresult where "E_NOINTERFACE = 0x80004002"
definition E_POINTER :: hresult where "E_POINTER = 0x80004003"
definition E_FAIL :: hresult where "E_FAIL = 0x80004005"
definition E_UNEXPECTED :: hresult where "E_UNEXPECTED = 0x8000FFFF"
definition E_OUTOFMEMORY :: hresult where "E_OUTOFMEMORY = 0x8007000E"
definition E_INVALIDARG :: hresult where "E_INVALIDARG = 0x80070057"
definition CLASS_E_NOAGGREGATION :: hresult where "CLASS_E_NOAGGREGATION = 0x80040110"
definition CLASS_E_CLASSNOTAVAILABLE :: hresult where "CLASS_E_CLASSNOTAVAILABLE = 0x80040111"

definition INFINITE :: dword where "INFINITE = 0xFFFFFFFF"

section \<open>Identifiers and strings\<close>

text \<open>A GUID in memory: two integers of 16 and one of 32 bits, little endian, and eight bytes.\<close>

definition DEFINE_GUID :: "dword \<Rightarrow> wchar \<Rightarrow> wchar \<Rightarrow> byte list \<Rightarrow> guid" where
  "DEFINE_GUID d1 d2 d3 d4 = guid_of_bytes (le32 d1 @ le16 d2 @ le16 d3 @ d4)"

definition ascii :: "string \<Rightarrow> byte list" where
  "ascii s = map of_char s"

definition wide :: "string \<Rightarrow> wchar list" where
  "wide s = map of_char s"

definition IID_IUnknown :: guid where
  "IID_IUnknown = DEFINE_GUID 0 0 0 [0xC0, 0, 0, 0, 0, 0, 0, 0x46]"
definition IID_IClassFactory :: guid where
  "IID_IClassFactory = DEFINE_GUID 1 0 0 [0xC0, 0, 0, 0, 0, 0, 0, 0x46]"

section \<open>Address components\<close>

definition DPNA_DATATYPE_STRING :: dword where "DPNA_DATATYPE_STRING = 0x00000001"
definition DPNA_DATATYPE_DWORD :: dword where "DPNA_DATATYPE_DWORD = 0x00000002"
definition DPNA_DATATYPE_GUID :: dword where "DPNA_DATATYPE_GUID = 0x00000003"
definition DPNA_DATATYPE_STRING_ANSI :: dword where "DPNA_DATATYPE_STRING_ANSI = 0x00000005"
definition DPNA_KEY_DEVICE :: "wchar list" where "DPNA_KEY_DEVICE = wide ''device''"
definition DPNA_KEY_HOSTNAME :: "wchar list" where "DPNA_KEY_HOSTNAME = wide ''hostname''"
definition DPNA_KEY_PORT :: "wchar list" where "DPNA_KEY_PORT = wide ''port''"
definition DPNA_KEY_PROVIDER :: "wchar list" where "DPNA_KEY_PROVIDER = wide ''provider''"
definition CLSID_DirectPlay8Address :: guid where
  "CLSID_DirectPlay8Address = DEFINE_GUID 0x934a9523 0xa3ca 0x4bc5 [0xad, 0xa0, 0xd6, 0xd9, 0x5d, 0x97, 0x94, 0x21]"
definition IID_IDirectPlay8Address :: guid where
  "IID_IDirectPlay8Address = DEFINE_GUID 0x83783300 0x4063 0x4c8a [0x9d, 0xb3, 0x82, 0x83, 0xa, 0x7f, 0xeb, 0x31]"

section \<open>Message identifiers\<close>

definition DPN_MSGID_OFFSET :: dword where "DPN_MSGID_OFFSET = 0xFFFF0000"
definition DPN_MSGID_ADD_PLAYER_TO_GROUP :: dword where
  "DPN_MSGID_ADD_PLAYER_TO_GROUP = DPN_MSGID_OFFSET OR 0x0001"
definition DPN_MSGID_APPLICATION_DESC :: dword where
  "DPN_MSGID_APPLICATION_DESC = DPN_MSGID_OFFSET OR 0x0002"
definition DPN_MSGID_ASYNC_OP_COMPLETE :: dword where
  "DPN_MSGID_ASYNC_OP_COMPLETE = DPN_MSGID_OFFSET OR 0x0003"
definition DPN_MSGID_CONNECT_COMPLETE :: dword where
  "DPN_MSGID_CONNECT_COMPLETE = DPN_MSGID_OFFSET OR 0x0005"
definition DPN_MSGID_CREATE_GROUP :: dword where
  "DPN_MSGID_CREATE_GROUP = DPN_MSGID_OFFSET OR 0x0006"
definition DPN_MSGID_CREATE_PLAYER :: dword where
  "DPN_MSGID_CREATE_PLAYER = DPN_MSGID_OFFSET OR 0x0007"
definition DPN_MSGID_DESTROY_GROUP :: dword where
  "DPN_MSGID_DESTROY_GROUP = DPN_MSGID_OFFSET OR 0x0008"
definition DPN_MSGID_DESTROY_PLAYER :: dword where
  "DPN_MSGID_DESTROY_PLAYER = DPN_MSGID_OFFSET OR 0x0009"
definition DPN_MSGID_ENUM_HOSTS_QUERY :: dword where
  "DPN_MSGID_ENUM_HOSTS_QUERY = DPN_MSGID_OFFSET OR 0x000A"
definition DPN_MSGID_ENUM_HOSTS_RESPONSE :: dword where
  "DPN_MSGID_ENUM_HOSTS_RESPONSE = DPN_MSGID_OFFSET OR 0x000B"
definition DPN_MSGID_INDICATE_CONNECT :: dword where
  "DPN_MSGID_INDICATE_CONNECT = DPN_MSGID_OFFSET OR 0x000E"
definition DPN_MSGID_PEER_INFO :: dword where "DPN_MSGID_PEER_INFO = DPN_MSGID_OFFSET OR 0x0010"
definition DPN_MSGID_RECEIVE :: dword where "DPN_MSGID_RECEIVE = DPN_MSGID_OFFSET OR 0x0011"
definition DPN_MSGID_REMOVE_PLAYER_FROM_GROUP :: dword where
  "DPN_MSGID_REMOVE_PLAYER_FROM_GROUP = DPN_MSGID_OFFSET OR 0x0012"
definition DPN_MSGID_RETURN_BUFFER :: dword where
  "DPN_MSGID_RETURN_BUFFER = DPN_MSGID_OFFSET OR 0x0013"
definition DPN_MSGID_SEND_COMPLETE :: dword where
  "DPN_MSGID_SEND_COMPLETE = DPN_MSGID_OFFSET OR 0x0014"
definition DPN_MSGID_TERMINATE_SESSION :: dword where
  "DPN_MSGID_TERMINATE_SESSION = DPN_MSGID_OFFSET OR 0x0016"

section \<open>Result codes of DirectPlay\<close>

definition DPNSUCCESS_PENDING :: hresult where
  "DPNSUCCESS_PENDING = MAKE_HRESULT 0 0x015 (0x0E + 0x8000)"
definition DPNERR_GENERIC :: hresult where "DPNERR_GENERIC = E_FAIL"
definition DPNERR_INVALIDPARAM :: hresult where "DPNERR_INVALIDPARAM = E_INVALIDARG"
definition DPNERR_ALREADYCLOSING :: hresult where "DPNERR_ALREADYCLOSING = MAKE_DPNHRESULT 0x050"
definition DPNERR_ALREADYCONNECTED :: hresult where
  "DPNERR_ALREADYCONNECTED = MAKE_DPNHRESULT 0x060"
definition DPNERR_ALREADYINITIALIZED :: hresult where
  "DPNERR_ALREADYINITIALIZED = MAKE_DPNHRESULT 0x080"
definition DPNERR_BUFFERTOOSMALL :: hresult where "DPNERR_BUFFERTOOSMALL = MAKE_DPNHRESULT 0x100"
definition DPNERR_CANNOTCANCEL :: hresult where "DPNERR_CANNOTCANCEL = MAKE_DPNHRESULT 0x110"
definition DPNERR_CONNECTING :: hresult where "DPNERR_CONNECTING = MAKE_DPNHRESULT 0x150"
definition DPNERR_CONNECTIONLOST :: hresult where "DPNERR_CONNECTIONLOST = MAKE_DPNHRESULT 0x160"
definition DPNERR_DOESNOTEXIST :: hresult where "DPNERR_DOESNOTEXIST = MAKE_DPNHRESULT 0x180"
definition DPNERR_HOSTING :: hresult where "DPNERR_HOSTING = MAKE_DPNHRESULT 0x250"
definition DPNERR_HOSTREJECTEDCONNECTION :: hresult where
  "DPNERR_HOSTREJECTEDCONNECTION = MAKE_DPNHRESULT 0x260"
definition DPNERR_HOSTTERMINATEDSESSION :: hresult where
  "DPNERR_HOSTTERMINATEDSESSION = MAKE_DPNHRESULT 0x270"
definition DPNERR_INVALIDAPPLICATION :: hresult where
  "DPNERR_INVALIDAPPLICATION = MAKE_DPNHRESULT 0x300"
definition DPNERR_INVALIDDEVICEADDRESS :: hresult where
  "DPNERR_INVALIDDEVICEADDRESS = MAKE_DPNHRESULT 0x320"
definition DPNERR_INVALIDFLAGS :: hresult where "DPNERR_INVALIDFLAGS = MAKE_DPNHRESULT 0x340"
definition DPNERR_INVALIDGROUP :: hresult where "DPNERR_INVALIDGROUP = MAKE_DPNHRESULT 0x350"
definition DPNERR_INVALIDHANDLE :: hresult where "DPNERR_INVALIDHANDLE = MAKE_DPNHRESULT 0x360"
definition DPNERR_INVALIDHOSTADDRESS :: hresult where
  "DPNERR_INVALIDHOSTADDRESS = MAKE_DPNHRESULT 0x370"
definition DPNERR_INVALIDINSTANCE :: hresult where "DPNERR_INVALIDINSTANCE = MAKE_DPNHRESULT 0x380"
definition DPNERR_INVALIDPASSWORD :: hresult where "DPNERR_INVALIDPASSWORD = MAKE_DPNHRESULT 0x410"
definition DPNERR_INVALIDPLAYER :: hresult where "DPNERR_INVALIDPLAYER = MAKE_DPNHRESULT 0x420"
definition DPNERR_NOCONNECTION :: hresult where "DPNERR_NOCONNECTION = MAKE_DPNHRESULT 0x480"
definition DPNERR_NOTHOST :: hresult where "DPNERR_NOTHOST = MAKE_DPNHRESULT 0x530"
definition DPNERR_NOTREADY :: hresult where "DPNERR_NOTREADY = MAKE_DPNHRESULT 0x540"
definition DPNERR_PLAYERALREADYINGROUP :: hresult where
  "DPNERR_PLAYERALREADYINGROUP = MAKE_DPNHRESULT 0x560"
definition DPNERR_PLAYERNOTINGROUP :: hresult where
  "DPNERR_PLAYERNOTINGROUP = MAKE_DPNHRESULT 0x580"
definition DPNERR_PLAYERNOTREACHABLE :: hresult where
  "DPNERR_PLAYERNOTREACHABLE = MAKE_DPNHRESULT 0x590"
definition DPNERR_UNINITIALIZED :: hresult where "DPNERR_UNINITIALIZED = MAKE_DPNHRESULT 0x640"
definition DPNERR_USERCANCEL :: hresult where "DPNERR_USERCANCEL = MAKE_DPNHRESULT 0x650"

section \<open>Flags and reasons\<close>

definition DPNID_ALL_PLAYERS_GROUP :: dword where "DPNID_ALL_PLAYERS_GROUP = 0"
definition DPNDESTROYGROUPREASON_NORMAL :: dword where "DPNDESTROYGROUPREASON_NORMAL = 0x0001"
definition DPNDESTROYGROUPREASON_SESSIONTERMINATED :: dword where
  "DPNDESTROYGROUPREASON_SESSIONTERMINATED = 0x0003"
definition DPNDESTROYPLAYERREASON_NORMAL :: dword where "DPNDESTROYPLAYERREASON_NORMAL = 0x0001"
definition DPNDESTROYPLAYERREASON_CONNECTIONLOST :: dword where
  "DPNDESTROYPLAYERREASON_CONNECTIONLOST = 0x0002"
definition DPNDESTROYPLAYERREASON_SESSIONTERMINATED :: dword where
  "DPNDESTROYPLAYERREASON_SESSIONTERMINATED = 0x0003"
definition DPNDESTROYPLAYERREASON_HOSTDESTROYEDPLAYER :: dword where
  "DPNDESTROYPLAYERREASON_HOSTDESTROYEDPLAYER = 0x0004"
definition DPNOP_SYNC :: dword where "DPNOP_SYNC = 0x80000000"
definition DPNADDPLAYERTOGROUP_SYNC :: dword where "DPNADDPLAYERTOGROUP_SYNC = DPNOP_SYNC"
definition DPNCANCEL_CONNECT :: dword where "DPNCANCEL_CONNECT = 0x0001"
definition DPNCANCEL_ENUM :: dword where "DPNCANCEL_ENUM = 0x0002"
definition DPNCANCEL_ALL_OPERATIONS :: dword where "DPNCANCEL_ALL_OPERATIONS = 0x8000"
definition DPNCANCEL_PLAYER_SENDS :: dword where "DPNCANCEL_PLAYER_SENDS = 0x80000000"
definition DPNCANCEL_PLAYER_SENDS_PRIORITY_HIGH :: dword where
  "DPNCANCEL_PLAYER_SENDS_PRIORITY_HIGH = DPNCANCEL_PLAYER_SENDS OR 0x00010000"
definition DPNCANCEL_PLAYER_SENDS_PRIORITY_NORMAL :: dword where
  "DPNCANCEL_PLAYER_SENDS_PRIORITY_NORMAL = DPNCANCEL_PLAYER_SENDS OR 0x00020000"
definition DPNCANCEL_PLAYER_SENDS_PRIORITY_LOW :: dword where
  "DPNCANCEL_PLAYER_SENDS_PRIORITY_LOW = DPNCANCEL_PLAYER_SENDS OR 0x00040000"
definition DPNCLOSE_IMMEDIATE :: dword where "DPNCLOSE_IMMEDIATE = 0x00000001"
definition DPNCONNECT_SYNC :: dword where "DPNCONNECT_SYNC = DPNOP_SYNC"
definition DPNCREATEGROUP_SYNC :: dword where "DPNCREATEGROUP_SYNC = DPNOP_SYNC"
definition DPNDESTROYGROUP_SYNC :: dword where "DPNDESTROYGROUP_SYNC = DPNOP_SYNC"
definition DPNENUM_PLAYERS :: dword where "DPNENUM_PLAYERS = 0x0001"
definition DPNENUM_GROUPS :: dword where "DPNENUM_GROUPS = 0x0010"
definition DPNENUMHOSTS_SYNC :: dword where "DPNENUMHOSTS_SYNC = DPNOP_SYNC"
definition DPNGETLOCALHOSTADDRESSES_COMBINED :: dword where
  "DPNGETLOCALHOSTADDRESSES_COMBINED = 0x0001"
definition DPNGROUP_AUTODESTRUCT :: dword where "DPNGROUP_AUTODESTRUCT = 0x0001"
definition DPNINFO_NAME :: dword where "DPNINFO_NAME = 0x0001"
definition DPNINFO_DATA :: dword where "DPNINFO_DATA = 0x0002"
definition DPNPLAYER_LOCAL :: dword where "DPNPLAYER_LOCAL = 0x0002"
definition DPNPLAYER_HOST :: dword where "DPNPLAYER_HOST = 0x0004"
definition DPNRECEIVE_GUARANTEED :: dword where "DPNRECEIVE_GUARANTEED = 0x0001"
definition DPNRECEIVE_COALESCED :: dword where "DPNRECEIVE_COALESCED = 0x0002"
definition DPNREMOVEPLAYERFROMGROUP_SYNC :: dword where "DPNREMOVEPLAYERFROMGROUP_SYNC = DPNOP_SYNC"
definition DPNSEND_SYNC :: dword where "DPNSEND_SYNC = DPNOP_SYNC"
definition DPNSEND_NOCOPY :: dword where "DPNSEND_NOCOPY = 0x0001"
definition DPNSEND_NOCOMPLETE :: dword where "DPNSEND_NOCOMPLETE = 0x0002"
definition DPNSEND_COMPLETEONPROCESS :: dword where "DPNSEND_COMPLETEONPROCESS = 0x0004"
definition DPNSEND_GUARANTEED :: dword where "DPNSEND_GUARANTEED = 0x0008"
definition DPNSEND_NOLOOPBACK :: dword where "DPNSEND_NOLOOPBACK = 0x0020"
definition DPNSEND_PRIORITY_LOW :: dword where "DPNSEND_PRIORITY_LOW = 0x0040"
definition DPNSEND_PRIORITY_HIGH :: dword where "DPNSEND_PRIORITY_HIGH = 0x0080"
definition DPNSEND_COALESCE :: dword where "DPNSEND_COALESCE = 0x0100"
definition DPNSESSION_CLIENT_SERVER :: dword where "DPNSESSION_CLIENT_SERVER = 0x0001"
definition DPNSESSION_MIGRATE_HOST :: dword where "DPNSESSION_MIGRATE_HOST = 0x0004"
definition DPNSESSION_NODPNSVR :: dword where "DPNSESSION_NODPNSVR = 0x0040"
definition DPNSESSION_REQUIREPASSWORD :: dword where "DPNSESSION_REQUIREPASSWORD = 0x0080"
definition DPNSETPEERINFO_SYNC :: dword where "DPNSETPEERINFO_SYNC = DPNOP_SYNC"
definition DPNSPCAPS_SUPPORTSDPNSRV :: dword where "DPNSPCAPS_SUPPORTSDPNSRV = 0x0001"
definition DPNSPCAPS_SUPPORTSBROADCAST :: dword where "DPNSPCAPS_SUPPORTSBROADCAST = 0x0002"
definition DPNSPCAPS_SUPPORTSALLADAPTERS :: dword where "DPNSPCAPS_SUPPORTSALLADAPTERS = 0x0004"
definition DPNSPCAPS_SUPPORTSTHREADPOOL :: dword where "DPNSPCAPS_SUPPORTSTHREADPOOL = 0x0008"

section \<open>Classes, interfaces and service providers\<close>

definition CLSID_DirectPlay8Peer :: guid where
  "CLSID_DirectPlay8Peer = DEFINE_GUID 0x286f484d 0x375e 0x4458 [0xa2, 0x72, 0xb1, 0x38, 0xe2, 0xf8, 0x0a, 0x6a]"
definition IID_IDirectPlay8Peer :: guid where
  "IID_IDirectPlay8Peer = DEFINE_GUID 0x5102dacf 0x241b 0x11d3 [0xae, 0xa7, 0x0, 0x60, 0x97, 0xb0, 0x14, 0x11]"
definition CLSID_DP8SP_IPX :: guid where
  "CLSID_DP8SP_IPX = DEFINE_GUID 0x53934290 0x628d 0x11d2 [0xae, 0x0f, 0x0, 0x60, 0x97, 0xb0, 0x14, 0x11]"
definition CLSID_DP8SP_TCPIP :: guid where
  "CLSID_DP8SP_TCPIP = DEFINE_GUID 0xebfe7ba0 0x628d 0x11d2 [0xae, 0x0f, 0x0, 0x60, 0x97, 0xb0, 0x14, 0x11]"

section \<open>Evaluation\<close>

lemmas [const_defs] = MAKE_HRESULT_def MAKE_DPNHRESULT_def S_OK_def E_NOTIMPL_def
    E_NOINTERFACE_def E_POINTER_def E_FAIL_def E_UNEXPECTED_def E_OUTOFMEMORY_def E_INVALIDARG_def
    CLASS_E_NOAGGREGATION_def CLASS_E_CLASSNOTAVAILABLE_def INFINITE_def DPNA_DATATYPE_STRING_def
    DPNA_DATATYPE_DWORD_def DPNA_DATATYPE_GUID_def DPNA_DATATYPE_STRING_ANSI_def
    DPN_MSGID_OFFSET_def DPN_MSGID_ADD_PLAYER_TO_GROUP_def DPN_MSGID_APPLICATION_DESC_def
    DPN_MSGID_ASYNC_OP_COMPLETE_def DPN_MSGID_CONNECT_COMPLETE_def DPN_MSGID_CREATE_GROUP_def
    DPN_MSGID_CREATE_PLAYER_def DPN_MSGID_DESTROY_GROUP_def DPN_MSGID_DESTROY_PLAYER_def
    DPN_MSGID_ENUM_HOSTS_QUERY_def DPN_MSGID_ENUM_HOSTS_RESPONSE_def
    DPN_MSGID_INDICATE_CONNECT_def DPN_MSGID_PEER_INFO_def DPN_MSGID_RECEIVE_def
    DPN_MSGID_REMOVE_PLAYER_FROM_GROUP_def DPN_MSGID_RETURN_BUFFER_def DPN_MSGID_SEND_COMPLETE_def
    DPN_MSGID_TERMINATE_SESSION_def DPNSUCCESS_PENDING_def DPNERR_GENERIC_def
    DPNERR_INVALIDPARAM_def DPNERR_ALREADYCLOSING_def DPNERR_ALREADYCONNECTED_def
    DPNERR_ALREADYINITIALIZED_def DPNERR_BUFFERTOOSMALL_def DPNERR_CANNOTCANCEL_def
    DPNERR_CONNECTING_def DPNERR_CONNECTIONLOST_def DPNERR_DOESNOTEXIST_def DPNERR_HOSTING_def
    DPNERR_HOSTREJECTEDCONNECTION_def DPNERR_HOSTTERMINATEDSESSION_def
    DPNERR_INVALIDAPPLICATION_def DPNERR_INVALIDDEVICEADDRESS_def DPNERR_INVALIDFLAGS_def
    DPNERR_INVALIDGROUP_def DPNERR_INVALIDHANDLE_def DPNERR_INVALIDHOSTADDRESS_def
    DPNERR_INVALIDINSTANCE_def DPNERR_INVALIDPASSWORD_def DPNERR_INVALIDPLAYER_def
    DPNERR_NOCONNECTION_def DPNERR_NOTHOST_def DPNERR_NOTREADY_def DPNERR_PLAYERALREADYINGROUP_def
    DPNERR_PLAYERNOTINGROUP_def DPNERR_PLAYERNOTREACHABLE_def DPNERR_UNINITIALIZED_def
    DPNERR_USERCANCEL_def DPNID_ALL_PLAYERS_GROUP_def DPNDESTROYGROUPREASON_NORMAL_def
    DPNDESTROYGROUPREASON_SESSIONTERMINATED_def DPNDESTROYPLAYERREASON_NORMAL_def
    DPNDESTROYPLAYERREASON_CONNECTIONLOST_def DPNDESTROYPLAYERREASON_SESSIONTERMINATED_def
    DPNDESTROYPLAYERREASON_HOSTDESTROYEDPLAYER_def DPNOP_SYNC_def DPNADDPLAYERTOGROUP_SYNC_def
    DPNCANCEL_CONNECT_def DPNCANCEL_ENUM_def DPNCANCEL_ALL_OPERATIONS_def
    DPNCANCEL_PLAYER_SENDS_def DPNCANCEL_PLAYER_SENDS_PRIORITY_HIGH_def
    DPNCANCEL_PLAYER_SENDS_PRIORITY_NORMAL_def DPNCANCEL_PLAYER_SENDS_PRIORITY_LOW_def
    DPNCLOSE_IMMEDIATE_def DPNCONNECT_SYNC_def DPNCREATEGROUP_SYNC_def DPNDESTROYGROUP_SYNC_def
    DPNENUM_PLAYERS_def DPNENUM_GROUPS_def DPNENUMHOSTS_SYNC_def
    DPNGETLOCALHOSTADDRESSES_COMBINED_def DPNGROUP_AUTODESTRUCT_def DPNINFO_NAME_def
    DPNINFO_DATA_def DPNPLAYER_LOCAL_def DPNPLAYER_HOST_def DPNRECEIVE_GUARANTEED_def
    DPNRECEIVE_COALESCED_def DPNREMOVEPLAYERFROMGROUP_SYNC_def DPNSEND_SYNC_def DPNSEND_NOCOPY_def
    DPNSEND_NOCOMPLETE_def DPNSEND_COMPLETEONPROCESS_def DPNSEND_GUARANTEED_def
    DPNSEND_NOLOOPBACK_def DPNSEND_PRIORITY_LOW_def DPNSEND_PRIORITY_HIGH_def DPNSEND_COALESCE_def
    DPNSESSION_CLIENT_SERVER_def DPNSESSION_MIGRATE_HOST_def DPNSESSION_NODPNSVR_def
    DPNSESSION_REQUIREPASSWORD_def DPNSETPEERINFO_SYNC_def DPNSPCAPS_SUPPORTSDPNSRV_def
    DPNSPCAPS_SUPPORTSBROADCAST_def DPNSPCAPS_SUPPORTSALLADAPTERS_def
    DPNSPCAPS_SUPPORTSTHREADPOOL_def

lemmas guid_defs = IID_IUnknown_def IID_IClassFactory_def CLSID_DirectPlay8Address_def
    IID_IDirectPlay8Address_def CLSID_DirectPlay8Peer_def IID_IDirectPlay8Peer_def
    CLSID_DP8SP_IPX_def CLSID_DP8SP_TCPIP_def

lemmas key_defs = wide_def DPNA_KEY_DEVICE_def DPNA_KEY_HOSTNAME_def DPNA_KEY_PORT_def
    DPNA_KEY_PROVIDER_def

text \<open>No two result codes of the interface agree; in particular none of the errors is \<open>S_OK\<close>.\<close>

lemma hresults_distinct:
  "distinct [S_OK, DPNSUCCESS_PENDING, DPNERR_GENERIC, DPNERR_INVALIDPARAM, DPNERR_ALREADYCLOSING,
     DPNERR_ALREADYCONNECTED, DPNERR_ALREADYINITIALIZED, DPNERR_BUFFERTOOSMALL,
     DPNERR_CANNOTCANCEL, DPNERR_CONNECTING, DPNERR_CONNECTIONLOST, DPNERR_DOESNOTEXIST,
     DPNERR_HOSTING, DPNERR_HOSTREJECTEDCONNECTION, DPNERR_HOSTTERMINATEDSESSION,
     DPNERR_INVALIDAPPLICATION, DPNERR_INVALIDDEVICEADDRESS, DPNERR_INVALIDFLAGS,
     DPNERR_INVALIDGROUP, DPNERR_INVALIDHANDLE, DPNERR_INVALIDHOSTADDRESS,
     DPNERR_INVALIDINSTANCE, DPNERR_INVALIDPASSWORD, DPNERR_INVALIDPLAYER,
     DPNERR_NOCONNECTION, DPNERR_NOTHOST, DPNERR_NOTREADY, DPNERR_PLAYERALREADYINGROUP,
     DPNERR_PLAYERNOTINGROUP, DPNERR_PLAYERNOTREACHABLE, DPNERR_UNINITIALIZED,
     DPNERR_USERCANCEL,
     E_NOTIMPL, E_NOINTERFACE, E_OUTOFMEMORY, E_UNEXPECTED]"
  by (simp add: const_defs)

end
