(* ===== verification/RefCount.thy ===== *)
theory RefCount
  imports Constants
begin

text \<open>
  The reference counting contract of COM objects, as the factory, the address and the peer class
  implement it: every object counts its own references and, when it was given one, a counter
  shared by all objects of the library (\<^verbatim>\<open>global_refcount\<close>, \<open>None\<close> for a null pointer). The locale
  \<open>refcounted\<close> states the contract; the theories of the three classes interpret it.
\<close>

type_synonym refcounter = "dword option"

text \<open>
  \<open>release\<close> yields the new count, the object unless it was deleted, and the shared counter.
\<close>

locale refcounted =
  fixes add_ref :: "'o \<Rightarrow> refcounter \<Rightarrow> dword \<times> 'o \<times> refcounter"
    and release :: "'o \<Rightarrow> refcounter \<Rightarrow> dword \<times> 'o option \<times> refcounter"
    and refs :: "'o \<Rightarrow> dword"
    and with_refs :: "dword \<Rightarrow> 'o \<Rightarrow> 'o"
  assumes refs_with [simp]: "refs (with_refs n x) = n"
    and with_with [simp]: "with_refs n (with_refs m x) = with_refs n x"
    and add_ref: "add_ref x g = (refs x + 1, with_refs (refs x + 1) x, map_option (\<lambda>c. c + 1) g)"
    and release: "release x g =
      (refs x - 1, if refs x - 1 = 0 then None else Some (with_refs (refs x - 1) x),
       map_option (\<lambda>c. c - 1) g)"
begin

text \<open>\<open>n\<close> calls of \<open>add_ref\<close>, and \<open>n\<close> calls of \<open>release\<close> (none after the object is gone).\<close>

fun add_refs :: "nat \<Rightarrow> 'o \<Rightarrow> refcounter \<Rightarrow> 'o \<times> refcounter" where
  "add_refs 0 x g = (x, g)"
| "add_refs (Suc n) x g = (let (_, x', g') = add_ref x g in add_refs n x' g')"

fun releases :: "nat \<Rightarrow> 'o \<Rightarrow> refcounter \<Rightarrow> 'o option \<times> refcounter" where
  "releases 0 x g = (Some x, g)"
| "releases (Suc n) x g =
     (case release x g of (_, None, g') \<Rightarrow> (None, g') | (_, Some x', g') \<Rightarrow> releases n x' g')"

lemma add_refs_Suc:
  "add_refs (Suc n) x g = add_refs n (with_refs (refs x + 1) x) (map_option (\<lambda>c. c + 1) g)"
  by (simp add: add_ref [of x g])

lemma releases_Suc:
  "releases (Suc n) x g =
     (if refs x - 1 = 0 then (None, map_option (\<lambda>c. c - 1) g)
      else releases n (with_refs (refs x - 1) x) (map_option (\<lambda>c. c - 1) g))"
  by (simp add: release [of x g])

declare add_refs.simps(2) [simp del] releases.simps(2) [simp del]

lemma add_refs_count:
  "add_refs n x g = (y, g') \<Longrightarrow> refs y = refs x + word_of_nat n \<and> g' = map_option (\<lambda>c. c + word_of_nat n) g
     \<and> (0 < n \<longrightarrow> y = with_refs (refs x + word_of_nat n) x)"
proof (induction n arbitrary: x g)
  case 0
  then show ?case by (cases g) auto
next
  case (Suc n)
  from Suc.prems have eq: "add_refs n (with_refs (refs x + 1) x) (map_option (\<lambda>c. c + 1) g) = (y, g')"
    by (simp add: add_refs_Suc)
  from Suc.IH [OF eq] Suc.prems show ?case
    by (cases g; cases n) (auto simp: ac_simps add_refs_Suc)
qed

lemma releases_alive:
  "n < unat (refs x) \<Longrightarrow> \<exists>y. releases n x g = (Some y, map_option (\<lambda>c. c - word_of_nat n) g)
     \<and> refs y = refs x - word_of_nat n"
proof (induction n arbitrary: x g)
  case 0
  then show ?case by (cases g) auto
next
  case (Suc n)
  then have nz: "refs x - 1 \<noteq> 0" by auto
  have "n < unat (refs (with_refs (refs x - 1) x))"
    using Suc.prems by (subst refs_with, subst unat_minus_one) auto
  from Suc.IH [OF this, of "map_option (\<lambda>c. c - 1) g"] obtain y where
    "releases n (with_refs (refs x - 1) x) (map_option (\<lambda>c. c - 1) g) =
       (Some y, map_option (\<lambda>c. c - word_of_nat n) (map_option (\<lambda>c. c - 1) g))"
    "refs y = refs x - 1 - word_of_nat n"
    by auto
  with nz show ?case
    by (cases g) (auto simp: releases_Suc algebra_simps)
qed

lemma releases_last:
  "0 < unat (refs x) \<Longrightarrow> releases (unat (refs x)) x g = (None, map_option (\<lambda>c. c - refs x) g)"
proof (induction "unat (refs x)" arbitrary: x g)
  case 0
  then show ?case by simp
next
  case (Suc n)
  then have n: "unat (refs x - 1) = n" by (metis diff_Suc_1 unat_minus_one unat_0 nat.simps(3))
  show ?case
  proof (cases "refs x - 1 = 0")
    case True
    with n Suc(2) [symmetric] show ?thesis by (simp add: releases_Suc)
  next
    case False
    with n have "0 < n" by (metis gr0I unat_eq_zero)
    with n False have "releases n (with_refs (refs x - 1) x) (map_option (\<lambda>c. c - 1) g) =
        (None, map_option (\<lambda>c. c - (refs x - 1)) (map_option (\<lambda>c. c - 1) g))"
      using Suc(1) [of "with_refs (refs x - 1) x" "map_option (\<lambda>c. c - 1) g"] by simp
    with False Suc(2) [symmetric] show ?thesis
      by (cases g) (simp_all add: releases_Suc)
  qed
qed

text \<open>
  References that are given back leave the object and the shared counter as they were; the object
  goes away with the last one and not before, and then the shared counter has lost all its
  references.
\<close>

lemma add_releases:
  assumes "unat (refs x) + n < 2 ^ 32" "0 < unat (refs x)"
    and "add_refs n x g = (y, g')"
  shows "\<exists>z. releases n y g' = (Some z, g) \<and> refs z = refs x"
proof -
  from add_refs_count [OF assms(3)] have
    y: "refs y = refs x + word_of_nat n" and g': "g' = map_option (\<lambda>c. c + word_of_nat n) g" by auto
  have "unat (word_of_nat n :: dword) = n" using assms(1) by (intro unat_word_of_nat_small) simp
  with y assms(1) have "unat (refs y) = unat (refs x) + n" by (simp add: unat_add_small)
  with assms(2) have "n < unat (refs y)" by simp
  from releases_alive [OF this, of g'] y g' show ?thesis by (cases g) auto
qed

end

end
