(* ===== verification/Address.thy ===== *)
theory Address
  imports RefCount SendQueue
begin

text \<open>
  The address object of \<^verbatim>\<open>src/src/DirectPlay8Address.hpp\<close> and \<^verbatim>\<open>.cpp\<close>: an ordered list of named,
  typed components and a block of user data. A method that fills a caller's buffer takes whether
  the pointer is non-null and the size variable, and yields the bytes written (if any) with the
  new contents of the size variable. Memory behind an input pointer is a byte list that holds at
  least the number of bytes the size argument announces.

  The conversion of ANSI strings (\<^verbatim>\<open>MultiByteToWideChar\<close>) depends on the code page of the system
  and is the parameter \<open>mb\<close>: the source bytes and their count to the wide characters, an empty list
  for failure.

  The locale \<open>named_store\<close> is the contract the accessors by name rely on.
\<close>

section \<open>Data\<close>

datatype Component =
    StringComponentW (cname: "wchar list") "wchar list"
  | DWORDComponent (cname: "wchar list") dword
  | GUIDComponent (cname: "wchar list") guid

record DirectPlay8Address =
  local_refcount :: dword
  components :: "Component list"
  user_data :: "byte list"

type_synonym mb_conv = "byte list \<Rightarrow> int \<Rightarrow> wchar list"

section \<open>Components\<close>

text \<open>The size is in bytes.\<close>

definition new_StringComponentW :: "wchar list \<Rightarrow> wchar list \<Rightarrow> dword \<Rightarrow> Component" where
  "new_StringComponentW name data dwDataSize = StringComponentW name (take (unat (dwDataSize div 2)) data)"

fun clone :: "Component \<Rightarrow> Component" where
  "clone (StringComponentW name value) =
     new_StringComponentW name value (word_of_nat (length value))"
| "clone (DWORDComponent name value) = DWORDComponent name value"
| "clone (GUIDComponent name value) = GUIDComponent name value"

text \<open>\<^verbatim>\<open>wcsncpy\<close>: characters up to the first null, then nulls.\<close>

definition wcsncpy :: "wchar list \<Rightarrow> nat \<Rightarrow> wchar list" where
  "wcsncpy src n =
     (let s = takeWhile (\<lambda>c. c \<noteq> 0) (take n src) in s @ replicate (n - length s) 0)"

definition fill_buffer ::
  "byte list \<Rightarrow> dword \<Rightarrow> bool \<Rightarrow> dword \<Rightarrow> dword \<Rightarrow> hresult \<times> byte list option \<times> dword \<times> dword" where
  "fill_buffer bytes needed buf bufsize ty =
     (if bufsize \<ge> needed \<and> buf then (S_OK, Some bytes, needed, ty)
      else (DPNERR_BUFFERTOOSMALL, None, needed, ty))"

fun get_component :: "Component \<Rightarrow> bool \<Rightarrow> dword \<Rightarrow> hresult \<times> byte list option \<times> dword \<times> dword" where
  "get_component (StringComponentW name value) buf bufsize =
     fill_buffer (wstring_bytes (wcsncpy value (length value))) (word_of_nat (length value) * 2)
       buf bufsize DPNA_DATATYPE_STRING"
| "get_component (DWORDComponent name value) buf bufsize =
     fill_buffer (le32 value) 4 buf bufsize DPNA_DATATYPE_DWORD"
| "get_component (GUIDComponent name value) buf bufsize =
     fill_buffer (guid_bytes value) 16 buf bufsize DPNA_DATATYPE_GUID"

section \<open>Construction, references and copies\<close>

definition AddRef :: "DirectPlay8Address \<Rightarrow> refcounter \<Rightarrow> dword \<times> DirectPlay8Address \<times> refcounter" where
  "AddRef a g =
     (let g' = (case g of None \<Rightarrow> None | Some c \<Rightarrow> Some (c + 1));
          a' = a\<lparr>local_refcount := local_refcount a + 1\<rparr>
      in (local_refcount a', a', g'))"

definition Release ::
  "DirectPlay8Address \<Rightarrow> refcounter \<Rightarrow> dword \<times> DirectPlay8Address option \<times> refcounter" where
  "Release a g =
     (let rc = local_refcount a - 1;
          a' = (if rc = 0 then None else Some (a\<lparr>local_refcount := rc\<rparr>));
          g' = (case g of None \<Rightarrow> None | Some c \<Rightarrow> Some (c - 1))
      in (rc, a', g'))"

definition new_address :: "refcounter \<Rightarrow> DirectPlay8Address \<times> refcounter" where
  "new_address g = snd (AddRef \<lparr>local_refcount = 0, components = [], user_data = []\<rparr> g)"

definition clear_components :: "DirectPlay8Address \<Rightarrow> DirectPlay8Address" where
  "clear_components a = a\<lparr>components := []\<rparr>"

definition replace_components :: "Component list \<Rightarrow> DirectPlay8Address \<Rightarrow> DirectPlay8Address" where
  "replace_components src a =
     (let a' = clear_components a in a'\<lparr>components := components a' @ map clone src\<rparr>)"

definition copy_address :: "DirectPlay8Address \<Rightarrow> refcounter \<Rightarrow> DirectPlay8Address \<times> refcounter" where
  "copy_address src g =
     (let a = \<lparr>local_refcount = 0, components = [], user_data = user_data src\<rparr>
      in snd (AddRef (replace_components (components src) a) g))"

definition QueryInterface ::
  "guid \<Rightarrow> DirectPlay8Address \<Rightarrow> refcounter \<Rightarrow> hresult \<times> DirectPlay8Address \<times> refcounter" where
  "QueryInterface riid a g =
     (if riid = IID_IDirectPlay8Address \<or> riid = IID_IUnknown
      then let (_, a', g') = AddRef a g in (S_OK, a', g')
      else (E_NOINTERFACE, a, g))"

definition Duplicate ::
  "DirectPlay8Address \<Rightarrow> refcounter \<Rightarrow> hresult \<times> DirectPlay8Address \<times> refcounter" where
  "Duplicate a g = (let (a', g') = copy_address a g in (S_OK, a', g'))"

definition SetEqual :: "DirectPlay8Address \<Rightarrow> DirectPlay8Address \<Rightarrow> hresult \<times> DirectPlay8Address" where
  "SetEqual src a = (S_OK, (replace_components (components src) a)\<lparr>user_data := user_data src\<rparr>)"

definition Clear :: "DirectPlay8Address \<Rightarrow> hresult \<times> DirectPlay8Address" where
  "Clear a = (S_OK, (clear_components a)\<lparr>user_data := []\<rparr>)"

section \<open>Components by name and by index\<close>

fun find_component :: "wchar list \<Rightarrow> Component list \<Rightarrow> Component option" where
  "find_component name [] = None"
| "find_component name (c # cs) = (if cname c = name then Some c else find_component name cs)"

definition GetNumComponents :: "DirectPlay8Address \<Rightarrow> hresult \<times> dword" where
  "GetNumComponents a = (S_OK, word_of_nat (length (components a)))"

text \<open>The last argument is the previous content of the type variable.\<close>

definition GetComponentByName ::
  "wchar list \<Rightarrow> bool \<Rightarrow> dword \<Rightarrow> dword \<Rightarrow> DirectPlay8Address \<Rightarrow>
     hresult \<times> byte list option \<times> dword \<times> dword" where
  "GetComponentByName name buf bufsize ty a =
     (case find_component name (components a) of
        Some c \<Rightarrow> get_component c buf bufsize
      | None \<Rightarrow> (DPNERR_DOESNOTEXIST, None, bufsize, ty))"

text \<open>The result, the bytes, their size and type, the name written and its length.\<close>

definition GetComponentByIndex ::
  "dword \<Rightarrow> bool \<Rightarrow> dword \<Rightarrow> bool \<Rightarrow> dword \<Rightarrow> dword \<Rightarrow> DirectPlay8Address \<Rightarrow>
     hresult \<times> byte list option \<times> dword \<times> dword \<times> wchar list option \<times> dword" where
  "GetComponentByIndex i namebuf namelen buf bufsize ty a =
     (if unat i \<ge> length (components a) then (DPNERR_DOESNOTEXIST, None, bufsize, ty, None, namelen)
      else
        let c = components a ! unat i;
            (res, bytes, bufsize', ty') = get_component c buf bufsize;
            namelen' = word_of_nat (length (cname c) + 1)
        in if unat namelen > length (cname c) \<and> namebuf
           then (res, bytes, bufsize', ty', Some (cname c @ [0]), namelen')
           else (DPNERR_BUFFERTOOSMALL, bytes, bufsize', ty', None, namelen'))"

text \<open>The new component of \<open>AddComponent\<close>, or the error it returns.\<close>

definition new_component ::
  "mb_conv \<Rightarrow> wchar list \<Rightarrow> byte list \<Rightarrow> dword \<Rightarrow> dword \<Rightarrow> hresult + Component" where
  "new_component mb name data dwDataSize dwDataType =
     (if dwDataType = DPNA_DATATYPE_STRING then
        Inr (new_StringComponentW name (wstring_of_bytes (take (2 * unat (dwDataSize div 2)) data)) dwDataSize)
      else if dwDataType = DPNA_DATATYPE_STRING_ANSI then
        (let wide_char_buf = mb data (sint dwDataSize)
         in if wide_char_buf = [] then Inl DPNERR_INVALIDPARAM
            else Inr (new_StringComponentW name wide_char_buf (word_of_nat (length wide_char_buf) * 2)))
      else if dwDataType = DPNA_DATATYPE_DWORD then
        (if dwDataSize \<noteq> 4 then Inl DPNERR_INVALIDPARAM
         else Inr (DWORDComponent name (de32 (take 4 data))))
      else if dwDataType = DPNA_DATATYPE_GUID then
        (if dwDataSize \<noteq> 16 then Inl DPNERR_INVALIDPARAM
         else Inr (GUIDComponent name (guid_of_bytes (take 16 data))))
      else Inl E_NOTIMPL)"

fun replace_named :: "Component \<Rightarrow> Component list \<Rightarrow> Component list" where
  "replace_named c [] = []"
| "replace_named c (d # ds) = (if cname d = cname c then c # ds else d # replace_named c ds)"

definition place_component :: "Component \<Rightarrow> Component list \<Rightarrow> Component list" where
  "place_component c cs =
     (if find_component (cname c) cs \<noteq> None then replace_named c cs
      else if cname c = DPNA_KEY_PROVIDER then c # cs
      else cs @ [c])"

definition AddComponent ::
  "mb_conv \<Rightarrow> wchar list \<Rightarrow> byte list \<Rightarrow> dword \<Rightarrow> dword \<Rightarrow> DirectPlay8Address \<Rightarrow>
     hresult \<times> DirectPlay8Address" where
  "AddComponent mb name data dwDataSize dwDataType a =
     (case new_component mb name data dwDataSize dwDataType of
        Inl e \<Rightarrow> (e, a)
      | Inr c \<Rightarrow> (S_OK, a\<lparr>components := place_component c (components a)\<rparr>))"

section \<open>Service provider, device and user data\<close>

definition guid_component :: "wchar list \<Rightarrow> DirectPlay8Address \<Rightarrow> hresult \<times> guid option" where
  "guid_component key a =
     (let (res, bytes, _, ty) = GetComponentByName key True 16 0 a
      in if res = S_OK \<and> ty = DPNA_DATATYPE_GUID then (S_OK, map_option guid_of_bytes bytes)
         else if res = S_OK then (DPNERR_GENERIC, None)
         else (res, None))"

definition GetSP :: "DirectPlay8Address \<Rightarrow> hresult \<times> guid option" where
  "GetSP a = guid_component DPNA_KEY_PROVIDER a"

definition SetSP :: "mb_conv \<Rightarrow> guid \<Rightarrow> DirectPlay8Address \<Rightarrow> hresult \<times> DirectPlay8Address" where
  "SetSP mb sp a = AddComponent mb DPNA_KEY_PROVIDER (guid_bytes sp) 16 DPNA_DATATYPE_GUID a"

definition GetDevice :: "DirectPlay8Address \<Rightarrow> hresult \<times> guid option" where
  "GetDevice a = guid_component DPNA_KEY_DEVICE a"

definition SetDevice :: "mb_conv \<Rightarrow> guid \<Rightarrow> DirectPlay8Address \<Rightarrow> hresult \<times> DirectPlay8Address" where
  "SetDevice mb dev a = AddComponent mb DPNA_KEY_DEVICE (guid_bytes dev) 16 DPNA_DATATYPE_GUID a"

text \<open>On success the size variable keeps its value.\<close>

definition GetUserData :: "bool \<Rightarrow> dword \<Rightarrow> DirectPlay8Address \<Rightarrow> hresult \<times> byte list option \<times> dword" where
  "GetUserData buf bufsize a =
     (if user_data a = [] then (DPNERR_DOESNOTEXIST, None, bufsize)
      else if buf \<and> unat bufsize \<ge> length (user_data a) then (S_OK, Some (user_data a), bufsize)
      else (DPNERR_BUFFERTOOSMALL, None, word_of_nat (length (user_data a))))"

text \<open>\<open>None\<close> is a null pointer.\<close>

definition SetUserData :: "byte list option \<Rightarrow> dword \<Rightarrow> DirectPlay8Address \<Rightarrow> hresult \<times> DirectPlay8Address" where
  "SetUserData data dwDataSize a =
     (S_OK, a\<lparr>user_data := (case data of
        Some bs \<Rightarrow> if dwDataSize > 0 then take (unat dwDataSize) bs else []
      | None \<Rightarrow> [])\<rparr>)"

text \<open>
  The methods that return \<^verbatim>\<open>E_NOTIMPL\<close> and change nothing: \<^verbatim>\<open>BuildFromURLW\<close>, \<^verbatim>\<open>BuildFromURLA\<close>,
  \<^verbatim>\<open>IsEqual\<close>, \<^verbatim>\<open>GetURLW\<close>, \<^verbatim>\<open>GetURLA\<close> and \<^verbatim>\<open>BuildFromDirectPlay4Address\<close>.
\<close>

definition address_UNIMPLEMENTED :: "DirectPlay8Address \<Rightarrow> hresult \<times> DirectPlay8Address" where
  "address_UNIMPLEMENTED a = (E_NOTIMPL, a)"

section \<open>The address of a host\<close>

definition ntohl :: "dword \<Rightarrow> dword" where
  "ntohl w = de32 (rev (le32 w))"

definition ntohs :: "16 word \<Rightarrow> 16 word" where
  "ntohs w = de16 (rev (le16 w))"

fun decimal :: "nat \<Rightarrow> byte list" where
  "decimal n = (if n < 10 then [48 + word_of_nat n] else decimal (n div 10) @ [48 + word_of_nat (n mod 10)])"

declare decimal.simps [simp del]

text \<open>\<^verbatim>\<open>inet_ntop\<close> for IPv4: the bytes of the address in memory order, in decimal, with dots.\<close>

definition inet_ntop :: "dword \<Rightarrow> byte list" where
  "inet_ntop s_addr =
     (case map (\<lambda>b. decimal (unat b)) (le32 s_addr) of
        [a, b, c, d] \<Rightarrow> a @ [46] @ b @ [46] @ c @ [46] @ d)"

text \<open>The format \<^verbatim>\<open>%08X\<close>.\<close>

definition hex_digit :: "dword \<Rightarrow> byte" where
  "hex_digit d = (if d < 10 then 48 + ucast d else 55 + ucast d)"

definition hex8 :: "dword \<Rightarrow> byte list" where
  "hex8 w = map (\<lambda>i. hex_digit (drop_bit (4 * i) w AND 15)) [7, 6, 5, 4, 3, 2, 1, 0]"

definition host_name :: "guid \<Rightarrow> sockaddr_in \<Rightarrow> byte list" where
  "host_name service_provider sa =
     (if service_provider = CLSID_DP8SP_TCPIP then inet_ntop (sin_addr sa)
      else ascii ''00000000,0000'' @ hex8 (ntohl (sin_addr sa)))"

text \<open>\<open>None\<close> is the failure of the assertion on the service provider.\<close>

definition create_host_address ::
  "mb_conv \<Rightarrow> refcounter \<Rightarrow> guid \<Rightarrow> sockaddr_in \<Rightarrow> (DirectPlay8Address \<times> refcounter) option" where
  "create_host_address mb g service_provider sa =
     (if service_provider = CLSID_DP8SP_TCPIP \<or> service_provider = CLSID_DP8SP_IPX then
        let (a, g') = new_address g;
            (_, a) = SetSP mb service_provider a;
            hostname = host_name service_provider sa;
            (_, a) = AddComponent mb DPNA_KEY_HOSTNAME (hostname @ [0])
              (word_of_nat (length hostname + 1)) DPNA_DATATYPE_STRING_ANSI a;
            port_dw = (ucast (ntohs (sin_port sa)) :: dword);
            (_, a) = AddComponent mb DPNA_KEY_PORT (le32 port_dw) 4 DPNA_DATATYPE_DWORD a
        in Some (a, g')
      else None)"


section \<open>The contract of a store of named items\<close>

locale named_store =
  fixes put :: "'c \<Rightarrow> 's \<Rightarrow> 's"
    and get :: "'k \<Rightarrow> 's \<Rightarrow> 'c option"
    and key :: "'c \<Rightarrow> 'k"
  assumes get_put: "get k (put c s) = (if k = key c then Some c else get k s)"
begin

lemma get_put_same: "get (key c) (put c s) = Some c"
  by (simp add: get_put)

lemma get_put_other: "k \<noteq> key c \<Longrightarrow> get k (put c s) = get k s"
  by (simp add: get_put)

text \<open>After several insertions the last one under a name counts.\<close>

lemma get_puts:
  "get k (fold put cs s) = (case find (\<lambda>c. key c = k) (rev cs) of Some c \<Rightarrow> Some c | None \<Rightarrow> get k s)"
  by (induction cs rule: rev_induct) (auto simp: get_put split: option.splits)

end

lemma find_append_component:
  "find_component name (cs @ ds) =
     (case find_component name cs of Some c \<Rightarrow> Some c | None \<Rightarrow> find_component name ds)"
  by (induction cs) auto

lemma find_replace_named:
  "find_component (cname c) cs \<noteq> None \<Longrightarrow>
     find_component name (replace_named c cs) =
       (if name = cname c then Some c else find_component name cs)"
  by (induction cs) auto

interpretation component_store: named_store place_component find_component cname
  by unfold_locales (auto simp: place_component_def find_replace_named find_append_component split: option.splits)

lemma find_component_name: "find_component name cs = Some c \<Longrightarrow> cname c = name \<and> c \<in> set cs"
  by (induction cs) (auto split: if_splits)

lemma find_component_None: "find_component name cs = None \<longleftrightarrow> name \<notin> cname ` set cs"
  by (induction cs) auto

lemma cname_clone [simp]: "cname (clone c) = cname c"
  by (cases c) (simp_all add: new_StringComponentW_def)

lemma cname_new_component: "new_component mb name data n ty = Inr c \<Longrightarrow> cname c = name"
  by (auto simp: new_component_def new_StringComponentW_def Let_def split: if_splits)

lemma new_component_error: "new_component mb name data n ty = Inl e \<Longrightarrow> e \<noteq> S_OK"
  by (auto simp: new_component_def Let_def const_defs split: if_splits)

section \<open>Lookup after insertion\<close>

text \<open>
  C35: \<open>AddComponent\<close> either reports an error other than \<open>S_OK\<close> and leaves the address alone, or
  succeeds and from then on \<open>GetComponentByName\<close> answers from the new component under its name and as
  before under every other name.
\<close>

theorem AddComponent_lookup:
  "case new_component mb name data dwDataSize dwDataType of
     Inl e \<Rightarrow> AddComponent mb name data dwDataSize dwDataType a = (e, a) \<and> e \<noteq> S_OK
   | Inr c \<Rightarrow> \<exists>a'. AddComponent mb name data dwDataSize dwDataType a = (S_OK, a') \<and>
       (\<forall>n buf bufsize ty. GetComponentByName n buf bufsize ty a' =
          (if n = name then get_component c buf bufsize else GetComponentByName n buf bufsize ty a))"
proof (cases "new_component mb name data dwDataSize dwDataType")
  case (Inl e)
  then show ?thesis using new_component_error by (auto simp: AddComponent_def)
next
  case (Inr c)
  then show ?thesis
    using cname_new_component [OF Inr]
    by (auto simp: AddComponent_def GetComponentByName_def component_store.get_put)
qed

text \<open>What comes out is what went in, for each type of component.\<close>

lemma unat_string_size:
  "n < 2 ^ 31 \<Longrightarrow> unat (word_of_nat (2 * n) div 2 :: dword) = n"
  by (simp add: unat_div unat_word_of_nat_small del: of_nat_mult)

lemma wcsncpy_terminated: "0 \<notin> set ws \<Longrightarrow> wcsncpy (ws @ [0]) (length ws + 1) = ws @ [0]"
proof -
  assume "0 \<notin> set ws"
  then have "takeWhile (\<lambda>c. c \<noteq> 0) (ws @ [0]) = ws"
    by (subst takeWhile_append2) auto
  then show ?thesis by (simp add: wcsncpy_def Let_def)
qed

lemma new_component_string:
  "length ws < 2 ^ 31 \<Longrightarrow> new_component mb name (wstring_bytes ws) (word_of_nat (2 * length ws)) DPNA_DATATYPE_STRING
     = Inr (StringComponentW name ws)"
  by (simp add: new_component_def new_StringComponentW_def unat_string_size del: of_nat_mult)

lemma new_component_dword:
  "new_component mb name (le32 v) 4 DPNA_DATATYPE_DWORD = Inr (DWORDComponent name v)"
  by (simp add: new_component_def const_defs)

lemma new_component_guid:
  "new_component mb name (guid_bytes v) 16 DPNA_DATATYPE_GUID = Inr (GUIDComponent name v)"
  by (simp add: new_component_def const_defs guid.length_enc guid.dec_enc)

lemmas new_component_simps = new_component_string new_component_dword new_component_guid

lemma AddComponent_get:
  "new_component mb name data n ty = Inr c \<Longrightarrow>
     \<exists>a'. AddComponent mb name data n ty a = (S_OK, a') \<and>
       (\<forall>buf bufsize t. GetComponentByName name buf bufsize t a' = get_component c buf bufsize)"
  using cname_new_component [of mb name data n ty c]
  by (auto simp: AddComponent_def GetComponentByName_def component_store.get_put)

text \<open>
  C36: what comes out is what went in: an integer, a GUID and a null-terminated string, stored under
  a name, are read back into a buffer of sufficient size byte for byte, with their type and size; a
  smaller or null buffer is reported with the size it needs.
\<close>

theorem component_round_trip:
  fixes ws :: "wchar list" and name :: "wchar list"
  assumes "length ws + 1 < 2 ^ 31" "0 \<notin> set ws"
  shows "(\<exists>a'. AddComponent mb name (le32 v) 4 DPNA_DATATYPE_DWORD a = (S_OK, a') \<and>
       (\<forall>buf n t. GetComponentByName name buf n t a' =
          (if 4 \<le> n \<and> buf then (S_OK, Some (le32 v), 4, DPNA_DATATYPE_DWORD)
           else (DPNERR_BUFFERTOOSMALL, None, 4, DPNA_DATATYPE_DWORD))))
   \<and> (\<exists>a'. AddComponent mb name (guid_bytes u) 16 DPNA_DATATYPE_GUID a = (S_OK, a') \<and>
       (\<forall>buf n t. GetComponentByName name buf n t a' =
          (if 16 \<le> n \<and> buf then (S_OK, Some (guid_bytes u), 16, DPNA_DATATYPE_GUID)
           else (DPNERR_BUFFERTOOSMALL, None, 16, DPNA_DATATYPE_GUID))))
   \<and> (let bytes = wstring_bytes (ws @ [0]); sz = word_of_nat (2 * length (ws @ [0])) in
       \<exists>a'. AddComponent mb name bytes sz DPNA_DATATYPE_STRING a = (S_OK, a') \<and>
       (\<forall>buf n t. GetComponentByName name buf n t a' =
          (if sz \<le> n \<and> buf then (S_OK, Some bytes, sz, DPNA_DATATYPE_STRING)
           else (DPNERR_BUFFERTOOSMALL, None, sz, DPNA_DATATYPE_STRING))))"
proof (intro conjI)
  show "\<exists>a'. AddComponent mb name (le32 v) 4 DPNA_DATATYPE_DWORD a = (S_OK, a') \<and>
       (\<forall>buf n t. GetComponentByName name buf n t a' =
          (if 4 \<le> n \<and> buf then (S_OK, Some (le32 v), 4, DPNA_DATATYPE_DWORD)
           else (DPNERR_BUFFERTOOSMALL, None, 4, DPNA_DATATYPE_DWORD)))"
    using AddComponent_get [OF new_component_dword [of mb name v], of a] by (simp add: fill_buffer_def)
  show "\<exists>a'. AddComponent mb name (guid_bytes u) 16 DPNA_DATATYPE_GUID a = (S_OK, a') \<and>
       (\<forall>buf n t. GetComponentByName name buf n t a' =
          (if 16 \<le> n \<and> buf then (S_OK, Some (guid_bytes u), 16, DPNA_DATATYPE_GUID)
           else (DPNERR_BUFFERTOOSMALL, None, 16, DPNA_DATATYPE_GUID)))"
    using AddComponent_get [OF new_component_guid [of mb name u], of a] by (simp add: fill_buffer_def)
  have "length (ws @ [0]) < 2 ^ 31" using assms(1) by simp
  from AddComponent_get [OF new_component_string [OF this, of mb name], of a]
  show "let bytes = wstring_bytes (ws @ [0]); sz = word_of_nat (2 * length (ws @ [0])) in
       \<exists>a'. AddComponent mb name bytes sz DPNA_DATATYPE_STRING a = (S_OK, a') \<and>
       (\<forall>buf n t. GetComponentByName name buf n t a' =
          (if sz \<le> n \<and> buf then (S_OK, Some bytes, sz, DPNA_DATATYPE_STRING)
           else (DPNERR_BUFFERTOOSMALL, None, sz, DPNA_DATATYPE_STRING)))"
    using wcsncpy_terminated [OF assms(2)] by (auto simp: fill_buffer_def Let_def mult.commute)
qed

theorem component_round_trip_witness:
  "\<exists>a'. AddComponent (\<lambda>bs n. []) [110] (wstring_bytes [65, 66, 0]) 6 DPNA_DATATYPE_STRING
      (fst (new_address None)) = (S_OK, a')
     \<and> GetComponentByName [110] True 6 0 a' = (S_OK, Some [65, 0, 66, 0, 0, 0], 6, DPNA_DATATYPE_STRING)"
  using component_round_trip [of "[65, 66]" "\<lambda>bs n. []" "[110]" 0 "fst (new_address None)" 0]
  by (auto simp: Let_def wstring_bytes_def le16_def)

section \<open>The order of the components\<close>

definition address_inv :: "DirectPlay8Address \<Rightarrow> bool" where
  "address_inv a \<longleftrightarrow> distinct (map cname (components a)) \<and>
     (DPNA_KEY_PROVIDER \<in> cname ` set (components a) \<longrightarrow> cname (hd (components a)) = DPNA_KEY_PROVIDER)"

lemma cname_replace_named:
  "find_component (cname c) cs \<noteq> None \<Longrightarrow> map cname (replace_named c cs) = map cname cs"
  by (induction cs) auto

lemma provider_first_names:
  "address_inv a \<longleftrightarrow> distinct (map cname (components a)) \<and>
     (DPNA_KEY_PROVIDER \<in> set (map cname (components a)) \<longrightarrow> hd (map cname (components a)) = DPNA_KEY_PROVIDER)"
  by (cases "components a") (auto simp: address_inv_def)

lemma address_inv_cong:
  "map cname (components a) = map cname (components b) \<Longrightarrow> address_inv a = address_inv b"
  by (simp add: provider_first_names)

lemma address_inv_place:
  assumes "address_inv a"
  shows "address_inv (a\<lparr>components := place_component c (components a)\<rparr>)"
proof (cases "find_component (cname c) (components a)")
  case None
  then have "cname c \<notin> cname ` set (components a)" by (simp add: find_component_None)
  with None assms show ?thesis
    by (cases "components a") (auto simp: place_component_def address_inv_def simp del: find_component.simps)
next
  case (Some d)
  with assms show ?thesis
    by (subst address_inv_cong [of _ a]) (simp_all add: place_component_def cname_replace_named)
qed

lemma address_inv_AddComponent:
  "address_inv a \<Longrightarrow> address_inv (snd (AddComponent mb name data n ty a))"
  by (auto simp: AddComponent_def address_inv_place split: sum.splits)

text \<open>The addresses the methods can build, from nothing or from each other.\<close>

inductive built_address :: "mb_conv \<Rightarrow> DirectPlay8Address \<Rightarrow> bool" for mb where
  built_new: "built_address mb (fst (new_address g))"
| built_host: "create_host_address mb g sp sa = Some (a, g') \<Longrightarrow> built_address mb a"
| built_add: "built_address mb a \<Longrightarrow> built_address mb (snd (AddComponent mb name data n ty a))"
| built_sp: "built_address mb a \<Longrightarrow> built_address mb (snd (SetSP mb sp a))"
| built_device: "built_address mb a \<Longrightarrow> built_address mb (snd (SetDevice mb sp a))"
| built_data: "built_address mb a \<Longrightarrow> built_address mb (snd (SetUserData dat n a))"
| built_clear: "built_address mb a \<Longrightarrow> built_address mb (snd (Clear a))"
| built_equal: "built_address mb a \<Longrightarrow> built_address mb b \<Longrightarrow> built_address mb (snd (SetEqual b a))"
| built_copy: "built_address mb a \<Longrightarrow> Duplicate a g = (r, b, g') \<Longrightarrow> built_address mb b"

lemma components_new_address [simp]: "components (fst (new_address g)) = []"
  by (simp add: new_address_def AddRef_def Let_def)

lemma address_inv_create_host:
  "create_host_address mb g sp sa = Some (a, g') \<Longrightarrow> address_inv a"
  unfolding create_host_address_def SetSP_def Let_def split_beta
  by (auto split: if_splits intro!: address_inv_AddComponent simp: address_inv_def [of "fst (new_address g)"])

lemma components_Duplicate: "Duplicate a g = (r, b, g') \<Longrightarrow> components b = map clone (components a)"
  by (auto simp: Duplicate_def copy_address_def replace_components_def clear_components_def AddRef_def Let_def)

text \<open>
  Whatever methods an address went through, no two of its components have the same name, and the
  service provider, if there is one, is the first component.
\<close>

theorem provider_is_first:
  "built_address mb a \<Longrightarrow> address_inv a"
proof (induction rule: built_address.induct)
  case (built_copy a g r b g')
  then show ?case
    by (subst address_inv_cong [of b a]) (simp_all add: components_Duplicate comp_def)
next
  case (built_equal a b)
  then show ?case
    by (subst address_inv_cong [of _ b])
      (simp_all add: SetEqual_def replace_components_def clear_components_def Let_def comp_def)
qed (auto intro: address_inv_AddComponent address_inv_create_host
      simp: SetSP_def SetDevice_def SetUserData_def Clear_def clear_components_def
        address_inv_def [of "_\<lparr>components := _, user_data := _\<rparr>"] address_inv_def [of "fst (new_address _)"]
        address_inv_cong [of "_\<lparr>user_data := _\<rparr>"])


theorem provider_is_first_witness:
  "address_inv (snd (SetSP (\<lambda>bs n. []) 7 (snd (AddComponent (\<lambda>bs n. []) DPNA_KEY_PORT (le32 80) 4
     DPNA_DATATYPE_DWORD (fst (new_address None))))))"
  by (rule provider_is_first [where mb = "\<lambda>bs n. []"]) (intro built_sp built_add built_new)

section \<open>Copies\<close>

lemma half_length_less: "v \<noteq> [] \<Longrightarrow> unat (word_of_nat (length v) div 2 :: dword) < length v"
proof -
  assume "v \<noteq> []"
  then have "0 < length v" by simp
  moreover have "unat (word_of_nat (length v) :: dword) \<le> length v"
    by (simp add: unsigned_of_nat take_bit_eq_mod)
  ultimately have "unat (word_of_nat (length v) :: dword) div 2 < length v" by linarith
  then show ?thesis by (simp add: unat_div)
qed

lemma clone_id: "clone c = c \<longleftrightarrow> (\<nexists>n v. c = StringComponentW n v \<and> v \<noteq> [])"
proof (cases c)
  case (StringComponentW n v)
  then show ?thesis
    using half_length_less [of v] by (auto simp: new_StringComponentW_def) (metis length_take min.absorb2 nat_less_le)
qed simp_all

text \<open>
  a copy of an address (\<open>Duplicate\<close>, and likewise \<open>SetEqual\<close>) has the same user data and the same
  integer and GUID components, but every nonempty string comes out cut to half its length, because
  \<open>clone\<close> hands the number of characters to a constructor that expects bytes: the copy has the
  components of the original if and only if that has no nonempty string.
\<close>

theorem Duplicate_halves_strings:
  fixes a :: DirectPlay8Address and g :: refcounter
  defines "b \<equiv> fst (snd (Duplicate a g))"
  shows "fst (Duplicate a g) = S_OK \<and> user_data b = user_data a \<and> local_refcount b = 1
   \<and> components b = map clone (components a)
   \<and> components (snd (SetEqual a c)) = components b
   \<and> (components b = components a \<longleftrightarrow> (\<nexists>n v. StringComponentW n v \<in> set (components a) \<and> v \<noteq> []))"
proof -
  have *: "Duplicate a g = (S_OK, b, snd (snd (Duplicate a g)))"
    by (simp add: b_def Duplicate_def split_beta)
  from components_Duplicate [OF *] have comps: "components b = map clone (components a)" .
  moreover have "map clone cs = cs \<longleftrightarrow> (\<nexists>n v. StringComponentW n v \<in> set cs \<and> v \<noteq> [])" for cs
    by (induction cs) (auto simp: clone_id)
  moreover have "components (snd (SetEqual a c)) = components b"
    unfolding comps by (simp add: SetEqual_def replace_components_def clear_components_def Let_def)
  moreover have "fst (Duplicate a g) = S_OK" "user_data b = user_data a" "local_refcount b = 1"
    by (simp_all add: b_def Duplicate_def copy_address_def replace_components_def clear_components_def
        AddRef_def Let_def)
  ultimately show ?thesis by simp
qed

section \<open>Host addresses\<close>

lemma keys_distinct [simp]:
  "DPNA_KEY_PROVIDER \<noteq> DPNA_KEY_HOSTNAME" "DPNA_KEY_HOSTNAME \<noteq> DPNA_KEY_PROVIDER"
  "DPNA_KEY_PROVIDER \<noteq> DPNA_KEY_PORT" "DPNA_KEY_PORT \<noteq> DPNA_KEY_PROVIDER"
  "DPNA_KEY_HOSTNAME \<noteq> DPNA_KEY_PORT" "DPNA_KEY_PORT \<noteq> DPNA_KEY_HOSTNAME"
  "DPNA_KEY_DEVICE \<noteq> DPNA_KEY_PROVIDER" "DPNA_KEY_PROVIDER \<noteq> DPNA_KEY_DEVICE"
  by (simp_all add: key_defs)

text \<open>A conversion that maps ASCII text to itself, as every ANSI code page does.\<close>

definition ascii_conv :: "mb_conv \<Rightarrow> bool" where
  "ascii_conv mb \<longleftrightarrow>
     (\<forall>bs. bs \<noteq> [] \<and> length bs < 2 ^ 31 \<and> (\<forall>b \<in> set bs. b < 128) \<longrightarrow> mb bs (int (length bs)) = map ucast bs)"

lemma digit_range: "n < 10 \<Longrightarrow> (48 + word_of_nat n :: byte) \<in> {48..57}"
  by (simp add: word_le_nat_alt unat_word_ariths unsigned_of_nat take_bit_eq_mod)

lemma decimal_small:
  "n < 256 \<Longrightarrow> set (decimal n) \<subseteq> {48..57} \<and> length (decimal n) \<in> {1..3}"
  using digit_range [of "n mod 10"] digit_range [of n] digit_range [of "n div 10"]
    digit_range [of "n div 10 mod 10"] digit_range [of "n div 10 div 10"]
  by (subst (1 2) decimal.simps, subst (1 2) decimal.simps, subst (1 2) decimal.simps) auto

lemma hex_digit_range: "hex_digit (w AND 15) \<in> {48..70}"
proof -
  have "unat (w AND 15) < 16"
    using word_and_le1 [of w 15] by (simp add: word_le_nat_alt)
  then show ?thesis
    by (auto simp: hex_digit_def word_le_nat_alt word_less_nat_alt unat_word_ariths unsigned_ucast_eq
        take_bit_eq_mod)
qed

lemma inet_ntop_ascii:
  "set (inet_ntop w) \<subseteq> {46..57} \<and> length (inet_ntop w) \<in> {7..15}"
proof -
  have *: "set (decimal (unat b)) \<subseteq> {46..57} \<and> length (decimal (unat b)) \<in> {1..3}" for b :: byte
  proof -
    have "unat b < 256" using unsigned_less [of b] by simp
    from decimal_small [OF this] show ?thesis by (auto simp: subset_iff word_le_nat_alt)
  qed
  let ?l = "\<lambda>i. ucast (drop_bit i w) :: byte"
  from * [of "?l 0"] * [of "?l 8"] * [of "?l 16"] * [of "?l 24"] show ?thesis
    by (simp add: inet_ntop_def le32_def)
qed

lemma host_name_ascii:
  "set (host_name sp sa) \<subseteq> {44..70} \<and> length (host_name sp sa) \<in> {7..21}"
proof (cases "sp = CLSID_DP8SP_TCPIP")
  case True
  with inet_ntop_ascii [of "sin_addr sa"] show ?thesis
    by (auto simp: host_name_def subset_iff word_le_nat_alt)
next
  case False
  have "{48..70} \<subseteq> {44..70 :: byte}" by (auto simp: word_le_nat_alt)
  then have "set (hex8 w) \<subseteq> {44..70}" for w
    using hex_digit_range by (fastforce simp: hex8_def)
  moreover have "set (ascii ''00000000,0000'') \<subseteq> {44..70}" by (simp add: ascii_def)
  moreover have "length (hex8 w) = 8" for w by (simp add: hex8_def)
  ultimately show ?thesis
    using False by (simp add: host_name_def) (simp add: ascii_def)
qed

lemma host_name_conv:
  assumes "ascii_conv mb"
  shows "new_component mb DPNA_KEY_HOSTNAME (host_name sp sa @ [0]) (word_of_nat (length (host_name sp sa) + 1))
      DPNA_DATATYPE_STRING_ANSI = Inr (StringComponentW DPNA_KEY_HOSTNAME (map ucast (host_name sp sa) @ [0]))"
proof -
  let ?h = "host_name sp sa @ [0]"
  have range: "set (host_name sp sa) \<subseteq> {44..70}" and len: "length ?h < 2 ^ 31"
    using host_name_ascii [of sp sa] by simp_all
  have "sint (word_of_nat (length ?h) :: dword) = int (length ?h)"
    using len by (simp add: signed_of_nat signed_take_bit_int_eq_self del: of_nat_Suc)
  moreover have "mb ?h (int (length ?h)) = map ucast ?h"
  proof -
    have "b < 128" if "b \<in> set ?h" for b
    proof -
      from that range consider "b \<in> {44..70}" | "b = 0" by auto
      then show ?thesis by cases (auto simp: word_le_nat_alt word_less_nat_alt)
    qed
    with len show ?thesis using assms unfolding ascii_conv_def by blast
  qed
  ultimately have conv: "mb ?h (sint (word_of_nat (length (host_name sp sa) + 1) :: dword)) = map ucast ?h"
    by simp
  have "unat (word_of_nat (length ?h) * 2 div 2 :: dword) = length ?h"
    using unat_string_size [OF len] by (simp add: mult.commute)
  with conv show ?thesis
    by (simp add: new_component_def Let_def new_StringComponentW_def const_defs del: of_nat_Suc of_nat_add)
qed

text \<open>
  the address of a host. For either service provider the result has one reference and exactly
  three components: the provider first, the host name (dotted decimal for TCP/IP, the IPX form
  otherwise) with its terminator, and the port in host byte order; \<open>GetSP\<close> gives the provider back.
  The ANSI conversion is assumed to keep ASCII text. Any other provider fails the assertion.
\<close>

theorem create_host_address_components:
  assumes "ascii_conv mb"
  shows "create_host_address mb g sp sa =
    (if sp \<in> {CLSID_DP8SP_TCPIP, CLSID_DP8SP_IPX} then
       Some (\<lparr>local_refcount = 1,
          components = [GUIDComponent DPNA_KEY_PROVIDER sp,
            StringComponentW DPNA_KEY_HOSTNAME (map ucast (host_name sp sa) @ [0]),
            DWORDComponent DPNA_KEY_PORT (ucast (ntohs (sin_port sa)))],
          user_data = []\<rparr>, map_option (\<lambda>c. c + 1) g)
     else None)
    \<and> (\<forall>a g'. create_host_address mb g sp sa = Some (a, g') \<longrightarrow> GetSP a = (S_OK, Some sp))"
proof -
  have sp: "SetSP mb sp (fst (new_address g)) =
      (S_OK, \<lparr>local_refcount = 1, components = [GUIDComponent DPNA_KEY_PROVIDER sp], user_data = []\<rparr>)"
    by (simp add: SetSP_def AddComponent_def new_component_guid place_component_def new_address_def
        AddRef_def Let_def)
  have g: "snd (new_address g) = map_option (\<lambda>c. c + 1) g"
    by (cases g) (simp_all add: new_address_def AddRef_def Let_def)
  show ?thesis
    using sp g host_name_conv [OF assms, of sp sa]
    by (auto simp: create_host_address_def split_beta Let_def AddComponent_def new_component_dword
        place_component_def GetSP_def guid_component_def GetComponentByName_def fill_buffer_def
        guid.dec_enc)
qed

theorem create_host_address_components_witness:
  "let mb = (\<lambda>bs n. map ucast (take (nat n) bs));
       sa = \<lparr>sin_addr = 0x0100007F, sin_port = 0xC117\<rparr>
   in ascii_conv mb \<and> (\<exists>a. create_host_address mb (Some 5) CLSID_DP8SP_TCPIP sa = Some (a, Some 6)
        \<and> GetSP a = (S_OK, Some CLSID_DP8SP_TCPIP)
        \<and> components a ! 1 = StringComponentW DPNA_KEY_HOSTNAME (wide ''127.0.0.1'' @ [0])
        \<and> components a ! 2 = DWORDComponent DPNA_KEY_PORT 6081)"
proof -
  have mb: "ascii_conv (\<lambda>bs n. map ucast (take (nat n) bs))" by (simp add: ascii_conv_def)
  have h: "map ucast (host_name CLSID_DP8SP_TCPIP \<lparr>sin_addr = 0x0100007F, sin_port = 0xC117\<rparr>) = wide ''127.0.0.1''"
    by (simp add: host_name_def inet_ntop_def le32_def decimal.simps wide_def)
  have p: "ucast (ntohs 0xC117) = (6081 :: dword)" by (simp add: ntohs_def le16_def)
  show ?thesis
    using create_host_address_components [OF mb, of "Some 5" CLSID_DP8SP_TCPIP
        "\<lparr>sin_addr = 0x0100007F, sin_port = 0xC117\<rparr>"] mb h p
    by (simp add: Let_def)
qed

section \<open>References\<close>

interpretation address_refs: refcounted AddRef Release local_refcount "\<lambda>n a. a\<lparr>local_refcount := n\<rparr>"
  by unfold_locales (auto simp: AddRef_def Release_def Let_def split: option.splits)

end
