(* ===== verification/HandlePool.thy ===== *)
theory HandlePool
  imports Prelude "HOL-Library.Multiset"
begin

text \<open>
  The pool of worker threads of \<^verbatim>\<open>src/src/HandleHandlingPool.hpp\<close> and \<^verbatim>\<open>.cpp\<close>. The first part is the
  data: the interlaced arrays of handles and callbacks, the set of active workers, and the two
  operations on them, with every allocation and every thread start that can fail as an outcome
  given to the operation (the memory for a \<^verbatim>\<open>Worker\<close> included, whose exception nothing catches). The
  second part is one iteration of the loop of a worker. The third part is the pools that any such calls
  and workers reach; the locking protocol is in \<open>PoolProtocol\<close>.

  Windows handles are natural numbers; callbacks are values of the type parameter \<open>'cb\<close>, and the
  functor that aborts the process is the slot \<open>AbortSlot\<close>. A worker is represented by its
  \<open>base_index\<close>.
\<close>

section \<open>Data and construction\<close>

type_synonym HANDLE = nat

datatype 'cb slot = AbortSlot | Callback 'cb

record 'cb HandleHandlingPool =
  threads_per_pool :: nat
  max_handles_per_pool :: nat
  spin_workers :: HANDLE
  stopping :: bool
  handles :: "HANDLE list"
  callbacks :: "'cb slot list"
  active_workers :: "nat list"
  join_worker :: "nat option"

text \<open>
  The start of a worker: it runs; its insertion into \<open>active_workers\<close> or the start of its thread fails, which \<open>add_handle\<close> catches; or
  \<^verbatim>\<open>new Worker\<close> fails, which is outside of the \<^verbatim>\<open>try\<close>.
\<close>

datatype spawn_result = Spawned | StartFailed | NoMemory

datatype pool_error = invalid_argument | runtime_error | alloc_or_thread_error

definition MAXIMUM_WAIT_OBJECTS :: nat where "MAXIMUM_WAIT_OBJECTS = 64"
definition WAIT_OBJECT_0 :: nat where "WAIT_OBJECT_0 = 0"
definition WAIT_FAILED :: nat where "WAIT_FAILED = 0xFFFFFFFF"

lemmas [const_defs] = MAXIMUM_WAIT_OBJECTS_def WAIT_OBJECT_0_def WAIT_FAILED_def

text \<open>The last argument is the outcome of \<^verbatim>\<open>CreateEvent\<close>.\<close>

definition new_HandleHandlingPool :: "nat \<Rightarrow> nat \<Rightarrow> HANDLE option \<Rightarrow> pool_error + 'cb HandleHandlingPool" where
  "new_HandleHandlingPool threads max_handles event =
     (if threads < 1 then Inl invalid_argument
      else if max_handles < 1 \<or> max_handles \<ge> MAXIMUM_WAIT_OBJECTS then Inl invalid_argument
      else case event of
        None \<Rightarrow> Inl runtime_error
      | Some h \<Rightarrow> Inr \<lparr>threads_per_pool = threads, max_handles_per_pool = max_handles + 1,
          spin_workers = h, stopping = False, handles = [], callbacks = [], active_workers = [],
          join_worker = None\<rparr>)"

section \<open>Adding a handle\<close>

text \<open>
  \<open>alloc k\<close> is whether the \<open>k\<close>-th \<^verbatim>\<open>push_back\<close> of the call succeeds, \<open>spawn i\<close> what the start of the \<open>i\<close>-th
  worker comes to. The flag is false if the call throws.
\<close>

definition push_block ::
  "(nat \<Rightarrow> bool) \<Rightarrow> HANDLE \<Rightarrow> 'cb \<Rightarrow> 'cb HandleHandlingPool \<Rightarrow> bool \<times> 'cb HandleHandlingPool" where
  "push_block alloc handle cb p =
     (if \<not> alloc 0 then (False, p) else
      let p1 = p\<lparr>handles := handles p @ [spin_workers p]\<rparr> in
      if \<not> alloc 1 then (False, p1\<lparr>handles := butlast (handles p1)\<rparr>) else
      let p2 = p1\<lparr>callbacks := callbacks p1 @ [AbortSlot]\<rparr> in
      if \<not> alloc 2 then (False, p2\<lparr>handles := butlast (handles p2)\<rparr>) else
      let p3 = p2\<lparr>handles := handles p2 @ [handle]\<rparr> in
      if \<not> alloc 3 then (False, p3\<lparr>handles := butlast (butlast (handles p3))\<rparr>)
      else (True, p3\<lparr>callbacks := callbacks p3 @ [Callback cb]\<rparr>))"

definition push_slot ::
  "(nat \<Rightarrow> bool) \<Rightarrow> HANDLE \<Rightarrow> 'cb \<Rightarrow> 'cb HandleHandlingPool \<Rightarrow> bool \<times> 'cb HandleHandlingPool" where
  "push_slot alloc handle cb p =
     (if \<not> alloc 0 then (False, p) else
      let p1 = p\<lparr>handles := handles p @ [handle]\<rparr> in
      if \<not> alloc 1 then (False, p1\<lparr>handles := butlast (handles p1)\<rparr>)
      else (True, p1\<lparr>callbacks := callbacks p1 @ [Callback cb]\<rparr>))"

text \<open>The counter is a \<^verbatim>\<open>size_t\<close> of 32 bits that is decremented for every worker of the block.\<close>

definition threads_to_spawn :: "nat \<Rightarrow> 'cb HandleHandlingPool \<Rightarrow> nat" where
  "threads_to_spawn base_index p =
     (threads_per_pool p + 2 ^ 32 - count (mset (active_workers p)) base_index mod 2 ^ 32) mod 2 ^ 32"

text \<open>The loop that starts workers \<open>i, ..., i + n - 1\<close>.\<close>

fun spawn_workers ::
  "(nat \<Rightarrow> spawn_result) \<Rightarrow> nat \<Rightarrow> nat \<Rightarrow> nat \<Rightarrow> 'cb HandleHandlingPool \<Rightarrow> bool \<times> 'cb HandleHandlingPool" where
  "spawn_workers spawn base_index i 0 p = (True, p)"
| "spawn_workers spawn base_index i (Suc n) p =
     (case spawn i of
        NoMemory \<Rightarrow> (False, p)
      | Spawned \<Rightarrow> spawn_workers spawn base_index (Suc i) n (p\<lparr>active_workers := base_index # active_workers p\<rparr>)
      | StartFailed \<Rightarrow>
          if i = 0 then
            (False, p\<lparr>handles := butlast (butlast (handles p)), callbacks := butlast (butlast (callbacks p))\<rparr>)
          else spawn_workers spawn base_index (Suc i) n p)"

definition add_handle ::
  "(nat \<Rightarrow> bool) \<Rightarrow> (nat \<Rightarrow> spawn_result) \<Rightarrow> HANDLE \<Rightarrow> 'cb \<Rightarrow> 'cb HandleHandlingPool \<Rightarrow>
     bool \<times> 'cb HandleHandlingPool" where
  "add_handle alloc spawn handle cb p =
     (if length (handles p) mod max_handles_per_pool p = 0 then
        let base_index = length (handles p);
            (ok, p') = push_block alloc handle cb p
        in if ok then spawn_workers spawn base_index 0 (threads_to_spawn base_index p') p' else (False, p')
      else push_slot alloc handle cb p)"

section \<open>Removing a handle\<close>

fun scan_handle :: "HANDLE \<Rightarrow> HANDLE list \<Rightarrow> nat" where
  "scan_handle handle [] = 0"
| "scan_handle handle (h # hs) = (if h = handle then 0 else Suc (scan_handle handle hs))"

definition remove_handle :: "HANDLE \<Rightarrow> 'cb HandleHandlingPool \<Rightarrow> 'cb HandleHandlingPool" where
  "remove_handle handle p =
     (let remove_index = scan_handle handle (handles p) in
      if remove_index \<ge> length (handles p) then p
      else
        let p1 = (if last (handles p) = spin_workers p
              then p\<lparr>handles := butlast (handles p), callbacks := butlast (callbacks p)\<rparr> else p);
            hs = (handles p1)[remove_index := last (handles p1)];
            cs = (callbacks p1)[remove_index := last (callbacks p1)]
        in p1\<lparr>handles := butlast hs, callbacks := butlast cs\<rparr>)"

section \<open>One iteration of a worker\<close>

definition worker_exit :: "nat \<Rightarrow> 'cb HandleHandlingPool \<Rightarrow> 'cb HandleHandlingPool" where
  "worker_exit w p = p\<lparr>join_worker := Some w, active_workers := remove1 w (active_workers p)\<rparr>"

text \<open>What a worker waits on: its block of the array.\<close>

definition num_handles :: "nat \<Rightarrow> 'cb HandleHandlingPool \<Rightarrow> nat" where
  "num_handles w p = min (length (handles p) - w) (max_handles_per_pool p)"

datatype 'cb worker_outcome = WorkerExit | WorkerCall "'cb slot" | WorkerLoop

text \<open>\<open>wait_res\<close> is the result of \<^verbatim>\<open>WaitForMultipleObjects\<close> on these handles.\<close>

definition worker_main_iter ::
  "nat \<Rightarrow> nat \<Rightarrow> 'cb HandleHandlingPool \<Rightarrow> 'cb worker_outcome \<times> 'cb HandleHandlingPool" where
  "worker_main_iter w wait_res p =
     (if length (handles p) \<le> w then (WorkerExit, worker_exit w p)
      else if stopping p then (WorkerExit, worker_exit w p)
      else if wait_res \<ge> WAIT_OBJECT_0 + 1 \<and> wait_res < WAIT_OBJECT_0 + num_handles w p
      then (WorkerCall (callbacks p ! (w + wait_res - WAIT_OBJECT_0)), p)
      else if wait_res = WAIT_FAILED then (WorkerExit, worker_exit w p)
      else (WorkerLoop, p))"

section \<open>The layout of the arrays\<close>

definition layout :: "'cb HandleHandlingPool \<Rightarrow> bool" where
  "layout p \<longleftrightarrow> length (callbacks p) = length (handles p) \<and> 2 \<le> max_handles_per_pool p \<and>
     (\<forall>i < length (handles p).
        (handles p ! i = spin_workers p \<longleftrightarrow> i mod max_handles_per_pool p = 0) \<and>
        (callbacks p ! i = AbortSlot \<longleftrightarrow> i mod max_handles_per_pool p = 0))"

text \<open>
  No block has more workers than it should and every worker is at the start of a block; every block has a worker.
\<close>

definition manned :: "'cb HandleHandlingPool \<Rightarrow> bool" where
  "manned p \<longleftrightarrow> 1 \<le> threads_per_pool p \<and> threads_per_pool p < 2 ^ 32 \<and>
     (\<forall>b. count (mset (active_workers p)) b \<le> threads_per_pool p) \<and>
     (\<forall>w \<in> set (active_workers p). w mod max_handles_per_pool p = 0)"

definition served :: "'cb HandleHandlingPool \<Rightarrow> bool" where
  "served p \<longleftrightarrow> (\<forall>b < length (handles p). b mod max_handles_per_pool p = 0 \<longrightarrow> b \<in> set (active_workers p))"

definition registered :: "'cb HandleHandlingPool \<Rightarrow> (HANDLE \<times> 'cb slot) list" where
  "registered p = filter (\<lambda>(h, c). h \<noteq> spin_workers p) (zip (handles p) (callbacks p))"

lemma layoutD:
  assumes "layout p"
  shows "length (callbacks p) = length (handles p)" "2 \<le> max_handles_per_pool p"
    and "i < length (handles p) \<Longrightarrow> handles p ! i = spin_workers p \<longleftrightarrow> i mod max_handles_per_pool p = 0"
    and "i < length (handles p) \<Longrightarrow> callbacks p ! i = AbortSlot \<longleftrightarrow> i mod max_handles_per_pool p = 0"
  using assms by (auto simp: layout_def)

lemma layout_snoc:
  assumes "layout p" "length (handles p) mod max_handles_per_pool p \<noteq> 0" "h \<noteq> spin_workers p"
  shows "layout (p\<lparr>handles := handles p @ [h], callbacks := callbacks p @ [Callback cb]\<rparr>)"
  using assms by (auto simp: layout_def nth_append less_Suc_eq)

lemma layout_snoc_spin:
  assumes "layout p" "length (handles p) mod max_handles_per_pool p = 0"
  shows "layout (p\<lparr>handles := handles p @ [spin_workers p], callbacks := callbacks p @ [AbortSlot]\<rparr>)"
  using assms by (auto simp: layout_def nth_append less_Suc_eq)

lemma Suc_mod_ne_0: "n mod m = 0 \<Longrightarrow> 2 \<le> m \<Longrightarrow> Suc n mod m \<noteq> (0 :: nat)"
  by (simp add: mod_Suc)

lemma push_block_ok:
  assumes "\<forall>k. alloc k"
  shows "push_block alloc h cb p = (True, p\<lparr>handles := handles p @ [spin_workers p, h],
     callbacks := callbacks p @ [AbortSlot, Callback cb]\<rparr>)"
  using assms by (simp add: push_block_def Let_def)

lemma push_slot_ok:
  assumes "\<forall>k. alloc k"
  shows "push_slot alloc h cb p =
     (True, p\<lparr>handles := handles p @ [h], callbacks := callbacks p @ [Callback cb]\<rparr>)"
  using assms by (simp add: push_slot_def Let_def)

lemma spawn_workers_ok:
  assumes "\<forall>k. spawn k = Spawned"
  shows "spawn_workers spawn b i n p = (True, p\<lparr>active_workers := replicate n b @ active_workers p\<rparr>)"
  using assms
proof (induction n arbitrary: i p)
  case (Suc n)
  then show ?case by (simp add: replicate_append_same [symmetric])
qed simp

lemma layout_block:
  assumes "layout p" "length (handles p) mod max_handles_per_pool p = 0" "h \<noteq> spin_workers p"
  shows "layout (p\<lparr>handles := handles p @ [spin_workers p, h], callbacks := callbacks p @ [AbortSlot, Callback cb]\<rparr>)"
proof -
  let ?p1 = "p\<lparr>handles := handles p @ [spin_workers p], callbacks := callbacks p @ [AbortSlot]\<rparr>"
  have "layout ?p1" by (rule layout_snoc_spin [OF assms(1,2)])
  moreover have "length (handles ?p1) mod max_handles_per_pool ?p1 \<noteq> 0"
    using Suc_mod_ne_0 [OF assms(2) layoutD(2) [OF assms(1)]] by simp
  ultimately show ?thesis using layout_snoc [of ?p1 h cb] assms(3) by simp
qed

text \<open>An addition in which nothing fails.\<close>

lemma add_handle_ok:
  assumes "\<forall>k. alloc k" "\<forall>k. spawn k = Spawned"
  shows "add_handle alloc spawn h cb p =
     (True,
      if length (handles p) mod max_handles_per_pool p = 0 then
        p\<lparr>handles := handles p @ [spin_workers p, h], callbacks := callbacks p @ [AbortSlot, Callback cb],
          active_workers := replicate (threads_to_spawn (length (handles p)) p) (length (handles p)) @ active_workers p\<rparr>
      else p\<lparr>handles := handles p @ [h], callbacks := callbacks p @ [Callback cb]\<rparr>)"
  using assms
  by (simp add: add_handle_def push_block_ok push_slot_ok spawn_workers_ok threads_to_spawn_def Let_def)

lemma layout_add_handle:
  assumes "layout p" "h \<noteq> spin_workers p" "\<forall>k. alloc k" "\<forall>k. spawn k = Spawned"
  shows "layout (snd (add_handle alloc spawn h cb p))"
proof (cases "length (handles p) mod max_handles_per_pool p = 0")
  case True
  from layout_block [OF assms(1) True assms(2), of cb] True assms(3,4) show ?thesis
    by (simp add: add_handle_ok layout_def)
next
  case False
  from layout_snoc [OF assms(1) False assms(2), of cb] False assms(3,4) show ?thesis
    by (simp add: add_handle_ok)
qed

lemma threads_to_spawn_manned:
  "manned p \<Longrightarrow> threads_to_spawn b p = threads_per_pool p - count (mset (active_workers p)) b"
proof -
  assume "manned p"
  then have "count (mset (active_workers p)) b \<le> threads_per_pool p" "threads_per_pool p < 2 ^ 32"
    by (auto simp: manned_def)
  then show ?thesis by (simp add: threads_to_spawn_def mod_if)
qed

subsection \<open>Additions in which something fails\<close>

text \<open>
  The handlers of \<open>add_handle\<close> undo every failing \<^verbatim>\<open>push_back\<close> except those for the handle and its callback at the start of
  a block, after the callback for \<open>spin_workers\<close> has been pushed.
\<close>

definition undone :: "(nat \<Rightarrow> bool) \<Rightarrow> 'cb HandleHandlingPool \<Rightarrow> bool" where
  "undone alloc p \<longleftrightarrow> (length (handles p) mod max_handles_per_pool p = 0 \<longrightarrow> alloc 0 \<and> alloc 1 \<longrightarrow> alloc 2 \<and> alloc 3)"

lemma push_block_cases:
  assumes "undone alloc p" "length (handles p) mod max_handles_per_pool p = 0"
  shows "push_block alloc h cb p = (False, p) \<or> push_block alloc h cb p = (True, p\<lparr>handles := handles p @ [spin_workers p, h],
     callbacks := callbacks p @ [AbortSlot, Callback cb]\<rparr>)"
  using assms by (auto simp: undone_def push_block_def Let_def)

lemma push_slot_cases:
  "push_slot alloc h cb p = (False, p) \<or>
   push_slot alloc h cb p = (True, p\<lparr>handles := handles p @ [h], callbacks := callbacks p @ [Callback cb]\<rparr>)"
  by (auto simp: push_slot_def Let_def)

lemma spawn_workers_later:
  "0 < i \<Longrightarrow> \<exists>m \<le> n. snd (spawn_workers spawn b i n p) = p\<lparr>active_workers := replicate m b @ active_workers p\<rparr>
     \<and> (fst (spawn_workers spawn b i n p) \<or> (\<exists>k. spawn k = NoMemory))"
proof (induction n arbitrary: i p)
  case (Suc n)
  show ?case
  proof (cases "spawn i")
    case Spawned
    from Suc.IH [of "Suc i" "p\<lparr>active_workers := b # active_workers p\<rparr>"] obtain m where m: "m \<le> n"
      "snd (spawn_workers spawn b i (Suc n) p) = p\<lparr>active_workers := replicate m b @ b # active_workers p\<rparr>"
      "fst (spawn_workers spawn b i (Suc n) p) \<or> (\<exists>k. spawn k = NoMemory)" using Spawned by auto
    moreover have "replicate m b @ b # active_workers p = replicate (Suc m) b @ active_workers p"
      by (simp add: replicate_app_Cons_same)
    ultimately show ?thesis by (intro exI [of _ "Suc m"]) simp
  next
    case StartFailed
    from Suc.IH [of "Suc i" p] obtain m where "m \<le> n"
      "snd (spawn_workers spawn b i (Suc n) p) = p\<lparr>active_workers := replicate m b @ active_workers p\<rparr>"
      "fst (spawn_workers spawn b i (Suc n) p) \<or> (\<exists>k. spawn k = NoMemory)" using StartFailed Suc.prems by auto
    then show ?thesis by (intro exI [of _ m]) simp
  next
    case NoMemory
    then show ?thesis by (intro exI [of _ 0]) auto
  qed
qed simp

text \<open>What a call comes to: nothing, a handle more in the last block, or a new block with some of its workers.\<close>

lemma add_handle_cases:
  assumes "undone alloc p" "add_handle alloc spawn h cb p = (ok, p')"
  obtains "p' = p"
  | "length (handles p) mod max_handles_per_pool p \<noteq> 0" "ok"
      "p' = p\<lparr>handles := handles p @ [h], callbacks := callbacks p @ [Callback cb]\<rparr>"
  | m where "length (handles p) mod max_handles_per_pool p = 0" "m \<le> threads_to_spawn (length (handles p)) p"
      "p' = p\<lparr>handles := handles p @ [spin_workers p, h], callbacks := callbacks p @ [AbortSlot, Callback cb],
         active_workers := replicate m (length (handles p)) @ active_workers p\<rparr>"
      "0 < threads_to_spawn (length (handles p)) p \<Longrightarrow> spawn 0 \<noteq> NoMemory \<Longrightarrow> 0 < m" "ok \<or> (\<exists>k. spawn k = NoMemory)"
proof (cases "length (handles p) mod max_handles_per_pool p = 0")
  case False
  then show ?thesis using assms(2) push_slot_cases [of alloc h cb p] that(1,2) by (auto simp: add_handle_def)
next
  case True
  let ?n = "length (handles p)"
  let ?q = "p\<lparr>handles := handles p @ [spin_workers p, h], callbacks := callbacks p @ [AbortSlot, Callback cb]\<rparr>"
  from push_block_cases [OF assms(1) True] show ?thesis
  proof
    assume "push_block alloc h cb p = (False, p)"
    then show ?thesis using assms(2) True that(1) by (simp add: add_handle_def)
  next
    assume "push_block alloc h cb p = (True, ?q)"
    then have s: "spawn_workers spawn ?n 0 (threads_to_spawn ?n p) ?q = (ok, p')"
      using assms(2) True by (simp add: add_handle_def threads_to_spawn_def Let_def)
    show ?thesis
    proof (cases "threads_to_spawn ?n p")
      case 0
      then have "p' = ?q\<lparr>active_workers := replicate 0 ?n @ active_workers p\<rparr>" "ok" using s by auto
      then show ?thesis using that(3) [of 0] True 0 by simp
    next
      case (Suc t)
      show ?thesis
      proof (cases "spawn 0")
        case Spawned
        from spawn_workers_later [of 1 t spawn ?n "?q\<lparr>active_workers := ?n # active_workers p\<rparr>"] s Suc Spawned
        obtain m where m: "m \<le> t" "p' = ?q\<lparr>active_workers := replicate m ?n @ ?n # active_workers p\<rparr>" "ok \<or> (\<exists>k. spawn k = NoMemory)"
          by auto
        moreover have "replicate m ?n @ ?n # active_workers p = replicate (Suc m) ?n @ active_workers p"
          by (simp add: replicate_app_Cons_same)
        ultimately show ?thesis using that(3) [of "Suc m"] Suc True by simp
      next
        case StartFailed
        then show ?thesis using s Suc that(1) by (auto simp: butlast_append)
      next
        case NoMemory
        then have "p' = ?q\<lparr>active_workers := replicate 0 ?n @ active_workers p\<rparr>" using s Suc by auto
        then show ?thesis using that(3) [of 0] True NoMemory by blast
      qed
    qed
  qed
qed

lemma add_handle_undone:
  assumes "undone alloc p" "\<forall>k. spawn k \<noteq> NoMemory" "add_handle alloc spawn h cb p = (False, p')"
  shows "p' = p"
  using assms(2) by (cases rule: add_handle_cases [OF assms(1,3)]) auto

lemma layout_add_handle_any:
  assumes "layout p" "h \<noteq> spin_workers p" "undone alloc p" "add_handle alloc spawn h cb p = (ok, p')"
  shows "layout p'"
proof (cases rule: add_handle_cases [OF assms(3,4)])
  case 1
  then show ?thesis using assms(1) by simp
next
  case 2
  then show ?thesis using layout_snoc [OF assms(1) _ assms(2), of cb] by simp
next
  case (3 m)
  then show ?thesis using layout_block [OF assms(1) _ assms(2), of cb] by (simp add: layout_def)
qed

lemma manned_add_handle:
  assumes "manned p" "undone alloc p" "add_handle alloc spawn h cb p = (ok, p')"
  shows "manned p'"
proof (cases rule: add_handle_cases [OF assms(2,3)])
  case (3 m)
  have "count (mset (active_workers p)) b \<le> threads_per_pool p" for b using assms(1) by (simp add: manned_def)
  moreover from this have "m + count (mset (active_workers p)) (length (handles p)) \<le> threads_per_pool p"
    using 3(2) unfolding threads_to_spawn_manned [OF assms(1)] by (metis le_diff_conv2)
  ultimately show ?thesis using 3(1,3) assms(1) by (auto simp: manned_def)
qed (use assms(1) in \<open>simp_all add: manned_def\<close>)

lemma served_add_handle:
  assumes "served p" "manned p" "2 \<le> max_handles_per_pool p" "undone alloc p" "spawn 0 \<noteq> NoMemory"
    "add_handle alloc spawn h cb p = (ok, p')"
  shows "served p'"
proof (cases rule: add_handle_cases [OF assms(4,6)])
  case 1
  then show ?thesis using assms(1) by simp
next
  case 2
  then show ?thesis using assms(1) by (auto simp: served_def less_Suc_eq)
next
  case (3 m)
  let ?n = "length (handles p)"
  have new: "?n \<in> set (replicate m ?n @ active_workers p)"
  proof (cases "?n \<in> set (active_workers p)")
    case False
    then have "count (mset (active_workers p)) ?n = 0" by simp
    moreover have "0 < threads_per_pool p" using assms(2) by (simp add: manned_def)
    ultimately have "0 < threads_to_spawn ?n p" by (simp only: threads_to_spawn_manned [OF assms(2)] diff_zero)
    with 3(4) assms(5) show ?thesis by simp
  qed simp
  have "Suc ?n mod max_handles_per_pool p \<noteq> 0" by (rule Suc_mod_ne_0 [OF 3(1) assms(3)])
  with new assms(1) 3(3) show ?thesis by (auto simp: served_def less_Suc_eq)
qed

lemma registered_add_handle:
  assumes "layout p" "h \<noteq> spin_workers p" "\<forall>k. alloc k" "\<forall>k. spawn k = Spawned"
  shows "registered (snd (add_handle alloc spawn h cb p)) = registered p @ [(h, Callback cb)]"
  using assms(2) layoutD(1) [OF assms(1)]
  by (simp add: add_handle_ok [OF assms(3,4)] registered_def)

subsection \<open>Removal\<close>

lemma scan_handle_less: "scan_handle h hs < length hs \<Longrightarrow> hs ! scan_handle h hs = h \<and> h \<in> set hs"
  by (induction hs) (auto split: if_splits)

lemma scan_handle_ge: "length hs \<le> scan_handle h hs \<longleftrightarrow> h \<notin> set hs"
  by (induction hs) auto

text \<open>Replacing an element by the last one and dropping that takes one element away.\<close>

definition swap_out :: "nat \<Rightarrow> 'a list \<Rightarrow> 'a list" where
  "swap_out i xs = butlast (xs[i := last xs])"

lemma mset_swap_out:
  assumes "i < length xs"
  shows "mset (swap_out i xs) = mset xs - {#xs ! i#}"
proof -
  from assms obtain ys y where xs: "xs = ys @ [y]" by (metis append_butlast_last_id length_greater_0_conv not_less0 gr_zeroI)
  show ?thesis
  proof (cases "i < length ys")
    case True
    then show ?thesis
      by (simp add: xs swap_out_def list_update_append nth_append mset_update)
  next
    case False
    with assms show ?thesis by (simp add: xs swap_out_def list_update_append nth_append less_Suc_eq)
  qed
qed

lemma swap_out_nth: "j < length xs - 1 \<Longrightarrow> swap_out i xs ! j = (if j = i then last xs else xs ! j)"
  by (simp add: swap_out_def nth_butlast)

lemma length_swap_out [simp]: "length (swap_out i xs) = length xs - 1"
  by (simp add: swap_out_def)

lemma zip_swap_out:
  assumes "length xs = length ys" "i < length xs"
  shows "zip (swap_out i xs) (swap_out i ys) = swap_out i (zip xs ys)"
proof -
  have "last (zip xs ys) = (last xs, last ys)"
    using assms by (subst last_zip) auto
  with assms show ?thesis
    by (intro nth_equalityI) (auto simp: swap_out_nth)
qed

text \<open>The array with the empty last block dropped, if there is one.\<close>

definition trimmed :: "'cb HandleHandlingPool \<Rightarrow> 'cb HandleHandlingPool" where
  "trimmed p = (if handles p \<noteq> [] \<and> last (handles p) = spin_workers p
     then p\<lparr>handles := butlast (handles p), callbacks := butlast (callbacks p)\<rparr> else p)"

lemma remove_handle_alt:
  "remove_handle h p = (if h \<notin> set (handles p) then p
     else let i = scan_handle h (handles p) in
       (trimmed p)\<lparr>handles := swap_out i (handles (trimmed p)), callbacks := swap_out i (callbacks (trimmed p))\<rparr>)"
  by (auto simp: remove_handle_def trimmed_def swap_out_def Let_def scan_handle_ge)

lemma layout_trimmed: "layout p \<Longrightarrow> layout (trimmed p)"
  by (auto simp: layout_def trimmed_def nth_butlast)

lemma trimmed_last:
  assumes "layout p" "handles (trimmed p) \<noteq> []"
  shows "last (handles (trimmed p)) \<noteq> spin_workers p"
proof (cases "handles p \<noteq> [] \<and> last (handles p) = spin_workers p")
  case True
  let ?n = "length (handles p)" and ?m = "max_handles_per_pool p"
  from True have l: "handles p ! (?n - 1) = spin_workers p" by (metis last_conv_nth)
  with layoutD(3) [OF assms(1), of "?n - 1"] True have "(?n - 1) mod ?m = 0" by simp
  moreover from True assms(2) have "2 \<le> ?n"
    by (cases "handles p"; cases "tl (handles p)") (auto simp: trimmed_def)
  ultimately have "(?n - 2) mod ?m \<noteq> 0"
    using Suc_mod_ne_0 [of "?n - 2" ?m] layoutD(2) [OF assms(1)] by (metis Suc_diff_Suc Suc_1 Suc_le_lessD diff_Suc_1 numeral_2_eq_2)
  with layoutD(3) [OF assms(1), of "?n - 2"] True \<open>2 \<le> ?n\<close> have "handles p ! (?n - 2) \<noteq> spin_workers p" by simp
  with True \<open>2 \<le> ?n\<close> assms(2) show ?thesis
    by (simp add: trimmed_def last_conv_nth nth_butlast numeral_2_eq_2)
next
  case False
  with assms(2) show ?thesis by (auto simp: trimmed_def split: if_splits)
qed

lemma in_trimmed: "h \<in> set (handles p) \<Longrightarrow> h \<noteq> spin_workers p \<Longrightarrow> scan_handle h (handles p) < length (handles (trimmed p))"
proof -
  assume h: "h \<in> set (handles p)" "h \<noteq> spin_workers p"
  let ?i = "scan_handle h (handles p)"
  have i: "?i < length (handles p)" using h(1) scan_handle_ge [of "handles p" h] by linarith
  with scan_handle_less [OF i] h(2) have "last (handles p) = spin_workers p \<Longrightarrow> ?i \<noteq> length (handles p) - 1"
    by (metis last_conv_nth length_0_conv not_less0)
  with i show ?thesis by (auto simp: trimmed_def)
qed

lemma trimmed_nth: "i < length (handles (trimmed p)) \<Longrightarrow> handles (trimmed p) ! i = handles p ! i"
  by (auto simp: trimmed_def nth_butlast split: if_splits)

lemma trimmed_simps [simp]:
  "spin_workers (trimmed p) = spin_workers p" "max_handles_per_pool (trimmed p) = max_handles_per_pool p"
  "threads_per_pool (trimmed p) = threads_per_pool p" "active_workers (trimmed p) = active_workers p"
  "length (handles (trimmed p)) \<le> length (handles p)"
  by (auto simp: trimmed_def)

lemma layout_remove_handle:
  assumes "layout p" "h \<noteq> spin_workers p"
  shows "layout (remove_handle h p)"
proof (cases "h \<in> set (handles p)")
  case True
  let ?t = "trimmed p" and ?i = "scan_handle h (handles p)"
  note lt = layout_trimmed [OF assms(1)]
  have i: "?i < length (handles ?t)" by (rule in_trimmed [OF True assms(2)])
  then have "handles ?t ! ?i = h"
    using scan_handle_less [of h "handles p"] trimmed_nth [OF i] True scan_handle_ge [of "handles p" h] by auto
  with layoutD(3) [OF lt i] assms(2) have im: "?i mod max_handles_per_pool p \<noteq> 0" by auto
  have ne: "handles ?t \<noteq> []" using i by auto
  have last_h: "last (handles ?t) \<noteq> spin_workers p" by (rule trimmed_last [OF assms(1) ne])
  have "callbacks ?t \<noteq> []" using ne layoutD(1) [OF lt] by auto
  then have last_c: "last (callbacks ?t) \<noteq> AbortSlot"
    using layoutD(3,4) [OF lt, of "length (handles ?t) - 1"] layoutD(1) [OF lt] last_h ne
    by (simp add: last_conv_nth)
  have "layout (?t\<lparr>handles := swap_out ?i (handles ?t), callbacks := swap_out ?i (callbacks ?t)\<rparr>)"
    using layoutD [OF lt] im last_h last_c by (auto simp: layout_def swap_out_nth)
  with True show ?thesis by (simp add: remove_handle_alt Let_def)
next
  case False
  with assms(1) show ?thesis by (simp add: remove_handle_alt)
qed

lemma registered_trimmed:
  assumes "layout p"
  shows "registered (trimmed p) = registered p"
proof (cases "handles p \<noteq> [] \<and> last (handles p) = spin_workers p")
  case True
  then obtain hs where hs: "handles p = hs @ [spin_workers p]" by (metis append_butlast_last_id)
  with layoutD(1) [OF assms] obtain cs c where "callbacks p = cs @ [c]" "length cs = length hs"
    by (cases "callbacks p" rule: rev_cases) auto
  with hs show ?thesis by (simp add: registered_def trimmed_def)
qed (auto simp: trimmed_def)

lemma registered_remove_handle:
  assumes "layout p" "h \<noteq> spin_workers p"
  shows "if h \<in> fst ` set (registered p)
    then \<exists>c. mset (registered p) = add_mset (h, c) (mset (registered (remove_handle h p)))
    else remove_handle h p = p"
proof (cases "h \<in> set (handles p)")
  case True
  let ?t = "trimmed p" and ?i = "scan_handle h (handles p)"
  let ?z = "zip (handles ?t) (callbacks ?t)" and ?P = "\<lambda>(h :: HANDLE, c). h \<noteq> spin_workers p"
  note lt = layout_trimmed [OF assms(1)]
  have i: "?i < length (handles ?t)" by (rule in_trimmed [OF True assms(2)])
  have hi: "handles ?t ! ?i = h"
    using scan_handle_less [of h "handles p"] trimmed_nth [OF i] True scan_handle_ge [of "handles p" h] by auto
  have iz: "?i < length ?z" using i layoutD(1) [OF lt] by simp
  with hi have zi: "?z ! ?i = (h, callbacks ?t ! ?i)" by simp
  have "registered (remove_handle h p) = filter ?P (swap_out ?i ?z)"
    using True i layoutD(1) [OF lt] by (simp add: registered_def remove_handle_alt Let_def zip_swap_out)
  then have "mset (registered (remove_handle h p)) = filter_mset ?P (mset ?z - {#?z ! ?i#})"
    by (simp add: mset_swap_out [OF iz])
  also have "\<dots> = mset (registered p) - {#?z ! ?i#}"
    using arg_cong [OF registered_trimmed [OF assms(1)], of mset] zi assms(2) by (simp add: registered_def)
  finally have eq: "mset (registered (remove_handle h p)) = mset (registered p) - {#?z ! ?i#}" .
  have "?z ! ?i \<in> set (registered ?t)"
    using iz zi assms(2) by (auto simp: registered_def intro: nth_mem [OF iz, unfolded zi])
  then have m: "(h, callbacks ?t ! ?i) \<in> set (registered p)"
    using registered_trimmed [OF assms(1)] zi by simp
  with eq zi have "mset (registered p) = add_mset (h, callbacks ?t ! ?i) (mset (registered (remove_handle h p)))"
    by simp
  moreover have "h \<in> fst ` set (registered p)" using m by force
  ultimately show ?thesis by auto
next
  case False
  then have "h \<notin> fst ` set (registered p)" by (auto simp: registered_def dest: set_zip_leftD)
  with False show ?thesis by (simp add: remove_handle_alt)
qed

lemma manned_remove_handle: "manned p \<Longrightarrow> manned (remove_handle h p)"
  by (simp add: remove_handle_alt Let_def manned_def)

lemma served_remove_handle: "served p \<Longrightarrow> served (remove_handle h p)"
proof -
  have "length (handles (remove_handle h p)) \<le> length (handles p)"
    by (cases "h \<in> set (handles p)") (simp_all add: remove_handle_alt Let_def le_trans [OF diff_le_self trimmed_simps(5)] del: One_nat_def)
  then show "served p \<Longrightarrow> ?thesis" by (auto simp: served_def remove_handle_alt Let_def)
qed

section \<open>The contract of a registry of handles\<close>

text \<open>
  What the peer relies on: a handle added is registered with its callback, a handle removed is not,
  and nothing else changes.
\<close>

locale handle_registry =
  fixes add :: "HANDLE \<Rightarrow> 'c \<Rightarrow> 's \<Rightarrow> 's"
    and remove :: "HANDLE \<Rightarrow> 's \<Rightarrow> 's"
    and regs :: "'s \<Rightarrow> (HANDLE \<times> 'c) multiset"
    and usable :: "HANDLE \<Rightarrow> 's \<Rightarrow> bool"
  assumes regs_add: "usable h s \<Longrightarrow> regs (add h c s) = add_mset (h, c) (regs s)"
    and usable_add: "usable h s \<Longrightarrow> usable k s \<Longrightarrow> usable k (add h c s)"
    and regs_remove: "usable h s \<Longrightarrow> h \<in># image_mset fst (regs s) \<Longrightarrow>
      \<exists>c. regs s = add_mset (h, c) (regs (remove h s))"
    and usable_remove: "usable h s \<Longrightarrow> usable k s \<Longrightarrow> usable k (remove h s)"
begin

lemma remove_added:
  assumes "usable h s" "h \<notin># image_mset fst (regs s)"
  shows "regs (remove h (add h c s)) = regs s"
proof -
  have "h \<in># image_mset fst (regs (add h c s))" by (simp add: regs_add [OF assms(1)])
  from regs_remove [OF usable_add [OF assms(1) assms(1)] this]
  obtain d where d: "regs (add h c s) = add_mset (h, d) (regs (remove h (add h c s)))" by auto
  then have "(h, d) \<in># add_mset (h, c) (regs s)" using regs_add [OF assms(1)] by (metis union_single_eq_member)
  moreover have "(h, d) \<notin># regs s" using assms(2) by force
  ultimately have "d = c" by auto
  with d show ?thesis by (simp add: regs_add [OF assms(1)])
qed

lemma regs_adds:
  "\<forall>(h, c) \<in> set hcs. usable h s \<Longrightarrow> regs (fold (\<lambda>(h, c). add h c) hcs s) = mset hcs + regs s"
proof (induction hcs arbitrary: s)
  case Nil
  then show ?case by simp
next
  case (Cons hc hcs)
  obtain h c where hc: "hc = (h, c)" by (cases hc)
  from Cons.prems hc have "\<forall>(k, d) \<in> set hcs. usable k (add h c s)"
    by (auto intro: usable_add)
  from Cons.IH [OF this] Cons.prems hc show ?case by (simp add: regs_add)
qed

end

definition usable_handle :: "HANDLE \<Rightarrow> 'cb HandleHandlingPool \<Rightarrow> bool" where
  "usable_handle h p \<longleftrightarrow> layout p \<and> h \<noteq> spin_workers p"

definition try_add :: "HANDLE \<Rightarrow> 'cb \<Rightarrow> 'cb HandleHandlingPool \<Rightarrow> 'cb HandleHandlingPool" where
  "try_add h cb p = snd (add_handle (\<lambda>_. True) (\<lambda>_. Spawned) h cb p)"

fun slot_callback :: "'cb slot \<Rightarrow> 'cb option" where
  "slot_callback AbortSlot = None"
| "slot_callback (Callback cb) = Some cb"

lemma spin_workers_add [simp]: "spin_workers (try_add h cb p) = spin_workers p"
  by (simp add: try_add_def add_handle_ok)

lemma spin_workers_remove [simp]: "spin_workers (remove_handle h p) = spin_workers p"
  by (simp add: remove_handle_alt Let_def)

lemma usable_try_add: "usable_handle h p \<Longrightarrow> usable_handle k p \<Longrightarrow> usable_handle k (try_add h cb p)"
  using layout_add_handle [of p h "\<lambda>_. True" "\<lambda>_. Spawned" cb] spin_workers_add [of h cb p]
  by (simp add: usable_handle_def try_add_def)

interpretation pool_registry:
  handle_registry try_add remove_handle
    "\<lambda>p. image_mset (\<lambda>(h, c). (h, the (slot_callback c))) (mset (registered p))" usable_handle
proof unfold_locales
  fix h k and p :: "'a HandleHandlingPool" and c
  show "usable_handle h p \<Longrightarrow>
      image_mset (\<lambda>(h, c). (h, the (slot_callback c))) (mset (registered (try_add h c p))) =
      add_mset (h, c) (image_mset (\<lambda>(h, c). (h, the (slot_callback c))) (mset (registered p)))"
    by (simp add: usable_handle_def try_add_def registered_add_handle)
  show "usable_handle h p \<Longrightarrow> usable_handle k p \<Longrightarrow> usable_handle k (try_add h c p)"
    by (rule usable_try_add)
  show "usable_handle h p \<Longrightarrow> usable_handle k p \<Longrightarrow> usable_handle k (remove_handle h p)"
    by (simp add: usable_handle_def layout_remove_handle)
  assume "usable_handle h p"
    and h: "h \<in># image_mset fst (image_mset (\<lambda>(h, c). (h, the (slot_callback c))) (mset (registered p)))"
  then have "layout p" "h \<noteq> spin_workers p" by (simp_all add: usable_handle_def)
  moreover have "h \<in> fst ` set (registered p)" using h by force
  ultimately obtain d where "mset (registered p) = add_mset (h, d) (mset (registered (remove_handle h p)))"
    using registered_remove_handle [of p h] by auto
  then show "\<exists>c. image_mset (\<lambda>(h, c). (h, the (slot_callback c))) (mset (registered p)) =
      add_mset (h, c) (image_mset (\<lambda>(h, c). (h, the (slot_callback c))) (mset (registered (remove_handle h p))))"
    by simp
qed

section \<open>Properties of the pool\<close>

text \<open>
  The pools that calls and workers can produce, with failures: any allocation of a call may fail except the two that are not
  undone (\<open>undone\<close>), and so may the start of any worker and the wait of any worker. The flag \<open>calm\<close> stays up until the
  memory for the first worker of a block is missing, or a wait fails.
\<close>

inductive pool_reach :: "bool \<Rightarrow> 'cb HandleHandlingPool \<Rightarrow> bool" where
  reach_new: "new_HandleHandlingPool t n (Some h) = Inr p \<Longrightarrow> t < 2 ^ 32 \<Longrightarrow> pool_reach True p"
| reach_add: "pool_reach calm p \<Longrightarrow> h \<noteq> spin_workers p \<Longrightarrow> undone alloc p \<Longrightarrow>
    add_handle alloc spawn h cb p = (ok, p') \<Longrightarrow> pool_reach (calm \<and> spawn 0 \<noteq> NoMemory) p'"
| reach_remove: "pool_reach calm p \<Longrightarrow> h \<noteq> spin_workers p \<Longrightarrow> pool_reach calm (remove_handle h p)"
| reach_worker: "pool_reach calm p \<Longrightarrow> w \<in> set (active_workers p) \<Longrightarrow>
    worker_main_iter w r p = (out, p') \<Longrightarrow> pool_reach (calm \<and> r \<noteq> WAIT_FAILED) p'"

lemma manned_worker_exit: "manned p \<Longrightarrow> manned (worker_exit w p)"
proof -
  assume m: "manned p"
  have "count (mset (remove1 w (active_workers p))) b \<le> count (mset (active_workers p)) b" for b by simp
  then have "\<forall>b. count (mset (remove1 w (active_workers p))) b \<le> threads_per_pool p"
    using m unfolding manned_def by (meson le_trans)
  moreover have "set (remove1 w (active_workers p)) \<subseteq> set (active_workers p)" by (rule set_remove1_subset)
  ultimately show ?thesis using m unfolding manned_def worker_exit_def by auto
qed

lemma served_worker_exit:
  assumes "served p" "length (handles p) \<le> w"
  shows "served (worker_exit w p)"
proof -
  have "\<forall>b < length (handles p). b mod max_handles_per_pool p = 0 \<longrightarrow> b \<in> set (remove1 w (active_workers p))"
    using assms unfolding served_def by (metis in_set_remove1 not_less)
  then show ?thesis unfolding served_def worker_exit_def by simp
qed

lemma stopping_add_handle: "undone alloc p \<Longrightarrow> add_handle alloc spawn h cb p = (ok, p') \<Longrightarrow> stopping p' = stopping p"
  by (erule (1) add_handle_cases) simp_all

lemma pool_reach_inv: "pool_reach calm p \<Longrightarrow> layout p \<and> manned p \<and> (calm \<longrightarrow> served p) \<and> \<not> stopping p"
proof (induction rule: pool_reach.induct)
  case (reach_new t n h p)
  then show ?case
    by (auto simp: new_HandleHandlingPool_def layout_def manned_def served_def split: if_splits)
next
  case (reach_add calm p h alloc spawn cb ok p')
  note IH = reach_add.IH and step = reach_add.hyps(2-4)
  have "layout p'" using layout_add_handle_any [OF _ step] IH by blast
  moreover have "manned p'" using manned_add_handle [OF _ step(2,3)] IH by blast
  moreover have "served p'" if "calm \<and> spawn 0 \<noteq> NoMemory"
    using served_add_handle [OF _ _ layoutD(2) step(2) _ step(3)] IH that by blast
  moreover have "\<not> stopping p'" using stopping_add_handle [OF step(2,3)] IH by simp
  ultimately show ?case by blast
next
  case (reach_remove calm p h)
  then show ?case
    by (simp add: layout_remove_handle manned_remove_handle served_remove_handle) (simp add: remove_handle_alt Let_def trimmed_def)
next
  case (reach_worker calm p w r out p')
  then consider "p' = p" | "p' = worker_exit w p" "r \<noteq> WAIT_FAILED \<Longrightarrow> length (handles p) \<le> w"
    by (auto simp: worker_main_iter_def split: if_splits)
  moreover have "layout (worker_exit w p)" "\<not> stopping (worker_exit w p)"
    using reach_worker.IH by (simp_all add: layout_def worker_exit_def)
  ultimately show ?case
    using reach_worker.IH manned_worker_exit [of p w] served_worker_exit [of p w] by cases simp_all
qed

text \<open>
  C20: in every reachable pool the two arrays have the same length, the wake-up event stands exactly at
  the start of each block and has the slot that must not run, no block has more than \<open>threads_per_pool\<close> workers and a
  worker is always at the start of a block; and every block has at least one worker as long as the memory for the first worker
  of a block was there and no wait failed. Reachable means: by any calls and any workers, with failures of the
  vectors' allocations (except the two that \<open>add_handle\<close> does not undo: those for the handle and its callback at the start of a
  block) and of the starts of workers. A call that throws leaves the pool as it was, if \<^verbatim>\<open>new Worker\<close> is not what failed.
\<close>

theorem pool_invariant:
  assumes "pool_reach calm p"
  shows "layout p \<and> manned p \<and> (calm \<longrightarrow> served p)
    \<and> (undone alloc p \<and> (\<forall>k. spawn k \<noteq> NoMemory) \<and> add_handle alloc spawn h cb p = (False, p') \<longrightarrow> p' = p)"
  using pool_reach_inv [OF assms] add_handle_undone [of alloc p spawn h cb p'] by simp

text \<open>A call whose second worker cannot be started, and one whose first worker cannot.\<close>

definition empty_pool :: "nat HandleHandlingPool" where
  "empty_pool = \<lparr>threads_per_pool = 2, max_handles_per_pool = 4, spin_workers = 9, stopping = False,
     handles = [], callbacks = [], active_workers = [], join_worker = None\<rparr>"

lemma reach_empty_pool: "pool_reach True empty_pool"
  by (rule reach_new [of 2 3 9]) (simp_all add: new_HandleHandlingPool_def const_defs empty_pool_def)

theorem pool_invariant_witness:
  "\<exists>p :: nat HandleHandlingPool. pool_reach True p \<and> handles p = [9, 5] \<and> active_workers p = [0] \<and> layout p \<and> manned p \<and> served p
     \<and> add_handle (\<lambda>_. True) (\<lambda>_. StartFailed) 5 7 empty_pool = (False, empty_pool)"
proof -
  let ?some = "\<lambda>i. if i = 0 then Spawned else StartFailed"
  obtain ok p where p: "add_handle (\<lambda>_. True) ?some 5 7 empty_pool = (ok, p)" by fastforce
  then have r: "pool_reach True p" using reach_add [OF reach_empty_pool _ _ p] by (simp add: undone_def empty_pool_def)
  have two: "threads_to_spawn 0 (empty_pool\<lparr>handles := hs, callbacks := cs\<rparr>) = Suc (Suc 0)" for hs cs
    by (simp add: threads_to_spawn_def empty_pool_def)
  have e: "handles empty_pool = []" "callbacks empty_pool = []" "spin_workers empty_pool = 9" "active_workers empty_pool = []"
    by (simp_all add: empty_pool_def)
  from p have hp: "handles p = [9, 5] \<and> active_workers p = [0]"
    by (auto simp: add_handle_def push_block_ok two e)
  have "fst (add_handle (\<lambda>_. True) (\<lambda>_. StartFailed) 5 7 empty_pool) = False"
    by (simp add: add_handle_def push_block_ok two e)
  then obtain p' where f: "add_handle (\<lambda>_. True) (\<lambda>_. StartFailed) 5 7 empty_pool = (False, p')"
    by (metis prod.collapse)
  have "p' = empty_pool"
    using pool_invariant [OF reach_empty_pool, of "\<lambda>_. True" "\<lambda>_. StartFailed" 5 7 p'] f by (simp add: undone_def)
  moreover have "layout p \<and> manned p \<and> served p" using pool_invariant [OF r, of undefined] by simp
  ultimately show ?thesis using f r hp by (intro exI [of _ p]) simp
qed

text \<open>
  C21: the pool refines a multiset of registrations: adding a handle adds its pair, removing a handle
  that is registered takes exactly one pair of that handle away, removing any other handle changes
  nothing. (The wake-up event is private to the pool, so no caller can pass it.)
\<close>

theorem pool_refines_registry:
  assumes "layout p" "h \<noteq> spin_workers p"
  shows "registered (snd (add_handle (\<lambda>_. True) (\<lambda>_. Spawned) h cb p)) = registered p @ [(h, Callback cb)]
    \<and> (if h \<in> fst ` set (registered p)
       then \<exists>c. mset (registered p) = add_mset (h, c) (mset (registered (remove_handle h p)))
       else remove_handle h p = p)
    \<and> layout (snd (add_handle (\<lambda>_. True) (\<lambda>_. Spawned) h cb p)) \<and> layout (remove_handle h p)"
  using assms registered_add_handle [of p h "\<lambda>_. True" "\<lambda>_. Spawned" cb] registered_remove_handle [of p h]
    layout_add_handle [of p h "\<lambda>_. True" "\<lambda>_. Spawned" cb] layout_remove_handle [of p h] by blast

theorem pool_refines_registry_witness:
  "let p = \<lparr>threads_per_pool = 1, max_handles_per_pool = 3, spin_workers = 9, stopping = False,
     handles = [9, 4, 5, 9], callbacks = [AbortSlot, Callback 1, Callback 2, AbortSlot],
     active_workers = [0, 3], join_worker = None\<rparr> :: nat HandleHandlingPool
   in layout p \<and> (\<exists>c. mset (registered p) = add_mset (4, c) (mset (registered (remove_handle 4 p))))
      \<and> handles (remove_handle 4 p) = [9, 5]"
proof -
  let ?p = "\<lparr>threads_per_pool = 1, max_handles_per_pool = 3, spin_workers = 9, stopping = False,
     handles = [9, 4, 5, 9], callbacks = [AbortSlot, Callback 1, Callback 2, AbortSlot],
     active_workers = [0, 3], join_worker = None\<rparr> :: nat HandleHandlingPool"
  have "layout ?p" by (auto simp: layout_def less_Suc_eq)
  moreover have "handles (remove_handle 4 ?p) = [9, 5]"
    by (simp add: remove_handle_def Let_def)
  ultimately show ?thesis
    using pool_refines_registry [of ?p 4 undefined] by (simp add: Let_def registered_def)
qed

text \<open>
  C22: dispatch. In every reachable pool (see C20: with failures, except the two allocations that \<open>add_handle\<close> does not
  undo), when a worker is woken by one of the handles of its block, it runs the callback that
  was registered with this very handle, not the slot that aborts the process; and as long as the memory for the first worker
  of a block was there and no wait failed, every registered handle is in the range some active worker waits on.
\<close>

theorem worker_dispatch:
  assumes "pool_reach calm p"
  shows "(\<forall>w r. w \<in> set (active_workers p) \<and> 1 \<le> r \<and> r < num_handles w p \<and> w < length (handles p) \<longrightarrow>
       (\<exists>cb. worker_main_iter w r p = (WorkerCall (Callback cb), p)
          \<and> (handles p ! (w + r), Callback cb) \<in> set (registered p)))
   \<and> (calm \<longrightarrow> (\<forall>(h, c) \<in> set (registered p). \<exists>w \<in> set (active_workers p). \<exists>r.
        1 \<le> r \<and> r < num_handles w p \<and> handles p ! (w + r) = h))"
proof -
  have inv: "layout p" "manned p" "calm \<longrightarrow> served p" "\<not> stopping p" using pool_reach_inv [OF assms] by auto
  note lay = layoutD [OF inv(1)]
  let ?m = "max_handles_per_pool p"
  have call: "\<exists>cb. worker_main_iter w r p = (WorkerCall (Callback cb), p)
          \<and> (handles p ! (w + r), Callback cb) \<in> set (registered p)"
    if "w \<in> set (active_workers p)" "1 \<le> r" "r < num_handles w p" "w < length (handles p)" for w r
  proof -
    have r: "r < ?m" "w + r < length (handles p)" using that by (auto simp: num_handles_def)
    have "w mod ?m = 0" using inv(2) that(1) by (simp add: manned_def)
    then have "(w + r) mod ?m \<noteq> 0" using r(1) that(2) by (simp add: mod_add_left_eq [symmetric])
    with lay(3,4) r(2) have h: "handles p ! (w + r) \<noteq> spin_workers p" and c: "callbacks p ! (w + r) \<noteq> AbortSlot"
      by auto
    then obtain cb where cb: "callbacks p ! (w + r) = Callback cb" by (cases "callbacks p ! (w + r)") auto
    have "(handles p ! (w + r), callbacks p ! (w + r)) \<in> set (zip (handles p) (callbacks p))"
      using r(2) lay(1) by (auto simp: set_zip)
    with h cb have "(handles p ! (w + r), Callback cb) \<in> set (registered p)" by (simp add: registered_def)
    moreover have "worker_main_iter w r p = (WorkerCall (Callback cb), p)"
      using that inv(4) cb by (simp add: worker_main_iter_def const_defs)
    ultimately show ?thesis by blast
  qed
  have watch: "\<exists>w \<in> set (active_workers p). \<exists>r. 1 \<le> r \<and> r < num_handles w p \<and> handles p ! (w + r) = h"
    if "calm" "(h, c) \<in> set (registered p)" for h c
  proof -
    from that(2) obtain i where i: "i < length (handles p)" "handles p ! i = h" "h \<noteq> spin_workers p"
      by (auto simp: registered_def set_zip)
    then have im: "i mod ?m \<noteq> 0" using lay(3) [of i] by auto
    let ?w = "i - i mod ?m"
    have "?w mod ?m = 0" by (simp add: minus_mod_eq_mult_div)
    moreover have "?w < length (handles p)" using i(1) by simp
    ultimately have "?w \<in> set (active_workers p)" using inv(3) that(1) by (simp add: served_def)
    moreover have "i mod ?m < num_handles ?w p" using i(1) lay(2) by (simp add: num_handles_def)
    ultimately show ?thesis using im i(2) by (intro bexI [of _ ?w] exI [of _ "i mod ?m"]) auto
  qed
  show ?thesis using call watch by blast
qed

theorem worker_dispatch_witness:
  "\<exists>p :: nat HandleHandlingPool. pool_reach True p \<and> registered p = [(5, Callback 7)]
     \<and> worker_main_iter 0 1 p = (WorkerCall (Callback 7), p) \<and> (\<exists>w \<in> set (active_workers p). 1 < num_handles w p)"
proof -
  obtain ok p where p: "add_handle (\<lambda>_. True) (\<lambda>_. Spawned) 5 7 empty_pool = (ok, p)" by fastforce
  then have r: "pool_reach True p" using reach_add [OF reach_empty_pool _ _ p] by (simp add: undone_def empty_pool_def)
  from p have "registered p = [(5, Callback 7)]" "0 \<in> set (active_workers p)" "1 < num_handles 0 p" "0 < length (handles p)"
    by (auto simp: add_handle_ok threads_to_spawn_def registered_def num_handles_def empty_pool_def)
  moreover from this(3,4) have "1 < num_handles 0 p" "0 < length (handles p)" by simp_all
  moreover have "\<exists>cb. worker_main_iter 0 1 p = (WorkerCall (Callback cb), p) \<and> (handles p ! (0 + 1), Callback cb) \<in> set (registered p)"
    using worker_dispatch [OF r] calculation(2-4) by blast
  ultimately show ?thesis using r by (intro exI [of _ p]) auto
qed

text \<open>
  the error path of \<open>add_handle\<close>. When the allocation for the handle or for its callback fails
  while a new block is started, the call throws with the handles as before but leaves the slot that
  aborts the process at the end of the callbacks; the next handle added is then served by that slot.
\<close>

theorem add_handle_failure_misaligns:
  "let p = \<lparr>threads_per_pool = 1, max_handles_per_pool = m + 2, spin_workers = s, stopping = False,
      handles = [], callbacks = [], active_workers = [], join_worker = None\<rparr> :: 'cb HandleHandlingPool;
     (thrown, p1) = add_handle (\<lambda>k. k < 2) (\<lambda>_. Spawned) h cb p;
     (ok, p2) = add_handle (\<lambda>_. True) (\<lambda>_. Spawned) h cb p1
   in thrown = False \<and> handles p1 = [] \<and> callbacks p1 = [AbortSlot] \<and> ok
      \<and> handles p2 = [s, h] \<and> worker_main_iter 0 1 p2 = (WorkerCall AbortSlot, p2)"
  by (simp add: add_handle_ok) (simp add: add_handle_def push_block_def Let_def worker_main_iter_def
      num_handles_def const_defs)

end
