(* ===== verification/PoolProtocol.thy ===== *)
theory PoolProtocol
  imports HandlePool
begin

text \<open>
  The locking protocol of the worker pool (\<^verbatim>\<open>src/src/HandleHandlingPool.cpp\<close>; the sequence is
  described in the header): any number of writers (calls of \<open>add_handle\<close> and \<open>remove_handle\<close>) and of
  workers run in any interleaving. Each thread has a program counter; a step is one access to the
  shared synchronisation state, the mutex \<open>pending_writer_lock\<close>, the shared mutex \<open>wait_lock\<close>, the
  flag \<open>pending_writer\<close> and the event \<open>spin_workers\<close>. What a writer does with the arrays while it holds
  \<open>wait_lock\<close> is the subject of theory \<open>HandlePool\<close>, the destruction of the pool that of \<open>PoolShutdown\<close>.

  The constructor does not initialise \<open>pending_writer\<close>, so its first value is arbitrary, and there is no
  worker before a writer has started one.
\<close>

section \<open>States\<close>

text \<open>
  A writer edits the arrays in \<open>WEditing\<close> and \<open>WNotified\<close>: \<open>add_handle\<close> notifies the condition variable
  before it edits, \<open>remove_handle\<close> afterwards, or not at all if it does not find the handle.
\<close>

datatype writer_pc = WIdle | WLocked | WFlagged | WPending | WExclusive | WReset | WCleared | WEditing | WNotified

datatype worker_pc = KUnstarted | KTop | KBlocked | KChecking | KSleeping | KAcquire | KWaiting | KCallback | KExited

datatype thread = Writer nat | Worker nat

text \<open>
  What a worker finds beside \<open>spin_workers\<close> when it holds the shared lock: no handle of its block is signalled, one is, the
  wait for them fails, or its block is gone.
\<close>

datatype waits = AllQuiet | SomeSignalled | WaitFails | BlockGone

record proto =
  pending_writer :: bool
  pending_writer_lock :: "thread option"
  wait_excl :: "nat option"
  wait_shared :: "nat set"
  spin_signalled :: bool
  ready :: "nat \<Rightarrow> waits"
  wpc :: "nat \<Rightarrow> writer_pc"
  kpc :: "nat \<Rightarrow> worker_pc"

text \<open>\<open>K\<close> are the workers that may ever be started, \<open>p\<close> is the uninitialised flag, \<open>h\<close> the state of the handles.\<close>

definition proto_init :: "nat set \<Rightarrow> bool \<Rightarrow> (nat \<Rightarrow> waits) \<Rightarrow> proto" where
  "proto_init K p h = \<lparr>pending_writer = p, pending_writer_lock = None, wait_excl = None, wait_shared = {},
     spin_signalled = False, ready = h, wpc = (\<lambda>_. WIdle), kpc = (\<lambda>k. if k \<in> K then KUnstarted else KExited)\<rparr>"

section \<open>Steps\<close>

text \<open>The steps of writer \<open>i\<close>, in the order of the statements of \<open>add_handle\<close> and \<open>remove_handle\<close>.\<close>

inductive writer_step :: "nat \<Rightarrow> proto \<Rightarrow> proto \<Rightarrow> bool" for i s where
  w_lock: "wpc s i = WIdle \<Longrightarrow> pending_writer_lock s = None \<Longrightarrow>
    writer_step i s (s\<lparr>pending_writer_lock := Some (Writer i), wpc := (wpc s)(i := WLocked)\<rparr>)"
| w_flag: "wpc s i = WLocked \<Longrightarrow>
    writer_step i s (s\<lparr>pending_writer := True, wpc := (wpc s)(i := WFlagged)\<rparr>)"
| w_signal: "wpc s i = WFlagged \<Longrightarrow>
    writer_step i s (s\<lparr>spin_signalled := True, wpc := (wpc s)(i := WPending)\<rparr>)"
| w_exclusive: "wpc s i = WPending \<Longrightarrow> wait_excl s = None \<Longrightarrow> wait_shared s = {} \<Longrightarrow>
    writer_step i s (s\<lparr>wait_excl := Some i, wpc := (wpc s)(i := WExclusive)\<rparr>)"
| w_reset: "wpc s i = WExclusive \<Longrightarrow>
    writer_step i s (s\<lparr>spin_signalled := False, wpc := (wpc s)(i := WReset)\<rparr>)"
| w_clear: "wpc s i = WReset \<Longrightarrow>
    writer_step i s (s\<lparr>pending_writer := False, wpc := (wpc s)(i := WCleared)\<rparr>)"
| w_unlock: "wpc s i = WCleared \<Longrightarrow>
    writer_step i s (s\<lparr>pending_writer_lock := None, wpc := (wpc s)(i := WEditing)\<rparr>)"
| w_notify: "wpc s i = WEditing \<Longrightarrow>
    writer_step i s (s\<lparr>kpc := (\<lambda>k. if kpc s k = KSleeping then KBlocked else kpc s k), wpc := (wpc s)(i := WNotified)\<rparr>)"
| w_spawn: "wpc s i = WNotified \<Longrightarrow> kpc s k = KUnstarted \<Longrightarrow>
    writer_step i s (s\<lparr>kpc := (kpc s)(k := KTop)\<rparr>)"
| w_done: "wpc s i = WEditing \<or> wpc s i = WNotified \<Longrightarrow>
    writer_step i s (s\<lparr>wait_excl := None, wpc := (wpc s)(i := WIdle)\<rparr>)"

text \<open>
  The steps of worker \<open>k\<close>: the check of \<open>pending_writer\<close> and the wait for it on the condition
  variable, the shared lock, the wait for the handles, the callback without the lock. A wait ends only
  because \<open>spin_workers\<close> or a handle of the block is signalled or because it fails; a worker whose block is
  gone leaves without waiting.
\<close>

inductive worker_step :: "nat \<Rightarrow> proto \<Rightarrow> proto \<Rightarrow> bool" for k s where
  k_pending: "kpc s k = KTop \<Longrightarrow> pending_writer s \<Longrightarrow> worker_step k s (s\<lparr>kpc := (kpc s)(k := KBlocked)\<rparr>)"
| k_free: "kpc s k = KTop \<Longrightarrow> \<not> pending_writer s \<Longrightarrow> worker_step k s (s\<lparr>kpc := (kpc s)(k := KAcquire)\<rparr>)"
| k_lock: "kpc s k = KBlocked \<Longrightarrow> pending_writer_lock s = None \<Longrightarrow>
    worker_step k s (s\<lparr>pending_writer_lock := Some (Worker k), kpc := (kpc s)(k := KChecking)\<rparr>)"
| k_pass: "kpc s k = KChecking \<Longrightarrow> \<not> pending_writer s \<Longrightarrow>
    worker_step k s (s\<lparr>pending_writer_lock := None, kpc := (kpc s)(k := KAcquire)\<rparr>)"
| k_sleep: "kpc s k = KChecking \<Longrightarrow> pending_writer s \<Longrightarrow>
    worker_step k s (s\<lparr>pending_writer_lock := None, kpc := (kpc s)(k := KSleeping)\<rparr>)"
| k_shared: "kpc s k = KAcquire \<Longrightarrow> wait_excl s = None \<Longrightarrow>
    worker_step k s (s\<lparr>wait_shared := insert k (wait_shared s), kpc := (kpc s)(k := KWaiting)\<rparr>)"
| k_spin: "kpc s k = KWaiting \<Longrightarrow> ready s k \<noteq> BlockGone \<Longrightarrow> spin_signalled s \<Longrightarrow>
    worker_step k s (s\<lparr>wait_shared := wait_shared s - {k}, kpc := (kpc s)(k := KTop)\<rparr>)"
| k_signal: "kpc s k = KWaiting \<Longrightarrow> ready s k = SomeSignalled \<Longrightarrow>
    worker_step k s (s\<lparr>wait_shared := wait_shared s - {k}, kpc := (kpc s)(k := KCallback)\<rparr>)"
| k_return: "kpc s k = KCallback \<Longrightarrow> worker_step k s (s\<lparr>kpc := (kpc s)(k := KTop)\<rparr>)"
| k_exit: "kpc s k = KWaiting \<Longrightarrow> ready s k = WaitFails \<or> ready s k = BlockGone \<Longrightarrow>
    worker_step k s (s\<lparr>wait_shared := wait_shared s - {k}, kpc := (kpc s)(k := KExited)\<rparr>)"

definition proto_step :: "proto \<Rightarrow> proto \<Rightarrow> bool" where
  "proto_step s t \<longleftrightarrow> (\<exists>i. writer_step i s t) \<or> (\<exists>k. worker_step k s t)"

text \<open>The handles are signalled and reset by others at any time.\<close>

inductive proto_reach :: "nat set \<Rightarrow> proto \<Rightarrow> bool" for K where
  proto_start: "proto_reach K (proto_init K p h)"
| proto_more: "proto_reach K s \<Longrightarrow> proto_step s t \<Longrightarrow> proto_reach K t"
| proto_handles: "proto_reach K s \<Longrightarrow> proto_reach K (s\<lparr>ready := h\<rparr>)"

section \<open>The invariant\<close>

definition flag_states :: "writer_pc set" where
  "flag_states = {WFlagged, WPending, WExclusive, WReset}"

definition lock_states :: "writer_pc set" where
  "lock_states = {WLocked, WFlagged, WPending, WExclusive, WReset, WCleared}"

definition excl_states :: "writer_pc set" where
  "excl_states = {WExclusive, WReset, WCleared, WEditing, WNotified}"

lemmas pc_sets = flag_states_def lock_states_def excl_states_def

text \<open>Who holds \<open>pending_writer_lock\<close>, in terms of the lock and the program counters.\<close>

definition lock_ok :: "thread option \<Rightarrow> (nat \<Rightarrow> writer_pc) \<Rightarrow> (nat \<Rightarrow> worker_pc) \<Rightarrow> bool" where
  "lock_ok l w k \<longleftrightarrow> (\<forall>i. w i \<in> lock_states \<longleftrightarrow> l = Some (Writer i)) \<and> (\<forall>j. k j = KChecking \<longleftrightarrow> l = Some (Worker j))"

lemma lock_ok_writer:
  "lock_ok l w k \<Longrightarrow> w i \<in> lock_states \<longleftrightarrow> pc \<in> lock_states \<Longrightarrow> lock_ok l (w(i := pc)) k"
  "lock_ok None w k \<Longrightarrow> pc \<in> lock_states \<Longrightarrow> lock_ok (Some (Writer i)) (w(i := pc)) k"
  "lock_ok l w k \<Longrightarrow> w i \<in> lock_states \<Longrightarrow> pc \<notin> lock_states \<Longrightarrow> lock_ok None (w(i := pc)) k"
  by (auto simp: lock_ok_def)

lemma lock_ok_worker:
  "lock_ok l w k \<Longrightarrow> k j \<noteq> KChecking \<Longrightarrow> pc \<noteq> KChecking \<Longrightarrow> lock_ok l w (k(j := pc))"
  "lock_ok None w k \<Longrightarrow> lock_ok (Some (Worker j)) w (k(j := KChecking))"
  "lock_ok l w k \<Longrightarrow> k j = KChecking \<Longrightarrow> pc \<noteq> KChecking \<Longrightarrow> lock_ok None w (k(j := pc))"
  "lock_ok l w k \<Longrightarrow> lock_ok l w (\<lambda>j. if k j = KSleeping then KBlocked else k j)"
  unfolding lock_ok_def by (auto, metis worker_pc.distinct)

lemma lock_ok_unique: "lock_ok l w k \<Longrightarrow> w i \<in> lock_states \<Longrightarrow> w j \<in> lock_states \<Longrightarrow> i = j"
  by (simp add: lock_ok_def)

lemma lock_ok_exclusive: "lock_ok l w k \<Longrightarrow> w i \<in> lock_states \<Longrightarrow> k j \<noteq> KChecking"
  by (simp add: lock_ok_def)

text \<open>Who holds \<open>wait_lock\<close>, exclusively or shared.\<close>

definition wait_ok :: "nat option \<Rightarrow> nat set \<Rightarrow> (nat \<Rightarrow> writer_pc) \<Rightarrow> (nat \<Rightarrow> worker_pc) \<Rightarrow> bool" where
  "wait_ok e sh w k \<longleftrightarrow> (\<forall>i. w i \<in> excl_states \<longleftrightarrow> e = Some i) \<and> (\<forall>j. k j = KWaiting \<longleftrightarrow> j \<in> sh) \<and>
     (e \<noteq> None \<longrightarrow> sh = {}) \<and> finite sh"

lemma wait_ok_writer:
  "wait_ok e sh w k \<Longrightarrow> w i \<in> excl_states \<longleftrightarrow> pc \<in> excl_states \<Longrightarrow> wait_ok e sh (w(i := pc)) k"
  "wait_ok None {} w k \<Longrightarrow> pc \<in> excl_states \<Longrightarrow> wait_ok (Some i) {} (w(i := pc)) k"
  "wait_ok e sh w k \<Longrightarrow> w i \<in> excl_states \<Longrightarrow> pc \<notin> excl_states \<Longrightarrow> wait_ok None sh (w(i := pc)) k"
  by (auto simp: wait_ok_def)

lemma wait_ok_worker:
  "wait_ok e sh w k \<Longrightarrow> k j \<noteq> KWaiting \<Longrightarrow> pc \<noteq> KWaiting \<Longrightarrow> wait_ok e sh w (k(j := pc))"
  "wait_ok None sh w k \<Longrightarrow> wait_ok None (insert j sh) w (k(j := KWaiting))"
  "wait_ok e sh w k \<Longrightarrow> pc \<noteq> KWaiting \<Longrightarrow> wait_ok e (sh - {j}) w (k(j := pc))"
  "wait_ok e sh w k \<Longrightarrow> wait_ok e sh w (\<lambda>j. if k j = KSleeping then KBlocked else k j)"
  unfolding wait_ok_def by (auto, metis worker_pc.distinct)

text \<open>
  The flag is up exactly while a writer that holds the lock has it up, except for its uninitialised value, which stands until the
  first writer writes it and which no worker can see; nobody sleeps on it.
\<close>

definition virgin :: "(nat \<Rightarrow> writer_pc) \<Rightarrow> (nat \<Rightarrow> worker_pc) \<Rightarrow> bool" where
  "virgin w k \<longleftrightarrow> (\<forall>i. w i \<in> {WIdle, WLocked}) \<and> (\<forall>j. k j \<in> {KUnstarted, KExited})"

definition flag_ok :: "bool \<Rightarrow> bool \<Rightarrow> (nat \<Rightarrow> writer_pc) \<Rightarrow> (nat \<Rightarrow> worker_pc) \<Rightarrow> bool" where
  "flag_ok pend spin w k \<longleftrightarrow> (pend \<longrightarrow> (\<exists>i. w i \<in> flag_states) \<or> virgin w k) \<and> (\<forall>i. w i \<in> flag_states \<longrightarrow> pend) \<and>
     (\<forall>j. k j \<noteq> KSleeping) \<and> (\<forall>i. w i = WPending \<longrightarrow> spin)"

lemma virgin_writer: "virgin w k \<Longrightarrow> pc \<in> {WIdle, WLocked} \<Longrightarrow> virgin (w(i := pc)) k"
  by (simp add: virgin_def)

lemma flag_ok_writer:
  "flag_ok pend spin w k \<Longrightarrow> w i \<notin> flag_states \<Longrightarrow> pc \<notin> flag_states \<Longrightarrow> virgin w k \<longrightarrow> pc \<in> {WIdle, WLocked} \<Longrightarrow>
     flag_ok pend spin (w(i := pc)) k"
  "flag_ok pend spin w k \<Longrightarrow> pc \<in> flag_states \<Longrightarrow> pc \<noteq> WPending \<Longrightarrow> flag_ok True spin (w(i := pc)) k"
  "flag_ok pend spin w k \<Longrightarrow> w i \<in> flag_states \<Longrightarrow> flag_ok pend True (w(i := WPending)) k"
proof -
  assume a: "flag_ok pend spin w k" "w i \<notin> flag_states" "pc \<notin> flag_states" "virgin w k \<longrightarrow> pc \<in> {WIdle, WLocked}"
  then have "pc \<noteq> WPending" by (auto simp: flag_states_def)
  moreover have "w j \<in> flag_states \<longleftrightarrow> (w(i := pc)) j \<in> flag_states" for j using a by simp
  ultimately show "flag_ok pend spin (w(i := pc)) k"
    using a virgin_writer [of w k pc i] unfolding flag_ok_def by (metis fun_upd_apply)
next
  show "flag_ok pend spin w k \<Longrightarrow> pc \<in> flag_states \<Longrightarrow> pc \<noteq> WPending \<Longrightarrow> flag_ok True spin (w(i := pc)) k"
    unfolding flag_ok_def by (metis fun_upd_apply)
next
  show "flag_ok pend spin w k \<Longrightarrow> w i \<in> flag_states \<Longrightarrow> flag_ok pend True (w(i := WPending)) k"
    unfolding flag_ok_def by (metis fun_upd_apply flag_states_def insertCI)
qed

lemma flag_ok_clear:
  assumes "flag_ok pend spin w k" "lock_ok l w k" "w i = WReset"
  shows "flag_ok False spin (w(i := WCleared)) k"
proof -
  have "w j \<notin> flag_states" if "j \<noteq> i" for j
    using lock_ok_unique [OF assms(2), of i j] assms(3) that by (auto simp: pc_sets)
  with assms(1) show ?thesis by (auto simp: flag_ok_def flag_states_def)
qed

lemma flag_ok_reset:
  assumes "flag_ok pend spin w k" "lock_ok l w k" "w i = WExclusive"
  shows "flag_ok pend False (w(i := WReset)) k"
proof -
  have "w j \<noteq> WPending" for j
    using lock_ok_unique [OF assms(2), of i j] assms(3) by (auto simp: lock_states_def)
  then have "\<forall>j. (w(i := WReset)) j \<noteq> WPending" by simp
  moreover have "(w(i := WReset)) i \<in> flag_states" "w i \<in> flag_states" using assms(3) by (simp_all add: flag_states_def)
  ultimately show ?thesis using assms(1) unfolding flag_ok_def by (metis fun_upd_apply)
qed

text \<open>A writer past the flag, or a worker that runs, shows that the flag has been written.\<close>

lemma not_virgin: "w i \<in> excl_states \<Longrightarrow> \<not> virgin w k" "k j \<notin> {KUnstarted, KExited} \<Longrightarrow> \<not> virgin w k"
  unfolding virgin_def excl_states_def by (metis insertE writer_pc.distinct emptyE, blast)

lemma flag_ok_worker:
  "flag_ok pend spin w k \<Longrightarrow> \<not> virgin w k \<Longrightarrow> pc \<noteq> KSleeping \<Longrightarrow> flag_ok pend spin w (k(j := pc))"
  "flag_ok pend spin w k \<Longrightarrow> flag_ok pend spin w (\<lambda>j. if k j = KSleeping then KBlocked else k j)"
  by (auto simp: flag_ok_def)

lemma flag_ok_checking:
  assumes "flag_ok pend spin w k" "lock_ok l w k" "k j = KChecking"
  shows "\<not> pend"
  using assms lock_ok_exclusive [OF assms(2)] not_virgin(2) [of k j w] by (auto simp: flag_ok_def pc_sets)

definition proto_inv :: "nat set \<Rightarrow> proto \<Rightarrow> bool" where
  "proto_inv K s \<longleftrightarrow> lock_ok (pending_writer_lock s) (wpc s) (kpc s) \<and>
     wait_ok (wait_excl s) (wait_shared s) (wpc s) (kpc s) \<and>
     flag_ok (pending_writer s) (spin_signalled s) (wpc s) (kpc s) \<and> (\<forall>k. k \<notin> K \<longrightarrow> kpc s k = KExited)"

lemma proto_inv_writer:
  assumes "proto_inv K s" "writer_step i s t"
  shows "proto_inv K t"
  using assms(2,1)
proof (cases rule: writer_step.cases)
  case w_lock
  with assms(1) show ?thesis
    by (auto simp: proto_inv_def pc_sets intro: lock_ok_writer(2) wait_ok_writer(1) flag_ok_writer(1))
next
  case w_flag
  with assms(1) show ?thesis
    by (auto simp: proto_inv_def pc_sets intro: lock_ok_writer(1) wait_ok_writer(1) flag_ok_writer(2))
next
  case w_signal
  with assms(1) show ?thesis
    by (auto simp: proto_inv_def pc_sets intro: lock_ok_writer(1) wait_ok_writer(1) flag_ok_writer(3))
next
  case w_exclusive
  then have "pending_writer s" using assms(1) by (simp add: proto_inv_def flag_ok_def flag_states_def)
  with w_exclusive assms(1) show ?thesis
    using flag_ok_writer(2) [of "pending_writer s" "spin_signalled s" "wpc s" "kpc s" WExclusive i]
    by (auto simp: proto_inv_def pc_sets intro: lock_ok_writer(1) wait_ok_writer(2))
next
  case w_reset
  with assms(1) show ?thesis
    by (auto simp: proto_inv_def pc_sets intro: lock_ok_writer(1) wait_ok_writer(1) flag_ok_reset)
next
  case w_clear
  with assms(1) show ?thesis
    by (auto simp: proto_inv_def pc_sets intro: lock_ok_writer(1) wait_ok_writer(1) flag_ok_clear)
next
  case w_unlock
  then have "\<not> virgin (wpc s) (kpc s)" by (intro not_virgin(1) [of _ i]) (simp add: excl_states_def)
  with w_unlock assms(1) show ?thesis
    by (auto simp: proto_inv_def pc_sets intro: lock_ok_writer(3) wait_ok_writer(1) flag_ok_writer(1))
next
  case w_notify
  then have v: "\<not> virgin (wpc s) (kpc s)" by (intro not_virgin(1) [of _ i]) (simp add: excl_states_def)
  have same: "(\<lambda>k. if kpc s k = KSleeping then KBlocked else kpc s k) = kpc s"
    using assms(1) by (auto simp: proto_inv_def flag_ok_def)
  show ?thesis
    using w_notify assms(1) v unfolding w_notify(1) same
    by (auto simp: proto_inv_def pc_sets intro: lock_ok_writer(1) wait_ok_writer(1) flag_ok_writer(1))
next
  case (w_spawn k)
  then have "\<not> virgin (wpc s) (kpc s)" by (intro not_virgin(1) [of _ i]) (simp add: excl_states_def)
  with w_spawn assms(1) show ?thesis
    by (auto simp: proto_inv_def intro: lock_ok_worker(1) wait_ok_worker(1) flag_ok_worker(1))
next
  case w_done
  with assms(1) show ?thesis
    by (auto simp: proto_inv_def pc_sets intro: lock_ok_writer(1) wait_ok_writer(3) flag_ok_writer(1))
qed

lemma proto_inv_worker:
  assumes "proto_inv K s" "worker_step k s t"
  shows "proto_inv K t"
proof -
  have "kpc s k \<notin> {KUnstarted, KExited}" using assms(2) by (cases rule: worker_step.cases) simp_all
  then have v: "\<not> virgin (wpc s) (kpc s)" by (rule not_virgin(2))
  have out: "\<forall>j. j \<notin> K \<longrightarrow> kpc t j = KExited"
    using assms(2,1) by (cases rule: worker_step.cases) (auto simp: proto_inv_def)
  show ?thesis
    using assms(2,1)
  proof (cases rule: worker_step.cases)
    case k_sleep
    with assms(1) have False using flag_ok_checking unfolding proto_inv_def by blast
    then show ?thesis ..
  next
    case k_lock
    with assms(1) v out show ?thesis
      by (auto simp: proto_inv_def intro: lock_ok_worker(2) wait_ok_worker(1) flag_ok_worker(1))
  next
    case k_pass
    with assms(1) v out show ?thesis
      by (auto simp: proto_inv_def intro: lock_ok_worker(3) wait_ok_worker(1) flag_ok_worker(1))
  next
    case k_shared
    with assms(1) v out show ?thesis
      by (auto simp: proto_inv_def intro: lock_ok_worker(1) wait_ok_worker(2) flag_ok_worker(1))
  qed (use v out in \<open>auto simp: proto_inv_def intro: lock_ok_worker(1) wait_ok_worker(1,3) flag_ok_worker(1)\<close>)
qed

lemma proto_reach_inv: "proto_reach K s \<Longrightarrow> proto_inv K s"
proof (induction rule: proto_reach.induct)
  case (proto_start p h)
  then show ?case
    by (simp add: proto_inv_def proto_init_def pc_sets lock_ok_def wait_ok_def flag_ok_def virgin_def)
next
  case (proto_more s t)
  then show ?case unfolding proto_step_def using proto_inv_writer proto_inv_worker by blast
next
  case (proto_handles s h)
  then show ?case by (simp add: proto_inv_def)
qed

section \<open>Safety and progress\<close>

text \<open>
  C18: in every interleaving, a writer that edits the arrays does so alone: no other writer edits and
  no worker is between taking and releasing the shared lock, so no array changes while it is waited
  on; and no worker ever goes to sleep on \<open>pending_writer_cv\<close>, so a writer that returns without
  notifying it (\<open>remove_handle\<close> of an unknown handle) leaves no worker behind.
\<close>

theorem pool_mutual_exclusion:
  assumes "proto_reach K s"
  shows "(\<forall>i j. wpc s i \<in> {WEditing, WNotified} \<and> wpc s j \<in> {WEditing, WNotified} \<longrightarrow> i = j)
    \<and> (\<forall>i k. wpc s i \<in> {WEditing, WNotified} \<longrightarrow> kpc s k \<noteq> KWaiting)
    \<and> (\<forall>k. kpc s k \<noteq> KSleeping)"
proof (intro conjI allI impI)
  have inv: "wait_ok (wait_excl s) (wait_shared s) (wpc s) (kpc s)"
    "flag_ok (pending_writer s) (spin_signalled s) (wpc s) (kpc s)"
    using proto_reach_inv [OF assms] by (simp_all add: proto_inv_def)
  have editing: "wait_excl s = Some i" if "wpc s i \<in> {WEditing, WNotified}" for i
    using inv(1) that by (auto simp: wait_ok_def excl_states_def)
  fix i j
  show "wpc s i \<in> {WEditing, WNotified} \<and> wpc s j \<in> {WEditing, WNotified} \<Longrightarrow> i = j" using editing [of i] editing [of j] by simp
  show "wpc s i \<in> {WEditing, WNotified} \<Longrightarrow> kpc s j \<noteq> KWaiting"
    using editing inv(1) by (fastforce simp: wait_ok_def)
  show "kpc s j \<noteq> KSleeping" using inv(2) by (simp add: flag_ok_def)
qed

text \<open>A run of writer \<open>0\<close> alone, up to the point where it edits the arrays.\<close>

definition run_to_pending :: "proto \<Rightarrow> proto" where
  "run_to_pending s = s\<lparr>pending_writer_lock := Some (Writer 0), pending_writer := True, spin_signalled := True,
     wpc := (wpc s)(0 := WPending)\<rparr>"

definition run_to_editing :: "proto \<Rightarrow> proto" where
  "run_to_editing s = s\<lparr>wait_excl := Some 0, spin_signalled := False, pending_writer := False, pending_writer_lock := None,
     wpc := (wpc s)(0 := WEditing)\<rparr>"

lemma reach_writer: "writer_step i s t \<Longrightarrow> proto_reach K s \<Longrightarrow> proto_reach K t"
  by (rule proto_more) (auto simp: proto_step_def)

lemma reach_worker: "worker_step k s t \<Longrightarrow> proto_reach K s \<Longrightarrow> proto_reach K t"
  by (rule proto_more) (auto simp: proto_step_def)

lemma reach_pending:
  assumes "proto_reach K s" "pending_writer_lock s = None" "wpc s 0 = WIdle"
  shows "proto_reach K (run_to_pending s)"
  using reach_writer [OF w_signal [of _ 0] reach_writer [OF w_flag [of _ 0] reach_writer [OF w_lock [of _ 0] assms(1)]]] assms(2,3)
  by (simp add: run_to_pending_def)

lemma reach_editing:
  assumes "proto_reach K s" "pending_writer_lock s = None" "wpc s 0 = WIdle" "wait_excl s = None" "wait_shared s = {}"
  shows "proto_reach K (run_to_editing s)"
  using reach_writer [OF w_unlock [of _ 0] reach_writer [OF w_clear [of _ 0]
      reach_writer [OF w_reset [of _ 0] reach_writer [OF w_exclusive [of _ 0] reach_pending [OF assms(1-3)]]]]] assms(2-5)
  by (simp add: run_to_editing_def run_to_pending_def)

theorem pool_mutual_exclusion_witness:
  "let s = run_to_editing (proto_init {3} True (\<lambda>_. AllQuiet)) in wpc s 0 = WEditing \<and> wpc s 1 \<noteq> WEditing \<and> kpc s 3 \<noteq> KWaiting"
proof -
  have r: "proto_reach {3} (run_to_editing (proto_init {3} True (\<lambda>_. AllQuiet)))"
    by (rule reach_editing [OF proto_start]) (simp_all add: proto_init_def)
  have "wpc (run_to_editing (proto_init {3} True (\<lambda>_. AllQuiet))) 0 = WEditing" by (simp add: run_to_editing_def)
  with pool_mutual_exclusion [OF r] show ?thesis unfolding Let_def by (metis zero_neq_one insertI1)
qed

text \<open>
  The steps of all threads but writer \<open>i\<close>, with the handles in any state; and how many of them there can be while it waits.
\<close>

definition rival_step :: "nat \<Rightarrow> proto \<Rightarrow> proto \<Rightarrow> bool" where
  "rival_step i s t \<longleftrightarrow> (\<exists>h. (\<exists>j. j \<noteq> i \<and> writer_step j (s\<lparr>ready := h\<rparr>) t) \<or> (\<exists>k. worker_step k (s\<lparr>ready := h\<rparr>) t))"

text \<open>No thread that holds \<open>wait_lock\<close> can take a step, the handles being as they are.\<close>

definition holders_stuck :: "proto \<Rightarrow> bool" where
  "holders_stuck s \<longleftrightarrow> (\<forall>j t. wait_excl s = Some j \<longrightarrow> \<not> writer_step j s t) \<and> (\<forall>k t. k \<in> wait_shared s \<longrightarrow> \<not> worker_step k s t)"

fun worker_left :: "worker_pc \<Rightarrow> nat" where
  "worker_left KUnstarted = 5" | "worker_left KAcquire = 4" | "worker_left KWaiting = 3" | "worker_left KCallback = 2"
| "worker_left KTop = 1" | "worker_left _ = 0"

fun writer_left :: "writer_pc \<Rightarrow> nat" where
  "writer_left WEditing = 2" | "writer_left WNotified = 1" | "writer_left _ = 0"

definition rivals_left :: "nat set \<Rightarrow> proto \<Rightarrow> nat" where
  "rivals_left K s = (\<Sum>k\<in>K. worker_left (kpc s k)) + (case wait_excl s of None \<Rightarrow> 0 | Some j \<Rightarrow> writer_left (wpc s j))"

lemma sum_worker_left:
  assumes "finite K" "k \<in> K" "worker_left pc < worker_left (kp k)"
  shows "(\<Sum>j\<in>K. worker_left ((kp(k := pc)) j)) < (\<Sum>j\<in>K. worker_left (kp j))"
proof -
  have "(\<Sum>j\<in>K - {k}. worker_left ((kp(k := pc)) j)) = (\<Sum>j\<in>K - {k}. worker_left (kp j))" by (rule sum.cong) auto
  with assms(3) show ?thesis by (simp only: sum.remove [OF assms(1,2)] fun_upd_same)
qed

text \<open>While a writer waits for \<open>wait_lock\<close>, the only other writer that is not idle is the one that edits.\<close>

lemma pendingD:
  assumes "proto_inv K s" "wpc s i = WPending"
  shows "pending_writer_lock s = Some (Writer i)" "pending_writer s" "spin_signalled s" "kpc s k \<noteq> KChecking"
    "j \<noteq> i \<Longrightarrow> wpc s j \<in> {WIdle, WEditing, WNotified}"
proof -
  have l: "lock_ok (pending_writer_lock s) (wpc s) (kpc s)" and w: "wpc s i \<in> lock_states"
    using assms by (simp_all add: proto_inv_def lock_states_def)
  then show "pending_writer_lock s = Some (Writer i)" by (simp add: lock_ok_def)
  show "pending_writer s" "spin_signalled s" using assms by (auto simp: proto_inv_def flag_ok_def flag_states_def)
  show "kpc s k \<noteq> KChecking" by (rule lock_ok_exclusive [OF l w])
  show "wpc s j \<in> {WIdle, WEditing, WNotified}" if "j \<noteq> i"
    using lock_ok_unique [OF l w, of j] that by (cases "wpc s j") (auto simp: lock_states_def)
qed

lemma rival_writer:
  assumes "finite K" "proto_inv K s" "wpc s i = WPending" "j \<noteq> i" "writer_step j s t"
  shows "rivals_left K t < rivals_left K s \<and> wpc t i = WPending"
proof -
  note p = pendingD [OF assms(2,3)]
  have ex: "wpc s j \<in> excl_states \<longleftrightarrow> wait_excl s = Some j" using assms(2) by (simp add: proto_inv_def wait_ok_def)
  have sleep: "kpc s k \<noteq> KSleeping" for k using assms(2) by (simp add: proto_inv_def flag_ok_def)
  from assms(5) show ?thesis
  proof (cases rule: writer_step.cases)
    case (w_spawn k)
    then have k: "k \<in> K" using assms(2) by (auto simp: proto_inv_def)
    have "worker_left KTop < worker_left (kpc s k)" using w_spawn by simp
    from sum_worker_left [where kp = "kpc s", OF assms(1) k this] w_spawn(1) assms(3) show ?thesis
      by (simp add: rivals_left_def split: option.split)
  qed (use p(1) p(5) [OF assms(4)] ex assms(3,4) sleep in \<open>auto simp: rivals_left_def excl_states_def\<close>)
qed

lemma rival_worker:
  assumes "finite K" "proto_inv K s" "wpc s i = WPending" "worker_step k s t"
  shows "rivals_left K t < rivals_left K s \<and> wpc t i = WPending"
proof -
  note p = pendingD [OF assms(2,3)]
  have "kpc s k \<noteq> KExited" using assms(4) by (cases rule: worker_step.cases) simp_all
  then have k: "k \<in> K" using assms(2) by (auto simp: proto_inv_def)
  obtain pc where pc: "kpc t = (kpc s)(k := pc)" "worker_left pc < worker_left (kpc s k)" "wpc t = wpc s" "wait_excl t = wait_excl s"
    using assms(4) p(1,2,4) by (cases rule: worker_step.cases) auto
  from sum_worker_left [where kp = "kpc s", OF assms(1) k pc(2)] pc assms(3) show ?thesis
    by (simp add: rivals_left_def split: option.split)
qed

lemma rival_steps:
  assumes "finite K" "proto_reach K s" "wpc s i = WPending" "(rival_step i ^^ n) s t"
  shows "n + rivals_left K t \<le> rivals_left K s \<and> proto_reach K t \<and> wpc t i = WPending"
  using assms(4)
proof (induction n arbitrary: t)
  case 0
  then show ?case using assms by simp
next
  case (Suc n)
  then obtain u where u: "(rival_step i ^^ n) s u" "rival_step i u t" by auto
  with Suc.IH have ih: "n + rivals_left K u \<le> rivals_left K s" "proto_reach K u" "wpc u i = WPending" by auto
  from u(2) obtain h where h: "(\<exists>j. j \<noteq> i \<and> writer_step j (u\<lparr>ready := h\<rparr>) t) \<or> (\<exists>k. worker_step k (u\<lparr>ready := h\<rparr>) t)"
    unfolding rival_step_def by blast
  have r: "proto_reach K (u\<lparr>ready := h\<rparr>)" and w: "wpc (u\<lparr>ready := h\<rparr>) i = WPending"
    using proto_handles [OF ih(2)] ih(3) by simp_all
  note inv = proto_reach_inv [OF r]
  have "rivals_left K t < rivals_left K (u\<lparr>ready := h\<rparr>) \<and> wpc t i = WPending"
    using h
  proof
    assume "\<exists>j. j \<noteq> i \<and> writer_step j (u\<lparr>ready := h\<rparr>) t"
    then show ?thesis using rival_writer [OF assms(1) inv w] by blast
  next
    assume "\<exists>k. worker_step k (u\<lparr>ready := h\<rparr>) t"
    then show ?thesis using rival_worker [OF assms(1) inv w] by blast
  qed
  moreover have "rivals_left K (u\<lparr>ready := h\<rparr>) = rivals_left K u"
    by (simp add: rivals_left_def split: option.split)
  moreover have "proto_reach K t" using h reach_writer [OF _ r] reach_worker [OF _ r] by blast
  ultimately show ?case using ih(1) by linarith
qed

text \<open>A thread that holds \<open>wait_lock\<close> while a writer waits for it can always go on.\<close>

lemma holders_free:
  assumes "proto_reach K s" "wpc s i = WPending" "holders_stuck s"
  shows "wait_excl s = None \<and> wait_shared s = {}"
proof -
  have inv: "proto_inv K s" by (rule proto_reach_inv [OF assms(1)])
  note p = pendingD [OF inv assms(2)]
  have ok: "wait_ok (wait_excl s) (wait_shared s) (wpc s) (kpc s)" using inv by (simp add: proto_inv_def)
  have "wait_excl s \<noteq> Some j" for j
  proof
    assume j: "wait_excl s = Some j"
    then have e: "wpc s j \<in> excl_states" using ok by (simp add: wait_ok_def)
    with assms(2) have "j \<noteq> i" by (auto simp: excl_states_def)
    with p(5) e have "wpc s j = WEditing \<or> wpc s j = WNotified" by (force simp: excl_states_def)
    from w_done [OF this] assms(3) j show False by (auto simp: holders_stuck_def)
  qed
  moreover have "k \<notin> wait_shared s" for k
  proof
    assume k: "k \<in> wait_shared s"
    then have "kpc s k = KWaiting" using ok by (simp add: wait_ok_def)
    then obtain t where "worker_step k s t" using k_spin [of s k] k_exit [of s k] p(3) by blast
    with k assms(3) show False by (auto simp: holders_stuck_def)
  qed
  ultimately show ?thesis by auto
qed

text \<open>
  C19: a waiting writer is served. Once a writer has raised the flag and signalled \<open>spin_workers\<close> and waits for \<open>wait_lock\<close>, all
  other threads together (workers, and the writer that may still be editing) take at most \<open>rivals_left K s\<close> more steps, however
  they interleave and whatever the handles do, and it stays first in line; and as long as it cannot take the lock, some thread that holds
  the lock has a step to take, even if no handle is ever signalled: a worker that waits is woken by \<open>spin_workers\<close> and lets go of the
  lock, and it cannot come back before the writer has had it. So the lock can be taken at the latest when the holders can do no more.
\<close>

theorem pending_writer_progress:
  assumes "finite K" "proto_reach K s" "wpc s i = WPending" "(rival_step i ^^ n) s t"
  shows "n + rivals_left K t \<le> rivals_left K s \<and> wpc t i = WPending
    \<and> (holders_stuck t \<longrightarrow> writer_step i t (t\<lparr>wait_excl := Some i, wpc := (wpc t)(i := WExclusive)\<rparr>))"
proof -
  note r = rival_steps [OF assms]
  then have "writer_step i t (t\<lparr>wait_excl := Some i, wpc := (wpc t)(i := WExclusive)\<rparr>)" if "holders_stuck t"
    using holders_free [of K t i] that by (intro w_exclusive) auto
  with r show ?thesis by blast
qed

text \<open>
  Writer 1 has started worker 3, which waits for handles of which none is signalled; writer 0 comes, and the worker lets go.
\<close>

definition worker_waits :: proto where
  "worker_waits = \<lparr>pending_writer = False, pending_writer_lock = None, wait_excl = None, wait_shared = {3}, spin_signalled = False,
     ready = (\<lambda>_. AllQuiet), wpc = (\<lambda>_. WIdle), kpc = (\<lambda>k. if k = 3 then KWaiting else KExited)\<rparr>"

lemma reach_worker_waits: "proto_reach {3} worker_waits"
proof -
  let ?i = "proto_init {3} True (\<lambda>_. AllQuiet)"
  have e: "proto_reach {3} (run_to_editing ?i)" by (rule reach_editing [OF proto_start]) (simp_all add: proto_init_def)
  have "proto_reach {3} ((run_to_editing ?i)\<lparr>wpc := (\<lambda>_. WIdle), wait_excl := None, kpc := (\<lambda>k. if k = 3 then KTop else KExited)\<rparr>)"
    using reach_writer [OF w_done [of _ 0] reach_writer [OF w_spawn [of _ 0 3] reach_writer [OF w_notify [of _ 0] e]]]
    by (simp add: run_to_editing_def proto_init_def fun_upd_def cong: if_cong)
  from reach_worker [OF k_shared [of _ 3] reach_worker [OF k_free [of _ 3] this]]
  show ?thesis by (simp add: worker_waits_def run_to_editing_def proto_init_def fun_upd_def cong: if_cong)
qed

theorem pending_writer_progress_witness:
  "let s = run_to_pending worker_waits; t = s\<lparr>wait_shared := {}, kpc := (kpc s)(3 := KTop)\<rparr> in
     rivals_left {3} s = 3 \<and> 1 + rivals_left {3} t \<le> rivals_left {3} s
     \<and> writer_step 0 t (t\<lparr>wait_excl := Some 0, wpc := (wpc t)(0 := WExclusive)\<rparr>)"
proof -
  let ?s = "run_to_pending worker_waits"
  let ?t = "?s\<lparr>wait_shared := {}, kpc := (kpc ?s)(3 := KTop)\<rparr>"
  have r: "proto_reach {3} ?s" by (rule reach_pending [OF reach_worker_waits]) (simp_all add: worker_waits_def)
  have p: "wpc ?s 0 = WPending" by (simp add: run_to_pending_def)
  have "worker_step 3 (?s\<lparr>ready := ready ?s\<rparr>) ?t"
    using k_spin [of ?s 3] by (simp add: run_to_pending_def worker_waits_def)
  then have "rival_step 0 ?s ?t" unfolding rival_step_def by blast
  then have "(rival_step 0 ^^ 1) ?s ?t" by (simp only: relpowp_1)
  note w = pending_writer_progress [OF _ r p this]
  have "holders_stuck ?t" by (simp add: holders_stuck_def run_to_pending_def worker_waits_def)
  with w show ?thesis by (simp add: Let_def) (simp add: rivals_left_def run_to_pending_def worker_waits_def)
qed

end
