(* ===== verification/Messages.thy ===== *)
theory Messages
  imports Address
begin

text \<open>
  The messages of the program, on both sides: the packets peers exchange, with the field layout that
  \<^verbatim>\<open>src/src/Messages.hpp\<close> documents for each message identifier (\<open>well_formed_msg\<close>), and the messages
  delivered to the application's message handler (\<open>dpnmsg\<close>, the \<^verbatim>\<open>DPNMSG_*\<close> structures of
  \<^verbatim>\<open>src/include/dplay8.h\<close>; their constant \<^verbatim>\<open>dwSize\<close> is left out). Pointers the application owns
  (contexts, buffers it wants back) are natural numbers, 0 for a null pointer.
\<close>

section \<open>Packets between peers\<close>

definition DPLITE_MSGID_HOST_ENUM_REQUEST :: dword where "DPLITE_MSGID_HOST_ENUM_REQUEST = 1"
definition DPLITE_MSGID_HOST_ENUM_RESPONSE :: dword where "DPLITE_MSGID_HOST_ENUM_RESPONSE = 2"
definition DPLITE_MSGID_CONNECT_HOST :: dword where "DPLITE_MSGID_CONNECT_HOST = 3"
definition DPLITE_MSGID_CONNECT_HOST_OK :: dword where "DPLITE_MSGID_CONNECT_HOST_OK = 4"
definition DPLITE_MSGID_CONNECT_HOST_FAIL :: dword where "DPLITE_MSGID_CONNECT_HOST_FAIL = 5"
definition DPLITE_MSGID_MESSAGE :: dword where "DPLITE_MSGID_MESSAGE = 6"
definition DPLITE_MSGID_PLAYERINFO :: dword where "DPLITE_MSGID_PLAYERINFO = 7"
definition DPLITE_MSGID_ACK :: dword where "DPLITE_MSGID_ACK = 8"
definition DPLITE_MSGID_APPDESC :: dword where "DPLITE_MSGID_APPDESC = 9"
definition DPLITE_MSGID_CONNECT_PEER :: dword where "DPLITE_MSGID_CONNECT_PEER = 10"
definition DPLITE_MSGID_CONNECT_PEER_OK :: dword where "DPLITE_MSGID_CONNECT_PEER_OK = 11"
definition DPLITE_MSGID_CONNECT_PEER_FAIL :: dword where "DPLITE_MSGID_CONNECT_PEER_FAIL = 12"
definition DPLITE_MSGID_DESTROY_PEER :: dword where "DPLITE_MSGID_DESTROY_PEER = 13"
definition DPLITE_MSGID_TERMINATE_SESSION :: dword where "DPLITE_MSGID_TERMINATE_SESSION = 14"
definition DPLITE_MSGID_GROUP_ALLOCATE :: dword where "DPLITE_MSGID_GROUP_ALLOCATE = 15"
definition DPLITE_MSGID_GROUP_CREATE :: dword where "DPLITE_MSGID_GROUP_CREATE = 16"
definition DPLITE_MSGID_GROUP_DESTROY :: dword where "DPLITE_MSGID_GROUP_DESTROY = 17"
definition DPLITE_MSGID_GROUP_JOIN :: dword where "DPLITE_MSGID_GROUP_JOIN = 18"
definition DPLITE_MSGID_GROUP_JOINED :: dword where "DPLITE_MSGID_GROUP_JOINED = 19"
definition DPLITE_MSGID_GROUP_LEAVE :: dword where "DPLITE_MSGID_GROUP_LEAVE = 20"
definition DPLITE_MSGID_GROUP_LEFT :: dword where "DPLITE_MSGID_GROUP_LEFT = 21"

lemmas msgid_defs =
  DPLITE_MSGID_HOST_ENUM_REQUEST_def DPLITE_MSGID_HOST_ENUM_RESPONSE_def DPLITE_MSGID_CONNECT_HOST_def
  DPLITE_MSGID_CONNECT_HOST_OK_def DPLITE_MSGID_CONNECT_HOST_FAIL_def DPLITE_MSGID_MESSAGE_def
  DPLITE_MSGID_PLAYERINFO_def DPLITE_MSGID_ACK_def DPLITE_MSGID_APPDESC_def
  DPLITE_MSGID_CONNECT_PEER_def DPLITE_MSGID_CONNECT_PEER_OK_def DPLITE_MSGID_CONNECT_PEER_FAIL_def
  DPLITE_MSGID_DESTROY_PEER_def DPLITE_MSGID_TERMINATE_SESSION_def DPLITE_MSGID_GROUP_ALLOCATE_def
  DPLITE_MSGID_GROUP_CREATE_def DPLITE_MSGID_GROUP_DESTROY_def DPLITE_MSGID_GROUP_JOIN_def
  DPLITE_MSGID_GROUP_JOINED_def DPLITE_MSGID_GROUP_LEAVE_def DPLITE_MSGID_GROUP_LEFT_def

text \<open>The kinds of field of the layouts.\<close>

fun is_FDword :: "field \<Rightarrow> bool" where "is_FDword (FDword _) = True" | "is_FDword _ = False"
fun is_FData :: "field \<Rightarrow> bool" where "is_FData (FData _) = True" | "is_FData _ = False"
fun is_FWstring :: "field \<Rightarrow> bool" where "is_FWstring (FWstring _) = True" | "is_FWstring _ = False"
fun is_FGuid :: "field \<Rightarrow> bool" where "is_FGuid (FGuid _) = True" | "is_FGuid _ = False"

definition or_null :: "(field \<Rightarrow> bool) \<Rightarrow> field \<Rightarrow> bool" where
  "or_null P f \<longleftrightarrow> f = FNull \<or> P f"

definition layout_is :: "(field \<Rightarrow> bool) list \<Rightarrow> field list \<Rightarrow> bool" where
  "layout_is Ps fs \<longleftrightarrow> list_all2 (\<lambda>P f. P f) Ps fs"

text \<open>A counter and that many groups of \<open>width\<close> integers, then the rest.\<close>

definition counted :: "nat \<Rightarrow> (field list \<Rightarrow> bool) \<Rightarrow> field list \<Rightarrow> bool" where
  "counted width rest fs =
     (case fs of
        FDword n # gs \<Rightarrow> width * unat n \<le> length gs \<and> list_all is_FDword (take (width * unat n) gs)
          \<and> rest (drop (width * unat n) gs)
      | _ \<Rightarrow> False)"

definition prefixed :: "(field \<Rightarrow> bool) list \<Rightarrow> (field list \<Rightarrow> bool) \<Rightarrow> field list \<Rightarrow> bool" where
  "prefixed Ps rest fs \<longleftrightarrow> length Ps \<le> length fs \<and> layout_is Ps (take (length Ps) fs) \<and> rest (drop (length Ps) fs)"

text \<open>The documented layout of each message.\<close>

definition well_formed_msg :: "dword \<Rightarrow> field list \<Rightarrow> bool" where
  "well_formed_msg t fs =
    (if t = DPLITE_MSGID_HOST_ENUM_REQUEST then layout_is [or_null is_FGuid, or_null is_FData, is_FDword] fs
     else if t = DPLITE_MSGID_HOST_ENUM_RESPONSE then
       layout_is [is_FDword, is_FGuid, is_FGuid, is_FDword, is_FDword, is_FWstring, or_null is_FData,
         or_null is_FData, is_FDword] fs
     else if t = DPLITE_MSGID_CONNECT_HOST then
       layout_is [or_null is_FGuid, is_FGuid, or_null is_FWstring, or_null is_FData, is_FWstring, is_FData] fs
     else if t = DPLITE_MSGID_CONNECT_HOST_OK then
       prefixed [is_FGuid, is_FDword, is_FDword]
         (counted 3 (prefixed [or_null is_FData, is_FWstring, is_FData, is_FDword, is_FWstring, is_FWstring, is_FData]
           (counted 1 (\<lambda>r. r = [])))) fs
     else if t = DPLITE_MSGID_CONNECT_HOST_FAIL then layout_is [is_FDword, or_null is_FData] fs
     else if t = DPLITE_MSGID_MESSAGE then layout_is [is_FDword, is_FData, is_FDword] fs
     else if t = DPLITE_MSGID_PLAYERINFO then layout_is [is_FDword, is_FWstring, is_FData, is_FDword] fs
     else if t = DPLITE_MSGID_ACK then layout_is [is_FDword, is_FDword, is_FData] fs
     else if t = DPLITE_MSGID_APPDESC then layout_is [is_FDword, is_FWstring, is_FWstring, is_FData] fs
     else if t = DPLITE_MSGID_CONNECT_PEER then
       layout_is [is_FGuid, is_FGuid, is_FWstring, is_FDword, is_FWstring, is_FData] fs
     else if t = DPLITE_MSGID_CONNECT_PEER_OK then
       prefixed [is_FWstring, is_FData] (counted 1 (\<lambda>r. r = [])) fs
     else if t = DPLITE_MSGID_CONNECT_PEER_FAIL then layout_is [is_FDword] fs
     else if t = DPLITE_MSGID_DESTROY_PEER then layout_is [is_FDword] fs \<or> layout_is [is_FDword, is_FData] fs
     else if t = DPLITE_MSGID_TERMINATE_SESSION then layout_is [is_FData] fs
     else if t = DPLITE_MSGID_GROUP_ALLOCATE then layout_is [is_FDword] fs
     else if t = DPLITE_MSGID_GROUP_CREATE then layout_is [is_FDword, is_FWstring, is_FData] fs
     else if t = DPLITE_MSGID_GROUP_DESTROY then layout_is [is_FDword] fs
     else if t = DPLITE_MSGID_GROUP_JOIN then layout_is [is_FDword, is_FDword, is_FWstring, is_FData] fs
     else if t = DPLITE_MSGID_GROUP_JOINED then layout_is [is_FDword, is_FWstring, is_FData] fs
     else if t = DPLITE_MSGID_GROUP_LEAVE then layout_is [is_FDword, is_FDword] fs
     else if t = DPLITE_MSGID_GROUP_LEFT then layout_is [is_FDword] fs
     else False)"

lemma layout_is_simps [simp]:
  "layout_is [] fs \<longleftrightarrow> fs = []"
  "layout_is (P # Ps) (f # fs) \<longleftrightarrow> P f \<and> layout_is Ps fs"
  "\<not> layout_is (P # Ps) []"
  by (simp_all add: layout_is_def)

lemma or_null_simps [simp]: "or_null P FNull" "P f \<Longrightarrow> or_null P f"
  by (simp_all add: or_null_def)

text \<open>A packet serialised from a list of fields, as a sequence of append calls.\<close>

definition serialise :: "dword \<Rightarrow> field list \<Rightarrow> sbuf" where
  "serialise t fs = foldl append_field (PacketSerialiser t) fs"

section \<open>Messages to the application\<close>

record DPN_APPLICATION_DESC =
  ad_dwFlags :: dword
  ad_guidInstance :: guid
  ad_guidApplication :: guid
  ad_dwMaxPlayers :: dword
  ad_dwCurrentPlayers :: dword
  ad_pwszSessionName :: "wchar list option"
  ad_pwszPassword :: "wchar list option"
  ad_pvApplicationReservedData :: "byte list option"

type_synonym ctx = nat

datatype dpnmsg =
    MSG_ADD_PLAYER_TO_GROUP (dpnidGroup: dpnid) ctx (dpnidPlayer: dpnid) ctx
  | MSG_ASYNC_OP_COMPLETE (hAsyncOp: dpnhandle) ctx (hResultCode: hresult)
  | MSG_CONNECT_COMPLETE (hAsyncOp: dpnhandle) ctx (hResultCode: hresult) "byte list option" dpnid
  | MSG_CREATE_GROUP (dpnidGroup: dpnid) dpnid ctx ctx
  | MSG_CREATE_PLAYER (dpnidPlayer: dpnid) ctx
  | MSG_DESTROY_GROUP (dpnidGroup: dpnid) ctx (dwReason: dword)
  | MSG_DESTROY_PLAYER (dpnidPlayer: dpnid) ctx (dwReason: dword)
  | MSG_ENUM_HOSTS_QUERY "DirectPlay8Address option" "byte list option" dword
  | MSG_ENUM_HOSTS_RESPONSE "DirectPlay8Address option" DirectPlay8Address DPN_APPLICATION_DESC
      "byte list option" ctx dword
  | MSG_INDICATE_CONNECT "byte list option" "DirectPlay8Address option"
  | MSG_PEER_INFO (dpnidPlayer: dpnid) ctx
  | MSG_RECEIVE dpnid ctx "byte list" dword
  | MSG_REMOVE_PLAYER_FROM_GROUP (dpnidGroup: dpnid) ctx (dpnidPlayer: dpnid) ctx
  | MSG_RETURN_BUFFER (hResultCode: hresult) "byte list" ctx
  | MSG_SEND_COMPLETE (hAsyncOp: dpnhandle) ctx (hResultCode: hresult) dword
  | MSG_TERMINATE_SESSION (hResultCode: hresult) "byte list option"
  | MSG_APPLICATION_DESC

fun msgid :: "dpnmsg \<Rightarrow> dword" where
  "msgid (MSG_ADD_PLAYER_TO_GROUP _ _ _ _) = DPN_MSGID_ADD_PLAYER_TO_GROUP"
| "msgid (MSG_ASYNC_OP_COMPLETE _ _ _) = DPN_MSGID_ASYNC_OP_COMPLETE"
| "msgid (MSG_CONNECT_COMPLETE _ _ _ _ _) = DPN_MSGID_CONNECT_COMPLETE"
| "msgid (MSG_CREATE_GROUP _ _ _ _) = DPN_MSGID_CREATE_GROUP"
| "msgid (MSG_CREATE_PLAYER _ _) = DPN_MSGID_CREATE_PLAYER"
| "msgid (MSG_DESTROY_GROUP _ _ _) = DPN_MSGID_DESTROY_GROUP"
| "msgid (MSG_DESTROY_PLAYER _ _ _) = DPN_MSGID_DESTROY_PLAYER"
| "msgid (MSG_ENUM_HOSTS_QUERY _ _ _) = DPN_MSGID_ENUM_HOSTS_QUERY"
| "msgid (MSG_ENUM_HOSTS_RESPONSE _ _ _ _ _ _) = DPN_MSGID_ENUM_HOSTS_RESPONSE"
| "msgid (MSG_INDICATE_CONNECT _ _) = DPN_MSGID_INDICATE_CONNECT"
| "msgid (MSG_PEER_INFO _ _) = DPN_MSGID_PEER_INFO"
| "msgid (MSG_RECEIVE _ _ _ _) = DPN_MSGID_RECEIVE"
| "msgid (MSG_REMOVE_PLAYER_FROM_GROUP _ _ _ _) = DPN_MSGID_REMOVE_PLAYER_FROM_GROUP"
| "msgid (MSG_RETURN_BUFFER _ _ _) = DPN_MSGID_RETURN_BUFFER"
| "msgid (MSG_SEND_COMPLETE _ _ _ _) = DPN_MSGID_SEND_COMPLETE"
| "msgid (MSG_TERMINATE_SESSION _ _) = DPN_MSGID_TERMINATE_SESSION"
| "msgid MSG_APPLICATION_DESC = DPN_MSGID_APPLICATION_DESC"

text \<open>
  What the application's handler leaves behind: the return value, the contents of the context field
  of the message (player or group context), the reply data it points to and its context.
\<close>

record app_reply =
  r_result :: hresult
  r_context :: ctx
  r_data :: "byte list"
  r_data_context :: ctx

end
