(* ===== verification/HostEnum.thy ===== *)
theory HostEnum
  imports Messages
begin

text \<open>
  The host enumerator of \<^verbatim>\<open>src/src/HostEnumerator.hpp\<close> and \<^verbatim>\<open>.cpp\<close>: the constructor with every
  exception it throws, one turn of the loop of its thread, and the handling of a response. Time is
  the 32-bit tick count of Windows, which wraps.

  The address parser of Windows (\<^verbatim>\<open>InetPtonW\<close>) is the parameter \<open>inet_pton\<close>; the creation of the
  socket and of the event are outcomes given to the constructor. A name that is not terminated
  inside the buffer it was copied to makes the parser read uninitialised memory; this is the error
  \<open>Undefined\<close>.
\<close>

section \<open>Data\<close>

definition DISCOVERY_PORT :: "16 word" where "DISCOVERY_PORT = 6073"
definition DEFAULT_ENUM_COUNT :: dword where "DEFAULT_ENUM_COUNT = 5"
definition DEFAULT_ENUM_INTERVAL :: dword where "DEFAULT_ENUM_INTERVAL = 1500"
definition DEFAULT_ENUM_TIMEOUT :: dword where "DEFAULT_ENUM_TIMEOUT = 1500"
definition INADDR_BROADCAST :: dword where "INADDR_BROADCAST = 0xFFFFFFFF"
definition GUID_NULL :: guid where "GUID_NULL = 0"

lemmas [const_defs] = DISCOVERY_PORT_def DEFAULT_ENUM_COUNT_def DEFAULT_ENUM_INTERVAL_def
  DEFAULT_ENUM_TIMEOUT_def INADDR_BROADCAST_def

record HostEnumerator =
  he_service_provider :: guid
  send_addr :: sockaddr_in
  he_application_guid :: guid
  he_user_data :: "byte list"
  tx_remain :: dword
  tx_interval :: dword
  rx_timeout :: dword
  user_context :: ctx
  next_tx_at :: dword
  stop_at :: dword
  req_cancel :: bool

datatype enum_error = COMAPIException hresult | enum_runtime_error | Undefined

section \<open>Construction\<close>

definition htonl :: "dword \<Rightarrow> dword" where "htonl = ntohl"
definition htons :: "16 word \<Rightarrow> 16 word" where "htons = ntohs"

text \<open>A wide string in a buffer: the characters before the terminator, \<open>None\<close> without one.\<close>

definition c_string :: "wchar list \<Rightarrow> wchar list option" where
  "c_string buf = (if 0 \<in> set buf then Some (takeWhile (\<lambda>c. c \<noteq> 0) buf) else None)"

text \<open>
  \<^verbatim>\<open>swscanf\<close> with the format \<^verbatim>\<open>00000000,0000%08X\<close>: the literal prefix, then at most eight characters
  of a hexadecimal number with optional white space, sign and \<^verbatim>\<open>0x\<close>.
\<close>

definition hex_value :: "wchar \<Rightarrow> nat option" where
  "hex_value c =
     (if 48 \<le> c \<and> c \<le> 57 then Some (unat c - 48)
      else if 65 \<le> c \<and> c \<le> 70 then Some (unat c - 55)
      else if 97 \<le> c \<and> c \<le> 102 then Some (unat c - 87)
      else None)"

definition is_space :: "wchar \<Rightarrow> bool" where
  "is_space c \<longleftrightarrow> c = 32 \<or> (9 \<le> c \<and> c \<le> 13)"

definition scan_hex :: "nat \<Rightarrow> wchar list \<Rightarrow> dword option" where
  "scan_hex width s =
     (let s1 = take width (dropWhile is_space s);
          (neg, s2) = (case s1 of c # cs \<Rightarrow> if c = 45 then (True, cs) else if c = 43 then (False, cs) else (False, s1)
            | [] \<Rightarrow> (False, []));
          s3 = (if take 2 s2 = wide ''0x'' \<or> take 2 s2 = wide ''0X'' then drop 2 s2 else s2);
          ds = takeWhile (\<lambda>c. hex_value c \<noteq> None) s3;
          v = foldl (\<lambda>a c. 16 * a + the (hex_value c)) 0 ds
      in if ds = [] then None else Some (if neg then - word_of_nat v else word_of_nat v))"

definition scan_ipx :: "wchar list \<Rightarrow> dword option" where
  "scan_ipx s =
     (if take 13 s = wide ''00000000,0000'' then scan_hex 8 (drop 13 s) else None)"

text \<open>The host name component, which overrides the broadcast address.\<close>

definition enum_host_addr ::
  "(wchar list \<Rightarrow> dword option) \<Rightarrow> guid \<Rightarrow> DirectPlay8Address \<Rightarrow> dword \<Rightarrow> enum_error + dword" where
  "enum_host_addr inet_pton host_sp host addr =
     (let (res, bytes, _, ty) = GetComponentByName DPNA_KEY_HOSTNAME True 256 0 host
      in if res \<noteq> S_OK then Inr addr
         else if ty \<noteq> DPNA_DATATYPE_STRING then Inl (COMAPIException DPNERR_INVALIDHOSTADDRESS)
         else case c_string (wstring_of_bytes (the bytes)) of
           None \<Rightarrow> Inl Undefined
         | Some name \<Rightarrow>
             if host_sp = CLSID_DP8SP_TCPIP then
               (case inet_pton name of
                  Some a \<Rightarrow> Inr a
                | None \<Rightarrow> Inl (COMAPIException DPNERR_INVALIDHOSTADDRESS))
             else if host_sp = CLSID_DP8SP_IPX then
               (case scan_ipx name of
                  Some ip \<Rightarrow> Inr (htonl ip)
                | None \<Rightarrow> Inl (COMAPIException DPNERR_INVALIDHOSTADDRESS))
             else Inr addr)"

text \<open>The port component, which overrides the discovery port.\<close>

definition enum_host_port :: "DirectPlay8Address \<Rightarrow> 16 word \<Rightarrow> enum_error + 16 word" where
  "enum_host_port host port =
     (let (res, bytes, _, ty) = GetComponentByName DPNA_KEY_PORT True 4 0 host
      in if res \<noteq> S_OK then Inr port
         else if ty \<noteq> DPNA_DATATYPE_DWORD \<or> de32 (the bytes) > 65535
         then Inl (COMAPIException DPNERR_INVALIDHOSTADDRESS)
         else Inr (htons (ucast (de32 (the bytes)))))"

definition enum_target ::
  "(wchar list \<Rightarrow> dword option) \<Rightarrow> guid \<Rightarrow> DirectPlay8Address option \<Rightarrow> enum_error + sockaddr_in" where
  "enum_target inet_pton sp host =
     (let addr = htonl INADDR_BROADCAST; port = htons DISCOVERY_PORT in
      case host of
        None \<Rightarrow> Inr \<lparr>sin_addr = addr, sin_port = port\<rparr>
      | Some h \<Rightarrow>
          (case GetSP h of
             (res, Some host_sp) \<Rightarrow>
               if host_sp \<noteq> sp then Inl (COMAPIException DPNERR_INVALIDPARAM)
               else ebind (enum_host_addr inet_pton host_sp h addr) (\<lambda>a.
                 ebind (enum_host_port h port) (\<lambda>p. Inr \<lparr>sin_addr = a, sin_port = p\<rparr>))
           | (res, None) \<Rightarrow> Inl (COMAPIException DPNERR_INVALIDHOSTADDRESS)))"

text \<open>
  \<open>uninit\<close> is the content of \<open>stop_at\<close>, which the constructor does not set; \<open>sockets_ok\<close> whether the
  socket, the event and their association could be created.
\<close>

definition new_HostEnumerator ::
  "(wchar list \<Rightarrow> dword option) \<Rightarrow> dword \<Rightarrow> bool \<Rightarrow> guid option \<Rightarrow> DirectPlay8Address option \<Rightarrow>
     DirectPlay8Address option \<Rightarrow> byte list \<Rightarrow> dword \<Rightarrow> dword \<Rightarrow> dword \<Rightarrow> ctx \<Rightarrow>
     enum_error + HostEnumerator" where
  "new_HostEnumerator inet_pton uninit sockets_ok app host device udata dwEnumCount dwRetryInterval dwTimeOut uctx =
     (case device of
        None \<Rightarrow> Inl (COMAPIException DPNERR_INVALIDPARAM)
      | Some dev \<Rightarrow>
          (case GetSP dev of
             (res, None) \<Rightarrow> Inl (COMAPIException DPNERR_INVALIDDEVICEADDRESS)
           | (res, Some sp) \<Rightarrow>
               ebind (enum_target inet_pton sp host) (\<lambda>target.
                 if sockets_ok then
                   Inr \<lparr>he_service_provider = sp, send_addr = target,
                     he_application_guid = (case app of Some g \<Rightarrow> g | None \<Rightarrow> GUID_NULL),
                     he_user_data = udata,
                     tx_remain = (if dwEnumCount = 0 then DEFAULT_ENUM_COUNT else dwEnumCount),
                     tx_interval = (if dwRetryInterval = 0 then DEFAULT_ENUM_INTERVAL else dwRetryInterval),
                     rx_timeout = (if dwTimeOut = 0 then DEFAULT_ENUM_TIMEOUT else dwTimeOut),
                     user_context = uctx, next_tx_at = 0, stop_at = uninit, req_cancel = False\<rparr>
                 else Inl enum_runtime_error)))"

section \<open>The loop of the thread\<close>

definition enum_request :: "dword \<Rightarrow> HostEnumerator \<Rightarrow> sbuf" where
  "enum_request now e =
     append_dword
       ((\<lambda>ps. if he_user_data e \<noteq> [] then append_data ps (he_user_data e) else append_null ps)
         ((\<lambda>ps. if he_application_guid e \<noteq> GUID_NULL then append_guid ps (he_application_guid e) else append_null ps)
           (PacketSerialiser DPLITE_MSGID_HOST_ENUM_REQUEST)))
       now"

text \<open>The transmission at the start of a turn: the packet and destination, if one is due.\<close>

definition enum_transmit :: "dword \<Rightarrow> HostEnumerator \<Rightarrow> (sbuf \<times> sockaddr_in) option \<times> HostEnumerator" where
  "enum_transmit now e =
     (if tx_remain e > 0 \<and> now \<ge> next_tx_at e then
        (Some (enum_request now e, send_addr e),
         e\<lparr>next_tx_at := now + tx_interval e, tx_remain := tx_remain e - 1,
           stop_at := (if rx_timeout e \<noteq> INFINITE then now + rx_timeout e else stop_at e)\<rparr>)
      else (None, e))"

datatype enum_turn_result = EnumStop | EnumWait dword

text \<open>The end of a turn: leave the loop, or wait with a timeout.\<close>

definition enum_timeout :: "dword \<Rightarrow> HostEnumerator \<Rightarrow> enum_turn_result" where
  "enum_timeout now e =
     (if tx_remain e = 0 \<and> stop_at e > 0 \<and> now \<ge> stop_at e then EnumStop
      else
        let t0 = INFINITE;
            t1 = (if tx_remain e > 0 then min (next_tx_at e - now) t0 else t0);
            t2 = (if stop_at e > 0 then min (stop_at e - now) t1 else t1)
        in EnumWait t2)"

definition enum_turn ::
  "dword \<Rightarrow> HostEnumerator \<Rightarrow> (sbuf \<times> sockaddr_in) option \<times> enum_turn_result \<times> HostEnumerator" where
  "enum_turn now e = (let (p, e') = enum_transmit now e in (p, enum_timeout now e', e'))"

definition enum_cancel :: "HostEnumerator \<Rightarrow> HostEnumerator" where
  "enum_cancel e = e\<lparr>req_cancel := True\<rparr>"

text \<open>
  The loop over the turns of the thread, until it stops. A turn is the tick count the thread reads and
  whether \<^verbatim>\<open>cancel\<close> is called before the turn ends. The results are the transmissions, with their times,
  and what the completion callback gets (\<open>None\<close> if the loop is still running).
\<close>

definition enum_complete :: "HostEnumerator \<Rightarrow> hresult" where
  "enum_complete e = (if req_cancel e then DPNERR_USERCANCEL else S_OK)"

fun enum_main ::
  "(dword \<times> bool) list \<Rightarrow> HostEnumerator \<Rightarrow>
     (dword \<times> sbuf \<times> sockaddr_in) list \<times> hresult option \<times> HostEnumerator" where
  "enum_main [] e = ([], if req_cancel e then Some (enum_complete e) else None, e)"
| "enum_main ((now, c) # turns) e =
     (if req_cancel e then ([], Some (enum_complete e), e)
      else
        let (p, r, e1) = enum_turn now e;
            e2 = (if c then enum_cancel e1 else e1);
            tx = (case p of Some q \<Rightarrow> [(now, q)] | None \<Rightarrow> [])
        in case r of
             EnumStop \<Rightarrow> (tx, Some (enum_complete e2), e2)
           | EnumWait _ \<Rightarrow> (let (txs, res, e') = enum_main turns e2 in (tx @ txs, res, e')))"

section \<open>Responses\<close>

definition optional_data :: "pd \<Rightarrow> nat \<Rightarrow> pd_error + byte list option" where
  "optional_data p i = ebind (is_null p i) (\<lambda>null. if null then Inr None else ebind (get_data p i) (\<lambda>d. Inr (Some d)))"

definition parse_response :: "pd \<Rightarrow> pd_error + DPN_APPLICATION_DESC \<times> byte list option \<times> dword" where
  "parse_response p =
     ebind (get_dword p 0) (\<lambda>flags.
     ebind (get_guid p 1) (\<lambda>inst.
     ebind (get_guid p 2) (\<lambda>app.
     ebind (get_dword p 3) (\<lambda>maxp.
     ebind (get_dword p 4) (\<lambda>cur.
     ebind (get_wstring p 5) (\<lambda>name.
     ebind (optional_data p 6) (\<lambda>reserved.
     ebind (optional_data p 7) (\<lambda>response.
     ebind (get_dword p 8) (\<lambda>tick.
       Inr (\<lparr>ad_dwFlags = flags, ad_guidInstance = inst, ad_guidApplication = app, ad_dwMaxPlayers = maxp,
          ad_dwCurrentPlayers = cur, ad_pwszSessionName = Some name, ad_pwszPassword = None,
          ad_pvApplicationReservedData = reserved\<rparr>, response, tick))))))))))"

text \<open>
  The message for the application, \<open>None\<close> for a packet that is ignored. \<open>now\<close> is the tick count after
  the packet was parsed, \<open>p\<close> the deserialised packet, an error of the constructor on the left.
\<close>

definition he_handle_packet ::
  "mb_conv \<Rightarrow> refcounter \<Rightarrow> dword \<Rightarrow> pd_error + pd \<Rightarrow> sockaddr_in \<Rightarrow> HostEnumerator \<Rightarrow> dpnmsg option" where
  "he_handle_packet mb g now r from_addr e =
     (case r of
        Inl _ \<Rightarrow> None
      | Inr p \<Rightarrow>
          if packet_type p \<noteq> Inr DPLITE_MSGID_HOST_ENUM_RESPONSE then None
          else case parse_response p of
            Inl _ \<Rightarrow> None
          | Inr (desc, response, tick) \<Rightarrow>
              let sender = map_option fst (create_host_address mb g (he_service_provider e) from_addr);
                  device = snd (SetSP mb (he_service_provider e) (fst (new_address g)))
              in Some (MSG_ENUM_HOSTS_RESPONSE sender device desc response (user_context e) (now - tick)))"


section \<open>How many requests are sent, and when\<close>

lemma enum_request_serialise:
  "enum_request now e = serialise DPLITE_MSGID_HOST_ENUM_REQUEST
     [if he_application_guid e \<noteq> GUID_NULL then FGuid (he_application_guid e) else FNull,
      if he_user_data e \<noteq> [] then FData (he_user_data e) else FNull, FDword now]"
  by (simp add: enum_request_def serialise_def)

definition enum_params :: "HostEnumerator \<Rightarrow> guid \<times> byte list \<times> sockaddr_in \<times> dword \<times> dword" where
  "enum_params e = (he_application_guid e, he_user_data e, send_addr e, tx_interval e, rx_timeout e)"

lemma enum_cancel_simps [simp]:
  "enum_params (enum_cancel e) = enum_params e" "tx_remain (enum_cancel e) = tx_remain e"
  "next_tx_at (enum_cancel e) = next_tx_at e" "req_cancel (enum_cancel e)"
  by (simp_all add: enum_cancel_def enum_params_def)

lemma enum_complete_S_OK [simp]: "enum_complete e = S_OK \<longleftrightarrow> \<not> req_cancel e"
  by (simp add: enum_complete_def const_defs)

lemma enum_transmit_cases:
  assumes "enum_transmit now e = (p, e')"
  shows "enum_params e' = enum_params e \<and>
    (if 0 < tx_remain e \<and> next_tx_at e \<le> now
     then p = Some (enum_request now e, send_addr e) \<and> unat (tx_remain e) = Suc (unat (tx_remain e'))
       \<and> next_tx_at e' = now + tx_interval e
     else p = None \<and> e' = e)"
proof (cases "0 < tx_remain e \<and> next_tx_at e \<le> now")
  case True
  then have "unat (tx_remain e - 1) = unat (tx_remain e) - 1" by (intro unat_minus_one) auto
  moreover have "0 < unat (tx_remain e)" using True by (simp add: word_less_nat_alt)
  ultimately show ?thesis using assms True by (auto simp: enum_transmit_def enum_params_def)
next
  case False
  with assms show ?thesis by (auto simp: enum_transmit_def)
qed

lemma enum_request_params: "enum_params e' = enum_params e \<Longrightarrow> enum_request now e' = enum_request now e"
  by (simp add: enum_params_def enum_request_def)

lemma enum_main_budget:
  "enum_main turns e = (txs, res, e') \<Longrightarrow>
     length txs + unat (tx_remain e') = unat (tx_remain e)
     \<and> (\<forall>(t, ps, a) \<in> set txs. t \<in> fst ` set turns \<and> ps = enum_request t e \<and> a = send_addr e)
     \<and> (res = Some S_OK \<longrightarrow> tx_remain e' = 0)"
proof (induction turns arbitrary: e txs res e')
  case Nil
  then show ?case by (auto split: if_splits)
next
  case (Cons turn turns)
  obtain now c where turn: "turn = (now, c)" by (cases turn)
  obtain p e0 where t: "enum_transmit now e = (p, e0)" by fastforce
  define e1 where "e1 = (if c then enum_cancel e0 else e0)"
  note cs = enum_transmit_cases [OF t]
  then have par: "enum_params e1 = enum_params e" and rem: "tx_remain e1 = tx_remain e0"
    by (simp_all add: e1_def)
  have one: "length (case p of Some q \<Rightarrow> [(now, q)] | None \<Rightarrow> []) + unat (tx_remain e1) = unat (tx_remain e)"
    using cs rem by (auto split: if_splits)
  have sent: "p = Some q \<Longrightarrow> q = (enum_request now e, send_addr e)" for q
    using cs by (auto split: if_splits)
  show ?case
  proof (cases "req_cancel e")
    case True
    with Cons.prems turn show ?thesis by auto
  next
    case False
    show ?thesis
    proof (cases "enum_timeout now e0")
      case EnumStop
      then have "tx_remain e1 = 0" by (simp add: enum_timeout_def Let_def rem split: if_splits)
      with Cons.prems False EnumStop t one sent turn show ?thesis
        by (auto simp: enum_turn_def Let_def simp flip: e1_def split: option.splits)
    next
      case (EnumWait w)
      obtain txs' res' e2 where rec: "enum_main turns e1 = (txs', res', e2)" by (metis prod_cases3)
      from Cons.prems False EnumWait t rec turn have
        eq: "txs = (case p of Some q \<Rightarrow> [(now, q)] | None \<Rightarrow> []) @ txs'" "res = res'" "e' = e2"
        by (auto simp: enum_turn_def Let_def simp flip: e1_def)
      from Cons.IH [OF rec] one sent par eq turn show ?thesis
        by (fastforce simp: enum_params_def enum_request_params [OF par] split: option.splits)
    qed
  qed
qed

text \<open>The time at which the next transmission is due never passes unnoticed while the clock does not wrap.\<close>

lemma enum_transmit_spacing:
  assumes "enum_transmit now e = (p, e0)" "unat now + unat (tx_interval e) < 2 ^ 32"
  shows "tx_interval e0 = tx_interval e" "next_tx_at e \<le> next_tx_at e0"
    "p = Some q \<Longrightarrow> next_tx_at e \<le> now \<and> unat (next_tx_at e0) = unat now + unat (tx_interval e)"
  using enum_transmit_cases [OF assms(1)] assms(2)
  by (auto simp: enum_params_def word_le_nat_alt unat_add_small split: if_splits)

lemma enum_main_spacing:
  "enum_main turns e = (txs, res, e') \<Longrightarrow> sorted (map fst turns) \<Longrightarrow>
   \<forall>t \<in> fst ` set turns. unat t + unat (tx_interval e) < 2 ^ 32 \<Longrightarrow>
     (\<forall>t \<in> set (map fst txs). next_tx_at e \<le> t)
     \<and> sorted_wrt (\<lambda>t u. unat t + unat (tx_interval e) \<le> unat u) (map fst txs)"
proof (induction turns arbitrary: e txs res e')
  case Nil
  then show ?case by (auto split: if_splits)
next
  case (Cons turn turns)
  obtain now c where turn: "turn = (now, c)" by (cases turn)
  obtain p e0 where t: "enum_transmit now e = (p, e0)" by fastforce
  define e1 where "e1 = (if c then enum_cancel e0 else e0)"
  have now: "unat now + unat (tx_interval e) < 2 ^ 32" using turn Cons.prems(3) by simp
  have iv: "tx_interval e1 = tx_interval e" and le: "next_tx_at e \<le> next_tx_at e1"
    and due: "p = Some q \<Longrightarrow> next_tx_at e \<le> now \<and> unat (next_tx_at e1) = unat now + unat (tx_interval e)" for q
    using enum_transmit_spacing [OF t now] by (simp_all add: e1_def enum_cancel_def)
  show ?case
  proof (cases "req_cancel e \<or> enum_timeout now e0 = EnumStop")
    case True
    with Cons.prems(1) turn t due show ?thesis
      by (auto simp: enum_turn_def Let_def simp flip: e1_def split: option.splits if_splits)
  next
    case False
    then obtain w where w: "enum_timeout now e0 = EnumWait w" by (cases "enum_timeout now e0") auto
    obtain txs' res' e2 where rec: "enum_main turns e1 = (txs', res', e2)" by (metis prod_cases3)
    from Cons.prems(1) turn False w t rec have
      eq: "txs = (case p of Some q \<Rightarrow> [(now, q)] | None \<Rightarrow> []) @ txs'"
      by (auto simp: enum_turn_def Let_def simp flip: e1_def)
    from Cons.IH [OF rec] Cons.prems(2,3) iv turn
    have "\<forall>t \<in> set (map fst txs'). next_tx_at e1 \<le> t"
      and "sorted_wrt (\<lambda>t u. unat t + unat (tx_interval e) \<le> unat u) (map fst txs')"
      by auto
    with le due eq show ?thesis
      by (cases p) (auto simp: word_le_nat_alt intro: order_trans)
  qed
qed

text \<open>
  C39: the enumerator sends at most as many requests as were asked for, whatever the clock does:
  the requests sent and those remaining always add up to the initial count, each is the documented
  request message to the target address, and it completes with \<open>S_OK\<close> only when none remains. As
  long as the tick count does not wrap, two requests are at least the interval apart.
\<close>

theorem enum_sends_budget:
  assumes "enum_main turns e = (txs, res, e')"
  shows "length txs + unat (tx_remain e') = unat (tx_remain e)
    \<and> (\<forall>(t, ps, a) \<in> set txs. a = send_addr e \<and>
        (\<exists>fs. ps = serialise DPLITE_MSGID_HOST_ENUM_REQUEST fs \<and> well_formed_msg DPLITE_MSGID_HOST_ENUM_REQUEST fs
           \<and> last fs = FDword t))
    \<and> (res = Some S_OK \<longrightarrow> tx_remain e' = 0)
    \<and> (sorted (map fst turns) \<and> (\<forall>t \<in> fst ` set turns. unat t + unat (tx_interval e) < 2 ^ 32) \<longrightarrow>
        sorted_wrt (\<lambda>t u. unat t + unat (tx_interval e) \<le> unat u) (map fst txs))"
proof -
  have wf: "\<exists>fs. enum_request t e = serialise DPLITE_MSGID_HOST_ENUM_REQUEST fs
      \<and> well_formed_msg DPLITE_MSGID_HOST_ENUM_REQUEST fs \<and> last fs = FDword t" for t
    unfolding enum_request_serialise by (intro exI conjI, rule refl) (simp_all add: well_formed_msg_def)
  show ?thesis
    using enum_main_budget [OF assms] enum_main_spacing [OF assms] wf by (auto split: prod.splits)
qed

theorem enum_sends_budget_witness:
  "let e = \<lparr>he_service_provider = 1, send_addr = \<lparr>sin_addr = 2, sin_port = 3\<rparr>, he_application_guid = 0,
        he_user_data = [], tx_remain = 2, tx_interval = 100, rx_timeout = 50, user_context = 0,
        next_tx_at = 0, stop_at = 0, req_cancel = False\<rparr>
   in \<exists>txs e'. enum_main [(1000, False), (1050, False), (1100, False), (1150, False)] e = (txs, Some S_OK, e')
        \<and> length txs + unat (tx_remain e') = 2 \<and> tx_remain e' = 0"
proof -
  let ?e = "\<lparr>he_service_provider = 1, send_addr = \<lparr>sin_addr = 2, sin_port = 3\<rparr>, he_application_guid = 0,
        he_user_data = [], tx_remain = 2, tx_interval = 100, rx_timeout = 50, user_context = 0,
        next_tx_at = 0, stop_at = 0, req_cancel = False\<rparr> :: HostEnumerator"
  obtain txs e' where r: "enum_main [(1000, False), (1050, False), (1100, False), (1150, False)] ?e = (txs, Some S_OK, e')"
    by (simp add: enum_turn_def enum_transmit_def enum_timeout_def Let_def enum_complete_def const_defs)
  from enum_sends_budget [OF r] r show ?thesis by (auto simp: Let_def)
qed

text \<open>
  an infinite timeout. The constructor never sets \<open>stop_at\<close>, and with a timeout of \<open>INFINITE\<close> the
  loop does not set it either: whatever is in that memory decides whether the enumerator, after its
  last request, stops at once (a value between 1 and the current tick count) or waits for replies
  for ever (0), as it should.
\<close>

theorem enum_stop_at_uninitialised:
  "case new_HostEnumerator inet_pton uninit True app None (Some dev) udata 1 interval INFINITE uctx of
     Inl err \<Rightarrow> err = COMAPIException DPNERR_INVALIDDEVICEADDRESS \<and> snd (GetSP dev) = None
   | Inr e \<Rightarrow> (\<exists>e'. enum_turn now e = (Some (enum_request now e, send_addr e),
        if 0 < uninit \<and> uninit \<le> now then EnumStop
        else EnumWait (if uninit = 0 then INFINITE else min (uninit - now) INFINITE), e'))"
proof -
  have "INFINITE \<noteq> 0" by (simp add: INFINITE_def)
  then show ?thesis
    by (cases "GetSP dev"; cases "snd (GetSP dev)")
      (auto simp: new_HostEnumerator_def enum_target_def enum_turn_def enum_transmit_def enum_timeout_def
        Let_def word_gt_0)
qed

section \<open>Responses\<close>

fun opt_data :: "field \<Rightarrow> byte list option" where
  "opt_data (FData d) = Some d" | "opt_data _ = None"

lemma optional_data_represents:
  assumes "represents p t fs"
  shows "optional_data p i = field_access
    (\<lambda>f. if or_null is_FData f then Inr (opt_data f) else Inl TypeMismatch) fs i"
proof -
  have "is_null p i = field_access (\<lambda>f. Inr (f = FNull)) fs i" "get_data p i = field_access as_data fs i"
    using assms by (auto simp: represents_def)
  then show ?thesis
    by (cases "fs ! i") (auto simp: optional_data_def field_access_def or_null_def)
qed

text \<open>
  A response packet. For a packet with the fields of a host's response, laid out as documented,
  the application gets one message with the session description, the response data and the latency
  computed from the echoed tick count; a packet of another type, or one in which a field is missing
  or of another type, is ignored.
\<close>

theorem he_handle_packet_response:
  assumes "represents p t fs"
  shows "he_handle_packet mb g now (Inr p) from e =
    (case fs of
       FDword flags # FGuid inst # FGuid app # FDword maxp # FDword cur # FWstring name # r # d # FDword tick # _ \<Rightarrow>
         if t = DPLITE_MSGID_HOST_ENUM_RESPONSE \<and> or_null is_FData r \<and> or_null is_FData d then
           Some (MSG_ENUM_HOSTS_RESPONSE
             (map_option fst (create_host_address mb g (he_service_provider e) from))
             (snd (SetSP mb (he_service_provider e) (fst (new_address g))))
             \<lparr>ad_dwFlags = flags, ad_guidInstance = inst, ad_guidApplication = app, ad_dwMaxPlayers = maxp,
               ad_dwCurrentPlayers = cur, ad_pwszSessionName = Some name, ad_pwszPassword = None,
               ad_pvApplicationReservedData = opt_data r\<rparr>
             (opt_data d) (user_context e) (now - tick))
         else None
     | _ \<Rightarrow> None)"
proof -
  have t: "packet_type p = Inr t" and a: "\<And>i. get_dword p i = field_access as_dword fs i"
    "\<And>i. get_guid p i = field_access as_guid fs i" "\<And>i. get_wstring p i = field_access as_wstring fs i"
    using assms by (simp_all add: represents_def)
  note o = optional_data_represents [OF assms]
  show ?thesis
    by (auto simp: he_handle_packet_def parse_response_def t a o field_access_def Let_def
        split: list.splits field.splits)
qed

theorem he_handle_packet_response_witness:
  "\<exists>p. represents p DPLITE_MSGID_HOST_ENUM_RESPONSE
       [FDword 0, FGuid 1, FGuid 2, FDword 3, FDword 4, FWstring [65], FNull, FData [9], FDword 100]
     \<and> (\<exists>s d a. he_handle_packet (\<lambda>bs n. []) None 130 (Inr p) \<lparr>sin_addr = 1, sin_port = 2\<rparr>
          \<lparr>he_service_provider = 1, send_addr = \<lparr>sin_addr = 2, sin_port = 3\<rparr>, he_application_guid = 0,
           he_user_data = [], tx_remain = 2, tx_interval = 100, rx_timeout = 50, user_context = 77,
           next_tx_at = 0, stop_at = 0, req_cancel = False\<rparr> =
          Some (MSG_ENUM_HOSTS_RESPONSE s d a (Some [9]) 77 30))"
proof -
  let ?fs = "[FDword 0, FGuid 1, FGuid 2, FDword 3, FDword 4, FWstring [65], FNull, FData [9], FDword 100]"
  let ?p = "\<lparr>pd_mem = packet_bytes DPLITE_MSGID_HOST_ENUM_RESPONSE ?fs @ [], pd_header = 0,
      pd_fields = field_offsets 8 ?fs\<rparr>"
  have "length (packet_bytes DPLITE_MSGID_HOST_ENUM_RESPONSE ?fs) < 2 ^ 32"
    by (simp add: packet_bytes_def field_bytes_def guid.length_enc)
  then have r: "represents ?p DPLITE_MSGID_HOST_ENUM_RESPONSE ?fs"
    by (rule packet_bytes_represents) simp
  show ?thesis
    by (rule exI [of _ ?p]) (use r he_handle_packet_response [OF r] in simp)
qed

end
