(* ===== verification/Network.thy ===== *)
theory Network
  imports HostEnum
begin

text \<open>
  The socket helpers of \<^verbatim>\<open>src/src/network.cpp\<close>. Each helper makes a sequence of socket calls and
  closes the socket in the branch of the call that fails. The operating system is the environment
  \<open>net_os\<close>: the socket it hands out (\<open>None\<close> for failure) and whether each later call on it succeeds;
  a helper yields the calls it made and the socket. The locale \<open>socket_script\<close> proves once what
  the four helpers share.

  \<open>get_network_interfaces\<close> is modelled on the answer of \<^verbatim>\<open>GetAdaptersAddresses\<close>, which it asks for
  until its buffer is large enough.
\<close>

section \<open>Socket calls\<close>

datatype sock_type = SOCK_DGRAM | SOCK_STREAM

datatype sock_call =
    Ioctl_nonblocking
  | Set_broadcast
  | Set_reuseaddr
  | Set_hard_linger
  | Bind dword "16 word"
  | Listen nat

datatype sock_event = Socket sock_type | Call nat sock_call | Closesocket nat

record net_os =
  os_socket :: "sock_type \<Rightarrow> nat option"
  os_call :: "nat \<Rightarrow> sock_call \<Rightarrow> bool"

definition LISTEN_QUEUE_SIZE :: nat where "LISTEN_QUEUE_SIZE = 16"
definition INADDR_ANY :: dword where "INADDR_ANY = 0"

text \<open>Each helper makes its calls in order; every failure has its own branch, which closes the socket.\<close>

definition create_udp_socket :: "net_os \<Rightarrow> dword \<Rightarrow> 16 word \<Rightarrow> sock_event list \<times> nat option" where
  "create_udp_socket os ipaddr port =
     (case os_socket os SOCK_DGRAM of
        None \<Rightarrow> ([Socket SOCK_DGRAM], None)
      | Some sock \<Rightarrow>
          let evs1 = [Socket SOCK_DGRAM, Call sock Ioctl_nonblocking] in
          if \<not> os_call os sock Ioctl_nonblocking then (evs1 @ [Closesocket sock], None) else
          let evs2 = evs1 @ [Call sock Set_broadcast] in
          if \<not> os_call os sock Set_broadcast then (evs2 @ [Closesocket sock], None) else
          let evs3 = evs2 @ [Call sock (Bind ipaddr (htons port))] in
          if \<not> os_call os sock (Bind ipaddr (htons port)) then (evs3 @ [Closesocket sock], None) else
          (evs3, Some sock))"

definition create_listener_socket :: "net_os \<Rightarrow> dword \<Rightarrow> 16 word \<Rightarrow> sock_event list \<times> nat option" where
  "create_listener_socket os ipaddr port =
     (case os_socket os SOCK_STREAM of
        None \<Rightarrow> ([Socket SOCK_STREAM], None)
      | Some sock \<Rightarrow>
          let evs1 = [Socket SOCK_STREAM, Call sock Ioctl_nonblocking] in
          if \<not> os_call os sock Ioctl_nonblocking then (evs1 @ [Closesocket sock], None) else
          let evs2 = evs1 @ [Call sock Set_reuseaddr] in
          if \<not> os_call os sock Set_reuseaddr then (evs2 @ [Closesocket sock], None) else
          let evs3 = evs2 @ [Call sock (Bind ipaddr (htons port))] in
          if \<not> os_call os sock (Bind ipaddr (htons port)) then (evs3 @ [Closesocket sock], None) else
          let evs4 = evs3 @ [Call sock (Listen LISTEN_QUEUE_SIZE)] in
          if \<not> os_call os sock (Listen LISTEN_QUEUE_SIZE) then (evs4 @ [Closesocket sock], None) else
          (evs4, Some sock))"

definition create_client_socket :: "net_os \<Rightarrow> dword \<Rightarrow> 16 word \<Rightarrow> sock_event list \<times> nat option" where
  "create_client_socket os local_ipaddr local_port =
     (case os_socket os SOCK_STREAM of
        None \<Rightarrow> ([Socket SOCK_STREAM], None)
      | Some sock \<Rightarrow>
          let evs1 = [Socket SOCK_STREAM, Call sock Ioctl_nonblocking] in
          if \<not> os_call os sock Ioctl_nonblocking then (evs1 @ [Closesocket sock], None) else
          let evs2 = evs1 @ [Call sock Set_reuseaddr] in
          if \<not> os_call os sock Set_reuseaddr then (evs2 @ [Closesocket sock], None) else
          let evs3 = evs2 @ [Call sock Set_hard_linger] in
          if \<not> os_call os sock Set_hard_linger then (evs3 @ [Closesocket sock], None) else
          let evs4 = evs3 @ [Call sock (Bind local_ipaddr (htons local_port))] in
          if \<not> os_call os sock (Bind local_ipaddr (htons local_port)) then (evs4 @ [Closesocket sock], None) else
          (evs4, Some sock))"

definition create_discovery_socket :: "net_os \<Rightarrow> sock_event list \<times> nat option" where
  "create_discovery_socket os =
     (case os_socket os SOCK_DGRAM of
        None \<Rightarrow> ([Socket SOCK_DGRAM], None)
      | Some sock \<Rightarrow>
          let evs1 = [Socket SOCK_DGRAM, Call sock Ioctl_nonblocking] in
          if \<not> os_call os sock Ioctl_nonblocking then (evs1 @ [Closesocket sock], None) else
          let evs2 = evs1 @ [Call sock Set_reuseaddr] in
          if \<not> os_call os sock Set_reuseaddr then (evs2 @ [Closesocket sock], None) else
          let evs3 = evs2 @ [Call sock (Bind (htonl INADDR_ANY) (htons DISCOVERY_PORT))] in
          if \<not> os_call os sock (Bind (htonl INADDR_ANY) (htons DISCOVERY_PORT)) then (evs3 @ [Closesocket sock], None) else
          (evs3, Some sock))"

section \<open>Network interfaces\<close>

record adapter =
  IfType :: nat
  FriendlyName :: "wchar list"
  FirstUnicastAddress :: "byte list list"

record SystemNetworkInterface =
  friendly_name :: "wchar list"
  unicast_addrs :: "byte list list"

datatype adapters_answer = ERROR_SUCCESS "adapter list" | ERROR_NO_DATA | ERROR_BUFFER_OVERFLOW nat | Adapters_error

definition IF_TYPE_SOFTWARE_LOOPBACK :: nat where "IF_TYPE_SOFTWARE_LOOPBACK = 24"
definition sizeof_sockaddr_storage :: nat where "sizeof_sockaddr_storage = 128"

text \<open>
  The query loop. \<open>ask i sz\<close> is the answer to the \<open>i\<close>-th call with a buffer of that size; \<open>None\<close>
  means that the fuel ran out.
\<close>

fun query_adapters :: "(nat \<Rightarrow> nat \<Rightarrow> adapters_answer) \<Rightarrow> nat \<Rightarrow> nat \<Rightarrow> nat \<Rightarrow> adapter list option" where
  "query_adapters ask 0 i sz = None"
| "query_adapters ask (Suc fuel) i sz =
     (case ask i sz of
        ERROR_SUCCESS as \<Rightarrow> Some as
      | ERROR_NO_DATA \<Rightarrow> Some []
      | ERROR_BUFFER_OVERFLOW sz' \<Rightarrow> query_adapters ask fuel (Suc i) sz'
      | Adapters_error \<Rightarrow> Some [])"

text \<open>An address is copied into zeroed storage unless it is too long.\<close>

definition copy_addresses :: "byte list list \<Rightarrow> byte list list" where
  "copy_addresses uc =
     map (\<lambda>a. a @ replicate (sizeof_sockaddr_storage - length a) 0)
       (filter (\<lambda>a. length a \<le> sizeof_sockaddr_storage) uc)"

definition interfaces_of :: "adapter list \<Rightarrow> SystemNetworkInterface list" where
  "interfaces_of as =
     map (\<lambda>a. \<lparr>friendly_name = FriendlyName a, unicast_addrs = copy_addresses (FirstUnicastAddress a)\<rparr>)
       (filter (\<lambda>a. IfType a \<noteq> IF_TYPE_SOFTWARE_LOOPBACK) as)"

definition get_network_interfaces ::
  "(nat \<Rightarrow> nat \<Rightarrow> adapters_answer) \<Rightarrow> nat \<Rightarrow> SystemNetworkInterface list option" where
  "get_network_interfaces ask fuel = map_option interfaces_of (query_adapters ask fuel 0 0)"

section \<open>What the helpers share\<close>

text \<open>Sockets opened and closed by a run.\<close>

fun opened :: "net_os \<Rightarrow> sock_event list \<Rightarrow> nat list" where
  "opened os [] = []"
| "opened os (Socket ty # evs) = (case os_socket os ty of Some s \<Rightarrow> [s] | None \<Rightarrow> []) @ opened os evs"
| "opened os (_ # evs) = opened os evs"

fun closed :: "sock_event list \<Rightarrow> nat list" where
  "closed [] = []"
| "closed (Closesocket s # evs) = s # closed evs"
| "closed (_ # evs) = closed evs"

text \<open>
  What a helper is to do with a socket of type \<open>ty\<close> and the configuration \<open>cs\<close>: all of \<open>cs\<close> in order if the
  operating system accepts all of it, and then the socket; otherwise everything up to the first call that
  is refused, and then the socket is closed.
\<close>

definition scripted :: "net_os \<Rightarrow> sock_type \<Rightarrow> sock_call list \<Rightarrow> sock_event list \<times> nat option" where
  "scripted os ty cs =
     (case os_socket os ty of
        None \<Rightarrow> ([Socket ty], None)
      | Some s \<Rightarrow>
          if \<forall>c \<in> set cs. os_call os s c then (Socket ty # map (Call s) cs, Some s)
          else (Socket ty # map (Call s) (takeWhile (os_call os s) cs @ take 1 (dropWhile (os_call os s) cs))
                  @ [Closesocket s], None))"

lemma opened_append [simp]: "opened os (xs @ ys) = opened os xs @ opened os ys"
  by (induction xs rule: opened.induct [of _ os]) auto

lemma closed_append [simp]: "closed (xs @ ys) = closed xs @ closed ys"
  by (induction xs rule: closed.induct) auto

lemma opened_calls [simp]: "opened os (map (Call s) cs) = []"
  by (induction cs) auto

lemma closed_calls [simp]: "closed (map (Call s) cs) = []"
  by (induction cs) auto

text \<open>The contract of a helper, and that it leaks nothing.\<close>

locale socket_script =
  fixes create :: "net_os \<Rightarrow> sock_event list \<times> nat option"
    and ty :: sock_type
    and cs :: "sock_call list"
  assumes create_script: "create os = scripted os ty cs"
begin

lemma succeeds_iff:
  "snd (create os) = Some s \<longleftrightarrow> os_socket os ty = Some s \<and> (\<forall>c \<in> set cs. os_call os s c)"
  by (auto simp: create_script scripted_def split: option.splits)

lemma configured: "snd (create os) = Some s \<Longrightarrow> fst (create os) = Socket ty # map (Call s) cs"
  by (auto simp: create_script scripted_def split: option.splits if_splits)

lemma refused:
  assumes "snd (create os) = None" "os_socket os ty = Some s"
  shows "\<exists>us c vs. cs = us @ c # vs \<and> (\<forall>u \<in> set us. os_call os s u) \<and> \<not> os_call os s c
    \<and> fst (create os) = Socket ty # map (Call s) (us @ [c]) @ [Closesocket s]"
proof -
  from assms have n: "\<not> (\<forall>c \<in> set cs. os_call os s c)" using succeeds_iff [of os s] by auto
  then obtain c vs where d: "dropWhile (os_call os s) cs = c # vs"
    by (metis dropWhile_eq_Nil_conv list.exhaust)
  then have "\<not> os_call os s c" by (metis hd_dropWhile list.distinct(1) list.sel(1))
  moreover have "cs = takeWhile (os_call os s) cs @ c # vs" using takeWhile_dropWhile_id [of "os_call os s" cs] d by simp
  moreover have "\<forall>u \<in> set (takeWhile (os_call os s) cs). os_call os s u" by (auto dest: set_takeWhileD)
  moreover have "fst (create os) = Socket ty # map (Call s) (takeWhile (os_call os s) cs @ [c]) @ [Closesocket s]"
    using n d assms(2) by (auto simp: create_script scripted_def)
  ultimately show ?thesis by blast
qed

lemma no_leak:
  "opened os (fst (create os)) = closed (fst (create os)) @ (case snd (create os) of Some s \<Rightarrow> [s] | None \<Rightarrow> [])"
  by (simp add: create_script scripted_def split: option.splits)

lemma contract:
  "opened os (fst (create os)) = closed (fst (create os)) @ (case snd (create os) of Some s \<Rightarrow> [s] | None \<Rightarrow> [])
   \<and> (\<forall>s. snd (create os) = Some s \<longrightarrow> (\<forall>c \<in> set cs. os_call os s c) \<and> fst (create os) = Socket ty # map (Call s) cs)
   \<and> (\<forall>s. snd (create os) = None \<and> os_socket os ty = Some s \<longrightarrow>
        (\<exists>us c vs. cs = us @ c # vs \<and> \<not> os_call os s c
           \<and> fst (create os) = Socket ty # map (Call s) (us @ [c]) @ [Closesocket s]))"
  using no_leak [of os] configured [of os] succeeds_iff [of os] refused [of os] by blast

end

interpretation udp: socket_script "\<lambda>os. create_udp_socket os ip port" SOCK_DGRAM
    "[Ioctl_nonblocking, Set_broadcast, Bind ip (htons port)]" for ip port
  by unfold_locales (simp add: create_udp_socket_def scripted_def Let_def split: option.splits)

interpretation listener: socket_script "\<lambda>os. create_listener_socket os ip port" SOCK_STREAM
    "[Ioctl_nonblocking, Set_reuseaddr, Bind ip (htons port), Listen LISTEN_QUEUE_SIZE]" for ip port
  by unfold_locales (simp add: create_listener_socket_def scripted_def Let_def split: option.splits)

interpretation client: socket_script "\<lambda>os. create_client_socket os ip port" SOCK_STREAM
    "[Ioctl_nonblocking, Set_reuseaddr, Set_hard_linger, Bind ip (htons port)]" for ip port
  by unfold_locales (simp add: create_client_socket_def scripted_def Let_def split: option.splits)

interpretation discovery: socket_script create_discovery_socket SOCK_DGRAM
    "[Ioctl_nonblocking, Set_reuseaddr, Bind (htonl INADDR_ANY) (htons DISCOVERY_PORT)]"
  by unfold_locales (simp add: create_discovery_socket_def scripted_def Let_def split: option.splits)

text \<open>
  C38: no socket is leaked and none is returned half configured. For each of the four helpers, with its own
  list of configuration calls: every socket the operating system handed out is either closed by the helper or
  returned, never both; a socket is returned only after every call of the list was made, in that order, and
  accepted; and when the operating system refuses a call, the helper makes no further one but closes the
  socket and returns none.
\<close>

theorem sockets_not_leaked:
  assumes "(r, ty, cs) \<in>
      {(create_udp_socket os ip port, SOCK_DGRAM, [Ioctl_nonblocking, Set_broadcast, Bind ip (htons port)]),
       (create_listener_socket os ip port, SOCK_STREAM,
          [Ioctl_nonblocking, Set_reuseaddr, Bind ip (htons port), Listen LISTEN_QUEUE_SIZE]),
       (create_client_socket os ip port, SOCK_STREAM,
          [Ioctl_nonblocking, Set_reuseaddr, Set_hard_linger, Bind ip (htons port)]),
       (create_discovery_socket os, SOCK_DGRAM,
          [Ioctl_nonblocking, Set_reuseaddr, Bind (htonl INADDR_ANY) (htons DISCOVERY_PORT)])}"
  shows "opened os (fst r) = closed (fst r) @ (case snd r of Some s \<Rightarrow> [s] | None \<Rightarrow> [])
   \<and> (\<forall>s. snd r = Some s \<longrightarrow> (\<forall>c \<in> set cs. os_call os s c) \<and> fst r = Socket ty # map (Call s) cs)
   \<and> (\<forall>s. snd r = None \<and> os_socket os ty = Some s \<longrightarrow>
        (\<exists>us c vs. cs = us @ c # vs \<and> \<not> os_call os s c
           \<and> fst r = Socket ty # map (Call s) (us @ [c]) @ [Closesocket s]))"
  using assms udp.contract [of os ip port] listener.contract [of os ip port]
    client.contract [of os ip port] discovery.contract [of os]
  by (elim insertE emptyE) (simp_all only: prod.inject, blast+)

theorem sockets_not_leaked_witness:
  "let os = \<lparr>os_socket = (\<lambda>_. Some 4), os_call = (\<lambda>s c. c \<noteq> Set_broadcast)\<rparr>
   in opened os (fst (create_udp_socket os 0 0)) = [4] \<and> snd (create_udp_socket os 0 0) = None
      \<and> closed (fst (create_udp_socket os 0 0)) = [4]"
  using sockets_not_leaked [of "create_udp_socket \<lparr>os_socket = (\<lambda>_. Some 4), os_call = (\<lambda>s c. c \<noteq> Set_broadcast)\<rparr> 0 0"
      SOCK_DGRAM "[Ioctl_nonblocking, Set_broadcast, Bind 0 (htons 0)]"
      "\<lparr>os_socket = (\<lambda>_. Some 4), os_call = (\<lambda>s c. c \<noteq> Set_broadcast)\<rparr>" 0 0]
  by (simp add: create_udp_socket_def Let_def)

section \<open>The interface query returns\<close>

text \<open>
  The query ends as soon as one answer is not an overflow: the number of calls before that is
  enough fuel, and more fuel does not change the result.
\<close>

lemma query_adapters_returns:
  "\<forall>j < n. \<forall>sz. \<exists>sz'. ask (i + j) sz = ERROR_BUFFER_OVERFLOW sz' \<Longrightarrow>
   \<forall>sz sz'. ask (i + n) sz \<noteq> ERROR_BUFFER_OVERFLOW sz' \<Longrightarrow> n < fuel \<Longrightarrow>
     query_adapters ask fuel i sz \<noteq> None \<and> query_adapters ask (Suc n) i sz = query_adapters ask fuel i sz"
proof (induction n arbitrary: i sz fuel)
  case 0
  then obtain f where "fuel = Suc f" by (cases fuel) auto
  with 0 show ?case by (auto split: adapters_answer.splits)
next
  case (Suc n)
  then obtain f where f: "fuel = Suc f" "n < f" by (cases fuel) auto
  from Suc.prems(1) obtain sz' where sz': "ask i sz = ERROR_BUFFER_OVERFLOW sz'" by (metis add_0_right zero_less_Suc)
  have "\<forall>j < n. \<forall>sz. \<exists>sz'. ask (Suc i + j) sz = ERROR_BUFFER_OVERFLOW sz'"
    using Suc.prems(1) by (metis Suc_less_eq add_Suc_shift)
  moreover have "\<forall>sz sz'. ask (Suc i + n) sz \<noteq> ERROR_BUFFER_OVERFLOW sz'" using Suc.prems(2) by simp
  ultimately have "query_adapters ask f (Suc i) sz' \<noteq> None \<and>
      query_adapters ask (Suc n) (Suc i) sz' = query_adapters ask f (Suc i) sz'"
    using Suc.IH f(2) by blast
  with f(1) sz' show ?case by simp
qed

end
