(* ===== verification/ComServer.thy ===== *)
theory ComServer
  imports Address
begin

text \<open>
  The COM server of \<^verbatim>\<open>src/src/dpnet.cpp\<close> and the class factory of \<^verbatim>\<open>src/src/Factory.hpp\<close>: the objects
  alive in the library with their reference counts, the counter \<open>global_refcount\<close> they share, the
  entry points that hand out factories and decide whether the library may be unloaded.

  An object of the peer class is represented by its reference count; what its methods do is the
  subject of the peer theories.
\<close>

section \<open>Objects\<close>

datatype com_class = DirectPlay8AddressClass | DirectPlay8PeerClass

record Factory =
  fac_class :: com_class
  fac_refcount :: dword

record peer_object =
  peer_refcount :: dword

definition S_FALSE :: hresult where "S_FALSE = 1"

text \<open>The interface each class implements (the template parameter of the factory).\<close>

fun class_IMPLEMENTS :: "com_class \<Rightarrow> guid" where
  "class_IMPLEMENTS DirectPlay8AddressClass = IID_IDirectPlay8Address"
| "class_IMPLEMENTS DirectPlay8PeerClass = IID_IDirectPlay8Peer"

definition DLL_CLASSES :: "(guid \<times> string \<times> com_class) list" where
  "DLL_CLASSES =
     [(CLSID_DirectPlay8Address, ''DirectPlay8Address Object'', DirectPlay8AddressClass),
      (CLSID_DirectPlay8Peer, ''DirectPlay8Peer Object'', DirectPlay8PeerClass)]"

definition factory_AddRef :: "Factory \<Rightarrow> refcounter \<Rightarrow> dword \<times> Factory \<times> refcounter" where
  "factory_AddRef f g =
     (let g' = (case g of None \<Rightarrow> None | Some c \<Rightarrow> Some (c + 1));
          f' = f\<lparr>fac_refcount := fac_refcount f + 1\<rparr>
      in (fac_refcount f', f', g'))"

definition factory_Release :: "Factory \<Rightarrow> refcounter \<Rightarrow> dword \<times> Factory option \<times> refcounter" where
  "factory_Release f g =
     (let rc = fac_refcount f - 1;
          f' = (if rc = 0 then None else Some (f\<lparr>fac_refcount := rc\<rparr>));
          g' = (case g of None \<Rightarrow> None | Some c \<Rightarrow> Some (c - 1))
      in (rc, f', g'))"

definition new_Factory :: "com_class \<Rightarrow> refcounter \<Rightarrow> Factory \<times> refcounter" where
  "new_Factory c g = snd (factory_AddRef \<lparr>fac_class = c, fac_refcount = 0\<rparr> g)"

definition peer_AddRef :: "peer_object \<Rightarrow> refcounter \<Rightarrow> dword \<times> peer_object \<times> refcounter" where
  "peer_AddRef p g =
     (let g' = (case g of None \<Rightarrow> None | Some c \<Rightarrow> Some (c + 1));
          p' = p\<lparr>peer_refcount := peer_refcount p + 1\<rparr>
      in (peer_refcount p', p', g'))"

definition peer_Release :: "peer_object \<Rightarrow> refcounter \<Rightarrow> dword \<times> peer_object option \<times> refcounter" where
  "peer_Release p g =
     (let rc = peer_refcount p - 1;
          p' = (if rc = 0 then None else Some (p\<lparr>peer_refcount := rc\<rparr>));
          g' = (case g of None \<Rightarrow> None | Some c \<Rightarrow> Some (c - 1))
      in (rc, p', g'))"

definition new_peer_object :: "refcounter \<Rightarrow> peer_object \<times> refcounter" where
  "new_peer_object g = snd (peer_AddRef \<lparr>peer_refcount = 0\<rparr> g)"

interpretation factory_refs: refcounted factory_AddRef factory_Release fac_refcount "\<lambda>n f. f\<lparr>fac_refcount := n\<rparr>"
  by unfold_locales (auto simp: factory_AddRef_def factory_Release_def Let_def split: option.splits)

interpretation peer_refs: refcounted peer_AddRef peer_Release peer_refcount "\<lambda>n p. p\<lparr>peer_refcount := n\<rparr>"
  by unfold_locales (auto simp: peer_AddRef_def peer_Release_def Let_def split: option.splits)

datatype com_object = FactoryObj Factory | AddressObj DirectPlay8Address | PeerObj peer_object

fun obj_refs :: "com_object \<Rightarrow> dword" where
  "obj_refs (FactoryObj f) = fac_refcount f"
| "obj_refs (AddressObj a) = local_refcount a"
| "obj_refs (PeerObj p) = peer_refcount p"

section \<open>The server\<close>

record com_server =
  global_refcount :: dword
  objects :: "(nat \<times> com_object) list"
  next_object :: nat

definition DllMain_attach :: com_server where
  "DllMain_attach = \<lparr>global_refcount = 0, objects = [], next_object = 0\<rparr>"

definition DllCanUnloadNow :: "com_server \<Rightarrow> hresult" where
  "DllCanUnloadNow s = (if global_refcount s = 0 then S_OK else S_FALSE)"

text \<open>A new object is entered with the counter its constructor left.\<close>

definition enter_object :: "com_object \<Rightarrow> refcounter \<Rightarrow> com_server \<Rightarrow> nat \<times> com_server" where
  "enter_object x g s =
     (next_object s, s\<lparr>global_refcount := (case g of Some c \<Rightarrow> c | None \<Rightarrow> global_refcount s),
        objects := (next_object s, x) # objects s, next_object := Suc (next_object s)\<rparr>)"

text \<open>\<open>outcome\<close> is how the allocation went: \<open>None\<close>, or the exception that is turned into a result.\<close>

datatype alloc_failure = bad_alloc | other_exception

definition CreateFactoryInstance ::
  "alloc_failure option \<Rightarrow> com_class \<Rightarrow> com_server \<Rightarrow> hresult \<times> nat option \<times> com_server" where
  "CreateFactoryInstance outcome c s =
     (case outcome of
        None \<Rightarrow> (let (f, g) = new_Factory c (Some (global_refcount s)); (i, s') = enter_object (FactoryObj f) g s
                 in (S_OK, Some i, s'))
      | Some bad_alloc \<Rightarrow> (E_OUTOFMEMORY, None, s)
      | Some other_exception \<Rightarrow> (E_UNEXPECTED, None, s))"

definition DllGetClassObject ::
  "alloc_failure option \<Rightarrow> guid \<Rightarrow> guid \<Rightarrow> com_server \<Rightarrow> hresult \<times> nat option \<times> com_server" where
  "DllGetClassObject outcome rclsid riid s =
     (if riid \<noteq> IID_IClassFactory \<and> riid \<noteq> IID_IUnknown then (CLASS_E_CLASSNOTAVAILABLE, None, s)
      else case find (\<lambda>(clsid, _). rclsid = clsid) DLL_CLASSES of
        Some (_, _, c) \<Rightarrow> CreateFactoryInstance outcome c s
      | None \<Rightarrow> (CLASS_E_CLASSNOTAVAILABLE, None, s))"

text \<open>The methods of a factory, and the reference methods of any object. \<open>None\<close>: no such object.\<close>

definition CreateInstance ::
  "nat \<Rightarrow> bool \<Rightarrow> guid \<Rightarrow> com_server \<Rightarrow> (hresult \<times> nat option \<times> com_server) option" where
  "CreateInstance i outer riid s =
     (case map_of (objects s) i of
        Some (FactoryObj f) \<Rightarrow> Some
          (if outer then (CLASS_E_NOAGGREGATION, None, s)
           else if riid = class_IMPLEMENTS (fac_class f) \<or> riid = IID_IUnknown then
             (let (x, g) = (case fac_class f of
                  DirectPlay8AddressClass \<Rightarrow> (let (a, g) = new_address (Some (global_refcount s)) in (AddressObj a, g))
                | DirectPlay8PeerClass \<Rightarrow> (let (p, g) = new_peer_object (Some (global_refcount s)) in (PeerObj p, g)));
                  (j, s') = enter_object x g s
              in (S_OK, Some j, s'))
           else (E_NOINTERFACE, None, s))
      | _ \<Rightarrow> None)"

definition LockServer :: "com_server \<Rightarrow> hresult \<times> com_server" where
  "LockServer s = (S_OK, s)"

fun object_AddRef :: "com_object \<Rightarrow> refcounter \<Rightarrow> dword \<times> com_object \<times> refcounter" where
  "object_AddRef (FactoryObj f) g = (let (n, f', g') = factory_AddRef f g in (n, FactoryObj f', g'))"
| "object_AddRef (AddressObj a) g = (let (n, a', g') = AddRef a g in (n, AddressObj a', g'))"
| "object_AddRef (PeerObj p) g = (let (n, p', g') = peer_AddRef p g in (n, PeerObj p', g'))"

fun object_Release :: "com_object \<Rightarrow> refcounter \<Rightarrow> dword \<times> com_object option \<times> refcounter" where
  "object_Release (FactoryObj f) g = (let (n, f', g') = factory_Release f g in (n, map_option FactoryObj f', g'))"
| "object_Release (AddressObj a) g = (let (n, a', g') = Release a g in (n, map_option AddressObj a', g'))"
| "object_Release (PeerObj p) g = (let (n, p', g') = peer_Release p g in (n, map_option PeerObj p', g'))"

fun object_implements :: "com_object \<Rightarrow> guid" where
  "object_implements (FactoryObj f) = IID_IClassFactory"
| "object_implements (AddressObj a) = IID_IDirectPlay8Address"
| "object_implements (PeerObj p) = IID_IDirectPlay8Peer"

definition server_AddRef :: "nat \<Rightarrow> com_server \<Rightarrow> (dword \<times> com_server) option" where
  "server_AddRef i s =
     (case map_of (objects s) i of
        None \<Rightarrow> None
      | Some x \<Rightarrow>
          (let (n, x', g) = object_AddRef x (Some (global_refcount s))
           in Some (n, s\<lparr>global_refcount := the g, objects := map (\<lambda>(j, y). (j, if j = i then x' else y)) (objects s)\<rparr>)))"

definition server_Release :: "nat \<Rightarrow> com_server \<Rightarrow> (dword \<times> com_server) option" where
  "server_Release i s =
     (case map_of (objects s) i of
        None \<Rightarrow> None
      | Some x \<Rightarrow>
          (let (n, x', g) = object_Release x (Some (global_refcount s))
           in Some (n, s\<lparr>global_refcount := the g,
             objects := (case x' of
                None \<Rightarrow> filter (\<lambda>(j, y). j \<noteq> i) (objects s)
              | Some z \<Rightarrow> map (\<lambda>(j, y). (j, if j = i then z else y)) (objects s))\<rparr>)))"

definition server_QueryInterface :: "nat \<Rightarrow> guid \<Rightarrow> com_server \<Rightarrow> (hresult \<times> com_server) option" where
  "server_QueryInterface i riid s =
     (case map_of (objects s) i of
        None \<Rightarrow> None
      | Some x \<Rightarrow>
          if riid = object_implements x \<or> riid = IID_IUnknown
          then map_option (\<lambda>(n, s'). (S_OK, s')) (server_AddRef i s)
          else Some (E_NOINTERFACE, s))"


section \<open>The shared counter\<close>

definition total_refs :: "com_server \<Rightarrow> nat" where
  "total_refs s = sum_list (map (\<lambda>(j, x). unat (obj_refs x)) (objects s))"

definition server_inv :: "com_server \<Rightarrow> bool" where
  "server_inv s \<longleftrightarrow> distinct (map fst (objects s)) \<and> (\<forall>(j, x) \<in> set (objects s). j < next_object s \<and> obj_refs x \<noteq> 0)
     \<and> total_refs s < 2 ^ 32 \<and> global_refcount s = word_of_nat (total_refs s)"

text \<open>The states of the server, while fewer than \<open>2 ^ 32\<close> references exist.\<close>

inductive server_reach :: "com_server \<Rightarrow> bool" where
  attach: "server_reach DllMain_attach"
| class_object: "server_reach s \<Longrightarrow> total_refs s + 1 < 2 ^ 32 \<Longrightarrow>
    DllGetClassObject outcome rclsid riid s = (hr, r, s') \<Longrightarrow> server_reach s'"
| create: "server_reach s \<Longrightarrow> total_refs s + 1 < 2 ^ 32 \<Longrightarrow>
    CreateInstance i outer riid s = Some (hr, r, s') \<Longrightarrow> server_reach s'"
| add_ref: "server_reach s \<Longrightarrow> total_refs s + 1 < 2 ^ 32 \<Longrightarrow> server_AddRef i s = Some (n, s') \<Longrightarrow> server_reach s'"
| query: "server_reach s \<Longrightarrow> total_refs s + 1 < 2 ^ 32 \<Longrightarrow>
    server_QueryInterface i riid s = Some (hr, s') \<Longrightarrow> server_reach s'"
| release: "server_reach s \<Longrightarrow> server_Release i s = Some (n, s') \<Longrightarrow> server_reach s'"

lemma object_AddRef_refs:
  "\<exists>x'. object_AddRef x (Some c) = (obj_refs x + 1, x', Some (c + 1)) \<and> obj_refs x' = obj_refs x + 1"
  by (cases x) (simp_all add: factory_AddRef_def AddRef_def peer_AddRef_def Let_def)

lemma object_Release_refs:
  "\<exists>x'. object_Release x (Some c) = (obj_refs x - 1, if obj_refs x - 1 = 0 then None else Some x', Some (c - 1))
     \<and> obj_refs x' = obj_refs x - 1"
proof (cases x)
  case (FactoryObj f)
  then show ?thesis
    by (intro exI [of _ "FactoryObj (f\<lparr>fac_refcount := fac_refcount f - 1\<rparr>)"])
      (simp add: factory_Release_def Let_def)
next
  case (AddressObj a)
  then show ?thesis
    by (intro exI [of _ "AddressObj (a\<lparr>local_refcount := local_refcount a - 1\<rparr>)"])
      (simp add: Release_def Let_def)
next
  case (PeerObj p)
  then show ?thesis
    by (intro exI [of _ "PeerObj (p\<lparr>peer_refcount := peer_refcount p - 1\<rparr>)"])
      (simp add: peer_Release_def Let_def)
qed

lemma sum_refs_update:
  assumes "distinct (map fst l)" "map_of l i = Some x"
  shows "sum_list (map (\<lambda>(j, y). f y) (map (\<lambda>(j, y). (j, if j = i then z else y)) l)) + f x =
    (sum_list (map (\<lambda>(j, y). f y) l) :: nat) + f z"
  using assms
proof (induction l)
  case (Cons p l)
  obtain j y where p: "p = (j, y)" by (cases p)
  show ?case
  proof (cases "j = i")
    case True
    with Cons.prems p have "map (\<lambda>(j, y). (j, if j = i then z else y)) l = l"
      by (intro map_idI) force
    with True p Cons.prems show ?thesis by simp
  next
    case False
    with p Cons show ?thesis by simp
  qed
qed simp

lemma sum_refs_filter:
  assumes "distinct (map fst l)" "map_of l i = Some x"
  shows "sum_list (map (\<lambda>(j, y). f y) (filter (\<lambda>(j, y). j \<noteq> i) l)) + f x = (sum_list (map (\<lambda>(j, y). f y) l) :: nat)"
  using assms
proof (induction l)
  case (Cons p l)
  obtain j y where p: "p = (j, y)" by (cases p)
  show ?case
  proof (cases "j = i")
    case True
    with Cons.prems p have "filter (\<lambda>(j, y). j \<noteq> i) l = l"
      by (intro filter_True) force
    with True p Cons.prems show ?thesis by simp
  next
    case False
    with p Cons show ?thesis by simp
  qed
qed simp

lemma map_fst_update: "map fst (map (\<lambda>(j, y). (j, if j = i then z else y)) l) = map fst l"
  by (induction l) auto

lemma distinct_map_fst_filter: "distinct (map fst l) \<Longrightarrow> distinct (map fst (filter P l))"
  by (induction l) auto

lemma server_inv_enter:
  assumes "server_inv s" "total_refs s + 1 < 2 ^ 32" "obj_refs x = 1" "g = Some (global_refcount s + 1)"
    and "enter_object x g s = (i, s')"
  shows "server_inv s'"
  using assms by (force simp: enter_object_def server_inv_def total_refs_def)

lemma server_inv_AddRef:
  assumes "server_inv s" "total_refs s + 1 < 2 ^ 32" "server_AddRef i s = Some (n, s')"
  shows "server_inv s'"
proof -
  from assms(3) obtain x where x: "map_of (objects s) i = Some x"
    by (auto simp: server_AddRef_def split: option.splits)
  from object_AddRef_refs [of x "global_refcount s"] obtain x' where
    x': "object_AddRef x (Some (global_refcount s)) = (obj_refs x + 1, x', Some (global_refcount s + 1))"
      "obj_refs x' = obj_refs x + 1" by blast
  let ?l = "map (\<lambda>(j, y). (j, if j = i then x' else y)) (objects s)"
  have s': "s' = s\<lparr>global_refcount := global_refcount s + 1, objects := ?l\<rparr>"
    using assms(3) x x'(1) by (simp add: server_AddRef_def)
  have d: "distinct (map fst (objects s))" and pos: "(i, x) \<in> set (objects s)" "obj_refs x \<noteq> 0"
    using assms(1) map_of_SomeD [OF x] by (auto simp: server_inv_def)
  have "unat (obj_refs x) \<le> total_refs s"
    using pos(1) by (auto simp: total_refs_def intro!: member_le_sum_list)
  then have u: "unat (obj_refs x + 1) = unat (obj_refs x) + 1"
    using assms(2) by (subst unat_add_small) auto
  then have nz: "obj_refs x' \<noteq> 0" using x'(2) by (metis unat_0 add_is_0 one_neq_zero)
  have "total_refs s' = total_refs s + 1"
    using sum_refs_update [OF d x, of "\<lambda>y. unat (obj_refs y)" x'] x'(2) u by (simp add: total_refs_def s')
  moreover have "\<forall>(j, y) \<in> set ?l. j < next_object s \<and> obj_refs y \<noteq> 0"
    using assms(1) nz by (auto simp: server_inv_def split: if_splits)
  moreover have "distinct (map fst ?l)" unfolding map_fst_update by (rule d)
  ultimately show ?thesis using assms(1,2) unfolding server_inv_def s' by simp
qed

lemma server_inv_Release:
  assumes "server_inv s" "server_Release i s = Some (n, s')"
  shows "server_inv s'"
proof -
  from assms(2) obtain x where x: "map_of (objects s) i = Some x"
    by (auto simp: server_Release_def split: option.splits)
  from object_Release_refs [of x "global_refcount s"] obtain x' where
    x': "object_Release x (Some (global_refcount s)) =
        (obj_refs x - 1, if obj_refs x - 1 = 0 then None else Some x', Some (global_refcount s - 1))"
      "obj_refs x' = obj_refs x - 1" by blast
  have d: "distinct (map fst (objects s))" and nz: "obj_refs x \<noteq> 0"
    and all: "\<forall>(j, y) \<in> set (objects s). j < next_object s \<and> obj_refs y \<noteq> 0"
    using assms(1) map_of_SomeD [OF x] by (auto simp: server_inv_def)
  have u: "unat (obj_refs x - 1) + 1 = unat (obj_refs x)" using nz by (simp add: unat_minus_one unat_gt_0)
  have key: "server_inv s'" if "distinct (map fst (objects s'))" "Suc (total_refs s') = total_refs s"
    "\<forall>(j, y) \<in> set (objects s'). j < next_object s \<and> obj_refs y \<noteq> 0"
    "next_object s' = next_object s" "global_refcount s' = global_refcount s - 1"
    using that assms(1) unfolding server_inv_def by (auto simp flip: that(2))
  show ?thesis
  proof (cases "obj_refs x - 1 = 0")
    case True
    then have s': "s' = s\<lparr>global_refcount := global_refcount s - 1, objects := filter (\<lambda>(j, y). j \<noteq> i) (objects s)\<rparr>"
      using assms(2) x x'(1) by (simp add: server_Release_def)
    have one: "unat (obj_refs x) = 1" using True u by simp
    show ?thesis
    proof (rule key)
      show "Suc (total_refs s') = total_refs s"
        using sum_refs_filter [OF d x, of "\<lambda>y. unat (obj_refs y)"] one by (simp add: total_refs_def s')
    qed (use all d distinct_map_fst_filter [of "objects s"] in \<open>auto simp: s'\<close>)
  next
    case False
    then have s': "s' = s\<lparr>global_refcount := global_refcount s - 1,
        objects := map (\<lambda>(j, y). (j, if j = i then x' else y)) (objects s)\<rparr>"
      using assms(2) x x'(1) by (simp add: server_Release_def)
    show ?thesis
    proof (rule key)
      show "Suc (total_refs s') = total_refs s"
        using sum_refs_update [OF d x, of "\<lambda>y. unat (obj_refs y)" x'] x'(2) u by (simp add: total_refs_def s')
      show "distinct (map fst (objects s'))" using d by (simp add: s' map_fst_update del: map_map)
      show "\<forall>(j, y) \<in> set (objects s'). j < next_object s \<and> obj_refs y \<noteq> 0"
        using all False x'(2) by (auto simp: s' split: if_splits)
    qed (simp_all add: s')
  qed
qed

lemma new_objects:
  "new_Factory c (Some n) = (f, g) \<Longrightarrow> obj_refs (FactoryObj f) = 1 \<and> g = Some (n + 1)"
  "new_address (Some n) = (a, g) \<Longrightarrow> obj_refs (AddressObj a) = 1 \<and> g = Some (n + 1)"
  "new_peer_object (Some n) = (p, g) \<Longrightarrow> obj_refs (PeerObj p) = 1 \<and> g = Some (n + 1)"
  by (auto simp: new_Factory_def factory_AddRef_def new_address_def AddRef_def new_peer_object_def
      peer_AddRef_def Let_def)

lemma server_reach_inv: "server_reach s \<Longrightarrow> server_inv s"
proof (induction rule: server_reach.induct)
  case attach
  then show ?case by (simp add: server_inv_def DllMain_attach_def total_refs_def)
next
  case (class_object s outcome rclsid riid hr r s')
  then show ?case
    by (auto simp: DllGetClassObject_def CreateFactoryInstance_def split: if_splits option.splits
        alloc_failure.splits prod.splits dest!: new_objects intro: server_inv_enter)
next
  case (create s i outer riid hr r s')
  then show ?case
    by (auto simp: CreateInstance_def split: if_splits option.splits com_object.splits com_class.splits
        prod.splits dest!: new_objects intro: server_inv_enter)
next
  case (add_ref s i n s')
  then show ?case using server_inv_AddRef by blast
next
  case (query s i riid hr s')
  then show ?case
    by (auto simp: server_QueryInterface_def split: option.splits if_splits intro: server_inv_AddRef)
next
  case (release s i n s')
  then show ?case using server_inv_Release by blast
qed

text \<open>
  C37: the library can be unloaded exactly when it is not in use: while fewer than \<open>2 ^ 32\<close>
  references exist, the shared counter is the sum of the reference counts of all live factories,
  addresses and peers, every live object has a reference, and \<open>DllCanUnloadNow\<close> answers \<open>S_OK\<close> if and
  only if no object is alive.
\<close>

theorem unload_iff_unused:
  assumes "server_reach s"
  shows "global_refcount s = word_of_nat (total_refs s)
    \<and> (\<forall>(i, x) \<in> set (objects s). obj_refs x \<noteq> 0)
    \<and> (DllCanUnloadNow s = S_OK \<longleftrightarrow> objects s = [])"
proof -
  have inv: "server_inv s" by (rule server_reach_inv [OF assms])
  then have nz: "\<forall>(i, x) \<in> set (objects s). obj_refs x \<noteq> 0" by (auto simp: server_inv_def)
  have "global_refcount s = 0 \<longleftrightarrow> total_refs s = 0"
    using inv by (auto simp: server_inv_def word_unat_eq_iff unat_word_of_nat_small)
  also have "\<dots> \<longleftrightarrow> objects s = []"
    using nz by (cases "objects s") (auto simp: total_refs_def unat_eq_zero)
  finally show ?thesis using inv nz by (auto simp: server_inv_def DllCanUnloadNow_def const_defs S_FALSE_def)
qed

theorem unload_iff_unused_witness:
  "\<exists>s1 s2 i. DllGetClassObject None CLSID_DirectPlay8Peer IID_IClassFactory DllMain_attach = (S_OK, Some i, s1)
     \<and> DllCanUnloadNow s1 = S_FALSE \<and> server_Release i s1 = Some (0, s2) \<and> DllCanUnloadNow s2 = S_OK"
proof -
  have find: "find (\<lambda>(clsid, _). CLSID_DirectPlay8Peer = clsid) DLL_CLASSES =
      Some (CLSID_DirectPlay8Peer, ''DirectPlay8Peer Object'', DirectPlay8PeerClass)"
    by (simp add: DLL_CLASSES_def guid_defs DEFINE_GUID_def guid.enc_inject) code_simp
  let ?s1 = "\<lparr>global_refcount = 1, objects = [(0, FactoryObj \<lparr>fac_class = DirectPlay8PeerClass, fac_refcount = 1\<rparr>)],
      next_object = 1\<rparr>"
  let ?s2 = "\<lparr>global_refcount = 0, objects = [], next_object = 1\<rparr> :: com_server"
  have 1: "DllGetClassObject None CLSID_DirectPlay8Peer IID_IClassFactory DllMain_attach = (S_OK, Some 0, ?s1)"
    unfolding DllGetClassObject_def find
    by (simp add: CreateFactoryInstance_def new_Factory_def factory_AddRef_def enter_object_def
        DllMain_attach_def Let_def)
  have 2: "server_Release 0 ?s1 = Some (0, ?s2)"
    by (simp add: server_Release_def factory_Release_def Let_def)
  have "server_reach ?s1"
    by (rule class_object [OF attach _ 1]) (simp add: total_refs_def DllMain_attach_def)
  then have r2: "server_reach ?s2" by (rule release [OF _ 2])
  show ?thesis
    using 1 2 unload_iff_unused [OF \<open>server_reach ?s1\<close>] unload_iff_unused [OF r2]
    by (intro exI [of _ ?s1] exI [of _ ?s2] exI [of _ 0]) (simp add: DllCanUnloadNow_def)
qed

end
