(* ===== verification/Registration.thy ===== *)
theory Registration
  imports ComServer
begin

text \<open>
  Self-registration of the library, \<^verbatim>\<open>DllRegisterServer\<close> and \<^verbatim>\<open>DllUnregisterServer\<close> of
  \<^verbatim>\<open>src/src/dpnet.cpp\<close>. The registry of Windows and the loader are the parameter \<open>reg_api\<close>, a record of
  the functions the code calls, over an arbitrary type of registry contents. The state threaded through
  adds the key handles the code holds open.
\<close>

definition SELFREG_E_CLASS :: hresult where "SELFREG_E_CLASS = 0x80040201"
definition ERROR_OK :: dword where "ERROR_OK = 0"
definition ERROR_FILE_NOT_FOUND :: dword where "ERROR_FILE_NOT_FOUND = 2"
definition MAX_PATH :: nat where "MAX_PATH = 260"

type_synonym HKEY = nat

record 'w reg_api =
  get_module_handle :: "nat option"
  get_module_file_name :: "nat \<Rightarrow> nat \<Rightarrow> dword \<times> string"
  string_from_clsid :: "guid \<Rightarrow> hresult \<times> string"
  reg_create_key :: "HKEY option \<Rightarrow> string \<Rightarrow> 'w \<Rightarrow> dword \<times> HKEY \<times> 'w"
  reg_open_key :: "HKEY option \<Rightarrow> string \<Rightarrow> 'w \<Rightarrow> dword \<times> HKEY \<times> 'w"
  reg_set_value :: "HKEY \<Rightarrow> string option \<Rightarrow> string \<Rightarrow> 'w \<Rightarrow> dword \<times> 'w"
  reg_delete_value :: "HKEY \<Rightarrow> string option \<Rightarrow> 'w \<Rightarrow> dword \<times> 'w"
  reg_delete_key :: "HKEY option \<Rightarrow> string \<Rightarrow> 'w \<Rightarrow> 'w"

text \<open>\<open>None\<close> as a key is \<^verbatim>\<open>HKEY_LOCAL_MACHINE\<close>; \<open>None\<close> as a value name is the default value.\<close>

record 'w reg_state =
  registry :: 'w
  open_keys :: "HKEY list"
  reg_status :: hresult

definition create_key :: "'w reg_api \<Rightarrow> HKEY option \<Rightarrow> string \<Rightarrow> 'w reg_state \<Rightarrow> HKEY option \<times> 'w reg_state" where
  "create_key api parent path s =
     (let (err, k, w) = reg_create_key api parent path (registry s)
      in if err = ERROR_OK then (Some k, s\<lparr>registry := w, open_keys := k # open_keys s\<rparr>)
         else (None, s\<lparr>registry := w\<rparr>))"

definition open_key ::
  "'w reg_api \<Rightarrow> HKEY option \<Rightarrow> string \<Rightarrow> 'w reg_state \<Rightarrow> dword \<times> HKEY \<times> 'w reg_state" where
  "open_key api parent path s =
     (let (err, k, w) = reg_open_key api parent path (registry s)
      in (err, k, s\<lparr>registry := w, open_keys := (if err = ERROR_OK then k # open_keys s else open_keys s)\<rparr>))"

definition RegCloseKey :: "HKEY \<Rightarrow> 'w reg_state \<Rightarrow> 'w reg_state" where
  "RegCloseKey k s = s\<lparr>open_keys := remove1 k (open_keys s)\<rparr>"

text \<open>A write, or a deletion, whose failure makes the whole call report \<^verbatim>\<open>SELFREG_E_CLASS\<close>.\<close>

definition set_value :: "'w reg_api \<Rightarrow> HKEY \<Rightarrow> string option \<Rightarrow> string \<Rightarrow> 'w reg_state \<Rightarrow> 'w reg_state" where
  "set_value api k n v s =
     (let (err, w) = reg_set_value api k n (v @ [CHR 0x00]) (registry s)
      in s\<lparr>registry := w, reg_status := (if err \<noteq> ERROR_OK then SELFREG_E_CLASS else reg_status s)\<rparr>)"

definition delete_value :: "'w reg_api \<Rightarrow> HKEY \<Rightarrow> string option \<Rightarrow> 'w reg_state \<Rightarrow> 'w reg_state" where
  "delete_value api k n s =
     (let (err, w) = reg_delete_value api k n (registry s)
      in s\<lparr>registry := w,
         reg_status := (if err \<noteq> ERROR_OK \<and> err \<noteq> ERROR_FILE_NOT_FOUND then SELFREG_E_CLASS else reg_status s)\<rparr>)"

definition delete_key :: "'w reg_api \<Rightarrow> HKEY option \<Rightarrow> string \<Rightarrow> 'w reg_state \<Rightarrow> 'w reg_state" where
  "delete_key api parent path s = s\<lparr>registry := reg_delete_key api parent path (registry s)\<rparr>"

text \<open>The path of a class, cut to the 71 characters \<^verbatim>\<open>snprintf\<close> leaves in its buffer.\<close>

definition clsid_path :: "string \<Rightarrow> string" where
  "clsid_path c =
     take 71 (''SOFTWARE'' @ [CHR 0x5C] @ ''Classes'' @ [CHR 0x5C] @ ''CLSID'' @ [CHR 0x5C] @ c)"

text \<open>The value written under the key \<^verbatim>\<open>InprocServer32\<close> goes to \<open>clsid_key\<close>, as in the source.\<close>

definition register_inproc :: "'w reg_api \<Rightarrow> string \<Rightarrow> HKEY \<Rightarrow> 'w reg_state \<Rightarrow> 'w reg_state" where
  "register_inproc api dll_path clsid_key s =
     (case create_key api (Some clsid_key) ''InprocServer32'' s of
        (Some ips32_key, s1) \<Rightarrow>
          (let s2 = set_value api clsid_key None dll_path s1;
               s3 = set_value api clsid_key (Some ''ThreadingModel'') ''Both'' s2
           in RegCloseKey ips32_key s3)
      | (None, s1) \<Rightarrow> s1\<lparr>reg_status := SELFREG_E_CLASS\<rparr>)"

definition register_one_class ::
  "'w reg_api \<Rightarrow> string \<Rightarrow> guid \<times> string \<times> com_class \<Rightarrow> 'w reg_state \<Rightarrow> 'w reg_state" where
  "register_one_class api dll_path c s =
     (case c of (clsid, desc, _) \<Rightarrow>
       (let (status2, clsid_string) = string_from_clsid api clsid in
        if status2 = E_OUTOFMEMORY then s\<lparr>reg_status := E_OUTOFMEMORY\<rparr>
        else if status2 \<noteq> S_OK then s\<lparr>reg_status := SELFREG_E_CLASS\<rparr>
        else case create_key api None (clsid_path clsid_string) s of
          (Some clsid_key, s1) \<Rightarrow>
            RegCloseKey clsid_key (register_inproc api dll_path clsid_key (set_value api clsid_key None desc s1))
        | (None, s1) \<Rightarrow> s1\<lparr>reg_status := SELFREG_E_CLASS\<rparr>))"

definition DllRegisterServer :: "'w reg_api \<Rightarrow> 'w \<Rightarrow> hresult \<times> 'w reg_state" where
  "DllRegisterServer api w =
     (let s = \<lparr>registry = w, open_keys = [], reg_status = S_OK\<rparr> in
      case get_module_handle api of
        None \<Rightarrow> (E_UNEXPECTED, s)
      | Some this_dll \<Rightarrow>
          (let (n, this_dll_path) = get_module_file_name api this_dll MAX_PATH in
           if n \<noteq> ERROR_OK then (E_UNEXPECTED, s)
           else let s' = fold (register_one_class api this_dll_path) DLL_CLASSES s in (reg_status s', s')))"

definition unregister_inproc :: "'w reg_api \<Rightarrow> HKEY \<Rightarrow> 'w reg_state \<Rightarrow> 'w reg_state" where
  "unregister_inproc api clsid_key s =
     (case open_key api (Some clsid_key) ''InprocServer32'' s of (err, ips32_key, s1) \<Rightarrow>
       if err = ERROR_OK then
         (let s2 = delete_value api ips32_key None s1;
              s3 = delete_value api ips32_key (Some ''ThreadingModel'') s2;
              s4 = RegCloseKey ips32_key s3
          in delete_key api (Some clsid_key) ''InprocServer32'' s4)
       else s1)"

definition unregister_one_class :: "'w reg_api \<Rightarrow> guid \<times> string \<times> com_class \<Rightarrow> 'w reg_state \<Rightarrow> 'w reg_state" where
  "unregister_one_class api c s =
     (case c of (clsid, _, _) \<Rightarrow>
       (let (status2, clsid_string) = string_from_clsid api clsid in
        if status2 = E_OUTOFMEMORY then s\<lparr>reg_status := E_OUTOFMEMORY\<rparr>
        else if status2 \<noteq> S_OK then s\<lparr>reg_status := SELFREG_E_CLASS\<rparr>
        else case open_key api None (clsid_path clsid_string) s of (err, clsid_key, s1) \<Rightarrow>
          if err = ERROR_OK then
            (let s2 = unregister_inproc api clsid_key (delete_value api clsid_key None s1)
             in delete_key api None (clsid_path clsid_string) (RegCloseKey clsid_key s2))
          else if err \<noteq> ERROR_FILE_NOT_FOUND then s1\<lparr>reg_status := SELFREG_E_CLASS\<rparr>
          else s1))"

definition DllUnregisterServer :: "'w reg_api \<Rightarrow> 'w \<Rightarrow> hresult \<times> 'w reg_state" where
  "DllUnregisterServer api w =
     (let s = fold (unregister_one_class api) DLL_CLASSES \<lparr>registry = w, open_keys = [], reg_status = S_OK\<rparr>
      in (reg_status s, s))"

section \<open>Key handles and results\<close>

named_theorems reg_keys "what the registry calls do to the open keys"

lemma reg_keys_calls [reg_keys]:
  "open_keys (set_value api k n v s) = open_keys s"
  "open_keys (delete_value api k n s) = open_keys s"
  "open_keys (delete_key api p path s) = open_keys s"
  "open_keys (RegCloseKey k s) = remove1 k (open_keys s)"
  by (simp_all add: set_value_def delete_value_def delete_key_def RegCloseKey_def split: prod.splits)

lemma register_inproc_keys [reg_keys]: "open_keys (register_inproc api p k s) = open_keys s"
  by (auto simp: register_inproc_def create_key_def reg_keys Let_def split: prod.splits if_splits)

lemma unregister_inproc_keys [reg_keys]: "open_keys (unregister_inproc api k s) = open_keys s"
  by (auto simp: unregister_inproc_def open_key_def reg_keys Let_def split: prod.splits if_splits)

lemma register_one_class_keys [reg_keys]: "open_keys (register_one_class api p c s) = open_keys s"
  by (auto simp: register_one_class_def create_key_def reg_keys Let_def split: prod.splits if_splits)

lemma unregister_one_class_keys [reg_keys]: "open_keys (unregister_one_class api c s) = open_keys s"
  by (auto simp: unregister_one_class_def open_key_def reg_keys Let_def split: prod.splits if_splits)

lemma fold_keys:
  assumes "\<And>c s. open_keys (f c s) = open_keys s"
  shows "open_keys (fold f cs s) = open_keys s"
  by (induction cs arbitrary: s) (simp_all add: assms)

text \<open>
  C40: unregistration leaks no key handle, whatever the registry answers, and
  \<^verbatim>\<open>DllRegisterServer\<close> never registers anything once the loader reports the path of the library: the
  length of the path is mistaken for an error, the call answers \<^verbatim>\<open>E_UNEXPECTED\<close> and the registry is left
  as it was.
\<close>

theorem registration_outcome:
  assumes "get_module_handle api = Some this_dll"
    and "get_module_file_name api this_dll MAX_PATH = (n, path)" and "0 < n"
  shows "open_keys (snd (DllUnregisterServer api w)) = [] \<and> open_keys (snd (DllRegisterServer api w)) = []
   \<and> DllRegisterServer api w = (E_UNEXPECTED, \<lparr>registry = w, open_keys = [], reg_status = S_OK\<rparr>)"
  using assms fold_keys [of "unregister_one_class api"]
  by (auto simp: DllRegisterServer_def DllUnregisterServer_def Let_def reg_keys ERROR_OK_def)

text \<open>Registration itself, were it reached, closes every key as well.\<close>

lemma register_no_leak: "open_keys (snd (DllRegisterServer api w)) = []"
  using fold_keys [of "register_one_class api p" for p]
  by (auto simp: DllRegisterServer_def Let_def reg_keys split: option.splits prod.splits)

text \<open>An instance: a loader that knows the library, and a registry that is the log of the calls made on it.\<close>

definition logging_api :: "string list reg_api" where
  "logging_api =
     \<lparr>get_module_handle = Some 1, get_module_file_name = (\<lambda>_ _. (9, ''dpnet.dll'')),
      string_from_clsid = (\<lambda>_. (S_OK, ''clsid'')),
      reg_create_key = (\<lambda>_ path w. (0, length w, w @ [path])),
      reg_open_key = (\<lambda>_ path w. (0, length w, w @ [path])),
      reg_set_value = (\<lambda>_ _ v w. (0, w @ [v])),
      reg_delete_value = (\<lambda>_ _ w. (ERROR_FILE_NOT_FOUND, w)),
      reg_delete_key = (\<lambda>_ path w. w @ [path])\<rparr>"

theorem registration_outcome_witness:
  "DllRegisterServer logging_api [] = (E_UNEXPECTED, \<lparr>registry = [], open_keys = [], reg_status = S_OK\<rparr>)
   \<and> open_keys (snd (DllUnregisterServer logging_api [])) = []"
  using registration_outcome [of logging_api 1 9 "''dpnet.dll''" "[]"]
  by (simp add: logging_api_def)

end
