(* ===== verification/OrdMap.thy ===== *)
theory OrdMap
  imports Main
begin

text \<open>
  The ordered containers of the C++ library as the peer uses them: \<^verbatim>\<open>std::map\<close> is an association
  list sorted by its keys, so that iteration (\<^verbatim>\<open>begin()\<close>, \<^verbatim>\<open>++\<close>) is traversal of the list. The
  locale \<open>keyed_store\<close> is what the clients of a map rely on; it is interpreted on the four operations
  below.
\<close>

section \<open>Operations\<close>

type_synonym ('k, 'v) omap = "('k \<times> 'v) list"

text \<open>\<^verbatim>\<open>find\<close>, \<open>None\<close> for \<^verbatim>\<open>end()\<close>.\<close>

definition om_find :: "'k \<Rightarrow> ('k, 'v) omap \<Rightarrow> 'v option" where
  "om_find k m = map_of m k"

text \<open>\<^verbatim>\<open>m[k] = v\<close>.\<close>

fun om_set :: "'k::linorder \<Rightarrow> 'v \<Rightarrow> ('k, 'v) omap \<Rightarrow> ('k, 'v) omap" where
  "om_set k v [] = [(k, v)]"
| "om_set k v ((j, w) # m) =
     (if k < j then (k, v) # (j, w) # m else if k = j then (k, v) # m else (j, w) # om_set k v m)"

text \<open>\<^verbatim>\<open>emplace\<close> and \<^verbatim>\<open>insert\<close>, which keep an element that is there.\<close>

definition om_emplace :: "'k::linorder \<Rightarrow> 'v \<Rightarrow> ('k, 'v) omap \<Rightarrow> ('k, 'v) omap" where
  "om_emplace k v m = (if om_find k m = None then om_set k v m else m)"

definition om_erase :: "'k \<Rightarrow> ('k, 'v) omap \<Rightarrow> ('k, 'v) omap" where
  "om_erase k m = filter (\<lambda>(j, v). j \<noteq> k) m"

text \<open>A write through a pointer or reference to the element of a key.\<close>

definition om_update :: "'k \<Rightarrow> ('v \<Rightarrow> 'v) \<Rightarrow> ('k, 'v) omap \<Rightarrow> ('k, 'v) omap" where
  "om_update k f m = map (\<lambda>(j, v). (j, if j = k then f v else v)) m"

definition om_keys :: "('k, 'v) omap \<Rightarrow> 'k list" where
  "om_keys m = map fst m"

text \<open>The invariant: keys in strictly increasing order.\<close>

definition om_wf :: "('k::linorder, 'v) omap \<Rightarrow> bool" where
  "om_wf m \<longleftrightarrow> sorted_wrt (<) (om_keys m)"

section \<open>Laws\<close>

lemma om_find_Nil [simp]: "om_find k [] = None"
  by (simp add: om_find_def)

lemma om_find_Cons: "om_find k ((j, v) # m) = (if k = j then Some v else om_find k m)"
  by (simp add: om_find_def)

lemma om_find_set [simp]: "om_find j (om_set k v m) = (if j = k then Some v else om_find j m)"
  by (induction k v m rule: om_set.induct) (auto simp: om_find_def)

lemma om_find_erase [simp]: "om_find j (om_erase k m) = (if j = k then None else om_find j m)"
  by (induction m) (auto simp: om_find_def om_erase_def)

lemma om_find_update [simp]:
  "om_find j (om_update k f m) = (if j = k then map_option f (om_find j m) else om_find j m)"
  by (induction m) (auto simp: om_find_def om_update_def)

lemma om_find_emplace [simp]:
  "om_find j (om_emplace k v m) = (if j = k \<and> om_find k m = None then Some v else om_find j m)"
  by (simp add: om_emplace_def)

lemma om_find_None_iff: "om_find k m = None \<longleftrightarrow> k \<notin> set (om_keys m)"
  by (simp add: om_find_def om_keys_def map_of_eq_None_iff)

lemma om_find_Some_mem: "om_find k m = Some v \<Longrightarrow> (k, v) \<in> set m"
  by (simp add: om_find_def map_of_SomeD)

lemma om_keys_update [simp]: "om_keys (om_update k f m) = om_keys m"
  by (induction m) (auto simp: om_keys_def om_update_def)

lemma om_keys_erase [simp]: "om_keys (om_erase k m) = filter (\<lambda>j. j \<noteq> k) (om_keys m)"
  by (induction m) (auto simp: om_keys_def om_erase_def)

lemma om_keys_set: "set (om_keys (om_set k v m)) = insert k (set (om_keys m))"
  by (induction k v m rule: om_set.induct) (auto simp: om_keys_def)

lemma om_wf_distinct: "om_wf m \<Longrightarrow> distinct (om_keys m)"
  by (simp add: om_wf_def strict_sorted_iff)

lemma om_wf_Nil [simp]: "om_wf []"
  by (simp add: om_wf_def om_keys_def)

lemma om_wf_Cons: "om_wf ((k, v) # m) \<longleftrightarrow> (\<forall>j \<in> set (om_keys m). k < j) \<and> om_wf m"
  by (simp add: om_wf_def om_keys_def)

lemma om_wf_set [simp]: "om_wf m \<Longrightarrow> om_wf (om_set k v m)"
  by (induction k v m rule: om_set.induct) (auto simp: om_wf_Cons om_keys_set, auto simp: om_keys_def)

lemma om_wf_erase [simp]: "om_wf m \<Longrightarrow> om_wf (om_erase k m)"
  by (simp add: om_wf_def sorted_wrt_filter)

lemma om_wf_update [simp]: "om_wf (om_update k f m) = om_wf m"
  by (simp add: om_wf_def)

lemma om_wf_emplace [simp]: "om_wf m \<Longrightarrow> om_wf (om_emplace k v m)"
  by (simp add: om_emplace_def)

lemma om_wf_mem_find: "om_wf m \<Longrightarrow> (k, v) \<in> set m \<Longrightarrow> om_find k m = Some v"
  by (simp add: om_find_def om_wf_def om_keys_def strict_sorted_iff)

lemma om_update_not_in: "om_find k m = None \<Longrightarrow> om_update k f m = m"
  by (induction m) (auto simp: om_find_def om_update_def split: if_splits)

lemma om_erase_not_in: "om_find k m = None \<Longrightarrow> om_erase k m = m"
  by (induction m) (auto simp: om_find_def om_erase_def split: if_splits)

lemma om_update_update [simp]: "om_update k f (om_update k g m) = om_update k (f \<circ> g) m"
  by (induction m) (auto simp: om_update_def)

lemma om_erase_update [simp]: "om_erase k (om_update k f m) = om_erase k m"
  by (induction m) (auto simp: om_erase_def om_update_def)

lemma length_om_erase_less: "om_find k m = Some v \<Longrightarrow> length (om_erase k m) < length m"
  by (induction m) (auto simp: om_find_def om_erase_def split: if_splits intro: le_imp_less_Suc)

lemma length_om_update [simp]: "length (om_update k f m) = length m"
  by (simp add: om_update_def)

section \<open>The contract\<close>

locale keyed_store =
  fixes look :: "'k \<Rightarrow> 'm \<Rightarrow> 'v option"
    and assign :: "'k \<Rightarrow> 'v \<Rightarrow> 'm \<Rightarrow> 'm"
    and remove :: "'k \<Rightarrow> 'm \<Rightarrow> 'm"
    and modify :: "'k \<Rightarrow> ('v \<Rightarrow> 'v) \<Rightarrow> 'm \<Rightarrow> 'm"
  assumes look_assign: "look j (assign k v m) = (if j = k then Some v else look j m)"
    and look_remove: "look j (remove k m) = (if j = k then None else look j m)"
    and look_modify: "look j (modify k f m) = (if j = k then map_option f (look j m) else look j m)"
begin

text \<open>A property of all elements survives what keeps it for the element touched.\<close>

definition all_elems :: "('k \<Rightarrow> 'v \<Rightarrow> bool) \<Rightarrow> 'm \<Rightarrow> bool" where
  "all_elems P m \<longleftrightarrow> (\<forall>k v. look k m = Some v \<longrightarrow> P k v)"

lemma all_elemsD: "all_elems P m \<Longrightarrow> look k m = Some v \<Longrightarrow> P k v"
  by (simp add: all_elems_def)

lemma all_assign: "all_elems P m \<Longrightarrow> P k v \<Longrightarrow> all_elems P (assign k v m)"
  by (simp add: all_elems_def look_assign)

lemma all_remove: "all_elems P m \<Longrightarrow> all_elems P (remove k m)"
  by (simp add: all_elems_def look_remove)

lemma all_modify: "all_elems P m \<Longrightarrow> (\<And>v. look k m = Some v \<Longrightarrow> P k v \<Longrightarrow> P k (f v)) \<Longrightarrow> all_elems P (modify k f m)"
  by (auto simp: all_elems_def look_modify)

lemma modify_absent: "look k m = None \<Longrightarrow> look j (modify k f m) = look j m"
  by (auto simp: look_modify)

end

interpretation om: keyed_store om_find om_set om_erase om_update
  by unfold_locales simp_all

end
