(* ===== verification/PeerState.thy ===== *)
theory PeerState
  imports Network HostEnum HandlePool AsyncHandles OrdMap
begin

text \<open>
  The state of \<^verbatim>\<open>DirectPlay8Peer\<close> (\<^verbatim>\<open>src/src/DirectPlay8Peer.hpp\<close>), the methods of its inner classes
  \<^verbatim>\<open>Peer\<close> and \<^verbatim>\<open>Group\<close>, the lookups, and the delivery of messages to the application.

  The closures the code installs are defunctionalised: \<open>send_cb\<close> is what a queued send runs when it
  ends, \<open>ack_cb\<close> what an acknowledgement runs, \<open>task\<close> the body of a detached thread. The variables such
  closures share (the counter \<^verbatim>\<open>pending\<close>, the result of a synchronous call) are an entry of \<open>async_ops\<close>;
  entering the application is the parameter \<open>app\<close>, which also stands for everything other threads do
  while the lock is released. \<open>delivered\<close> records the messages handed to the application and
  \<open>closed_sockets\<close> the sockets closed; no code reads them.
\<close>

section \<open>Data\<close>

datatype State =
    STATE_NEW
  | STATE_INITIALISED
  | STATE_HOSTING
  | STATE_CONNECTING_TO_HOST
  | STATE_CONNECTING_TO_PEERS
  | STATE_CONNECT_FAILED
  | STATE_CONNECTED
  | STATE_CLOSING
  | STATE_TERMINATED

datatype PeerState =
    PS_ACCEPTED
  | PS_CONNECTING_HOST
  | PS_REQUESTING_HOST
  | PS_CONNECTING_PEER
  | PS_REQUESTING_PEER
  | PS_INDICATING
  | PS_CONNECTED
  | PS_CLOSING

text \<open>What runs when a queued packet has been sent, or will not be sent.\<close>

datatype send_cb =
    CbNone
  | CbComplete nat
  | CbAwaitAck dword dword nat
  | CbAllocate dpnid dword nat "wchar list" "byte list" ctx
  | CbSend nat
  | CbPeerInfo dword dword nat

text \<open>What runs when a peer acknowledges a request.\<close>

datatype ack_cb =
    AckComplete nat
  | AckCreateGroup nat "wchar list" "byte list" ctx
  | AckPeerInfo nat

text \<open>
  A peer of the session and the connection to it. \<open>sock_sent\<close> is not a member of the class: it is what
  \<^verbatim>\<open>send\<close> has taken on the connection, an effect of the program like \<open>delivered\<close> and \<open>closed_sockets\<close> below.
\<close>

record Peer =
  pstate :: PeerState
  sock :: nat
  ip :: dword
  port :: "16 word"
  player_id :: dpnid
  player_ctx :: ctx
  player_name :: "wchar list"
  player_data :: "byte list"
  recv_busy :: bool
  recv_buf :: "byte list"
  event :: HANDLE
  events :: dword
  sq :: "send_cb SendQueue"
  send_open :: bool
  sock_sent :: "byte list"
  next_ack_id :: dword
  pending_acks :: "(dword, ack_cb) omap"

record Group =
  group_name :: "wchar list"
  group_data :: "byte list"
  group_ctx :: ctx
  player_ids :: "dpnid set"

text \<open>The variables shared by the closures of one asynchronous or synchronous operation.\<close>

record async_op =
  op_pending :: int
  op_sync :: bool
  op_handle :: dpnhandle
  op_context :: ctx
  op_flags :: dword
  op_result :: "hresult option"

datatype task =
    TaskCreateGroup dpnid ctx nat
  | TaskDestroyGroup dpnid nat
  | TaskAddPlayer dpnid ctx nat
  | TaskRemovePlayer dpnid ctx nat
  | TaskSendComplete nat

text \<open>The closures of the work queue: a message of the local player to itself.\<close>

datatype work = WorkReceive "byte list" dword nat

datatype pool_job = JobUdp | JobOther | JobWork | JobPeer dword

record DirectPlay8Peer =
  state :: State
  handle_alloc :: AsyncHandleAllocator
  async_host_enums :: "(dpnhandle, HostEnumerator) omap"
  sync_host_enums :: "HostEnumerator list"
  instance_guid :: guid
  application_guid :: guid
  max_players :: dword
  session_name :: "wchar list"
  password :: "wchar list"
  application_data :: "byte list"
  service_provider :: guid
  local_ip :: dword
  local_port :: "16 word"
  udp_socket :: "nat option"
  listener_socket :: "nat option"
  discovery_socket :: "nat option"
  worker_pool :: "(HANDLE \<times> pool_job) list"
  work_queue :: "work list"
  udp_sq :: "send_cb SendQueue"
  local_player_id :: dpnid
  local_player_ctx :: ctx
  local_player_name :: "wchar list"
  local_player_data :: "byte list"
  next_player_id :: dpnid
  host_player_id :: dpnid
  next_peer_id :: dword
  peers :: "(dword, Peer) omap"
  player_to_peer_id :: "(dpnid, dword) omap"
  groups :: "(dpnid, Group) omap"
  destroyed_groups :: "dpnid set"
  connect_ctx :: ctx
  connect_handle :: dpnhandle
  connect_req_data :: "byte list"
  connect_result :: hresult
  connect_reply_data :: "byte list"
  async_ops :: "(nat, async_op) omap"
  next_op :: nat
  threads :: "task list"
  delivered :: "dpnmsg list"
  closed_sockets :: "nat list"

text \<open>
  How a step can go wrong: a failed assertion, a null pointer dereferenced, an access to a peer that
  has been deleted, a completion of an operation whose variables have been freed, an exception of the
  packet parser that leaves the handler or a read of the parser outside the packet, a parser that
  runs for ever, or the end of the fuel.
\<close>

datatype fault = AssertFailed | NullDeref | UseAfterFree | OpFreed | Uncaught pd_error | Diverges | OutOfFuel

text \<open>An expression of the parser that may throw, outside a \<^verbatim>\<open>try\<close> block.\<close>

definition throws :: "pd_error + 'a \<Rightarrow> fault + 'a" where
  "throws r = (case r of Inl e \<Rightarrow> Inl (Uncaught e) | Inr x \<Rightarrow> Inr x)"

lemma throws_simps [simp]: "throws (Inl e) = Inl (Uncaught e)" "throws (Inr x) = Inr x"
  by (simp_all add: throws_def)

text \<open>
  A \<^verbatim>\<open>try\<close> block whose parsing part throws is left, with a message in the log only. A read outside the
  packet is no exception.
\<close>

definition attempt :: "pd_error + 'a \<Rightarrow> ('a \<Rightarrow> fault + 's) \<Rightarrow> 's \<Rightarrow> fault + 's" where
  "attempt r body s =
     (case r of Inl e \<Rightarrow> (if e = OutOfBounds then Inl (Uncaught e) else Inr s) | Inr x \<Rightarrow> body x)"

lemma attempt_simps [simp]:
  "e \<noteq> OutOfBounds \<Longrightarrow> attempt (Inl e) body s = Inr s" "attempt (Inr x) body s = body x"
  by (simp_all add: attempt_def)

definition asserting :: "bool \<Rightarrow> fault + 'a \<Rightarrow> fault + 'a" where
  "asserting b r = (if b then r else Inl AssertFailed)"

section \<open>Peers and groups\<close>

definition FD_READ :: dword where "FD_READ = 0x01"
definition FD_WRITE :: dword where "FD_WRITE = 0x02"
definition FD_CONNECT :: dword where "FD_CONNECT = 0x10"
definition FD_CLOSE :: dword where "FD_CLOSE = 0x20"

text \<open>The constructor leaves the player identifier and context as it finds them.\<close>

definition new_Peer :: "dpnid \<Rightarrow> ctx \<Rightarrow> HANDLE \<Rightarrow> PeerState \<Rightarrow> nat \<Rightarrow> dword \<Rightarrow> 16 word \<Rightarrow> Peer" where
  "new_Peer uninit_id uninit_ctx ev st s a p =
     \<lparr>pstate = st, sock = s, ip = a, port = p, player_id = uninit_id, player_ctx = uninit_ctx,
      player_name = [], player_data = [], recv_busy = False, recv_buf = [], event = ev, events = 0,
      sq = new_SendQueue, send_open = True, sock_sent = [], next_ack_id = 1, pending_acks = []\<rparr>"

definition new_Group :: "wchar list \<Rightarrow> byte list \<Rightarrow> ctx \<Rightarrow> Group" where
  "new_Group n d c = \<lparr>group_name = n, group_data = d, group_ctx = c, player_ids = {}\<rparr>"

text \<open>\<open>ok\<close> is the success of \<^verbatim>\<open>WSAEventSelect\<close>.\<close>

definition enable_events :: "bool \<Rightarrow> dword \<Rightarrow> Peer \<Rightarrow> bool \<times> Peer" where
  "enable_events ok evs p = (if ok then (True, p\<lparr>events := events p OR evs\<rparr>) else (False, p))"

definition disable_events :: "bool \<Rightarrow> dword \<Rightarrow> Peer \<Rightarrow> bool \<times> Peer" where
  "disable_events ok evs p = (if ok then (True, p\<lparr>events := events p AND NOT evs\<rparr>) else (False, p))"

definition alloc_ack_id :: "Peer \<Rightarrow> dword \<times> Peer" where
  "alloc_ack_id p =
     (let ack_id = next_ack_id p; n = next_ack_id p + 1
      in (ack_id, p\<lparr>next_ack_id := (if n = 0 then n + 1 else n)\<rparr>))"

definition register_ack :: "dword \<Rightarrow> ack_cb \<Rightarrow> Peer \<Rightarrow> fault + Peer" where
  "register_ack ack_id cb p =
     asserting (om_find ack_id (pending_acks p) = None) (Inr (p\<lparr>pending_acks := om_emplace ack_id cb (pending_acks p)\<rparr>))"

definition send_ack :: "dword \<Rightarrow> hresult \<Rightarrow> byte list \<Rightarrow> Peer \<Rightarrow> Peer" where
  "send_ack ack_id result data p =
     p\<lparr>sq := send SEND_PRI_HIGH
        (append_data (append_dword (append_dword (PacketSerialiser DPLITE_MSGID_ACK) ack_id) result) data)
        None CbNone (sq p)\<rparr>"

section \<open>Construction\<close>

text \<open>
  The constructor of \<^verbatim>\<open>DirectPlay8Peer\<close> runs on memory whose contents are the argument: the members it
  does not initialise (identifiers, addresses, results) keep them.
\<close>

definition new_DirectPlay8Peer :: "DirectPlay8Peer \<Rightarrow> DirectPlay8Peer" where
  "new_DirectPlay8Peer mem =
     mem\<lparr>state := STATE_NEW, handle_alloc := new_allocator, async_host_enums := [], sync_host_enums := [], session_name := [], password := [],
       application_data := [], udp_socket := None, listener_socket := None, discovery_socket := None,
       worker_pool := [], work_queue := [], udp_sq := new_SendQueue, local_player_name := [], local_player_data := [],
       peers := [], player_to_peer_id := [], groups := [], destroyed_groups := {}, connect_req_data := [],
       connect_reply_data := [], async_ops := [], next_op := 0, threads := [], delivered := [],
       closed_sockets := []\<rparr>"

definition zeroed_memory :: DirectPlay8Peer where
  "zeroed_memory =
     \<lparr>state = STATE_NEW, handle_alloc = new_allocator, async_host_enums = [], sync_host_enums = [], instance_guid = 0, application_guid = 0, max_players = 0,
      session_name = [], password = [], application_data = [], service_provider = 0, local_ip = 0,
      local_port = 0, udp_socket = None, listener_socket = None, discovery_socket = None, worker_pool = [],
      work_queue = [], udp_sq = new_SendQueue, local_player_id = 0, local_player_ctx = 0, local_player_name = [],
      local_player_data = [], next_player_id = 0, host_player_id = 0, next_peer_id = 0, peers = [],
      player_to_peer_id = [], groups = [], destroyed_groups = {}, connect_ctx = 0, connect_handle = 0,
      connect_req_data = [], connect_result = 0, connect_reply_data = [], async_ops = [], next_op = 0,
      threads = [], delivered = [], closed_sockets = []\<rparr>"

section \<open>Lookups\<close>

definition get_peer_by_peer_id :: "dword \<Rightarrow> DirectPlay8Peer \<Rightarrow> Peer option" where
  "get_peer_by_peer_id i d = om_find i (peers d)"

definition get_peer_by_player_id :: "dpnid \<Rightarrow> DirectPlay8Peer \<Rightarrow> Peer option" where
  "get_peer_by_player_id pid d =
     (case om_find pid (player_to_peer_id d) of
        Some i \<Rightarrow> get_peer_by_peer_id i d
      | None \<Rightarrow> None)"

definition get_group_by_id :: "dpnid \<Rightarrow> DirectPlay8Peer \<Rightarrow> Group option" where
  "get_group_by_id gid d = om_find gid (groups d)"

text \<open>A write through the pointer to a peer, and \<^verbatim>\<open>assert(peer != NULL)\<close> after a lookup.\<close>

definition upd_peer :: "dword \<Rightarrow> (Peer \<Rightarrow> Peer) \<Rightarrow> DirectPlay8Peer \<Rightarrow> DirectPlay8Peer" where
  "upd_peer i f d = d\<lparr>peers := om_update i f (peers d)\<rparr>"

definition upd_group :: "dpnid \<Rightarrow> (Group \<Rightarrow> Group) \<Rightarrow> DirectPlay8Peer \<Rightarrow> DirectPlay8Peer" where
  "upd_group gid f d = d\<lparr>groups := om_update gid f (groups d)\<rparr>"

definition with_peer :: "dword \<Rightarrow> DirectPlay8Peer \<Rightarrow> (Peer \<Rightarrow> fault + 'a) \<Rightarrow> fault + 'a" where
  "with_peer i d k = (case get_peer_by_peer_id i d of None \<Rightarrow> Inl AssertFailed | Some p \<Rightarrow> k p)"

text \<open>\<^verbatim>\<open>RENEW_PEER_OR_RETURN\<close>.\<close>

definition renew_peer ::
  "dword \<Rightarrow> DirectPlay8Peer \<Rightarrow> (Peer \<Rightarrow> fault + DirectPlay8Peer) \<Rightarrow> fault + DirectPlay8Peer" where
  "renew_peer i d k = (case get_peer_by_peer_id i d of None \<Rightarrow> Inr d | Some p \<Rightarrow> k p)"

definition peer_send :: "dword \<Rightarrow> SendPriority \<Rightarrow> sbuf \<Rightarrow> send_cb \<Rightarrow> DirectPlay8Peer \<Rightarrow> DirectPlay8Peer" where
  "peer_send i pri ps cb d = upd_peer i (\<lambda>p. p\<lparr>sq := send pri ps None cb (sq p)\<rparr>) d"

text \<open>The loops that queue one packet for every connected peer.\<close>

definition send_to_connected :: "SendPriority \<Rightarrow> sbuf \<Rightarrow> send_cb \<Rightarrow> DirectPlay8Peer \<Rightarrow> DirectPlay8Peer" where
  "send_to_connected pri ps cb d =
     d\<lparr>peers := map (\<lambda>(i, p). (i, if pstate p = PS_CONNECTED then p\<lparr>sq := send pri ps None cb (sq p)\<rparr> else p))
        (peers d)\<rparr>"

definition connected_peers :: "DirectPlay8Peer \<Rightarrow> (dword \<times> Peer) list" where
  "connected_peers d = filter (\<lambda>(i, p). pstate p = PS_CONNECTED) (peers d)"

section \<open>Entering the application\<close>

type_synonym app = "dpnmsg \<Rightarrow> DirectPlay8Peer \<Rightarrow> app_reply \<times> DirectPlay8Peer"

definition dispatch_message :: "app \<Rightarrow> dpnmsg \<Rightarrow> DirectPlay8Peer \<Rightarrow> app_reply \<times> DirectPlay8Peer" where
  "dispatch_message app m d = app m (d\<lparr>delivered := delivered d @ [m]\<rparr>)"

definition dispatch_create_player ::
  "app \<Rightarrow> dpnid \<Rightarrow> ctx \<Rightarrow> DirectPlay8Peer \<Rightarrow> (hresult \<times> ctx) \<times> DirectPlay8Peer" where
  "dispatch_create_player app pid c d =
     (let (r, d') = dispatch_message app (MSG_CREATE_PLAYER pid c) d in ((r_result r, r_context r), d'))"

definition dispatch_destroy_group ::
  "app \<Rightarrow> dpnid \<Rightarrow> ctx \<Rightarrow> dword \<Rightarrow> DirectPlay8Peer \<Rightarrow> hresult \<times> DirectPlay8Peer" where
  "dispatch_destroy_group app gid c reason d =
     (let (r, d') = dispatch_message app (MSG_DESTROY_GROUP gid c reason) d in (r_result r, d'))"

text \<open>
  The loop that takes a player out of its groups. It restarts from the first group after every
  message, so each turn looks for the first group the player is in.
\<close>

fun leave_groups :: "app \<Rightarrow> nat \<Rightarrow> dpnid \<Rightarrow> ctx \<Rightarrow> DirectPlay8Peer \<Rightarrow> fault + DirectPlay8Peer" where
  "leave_groups app 0 pid c d = Inl OutOfFuel"
| "leave_groups app (Suc fuel) pid c d =
     (case find (\<lambda>(gid, g). pid \<in> player_ids g) (groups d) of
        None \<Rightarrow> Inr d
      | Some (gid, g) \<Rightarrow>
          (let d1 = upd_group gid (\<lambda>g. g\<lparr>player_ids := player_ids g - {pid}\<rparr>) d;
               (r, d2) = dispatch_message app (MSG_REMOVE_PLAYER_FROM_GROUP gid (group_ctx g) pid c) d1
           in leave_groups app fuel pid c d2))"

definition dispatch_destroy_player ::
  "app \<Rightarrow> nat \<Rightarrow> dpnid \<Rightarrow> ctx \<Rightarrow> dword \<Rightarrow> DirectPlay8Peer \<Rightarrow> fault + DirectPlay8Peer" where
  "dispatch_destroy_player app fuel pid c reason d =
     ebind (leave_groups app fuel pid c d) (\<lambda>d1.
       Inr (snd (dispatch_message app (MSG_DESTROY_PLAYER pid c reason) d1)))"

fun group_destroy_all :: "app \<Rightarrow> nat \<Rightarrow> dword \<Rightarrow> DirectPlay8Peer \<Rightarrow> fault + DirectPlay8Peer" where
  "group_destroy_all app 0 reason d = Inl OutOfFuel"
| "group_destroy_all app (Suc fuel) reason d =
     (case groups d of
        [] \<Rightarrow> Inr d
      | (gid, g) # _ \<Rightarrow>
          (let d1 = (if gid \<notin> destroyed_groups d then
                  snd (dispatch_destroy_group app gid (group_ctx g) reason
                    (d\<lparr>destroyed_groups := insert gid (destroyed_groups d)\<rparr>))
                else d)
           in group_destroy_all app fuel reason (d1\<lparr>groups := om_erase gid (groups d1)\<rparr>)))"

definition close_main_sockets :: "DirectPlay8Peer \<Rightarrow> DirectPlay8Peer" where
  "close_main_sockets d =
     d\<lparr>closed_sockets := closed_sockets d @ (case discovery_socket d of Some s \<Rightarrow> [s] | None \<Rightarrow> [])
         @ (case listener_socket d of Some s \<Rightarrow> [s] | None \<Rightarrow> [])
         @ (case udp_socket d of Some s \<Rightarrow> [s] | None \<Rightarrow> []),
       discovery_socket := None, listener_socket := None, udp_socket := None\<rparr>"

section \<open>An application that does not interfere\<close>

text \<open>
  An application is quiet if its handler returns without calling back and no other thread runs
  meanwhile; the handler may still answer what it likes. Statements about the exact sequence of
  messages assume it; invariants are stated for every application that keeps them.
\<close>

definition quiet :: "app \<Rightarrow> bool" where
  "quiet app \<longleftrightarrow> (\<forall>m d. snd (app m d) = d)"

definition keeps :: "(DirectPlay8Peer \<Rightarrow> bool) \<Rightarrow> app \<Rightarrow> bool" where
  "keeps I app \<longleftrightarrow> (\<forall>m d. I (d\<lparr>delivered := delivered d @ [m]\<rparr>) \<longrightarrow>
     I (snd (app m (d\<lparr>delivered := delivered d @ [m]\<rparr>))))"

text \<open>The simplest application: it accepts everything.\<close>

definition silent :: app where
  "silent m d = (\<lparr>r_result = S_OK, r_context = 0, r_data = [], r_data_context = 0\<rparr>, d)"

lemma quiet_silent [simp]: "quiet silent"
  by (simp add: quiet_def silent_def)

lemma quiet_dispatch:
  "quiet app \<Longrightarrow> dispatch_message app m d = (fst (app m (d\<lparr>delivered := delivered d @ [m]\<rparr>)), d\<lparr>delivered := delivered d @ [m]\<rparr>)"
  by (simp add: quiet_def dispatch_message_def prod_eq_iff)

lemma quiet_dispatch_snd: "quiet app \<Longrightarrow> snd (dispatch_message app m d) = d\<lparr>delivered := delivered d @ [m]\<rparr>"
  by (simp add: quiet_dispatch)

lemma keeps_dispatch:
  "keeps I app \<Longrightarrow> (\<And>e m. I (e\<lparr>delivered := m\<rparr>) = I e) \<Longrightarrow> I d \<Longrightarrow> I (snd (dispatch_message app m d))"
  by (simp add: keeps_def dispatch_message_def)

lemma quiet_keeps: "quiet app \<Longrightarrow> keeps I app"
  by (simp add: quiet_def keeps_def)

section \<open>Frame facts\<close>

lemma get_peer_upd_peer [simp]:
  "get_peer_by_peer_id j (upd_peer i f d) =
     (if j = i then map_option f (get_peer_by_peer_id j d) else get_peer_by_peer_id j d)"
  by (simp add: get_peer_by_peer_id_def upd_peer_def)

lemma get_group_upd_group [simp]:
  "get_group_by_id j (upd_group i f d) =
     (if j = i then map_option f (get_group_by_id j d) else get_group_by_id j d)"
  by (simp add: get_group_by_id_def upd_group_def)

lemma om_find_send_to_connected:
  "om_find i (peers (send_to_connected pri ps cb d)) =
     map_option (\<lambda>p. if pstate p = PS_CONNECTED then p\<lparr>sq := send pri ps None cb (sq p)\<rparr> else p) (om_find i (peers d))"
proof -
  have "om_find i (map (\<lambda>(i, p). (i, f p)) m) = map_option f (om_find i m)" for f and m :: "(dword, Peer) omap"
    by (induction m) (auto simp: om_find_def)
  then show ?thesis by (simp add: send_to_connected_def)
qed

section \<open>What leaving the groups and destroying them deliver\<close>

definition without :: "dpnid \<Rightarrow> (dpnid, Group) omap \<Rightarrow> (dpnid, Group) omap" where
  "without pid gs = map (\<lambda>(gid, g). (gid, g\<lparr>player_ids := player_ids g - {pid}\<rparr>)) gs"

definition leave_msgs :: "dpnid \<Rightarrow> ctx \<Rightarrow> (dpnid, Group) omap \<Rightarrow> dpnmsg list" where
  "leave_msgs pid c gs =
     map (\<lambda>(gid, g). MSG_REMOVE_PLAYER_FROM_GROUP gid (group_ctx g) pid c)
       (filter (\<lambda>(gid, g). pid \<in> player_ids g) gs)"

lemma om_update_split:
  assumes "om_wf (pre @ (k, v) # post)"
  shows "om_update k f (pre @ (k, v) # post) = pre @ (k, f v) # post"
proof -
  have "k \<notin> set (om_keys pre)" "k \<notin> set (om_keys post)"
    using om_wf_distinct [OF assms] by (auto simp: om_keys_def)
  then have "om_update k f pre = pre" "om_update k f post = post"
    by (simp_all add: om_update_not_in om_find_None_iff)
  then show ?thesis by (simp add: om_update_def)
qed

lemma find_Some_split:
  "find P xs = Some x \<Longrightarrow> \<exists>pre post. xs = pre @ x # post \<and> P x \<and> (\<forall>y \<in> set pre. \<not> P y)"
proof (induction xs)
  case (Cons a xs)
  show ?case
  proof (cases "P a")
    case True
    with Cons.prems show ?thesis by (intro exI [of _ "[]"] exI [of _ xs]) simp
  next
    case False
    with Cons obtain pre post where "xs = pre @ x # post" "P x" "\<forall>y \<in> set pre. \<not> P y" by auto
    with False show ?thesis by (intro exI [of _ "a # pre"] exI [of _ post]) simp
  qed
qed simp

lemma without_absent: "(\<forall>(gid, g) \<in> set gs. pid \<notin> player_ids g) \<Longrightarrow> without pid gs = gs"
  unfolding without_def by (rule map_idI) (auto split: prod.splits)

lemma leave_groups_quiet:
  assumes "quiet app"
  shows "om_wf (groups d) \<Longrightarrow> length (leave_msgs pid c (groups d)) < fuel \<Longrightarrow>
    leave_groups app fuel pid c d =
      Inr (d\<lparr>groups := without pid (groups d), delivered := delivered d @ leave_msgs pid c (groups d)\<rparr>)"
proof (induction fuel arbitrary: d)
  case (Suc fuel)
  show ?case
  proof (cases "find (\<lambda>(gid, g). pid \<in> player_ids g) (groups d)")
    case None
    then have none: "\<forall>(gid, g) \<in> set (groups d). pid \<notin> player_ids g" by (auto simp: find_None_iff)
    then have "leave_msgs pid c (groups d) = []" by (auto simp: leave_msgs_def filter_empty_conv)
    with None show ?thesis by (simp add: without_absent [OF none])
  next
    case (Some x)
    obtain gid g where x: "x = (gid, g)" by (cases x)
    from find_Some_split [OF Some] x obtain pre post where gs: "groups d = pre @ (gid, g) # post"
      and g: "pid \<in> player_ids g" and pre: "\<forall>(k, h) \<in> set pre. pid \<notin> player_ids h" by fastforce
    let ?m = "MSG_REMOVE_PLAYER_FROM_GROUP gid (group_ctx g) pid c"
    let ?gs = "pre @ (gid, g\<lparr>player_ids := player_ids g - {pid}\<rparr>) # post"
    let ?d = "d\<lparr>groups := ?gs, delivered := delivered d @ [?m]\<rparr>"
    have upd: "om_update gid (\<lambda>g. g\<lparr>player_ids := player_ids g - {pid}\<rparr>) (groups d) = ?gs"
      using om_update_split [of pre gid g post] Suc.prems(1) gs by simp
    have "filter (\<lambda>(gid, g). pid \<in> player_ids g) pre = []" using pre by (auto simp: filter_empty_conv)
    then have msgs: "leave_msgs pid c (groups d) = ?m # leave_msgs pid c ?gs"
      using g by (simp add: leave_msgs_def gs)
    have wo: "without pid ?gs = without pid (groups d)" by (simp add: without_def gs)
    have "om_wf ?gs"
      using om_wf_update [of gid "\<lambda>g. g\<lparr>player_ids := player_ids g - {pid}\<rparr>" "groups d"] upd Suc.prems(1) by simp
    then have "leave_groups app fuel pid c ?d =
      Inr (?d\<lparr>groups := without pid ?gs, delivered := delivered ?d @ leave_msgs pid c ?gs\<rparr>)"
      using Suc.IH [of ?d] Suc.prems(2) msgs by simp
    then show ?thesis
      using Some x by (simp add: upd_group_def upd quiet_dispatch [OF assms] msgs wo)
  qed
qed simp

lemma length_leave_msgs: "length (leave_msgs pid c gs) \<le> length gs"
  by (simp add: leave_msgs_def)

lemma om_wf_without [simp]: "om_wf (without pid gs) = om_wf gs"
  by (simp add: without_def om_wf_def om_keys_def comp_def case_prod_beta)

lemma length_without [simp]: "length (without pid gs) = length gs"
  by (simp add: without_def)

lemma dispatch_destroy_player_quiet:
  assumes "quiet app" "om_wf (groups d)" "length (groups d) < fuel"
  shows "dispatch_destroy_player app fuel pid c reason d =
    Inr (d\<lparr>groups := without pid (groups d),
      delivered := delivered d @ leave_msgs pid c (groups d) @ [MSG_DESTROY_PLAYER pid c reason]\<rparr>)"
  using leave_groups_quiet [OF assms(1,2), of pid c fuel] assms(3) length_leave_msgs [of pid c "groups d"]
  by (simp add: dispatch_destroy_player_def quiet_dispatch [OF assms(1)])

text \<open>
  C31: a player that goes away leaves every group first. With a quiet application and more fuel than
  there are groups, the application gets one removal message for each group the player was in, in
  the order of the group identifiers and with the context of the group, and then the message that
  the player is destroyed; afterwards no group contains the player and no other membership changed.
\<close>

theorem dispatch_destroy_player_leaves_groups:
  assumes "quiet app" "om_wf (groups d)" "length (groups d) < fuel"
  shows "\<exists>d'. dispatch_destroy_player app fuel pid c reason d = Inr d'
    \<and> delivered d' = delivered d
        @ map (\<lambda>(gid, g). MSG_REMOVE_PLAYER_FROM_GROUP gid (group_ctx g) pid c)
            (filter (\<lambda>(gid, g). pid \<in> player_ids g) (groups d))
        @ [MSG_DESTROY_PLAYER pid c reason]
    \<and> (\<forall>gid. map_option player_ids (get_group_by_id gid d') = map_option (\<lambda>g. player_ids g - {pid}) (get_group_by_id gid d))"
proof -
  have "map_option player_ids (om_find gid (without pid gs)) = map_option (\<lambda>g. player_ids g - {pid}) (om_find gid gs)" for gid gs
    by (induction gs) (auto simp: without_def om_find_def)
  then show ?thesis
    using dispatch_destroy_player_quiet [OF assms] by (simp add: get_group_by_id_def leave_msgs_def)
qed

theorem dispatch_destroy_player_leaves_groups_witness:
  "let g = (\<lambda>ids. \<lparr>group_name = [], group_data = [], group_ctx = 9, player_ids = ids\<rparr>);
       d = zeroed_memory\<lparr>groups := [(4, g {7, 8}), (5, g {8})]\<rparr>
   in \<exists>d'. dispatch_destroy_player silent 3 7 1 2 d = Inr d'
        \<and> delivered d' = [MSG_REMOVE_PLAYER_FROM_GROUP 4 9 7 1, MSG_DESTROY_PLAYER 7 1 2]"
  using dispatch_destroy_player_leaves_groups [of silent "zeroed_memory\<lparr>groups :=
      [(4, \<lparr>group_name = [], group_data = [], group_ctx = 9, player_ids = {7, 8}\<rparr>),
       (5, \<lparr>group_name = [], group_data = [], group_ctx = 9, player_ids = {8}\<rparr>)]\<rparr>" 3 7 1 2]
  by (auto simp: Let_def zeroed_memory_def om_wf_def om_keys_def)

definition destroy_group_msgs :: "dword \<Rightarrow> DirectPlay8Peer \<Rightarrow> dpnmsg list" where
  "destroy_group_msgs reason d =
     map (\<lambda>(gid, g). MSG_DESTROY_GROUP gid (group_ctx g) reason)
       (filter (\<lambda>(gid, g). gid \<notin> destroyed_groups d) (groups d))"

lemma group_destroy_all_quiet:
  assumes "quiet app"
  shows "om_wf (groups d) \<Longrightarrow> length (groups d) < fuel \<Longrightarrow>
    group_destroy_all app fuel reason d =
      Inr (d\<lparr>groups := [], destroyed_groups := destroyed_groups d \<union> set (om_keys (groups d)),
        delivered := delivered d @ destroy_group_msgs reason d\<rparr>)"
proof (induction fuel arbitrary: d)
  case (Suc fuel)
  show ?case
  proof (cases "groups d")
    case Nil
    then show ?thesis by (simp add: destroy_group_msgs_def om_keys_def)
  next
    case (Cons x gs)
    obtain gid g where x: "x = (gid, g)" by (cases x)
    let ?d = "(if gid \<notin> destroyed_groups d then
        d\<lparr>destroyed_groups := insert gid (destroyed_groups d),
          delivered := delivered d @ [MSG_DESTROY_GROUP gid (group_ctx g) reason]\<rparr> else d)\<lparr>groups := gs\<rparr>"
    have fresh: "\<forall>(k, h) \<in> set gs. k \<noteq> gid" and wf: "om_wf gs"
      using Suc.prems(1) Cons x by (auto simp: om_wf_Cons om_keys_def)
    then have "om_find gid gs = None" by (auto simp: om_find_None_iff om_keys_def)
    then have erase: "om_erase gid (groups d) = gs" using om_erase_not_in [of gid gs] Cons x by (simp add: om_erase_def)
    have step: "group_destroy_all app (Suc fuel) reason d = group_destroy_all app fuel reason ?d"
      using Cons x erase by (simp add: dispatch_destroy_group_def quiet_dispatch [OF assms] Let_def)
    have "filter (\<lambda>(k, h). k \<notin> insert gid (destroyed_groups d)) gs = filter (\<lambda>(k, h). k \<notin> destroyed_groups d) gs"
      by (rule filter_cong) (use fresh in auto)
    then have "destroy_group_msgs reason d =
        (if gid \<notin> destroyed_groups d then [MSG_DESTROY_GROUP gid (group_ctx g) reason] else []) @ destroy_group_msgs reason ?d"
      by (simp add: destroy_group_msgs_def Cons x)
    moreover have "destroyed_groups ?d \<union> set (om_keys gs) = destroyed_groups d \<union> set (om_keys (groups d))"
      using Cons x by (auto simp: om_keys_def)
    ultimately show ?thesis
      unfolding step using Suc.IH [of ?d] wf Suc.prems(2) Cons by (simp split: if_splits)
  qed
qed simp

text \<open>
  destroying all groups. With a quiet application and more fuel than there are groups, the call
  returns with no group left; every group that was not already being destroyed is reported exactly
  once, in the order of the identifiers, and every group is remembered as destroyed, so that no
  packet can bring it back.
\<close>

theorem group_destroy_all_empties:
  assumes "quiet app" "om_wf (groups d)" "length (groups d) < fuel"
  shows "\<exists>d'. group_destroy_all app fuel reason d = Inr d' \<and> groups d' = []
    \<and> destroyed_groups d' = destroyed_groups d \<union> set (om_keys (groups d))
    \<and> delivered d' = delivered d
        @ map (\<lambda>(gid, g). MSG_DESTROY_GROUP gid (group_ctx g) reason)
            (filter (\<lambda>(gid, g). gid \<notin> destroyed_groups d) (groups d))"
  using group_destroy_all_quiet [OF assms] by (simp add: destroy_group_msgs_def)

theorem group_destroy_all_empties_witness:
  "let g = \<lparr>group_name = [], group_data = [], group_ctx = 9, player_ids = {}\<rparr>;
       d = zeroed_memory\<lparr>groups := [(4, g), (5, g)], destroyed_groups := {5}\<rparr>
   in \<exists>d'. group_destroy_all silent 3 1 d = Inr d' \<and> groups d' = [] \<and> delivered d' = [MSG_DESTROY_GROUP 4 9 1]"
  using group_destroy_all_empties [of silent "zeroed_memory\<lparr>groups :=
      [(4, \<lparr>group_name = [], group_data = [], group_ctx = 9, player_ids = {}\<rparr>),
       (5, \<lparr>group_name = [], group_data = [], group_ctx = 9, player_ids = {}\<rparr>)], destroyed_groups := {5}\<rparr>" 3 1]
  by (auto simp: Let_def zeroed_memory_def om_wf_def om_keys_def)

end
