(* ===== verification/PeerGroups.thy ===== *)
theory PeerGroups
  imports PeerState
begin

text \<open>
  Groups (\<^verbatim>\<open>src/src/DirectPlay8Peer.cpp\<close>): the completion of operations that several sends and a
  thread take part in, what the queued closures do when they run, the methods \<^verbatim>\<open>CreateGroup\<close>,
  \<^verbatim>\<open>DestroyGroup\<close>, \<^verbatim>\<open>AddPlayerToGroup\<close> and \<^verbatim>\<open>RemovePlayerFromGroup\<close>, and the handlers of the group packets.

  A method called synchronously blocks until its operation completes: its result is then \<open>Blocked\<close>
  with the operation, and \<open>sync_wake\<close> is the return from the wait.
\<close>

section \<open>Operations in progress\<close>

definition flag_set :: "dword \<Rightarrow> dword \<Rightarrow> bool" where
  "flag_set flags f \<longleftrightarrow> flags AND f \<noteq> 0"

definition upd_op :: "nat \<Rightarrow> (async_op \<Rightarrow> async_op) \<Rightarrow> DirectPlay8Peer \<Rightarrow> DirectPlay8Peer" where
  "upd_op op f d = d\<lparr>async_ops := om_update op f (async_ops d)\<rparr>"

definition new_op :: "async_op \<Rightarrow> DirectPlay8Peer \<Rightarrow> nat \<times> DirectPlay8Peer" where
  "new_op x d =
     (next_op d, d\<lparr>next_op := Suc (next_op d), async_ops := om_set (next_op d) x (async_ops d)\<rparr>)"

text \<open>
  The closure \<^verbatim>\<open>complete\<close> of the group methods. The memory of an asynchronous operation is freed
  after the application has been told; a synchronous one is freed by the method that waits.
\<close>

definition complete :: "app \<Rightarrow> nat \<Rightarrow> hresult \<Rightarrow> DirectPlay8Peer \<Rightarrow> fault + DirectPlay8Peer" where
  "complete app op result d =
     (case om_find op (async_ops d) of
        None \<Rightarrow> Inl OpFreed
      | Some x \<Rightarrow>
          (let d1 = upd_op op (\<lambda>x. x\<lparr>op_pending := op_pending x - 1\<rparr>) d in
           if op_pending x - 1 = 0 then
             if op_sync x then Inr (upd_op op (\<lambda>x. x\<lparr>op_result := Some result\<rparr>) d1)
             else
               (let (r, d2) = dispatch_message app (MSG_ASYNC_OP_COMPLETE (op_handle x) (op_context x) result) d1
                in Inr (d2\<lparr>async_ops := om_erase op (async_ops d2)\<rparr>))
           else Inr d1))"

text \<open>
  The closures of \<^verbatim>\<open>SendTo\<close> and \<^verbatim>\<open>SetPeerInfo\<close>: the error code of the first failure wins, and the memory
  is freed before the application is told.
\<close>

definition note_result :: "hresult \<Rightarrow> async_op \<Rightarrow> async_op" where
  "note_result r x =
     x\<lparr>op_pending := op_pending x - 1,
       op_result := (if r \<noteq> S_OK \<and> op_result x = Some S_OK then Some r else op_result x)\<rparr>"

definition op_final :: "async_op \<Rightarrow> hresult" where
  "op_final x = (case op_result x of Some r \<Rightarrow> r | None \<Rightarrow> S_OK)"

definition finish_part ::
  "app \<Rightarrow> (async_op \<Rightarrow> dpnmsg option) \<Rightarrow> nat \<Rightarrow> hresult \<Rightarrow> DirectPlay8Peer \<Rightarrow> fault + DirectPlay8Peer" where
  "finish_part app msg op result d =
     (case om_find op (async_ops d) of
        None \<Rightarrow> Inl OpFreed
      | Some x \<Rightarrow>
          (let x' = note_result result x; d1 = upd_op op (note_result result) d in
           if op_pending x' = 0 \<and> \<not> op_sync x then
             (let d2 = d1\<lparr>async_ops := om_erase op (async_ops d1)\<rparr>
              in Inr (case msg x' of None \<Rightarrow> d2 | Some m \<Rightarrow> snd (dispatch_message app m d2)))
           else Inr d1))"

definition receive_flags :: "dword \<Rightarrow> dword" where
  "receive_flags flags =
     (if flag_set flags DPNSEND_GUARANTEED then DPNRECEIVE_GUARANTEED else 0)
     OR (if flag_set flags DPNSEND_COALESCE then DPNRECEIVE_COALESCED else 0)"

definition handle_send_complete :: "app \<Rightarrow> nat \<Rightarrow> hresult \<Rightarrow> DirectPlay8Peer \<Rightarrow> fault + DirectPlay8Peer" where
  "handle_send_complete app =
     finish_part app (\<lambda>x. if flag_set (op_flags x) DPNSEND_NOCOMPLETE then None
       else Some (MSG_SEND_COMPLETE (op_handle x) (op_context x) (op_final x) (receive_flags (op_flags x))))"

definition op_finished_cb :: "app \<Rightarrow> nat \<Rightarrow> hresult \<Rightarrow> DirectPlay8Peer \<Rightarrow> fault + DirectPlay8Peer" where
  "op_finished_cb app =
     finish_part app (\<lambda>x. Some (MSG_ASYNC_OP_COMPLETE (op_handle x) (op_context x) (op_final x)))"

text \<open>The end of the wait in a synchronous call, \<open>None\<close> while something is pending.\<close>

definition sync_wake :: "nat \<Rightarrow> DirectPlay8Peer \<Rightarrow> (hresult \<times> DirectPlay8Peer) option" where
  "sync_wake op d =
     (case om_find op (async_ops d) of
        Some x \<Rightarrow>
          if op_pending x = 0 then
            Some (op_final x, d\<lparr>async_ops := om_erase op (async_ops d)\<rparr>)
          else None
      | None \<Rightarrow> None)"

section \<open>Packets about groups\<close>

definition group_create_packet :: "dpnid \<Rightarrow> wchar list \<Rightarrow> byte list \<Rightarrow> sbuf" where
  "group_create_packet gid n dat =
     append_data (append_wstring (append_dword (PacketSerialiser DPLITE_MSGID_GROUP_CREATE) gid) n) dat"

definition group_destroy_packet :: "dpnid \<Rightarrow> sbuf" where
  "group_destroy_packet gid = append_dword (PacketSerialiser DPLITE_MSGID_GROUP_DESTROY) gid"

definition group_joined_packet :: "dpnid \<Rightarrow> Group \<Rightarrow> sbuf" where
  "group_joined_packet gid g =
     append_data (append_wstring (append_dword (PacketSerialiser DPLITE_MSGID_GROUP_JOINED) gid) (group_name g))
       (group_data g)"

definition group_left_packet :: "dpnid \<Rightarrow> sbuf" where
  "group_left_packet gid = append_dword (PacketSerialiser DPLITE_MSGID_GROUP_LEFT) gid"

definition group_join_packet :: "dpnid \<Rightarrow> dword \<Rightarrow> Group \<Rightarrow> sbuf" where
  "group_join_packet gid ack_id g =
     append_data (append_wstring (append_dword (append_dword (PacketSerialiser DPLITE_MSGID_GROUP_JOIN) gid) ack_id)
       (group_name g)) (group_data g)"

definition group_leave_packet :: "dpnid \<Rightarrow> dword \<Rightarrow> sbuf" where
  "group_leave_packet gid ack_id =
     append_dword (append_dword (PacketSerialiser DPLITE_MSGID_GROUP_LEAVE) gid) ack_id"

definition group_allocate_packet :: "dword \<Rightarrow> sbuf" where
  "group_allocate_packet ack_id = append_dword (PacketSerialiser DPLITE_MSGID_GROUP_ALLOCATE) ack_id"

section \<open>Closures\<close>

text \<open>The loops that count one more pending part for every connected peer and queue the packet.\<close>

definition notify_connected :: "nat \<Rightarrow> sbuf \<Rightarrow> DirectPlay8Peer \<Rightarrow> DirectPlay8Peer" where
  "notify_connected op ps d =
     send_to_connected SEND_PRI_HIGH ps (CbComplete op)
       (upd_op op (\<lambda>x. x\<lparr>op_pending := op_pending x + int (length (connected_peers d))\<rparr>) d)"

definition create_the_group ::
  "nat \<Rightarrow> wchar list \<Rightarrow> byte list \<Rightarrow> ctx \<Rightarrow> dpnid \<Rightarrow> DirectPlay8Peer \<Rightarrow> DirectPlay8Peer" where
  "create_the_group op n dat c gid d =
     (let d1 = d\<lparr>groups := om_emplace gid (new_Group n dat c) (groups d)\<rparr>;
          d2 = notify_connected op (group_create_packet gid n dat) d1
      in d2\<lparr>threads := threads d2 @ [TaskCreateGroup gid c op]\<rparr>)"

text \<open>What an acknowledgement runs.\<close>

fun run_ack :: "app \<Rightarrow> ack_cb \<Rightarrow> hresult \<Rightarrow> byte list \<Rightarrow> DirectPlay8Peer \<Rightarrow> fault + DirectPlay8Peer" where
  "run_ack app (AckComplete op) result data d = complete app op result d"
| "run_ack app (AckCreateGroup op n dat c) result data d =
     (if result = S_OK \<and> length data = 4 then Inr (create_the_group op n dat c (de32 data) d)
      else complete app op result d)"
| "run_ack app (AckPeerInfo op) result data d = op_finished_cb app op result d"

text \<open>\<^verbatim>\<open>register_ack\<close> on the peer a closure looked up.\<close>

definition register_peer_ack :: "dword \<Rightarrow> dword \<Rightarrow> ack_cb \<Rightarrow> DirectPlay8Peer \<Rightarrow> fault + DirectPlay8Peer" where
  "register_peer_ack i ack_id cb d =
     with_peer i d (\<lambda>p. ebind (register_ack ack_id cb p) (\<lambda>p'. Inr (upd_peer i (\<lambda>_. p') d)))"

text \<open>What a queued send runs when it ends.\<close>

fun invoke_callback :: "app \<Rightarrow> send_cb \<Rightarrow> hresult \<Rightarrow> DirectPlay8Peer \<Rightarrow> fault + DirectPlay8Peer" where
  "invoke_callback app CbNone result d = Inr d"
| "invoke_callback app (CbComplete op) result d = complete app op S_OK d"
| "invoke_callback app (CbAwaitAck i ack_id op) result d =
     (if result = S_OK then register_peer_ack i ack_id (AckComplete op) d else complete app op result d)"
| "invoke_callback app (CbAllocate host_id ack_id op n dat c) result d =
     (if result = S_OK then
        (case om_find host_id (player_to_peer_id d) of
           None \<Rightarrow> Inl AssertFailed
         | Some i \<Rightarrow> register_peer_ack i ack_id (AckCreateGroup op n dat c) d)
      else complete app op result d)"
| "invoke_callback app (CbSend op) result d = handle_send_complete app op result d"
| "invoke_callback app (CbPeerInfo i ack_id op) result d =
     (if result = S_OK then register_peer_ack i ack_id (AckPeerInfo op) d else op_finished_cb app op result d)"

text \<open>The bodies of the detached threads, each run with the lock held except inside the application.\<close>

fun run_task :: "app \<Rightarrow> task \<Rightarrow> DirectPlay8Peer \<Rightarrow> fault + DirectPlay8Peer" where
  "run_task app (TaskCreateGroup gid c op) d =
     (let (r, d1) = dispatch_message app (MSG_CREATE_GROUP gid 0 c (local_player_ctx d)) d
      in complete app op S_OK (upd_group gid (\<lambda>g. g\<lparr>group_ctx := r_context r\<rparr>) d1))"
| "run_task app (TaskDestroyGroup gid op) d =
     (case get_group_by_id gid d of
        None \<Rightarrow> complete app op S_OK d
      | Some g \<Rightarrow>
          (let (r, d1) = dispatch_message app (MSG_DESTROY_GROUP gid (group_ctx g) DPNDESTROYGROUPREASON_NORMAL) d
           in complete app op S_OK (d1\<lparr>groups := om_erase gid (groups d1)\<rparr>)))"
| "run_task app (TaskAddPlayer gid c op) d =
     (let (r, d1) = dispatch_message app
            (MSG_ADD_PLAYER_TO_GROUP gid c (local_player_id d) (local_player_ctx d)) d
      in complete app op S_OK d1)"
| "run_task app (TaskRemovePlayer gid c op) d =
     (let (r, d1) = dispatch_message app
            (MSG_REMOVE_PLAYER_FROM_GROUP gid c (local_player_id d) (local_player_ctx d)) d
      in complete app op S_OK d1)"
| "run_task app (TaskSendComplete op) d = handle_send_complete app op S_OK d"

text \<open>The work queue, served by \<^verbatim>\<open>handle_work\<close>.\<close>

fun run_work :: "app \<Rightarrow> work \<Rightarrow> DirectPlay8Peer \<Rightarrow> fault + DirectPlay8Peer" where
  "run_work app (WorkReceive payload flags op) d =
     (let (r, d1) = dispatch_message app
            (MSG_RECEIVE (local_player_id d) (local_player_ctx d) payload (receive_flags flags)) d
      in handle_send_complete app op S_OK d1)"

definition queue_work :: "work \<Rightarrow> DirectPlay8Peer \<Rightarrow> DirectPlay8Peer" where
  "queue_work w d = d\<lparr>work_queue := work_queue d @ [w]\<rparr>"

definition handle_work :: "app \<Rightarrow> DirectPlay8Peer \<Rightarrow> fault + DirectPlay8Peer" where
  "handle_work app d =
     (case work_queue d of [] \<Rightarrow> Inr d | w # ws \<Rightarrow> run_work app w (d\<lparr>work_queue := ws\<rparr>))"

section \<open>Methods\<close>

datatype api_result = Returned hresult "dpnhandle option" | Blocked nat

text \<open>The switch on the state at the head of the methods that need a session.\<close>

fun session_guard :: "State \<Rightarrow> hresult option" where
  "session_guard STATE_NEW = Some DPNERR_UNINITIALIZED"
| "session_guard STATE_INITIALISED = Some DPNERR_NOCONNECTION"
| "session_guard STATE_HOSTING = None"
| "session_guard STATE_CONNECTING_TO_HOST = Some DPNERR_CONNECTING"
| "session_guard STATE_CONNECTING_TO_PEERS = Some DPNERR_CONNECTING"
| "session_guard STATE_CONNECT_FAILED = Some DPNERR_CONNECTING"
| "session_guard STATE_CONNECTED = None"
| "session_guard STATE_CLOSING = Some DPNERR_CONNECTIONLOST"
| "session_guard STATE_TERMINATED = Some DPNERR_CONNECTIONLOST"

definition in_session ::
  "DirectPlay8Peer \<Rightarrow> fault + api_result \<times> DirectPlay8Peer \<Rightarrow> fault + api_result \<times> DirectPlay8Peer" where
  "in_session d k = (case session_guard (state d) of Some e \<Rightarrow> Inr (Returned e None, d) | None \<Rightarrow> k)"

text \<open>The handle is allocated only for an asynchronous call.\<close>

definition begin_op ::
  "(AsyncHandleAllocator \<Rightarrow> dpnhandle \<times> AsyncHandleAllocator) \<Rightarrow> bool \<Rightarrow> ctx \<Rightarrow> DirectPlay8Peer \<Rightarrow>
     nat \<times> dpnhandle \<times> DirectPlay8Peer" where
  "begin_op alloc sync c d =
     (let (h, d1) = (if sync then (0, d) else (let (h, a) = alloc (handle_alloc d) in (h, d\<lparr>handle_alloc := a\<rparr>)));
          (op, d2) = new_op \<lparr>op_pending = 1, op_sync = sync, op_handle = h, op_context = c, op_flags = 0,
            op_result = None\<rparr> d1
      in (op, h, d2))"

definition end_op :: "bool \<Rightarrow> nat \<Rightarrow> dpnhandle \<Rightarrow> api_result" where
  "end_op sync op h = (if sync then Blocked op else Returned DPNSUCCESS_PENDING (Some h))"

record DPN_GROUP_INFO =
  gi_dwInfoFlags :: dword
  gi_pwszName :: "wchar list"
  gi_pvData :: "byte list"
  gi_dwGroupFlags :: dword

definition CreateGroup ::
  "DPN_GROUP_INFO option \<Rightarrow> ctx \<Rightarrow> ctx \<Rightarrow> dword \<Rightarrow> DirectPlay8Peer \<Rightarrow> fault + api_result \<times> DirectPlay8Peer" where
  "CreateGroup info gctx actx flags d =
     in_session d
       (case info of
          None \<Rightarrow> Inr (Returned DPNERR_INVALIDPARAM None, d)
        | Some gi \<Rightarrow>
            if flag_set (gi_dwGroupFlags gi) DPNGROUP_AUTODESTRUCT then Inr (Returned E_NOTIMPL None, d)
            else
              (let n = (if flag_set (gi_dwInfoFlags gi) DPNINFO_NAME then gi_pwszName gi else []);
                   dat = (if flag_set (gi_dwInfoFlags gi) DPNINFO_DATA then gi_pvData gi else []);
                   sync = flag_set flags DPNCREATEGROUP_SYNC;
                   (op, h, d1) = begin_op new_cgroup sync actx d
               in if local_player_id d1 = host_player_id d1 then
                    (let d2 = d1\<lparr>next_player_id := next_player_id d1 + 1\<rparr>
                     in Inr (end_op sync op h, create_the_group op n dat gctx (next_player_id d1) d2))
                  else
                    case om_find (host_player_id d1) (player_to_peer_id d1) of
                      None \<Rightarrow> Inl AssertFailed
                    | Some i \<Rightarrow>
                        with_peer i d1 (\<lambda>host.
                          let (ack_id, host') = alloc_ack_id host;
                              d2 = upd_peer i (\<lambda>_. host') d1
                          in Inr (end_op sync op h,
                               peer_send i SEND_PRI_HIGH (group_allocate_packet ack_id)
                                 (CbAllocate (host_player_id d1) ack_id op n dat gctx) d2))))"

definition DestroyGroup ::
  "dpnid \<Rightarrow> ctx \<Rightarrow> dword \<Rightarrow> DirectPlay8Peer \<Rightarrow> fault + api_result \<times> DirectPlay8Peer" where
  "DestroyGroup gid actx flags d =
     in_session d
       (if get_group_by_id gid d = None \<or> gid \<in> destroyed_groups d then Inr (Returned DPNERR_INVALIDGROUP None, d)
        else
          (let sync = flag_set flags DPNDESTROYGROUP_SYNC;
               (op, h, d1) = begin_op new_dgroup sync actx d;
               d2 = d1\<lparr>destroyed_groups := insert gid (destroyed_groups d1)\<rparr>;
               d3 = notify_connected op (group_destroy_packet gid) d2
           in Inr (end_op sync op h, d3\<lparr>threads := threads d3 @ [TaskDestroyGroup gid op]\<rparr>)))"

text \<open>The part the two membership methods share when the player is remote.\<close>

definition ask_remote_player ::
  "dpnid \<Rightarrow> (dword \<Rightarrow> sbuf) \<Rightarrow> bool \<Rightarrow> nat \<Rightarrow> dpnhandle \<Rightarrow> DirectPlay8Peer \<Rightarrow> fault + api_result \<times> DirectPlay8Peer" where
  "ask_remote_player pid packet sync op h d =
     (case (om_find pid (player_to_peer_id d), get_peer_by_player_id pid d) of
        (Some i, Some p) \<Rightarrow>
          (let (ack_id, p') = alloc_ack_id p
           in Inr (end_op sync op h,
                peer_send i SEND_PRI_HIGH (packet ack_id) (CbAwaitAck i ack_id op) (upd_peer i (\<lambda>_. p') d)))
      | _ \<Rightarrow> Inr (Returned DPNERR_INVALIDPLAYER (if sync then None else Some h), d))"

definition AddPlayerToGroup ::
  "dpnid \<Rightarrow> dpnid \<Rightarrow> ctx \<Rightarrow> dword \<Rightarrow> DirectPlay8Peer \<Rightarrow> fault + api_result \<times> DirectPlay8Peer" where
  "AddPlayerToGroup gid pid actx flags d =
     in_session d
       (case get_group_by_id gid d of
          None \<Rightarrow> Inr (Returned DPNERR_INVALIDGROUP None, d)
        | Some g \<Rightarrow>
            if gid \<in> destroyed_groups d then Inr (Returned DPNERR_INVALIDGROUP None, d)
            else if pid \<in> player_ids g then Inr (Returned DPNERR_PLAYERALREADYINGROUP None, d)
            else
              (let sync = flag_set flags DPNADDPLAYERTOGROUP_SYNC;
                   (op, h, d1) = begin_op new_apgroup sync actx d
               in if pid = local_player_id d1 then
                    (let d2 = notify_connected op (group_joined_packet gid g) d1;
                         d3 = upd_group gid (\<lambda>g. g\<lparr>player_ids := insert pid (player_ids g)\<rparr>) d2
                     in Inr (end_op sync op h, d3\<lparr>threads := threads d3 @ [TaskAddPlayer gid (group_ctx g) op]\<rparr>))
                  else ask_remote_player pid (\<lambda>ack_id. group_join_packet gid ack_id g) sync op h d1))"

definition RemovePlayerFromGroup ::
  "dpnid \<Rightarrow> dpnid \<Rightarrow> ctx \<Rightarrow> dword \<Rightarrow> DirectPlay8Peer \<Rightarrow> fault + api_result \<times> DirectPlay8Peer" where
  "RemovePlayerFromGroup gid pid actx flags d =
     in_session d
       (case get_group_by_id gid d of
          None \<Rightarrow> Inr (Returned DPNERR_INVALIDGROUP None, d)
        | Some g \<Rightarrow>
            if pid \<notin> player_ids g then Inr (Returned DPNERR_PLAYERNOTINGROUP None, d)
            else
              (let sync = flag_set flags DPNREMOVEPLAYERFROMGROUP_SYNC;
                   (op, h, d1) = begin_op new_rpgroup sync actx d
               in if pid = local_player_id d1 then
                    (let d2 = notify_connected op (group_left_packet gid) d1;
                         d3 = upd_group gid (\<lambda>g. g\<lparr>player_ids := player_ids g - {pid}\<rparr>) d2
                     in Inr (end_op sync op h, d3\<lparr>threads := threads d3 @ [TaskRemovePlayer gid (group_ctx g) op]\<rparr>))
                  else ask_remote_player pid (\<lambda>ack_id. group_leave_packet gid ack_id) sync op h d1))"

section \<open>Packet handlers\<close>

definition handle_group_allocate :: "dword \<Rightarrow> pd \<Rightarrow> DirectPlay8Peer \<Rightarrow> fault + DirectPlay8Peer" where
  "handle_group_allocate i pd d =
     with_peer i d (\<lambda>peer.
       attempt (get_dword pd 0) (\<lambda>ack_id.
         if pstate peer \<noteq> PS_CONNECTED then Inr d
         else Inr (upd_peer i (send_ack ack_id S_OK (le32 (next_player_id d)))
           (d\<lparr>next_player_id := next_player_id d + 1\<rparr>))) d)"

definition group_fields :: "pd \<Rightarrow> nat \<Rightarrow> pd_error + (wchar list \<times> byte list)" where
  "group_fields pd i = ebind (get_wstring pd i) (\<lambda>n. ebind (get_data pd (Suc i)) (\<lambda>dat. Inr (n, dat)))"

text \<open>The creation of a group a peer told us about, up to the second lookup of it.\<close>

definition learn_group ::
  "app \<Rightarrow> Peer \<Rightarrow> dpnid \<Rightarrow> wchar list \<Rightarrow> byte list \<Rightarrow> DirectPlay8Peer \<Rightarrow> bool \<times> DirectPlay8Peer" where
  "learn_group app peer gid n dat d =
     (let d1 = d\<lparr>groups := om_emplace gid (new_Group n dat 0) (groups d)\<rparr>;
          (r, d2) = dispatch_message app (MSG_CREATE_GROUP gid 0 0 (player_ctx peer)) d1
      in (get_group_by_id gid d2 \<noteq> None, upd_group gid (\<lambda>g. g\<lparr>group_ctx := r_context r\<rparr>) d2))"

definition handle_group_create :: "app \<Rightarrow> dword \<Rightarrow> pd \<Rightarrow> DirectPlay8Peer \<Rightarrow> fault + DirectPlay8Peer" where
  "handle_group_create app i pd d =
     with_peer i d (\<lambda>peer.
       attempt (ebind (get_dword pd 0) (\<lambda>gid. ebind (group_fields pd 1) (\<lambda>(n, dat). Inr (gid, n, dat)))) (\<lambda>(gid, n, dat).
         if pstate peer \<notin> {PS_CONNECTED, PS_REQUESTING_HOST, PS_REQUESTING_PEER} then Inr d
         else if om_find gid (groups d) \<noteq> None then Inr d
         else if gid \<in> destroyed_groups d then Inr d
         else Inr (snd (learn_group app peer gid n dat d))) d)"

definition handle_group_destroy :: "app \<Rightarrow> dword \<Rightarrow> pd \<Rightarrow> DirectPlay8Peer \<Rightarrow> fault + DirectPlay8Peer" where
  "handle_group_destroy app i pd d =
     with_peer i d (\<lambda>peer.
       attempt (get_dword pd 0) (\<lambda>gid.
         if pstate peer \<notin> {PS_CONNECTED, PS_REQUESTING_HOST, PS_REQUESTING_PEER} then Inr d
         else if gid \<in> destroyed_groups d then Inr d
         else
           let d1 = d\<lparr>destroyed_groups := insert gid (destroyed_groups d)\<rparr> in
           case get_group_by_id gid d1 of
             None \<Rightarrow> Inr d1
           | Some g \<Rightarrow>
               let (r, d2) = dispatch_message app (MSG_DESTROY_GROUP gid (group_ctx g) DPNDESTROYGROUPREASON_NORMAL) d1
               in Inr (d2\<lparr>groups := om_erase gid (groups d2)\<rparr>)) d)"

text \<open>
  \<^verbatim>\<open>peer->send_ack\<close> on a pointer obtained before the application was entered: if the peer is gone,
  the memory has been freed.
\<close>

definition stale_send_ack :: "dword \<Rightarrow> dword \<Rightarrow> hresult \<Rightarrow> DirectPlay8Peer \<Rightarrow> fault + DirectPlay8Peer" where
  "stale_send_ack i ack_id result d =
     (if get_peer_by_peer_id i d = None then Inl UseAfterFree else Inr (upd_peer i (send_ack ack_id result []) d))"

text \<open>
  The inner declaration of \<^verbatim>\<open>group\<close> shadows the outer one, which stays null after the group was
  created and is dereferenced next.
\<close>

definition handle_group_join :: "app \<Rightarrow> dword \<Rightarrow> pd \<Rightarrow> DirectPlay8Peer \<Rightarrow> fault + DirectPlay8Peer" where
  "handle_group_join app i pd d =
     with_peer i d (\<lambda>peer.
       attempt (ebind (get_dword pd 0) (\<lambda>gid. ebind (get_dword pd 1) (\<lambda>ack_id.
           ebind (group_fields pd 2) (\<lambda>(n, dat). Inr (gid, ack_id, n, dat))))) (\<lambda>(gid, ack_id, n, dat).
         if pstate peer \<noteq> PS_CONNECTED then Inr d
         else if gid \<in> destroyed_groups d then Inr (upd_peer i (send_ack ack_id DPNERR_INVALIDGROUP []) d)
         else case get_group_by_id gid d of
           None \<Rightarrow>
             (let (there, d1) = learn_group app peer gid n dat d
              in if there then Inl NullDeref else stale_send_ack i ack_id DPNERR_INVALIDGROUP d1)
         | Some g \<Rightarrow>
             if local_player_id d \<in> player_ids g
             then Inr (upd_peer i (send_ack ack_id DPNERR_PLAYERALREADYINGROUP []) d)
             else
               (let d1 = send_to_connected SEND_PRI_HIGH (group_joined_packet gid g) CbNone d;
                    d2 = upd_peer i (send_ack ack_id S_OK []) d1;
                    d3 = upd_group gid (\<lambda>g. g\<lparr>player_ids := insert (local_player_id d) (player_ids g)\<rparr>) d2
                in Inr (snd (dispatch_message app
                     (MSG_ADD_PLAYER_TO_GROUP gid (group_ctx g) (local_player_id d) (local_player_ctx d)) d3)))) d)"

definition handle_group_joined :: "app \<Rightarrow> dword \<Rightarrow> pd \<Rightarrow> DirectPlay8Peer \<Rightarrow> fault + DirectPlay8Peer" where
  "handle_group_joined app i pd d =
     with_peer i d (\<lambda>peer.
       attempt (ebind (get_dword pd 0) (\<lambda>gid. ebind (group_fields pd 1) (\<lambda>(n, dat). Inr (gid, n, dat)))) (\<lambda>(gid, n, dat).
         if pstate peer \<noteq> PS_CONNECTED then Inr d
         else if gid \<in> destroyed_groups d then Inr d
         else case get_group_by_id gid d of
           None \<Rightarrow> (let (there, d1) = learn_group app peer gid n dat d in if there then Inl NullDeref else Inr d1)
         | Some g \<Rightarrow>
             if player_id peer \<in> player_ids g then Inr d
             else
               (let d1 = upd_group gid (\<lambda>g. g\<lparr>player_ids := insert (player_id peer) (player_ids g)\<rparr>) d
                in Inr (snd (dispatch_message app
                     (MSG_ADD_PLAYER_TO_GROUP gid (group_ctx g) (player_id peer) (player_ctx peer)) d1)))) d)"

definition handle_group_leave :: "app \<Rightarrow> dword \<Rightarrow> pd \<Rightarrow> DirectPlay8Peer \<Rightarrow> fault + DirectPlay8Peer" where
  "handle_group_leave app i pd d =
     with_peer i d (\<lambda>peer.
       attempt (ebind (get_dword pd 0) (\<lambda>gid. ebind (get_dword pd 1) (\<lambda>ack_id. Inr (gid, ack_id)))) (\<lambda>(gid, ack_id).
         if pstate peer \<noteq> PS_CONNECTED then Inr d
         else if gid \<in> destroyed_groups d then Inr (upd_peer i (send_ack ack_id DPNERR_INVALIDGROUP []) d)
         else case get_group_by_id gid d of
           None \<Rightarrow> Inr d
         | Some g \<Rightarrow>
             if local_player_id d \<notin> player_ids g
             then Inr (upd_peer i (send_ack ack_id DPNERR_PLAYERNOTINGROUP []) d)
             else
               (let d1 = send_to_connected SEND_PRI_HIGH (group_left_packet gid) CbNone d;
                    d2 = upd_peer i (send_ack ack_id S_OK []) d1;
                    d3 = upd_group gid (\<lambda>g. g\<lparr>player_ids := player_ids g - {local_player_id d}\<rparr>) d2
                in Inr (snd (dispatch_message app
                     (MSG_REMOVE_PLAYER_FROM_GROUP gid (group_ctx g) (local_player_id d) (local_player_ctx d)) d3)))) d)"

definition handle_group_left :: "app \<Rightarrow> dword \<Rightarrow> pd \<Rightarrow> DirectPlay8Peer \<Rightarrow> fault + DirectPlay8Peer" where
  "handle_group_left app i pd d =
     with_peer i d (\<lambda>peer.
       attempt (get_dword pd 0) (\<lambda>gid.
         if pstate peer \<noteq> PS_CONNECTED then Inr d
         else if gid \<in> destroyed_groups d then Inr d
         else case get_group_by_id gid d of
           None \<Rightarrow> Inr d
         | Some g \<Rightarrow>
             if player_id peer \<notin> player_ids g then Inr d
             else
               (let d1 = upd_group gid (\<lambda>g. g\<lparr>player_ids := player_ids g - {player_id peer}\<rparr>) d
                in Inr (snd (dispatch_message app
                     (MSG_REMOVE_PLAYER_FROM_GROUP gid (group_ctx g) (player_id peer) (player_ctx peer)) d1)))) d)"

end
