(* ===== verification/PeerTeardown.thy ===== *)
theory PeerTeardown
  imports PeerGroups
begin

text \<open>
  The end of connections and sessions (\<^verbatim>\<open>src/src/DirectPlay8Peer.cpp\<close>): \<^verbatim>\<open>peer_destroy\<close> and its mutual
  recursion with \<^verbatim>\<open>connect_fail\<close> and \<^verbatim>\<open>peer_destroy_all\<close>, the graceful variants, \<^verbatim>\<open>connect_check\<close>, and the
  handlers of the two packets by which a host removes a player or ends the session.

  The recursion and the loops run on fuel, which is the result \<open>OutOfFuel\<close> when it ends: an application
  that keeps queueing sends from its message handler can keep \<^verbatim>\<open>peer_destroy\<close> busy for ever.
\<close>

section \<open>Destroying a peer\<close>

text \<open>
  The two loops that fail what is outstanding on a peer. The flag is false if the peer went away
  while the application was running, in which case \<^verbatim>\<open>peer_destroy\<close> returns.
\<close>

fun drain_sends :: "app \<Rightarrow> nat \<Rightarrow> dword \<Rightarrow> hresult \<Rightarrow> DirectPlay8Peer \<Rightarrow> fault + bool \<times> DirectPlay8Peer" where
  "drain_sends app 0 i result d = Inl OutOfFuel"
| "drain_sends app (Suc fuel) i result d =
     (case get_peer_by_peer_id i d of
        None \<Rightarrow> Inr (False, d)
      | Some p \<Rightarrow>
          (case get_pending (sq p) of
             (None, q) \<Rightarrow> Inr (True, upd_peer i (\<lambda>p. p\<lparr>sq := q\<rparr>) d)
           | (Some op, q) \<Rightarrow>
               (case pop_pending op q of
                  None \<Rightarrow> Inl AssertFailed
                | Some q' \<Rightarrow>
                    ebind (invoke_callback app (callback op) result (upd_peer i (\<lambda>p. p\<lparr>sq := q'\<rparr>) d))
                      (drain_sends app fuel i result))))"

fun drain_acks :: "app \<Rightarrow> nat \<Rightarrow> dword \<Rightarrow> hresult \<Rightarrow> DirectPlay8Peer \<Rightarrow> fault + bool \<times> DirectPlay8Peer" where
  "drain_acks app 0 i result d = Inl OutOfFuel"
| "drain_acks app (Suc fuel) i result d =
     (case get_peer_by_peer_id i d of
        None \<Rightarrow> Inr (False, d)
      | Some p \<Rightarrow>
          (case pending_acks p of
             [] \<Rightarrow> Inr (True, d)
           | (ack_id, cb) # _ \<Rightarrow>
               ebind (run_ack app cb result [] (upd_peer i (\<lambda>p. p\<lparr>pending_acks := om_erase ack_id (pending_acks p)\<rparr>) d))
                 (drain_acks app fuel i result)))"

text \<open>The last part: the handle leaves the worker pool, the socket is closed, the peer is deleted.\<close>

definition remove_peer :: "dword \<Rightarrow> Peer \<Rightarrow> DirectPlay8Peer \<Rightarrow> DirectPlay8Peer" where
  "remove_peer i p d =
     d\<lparr>worker_pool := (case erase_first (\<lambda>(h, _). h = event p) (worker_pool d) of
           Some (_, ws) \<Rightarrow> ws | None \<Rightarrow> worker_pool d),
       closed_sockets := closed_sockets d @ [sock p],
       peers := om_erase i (peers d)\<rparr>"

fun peer_destroy ::
    "app \<Rightarrow> nat \<Rightarrow> dword \<Rightarrow> hresult \<Rightarrow> dword \<Rightarrow> DirectPlay8Peer \<Rightarrow> fault + DirectPlay8Peer"
  and peer_destroy_all ::
    "app \<Rightarrow> nat \<Rightarrow> hresult \<Rightarrow> dword \<Rightarrow> DirectPlay8Peer \<Rightarrow> fault + DirectPlay8Peer"
  and connect_fail ::
    "app \<Rightarrow> nat \<Rightarrow> hresult \<Rightarrow> byte list option \<Rightarrow> DirectPlay8Peer \<Rightarrow> fault + DirectPlay8Peer" where
  "peer_destroy app 0 i result reason d = Inl OutOfFuel"
| "peer_destroy app (Suc fuel) i result reason d =
     with_peer i d (\<lambda>_.
       ebind (drain_sends app fuel i result d) (\<lambda>(go1, d1). if \<not> go1 then Inr d1 else
       ebind (drain_acks app fuel i result d1) (\<lambda>(go2, d2). if \<not> go2 then Inr d2 else
       renew_peer i d2 (\<lambda>peer.
         if pstate peer = PS_CONNECTED then
           ebind (dispatch_destroy_player app fuel (player_id peer) (player_ctx peer) reason
               (upd_peer i (\<lambda>p. p\<lparr>send_open := False, pstate := PS_CLOSING\<rparr>) d2)) (\<lambda>d3.
           let d4 = d3\<lparr>player_to_peer_id := om_erase (player_id peer) (player_to_peer_id d3)\<rparr> in
           ebind
             (if state d4 = STATE_CONNECTED \<and> player_id peer = host_player_id d4 then
                (let d5 = snd (dispatch_message app (MSG_TERMINATE_SESSION result None) (d4\<lparr>state := STATE_TERMINATED\<rparr>)) in
                 ebind (dispatch_destroy_player app fuel (local_player_id d5) (local_player_ctx d5)
                     DPNDESTROYPLAYERREASON_NORMAL d5) (\<lambda>d6.
                 ebind (peer_destroy_all app fuel result reason d6) (\<lambda>d7.
                   group_destroy_all app fuel DPNDESTROYGROUPREASON_NORMAL d7)))
              else Inr d4) (\<lambda>d8.
           renew_peer i d8 (\<lambda>p. Inr (remove_peer i p d8))))
         else if state d2 = STATE_CONNECTING_TO_HOST \<and> pstate peer \<in> {PS_CONNECTING_HOST, PS_REQUESTING_HOST} then
           ebind (connect_fail app fuel result None d2) (\<lambda>d3. renew_peer i d3 (\<lambda>p. Inr (remove_peer i p d3)))
         else if state d2 = STATE_CONNECTING_TO_PEERS \<and> pstate peer \<in> {PS_CONNECTING_PEER, PS_REQUESTING_PEER} then
           ebind (connect_fail app fuel DPNERR_PLAYERNOTREACHABLE None d2) (\<lambda>d3.
             renew_peer i d3 (\<lambda>p. Inr (remove_peer i p d3)))
         else Inr (remove_peer i peer d2)))))"
| "peer_destroy_all app 0 result reason d = Inl OutOfFuel"
| "peer_destroy_all app (Suc fuel) result reason d =
     (case peers d of
        [] \<Rightarrow> Inr d
      | (i, _) # _ \<Rightarrow>
          ebind (peer_destroy app fuel i result reason d) (peer_destroy_all app fuel result reason))"
| "connect_fail app 0 hr reply d = Inl OutOfFuel"
| "connect_fail app (Suc fuel) hr reply d =
     asserting (state d = STATE_CONNECTING_TO_HOST \<or> state d = STATE_CONNECTING_TO_PEERS)
       (ebind (peer_destroy_all app fuel DPNERR_GENERIC DPNDESTROYPLAYERREASON_CONNECTIONLOST
           (close_main_sockets (d\<lparr>state := STATE_CONNECT_FAILED\<rparr>))) (\<lambda>d1.
        ebind
          (if state d = STATE_CONNECTING_TO_PEERS then
             dispatch_destroy_player app fuel (local_player_id d1) (local_player_ctx d1)
               DPNDESTROYPLAYERREASON_NORMAL d1
           else Inr d1) (\<lambda>d2.
        let d3 = snd (dispatch_message app (MSG_CONNECT_COMPLETE (connect_handle d2) (connect_ctx d2) hr reply 0) d2)
        in Inr (d3\<lparr>connect_result := hr, state := STATE_INITIALISED\<rparr>))))"

section \<open>Graceful shutdown\<close>

text \<open>The identifier erased from \<open>player_to_peer_id\<close> is that of the peer, as in the source.\<close>

definition peer_shutdown ::
  "app \<Rightarrow> nat \<Rightarrow> dword \<Rightarrow> hresult \<Rightarrow> dword \<Rightarrow> DirectPlay8Peer \<Rightarrow> fault + DirectPlay8Peer" where
  "peer_shutdown app fuel i result reason d =
     with_peer i d (\<lambda>peer.
       if pstate peer = PS_CONNECTED then
         ebind (dispatch_destroy_player app fuel (player_id peer) (player_ctx peer) reason
             (upd_peer i (\<lambda>p. p\<lparr>pstate := PS_CLOSING\<rparr>) d)) (\<lambda>d1.
           Inr (d1\<lparr>player_to_peer_id := om_erase i (player_to_peer_id d1)\<rparr>))
       else if pstate peer = PS_CLOSING then Inr d
       else peer_destroy app fuel i result reason d)"

fun peer_shutdown_all ::
  "app \<Rightarrow> nat \<Rightarrow> hresult \<Rightarrow> dword \<Rightarrow> DirectPlay8Peer \<Rightarrow> fault + DirectPlay8Peer" where
  "peer_shutdown_all app 0 result reason d = Inl OutOfFuel"
| "peer_shutdown_all app (Suc fuel) result reason d =
     (case find (\<lambda>(i, p). pstate p \<noteq> PS_CLOSING) (peers d) of
        None \<Rightarrow> Inr d
      | Some (i, p) \<Rightarrow>
          ebind (peer_shutdown app fuel i result reason d) (\<lambda>d1.
            asserting (case get_peer_by_peer_id i d1 of Some p \<Rightarrow> pstate p = PS_CLOSING | None \<Rightarrow> True)
              (peer_shutdown_all app fuel result reason d1)))"

section \<open>The end of connecting\<close>

definition connecting :: "PeerState \<Rightarrow> bool" where
  "connecting s \<longleftrightarrow> s \<in> {PS_CONNECTING_HOST, PS_REQUESTING_HOST, PS_CONNECTING_PEER, PS_REQUESTING_PEER}"

definition connect_check :: "app \<Rightarrow> DirectPlay8Peer \<Rightarrow> fault + DirectPlay8Peer" where
  "connect_check app d =
     asserting (state d = STATE_CONNECTING_TO_HOST \<or> state d = STATE_CONNECTING_TO_PEERS)
       (if list_ex (\<lambda>(i, p). connecting (pstate p)) (peers d) then Inr d
        else
          (let d1 = d\<lparr>state := STATE_CONNECTED\<rparr>;
               reply = (if connect_reply_data d1 \<noteq> [] then Some (connect_reply_data d1) else None);
               d2 = snd (dispatch_message app
                  (MSG_CONNECT_COMPLETE (connect_handle d1) (connect_ctx d1) S_OK reply (local_player_id d1)) d1)
           in Inr (d2\<lparr>connect_result := S_OK\<rparr>)))"

section \<open>Packet handlers\<close>

definition terminated_by_host ::
  "app \<Rightarrow> nat \<Rightarrow> byte list \<Rightarrow> (DirectPlay8Peer \<Rightarrow> DirectPlay8Peer) \<Rightarrow> DirectPlay8Peer \<Rightarrow> fault + DirectPlay8Peer" where
  "terminated_by_host app fuel data notify d =
     (let d1 = snd (dispatch_message app (MSG_TERMINATE_SESSION DPNERR_HOSTTERMINATEDSESSION (Some data))
            (d\<lparr>state := STATE_TERMINATED\<rparr>)) in
      ebind (dispatch_destroy_player app fuel (local_player_id d1) (local_player_ctx d1)
          DPNDESTROYPLAYERREASON_SESSIONTERMINATED d1) (\<lambda>d2.
      ebind (peer_shutdown_all app fuel DPNERR_HOSTTERMINATEDSESSION DPNDESTROYPLAYERREASON_SESSIONTERMINATED (notify d2))
        (group_destroy_all app fuel DPNDESTROYGROUPREASON_SESSIONTERMINATED)))"

definition destroy_peer_packet :: "dpnid \<Rightarrow> sbuf" where
  "destroy_peer_packet pid = append_dword (PacketSerialiser DPLITE_MSGID_DESTROY_PEER) pid"

definition handle_destroy_peer :: "app \<Rightarrow> nat \<Rightarrow> dword \<Rightarrow> pd \<Rightarrow> DirectPlay8Peer \<Rightarrow> fault + DirectPlay8Peer" where
  "handle_destroy_peer app fuel i pd d =
     with_peer i d (\<lambda>peer.
       attempt (get_dword pd 0) (\<lambda>pid.
         if pstate peer \<noteq> PS_CONNECTED then Inr d
         else if player_id peer \<noteq> host_player_id d \<and> player_id peer \<noteq> pid then Inr d
         else if pid = local_player_id d then
           attempt (get_data pd 1) (\<lambda>data.
             terminated_by_host app fuel data
               (\<lambda>d. send_to_connected SEND_PRI_HIGH (destroy_peer_packet (local_player_id d)) CbNone d) d) d
         else case om_find pid (player_to_peer_id d) of
           None \<Rightarrow> Inr d
         | Some j \<Rightarrow>
             peer_destroy app fuel j DPNERR_CONNECTIONLOST DPNDESTROYPLAYERREASON_HOSTDESTROYEDPLAYER d) d)"

definition handle_terminate_session ::
  "app \<Rightarrow> nat \<Rightarrow> dword \<Rightarrow> pd \<Rightarrow> DirectPlay8Peer \<Rightarrow> fault + DirectPlay8Peer" where
  "handle_terminate_session app fuel i pd d =
     with_peer i d (\<lambda>peer.
       attempt (get_data pd 0) (\<lambda>data.
         if pstate peer \<noteq> PS_CONNECTED then Inr d
         else if player_id peer \<noteq> host_player_id d then Inr d
         else terminated_by_host app fuel data (\<lambda>d. d) d) d)"

end
