(* ===== verification/PeerSession.thy ===== *)
theory PeerSession
  imports PeerTeardown
begin

text \<open>
  Joining and taking part in a session (\<^verbatim>\<open>src/src/DirectPlay8Peer.cpp\<close>): the answer to an enumeration
  request, the two handshakes (a client with the host, a joining peer with the other peers), new
  connections in both directions, and the handlers of messages, player information,
  acknowledgements and session descriptions.

  Handlers without a \<^verbatim>\<open>try\<close> block let an exception of the parser leave them; that is the fault
  \<open>Uncaught\<close>, after which the state no longer matters because the exception ends the process. The
  parts of Windows a new connection depends on are the record \<open>conn_env\<close>.
\<close>

section \<open>Enumeration\<close>

text \<open>The application gets its buffer back after the reply data was copied.\<close>

definition return_buffer :: "app \<Rightarrow> app_reply \<Rightarrow> DirectPlay8Peer \<Rightarrow> DirectPlay8Peer" where
  "return_buffer app r d =
     (if r_data r \<noteq> [] then snd (dispatch_message app (MSG_RETURN_BUFFER S_OK (r_data r) (r_data_context r)) d) else d)"

definition data_or_null :: "byte list \<Rightarrow> field" where
  "data_or_null dat = (if dat \<noteq> [] then FData dat else FNull)"

definition host_enum_response :: "byte list \<Rightarrow> dword \<Rightarrow> DirectPlay8Peer \<Rightarrow> sbuf" where
  "host_enum_response reply tick d =
     serialise DPLITE_MSGID_HOST_ENUM_RESPONSE
       [FDword (if password d = [] then 0 else DPNSESSION_REQUIREPASSWORD),
        FGuid (instance_guid d), FGuid (application_guid d), FDword (max_players d),
        FDword (word_of_nat (length (player_to_peer_id d)) + 1), FWstring (session_name d),
        data_or_null (application_data d), data_or_null reply, FDword tick]"

definition handle_host_enum_request ::
  "mb_conv \<Rightarrow> app \<Rightarrow> pd \<Rightarrow> sockaddr_in \<Rightarrow> DirectPlay8Peer \<Rightarrow> fault + DirectPlay8Peer" where
  "handle_host_enum_request mb app pd from_addr d =
     (if state d \<noteq> STATE_HOSTING then Inr d
      else
        ebind (throws (is_null pd 0)) (\<lambda>null0.
        ebind (if null0 then Inr True else ebind (throws (get_guid pd 0)) (\<lambda>g. Inr (g = application_guid d))) (\<lambda>ours.
        if \<not> ours then Inr d
        else case create_host_address mb None (service_provider d) from_addr of
          None \<Rightarrow> Inl AssertFailed
        | Some (addr, _) \<Rightarrow>
            ebind (throws (optional_data pd 1)) (\<lambda>received.
            ebind (throws (get_dword pd 2)) (\<lambda>tick.
            let (r, d1) = dispatch_message app (MSG_ENUM_HOSTS_QUERY (Some addr) received 9999) d;
                d2 = return_buffer app r d1
            in if state d2 \<noteq> STATE_HOSTING then Inr d2
               else if r_result r = S_OK then
                 Inr (d2\<lparr>udp_sq := send SEND_PRI_MEDIUM (host_enum_response (r_data r) tick d2) (Some from_addr)
                   CbNone (udp_sq d2)\<rparr>)
               else Inr d2)))))"

section \<open>New connections\<close>

record conn_env =
  ce_os :: net_os
  ce_event :: HANDLE
  ce_select :: bool
  ce_would_block :: bool
  ce_uninit_id :: dpnid
  ce_uninit_ctx :: ctx

definition add_peer :: "dword \<Rightarrow> Peer \<Rightarrow> DirectPlay8Peer \<Rightarrow> DirectPlay8Peer" where
  "add_peer i p d =
     d\<lparr>peers := om_emplace i p (peers d), worker_pool := worker_pool d @ [(event p, JobPeer i)]\<rparr>"

definition peer_connect ::
  "conn_env \<Rightarrow> PeerState \<Rightarrow> dword \<Rightarrow> 16 word \<Rightarrow> dpnid \<Rightarrow> DirectPlay8Peer \<Rightarrow> bool \<times> DirectPlay8Peer" where
  "peer_connect ce st remote_ip remote_port pid d =
     (case snd (create_client_socket (ce_os ce) (local_ip d) (local_port d)) of
        None \<Rightarrow> (False, d)
      | Some s \<Rightarrow>
          (let i = next_peer_id d;
               d1 = d\<lparr>next_peer_id := next_peer_id d + 1\<rparr>;
               p = (new_Peer (ce_uninit_id ce) (ce_uninit_ctx ce) (ce_event ce) st s remote_ip remote_port)\<lparr>player_id := pid\<rparr>;
               (ok, p') = enable_events (ce_select ce) (FD_CONNECT OR FD_READ OR FD_WRITE OR FD_CLOSE) p
           in if \<not> ok \<or> \<not> ce_would_block ce then (False, d1\<lparr>closed_sockets := closed_sockets d1 @ [s]\<rparr>)
              else (True, add_peer i p' d1)))"

text \<open>
  The outcome of \<^verbatim>\<open>accept\<close>: the socket and the address of the other side, and whether it could be
  made non-blocking.
\<close>

definition peer_accept ::
  "conn_env \<Rightarrow> (nat \<times> sockaddr_in) option \<Rightarrow> bool \<Rightarrow> DirectPlay8Peer \<Rightarrow> DirectPlay8Peer" where
  "peer_accept ce accepted nonblocking d =
     (if listener_socket d = None then d
      else case accepted of
        None \<Rightarrow> d
      | Some (s, addr) \<Rightarrow>
          if \<not> nonblocking then d\<lparr>closed_sockets := closed_sockets d @ [s]\<rparr>
          else
            (let i = next_peer_id d;
                 d1 = d\<lparr>next_peer_id := next_peer_id d + 1\<rparr>;
                 p = new_Peer (ce_uninit_id ce) (ce_uninit_ctx ce) (ce_event ce) PS_ACCEPTED s
                       (sin_addr addr) (ntohs (sin_port addr));
                 (ok, p') = enable_events (ce_select ce) (FD_READ OR FD_WRITE OR FD_CLOSE) p
             in if \<not> ok then d1\<lparr>closed_sockets := closed_sockets d1 @ [s]\<rparr> else add_peer i p' d1))"

section \<open>The handshake with the host\<close>

definition connect_host_packet :: "DirectPlay8Peer \<Rightarrow> sbuf" where
  "connect_host_packet d =
     serialise DPLITE_MSGID_CONNECT_HOST
       [if instance_guid d \<noteq> GUID_NULL then FGuid (instance_guid d) else FNull,
        FGuid (application_guid d),
        if password d \<noteq> [] then FWstring (password d) else FNull,
        data_or_null (connect_req_data d), FWstring (local_player_name d), FData (local_player_data d)]"

definition connect_peer_packet :: "DirectPlay8Peer \<Rightarrow> sbuf" where
  "connect_peer_packet d =
     serialise DPLITE_MSGID_CONNECT_PEER
       [FGuid (instance_guid d), FGuid (application_guid d), FWstring (password d),
        FDword (local_player_id d), FWstring (local_player_name d), FData (local_player_data d)]"

text \<open>
  The completion of an outgoing TCP connection. \<open>got\<close> tells whether \<^verbatim>\<open>getsockopt\<close> succeeded and \<open>error\<close> is
  the variable it writes; when it fails the code goes on with the old pointer.
\<close>

definition io_peer_connected ::
  "app \<Rightarrow> nat \<Rightarrow> bool \<Rightarrow> int \<Rightarrow> dword \<Rightarrow> DirectPlay8Peer \<Rightarrow> fault + DirectPlay8Peer" where
  "io_peer_connected app fuel got error i d =
     with_peer i d (\<lambda>_.
       ebind (if got then Inr d else connect_fail app fuel DPNERR_GENERIC None d) (\<lambda>d1.
       case get_peer_by_peer_id i d1 of
         None \<Rightarrow> Inl UseAfterFree
       | Some peer \<Rightarrow>
           if error = 0 then
             if pstate peer = PS_CONNECTING_HOST then
               Inr (upd_peer i (\<lambda>p. p\<lparr>sq := send SEND_PRI_MEDIUM (connect_host_packet d1) None CbNone (sq p),
                 pstate := PS_REQUESTING_HOST\<rparr>) d1)
             else if pstate peer = PS_CONNECTING_PEER then
               Inr (upd_peer i (\<lambda>p. p\<lparr>sq := send SEND_PRI_HIGH (connect_peer_packet d1) None CbNone (sq p),
                 pstate := PS_REQUESTING_PEER\<rparr>) d1)
             else Inr d1
           else if pstate peer = PS_CONNECTING_HOST then connect_fail app fuel DPNERR_NOCONNECTION None d1
           else if pstate peer = PS_CONNECTING_PEER then connect_fail app fuel DPNERR_PLAYERNOTREACHABLE None d1
           else Inr d1))"

text \<open>What the accepting side tells a new peer about the groups.\<close>

definition announce_groups :: "dword \<Rightarrow> DirectPlay8Peer \<Rightarrow> DirectPlay8Peer" where
  "announce_groups i d =
     (let d1 = fold (\<lambda>gid. peer_send i SEND_PRI_HIGH (group_destroy_packet gid) CbNone)
            (sorted_list_of_set (destroyed_groups d)) d
      in fold (\<lambda>(gid, g). peer_send i SEND_PRI_HIGH (group_create_packet gid (group_name g) (group_data g)) CbNone)
           (filter (\<lambda>(gid, g). gid \<notin> destroyed_groups d) (groups d)) d1)"

definition member_group_ids :: "DirectPlay8Peer \<Rightarrow> dpnid list" where
  "member_group_ids d =
     map fst (filter (\<lambda>(gid, g). gid \<notin> destroyed_groups d \<and> local_player_id d \<in> player_ids g) (groups d))"

definition host_fail_packet :: "hresult \<Rightarrow> byte list \<Rightarrow> sbuf" where
  "host_fail_packet err dat = serialise DPLITE_MSGID_CONNECT_HOST_FAIL [FDword err, data_or_null dat]"

definition host_send_fail :: "dword \<Rightarrow> hresult \<Rightarrow> byte list \<Rightarrow> DirectPlay8Peer \<Rightarrow> DirectPlay8Peer" where
  "host_send_fail i err dat d =
     upd_peer i (\<lambda>p. p\<lparr>sq := send SEND_PRI_MEDIUM (host_fail_packet err dat) None CbNone (sq p),
       pstate := PS_CLOSING\<rparr>) d"

text \<open>The peers listed for a newcomer, with the announced number of them as the code computes it.\<close>

definition other_peer_fields :: "dword \<Rightarrow> DirectPlay8Peer \<Rightarrow> field list" where
  "other_peer_fields i d =
     concat (map (\<lambda>(j, p). [FDword (player_id p), FDword (ip p), FDword (ucast (port p))])
       (filter (\<lambda>(j, p). j \<noteq> i \<and> pstate p = PS_CONNECTED) (peers d)))"

definition host_ok_fields :: "dword \<Rightarrow> dpnid \<Rightarrow> byte list \<Rightarrow> DirectPlay8Peer \<Rightarrow> field list" where
  "host_ok_fields i pid reply d =
     [FGuid (instance_guid d), FDword (host_player_id d), FDword pid,
      FDword (word_of_nat (length (player_to_peer_id d)) - 1)]
     @ other_peer_fields i d
     @ [data_or_null reply, FWstring (local_player_name d), FData (local_player_data d),
        FDword (max_players d), FWstring (session_name d), FWstring (password d), FData (application_data d),
        FDword (word_of_nat (length (member_group_ids d)))]
     @ map FDword (member_group_ids d)"

definition accept_player ::
  "app \<Rightarrow> dword \<Rightarrow> app_reply \<Rightarrow> DirectPlay8Peer \<Rightarrow> fault + DirectPlay8Peer" where
  "accept_player app i r d =
     (let pid = next_player_id d;
          d1 = upd_peer i (\<lambda>p. p\<lparr>player_id := pid, player_ctx := r_context r, pstate := PS_CONNECTED\<rparr>)
            (d\<lparr>next_player_id := next_player_id d + 1, player_to_peer_id := om_set pid i (player_to_peer_id d)\<rparr>);
          d2 = announce_groups i d1;
          d3 = peer_send i SEND_PRI_MEDIUM
            (serialise DPLITE_MSGID_CONNECT_HOST_OK (host_ok_fields i pid (r_data r) d2)) CbNone d2;
          (r2, d4) = dispatch_message app (MSG_CREATE_PLAYER pid (r_context r)) d3
      in renew_peer i d4 (\<lambda>_. Inr (upd_peer i (\<lambda>p. p\<lparr>player_ctx := r_context r2\<rparr>) d4)))"

definition optional_wstring :: "pd \<Rightarrow> nat \<Rightarrow> pd_error + wchar list" where
  "optional_wstring p i = ebind (is_null p i) (\<lambda>null. if null then Inr [] else get_wstring p i)"

definition handle_host_connect_request ::
  "mb_conv \<Rightarrow> app \<Rightarrow> dword \<Rightarrow> pd \<Rightarrow> DirectPlay8Peer \<Rightarrow> fault + DirectPlay8Peer" where
  "handle_host_connect_request mb app i pd d =
     with_peer i d (\<lambda>peer.
       if pstate peer \<noteq> PS_ACCEPTED then Inr d
       else if state d \<noteq> STATE_HOSTING then Inr (host_send_fail i DPNERR_NOTHOST [] d)
       else
         ebind (throws (is_null pd 0)) (\<lambda>null0.
         ebind (if null0 then Inr True else ebind (throws (get_guid pd 0)) (\<lambda>g. Inr (g = instance_guid d))) (\<lambda>same_instance.
         if \<not> same_instance then Inr (host_send_fail i DPNERR_INVALIDINSTANCE [] d)
         else ebind (throws (get_guid pd 1)) (\<lambda>appl.
         if appl \<noteq> application_guid d then Inr (host_send_fail i DPNERR_INVALIDAPPLICATION [] d)
         else ebind (throws (optional_wstring pd 2)) (\<lambda>req_password.
         if req_password \<noteq> password d then Inr (host_send_fail i DPNERR_INVALIDPASSWORD [] d)
         else
           ebind (throws (get_wstring pd 4)) (\<lambda>n.
           ebind (throws (get_data pd 5)) (\<lambda>dat.
           ebind (throws (optional_data pd 3)) (\<lambda>connect_data.
           case create_host_address mb None (service_provider d) \<lparr>sin_addr = ip peer, sin_port = htons (port peer)\<rparr> of
             None \<Rightarrow> Inl AssertFailed
           | Some (addr, _) \<Rightarrow>
               let (r, d1) = dispatch_message app (MSG_INDICATE_CONNECT connect_data (Some addr))
                     (upd_peer i (\<lambda>p. p\<lparr>player_name := n, player_data := dat, pstate := PS_INDICATING\<rparr>) d);
                   d2 = return_buffer app r d1
               in renew_peer i d2 (\<lambda>_.
                    if r_result r = S_OK then accept_player app i r d2
                    else Inr (host_send_fail i DPNERR_HOSTREJECTEDCONNECTION (r_data r) d2))))))))))"

text \<open>
  The list of peers in the host's answer. A packet has far fewer than \<open>2 ^ 30\<close> fields, so the index
  of the first missing one is reached before \<^verbatim>\<open>n * 3\<close> could wrap.
\<close>

fun parse_peers :: "pd \<Rightarrow> nat \<Rightarrow> nat \<Rightarrow> pd_error + (dword \<times> dword \<times> dword) list" where
  "parse_peers pd base 0 = Inr []"
| "parse_peers pd base (Suc n) =
     ebind (get_dword pd base) (\<lambda>pid. ebind (get_dword pd (base + 1)) (\<lambda>a. ebind (get_dword pd (base + 2)) (\<lambda>p.
       ebind (parse_peers pd (base + 3) n) (\<lambda>rest. Inr ((pid, a, p) # rest)))))"

fun parse_dwords :: "pd \<Rightarrow> nat \<Rightarrow> nat \<Rightarrow> pd_error + dword list" where
  "parse_dwords pd base 0 = Inr []"
| "parse_dwords pd base (Suc n) =
     ebind (get_dword pd base) (\<lambda>x. ebind (parse_dwords pd (Suc base) n) (\<lambda>xs. Inr (x # xs)))"

record host_ok =
  ho_instance :: guid
  ho_host_id :: dpnid
  ho_local_id :: dpnid
  ho_peers :: "(dword \<times> dword \<times> dword) list"
  ho_reply :: "byte list"
  ho_name :: "wchar list"
  ho_data :: "byte list"
  ho_max_players :: dword
  ho_session_name :: "wchar list"
  ho_password :: "wchar list"
  ho_application_data :: "byte list"
  ho_groups :: "dword list"

definition parse_host_ok :: "pd \<Rightarrow> pd_error + host_ok" where
  "parse_host_ok pd =
     ebind (get_guid pd 0) (\<lambda>inst.
     ebind (get_dword pd 1) (\<lambda>host.
     ebind (get_dword pd 2) (\<lambda>loc.
     ebind (get_dword pd 3) (\<lambda>n.
     ebind (parse_peers pd 4 (unat n)) (\<lambda>others.
     let base = 4 + 3 * unat n in
     ebind (optional_data pd base) (\<lambda>reply.
     ebind (get_wstring pd (base + 1)) (\<lambda>pname.
     ebind (get_data pd (base + 2)) (\<lambda>pdata.
     ebind (get_dword pd (base + 3)) (\<lambda>maxp.
     ebind (get_wstring pd (base + 4)) (\<lambda>sess.
     ebind (get_wstring pd (base + 5)) (\<lambda>pw.
     ebind (get_data pd (base + 6)) (\<lambda>appdata.
     ebind (get_dword pd (base + 7)) (\<lambda>ng.
     ebind (parse_dwords pd (base + 8) (unat ng)) (\<lambda>gs.
       Inr \<lparr>ho_instance = inst, ho_host_id = host, ho_local_id = loc, ho_peers = others,
         ho_reply = (case reply of Some r \<Rightarrow> r | None \<Rightarrow> []), ho_name = pname, ho_data = pdata,
         ho_max_players = maxp, ho_session_name = sess, ho_password = pw, ho_application_data = appdata,
         ho_groups = gs\<rparr>))))))))))))))"

text \<open>The loop that puts the other player into the groups it says it is in; false if the peer went away.\<close>

fun join_peer_groups :: "app \<Rightarrow> dword \<Rightarrow> dpnid list \<Rightarrow> DirectPlay8Peer \<Rightarrow> bool \<times> DirectPlay8Peer" where
  "join_peer_groups app i [] d = (get_peer_by_peer_id i d \<noteq> None, d)"
| "join_peer_groups app i (gid # gids) d =
     (case get_peer_by_peer_id i d of
        None \<Rightarrow> (False, d)
      | Some peer \<Rightarrow>
          if gid \<in> destroyed_groups d then join_peer_groups app i gids d
          else case get_group_by_id gid d of
            None \<Rightarrow> join_peer_groups app i gids d
          | Some g \<Rightarrow>
              if player_id peer \<in> player_ids g then join_peer_groups app i gids d
              else
                (let d1 = upd_group gid (\<lambda>g. g\<lparr>player_ids := insert (player_id peer) (player_ids g)\<rparr>) d;
                     d2 = snd (dispatch_message app
                       (MSG_ADD_PLAYER_TO_GROUP gid (group_ctx g) (player_id peer) (player_ctx peer)) d1)
                 in join_peer_groups app i gids d2))"

text \<open>The connections to the other peers; \<open>env n\<close> is the environment of the \<open>n\<close>-th.\<close>

fun connect_peers ::
  "(nat \<Rightarrow> conn_env) \<Rightarrow> nat \<Rightarrow> (dword \<times> dword \<times> dword) list \<Rightarrow> DirectPlay8Peer \<Rightarrow> bool \<times> DirectPlay8Peer" where
  "connect_peers env n [] d = (True, d)"
| "connect_peers env n ((pid, a, p) # rest) d =
     (let (ok, d1) = peer_connect (env n) PS_CONNECTING_PEER a (ucast p) pid d
      in if ok then connect_peers env (Suc n) rest d1 else (False, d1))"

definition apply_host_ok :: "dword \<Rightarrow> host_ok \<Rightarrow> DirectPlay8Peer \<Rightarrow> DirectPlay8Peer" where
  "apply_host_ok i ho d =
     upd_peer i (\<lambda>p. p\<lparr>player_id := ho_host_id ho, player_name := ho_name ho, player_data := ho_data ho,
         pstate := PS_CONNECTED\<rparr>)
       (d\<lparr>instance_guid := ho_instance ho, host_player_id := ho_host_id ho,
          player_to_peer_id := om_set (ho_host_id ho) i (player_to_peer_id d),
          local_player_id := ho_local_id ho, connect_reply_data := ho_reply ho,
          max_players := ho_max_players ho, session_name := ho_session_name ho, password := ho_password ho,
          application_data := ho_application_data ho, state := STATE_CONNECTING_TO_PEERS\<rparr>)"

definition handle_host_connect_ok ::
  "app \<Rightarrow> nat \<Rightarrow> (nat \<Rightarrow> conn_env) \<Rightarrow> dword \<Rightarrow> pd \<Rightarrow> DirectPlay8Peer \<Rightarrow> fault + DirectPlay8Peer" where
  "handle_host_connect_ok app fuel env i pd d =
     with_peer i d (\<lambda>peer.
       if pstate peer \<noteq> PS_REQUESTING_HOST then Inr d
       else asserting (state d = STATE_CONNECTING_TO_HOST)
         (ebind (throws (parse_host_ok pd)) (\<lambda>ho.
          let d1 = apply_host_ok i ho d;
              (r, d2) = dispatch_message app (MSG_CREATE_PLAYER (local_player_id d1) (local_player_ctx d1)) d1;
              d3 = d2\<lparr>local_player_ctx := r_context r\<rparr>
          in case get_peer_by_peer_id i d3 of
               None \<Rightarrow> Inl UseAfterFree
             | Some p \<Rightarrow>
                 let (r2, d4) = dispatch_message app (MSG_CREATE_PLAYER (player_id p) 0) d3 in
                 renew_peer i d4 (\<lambda>_.
                   let (there, d5) = join_peer_groups app i (sorted_list_of_set (set (ho_groups ho)))
                         (upd_peer i (\<lambda>p. p\<lparr>player_ctx := r_context r2\<rparr>) d4)
                   in if \<not> there then Inr d5
                      else let (ok, d6) = connect_peers env 0 (ho_peers ho) d5
                        in if ok then connect_check app d6
                           else connect_fail app fuel DPNERR_PLAYERNOTREACHABLE None d6))))"

definition handle_host_connect_fail ::
  "app \<Rightarrow> nat \<Rightarrow> dword \<Rightarrow> pd \<Rightarrow> DirectPlay8Peer \<Rightarrow> fault + DirectPlay8Peer" where
  "handle_host_connect_fail app fuel i pd d =
     with_peer i d (\<lambda>peer.
       if pstate peer \<noteq> PS_REQUESTING_HOST then Inr d
       else asserting (state d = STATE_CONNECTING_TO_HOST)
         (let (hr, reply) = (case get_dword pd 0 of
                 Inl _ \<Rightarrow> (DPNERR_GENERIC, None)
               | Inr h \<Rightarrow> (h, case optional_data pd 1 of Inr (Some dat) \<Rightarrow> if dat \<noteq> [] then Some dat else None | _ \<Rightarrow> None))
          in connect_fail app fuel hr reply d))"

section \<open>The handshake between peers\<close>

definition peer_send_fail :: "dword \<Rightarrow> hresult \<Rightarrow> DirectPlay8Peer \<Rightarrow> DirectPlay8Peer" where
  "peer_send_fail i err d =
     upd_peer i (\<lambda>p. p\<lparr>sq := send SEND_PRI_HIGH (serialise DPLITE_MSGID_CONNECT_PEER_FAIL [FDword err]) None CbNone (sq p),
       pstate := PS_CLOSING\<rparr>) d"

definition peer_ok_fields :: "DirectPlay8Peer \<Rightarrow> field list" where
  "peer_ok_fields d =
     [FWstring (local_player_name d), FData (local_player_data d), FDword (word_of_nat (length (member_group_ids d)))]
     @ map FDword (member_group_ids d)"

text \<open>A joining peer whose request passed the checks.\<close>

definition accept_peer ::
  "app \<Rightarrow> dword \<Rightarrow> dpnid \<Rightarrow> wchar list \<Rightarrow> byte list \<Rightarrow> DirectPlay8Peer \<Rightarrow> fault + DirectPlay8Peer" where
  "accept_peer app i pid n dat d =
     (let d1 = upd_peer i (\<lambda>p. p\<lparr>player_id := pid, player_name := n, player_data := dat\<rparr>) d in
      if om_find pid (player_to_peer_id d1) \<noteq> None then Inr (peer_send_fail i DPNERR_ALREADYCONNECTED d1)
      else
        let d2 = upd_peer i (\<lambda>p. p\<lparr>pstate := PS_CONNECTED\<rparr>)
              (d1\<lparr>player_to_peer_id := om_set pid i (player_to_peer_id d1)\<rparr>);
            d3 = announce_groups i d2;
            d4 = peer_send i SEND_PRI_HIGH (serialise DPLITE_MSGID_CONNECT_PEER_OK (peer_ok_fields d3)) CbNone d3;
            (r, d5) = dispatch_message app (MSG_CREATE_PLAYER pid 0) d4
        in renew_peer i d5 (\<lambda>_. Inr (upd_peer i (\<lambda>p. p\<lparr>player_ctx := r_context r\<rparr>) d5)))"

definition handle_connect_peer :: "app \<Rightarrow> dword \<Rightarrow> pd \<Rightarrow> DirectPlay8Peer \<Rightarrow> fault + DirectPlay8Peer" where
  "handle_connect_peer app i pd d =
     with_peer i d (\<lambda>peer.
       if pstate peer \<noteq> PS_ACCEPTED then Inr d
       else if state d \<noteq> STATE_CONNECTED then Inr (peer_send_fail i DPNERR_GENERIC d)
       else ebind (throws (get_guid pd 0)) (\<lambda>inst.
         if inst \<noteq> instance_guid d then Inr (peer_send_fail i DPNERR_INVALIDINSTANCE d)
         else ebind (throws (get_guid pd 1)) (\<lambda>appl.
         if appl \<noteq> application_guid d then Inr (peer_send_fail i DPNERR_INVALIDAPPLICATION d)
         else ebind (throws (get_wstring pd 2)) (\<lambda>pw.
         if pw \<noteq> password d then Inr (peer_send_fail i DPNERR_INVALIDPASSWORD d)
         else
           ebind (throws (get_dword pd 3)) (\<lambda>pid.
           ebind (throws (get_wstring pd 4)) (\<lambda>n.
           ebind (throws (get_data pd 5)) (\<lambda>dat.
           accept_peer app i pid n dat d)))))))"

definition parse_peer_ok :: "pd \<Rightarrow> pd_error + (wchar list \<times> byte list \<times> dword list)" where
  "parse_peer_ok pd =
     ebind (get_wstring pd 0) (\<lambda>n. ebind (get_data pd 1) (\<lambda>dat. ebind (get_dword pd 2) (\<lambda>ng.
       ebind (parse_dwords pd 3 (unat ng)) (\<lambda>gs. Inr (n, dat, gs)))))"

definition handle_connect_peer_ok :: "app \<Rightarrow> dword \<Rightarrow> pd \<Rightarrow> DirectPlay8Peer \<Rightarrow> fault + DirectPlay8Peer" where
  "handle_connect_peer_ok app i pd d =
     with_peer i d (\<lambda>peer.
       if pstate peer \<noteq> PS_REQUESTING_PEER then Inr d
       else asserting (state d = STATE_CONNECTING_TO_PEERS)
         (ebind (throws (parse_peer_ok pd)) (\<lambda>(n, dat, gs).
          let d1 = upd_peer i (\<lambda>p. p\<lparr>player_name := n, player_data := dat, pstate := PS_CONNECTED\<rparr>)
                (d\<lparr>player_to_peer_id := om_set (player_id peer) i (player_to_peer_id d)\<rparr>);
              (r, d2) = dispatch_message app (MSG_CREATE_PLAYER (player_id peer) 0) d1
          in renew_peer i d2 (\<lambda>_.
               let (there, d3) = join_peer_groups app i (sorted_list_of_set (set gs))
                     (upd_peer i (\<lambda>p. p\<lparr>player_ctx := r_context r\<rparr>) d2)
               in if there then connect_check app d3 else Inr d3))))"

definition handle_connect_peer_fail :: "app \<Rightarrow> nat \<Rightarrow> dword \<Rightarrow> pd \<Rightarrow> DirectPlay8Peer \<Rightarrow> fault + DirectPlay8Peer" where
  "handle_connect_peer_fail app fuel i pd d =
     with_peer i d (\<lambda>peer.
       if pstate peer \<noteq> PS_REQUESTING_PEER then Inr d
       else asserting (state d = STATE_CONNECTING_TO_PEERS)
         (connect_fail app fuel DPNERR_PLAYERNOTREACHABLE None d))"

section \<open>Established sessions\<close>

definition handle_message :: "app \<Rightarrow> pd \<Rightarrow> DirectPlay8Peer \<Rightarrow> fault + DirectPlay8Peer" where
  "handle_message app pd d =
     attempt (ebind (get_dword pd 0) (\<lambda>from. ebind (get_data pd 1) (\<lambda>payload. ebind (get_dword pd 2) (\<lambda>flags.
         Inr (from, payload))))) (\<lambda>(from, payload).
       case get_peer_by_player_id from d of
         None \<Rightarrow> Inr d
       | Some peer \<Rightarrow> Inr (snd (dispatch_message app (MSG_RECEIVE from (player_ctx peer) payload 0) d))) d"

definition handle_playerinfo :: "app \<Rightarrow> dword \<Rightarrow> pd \<Rightarrow> DirectPlay8Peer \<Rightarrow> fault + DirectPlay8Peer" where
  "handle_playerinfo app i pd d =
     with_peer i d (\<lambda>peer.
       attempt (ebind (get_dword pd 0) (\<lambda>pid. ebind (group_fields pd 1) (\<lambda>(n, dat). ebind (get_dword pd 3) (\<lambda>ack_id.
           Inr (pid, n, dat, ack_id))))) (\<lambda>(pid, n, dat, ack_id).
         if pstate peer \<noteq> PS_CONNECTED then Inr d
         else if pid \<noteq> player_id peer then Inr d
         else
           let d1 = upd_peer i (\<lambda>p. send_ack ack_id S_OK [] (p\<lparr>player_name := n, player_data := dat\<rparr>)) d
           in Inr (snd (dispatch_message app (MSG_PEER_INFO (player_id peer) (player_ctx peer)) d1))) d)"

definition handle_ack :: "app \<Rightarrow> dword \<Rightarrow> pd \<Rightarrow> DirectPlay8Peer \<Rightarrow> fault + DirectPlay8Peer" where
  "handle_ack app i pd d =
     with_peer i d (\<lambda>peer.
       attempt (ebind (get_dword pd 0) (\<lambda>ack_id. ebind (get_dword pd 1) (\<lambda>result. ebind (get_data pd 2) (\<lambda>dat.
           Inr (ack_id, result, dat))))) (\<lambda>(ack_id, result, dat).
         case om_find ack_id (pending_acks peer) of
           None \<Rightarrow> Inr d
         | Some cb \<Rightarrow>
             run_ack app cb result dat
               (upd_peer i (\<lambda>p. p\<lparr>pending_acks := om_erase ack_id (pending_acks p)\<rparr>) d)) d)"

definition handle_appdesc :: "app \<Rightarrow> dword \<Rightarrow> pd \<Rightarrow> DirectPlay8Peer \<Rightarrow> fault + DirectPlay8Peer" where
  "handle_appdesc app i pd d =
     with_peer i d (\<lambda>peer.
       attempt (ebind (get_dword pd 0) (\<lambda>maxp. ebind (get_wstring pd 1) (\<lambda>sess. ebind (get_wstring pd 2) (\<lambda>pw.
           ebind (get_data pd 3) (\<lambda>dat. Inr (maxp, sess, pw, dat)))))) (\<lambda>(maxp, sess, pw, dat).
         if pstate peer \<noteq> PS_CONNECTED then Inr d
         else if player_id peer \<noteq> host_player_id d then Inr d
         else Inr (snd (dispatch_message app MSG_APPLICATION_DESC
           (d\<lparr>max_players := maxp, session_name := sess, password := pw, application_data := dat\<rparr>)))) d)"

end
