(* ===== verification/PeerIO.thy ===== *)
theory PeerIO
  imports PeerSession
begin

text \<open>
  Input and output (\<^verbatim>\<open>src/src/DirectPlay8Peer.cpp\<close>): cutting the byte stream of a TCP connection into
  packets and dispatching them, sending what is queued, and the handlers of the socket events. What
  the sockets return is a list of results, one for each call, the end of the list standing for
  \<^verbatim>\<open>WSAEWOULDBLOCK\<close>.
\<close>

definition MAX_PACKET_SIZE :: nat where "MAX_PACKET_SIZE = 262144"

section \<open>Cutting the stream into packets\<close>

datatype frame = NeedMore | Oversize | Frame nat

text \<open>The tests at the head of the inner loop; the size is computed in 32 bits.\<close>

definition next_frame :: "byte list \<Rightarrow> frame" where
  "next_frame buf =
     (if length buf < 8 then NeedMore
      else let full_packet_size = unat (8 + de32 (take 4 (drop 4 buf)) :: dword) in
        if full_packet_size > MAX_PACKET_SIZE then Oversize
        else if length buf \<ge> full_packet_size then Frame full_packet_size
        else NeedMore)"

section \<open>Dispatching a packet\<close>

definition handle_packet ::
  "mb_conv \<Rightarrow> app \<Rightarrow> nat \<Rightarrow> (nat \<Rightarrow> conn_env) \<Rightarrow> dword \<Rightarrow> pd \<Rightarrow> DirectPlay8Peer \<Rightarrow> fault + DirectPlay8Peer" where
  "handle_packet mb app fuel env i pd d =
     ebind (throws (packet_type pd)) (\<lambda>t.
       if t = DPLITE_MSGID_CONNECT_HOST then handle_host_connect_request mb app i pd d
       else if t = DPLITE_MSGID_CONNECT_HOST_OK then handle_host_connect_ok app fuel env i pd d
       else if t = DPLITE_MSGID_CONNECT_HOST_FAIL then handle_host_connect_fail app fuel i pd d
       else if t = DPLITE_MSGID_MESSAGE then handle_message app pd d
       else if t = DPLITE_MSGID_PLAYERINFO then handle_playerinfo app i pd d
       else if t = DPLITE_MSGID_ACK then handle_ack app i pd d
       else if t = DPLITE_MSGID_APPDESC then handle_appdesc app i pd d
       else if t = DPLITE_MSGID_CONNECT_PEER then handle_connect_peer app i pd d
       else if t = DPLITE_MSGID_CONNECT_PEER_OK then handle_connect_peer_ok app i pd d
       else if t = DPLITE_MSGID_CONNECT_PEER_FAIL then handle_connect_peer_fail app fuel i pd d
       else if t = DPLITE_MSGID_DESTROY_PEER then handle_destroy_peer app fuel i pd d
       else if t = DPLITE_MSGID_TERMINATE_SESSION then handle_terminate_session app fuel i pd d
       else if t = DPLITE_MSGID_GROUP_ALLOCATE then handle_group_allocate i pd d
       else if t = DPLITE_MSGID_GROUP_CREATE then handle_group_create app i pd d
       else if t = DPLITE_MSGID_GROUP_DESTROY then handle_group_destroy app i pd d
       else if t = DPLITE_MSGID_GROUP_JOIN then handle_group_join app i pd d
       else if t = DPLITE_MSGID_GROUP_JOINED then handle_group_joined app i pd d
       else if t = DPLITE_MSGID_GROUP_LEAVE then handle_group_leave app i pd d
       else if t = DPLITE_MSGID_GROUP_LEFT then handle_group_left app i pd d
       else Inr d)"

text \<open>
  The inner loop of \<^verbatim>\<open>io_peer_recv\<close>; the flag is false if \<^verbatim>\<open>io_peer_recv\<close> returns because the peer is
  gone.
\<close>

definition drop_connection :: "app \<Rightarrow> nat \<Rightarrow> dword \<Rightarrow> DirectPlay8Peer \<Rightarrow> fault + bool \<times> DirectPlay8Peer" where
  "drop_connection app fuel i d =
     ebind (peer_destroy app fuel i DPNERR_CONNECTIONLOST DPNDESTROYPLAYERREASON_CONNECTIONLOST d) (\<lambda>d1. Inr (False, d1))"

fun process_packets ::
  "mb_conv \<Rightarrow> app \<Rightarrow> nat \<Rightarrow> (nat \<Rightarrow> conn_env) \<Rightarrow> dword \<Rightarrow> DirectPlay8Peer \<Rightarrow> fault + bool \<times> DirectPlay8Peer" where
  "process_packets mb app 0 env i d = Inl OutOfFuel"
| "process_packets mb app (Suc fuel) env i d =
     (case get_peer_by_peer_id i d of
        None \<Rightarrow> Inr (False, d)
      | Some p \<Rightarrow>
          (case next_frame (recv_buf p) of
             NeedMore \<Rightarrow> Inr (True, d)
           | Oversize \<Rightarrow> drop_connection app fuel i d
           | Frame n \<Rightarrow>
               (case PacketDeserialiser (recv_buf p) (word_of_nat n :: 32 word) of
                  None \<Rightarrow> Inl Diverges
                | Some (Inl e) \<Rightarrow>
                    if e = OutOfBounds then Inl (Uncaught e) else drop_connection app fuel i d
                | Some (Inr pd) \<Rightarrow>
                    ebind (handle_packet mb app fuel env i pd d) (\<lambda>d1.
                      process_packets mb app fuel env i
                        (upd_peer i (\<lambda>p. p\<lparr>recv_buf := drop n (recv_buf p)\<rparr>) d1)))))"

section \<open>Receiving\<close>

datatype recv_result = RecvData "byte list" | RecvEof | RecvError

text \<open>
  \<open>sel\<close> is the success of \<^verbatim>\<open>WSAEventSelect\<close>; \<^verbatim>\<open>recv\<close> yields at most the free part of the buffer. A result of no bytes is the
  end of the stream, whether there was nothing to read (\<open>RecvEof\<close>) or no room for it.
\<close>

abbreviation (input) newly_read :: "byte list \<Rightarrow> Peer \<Rightarrow> byte list" where
  "newly_read bs p \<equiv> take (MAX_PACKET_SIZE - length (recv_buf p)) bs"

definition claim_recv :: "bool \<Rightarrow> Peer \<Rightarrow> Peer" where
  "claim_recv sel p = snd (disable_events sel (FD_READ OR FD_CLOSE) (p\<lparr>recv_busy := True\<rparr>))"

definition release_recv :: "bool \<Rightarrow> Peer \<Rightarrow> Peer" where
  "release_recv sel p = (snd (enable_events sel (FD_READ OR FD_CLOSE) p))\<lparr>recv_busy := False\<rparr>"

fun recv_loop ::
  "mb_conv \<Rightarrow> app \<Rightarrow> nat \<Rightarrow> (nat \<Rightarrow> conn_env) \<Rightarrow> bool \<Rightarrow> dword \<Rightarrow> bool \<Rightarrow> recv_result list \<Rightarrow>
     DirectPlay8Peer \<Rightarrow> fault + DirectPlay8Peer" where
  "recv_loop mb app fuel env sel i claimed [] d =
     (case get_peer_by_peer_id i d of
        None \<Rightarrow> Inr d
      | Some p \<Rightarrow> Inr (if claimed then upd_peer i (release_recv sel) d else d))"
| "recv_loop mb app fuel env sel i claimed (r # rs) d =
     (case get_peer_by_peer_id i d of
        None \<Rightarrow> Inr d
      | Some p \<Rightarrow>
          if \<not> claimed \<and> recv_busy p then Inr d
          else
            (let d1 = (if claimed then d else upd_peer i (claim_recv sel) d) in
             case r of
               RecvEof \<Rightarrow> peer_destroy app fuel i DPNERR_CONNECTIONLOST DPNDESTROYPLAYERREASON_NORMAL d1
             | RecvError \<Rightarrow> peer_destroy app fuel i DPNERR_CONNECTIONLOST DPNDESTROYPLAYERREASON_CONNECTIONLOST d1
             | RecvData bs \<Rightarrow>
                 if newly_read bs p = [] then peer_destroy app fuel i DPNERR_CONNECTIONLOST DPNDESTROYPLAYERREASON_NORMAL d1
                 else if pstate p = PS_CLOSING then recv_loop mb app fuel env sel i True rs d1
                 else
                   ebind (process_packets mb app fuel env i
                       (upd_peer i (\<lambda>p. p\<lparr>recv_buf := recv_buf p @ newly_read bs p\<rparr>) d1))
                     (\<lambda>(go, d2). if go then recv_loop mb app fuel env sel i True rs d2 else Inr d2)))"

definition io_peer_recv ::
  "mb_conv \<Rightarrow> app \<Rightarrow> nat \<Rightarrow> (nat \<Rightarrow> conn_env) \<Rightarrow> bool \<Rightarrow> recv_result list \<Rightarrow> dword \<Rightarrow>
     DirectPlay8Peer \<Rightarrow> fault + DirectPlay8Peer" where
  "io_peer_recv mb app fuel env sel rs i d = recv_loop mb app fuel env sel i False rs d"

section \<open>Sending\<close>

datatype send_result = Sent nat | SendWouldBlock | SendError

text \<open>The socket takes the first \<open>n\<close> bytes of the pending data; \<open>sock_sent\<close> is all it ever took.\<close>

definition sock_send :: "dword \<Rightarrow> nat \<Rightarrow> send_cb SendOp \<Rightarrow> DirectPlay8Peer \<Rightarrow> DirectPlay8Peer" where
  "sock_send i n op d = upd_peer i (\<lambda>p. p\<lparr>sock_sent := sock_sent p @ take n (fst (get_pending_data op))\<rparr>) d"

fun io_peer_send ::
  "app \<Rightarrow> nat \<Rightarrow> bool \<Rightarrow> send_result list \<Rightarrow> dword \<Rightarrow> DirectPlay8Peer \<Rightarrow> fault + DirectPlay8Peer" where
  "io_peer_send app fuel shut tx i d =
     (case get_peer_by_peer_id i d of
        None \<Rightarrow> Inr d
      | Some p \<Rightarrow>
          (case get_pending (sq p) of
             (None, q) \<Rightarrow>
               if pstate p = PS_CLOSING \<and> send_open p then
                 if shut then Inr (upd_peer i (\<lambda>p. p\<lparr>sq := q, send_open := False\<rparr>) d)
                 else peer_destroy app fuel i DPNERR_CONNECTIONLOST DPNDESTROYPLAYERREASON_CONNECTIONLOST d
               else Inr (upd_peer i (\<lambda>p. p\<lparr>sq := q\<rparr>) d)
           | (Some op, q) \<Rightarrow>
               (let d1 = upd_peer i (\<lambda>p. p\<lparr>sq := q\<rparr>) d in
                case tx of
                  [] \<Rightarrow> Inr d1
                | SendWouldBlock # _ \<Rightarrow> Inr d1
                | SendError # _ \<Rightarrow>
                    peer_destroy app fuel i DPNERR_CONNECTIONLOST DPNDESTROYPLAYERREASON_CONNECTIONLOST d1
                | Sent n # tx' \<Rightarrow>
                    (case inc_sent_data op n of
                       None \<Rightarrow> Inl AssertFailed
                     | Some op' \<Rightarrow>
                         if n = snd (get_pending_data op) then
                           (case pop_pending op' (q\<lparr>current := Some op'\<rparr>) of
                              None \<Rightarrow> Inl AssertFailed
                            | Some q' \<Rightarrow>
                                ebind (invoke_callback app (callback op') S_OK
                                    (upd_peer i (\<lambda>p. p\<lparr>sq := snd (get_pending q')\<rparr>) (sock_send i n op d1)))
                                  (io_peer_send app fuel shut tx' i))
                         else io_peer_send app fuel shut tx' i
                           (upd_peer i (\<lambda>p. p\<lparr>sq := q\<lparr>current := Some op'\<rparr>\<rparr>) (sock_send i n op d1))))))"

text \<open>\<^verbatim>\<open>sendto\<close> sends a datagram whole or fails; other failures are reported to the callback.\<close>

datatype sendto_result = SentTo | SendtoWouldBlock | SendtoError

fun io_udp_send :: "app \<Rightarrow> sendto_result list \<Rightarrow> DirectPlay8Peer \<Rightarrow> fault + DirectPlay8Peer" where
  "io_udp_send app tx d =
     (if udp_socket d = None then Inr d
      else case get_pending (udp_sq d) of
        (None, q) \<Rightarrow> Inr (d\<lparr>udp_sq := q\<rparr>)
      | (Some op, q) \<Rightarrow>
          (case tx of
             [] \<Rightarrow> Inr (d\<lparr>udp_sq := q\<rparr>)
           | SendtoWouldBlock # _ \<Rightarrow> Inr (d\<lparr>udp_sq := q\<rparr>)
           | r # tx' \<Rightarrow>
               (case pop_pending op q of
                  None \<Rightarrow> Inl AssertFailed
                | Some q' \<Rightarrow>
                    ebind (invoke_callback app (callback op) (if r = SentTo then S_OK else DPNERR_GENERIC) (d\<lparr>udp_sq := q'\<rparr>))
                      (io_udp_send app tx'))))"

text \<open>Each is one equation that unfolds for ever under the simplifier.\<close>

declare io_peer_send.simps [simp del] io_udp_send.simps [simp del]

section \<open>Events\<close>

definition io_peer_triggered ::
  "mb_conv \<Rightarrow> app \<Rightarrow> nat \<Rightarrow> (nat \<Rightarrow> conn_env) \<Rightarrow> bool \<Rightarrow> int \<Rightarrow> bool \<Rightarrow> bool \<Rightarrow> send_result list \<Rightarrow>
     recv_result list \<Rightarrow> dword \<Rightarrow> DirectPlay8Peer \<Rightarrow> fault + DirectPlay8Peer" where
  "io_peer_triggered mb app fuel env got error shut sel tx rs i d =
     (case get_peer_by_peer_id i d of
        None \<Rightarrow> Inr d
      | Some peer \<Rightarrow>
          if pstate peer = PS_CONNECTING_HOST then
            asserting (state d = STATE_CONNECTING_TO_HOST) (io_peer_connected app fuel got error i d)
          else if pstate peer = PS_CONNECTING_PEER then
            asserting (state d = STATE_CONNECTING_TO_PEERS) (io_peer_connected app fuel got error i d)
          else
            ebind (io_peer_send app fuel shut tx i d) (io_peer_recv mb app fuel env sel rs i))"

text \<open>A datagram: only enumeration requests are expected.\<close>

definition handle_datagram ::
  "mb_conv \<Rightarrow> app \<Rightarrow> (byte list \<times> sockaddr_in) option \<Rightarrow> DirectPlay8Peer \<Rightarrow> fault + bool \<times> DirectPlay8Peer" where
  "handle_datagram mb app rx d =
     (case rx of
        None \<Rightarrow> Inr (True, d)
      | Some (bs, from_addr) \<Rightarrow>
          (case PacketDeserialiser bs (word_of_nat (length bs) :: 32 word) of
             None \<Rightarrow> Inl Diverges
           | Some (Inl e) \<Rightarrow> if e = OutOfBounds then Inl (Uncaught e) else Inr (False, d)
           | Some (Inr pd) \<Rightarrow>
               ebind (throws (packet_type pd)) (\<lambda>t.
                 if t = DPLITE_MSGID_HOST_ENUM_REQUEST
                 then ebind (handle_host_enum_request mb app pd from_addr d) (\<lambda>d1. Inr (True, d1))
                 else Inr (True, d))))"

definition handle_udp_socket_event ::
  "mb_conv \<Rightarrow> app \<Rightarrow> (byte list \<times> sockaddr_in) option \<Rightarrow> sendto_result list \<Rightarrow> DirectPlay8Peer \<Rightarrow>
     fault + DirectPlay8Peer" where
  "handle_udp_socket_event mb app rx tx d =
     (if udp_socket d = None then Inr d
      else ebind (handle_datagram mb app rx d) (\<lambda>(go, d1). if go then io_udp_send app tx d1 else Inr d1))"

definition handle_other_socket_event ::
  "mb_conv \<Rightarrow> app \<Rightarrow> conn_env \<Rightarrow> (byte list \<times> sockaddr_in) option \<Rightarrow> (nat \<times> sockaddr_in) option \<Rightarrow> bool \<Rightarrow>
     DirectPlay8Peer \<Rightarrow> fault + DirectPlay8Peer" where
  "handle_other_socket_event mb app ce rx accepted nonblocking d =
     ebind (if discovery_socket d = None then Inr (True, d) else handle_datagram mb app rx d) (\<lambda>(go, d1).
       if go then Inr (peer_accept ce accepted nonblocking d1) else Inr d1)"

end
