(* ===== verification/PeerSteps.thy ===== *)
theory PeerSteps
  imports PeerIO
begin

text \<open>
  Rely and guarantee. Every piece of code releases the lock while the application runs, so an
  invariant of the peer survives a handler only if it also survives whatever happens meanwhile. The
  locale \<open>peer_relation\<close> takes a preorder on states that the application's handler (and the threads that
  run during it) stays within, and the few kinds of state change the code is made of; it shows that
  every loop, handler and event stays within the same relation. It is interpreted twice: for the
  accounting of asynchronous operations and for the layout of queued packets.
\<close>

section \<open>Vocabulary\<close>

text \<open>The part of the state that only queueing, completing and starting operations changes.\<close>

definition core ::
  "DirectPlay8Peer \<Rightarrow> (dword \<times> send_cb SendQueue \<times> (dword, ack_cb) omap) list \<times> send_cb SendQueue \<times>
     (nat, async_op) omap \<times> nat \<times> task list \<times> work list" where
  "core d = (map (\<lambda>(i, p). (i, sq p, pending_acks p)) (peers d), udp_sq d, async_ops d, next_op d, threads d,
     work_queue d)"

definition step_ok ::
  "(DirectPlay8Peer \<Rightarrow> DirectPlay8Peer \<Rightarrow> bool) \<Rightarrow> (DirectPlay8Peer \<Rightarrow> fault \<Rightarrow> bool) \<Rightarrow> DirectPlay8Peer \<Rightarrow>
     fault + DirectPlay8Peer \<Rightarrow> bool" where
  "step_ok R F d r = (case r of Inl x \<Rightarrow> F d x | Inr d' \<Rightarrow> R d d')"

definition step2_ok ::
  "(DirectPlay8Peer \<Rightarrow> DirectPlay8Peer \<Rightarrow> bool) \<Rightarrow> (DirectPlay8Peer \<Rightarrow> fault \<Rightarrow> bool) \<Rightarrow> DirectPlay8Peer \<Rightarrow>
     fault + 'a \<times> DirectPlay8Peer \<Rightarrow> bool" where
  "step2_ok R F d r = (case r of Inl x \<Rightarrow> F d x | Inr (_, d') \<Rightarrow> R d d')"

text \<open>An application that stays within a relation.\<close>

definition relies :: "(DirectPlay8Peer \<Rightarrow> DirectPlay8Peer \<Rightarrow> bool) \<Rightarrow> app \<Rightarrow> bool" where
  "relies R app \<longleftrightarrow> (\<forall>m d. R d (snd (dispatch_message app m d)))"

text \<open>A queue from which one operation with a given callback was taken, or whose operations were only moved.\<close>

definition drops_one :: "send_cb \<Rightarrow> send_cb SendQueue \<Rightarrow> send_cb SendQueue \<Rightarrow> bool" where
  "drops_one cb q q' \<longleftrightarrow> mset (map callback (contents q)) = add_mset cb (mset (map callback (contents q')))
     \<and> op_data ` set (contents q') \<subseteq> op_data ` set (contents q)"

definition same_ops :: "send_cb SendQueue \<Rightarrow> send_cb SendQueue \<Rightarrow> bool" where
  "same_ops q q' \<longleftrightarrow> mset (map callback (contents q')) = mset (map callback (contents q))
     \<and> op_data ` set (contents q') \<subseteq> op_data ` set (contents q)"

lemma get_pending_NoneD: "get_pending q = (None, q') \<Longrightarrow> contents q = [] \<and> q' = q"
proof (cases "contents q")
  case Nil
  then show "get_pending q = (None, q') \<Longrightarrow> ?thesis" using sq.pend_Nil [OF Nil] by simp
next
  case (Cons op ops)
  then show "get_pending q = (None, q') \<Longrightarrow> ?thesis" using sq.pend_Cons [OF Cons] by auto
qed

lemma get_pending_SomeD:
  assumes "get_pending q = (Some op, q')"
  shows "current q' = Some op \<and> (\<exists>ops. contents q = op # ops \<and> contents q' = op # ops)"
proof (cases "contents q")
  case Nil
  then show ?thesis using sq.pend_Nil [OF Nil] assms by simp
next
  case (Cons op1 ops)
  moreover have "current q' = Some op" using current_get_pending [of q] assms by simp
  ultimately show ?thesis using sq.pend_Cons [OF Cons] assms by auto
qed

lemma get_pending_same: "get_pending q = (r, q') \<Longrightarrow> contents q' = contents q"
  using get_pending_NoneD [of q q'] get_pending_SomeD [of q _ q'] by (cases r) auto

lemma pop_pendingD: "pop_pending op q = Some q' \<Longrightarrow> contents q = op # contents q'"
  by (auto simp: pop_pending_def contents_def queued_def split: if_splits)

lemma drops_one_pop:
  "get_pending q = (Some op, q1) \<Longrightarrow> pop_pending op q1 = Some q2 \<Longrightarrow> drops_one (callback op) q q2"
  using get_pending_same [of q "Some op" q1] pop_pendingD [of op q1 q2]
  by (auto simp: drops_one_def simp flip: get_pending_same [of q "Some op" q1])

lemma same_ops_get_pending: "get_pending q = (r, q') \<Longrightarrow> same_ops q q'"
  by (simp add: same_ops_def get_pending_same)

lemma same_ops_refl [simp]: "same_ops q q"
  by (simp add: same_ops_def)

section \<open>The relation\<close>

locale peer_relation =
  fixes R :: "DirectPlay8Peer \<Rightarrow> DirectPlay8Peer \<Rightarrow> bool"
    and F :: "DirectPlay8Peer \<Rightarrow> fault \<Rightarrow> bool"
    and P :: "sbuf \<Rightarrow> bool"
  assumes R_refl: "R d d"
    and R_trans: "R d e \<Longrightarrow> R e f \<Longrightarrow> R d f"
    and F_before: "R d e \<Longrightarrow> F e x \<Longrightarrow> F d x"
    and F_other: "x \<noteq> OpFreed \<Longrightarrow> F d x"
    and R_core: "core d' = core d \<Longrightarrow> R d d'"
    and R_send: "P ps \<Longrightarrow> R d (upd_peer i (\<lambda>p. p\<lparr>sq := send pri ps None CbNone (sq p)\<rparr>) d)"
    and R_send_connected: "P ps \<Longrightarrow> R d (send_to_connected pri ps CbNone d)"
    and R_send_udp: "P ps \<Longrightarrow> R d (d\<lparr>udp_sq := send pri ps (Some a) CbNone (udp_sq d)\<rparr>)"
    and R_requeue: "get_peer_by_peer_id i d = Some p \<Longrightarrow> same_ops (sq p) q \<Longrightarrow> R d (upd_peer i (\<lambda>p. p\<lparr>sq := q\<rparr>) d)"
    and R_requeue_udp: "same_ops (udp_sq d) q \<Longrightarrow> R d (d\<lparr>udp_sq := q\<rparr>)"
    and R_drop: "get_peer_by_peer_id i d = Some p \<Longrightarrow> drops_one cb (sq p) q \<Longrightarrow> R d (upd_peer i (\<lambda>p. p\<lparr>sq := q\<rparr>) d)"
    and R_drop_udp: "drops_one cb (udp_sq d) q \<Longrightarrow> R d (d\<lparr>udp_sq := q\<rparr>)"
    and R_add: "sq p = new_SendQueue \<Longrightarrow> pending_acks p = [] \<Longrightarrow> R d (d\<lparr>peers := om_emplace i p (peers d)\<rparr>)"
    and R_remove: "R d (d\<lparr>peers := om_erase i (peers d)\<rparr>)"
    and R_finish_send: "relies R app \<Longrightarrow> get_peer_by_peer_id i d = Some p \<Longrightarrow> drops_one cb (sq p) q \<Longrightarrow>
      step_ok R F d (invoke_callback app cb result (upd_peer i (\<lambda>p. p\<lparr>sq := q\<rparr>) d))"
    and R_finish_udp: "relies R app \<Longrightarrow> drops_one cb (udp_sq d) q \<Longrightarrow>
      step_ok R F d (invoke_callback app cb result (d\<lparr>udp_sq := q\<rparr>))"
    and R_finish_ack: "relies R app \<Longrightarrow> get_peer_by_peer_id i d = Some p \<Longrightarrow> om_find ack_id (pending_acks p) = Some acb \<Longrightarrow>
      step_ok R F d (run_ack app acb result dat (upd_peer i (\<lambda>p. p\<lparr>pending_acks := om_erase ack_id (pending_acks p)\<rparr>) d))"
    and P_wf: "well_formed_msg t fs \<Longrightarrow> P (serialise t fs)"
    and P_host_ok: "P (serialise DPLITE_MSGID_CONNECT_HOST_OK (host_ok_fields i pid reply d))"
    and P_peer_ok: "P (serialise DPLITE_MSGID_CONNECT_PEER_OK (peer_ok_fields d))"
begin

abbreviation ok where "ok \<equiv> step_ok R F"
abbreviation ok2 where "ok2 \<equiv> step2_ok R F"

lemma ok_Inr: "ok d (Inr d') \<longleftrightarrow> R d d'"
  by (simp add: step_ok_def)

lemma ok_Inl: "ok d (Inl x) \<longleftrightarrow> F d x"
  by (simp add: step_ok_def)

lemma ok2_Inr: "ok2 d (Inr (b, d')) \<longleftrightarrow> R d d'"
  by (simp add: step2_ok_def)

lemma ok2_Inl: "ok2 d (Inl x) \<longleftrightarrow> F d x"
  by (simp add: step2_ok_def)

lemmas ok_simps = ok_Inr ok_Inl ok2_Inr ok2_Inl

lemma ok_after: "R d e \<Longrightarrow> ok e r \<Longrightarrow> ok d r"
  by (cases r) (auto simp: ok_simps intro: F_before R_trans)

lemma ok2_after: "R d e \<Longrightarrow> ok2 e r \<Longrightarrow> ok2 d r"
  by (cases r) (auto simp: ok_simps intro: F_before R_trans)

lemma ok_ebind: "ok d r \<Longrightarrow> (\<And>e. R d e \<Longrightarrow> ok e (k e)) \<Longrightarrow> ok d (ebind r k)"
  by (cases r) (auto simp: ok_simps intro: ok_after)

lemma ok2_ebind: "ok d r \<Longrightarrow> (\<And>e. R d e \<Longrightarrow> ok2 e (k e)) \<Longrightarrow> ok2 d (ebind r k)"
  by (cases r) (auto simp: ok_simps intro: ok2_after)

lemma ok_ebind2: "ok2 d r \<Longrightarrow> (\<And>b e. R d e \<Longrightarrow> ok e (k (b, e))) \<Longrightarrow> ok d (ebind r k)"
  by (cases r) (auto simp: ok_simps intro: ok_after)

lemma ok2_ebind2: "ok2 d r \<Longrightarrow> (\<And>b e. R d e \<Longrightarrow> ok2 e (k (b, e))) \<Longrightarrow> ok2 d (ebind r k)"
  by (cases r) (auto simp: ok_simps intro: ok2_after)

lemma ok_throws: "(\<And>x. r = Inr x \<Longrightarrow> ok d (k x)) \<Longrightarrow> ok d (ebind (throws r) k)"
  by (cases r) (auto simp: ok_simps F_other)

lemma ok_attempt: "(\<And>x. r = Inr x \<Longrightarrow> ok d (k x)) \<Longrightarrow> ok d (attempt r k d)"
  by (cases r) (auto simp: attempt_def ok_simps F_other R_refl)

lemma ok_asserting: "ok d r \<Longrightarrow> ok d (asserting b r)"
  by (simp add: asserting_def ok_simps F_other)

lemma ok_with_peer: "(\<And>p. get_peer_by_peer_id i d = Some p \<Longrightarrow> ok d (k p)) \<Longrightarrow> ok d (with_peer i d k)"
  by (simp add: with_peer_def ok_simps F_other split: option.splits)

lemma ok_renew_peer: "(\<And>p. get_peer_by_peer_id i d = Some p \<Longrightarrow> ok d (k p)) \<Longrightarrow> ok d (renew_peer i d k)"
  by (simp add: renew_peer_def ok_simps R_refl split: option.splits)

lemma dispatch_R: "relies R app \<Longrightarrow> dispatch_message app m d = (r, d') \<Longrightarrow> R d d'"
  by (metis relies_def snd_conv)

lemma dispatch_snd_R: "relies R app \<Longrightarrow> R d (snd (dispatch_message app m d))"
  by (simp add: relies_def)


text \<open>State changes outside the core, and composition of steps.\<close>

lemma core_upd_peer:
  "(\<And>p. sq (f p) = sq p \<and> pending_acks (f p) = pending_acks p) \<Longrightarrow> core (upd_peer i f d) = core d"
  by (auto simp: core_def upd_peer_def om_update_def comp_def)

lemma R_upd_peer: "(\<And>p. sq (f p) = sq p \<and> pending_acks (f p) = pending_acks p) \<Longrightarrow> R d (upd_peer i f d)"
  by (rule R_core) (rule core_upd_peer)

lemma R_upd_group: "R d (upd_group gid f d)"
  by (rule R_core) (simp add: core_def upd_group_def)

lemma R_after_core: "R d e \<Longrightarrow> core e' = core e \<Longrightarrow> R d e'"
  using R_trans R_core by blast

lemma R_from_core: "core d' = core d \<Longrightarrow> R d' e \<Longrightarrow> R d e"
  using R_trans R_core by blast

lemma ok_from_core: "core d' = core d \<Longrightarrow> ok d' r \<Longrightarrow> ok d r"
  using ok_after R_core by blast

lemma R_send_core:
  "P ps \<Longrightarrow> (\<And>p. sq (f p) = send pri ps None CbNone (sq p) \<and> pending_acks (f p) = pending_acks p) \<Longrightarrow> R d (upd_peer i f d)"
proof -
  assume "P ps" and f: "\<And>p. sq (f p) = send pri ps None CbNone (sq p) \<and> pending_acks (f p) = pending_acks p"
  have "core (upd_peer i f d) = core (upd_peer i (\<lambda>p. p\<lparr>sq := send pri ps None CbNone (sq p)\<rparr>) d)"
    using f by (auto simp: core_def upd_peer_def om_update_def comp_def)
  with R_send [OF \<open>P ps\<close>] show ?thesis by (rule R_after_core)
qed

lemma R_peer_send: "P ps \<Longrightarrow> R d (peer_send i pri ps CbNone d)"
  unfolding peer_send_def by (rule R_send)

subsection \<open>Packets the handlers queue\<close>

lemma P_packets:
  "P (group_destroy_packet gid)" "P (group_create_packet gid n dat)" "P (group_joined_packet gid g)"
  "P (group_left_packet gid)" "P (destroy_peer_packet gid)"
  using P_wf [of DPLITE_MSGID_GROUP_DESTROY "[FDword gid]"]
    P_wf [of DPLITE_MSGID_GROUP_CREATE "[FDword gid, FWstring n, FData dat]"]
    P_wf [of DPLITE_MSGID_GROUP_JOINED "[FDword gid, FWstring (group_name g), FData (group_data g)]"]
    P_wf [of DPLITE_MSGID_GROUP_LEFT "[FDword gid]"]
    P_wf [of DPLITE_MSGID_DESTROY_PEER "[FDword gid]"]
  by (simp_all add: well_formed_msg_def msgid_defs serialise_def group_destroy_packet_def
      group_create_packet_def group_joined_packet_def group_left_packet_def destroy_peer_packet_def)

lemma P_host_fail: "P (host_fail_packet err dat)"
  unfolding host_fail_packet_def by (rule P_wf) (simp add: well_formed_msg_def msgid_defs data_or_null_def)

lemma P_peer_fail: "P (serialise DPLITE_MSGID_CONNECT_PEER_FAIL [FDword err])"
  by (rule P_wf) (simp add: well_formed_msg_def msgid_defs)

lemma P_connect: "P (connect_host_packet d)" "P (connect_peer_packet d)"
  unfolding connect_host_packet_def connect_peer_packet_def
  by (rule P_wf, simp add: well_formed_msg_def msgid_defs data_or_null_def)+

lemma P_enum_response: "P (host_enum_response reply tick d)"
  unfolding host_enum_response_def
  by (rule P_wf) (simp add: well_formed_msg_def msgid_defs data_or_null_def)

lemma P_ack:
  "P (append_data (append_dword (append_dword (PacketSerialiser DPLITE_MSGID_ACK) ack_id) r) dat)"
  using P_wf [of DPLITE_MSGID_ACK "[FDword ack_id, FDword r, FData dat]"]
  by (simp add: well_formed_msg_def msgid_defs serialise_def)

lemma R_send_ack: "R d (upd_peer i (send_ack ack_id r dat) d)"
  by (rule R_send_core [OF P_ack]) (simp add: send_ack_def)

subsection \<open>Groups\<close>

lemma leave_groups_ok: "relies R app \<Longrightarrow> ok d (leave_groups app fuel pid c d)"
proof (induction fuel arbitrary: d)
  case 0
  then show ?case by (simp add: ok_simps F_other)
next
  case (Suc fuel)
  show ?case
  proof (cases "find (\<lambda>(gid, g). pid \<in> player_ids g) (groups d)")
    case None
    then show ?thesis by (simp add: ok_simps R_refl)
  next
    case (Some x)
    obtain gid g where x: "x = (gid, g)" by (cases x)
    obtain r d2 where dm: "dispatch_message app (MSG_REMOVE_PLAYER_FROM_GROUP gid (group_ctx g) pid c)
        (upd_group gid (\<lambda>g. g\<lparr>player_ids := player_ids g - {pid}\<rparr>) d) = (r, d2)" by fastforce
    have "R d d2" using R_trans [OF R_upd_group dispatch_R [OF Suc.prems dm]] .
    with Suc Some x dm show ?thesis by (auto intro: ok_after)
  qed
qed

lemma dispatch_destroy_player_ok: "relies R app \<Longrightarrow> ok d (dispatch_destroy_player app fuel pid c reason d)"
  unfolding dispatch_destroy_player_def
  by (rule ok_ebind, erule leave_groups_ok) (simp add: ok_simps dispatch_snd_R)

lemma group_destroy_all_ok: "relies R app \<Longrightarrow> ok d (group_destroy_all app fuel reason d)"
proof (induction fuel arbitrary: d)
  case 0
  then show ?case by (simp add: ok_simps F_other)
next
  case (Suc fuel)
  show ?case
  proof (cases "groups d")
    case Nil
    then show ?thesis by (simp add: ok_simps R_refl)
  next
    case (Cons x gs)
    obtain gid g where x: "x = (gid, g)" by (cases x)
    let ?d1 = "if gid \<notin> destroyed_groups d then snd (dispatch_destroy_group app gid (group_ctx g) reason
        (d\<lparr>destroyed_groups := insert gid (destroyed_groups d)\<rparr>)) else d"
    have "R d ?d1"
      by (auto simp: dispatch_destroy_group_def core_def split: prod.splits
          intro: R_refl R_from_core [of "d\<lparr>destroyed_groups := insert gid (destroyed_groups d)\<rparr>"] dispatch_R [OF Suc.prems])
    then have "R d (?d1\<lparr>groups := om_erase gid (groups ?d1)\<rparr>)"
      by (rule R_after_core) (simp add: core_def)
    from ok_after [OF this Suc.IH [OF Suc.prems]] Cons x show ?thesis by (simp add: Let_def)
  qed
qed

lemma learn_group_R: "relies R app \<Longrightarrow> R d (snd (learn_group app peer gid n dat d))"
proof -
  assume app: "relies R app"
  let ?d1 = "d\<lparr>groups := om_emplace gid (new_Group n dat 0) (groups d)\<rparr>"
  obtain r d2 where dm: "dispatch_message app (MSG_CREATE_GROUP gid 0 0 (player_ctx peer)) ?d1 = (r, d2)" by fastforce
  have "R d ?d1" by (rule R_core) (simp add: core_def)
  from R_trans [OF this R_trans [OF dispatch_R [OF app dm] R_upd_group]] dm show ?thesis
    by (simp add: learn_group_def)
qed

lemma learn_group_step: "relies R app \<Longrightarrow> learn_group app peer gid n dat d = (b, e) \<Longrightarrow> R d e"
  using learn_group_R by (metis snd_conv)

lemma R_dispatch_after: "relies R app \<Longrightarrow> R d e \<Longrightarrow> R d (snd (dispatch_message app m e))"
  using R_trans dispatch_snd_R by blast

lemma R_send_ack_after: "R d e \<Longrightarrow> R d (upd_peer i (send_ack ack_id r dat) e)"
  using R_trans R_send_ack by blast

lemma R_upd_group_after: "R d e \<Longrightarrow> R d (upd_group gid f e)"
  using R_trans R_upd_group by blast

lemma handle_group_allocate_ok: "ok d (handle_group_allocate i pd d)"
  unfolding handle_group_allocate_def
  by (intro ok_with_peer ok_attempt)
    (auto simp: ok_simps R_refl core_def intro!: R_send_ack_after [OF R_core])

lemma handle_group_create_ok: "relies R app \<Longrightarrow> ok d (handle_group_create app i pd d)"
  unfolding handle_group_create_def
  by (intro ok_with_peer ok_attempt) (auto simp: ok_simps R_refl learn_group_R)

lemma handle_group_destroy_ok: "relies R app \<Longrightarrow> ok d (handle_group_destroy app i pd d)"
  unfolding handle_group_destroy_def
proof (intro ok_with_peer ok_attempt)
  fix gid peer
  assume app: "relies R app"
  let ?d1 = "d\<lparr>destroyed_groups := insert gid (destroyed_groups d)\<rparr>"
  have d1: "R d ?d1" by (rule R_core) (simp add: core_def)
  have "R d (e\<lparr>groups := om_erase gid (groups e)\<rparr>)" if "dispatch_message app m ?d1 = (r, e)" for m r e
    using R_after_core [OF R_trans [OF d1 dispatch_R [OF app that]]] by (simp add: core_def)
  then show "ok d (if pstate peer \<notin> {PS_CONNECTED, PS_REQUESTING_HOST, PS_REQUESTING_PEER} then Inr d
    else if gid \<in> destroyed_groups d then Inr d
    else let d1 = ?d1 in case get_group_by_id gid d1 of None \<Rightarrow> Inr d1
      | Some g \<Rightarrow> let (r, d2) = dispatch_message app (MSG_DESTROY_GROUP gid (group_ctx g) DPNDESTROYGROUPREASON_NORMAL) d1
          in Inr (d2\<lparr>groups := om_erase gid (groups d2)\<rparr>))"
    using d1 by (auto simp: ok_simps R_refl Let_def split: option.splits prod.splits)
qed

lemma stale_send_ack_ok: "ok d (stale_send_ack i ack_id r d)"
  by (simp add: stale_send_ack_def ok_simps F_other R_send_ack)

lemma handle_group_join_ok: "relies R app \<Longrightarrow> ok d (handle_group_join app i pd d)"
  unfolding handle_group_join_def Let_def
  by (intro ok_with_peer ok_attempt)
    (auto simp: ok_simps R_refl F_other R_send_ack split: option.splits prod.splits
      intro!: R_dispatch_after R_upd_group_after R_send_ack_after R_send_connected P_packets
      intro: ok_after [OF _ stale_send_ack_ok] learn_group_step)

lemma handle_group_joined_ok: "relies R app \<Longrightarrow> ok d (handle_group_joined app i pd d)"
  unfolding handle_group_joined_def Let_def
  by (intro ok_with_peer ok_attempt)
    (auto simp: ok_simps R_refl F_other split: option.splits prod.splits
      intro!: R_dispatch_after R_upd_group intro: learn_group_step)

lemma handle_group_leave_ok: "relies R app \<Longrightarrow> ok d (handle_group_leave app i pd d)"
  unfolding handle_group_leave_def Let_def
  by (intro ok_with_peer ok_attempt)
    (auto simp: ok_simps R_refl R_send_ack split: option.splits
      intro!: R_dispatch_after R_upd_group_after R_send_ack_after R_send_connected P_packets)

lemma handle_group_left_ok: "relies R app \<Longrightarrow> ok d (handle_group_left app i pd d)"
  unfolding handle_group_left_def Let_def
  by (intro ok_with_peer ok_attempt)
    (auto simp: ok_simps R_refl split: option.splits intro!: R_dispatch_after R_upd_group)

subsection \<open>Teardown\<close>

lemma drain_sends_ok: "relies R app \<Longrightarrow> ok2 d (drain_sends app fuel i result d)"
proof (induction fuel arbitrary: d)
  case 0
  then show ?case by (simp add: ok_simps F_other)
next
  case (Suc fuel)
  show ?case
  proof (cases "get_peer_by_peer_id i d")
    case None
    then show ?thesis by (simp add: ok_simps R_refl)
  next
    case (Some p)
    obtain r q where g: "get_pending (sq p) = (r, q)" by fastforce
    show ?thesis
    proof (cases r)
      case None
      then show ?thesis using Some g R_requeue [OF Some same_ops_get_pending [OF g]] by (simp add: ok_simps)
    next
      case op: (Some op)
      show ?thesis
      proof (cases "pop_pending op q")
        case None
        then show ?thesis using Some g op by (simp add: ok_simps F_other)
      next
        case q': (Some q')
        have "ok d (invoke_callback app (callback op) result (upd_peer i (\<lambda>p. p\<lparr>sq := q'\<rparr>) d))"
          using R_finish_send [OF Suc.prems Some drops_one_pop] g op q' by blast
        from ok2_ebind [OF this, of "drain_sends app fuel i result"] Suc show ?thesis
          using Some g op q' by simp
      qed
    qed
  qed
qed

lemma drain_acks_ok: "relies R app \<Longrightarrow> ok2 d (drain_acks app fuel i result d)"
proof (induction fuel arbitrary: d)
  case 0
  then show ?case by (simp add: ok_simps F_other)
next
  case (Suc fuel)
  show ?case
  proof (cases "get_peer_by_peer_id i d")
    case None
    then show ?thesis by (simp add: ok_simps R_refl)
  next
    case (Some p)
    show ?thesis
    proof (cases "pending_acks p")
      case Nil
      with Some show ?thesis by (simp add: ok_simps R_refl)
    next
      case (Cons a as)
      obtain ack_id cb where a: "a = (ack_id, cb)" by (cases a)
      have "ok d (run_ack app cb result [] (upd_peer i (\<lambda>p. p\<lparr>pending_acks := om_erase ack_id (pending_acks p)\<rparr>) d))"
        by (rule R_finish_ack [OF Suc.prems Some]) (simp add: Cons a om_find_Cons)
      from ok2_ebind [OF this, of "drain_acks app fuel i result"] Suc show ?thesis
        using Some Cons a by simp
    qed
  qed
qed

lemma remove_peer_R: "R d (remove_peer i p d)"
  by (rule R_after_core [OF R_remove [of d i]]) (simp add: core_def remove_peer_def)

lemma ok_remove_peer: "ok d (renew_peer i d (\<lambda>p. Inr (remove_peer i p d)))"
  by (rule ok_renew_peer) (simp add: ok_simps remove_peer_R)

lemma R_upd_peer_from:
  "(\<And>p. sq (f p) = sq p \<and> pending_acks (f p) = pending_acks p) \<Longrightarrow> ok (upd_peer i f d) r \<Longrightarrow> ok d r"
  using ok_after [OF R_upd_peer] by blast

text \<open>The two branches of \<^verbatim>\<open>peer_destroy\<close>, over any functions in the place of the recursive calls.\<close>

lemma lost_host_ok:
  assumes "relies R app" "\<And>d. ok d (destroy_all d)"
  shows "ok d (if state d = STATE_CONNECTED \<and> pid = host_player_id d then
        (let d5 = snd (dispatch_message app (MSG_TERMINATE_SESSION result None) (d\<lparr>state := STATE_TERMINATED\<rparr>)) in
         ebind (dispatch_destroy_player app fuel (local_player_id d5) (local_player_ctx d5)
             DPNDESTROYPLAYERREASON_NORMAL d5) (\<lambda>d6.
         ebind (destroy_all d6) (\<lambda>d7. group_destroy_all app fuel DPNDESTROYGROUPREASON_NORMAL d7)))
      else Inr d)"
proof -
  have "R d (snd (dispatch_message app (MSG_TERMINATE_SESSION result None) (d\<lparr>state := STATE_TERMINATED\<rparr>)))"
    by (rule R_dispatch_after [OF assms(1) R_core]) (simp add: core_def)
  then show ?thesis
    by (auto simp: Let_def ok_simps R_refl intro!: ok_after [of d] ok_ebind dispatch_destroy_player_ok
        group_destroy_all_ok assms)
qed

lemma destroy_drained_ok:
  assumes "relies R app" "\<And>pid d. ok d (lost pid d)" "\<And>r d. ok d (failed r d)"
  shows "ok d (if pstate peer = PS_CONNECTED then
           ebind (dispatch_destroy_player app fuel (player_id peer) (player_ctx peer) reason
               (upd_peer i (\<lambda>p. p\<lparr>send_open := False, pstate := PS_CLOSING\<rparr>) d)) (\<lambda>d3.
           let d4 = d3\<lparr>player_to_peer_id := om_erase (player_id peer) (player_to_peer_id d3)\<rparr> in
           ebind (lost (player_id peer) d4) (\<lambda>d8. renew_peer i d8 (\<lambda>p. Inr (remove_peer i p d8))))
         else if state d = STATE_CONNECTING_TO_HOST \<and> pstate peer \<in> {PS_CONNECTING_HOST, PS_REQUESTING_HOST} then
           ebind (failed result d) (\<lambda>d3. renew_peer i d3 (\<lambda>p. Inr (remove_peer i p d3)))
         else if state d = STATE_CONNECTING_TO_PEERS \<and> pstate peer \<in> {PS_CONNECTING_PEER, PS_REQUESTING_PEER} then
           ebind (failed DPNERR_PLAYERNOTREACHABLE d) (\<lambda>d3. renew_peer i d3 (\<lambda>p. Inr (remove_peer i p d3)))
         else Inr (remove_peer i peer d))"
proof -
  have after: "ok d3 (let d4 = d3\<lparr>player_to_peer_id := om_erase pid (player_to_peer_id d3)\<rparr> in
       ebind (lost pid d4) (\<lambda>d8. renew_peer i d8 (\<lambda>p. Inr (remove_peer i p d8))))" for d3 pid
    unfolding Let_def by (rule ok_after [OF R_core ok_ebind [OF assms(2) ok_remove_peer]]) (simp add: core_def)
  have "ok d (dispatch_destroy_player app fuel (player_id peer) (player_ctx peer) reason
       (upd_peer i (\<lambda>p. p\<lparr>send_open := False, pstate := PS_CLOSING\<rparr>) d))"
    by (rule R_upd_peer_from [OF _ dispatch_destroy_player_ok [OF assms(1)]]) simp
  from ok_ebind [OF this after] show ?thesis
    using ok_ebind [OF assms(3) ok_remove_peer] remove_peer_R by (auto simp: ok_simps)
qed

lemma teardown_ok:
  assumes "relies R app"
  shows "ok d (peer_destroy app fuel i result reason d)"
    and "ok d (peer_destroy_all app fuel result reason d)"
    and "ok d (connect_fail app fuel result reply d)"
proof (induction fuel arbitrary: d i result reason reply)
  case 0
  show "ok d (peer_destroy app 0 i result reason d)" "ok d (peer_destroy_all app 0 result reason d)"
    "ok d (connect_fail app 0 result reply d)" for d i result reason reply
    by (simp_all add: ok_simps F_other)
next
  case (Suc fuel)
  show "ok d (peer_destroy app (Suc fuel) i result reason d)" for d i result reason
    unfolding peer_destroy.simps
    by (rule ok_with_peer, rule ok_ebind2 [OF drain_sends_ok [OF assms]])
      (auto simp: ok_simps R_refl simp del: insert_iff intro!: ok_ebind2 [OF drain_acks_ok [OF assms]] ok_renew_peer
        destroy_drained_ok lost_host_ok Suc.IH(2,3) assms)
  show "ok d (peer_destroy_all app (Suc fuel) result reason d)" for d result reason
    by (cases "peers d") (auto simp: ok_simps R_refl intro!: ok_ebind Suc.IH(1,2) split: prod.splits)
  show "ok d (connect_fail app (Suc fuel) result reply d)" for d result reply
  proof -
    have R1: "R d (close_main_sockets (d\<lparr>state := STATE_CONNECT_FAILED\<rparr>))"
      by (rule R_core) (simp add: core_def close_main_sockets_def)
    have fin: "R d2 ((snd (dispatch_message app m d2))\<lparr>connect_result := h, state := STATE_INITIALISED\<rparr>)" for d2 m h
      by (rule R_after_core [OF dispatch_snd_R [OF assms]]) (simp add: core_def)
    show ?thesis
      unfolding connect_fail.simps Let_def
      by (intro ok_asserting ok_ebind [OF ok_after [OF R1 Suc.IH(2)]])
        (auto intro!: ok_ebind simp: ok_simps fin dispatch_destroy_player_ok [OF assms] R_refl)
  qed
qed

lemmas peer_destroy_ok = teardown_ok(1)
lemmas connect_fail_ok = teardown_ok(3)

lemma peer_shutdown_ok: "relies R app \<Longrightarrow> ok d (peer_shutdown app fuel i result reason d)"
proof -
  assume app: "relies R app"
  have "ok d (dispatch_destroy_player app fuel pid c reason (upd_peer i (\<lambda>p. p\<lparr>pstate := PS_CLOSING\<rparr>) d))" for pid c
    by (rule R_upd_peer_from [OF _ dispatch_destroy_player_ok [OF app]]) simp
  moreover have "R e (e\<lparr>player_to_peer_id := m\<rparr>)" for e m by (rule R_core) (simp add: core_def)
  ultimately show ?thesis
    unfolding peer_shutdown_def
    by (intro ok_with_peer) (auto simp: ok_simps R_refl intro!: ok_ebind peer_destroy_ok [OF app])
qed

lemma peer_shutdown_all_ok: "relies R app \<Longrightarrow> ok d (peer_shutdown_all app fuel result reason d)"
proof (induction fuel arbitrary: d)
  case 0
  then show ?case by (simp add: ok_simps F_other)
next
  case (Suc fuel)
  then show ?case
    by (cases "find (\<lambda>(i, p). pstate p \<noteq> PS_CLOSING) (peers d)")
      (auto simp: ok_simps R_refl intro!: ok_ebind peer_shutdown_ok ok_asserting split: prod.splits)
qed

lemma connect_check_ok: "relies R app \<Longrightarrow> ok d (connect_check app d)"
proof -
  assume app: "relies R app"
  have "R d ((snd (dispatch_message app m (d\<lparr>state := STATE_CONNECTED\<rparr>)))\<lparr>connect_result := S_OK\<rparr>)" for m
    by (rule R_after_core [OF R_dispatch_after [OF app R_core]]) (simp_all add: core_def)
  then show ?thesis
    unfolding connect_check_def Let_def by (intro ok_asserting) (auto simp: ok_simps R_refl)
qed

lemma terminated_by_host_ok:
  assumes "relies R app" "\<And>e. R e (notify e)"
  shows "ok d (terminated_by_host app fuel dat notify d)"
proof -
  have "R d (snd (dispatch_message app (MSG_TERMINATE_SESSION DPNERR_HOSTTERMINATEDSESSION (Some dat))
      (d\<lparr>state := STATE_TERMINATED\<rparr>)))"
    by (rule R_dispatch_after [OF assms(1) R_core]) (simp add: core_def)
  then show ?thesis
    unfolding terminated_by_host_def Let_def
    by (rule ok_after) (intro ok_ebind dispatch_destroy_player_ok group_destroy_all_ok assms(1)
        ok_after [OF assms(2) peer_shutdown_all_ok])
qed

lemma handle_destroy_peer_ok: "relies R app \<Longrightarrow> ok d (handle_destroy_peer app fuel i pd d)"
  unfolding handle_destroy_peer_def
  by (intro ok_with_peer ok_attempt)
    (auto simp: ok_simps R_refl split: option.splits
      intro!: ok_attempt terminated_by_host_ok peer_destroy_ok R_send_connected P_packets)

lemma handle_terminate_session_ok: "relies R app \<Longrightarrow> ok d (handle_terminate_session app fuel i pd d)"
  unfolding handle_terminate_session_def
  by (intro ok_with_peer ok_attempt) (auto simp: ok_simps R_refl intro!: terminated_by_host_ok)

subsection \<open>Sessions\<close>

lemma ok_guard: "(\<And>b. ok d (k b)) \<Longrightarrow> ok d (ebind (if n then Inr True else ebind (throws r) (\<lambda>g. Inr (f g))) k)"
  by (cases n; cases r) (auto simp: ok_simps F_other)

lemma return_buffer_R: "relies R app \<Longrightarrow> R d (return_buffer app r d)"
  by (simp add: return_buffer_def dispatch_snd_R R_refl)

lemma fold_R: "(\<And>x e. R e (f x e)) \<Longrightarrow> R d (fold f xs d)"
proof (induction xs arbitrary: d)
  case (Cons x xs)
  then show ?case using R_trans [of d "f x d"] by simp
qed (simp add: R_refl)

lemma add_peer_R: "sq p = new_SendQueue \<Longrightarrow> pending_acks p = [] \<Longrightarrow> R d (add_peer i p d)"
  by (rule R_after_core [OF R_add [of p d i]]) (simp_all add: core_def add_peer_def)

lemma new_peer_fields:
  "enable_events sel evs (new_Peer u v ev st s a p) = (b, p') \<Longrightarrow> sq p' = new_SendQueue \<and> pending_acks p' = []"
  "enable_events sel evs ((new_Peer u v ev st s a p)\<lparr>player_id := pid\<rparr>) = (b, p') \<Longrightarrow> sq p' = new_SendQueue \<and> pending_acks p' = []"
  by (auto simp: enable_events_def new_Peer_def split: if_splits)

lemma new_peer_R: "sq p = new_SendQueue \<Longrightarrow> pending_acks p = [] \<Longrightarrow> R d (add_peer i p (d\<lparr>next_peer_id := n\<rparr>))"
  by (rule R_from_core [OF _ add_peer_R]) (simp_all add: core_def)

lemma dropped_peer_R: "R d (d\<lparr>next_peer_id := n, closed_sockets := cs\<rparr>)" "R d (d\<lparr>closed_sockets := cs\<rparr>)"
  by (rule R_core, simp add: core_def)+

lemma peer_connect_R: "R d (snd (peer_connect ce st a p pid d))"
  unfolding peer_connect_def Let_def
  by (auto simp: R_refl split: option.splits prod.splits dest!: new_peer_fields
      intro!: new_peer_R dropped_peer_R)

lemma peer_accept_R: "R d (peer_accept ce acc nb d)"
  unfolding peer_accept_def Let_def
  by (auto simp: R_refl split: option.splits prod.splits dest!: new_peer_fields
      intro!: new_peer_R dropped_peer_R)

lemma connect_peers_R: "R d (snd (connect_peers env n ps d))"
proof (induction env n ps d rule: connect_peers.induct)
  case (2 env n pid a p rest d)
  obtain b d1 where c: "peer_connect (env n) PS_CONNECTING_PEER a (ucast p) pid d = (b, d1)" by fastforce
  with peer_connect_R [of d "env n" PS_CONNECTING_PEER a "ucast p" pid] have "R d d1" by simp
  with 2 [OF c [symmetric] refl] c show ?case by (auto intro: R_trans)
qed (simp add: R_refl)

lemma join_peer_groups_R: "relies R app \<Longrightarrow> R d (snd (join_peer_groups app i gids d))"
proof (induction gids arbitrary: d)
  case (Cons gid gids)
  have "R d (snd (dispatch_message app m (upd_group gid f d)))" for m f
    by (rule R_dispatch_after [OF Cons.prems R_upd_group])
  with Cons show ?case by (auto simp: R_refl Let_def split: option.splits intro: R_trans)
qed (simp add: R_refl)

lemma announce_groups_R: "R d (announce_groups i d)"
  unfolding announce_groups_def Let_def
  by (rule R_trans; rule fold_R) (auto intro!: R_peer_send P_packets)

lemma host_send_fail_R: "R d (host_send_fail i err dat d)"
  unfolding host_send_fail_def by (rule R_send_core [OF P_host_fail]) simp

lemma peer_send_fail_R: "R d (peer_send_fail i err d)"
  unfolding peer_send_fail_def by (rule R_send_core [OF P_peer_fail]) simp

lemma handle_host_enum_request_ok: "relies R app \<Longrightarrow> ok d (handle_host_enum_request mb app pd a d)"
proof -
  assume app: "relies R app"
  have fin: "ok d (let (r, d1) = dispatch_message app m d; d2 = return_buffer app r d1
      in if state d2 \<noteq> STATE_HOSTING then Inr d2
         else if r_result r = S_OK then Inr (d2\<lparr>udp_sq := send SEND_PRI_MEDIUM (host_enum_response (r_data r) tick d2) (Some a)
             CbNone (udp_sq d2)\<rparr>)
         else Inr d2)" for m tick
  proof -
    obtain r d1 where dm: "dispatch_message app m d = (r, d1)" by fastforce
    have "R d (return_buffer app r d1)" by (rule R_trans [OF dispatch_R [OF app dm] return_buffer_R [OF app]])
    then show ?thesis
      by (auto simp: dm ok_simps Let_def intro: R_trans [OF _ R_send_udp [OF P_enum_response]])
  qed
  show ?thesis
    unfolding handle_host_enum_request_def Let_def
    by (auto simp: ok_simps R_refl F_other split: option.splits intro!: ok_throws ok_guard fin [unfolded Let_def])
qed

lemma io_peer_connected_ok: "relies R app \<Longrightarrow> ok d (io_peer_connected app fuel got err i d)"
proof -
  assume app: "relies R app"
  have "R d1 (upd_peer i (\<lambda>p. p\<lparr>sq := send pri ps None CbNone (sq p), pstate := st\<rparr>) d1)" if "P ps" for d1 pri ps st
    by (rule R_send_core [OF that]) simp
  then show ?thesis
    unfolding io_peer_connected_def
    by (intro ok_with_peer ok_ebind)
      (auto simp: ok_simps R_refl F_other P_connect split: option.splits intro!: connect_fail_ok [OF app])
qed

lemma accept_player_ok: "relies R app \<Longrightarrow> ok d (accept_player app i r d)"
proof -
  assume app: "relies R app"
  define d1 where "d1 = upd_peer i (\<lambda>p. p\<lparr>player_id := next_player_id d, player_ctx := r_context r, pstate := PS_CONNECTED\<rparr>)
      (d\<lparr>next_player_id := next_player_id d + 1, player_to_peer_id := om_set (next_player_id d) i (player_to_peer_id d)\<rparr>)"
  define d3 where "d3 = peer_send i SEND_PRI_MEDIUM (serialise DPLITE_MSGID_CONNECT_HOST_OK
      (host_ok_fields i (next_player_id d) (r_data r) (announce_groups i d1))) CbNone (announce_groups i d1)"
  have "R d d1" unfolding d1_def by (rule R_from_core [OF _ R_upd_peer]) (simp_all add: core_def)
  moreover have "R d1 d3" unfolding d3_def by (rule R_trans [OF announce_groups_R R_peer_send]) (rule P_host_ok)
  ultimately have R3: "R d d3" by (rule R_trans)
  obtain r2 d4 where dm: "dispatch_message app (MSG_CREATE_PLAYER (next_player_id d) (r_context r)) d3 = (r2, d4)" by fastforce
  have "ok d4 (renew_peer i d4 (\<lambda>_. Inr (upd_peer i (\<lambda>p. p\<lparr>player_ctx := r_context r2\<rparr>) d4)))"
    by (rule ok_renew_peer) (simp add: ok_simps R_upd_peer)
  from ok_after [OF R_trans [OF R3 dispatch_R [OF app dm]] this] show ?thesis
    by (simp add: accept_player_def Let_def dm flip: d1_def d3_def)
qed

lemma handle_host_connect_request_ok: "relies R app \<Longrightarrow> ok d (handle_host_connect_request mb app i pd d)"
proof -
  assume app: "relies R app"
  have fin: "ok d (let (r, d1) = dispatch_message app m (upd_peer i (\<lambda>p. p\<lparr>player_name := n, player_data := dat, pstate := PS_INDICATING\<rparr>) d);
           d2 = return_buffer app r d1
       in renew_peer i d2 (\<lambda>_. if r_result r = S_OK then accept_player app i r d2
            else Inr (host_send_fail i DPNERR_HOSTREJECTEDCONNECTION (r_data r) d2)))" for m n dat
  proof -
    let ?d0 = "upd_peer i (\<lambda>p. p\<lparr>player_name := n, player_data := dat, pstate := PS_INDICATING\<rparr>) d"
    obtain r d1 where dm: "dispatch_message app m ?d0 = (r, d1)" by fastforce
    have "R d ?d0" by (rule R_upd_peer) simp
    then have R2: "R d (return_buffer app r d1)"
      by (rule R_trans) (rule R_trans [OF dispatch_R [OF app dm] return_buffer_R [OF app]])
    show ?thesis
      unfolding dm Let_def prod.case
      by (rule ok_after [OF R2], rule ok_renew_peer)
        (simp add: ok_simps host_send_fail_R accept_player_ok [OF app])
  qed
  show ?thesis
    unfolding handle_host_connect_request_def Let_def
    by (intro ok_with_peer)
      (auto simp: ok_simps R_refl F_other host_send_fail_R split: option.splits
        intro!: ok_throws ok_guard fin [unfolded Let_def])
qed

lemma join_session_ok:
  assumes app: "relies R app"
  shows "ok d4 (let (there, d5) = join_peer_groups app i gids (upd_peer i (\<lambda>p. p\<lparr>player_ctx := c\<rparr>) d4)
       in if \<not> there then Inr d5
          else let (b, d6) = connect_peers env 0 others d5
            in if b then connect_check app d6 else connect_fail app fuel DPNERR_PLAYERNOTREACHABLE None d6)"
proof -
  obtain there d5 where j: "join_peer_groups app i gids (upd_peer i (\<lambda>p. p\<lparr>player_ctx := c\<rparr>) d4) = (there, d5)" by fastforce
  obtain b d6 where cp: "connect_peers env 0 others d5 = (b, d6)" by fastforce
  have "R d4 (upd_peer i (\<lambda>p. p\<lparr>player_ctx := c\<rparr>) d4)" by (rule R_upd_peer) simp
  then have R5: "R d4 d5" using join_peer_groups_R [OF app] j by (metis R_trans snd_conv)
  then have "R d4 d6" using connect_peers_R [of d5 env 0 others] cp by (metis R_trans snd_conv)
  with R5 show ?thesis
    by (auto simp: j cp ok_simps intro: ok_after connect_check_ok [OF app] connect_fail_ok [OF app])
qed

lemma handle_host_connect_ok_ok: "relies R app \<Longrightarrow> ok d (handle_host_connect_ok app fuel env i pd d)"
proof -
  assume app: "relies R app"
  have "ok d (let d1 = apply_host_ok i ho d;
              (r, d2) = dispatch_message app (MSG_CREATE_PLAYER (local_player_id d1) (local_player_ctx d1)) d1;
              d3 = d2\<lparr>local_player_ctx := r_context r\<rparr>
          in case get_peer_by_peer_id i d3 of
               None \<Rightarrow> Inl UseAfterFree
             | Some p \<Rightarrow> (let (r2, d4) = dispatch_message app (MSG_CREATE_PLAYER (player_id p) 0) d3 in
                 renew_peer i d4 (k d4 r2)))" if k: "\<And>d4 r2 p. ok d4 (k d4 r2 p)" for ho k
  proof -
    let ?d1 = "apply_host_ok i ho d"
    have R1: "R d ?d1" unfolding apply_host_ok_def by (rule R_from_core [OF _ R_upd_peer]) (simp_all add: core_def)
    obtain r d2 where dm: "dispatch_message app (MSG_CREATE_PLAYER (local_player_id ?d1) (local_player_ctx ?d1)) ?d1 = (r, d2)" by fastforce
    let ?d3 = "d2\<lparr>local_player_ctx := r_context r\<rparr>"
    have R3: "R d ?d3" by (rule R_after_core [OF R_trans [OF R1 dispatch_R [OF app dm]]]) (simp add: core_def)
    show ?thesis
    proof (cases "get_peer_by_peer_id i ?d3")
      case None
      then show ?thesis by (simp add: dm Let_def ok_simps F_other)
    next
      case (Some p)
      obtain r2 d4 where dm2: "dispatch_message app (MSG_CREATE_PLAYER (player_id p) 0) ?d3 = (r2, d4)" by fastforce
      from ok_after [OF R_trans [OF R3 dispatch_R [OF app dm2]] ok_renew_peer [OF k]] Some show ?thesis
        by (simp add: dm dm2 Let_def)
    qed
  qed
  from this [OF join_session_ok [OF app]] show ?thesis
    unfolding handle_host_connect_ok_def
    by (intro ok_with_peer) (auto simp: ok_simps R_refl intro!: ok_asserting ok_throws)
qed

lemma handle_host_connect_fail_ok: "relies R app \<Longrightarrow> ok d (handle_host_connect_fail app fuel i pd d)"
  unfolding handle_host_connect_fail_def
  by (intro ok_with_peer) (auto simp: ok_simps R_refl split: prod.splits intro!: ok_asserting connect_fail_ok)

lemma accept_peer_ok: "relies R app \<Longrightarrow> ok d (accept_peer app i pid n dat d)"
proof -
  assume app: "relies R app"
  define d1 where "d1 = upd_peer i (\<lambda>p. p\<lparr>player_id := pid, player_name := n, player_data := dat\<rparr>) d"
  define d2 where "d2 = upd_peer i (\<lambda>p. p\<lparr>pstate := PS_CONNECTED\<rparr>) (d1\<lparr>player_to_peer_id := om_set pid i (player_to_peer_id d1)\<rparr>)"
  define d4 where "d4 = peer_send i SEND_PRI_HIGH
      (serialise DPLITE_MSGID_CONNECT_PEER_OK (peer_ok_fields (announce_groups i d2))) CbNone (announce_groups i d2)"
  have R1: "R d d1" unfolding d1_def by (rule R_upd_peer) simp
  have "R d1 d2" unfolding d2_def by (rule R_from_core [OF _ R_upd_peer]) (simp_all add: core_def)
  moreover have "R d2 d4" unfolding d4_def by (rule R_trans [OF announce_groups_R R_peer_send]) (rule P_peer_ok)
  ultimately have R4: "R d d4" using R1 R_trans by blast
  obtain r d5 where dm: "dispatch_message app (MSG_CREATE_PLAYER pid 0) d4 = (r, d5)" by fastforce
  have "ok d5 (renew_peer i d5 (\<lambda>_. Inr (upd_peer i (\<lambda>p. p\<lparr>player_ctx := r_context r\<rparr>) d5)))"
    by (rule ok_renew_peer) (simp add: ok_simps R_upd_peer)
  from ok_after [OF R_trans [OF R4 dispatch_R [OF app dm]] this] R_trans [OF R1 peer_send_fail_R] show ?thesis
    by (simp add: accept_peer_def Let_def dm ok_simps flip: d1_def d2_def d4_def)
qed

lemma handle_connect_peer_ok': "relies R app \<Longrightarrow> ok d (handle_connect_peer app i pd d)"
  unfolding handle_connect_peer_def
  by (intro ok_with_peer) (auto simp: ok_simps R_refl peer_send_fail_R intro!: ok_throws accept_peer_ok)

lemma handle_connect_peer_ok_ok: "relies R app \<Longrightarrow> ok d (handle_connect_peer_ok app i pd d)"
proof -
  assume app: "relies R app"
  have fin: "ok d (let d1 = upd_peer i (\<lambda>p. p\<lparr>player_name := n, player_data := dat, pstate := PS_CONNECTED\<rparr>)
                (d\<lparr>player_to_peer_id := om_set pid i (player_to_peer_id d)\<rparr>);
              (r, d2) = dispatch_message app (MSG_CREATE_PLAYER pid 0) d1
          in renew_peer i d2 (\<lambda>_.
               let (there, d3) = join_peer_groups app i gs (upd_peer i (\<lambda>p. p\<lparr>player_ctx := r_context r\<rparr>) d2)
               in if there then connect_check app d3 else Inr d3))" for n dat gs pid
  proof -
    define d1 where "d1 = upd_peer i (\<lambda>p. p\<lparr>player_name := n, player_data := dat, pstate := PS_CONNECTED\<rparr>)
        (d\<lparr>player_to_peer_id := om_set pid i (player_to_peer_id d)\<rparr>)"
    have R1: "R d d1" unfolding d1_def by (rule R_from_core [OF _ R_upd_peer]) (simp_all add: core_def)
    obtain r d2 where dm: "dispatch_message app (MSG_CREATE_PLAYER pid 0) d1 = (r, d2)" by fastforce
    obtain there d3 where j: "join_peer_groups app i gs (upd_peer i (\<lambda>p. p\<lparr>player_ctx := r_context r\<rparr>) d2) = (there, d3)" by fastforce
    have "R d2 (upd_peer i (\<lambda>p. p\<lparr>player_ctx := r_context r\<rparr>) d2)" by (rule R_upd_peer) simp
    then have "R d2 d3" using join_peer_groups_R [OF app] j by (metis R_trans snd_conv)
    then have "ok d2 (renew_peer i d2 (\<lambda>_. if there then connect_check app d3 else Inr d3))"
      by (intro ok_renew_peer) (auto simp: ok_simps intro: ok_after connect_check_ok [OF app])
    from ok_after [OF R_trans [OF R1 dispatch_R [OF app dm]] this] show ?thesis
      by (simp add: dm j flip: d1_def)
  qed
  show ?thesis
    unfolding handle_connect_peer_ok_def Let_def
    by (intro ok_with_peer) (auto simp: ok_simps R_refl intro!: ok_asserting ok_throws fin [unfolded Let_def])
qed

lemma handle_connect_peer_fail_ok: "relies R app \<Longrightarrow> ok d (handle_connect_peer_fail app fuel i pd d)"
  unfolding handle_connect_peer_fail_def
  by (intro ok_with_peer) (auto simp: ok_simps R_refl intro!: ok_asserting connect_fail_ok)

lemma handle_message_ok: "relies R app \<Longrightarrow> ok d (handle_message app pd d)"
  unfolding handle_message_def
  by (intro ok_attempt) (auto simp: ok_simps R_refl dispatch_snd_R split: option.splits)

lemma handle_playerinfo_ok: "relies R app \<Longrightarrow> ok d (handle_playerinfo app i pd d)"
proof -
  assume app: "relies R app"
  have "R d (upd_peer i (\<lambda>p. send_ack ack_id S_OK [] (p\<lparr>player_name := n, player_data := dat\<rparr>)) d)" for ack_id n dat
    by (rule R_send_core [OF P_ack]) (simp add: send_ack_def)
  then show ?thesis
    unfolding handle_playerinfo_def Let_def
    by (intro ok_with_peer ok_attempt) (auto simp: ok_simps R_refl intro!: R_dispatch_after [OF app])
qed

lemma handle_ack_ok: "relies R app \<Longrightarrow> ok d (handle_ack app i pd d)"
  unfolding handle_ack_def
  by (intro ok_with_peer ok_attempt) (auto simp: ok_simps R_refl split: option.splits intro!: R_finish_ack)

lemma handle_appdesc_ok: "relies R app \<Longrightarrow> ok d (handle_appdesc app i pd d)"
proof -
  assume app: "relies R app"
  have "R d (d\<lparr>max_players := a, session_name := b, password := c, application_data := e\<rparr>)" for a b c e
    by (rule R_core) (simp add: core_def)
  then show ?thesis
    unfolding handle_appdesc_def
    by (intro ok_with_peer ok_attempt) (auto simp: ok_simps R_refl intro!: R_dispatch_after [OF app])
qed

subsection \<open>Input and output\<close>

lemma handle_packet_ok: "relies R app \<Longrightarrow> ok d (handle_packet mb app fuel env i pd d)"
  unfolding handle_packet_def
  by (rule ok_throws)
    (simp add: handle_host_connect_request_ok handle_host_connect_ok_ok handle_host_connect_fail_ok
      handle_message_ok handle_playerinfo_ok handle_ack_ok handle_appdesc_ok handle_connect_peer_ok'
      handle_connect_peer_ok_ok handle_connect_peer_fail_ok handle_destroy_peer_ok handle_terminate_session_ok
      handle_group_allocate_ok handle_group_create_ok handle_group_destroy_ok handle_group_join_ok
      handle_group_joined_ok handle_group_leave_ok handle_group_left_ok ok_simps R_refl)

lemma drop_connection_ok: "relies R app \<Longrightarrow> ok2 d (drop_connection app fuel i d)"
  unfolding drop_connection_def by (rule ok2_ebind, erule peer_destroy_ok) (simp add: ok_simps R_refl)

lemma R_recv_buf: "R d (upd_peer i (\<lambda>p. p\<lparr>recv_buf := f p\<rparr>) d)"
  by (rule R_upd_peer) simp

lemma process_packets_ok: "relies R app \<Longrightarrow> ok2 d (process_packets mb app fuel env i d)"
proof (induction fuel arbitrary: d)
  case 0
  then show ?case by (simp add: ok_simps F_other)
next
  case (Suc fuel)
  show ?case
    by (auto simp: ok_simps R_refl F_other split: option.splits frame.splits sum.splits
        intro!: drop_connection_ok [OF Suc.prems] ok2_ebind [OF handle_packet_ok [OF Suc.prems]]
          ok2_after [OF R_recv_buf Suc.IH [OF Suc.prems]])
qed

lemma recv_flags_R: "R d (upd_peer i (claim_recv sel) d)" "R d (upd_peer i (release_recv sel) d)"
  by (rule R_upd_peer, simp add: claim_recv_def release_recv_def disable_events_def enable_events_def)+

lemma recv_loop_ok: "relies R app \<Longrightarrow> ok d (recv_loop mb app fuel env sel i claimed rs d)"
proof (induction rs arbitrary: d claimed)
  case Nil
  then show ?case by (simp add: ok_simps R_refl recv_flags_R split: option.splits)
next
  case (Cons r rs)
  let ?d1 = "if claimed then d else upd_peer i (claim_recv sel) d"
  have R1: "R d ?d1" by (simp add: R_refl recv_flags_R)
  have "ok ?d1 (ebind (process_packets mb app fuel env i
      (upd_peer i (\<lambda>p. p\<lparr>recv_buf := recv_buf p @ take (MAX_PACKET_SIZE - length (recv_buf p)) bs\<rparr>) ?d1))
      (\<lambda>(go, d2). if go then recv_loop mb app fuel env sel i True rs d2 else Inr d2))" for bs
    by (rule ok_ebind2 [OF ok2_after [OF R_recv_buf process_packets_ok [OF Cons.prems]]])
      (simp add: Cons.IH Cons.prems ok_simps R_refl)
  then have body: "ok ?d1 (case r of
       RecvEof \<Rightarrow> peer_destroy app fuel i DPNERR_CONNECTIONLOST DPNDESTROYPLAYERREASON_NORMAL ?d1
     | RecvError \<Rightarrow> peer_destroy app fuel i DPNERR_CONNECTIONLOST DPNDESTROYPLAYERREASON_CONNECTIONLOST ?d1
     | RecvData bs \<Rightarrow>
         if newly_read bs p = [] then peer_destroy app fuel i DPNERR_CONNECTIONLOST DPNDESTROYPLAYERREASON_NORMAL ?d1
         else if pstate p = PS_CLOSING then recv_loop mb app fuel env sel i True rs ?d1
         else ebind (process_packets mb app fuel env i
             (upd_peer i (\<lambda>p. p\<lparr>recv_buf := recv_buf p @ take (MAX_PACKET_SIZE - length (recv_buf p)) bs\<rparr>) ?d1))
           (\<lambda>(go, d2). if go then recv_loop mb app fuel env sel i True rs d2 else Inr d2))" for p
    by (cases r) (simp_all only: recv_result.case peer_destroy_ok [OF Cons.prems] Cons.IH [OF Cons.prems] if_split simp_thms)
  show ?case
  proof (cases "get_peer_by_peer_id i d")
    case None
    then show ?thesis by (simp add: ok_simps R_refl)
  next
    case (Some p)
    show ?thesis
      unfolding recv_loop.simps Let_def Some option.case
      using ok_after [OF R1 body [of p]] by (simp only: ok_simps R_refl if_split simp_thms)
  qed
qed

lemma io_peer_recv_ok: "relies R app \<Longrightarrow> ok d (io_peer_recv mb app fuel env sel rs i d)"
  unfolding io_peer_recv_def by (rule recv_loop_ok)

text \<open>The part of an operation that \<^verbatim>\<open>send\<close> took: the operation stays, or is popped and completed.\<close>

lemma sent_part_ok:
  assumes app: "relies R app" and p: "get_peer_by_peer_id i d = Some p" and g: "get_pending (sq p) = (Some op, q)"
    and k: "\<And>e. ok e (k e)"
  shows "ok d (case inc_sent_data op n of
      None \<Rightarrow> Inl AssertFailed
    | Some op' \<Rightarrow>
        if n = snd (get_pending_data op) then
          (case pop_pending op' (q\<lparr>current := Some op'\<rparr>) of
             None \<Rightarrow> Inl AssertFailed
           | Some q' \<Rightarrow> ebind (invoke_callback app (callback op') S_OK
                 (upd_peer i (\<lambda>p. p\<lparr>sq := snd (get_pending q')\<rparr>) (sock_send i n op (upd_peer i (\<lambda>p. p\<lparr>sq := q\<rparr>) d)))) k)
        else k (upd_peer i (\<lambda>p. p\<lparr>sq := q\<lparr>current := Some op'\<rparr>\<rparr>) (sock_send i n op (upd_peer i (\<lambda>p. p\<lparr>sq := q\<rparr>) d))))"
proof (cases "inc_sent_data op n")
  case None
  then show ?thesis by (simp add: ok_simps F_other)
next
  case op': (Some op')
  then have same: "callback op' = callback op" "op_data op' = op_data op"
    by (auto simp: inc_sent_data_def Let_def split: if_splits)
  from get_pending_SomeD [of "sq p" op q] g obtain ops where
    c: "current q = Some op" "contents (sq p) = op # ops" "contents q = op # ops" by auto
  then have ops: "queued q = ops" by (simp add: contents_def)
  let ?q' = "q\<lparr>current := None\<rparr>"
  have pop: "pop_pending op' (q\<lparr>current := Some op'\<rparr>) = Some ?q'" by (simp add: pop_pending_def)
  have q': "contents (snd (get_pending ?q')) = ops"
    using get_pending_same [of ?q'] ops by (cases "get_pending ?q'") (simp add: contents_def queued_def)
  define d0 where "d0 = sock_send i n op d"
  have R0: "R d d0" unfolding d0_def sock_send_def by (rule R_upd_peer) simp
  from p obtain p0 where p0: "get_peer_by_peer_id i d0 = Some p0" "sq p0 = sq p" by (simp add: d0_def sock_send_def)
  have put: "upd_peer i (\<lambda>p. p\<lparr>sq := x\<rparr>) (sock_send i n op (upd_peer i (\<lambda>p. p\<lparr>sq := q\<rparr>) d)) = upd_peer i (\<lambda>p. p\<lparr>sq := x\<rparr>) d0" for x
    by (simp add: d0_def sock_send_def upd_peer_def comp_def)
  have "drops_one (callback op') (sq p) (snd (get_pending ?q'))"
    using c(2) q' same by (auto simp: drops_one_def)
  from ok_after [OF R0 R_finish_send [OF app p0(1), unfolded p0(2), OF this]]
  have cb: "ok d (invoke_callback app (callback op') S_OK (upd_peer i (\<lambda>p. p\<lparr>sq := snd (get_pending ?q')\<rparr>)
      (sock_send i n op (upd_peer i (\<lambda>p. p\<lparr>sq := q\<rparr>) d))))"
    unfolding put .
  have "same_ops (sq p) (q\<lparr>current := Some op'\<rparr>)"
    using c(2) ops same by (auto simp: same_ops_def contents_def queued_def)
  from ok_after [OF R_trans [OF R0 R_requeue [OF p0(1), unfolded p0(2), OF this]] k]
  have "ok d (k (upd_peer i (\<lambda>p. p\<lparr>sq := q\<lparr>current := Some op'\<rparr>\<rparr>) (sock_send i n op (upd_peer i (\<lambda>p. p\<lparr>sq := q\<rparr>) d))))"
    unfolding put .
  with op' pop ok_ebind [OF cb k] show ?thesis by auto
qed

lemma io_peer_send_ok: "relies R app \<Longrightarrow> ok d (io_peer_send app fuel shut tx i d)"
proof (induction tx arbitrary: d rule: length_induct)
  case (1 tx)
  note app = "1.prems"
  show ?case
  proof (cases "get_peer_by_peer_id i d")
    case None
    then show ?thesis by (subst io_peer_send.simps) (simp add: ok_simps R_refl)
  next
    case (Some p)
    obtain o1 q where g: "get_pending (sq p) = (o1, q)" by fastforce
    have Rq: "R d (upd_peer i (\<lambda>p. p\<lparr>sq := q\<rparr>) d)" by (rule R_requeue [OF Some same_ops_get_pending [OF g]])
    show ?thesis
    proof (cases o1)
      case None
      have "R d (upd_peer i (\<lambda>p. p\<lparr>sq := q, send_open := False\<rparr>) d)"
        by (rule R_after_core [OF Rq]) (auto simp: core_def upd_peer_def om_update_def)
      with None Some g Rq show ?thesis
        by (subst io_peer_send.simps) (auto simp: ok_simps intro: peer_destroy_ok [OF app])
    next
      case op: (Some op)
      have dest: "ok d (peer_destroy app fuel i DPNERR_CONNECTIONLOST DPNDESTROYPLAYERREASON_CONNECTIONLOST
          (upd_peer i (\<lambda>p. p\<lparr>sq := q\<rparr>) d))"
        by (rule ok_after [OF Rq peer_destroy_ok [OF app]])
      have IH: "ok e (io_peer_send app fuel shut tx' i e)" if "tx = s # tx'" for s tx' e
        using "1.IH" app that by simp
      note sent = sent_part_ok [OF app Some g [unfolded op], where k = "io_peer_send app fuel shut tx' i" for tx', OF IH]
      show ?thesis
        by (subst io_peer_send.simps)
          (use Some g op Rq dest sent in \<open>auto simp: ok_simps Let_def split: list.splits send_result.splits\<close>)
    qed
  qed
qed

lemma io_udp_send_ok: "relies R app \<Longrightarrow> ok d (io_udp_send app tx d)"
proof (induction tx arbitrary: d rule: length_induct)
  case (1 tx)
  note app = "1.prems"
  obtain o1 q where g: "get_pending (udp_sq d) = (o1, q)" by fastforce
  have Rq: "R d (d\<lparr>udp_sq := q\<rparr>)" by (rule R_requeue_udp [OF same_ops_get_pending [OF g]])
  show ?case
  proof (cases "o1 = None \<or> udp_socket d = None")
    case True
    then show ?thesis using g Rq by (subst io_udp_send.simps) (auto simp: ok_simps R_refl)
  next
    case False
    then obtain op where op: "o1 = Some op" by auto
    have "ok d (ebind (invoke_callback app (callback op) r (d\<lparr>udp_sq := q'\<rparr>)) (io_udp_send app tx'))"
      if "pop_pending op q = Some q'" "tx = s # tx'" for q' s tx' r
    proof (rule ok_ebind [OF R_finish_udp [OF app drops_one_pop]])
      show "get_pending (udp_sq d) = (Some op, q)" using g op by simp
      show "pop_pending op q = Some q'" by (rule that(1))
    qed (use "1.IH" app that(2) in simp)
    with False g op Rq show ?thesis
      by (subst io_udp_send.simps)
        (auto simp: ok_simps F_other split: list.splits sendto_result.splits option.splits)
  qed
qed

lemma io_peer_triggered_ok: "relies R app \<Longrightarrow> ok d (io_peer_triggered mb app fuel env got err shut sel tx rs i d)"
  unfolding io_peer_triggered_def
  by (auto simp: ok_simps R_refl split: option.splits
      intro!: ok_asserting io_peer_connected_ok ok_ebind io_peer_send_ok io_peer_recv_ok)

lemma handle_datagram_ok: "relies R app \<Longrightarrow> ok2 d (handle_datagram mb app rx d)"
proof -
  assume app: "relies R app"
  have "ok2 d (ebind (throws r) (\<lambda>t. if t = k then ebind (handle_host_enum_request mb app pd a d) (\<lambda>d1. Inr (True, d1))
      else Inr (True, d)))" for r k pd a
    by (cases r) (auto simp: ok_simps F_other R_refl intro!: ok2_ebind handle_host_enum_request_ok [OF app])
  then show ?thesis
    unfolding handle_datagram_def by (auto simp: ok_simps F_other R_refl split: option.splits sum.splits)
qed

lemma handle_udp_socket_event_ok: "relies R app \<Longrightarrow> ok d (handle_udp_socket_event mb app rx tx d)"
  unfolding handle_udp_socket_event_def
  by (auto simp: ok_simps R_refl intro!: ok_ebind2 [OF handle_datagram_ok] io_udp_send_ok)

lemma handle_other_socket_event_ok: "relies R app \<Longrightarrow> ok d (handle_other_socket_event mb app ce rx acc nb d)"
  unfolding handle_other_socket_event_def
  by (rule ok_ebind2) (auto simp: ok_simps R_refl peer_accept_R intro!: handle_datagram_ok)

end

end
