(* ===== verification/PeerCalls.thy ===== *)
theory PeerCalls
  imports PeerSession
begin

text \<open>
  The methods of \<^verbatim>\<open>DirectPlay8Peer\<close> that change its state, apart from those about groups
  (\<^verbatim>\<open>src/src/DirectPlay8Peer.cpp\<close>): \<^verbatim>\<open>Initialize\<close>, \<^verbatim>\<open>Host\<close>, \<^verbatim>\<open>Connect\<close>, \<^verbatim>\<open>SendTo\<close>, \<^verbatim>\<open>SetPeerInfo\<close>,
  \<^verbatim>\<open>SetApplicationDesc\<close>, \<^verbatim>\<open>EnumHosts\<close>, \<^verbatim>\<open>CancelAsyncOperation\<close>, \<^verbatim>\<open>DestroyPeer\<close>, \<^verbatim>\<open>TerminateSession\<close> and
  \<^verbatim>\<open>Close\<close>. Pointers the methods dereference without a test are arguments that are there; an optional
  one that the code dereferences gives \<open>NullDeref\<close>. \<^verbatim>\<open>Close\<close> waits twice, so it is three steps.
\<close>

section \<open>Initialisation\<close>

text \<open>\<open>wsa\<close> is the success of \<^verbatim>\<open>WSAStartup\<close>; the three handles are those of the events of the object.\<close>

definition Initialize :: "bool \<Rightarrow> HANDLE \<Rightarrow> HANDLE \<Rightarrow> HANDLE \<Rightarrow> DirectPlay8Peer \<Rightarrow> hresult \<times> DirectPlay8Peer" where
  "Initialize wsa udp_event other_event work_event d =
     (if state d \<noteq> STATE_NEW then (DPNERR_ALREADYINITIALIZED, d)
      else if \<not> wsa then (DPNERR_GENERIC, d)
      else (S_OK, d\<lparr>worker_pool := [(udp_event, JobUdp), (other_event, JobOther), (work_event, JobWork)],
        state := STATE_INITIALISED\<rparr>))"

section \<open>Ports\<close>

definition AUTO_PORT_MIN :: nat where "AUTO_PORT_MIN = 49152"
definition AUTO_PORT_MAX :: nat where "AUTO_PORT_MAX = 65535"

text \<open>
  The loop that looks for a port on which both sockets can be opened, over the ports to try; a fixed
  port is a list of one. \<open>os p\<close> is what Winsock does when port \<open>p\<close> is tried.
\<close>

fun open_ports ::
  "(16 word \<Rightarrow> net_os) \<Rightarrow> dword \<Rightarrow> 16 word list \<Rightarrow> DirectPlay8Peer \<Rightarrow> bool \<times> DirectPlay8Peer" where
  "open_ports os ipaddr [] d = (False, d)"
| "open_ports os ipaddr (p # ps) d =
     (case snd (create_udp_socket (os p) ipaddr p) of
        None \<Rightarrow> open_ports os ipaddr ps (d\<lparr>udp_socket := None\<rparr>)
      | Some u \<Rightarrow>
          (case snd (create_listener_socket (os p) ipaddr p) of
             None \<Rightarrow> open_ports os ipaddr ps
               (d\<lparr>udp_socket := None, listener_socket := None, closed_sockets := closed_sockets d @ [u]\<rparr>)
           | Some l \<Rightarrow>
               (True, d\<lparr>udp_socket := Some u, listener_socket := Some l, local_ip := ipaddr, local_port := p\<rparr>)))"

definition host_ports :: "16 word list" where
  "host_ports = map word_of_nat [AUTO_PORT_MIN ..< AUTO_PORT_MAX + 1]"

text \<open>\<^verbatim>\<open>Connect\<close> starts at a point given by the performance counter.\<close>

definition connect_port :: "nat \<Rightarrow> nat \<Rightarrow> 16 word" where
  "connect_port p_counter p =
     (let port_range = AUTO_PORT_MAX - AUTO_PORT_MIN; base_port = p_counter mod port_range
      in word_of_nat (AUTO_PORT_MIN + (base_port + p) mod (port_range + 1)))"

definition connect_ports :: "nat \<Rightarrow> 16 word list" where
  "connect_ports p_counter = map (connect_port p_counter) [AUTO_PORT_MIN ..< AUTO_PORT_MAX + 1]"

section \<open>Hosting\<close>

text \<open>The switch of \<^verbatim>\<open>Host\<close>; the states it does not list pass.\<close>

fun host_guard :: "State \<Rightarrow> hresult option" where
  "host_guard STATE_NEW = Some DPNERR_UNINITIALIZED"
| "host_guard STATE_HOSTING = Some DPNERR_ALREADYCONNECTED"
| "host_guard STATE_CONNECTING_TO_HOST = Some DPNERR_CONNECTING"
| "host_guard STATE_CONNECTING_TO_PEERS = Some DPNERR_CONNECTING"
| "host_guard STATE_CONNECTED = Some DPNERR_ALREADYCONNECTED"
| "host_guard _ = None"

text \<open>The loop over the device addresses: one provider, at most one port.\<close>

fun host_devices :: "DirectPlay8Address list \<Rightarrow> guid \<Rightarrow> 16 word \<Rightarrow> hresult + guid \<times> 16 word" where
  "host_devices [] sp prt = Inr (sp, prt)"
| "host_devices (a # as) sp prt =
     (case GetSP a of
        (res, None) \<Rightarrow> Inl DPNERR_INVALIDDEVICEADDRESS
      | (res, Some this_sp) \<Rightarrow>
          if sp \<noteq> GUID_NULL \<and> this_sp \<noteq> sp then Inl E_NOTIMPL
          else if this_sp \<noteq> CLSID_DP8SP_TCPIP \<and> this_sp \<noteq> CLSID_DP8SP_IPX then Inl DPNERR_INVALIDDEVICEADDRESS
          else
            (let (r, bytes, _, ty) = GetComponentByName DPNA_KEY_PORT True 4 0 a in
             case (if r = S_OK \<and> ty = DPNA_DATATYPE_DWORD then bytes else None) of
               None \<Rightarrow> host_devices as this_sp prt
             | Some bs \<Rightarrow>
                 if prt \<noteq> 0 \<and> ucast prt \<noteq> de32 bs then Inl DPNERR_INVALIDPARAM
                 else host_devices as this_sp (ucast (de32 bs))))"

definition sizeof_DPN_APPLICATION_DESC :: dword where "sizeof_DPN_APPLICATION_DESC = 72"

text \<open>What the parts of Windows that \<^verbatim>\<open>Host\<close> calls do.\<close>

record host_env =
  he_ports :: "16 word \<Rightarrow> net_os"
  he_guid :: "hresult \<times> guid"
  he_select :: bool
  he_discovery :: net_os
  he_select_discovery :: bool

text \<open>The description of the session that \<^verbatim>\<open>Host\<close> and \<^verbatim>\<open>SetApplicationDesc\<close> store.\<close>

definition desc_password :: "DPN_APPLICATION_DESC \<Rightarrow> fault + wchar list" where
  "desc_password ad =
     (if flag_set (ad_dwFlags ad) DPNSESSION_REQUIREPASSWORD then
        (case ad_pwszPassword ad of None \<Rightarrow> Inl NullDeref | Some pw \<Rightarrow> Inr pw)
      else Inr [])"

definition desc_data :: "DPN_APPLICATION_DESC \<Rightarrow> byte list" where
  "desc_data ad = (case ad_pvApplicationReservedData ad of None \<Rightarrow> [] | Some dat \<Rightarrow> dat)"

definition host_start :: "app \<Rightarrow> ctx \<Rightarrow> DirectPlay8Peer \<Rightarrow> DirectPlay8Peer" where
  "host_start app c d =
     (let d1 = d\<lparr>next_player_id := 2, host_player_id := 1, local_player_id := 1, local_player_ctx := c,
            state := STATE_HOSTING\<rparr>;
          ((res, c'), d2) = dispatch_create_player app 1 c d1
      in d2\<lparr>local_player_ctx := c'\<rparr>)"

definition Host ::
  "app \<Rightarrow> host_env \<Rightarrow> dword \<Rightarrow> DPN_APPLICATION_DESC \<Rightarrow> DirectPlay8Address list \<Rightarrow> ctx \<Rightarrow> DirectPlay8Peer \<Rightarrow>
     fault + hresult \<times> DirectPlay8Peer" where
  "Host app he dwSize ad devices c d =
     (case host_guard (state d) of
        Some e \<Rightarrow> Inr (e, d)
      | None \<Rightarrow>
          if dwSize \<noteq> sizeof_DPN_APPLICATION_DESC then Inr (DPNERR_INVALIDPARAM, d)
          else if flag_set (ad_dwFlags ad) DPNSESSION_CLIENT_SERVER then Inr (DPNERR_INVALIDPARAM, d)
          else if devices = [] then Inr (DPNERR_INVALIDPARAM, d)
          else
            (let d1 = d\<lparr>instance_guid := snd (he_guid he)\<rparr> in
             if fst (he_guid he) \<noteq> S_OK then Inr (fst (he_guid he), d1)
             else
               ebind (desc_password ad) (\<lambda>pw.
               let d2 = d1\<lparr>application_guid := ad_guidApplication ad, max_players := ad_dwMaxPlayers ad,
                     session_name := (case ad_pwszSessionName ad of Some n \<Rightarrow> n | None \<Rightarrow> wide ''(null)''),
                     password := pw, application_data := desc_data ad\<rparr>
               in case host_devices devices GUID_NULL 0 of
                    Inl e \<Rightarrow> Inr (e, d2)
                  | Inr (sp, prt) \<Rightarrow>
                      (let (ok, d3) = open_ports (he_ports he) (htonl INADDR_ANY) (if prt = 0 then host_ports else [prt])
                             (d2\<lparr>service_provider := sp\<rparr>)
                       in if \<not> ok \<or> \<not> he_select he then Inr (DPNERR_GENERIC, d3)
                          else if flag_set (ad_dwFlags ad) DPNSESSION_NODPNSVR then Inr (S_OK, host_start app c d3)
                          else
                            (let d4 = d3\<lparr>discovery_socket := snd (create_discovery_socket (he_discovery he))\<rparr>
                             in if discovery_socket d4 = None \<or> \<not> he_select_discovery he then Inr (DPNERR_GENERIC, d4)
                                else Inr (S_OK, host_start app c d4))))))"

section \<open>Connecting\<close>

fun connect_guard :: "State \<Rightarrow> hresult option" where
  "connect_guard STATE_NEW = Some DPNERR_UNINITIALIZED"
| "connect_guard STATE_HOSTING = Some DPNERR_HOSTING"
| "connect_guard STATE_CONNECTING_TO_HOST = Some DPNERR_CONNECTING"
| "connect_guard STATE_CONNECTING_TO_PEERS = Some DPNERR_CONNECTING"
| "connect_guard STATE_CONNECTED = Some DPNERR_ALREADYCONNECTED"
| "connect_guard _ = None"

text \<open>The address and port of the host; a host name that is not terminated reads past the buffer.\<close>

definition connect_host_ip ::
  "(wchar list \<Rightarrow> dword option) \<Rightarrow> guid \<Rightarrow> DirectPlay8Address \<Rightarrow> fault + dword option" where
  "connect_host_ip inet_pton host_sp a =
     (let (res, bytes, _, ty) = GetComponentByName DPNA_KEY_HOSTNAME True 256 0 a in
      case (if res = S_OK \<and> ty = DPNA_DATATYPE_STRING then bytes else None) of
        None \<Rightarrow> Inr None
      | Some bs \<Rightarrow>
          (case c_string (wstring_of_bytes bs) of
             None \<Rightarrow> Inl (Uncaught OutOfBounds)
           | Some name \<Rightarrow>
               Inr (if host_sp = CLSID_DP8SP_TCPIP then inet_pton name
                 else if host_sp = CLSID_DP8SP_IPX then map_option htonl (scan_ipx name)
                 else None)))"

definition connect_host_port :: "DirectPlay8Address \<Rightarrow> (16 word) option" where
  "connect_host_port a =
     (let (res, bytes, _, ty) = GetComponentByName DPNA_KEY_PORT True 4 0 a in
      case (if res = S_OK \<and> ty = DPNA_DATATYPE_DWORD then bytes else None) of
        None \<Rightarrow> None
      | Some bs \<Rightarrow> if de32 bs > 65535 then None else Some (ucast (de32 bs)))"

text \<open>
  \<open>override\<close> is the variable \<^verbatim>\<open>DPLITE_CONNECT_IP\<close>: not set, or set to what \<^verbatim>\<open>inet_pton\<close> makes of it.
\<close>

definition connect_target ::
  "(wchar list \<Rightarrow> dword option) \<Rightarrow> dword option option \<Rightarrow> DirectPlay8Address \<Rightarrow> fault + (dword \<times> 16 word) option" where
  "connect_target inet_pton override a =
     (case GetSP a of
        (res, None) \<Rightarrow> Inr None
      | (res, Some host_sp) \<Rightarrow>
          ebind (connect_host_ip inet_pton host_sp a) (\<lambda>r_ip.
            Inr (case (r_ip, connect_host_port a) of
              (Some ipaddr, Some prt) \<Rightarrow>
                (case override of
                   None \<Rightarrow> Some (ipaddr, prt)
                 | Some None \<Rightarrow> None
                 | Some (Some ipaddr') \<Rightarrow> Some (ipaddr', prt))
            | _ \<Rightarrow> None)))"

record connect_env =
  cn_inet_pton :: "wchar list \<Rightarrow> dword option"
  cn_override :: "dword option option"
  cn_counter :: nat
  cn_ports :: "16 word \<Rightarrow> net_os"
  cn_conn :: conn_env
  cn_select :: bool

datatype connect_outcome = ConnectReturned hresult "dpnhandle option" | ConnectWaits

text \<open>Closing both main sockets, when the connection cannot be started.\<close>

definition close_both :: "DirectPlay8Peer \<Rightarrow> DirectPlay8Peer" where
  "close_both d =
     d\<lparr>closed_sockets := closed_sockets d @ (case listener_socket d of Some s \<Rightarrow> [s] | None \<Rightarrow> [])
         @ (case udp_socket d of Some s \<Rightarrow> [s] | None \<Rightarrow> []),
       listener_socket := None, udp_socket := None\<rparr>"

definition Connect ::
  "connect_env \<Rightarrow> DPN_APPLICATION_DESC \<Rightarrow> DirectPlay8Address \<Rightarrow> byte list \<Rightarrow> ctx \<Rightarrow> ctx \<Rightarrow> dword \<Rightarrow> DirectPlay8Peer \<Rightarrow>
     fault + connect_outcome \<times> DirectPlay8Peer" where
  "Connect cn ad host dat pctx actx flags d =
     (case connect_guard (state d) of
        Some e \<Rightarrow> Inr (ConnectReturned e None, d)
      | None \<Rightarrow>
          (let d1 = d\<lparr>application_guid := ad_guidApplication ad, instance_guid := ad_guidInstance ad,
                 connect_req_data := dat, local_player_ctx := pctx\<rparr>
           in ebind (connect_target (cn_inet_pton cn) (cn_override cn) host) (\<lambda>target.
             case target of
               None \<Rightarrow> Inr (ConnectReturned DPNERR_INVALIDHOSTADDRESS None, d1)
             | Some (r_ip, r_port) \<Rightarrow>
                 (let (ok, d2) = open_ports (cn_ports cn) (htonl INADDR_ANY) (connect_ports (cn_counter cn)) d1 in
                  if \<not> ok then Inr (ConnectReturned DPNERR_GENERIC None, d2)
                  else
                    (let sync = flag_set flags DPNCONNECT_SYNC;
                         (h, alloc) = (if sync then (0, handle_alloc d2) else new_connect (handle_alloc d2));
                         d3 = d2\<lparr>connect_ctx := actx, connect_handle := h, handle_alloc := alloc,
                           state := STATE_CONNECTING_TO_HOST\<rparr>;
                         (ok2, d4) = peer_connect (cn_conn cn) PS_CONNECTING_HOST r_ip r_port 0 d3
                     in if \<not> ok2 then Inr (ConnectReturned DPNERR_GENERIC None, close_both d4)
                        else if \<not> cn_select cn then Inr (ConnectReturned DPNERR_GENERIC None, d4)
                        else if sync then Inr (ConnectWaits, d4)
                        else Inr (ConnectReturned DPNSUCCESS_PENDING (Some h), d4))))))"

text \<open>The end of the wait of a synchronous \<^verbatim>\<open>Connect\<close>.\<close>

definition connect_wake :: "DirectPlay8Peer \<Rightarrow> hresult option" where
  "connect_wake d =
     (if state d \<notin> {STATE_CONNECTING_TO_HOST, STATE_CONNECTING_TO_PEERS, STATE_CONNECT_FAILED}
      then Some (connect_result d) else None)"

section \<open>Sending\<close>

fun send_guard :: "State \<Rightarrow> hresult option" where
  "send_guard STATE_NEW = Some DPNERR_UNINITIALIZED"
| "send_guard STATE_INITIALISED = Some DPNERR_NOTREADY"
| "send_guard STATE_CONNECT_FAILED = Some DPNERR_NOCONNECTION"
| "send_guard STATE_CLOSING = Some DPNERR_NOCONNECTION"
| "send_guard STATE_TERMINATED = Some DPNERR_NOCONNECTION"
| "send_guard _ = None"

definition send_priority :: "dword \<Rightarrow> SendPriority" where
  "send_priority flags =
     (if flag_set flags DPNSEND_PRIORITY_HIGH then SEND_PRI_HIGH
      else if flag_set flags DPNSEND_PRIORITY_LOW then SEND_PRI_LOW
      else SEND_PRI_MEDIUM)"

definition message_packet :: "byte list \<Rightarrow> dword \<Rightarrow> DirectPlay8Peer \<Rightarrow> sbuf" where
  "message_packet payload flags d =
     serialise DPLITE_MSGID_MESSAGE
       [FDword (local_player_id d), FData payload,
        FDword (flags AND (DPNSEND_GUARANTEED OR DPNSEND_COALESCE OR DPNSEND_COMPLETEONPROCESS))]"

text \<open>The peers a message goes to and whether it comes back to the sender; no result for an unknown target.\<close>

definition group_targets :: "Group \<Rightarrow> dword \<Rightarrow> DirectPlay8Peer \<Rightarrow> fault + (dword list \<times> bool) option" where
  "group_targets g flags d =
     (let others = filter (\<lambda>m. m \<noteq> local_player_id d) (sorted_list_of_set (player_ids g)) in
      asserting (list_all (\<lambda>m. get_peer_by_player_id m d \<noteq> None) others)
        (Inr (Some (List.map_filter (\<lambda>m. om_find m (player_to_peer_id d)) others,
           local_player_id d \<in> player_ids g \<and> \<not> flag_set flags DPNSEND_NOLOOPBACK))))"

definition send_targets :: "dpnid \<Rightarrow> dword \<Rightarrow> DirectPlay8Peer \<Rightarrow> fault + (dword list \<times> bool) option" where
  "send_targets dest flags d =
     (if dest = DPNID_ALL_PLAYERS_GROUP then
        Inr (Some (map fst (connected_peers d), \<not> flag_set flags DPNSEND_NOLOOPBACK))
      else if dest = local_player_id d then Inr (Some ([], True))
      else case (om_find dest (player_to_peer_id d), get_peer_by_player_id dest d) of
        (Some i, Some p) \<Rightarrow> Inr (Some ([i], False))
      | _ \<Rightarrow>
          (case get_group_by_id dest d of
             None \<Rightarrow> Inr None
           | Some g \<Rightarrow> group_targets g flags d))"

definition peer_send_async ::
  "SendPriority \<Rightarrow> sbuf \<Rightarrow> dpnhandle \<Rightarrow> send_cb \<Rightarrow> dword \<Rightarrow> DirectPlay8Peer \<Rightarrow> DirectPlay8Peer" where
  "peer_send_async pri ps h cb i d = upd_peer i (\<lambda>p. p\<lparr>sq := send_async pri ps None h cb (sq p)\<rparr>) d"

definition send_sync ::
  "app \<Rightarrow> byte list \<Rightarrow> dword \<Rightarrow> dword list \<Rightarrow> bool \<Rightarrow> DirectPlay8Peer \<Rightarrow> nat \<times> DirectPlay8Peer" where
  "send_sync app payload flags targets self d =
     (let (op, d1) = new_op \<lparr>op_pending = int (length targets), op_sync = True, op_handle = 0, op_context = 0,
            op_flags = flags, op_result = Some S_OK\<rparr> d;
          d2 = fold (peer_send_async (send_priority flags) (message_packet payload flags d) 0 (CbSend op)) targets d1
      in (op, if self then snd (dispatch_message app
             (MSG_RECEIVE (local_player_id d2) (local_player_ctx d2) payload (receive_flags flags)) d2)
           else d2))"

definition send_unsync ::
  "byte list \<Rightarrow> ctx \<Rightarrow> dword \<Rightarrow> dword list \<Rightarrow> bool \<Rightarrow> DirectPlay8Peer \<Rightarrow> dpnhandle \<times> DirectPlay8Peer" where
  "send_unsync payload actx flags targets self d =
     (let n = length targets + (if self then 1 else 0);
          (h, alloc) = new_send (handle_alloc d);
          (op, d1) = new_op \<lparr>op_pending = (if n = 0 then 1 else int n), op_sync = False, op_handle = h,
            op_context = actx, op_flags = flags, op_result = Some S_OK\<rparr> (d\<lparr>handle_alloc := alloc\<rparr>);
          d2 = (if n = 0 then d1\<lparr>threads := threads d1 @ [TaskSendComplete op]\<rparr> else d1);
          d3 = fold (peer_send_async (send_priority flags) (message_packet payload flags d) h (CbSend op)) targets d2
      in (h, if self then queue_work (WorkReceive payload flags op) d3 else d3))"

definition SendTo ::
  "app \<Rightarrow> dpnid \<Rightarrow> byte list list \<Rightarrow> ctx \<Rightarrow> dword \<Rightarrow> DirectPlay8Peer \<Rightarrow> fault + api_result \<times> DirectPlay8Peer" where
  "SendTo app dest bufs actx flags d =
     (case send_guard (state d) of
        Some e \<Rightarrow> Inr (Returned e None, d)
      | None \<Rightarrow>
          if flag_set flags DPNSEND_COMPLETEONPROCESS then Inr (Returned DPNERR_GENERIC None, d)
          else
            ebind (send_targets dest flags d) (\<lambda>t.
              case t of
                None \<Rightarrow> Inr (Returned DPNERR_INVALIDPLAYER None, d)
              | Some (targets, self) \<Rightarrow>
                  if flag_set flags DPNSEND_SYNC then
                    (let (op, d') = send_sync app (concat bufs) flags targets self d in Inr (Blocked op, d'))
                  else
                    (let (h, d') = send_unsync (concat bufs) actx flags targets self d
                     in Inr (Returned DPNSUCCESS_PENDING (Some h), d'))))"

section \<open>Descriptions of players and sessions\<close>

record DPN_PLAYER_INFO =
  pi_dwSize :: dword
  pi_dwInfoFlags :: dword
  pi_pwszName :: "wchar list option"
  pi_pvData :: "byte list option"

definition sizeof_DPN_PLAYER_INFO :: dword where "sizeof_DPN_PLAYER_INFO = 24"

definition playerinfo_packet :: "dword \<Rightarrow> DirectPlay8Peer \<Rightarrow> sbuf" where
  "playerinfo_packet ack_id d =
     serialise DPLITE_MSGID_PLAYERINFO
       [FDword (local_player_id d), FWstring (local_player_name d), FData (local_player_data d), FDword ack_id]"

definition store_peer_info :: "DPN_PLAYER_INFO \<Rightarrow> DirectPlay8Peer \<Rightarrow> DirectPlay8Peer" where
  "store_peer_info info d =
     (let d1 = (if flag_set (pi_dwInfoFlags info) DPNINFO_NAME
            then d\<lparr>local_player_name := (case pi_pwszName info of None \<Rightarrow> [] | Some n \<Rightarrow> n)\<rparr> else d)
      in if flag_set (pi_dwInfoFlags info) DPNINFO_DATA
         then d1\<lparr>local_player_data := (case pi_pvData info of None \<Rightarrow> [] | Some dat \<Rightarrow> dat)\<rparr> else d1)"

text \<open>One connected peer is told and asked to acknowledge.\<close>

definition tell_peer_info :: "nat \<Rightarrow> DirectPlay8Peer \<Rightarrow> dword \<Rightarrow> Peer \<Rightarrow> Peer" where
  "tell_peer_info op d i p =
     (let (ack_id, p') = alloc_ack_id p
      in p'\<lparr>sq := send SEND_PRI_MEDIUM (playerinfo_packet ack_id d) None (CbPeerInfo i ack_id op) (sq p')\<rparr>)"

definition SetPeerInfo ::
  "app \<Rightarrow> DPN_PLAYER_INFO \<Rightarrow> ctx \<Rightarrow> dword \<Rightarrow> DirectPlay8Peer \<Rightarrow> fault + api_result \<times> DirectPlay8Peer" where
  "SetPeerInfo app info actx flags d =
     (if pi_dwSize info \<noteq> sizeof_DPN_PLAYER_INFO then Inr (Returned DPNERR_INVALIDPARAM None, d)
      else
        (let d1 = store_peer_info info d in
         if state d1 \<notin> {STATE_HOSTING, STATE_CONNECTED} then Inr (Returned S_OK None, d1)
         else
           (let sync = flag_set flags DPNSETPEERINFO_SYNC;
                (h, alloc) = new_pinfo (handle_alloc d1);
                (op, d2) = new_op \<lparr>op_pending = 1 + int (length (connected_peers d1)), op_sync = sync, op_handle = h,
                  op_context = actx, op_flags = 0, op_result = Some S_OK\<rparr> (d1\<lparr>handle_alloc := alloc\<rparr>);
                d3 = d2\<lparr>peers := map (\<lambda>(i, p). (i, if pstate p = PS_CONNECTED then tell_peer_info op d2 i p else p)) (peers d2)\<rparr>;
                d4 = snd (dispatch_message app (MSG_PEER_INFO (local_player_id d3) (local_player_ctx d3)) d3)
            in ebind (op_finished_cb app op S_OK d4) (\<lambda>d5.
                 Inr (if sync then Blocked op else Returned DPNSUCCESS_PENDING (Some h), d5)))))"

definition appdesc_packet :: "DirectPlay8Peer \<Rightarrow> sbuf" where
  "appdesc_packet d =
     serialise DPLITE_MSGID_APPDESC
       [FDword (max_players d), FWstring (session_name d), FWstring (password d), FData (application_data d)]"

definition SetApplicationDesc ::
  "app \<Rightarrow> DPN_APPLICATION_DESC \<Rightarrow> DirectPlay8Peer \<Rightarrow> fault + hresult \<times> DirectPlay8Peer" where
  "SetApplicationDesc app ad d =
     (if state d = STATE_NEW then Inr (DPNERR_UNINITIALIZED, d)
      else if state d \<noteq> STATE_HOSTING then Inr (DPNERR_NOTHOST, d)
      else if ad_dwMaxPlayers ad > 0 \<and> unat (ad_dwMaxPlayers ad) \<le> length (player_to_peer_id d)
      then Inr (DPNERR_INVALIDPARAM, d)
      else case ad_pwszSessionName ad of
        None \<Rightarrow> Inl NullDeref
      | Some n \<Rightarrow>
          ebind (desc_password ad) (\<lambda>pw.
            let d1 = d\<lparr>max_players := ad_dwMaxPlayers ad, session_name := n, password := pw,
                  application_data := desc_data ad\<rparr>;
                d2 = send_to_connected SEND_PRI_MEDIUM (appdesc_packet d1) CbNone d1
            in Inr (S_OK, snd (dispatch_message app MSG_APPLICATION_DESC d2))))"

section \<open>Enumerating hosts\<close>

record enum_env =
  en_inet_pton :: "wchar list \<Rightarrow> dword option"
  en_uninit :: dword
  en_sockets_ok :: bool

record enum_args =
  ea_application :: "guid option"
  ea_host :: "DirectPlay8Address option"
  ea_device :: "DirectPlay8Address option"
  ea_data :: "byte list"
  ea_count :: dword
  ea_interval :: dword
  ea_timeout :: dword
  ea_context :: ctx

definition start_enum :: "enum_env \<Rightarrow> enum_args \<Rightarrow> enum_error + HostEnumerator" where
  "start_enum en ea =
     new_HostEnumerator (en_inet_pton en) (en_uninit en) (en_sockets_ok en) (ea_application ea) (ea_host ea)
       (ea_device ea) (ea_data ea) (ea_count ea) (ea_interval ea) (ea_timeout ea) (ea_context ea)"

definition enum_failure :: "enum_error \<Rightarrow> fault + hresult" where
  "enum_failure e =
     (case e of COMAPIException h \<Rightarrow> Inr h | enum_runtime_error \<Rightarrow> Inr DPNERR_GENERIC | Undefined \<Rightarrow> Inl (Uncaught OutOfBounds))"

datatype enum_outcome = EnumReturned hresult "dpnhandle option" | EnumWaits

text \<open>The handle is handed out before the enumerator is constructed.\<close>

definition EnumHosts ::
  "enum_env \<Rightarrow> enum_args \<Rightarrow> dword \<Rightarrow> DirectPlay8Peer \<Rightarrow> fault + enum_outcome \<times> DirectPlay8Peer" where
  "EnumHosts en ea flags d =
     (if state d = STATE_NEW then Inr (EnumReturned DPNERR_UNINITIALIZED None, d)
      else if flag_set flags DPNENUMHOSTS_SYNC then
        (case start_enum en ea of
           Inl e \<Rightarrow> ebind (enum_failure e) (\<lambda>h. Inr (EnumReturned h None, d))
         | Inr en \<Rightarrow> Inr (EnumWaits, d\<lparr>sync_host_enums := en # sync_host_enums d\<rparr>))
      else
        (let (h, alloc) = new_enum (handle_alloc d); d1 = d\<lparr>handle_alloc := alloc\<rparr> in
         case start_enum en ea of
           Inl e \<Rightarrow> ebind (enum_failure e) (\<lambda>r. Inr (EnumReturned r (Some h), d1))
         | Inr en \<Rightarrow> Inr (EnumReturned DPNSUCCESS_PENDING (Some h),
             d1\<lparr>async_host_enums := om_emplace h en (async_host_enums d1)\<rparr>)))"

text \<open>The completion callback of an asynchronous enumeration, and the return of a synchronous one.\<close>

definition enum_completed :: "app \<Rightarrow> dpnhandle \<Rightarrow> ctx \<Rightarrow> hresult \<Rightarrow> DirectPlay8Peer \<Rightarrow> DirectPlay8Peer" where
  "enum_completed app h c r d =
     (let d1 = snd (dispatch_message app (MSG_ASYNC_OP_COMPLETE h c r) d)
      in d1\<lparr>async_host_enums := om_erase h (async_host_enums d1)\<rparr>)"

definition enum_returned :: "nat \<Rightarrow> DirectPlay8Peer \<Rightarrow> DirectPlay8Peer" where
  "enum_returned n d = d\<lparr>sync_host_enums := take n (sync_host_enums d) @ drop (Suc n) (sync_host_enums d)\<rparr>"

definition cancel_enums :: "DirectPlay8Peer \<Rightarrow> DirectPlay8Peer" where
  "cancel_enums d = d\<lparr>async_host_enums := map (\<lambda>(h, e). (h, enum_cancel e)) (async_host_enums d)\<rparr>"

section \<open>Cancelling\<close>

definition TYPE_of :: "dpnhandle \<Rightarrow> dpnhandle" where
  "TYPE_of h = h AND TYPE_MASK"

text \<open>The priorities a cancellation of the sends to a player covers, in the order they are tried.\<close>

definition cancel_priorities :: "dword \<Rightarrow> SendPriority list" where
  "cancel_priorities flags =
     (let send_flags = flags AND (DPNCANCEL_PLAYER_SENDS_PRIORITY_LOW OR DPNCANCEL_PLAYER_SENDS_PRIORITY_NORMAL
            OR DPNCANCEL_PLAYER_SENDS_PRIORITY_HIGH);
          covers = (\<lambda>f. send_flags = DPNCANCEL_PLAYER_SENDS \<or> send_flags AND f = f)
      in (if covers DPNCANCEL_PLAYER_SENDS_PRIORITY_LOW then [SEND_PRI_LOW] else [])
         @ (if covers DPNCANCEL_PLAYER_SENDS_PRIORITY_NORMAL then [SEND_PRI_MEDIUM] else [])
         @ (if covers DPNCANCEL_PLAYER_SENDS_PRIORITY_HIGH then [SEND_PRI_HIGH] else []))"

fun remove_by_priorities :: "SendPriority list \<Rightarrow> 'cb SendQueue \<Rightarrow> 'cb SendOp option \<times> 'cb SendQueue" where
  "remove_by_priorities [] q = (None, q)"
| "remove_by_priorities (pri # pris) q =
     (case remove_queued_by_priority pri q of
        (Some op, q') \<Rightarrow> (Some op, q')
      | (None, q') \<Rightarrow> remove_by_priorities pris q')"

fun cancel_player_sends ::
  "app \<Rightarrow> nat \<Rightarrow> SendPriority list \<Rightarrow> dpnid \<Rightarrow> DirectPlay8Peer \<Rightarrow> fault + DirectPlay8Peer" where
  "cancel_player_sends app 0 pris pid d = Inl OutOfFuel"
| "cancel_player_sends app (Suc fuel) pris pid d =
     (case (om_find pid (player_to_peer_id d), get_peer_by_player_id pid d) of
        (Some i, Some p) \<Rightarrow>
          (case remove_by_priorities pris (sq p) of
             (None, q) \<Rightarrow> Inr d
           | (Some op, q) \<Rightarrow>
               ebind (invoke_callback app (callback op) DPNERR_USERCANCEL (upd_peer i (\<lambda>p. p\<lparr>sq := q\<rparr>) d))
                 (cancel_player_sends app fuel pris pid))
      | _ \<Rightarrow> Inr d)"

text \<open>The loop over all peers, restarted after every cancelled send.\<close>

fun cancel_all_sends :: "app \<Rightarrow> nat \<Rightarrow> DirectPlay8Peer \<Rightarrow> fault + DirectPlay8Peer" where
  "cancel_all_sends app 0 d = Inl OutOfFuel"
| "cancel_all_sends app (Suc fuel) d =
     (case find (\<lambda>i. case get_peer_by_peer_id i d of Some p \<Rightarrow> fst (remove_queued (sq p)) \<noteq> None | None \<Rightarrow> False)
         (om_keys (peers d)) of
        None \<Rightarrow> Inr d
      | Some i \<Rightarrow>
          (case map_option (\<lambda>p. remove_queued (sq p)) (get_peer_by_peer_id i d) of
             Some (Some op, q) \<Rightarrow>
               ebind (invoke_callback app (callback op) DPNERR_USERCANCEL (upd_peer i (\<lambda>p. p\<lparr>sq := q\<rparr>) d))
                 (cancel_all_sends app fuel)
           | _ \<Rightarrow> Inr d))"

text \<open>
  The search for a send by its handle over the peers in order: the first queue that holds it, or
  \<open>None\<close> in the first component if a queue met on the way is transmitting it. What was removed is
  gone from the state.
\<close>

fun find_send ::
  "dpnhandle \<Rightarrow> dword list \<Rightarrow> DirectPlay8Peer \<Rightarrow> send_cb SendOp option option \<times> DirectPlay8Peer" where
  "find_send h [] d = (Some None, d)"
| "find_send h (i # is) d =
     (case get_peer_by_peer_id i d of
        None \<Rightarrow> find_send h is d
      | Some p \<Rightarrow>
          (let (op, q) = remove_queued_by_handle h (sq p);
               d1 = upd_peer i (\<lambda>p. p\<lparr>sq := q\<rparr>) d
           in if handle_is_pending h q then (None, d1)
              else case op of Some x \<Rightarrow> (Some (Some x), d1) | None \<Rightarrow> find_send h is d1))"

definition cancel_send :: "app \<Rightarrow> dpnhandle \<Rightarrow> DirectPlay8Peer \<Rightarrow> fault + hresult \<times> DirectPlay8Peer" where
  "cancel_send app h d =
     (let (uop, uq) = remove_queued_by_handle h (udp_sq d); d1 = d\<lparr>udp_sq := uq\<rparr> in
      if handle_is_pending h uq then Inr (DPNERR_CANNOTCANCEL, d1)
      else
        (case (case uop of Some x \<Rightarrow> (Some (Some x), d1) | None \<Rightarrow> find_send h (om_keys (peers d1)) d1) of
           (None, d2) \<Rightarrow> Inr (DPNERR_CANNOTCANCEL, d2)
         | (Some None, d2) \<Rightarrow> Inr (DPNERR_INVALIDHANDLE, d2)
         | (Some (Some op), d2) \<Rightarrow>
             ebind (invoke_callback app (callback op) DPNERR_USERCANCEL d2) (\<lambda>d3. Inr (S_OK, d3))))"

definition is_connecting :: "DirectPlay8Peer \<Rightarrow> bool" where
  "is_connecting d \<longleftrightarrow> state d = STATE_CONNECTING_TO_HOST \<or> state d = STATE_CONNECTING_TO_PEERS"

definition cancel_kinds :: "app \<Rightarrow> nat \<Rightarrow> dword \<Rightarrow> DirectPlay8Peer \<Rightarrow> fault + DirectPlay8Peer" where
  "cancel_kinds app fuel flags d =
     (let d1 = (if flag_set flags (DPNCANCEL_ENUM OR DPNCANCEL_ALL_OPERATIONS) then cancel_enums d else d) in
      ebind
        (if flag_set flags (DPNCANCEL_CONNECT OR DPNCANCEL_ALL_OPERATIONS) \<and> is_connecting d1 \<and> connect_handle d1 \<noteq> 0
         then connect_fail app fuel DPNERR_USERCANCEL None d1 else Inr d1) (\<lambda>d2.
      if flag_set flags DPNCANCEL_ALL_OPERATIONS then cancel_all_sends app fuel d2 else Inr d2))"

definition CancelAsyncOperation ::
  "app \<Rightarrow> nat \<Rightarrow> dpnhandle \<Rightarrow> dword \<Rightarrow> DirectPlay8Peer \<Rightarrow> fault + hresult \<times> DirectPlay8Peer" where
  "CancelAsyncOperation app fuel h flags d =
     (if flag_set flags DPNCANCEL_PLAYER_SENDS then
        (if h = local_player_id d then Inr (S_OK, d)
         else if get_peer_by_player_id h d = None then Inr (DPNERR_INVALIDPLAYER, d)
         else ebind (cancel_player_sends app fuel (cancel_priorities flags) h d) (\<lambda>d'. Inr (S_OK, d')))
      else if flag_set flags (DPNCANCEL_ENUM OR DPNCANCEL_CONNECT OR DPNCANCEL_ALL_OPERATIONS) then
        ebind (cancel_kinds app fuel flags d) (\<lambda>d'. Inr (S_OK, d'))
      else if TYPE_of h = TYPE_ENUM then
        (if om_find h (async_host_enums d) = None then Inr (DPNERR_INVALIDHANDLE, d)
         else Inr (S_OK, d\<lparr>async_host_enums := om_update h enum_cancel (async_host_enums d)\<rparr>))
      else if TYPE_of h = TYPE_CONNECT then
        (if h = connect_handle d then
           if is_connecting d
           then ebind (connect_fail app fuel DPNERR_USERCANCEL None d) (\<lambda>d'. Inr (S_OK, d'))
           else Inr (DPNERR_CANNOTCANCEL, d)
         else Inr (DPNERR_INVALIDHANDLE, d))
      else if TYPE_of h = TYPE_SEND then cancel_send app h d
      else Inr (DPNERR_INVALIDHANDLE, d))"

section \<open>Ending\<close>

text \<open>The switch of the two methods only a host may call.\<close>

fun host_only_guard :: "State \<Rightarrow> hresult option" where
  "host_only_guard STATE_NEW = Some DPNERR_UNINITIALIZED"
| "host_only_guard STATE_INITIALISED = Some DPNERR_NOCONNECTION"
| "host_only_guard STATE_HOSTING = None"
| "host_only_guard STATE_CONNECTING_TO_HOST = Some DPNERR_CONNECTING"
| "host_only_guard STATE_CONNECTING_TO_PEERS = Some DPNERR_CONNECTING"
| "host_only_guard STATE_CONNECT_FAILED = Some DPNERR_CONNECTING"
| "host_only_guard STATE_CONNECTED = Some DPNERR_NOTHOST"
| "host_only_guard STATE_CLOSING = Some DPNERR_CONNECTIONLOST"
| "host_only_guard STATE_TERMINATED = Some DPNERR_HOSTTERMINATEDSESSION"

definition destroy_peer_full :: "dpnid \<Rightarrow> byte list \<Rightarrow> sbuf" where
  "destroy_peer_full pid dat = serialise DPLITE_MSGID_DESTROY_PEER [FDword pid, FData dat]"

definition DestroyPeer ::
  "app \<Rightarrow> nat \<Rightarrow> dpnid \<Rightarrow> byte list \<Rightarrow> DirectPlay8Peer \<Rightarrow> fault + hresult \<times> DirectPlay8Peer" where
  "DestroyPeer app fuel pid dat d =
     (case host_only_guard (state d) of
        Some e \<Rightarrow> Inr (e, d)
      | None \<Rightarrow>
          if pid = local_player_id d then Inr (DPNERR_INVALIDPARAM, d)
          else case (om_find pid (player_to_peer_id d), get_peer_by_player_id pid d) of
            (Some i, Some p) \<Rightarrow>
              ebind (peer_shutdown app fuel i DPNERR_HOSTTERMINATEDSESSION DPNDESTROYPLAYERREASON_HOSTDESTROYEDPLAYER
                  (peer_send i SEND_PRI_HIGH (destroy_peer_full (player_id p) dat) CbNone d)) (\<lambda>d1.
                Inr (S_OK, send_to_connected SEND_PRI_HIGH (destroy_peer_packet (player_id p)) CbNone d1))
          | _ \<Rightarrow> Inr (DPNERR_INVALIDPLAYER, d))"

definition terminate_packet :: "byte list \<Rightarrow> sbuf" where
  "terminate_packet dat = serialise DPLITE_MSGID_TERMINATE_SESSION [FData dat]"

text \<open>The loop over the players of the peers that were connected.\<close>

fun destroy_players ::
  "app \<Rightarrow> nat \<Rightarrow> dword \<Rightarrow> (dpnid \<times> ctx) list \<Rightarrow> DirectPlay8Peer \<Rightarrow> fault + DirectPlay8Peer" where
  "destroy_players app fuel reason [] d = Inr d"
| "destroy_players app fuel reason ((pid, c) # ps) d =
     ebind (dispatch_destroy_player app fuel pid c reason d) (destroy_players app fuel reason ps)"

text \<open>The last loop of \<^verbatim>\<open>TerminateSession\<close>, whose iterator is never advanced.\<close>

fun terminate_loop :: "app \<Rightarrow> nat \<Rightarrow> dword list \<Rightarrow> DirectPlay8Peer \<Rightarrow> fault + DirectPlay8Peer" where
  "terminate_loop app 0 dps d = Inl OutOfFuel"
| "terminate_loop app (Suc fuel) dps d =
     (case dps of
        [] \<Rightarrow> Inr d
      | i # _ \<Rightarrow>
          ebind (peer_destroy app fuel i DPNERR_USERCANCEL DPNDESTROYPLAYERREASON_NORMAL d)
            (terminate_loop app fuel dps))"

definition TerminateSession ::
  "app \<Rightarrow> nat \<Rightarrow> byte list \<Rightarrow> DirectPlay8Peer \<Rightarrow> fault + hresult \<times> DirectPlay8Peer" where
  "TerminateSession app fuel dat d =
     (case host_only_guard (state d) of
        Some e \<Rightarrow> Inr (e, d)
      | None \<Rightarrow>
          (let d1 = close_main_sockets d;
               closing = map (\<lambda>(i, p). (player_id p, player_ctx p)) (connected_peers d1);
               dps = map fst (filter (\<lambda>(i, p). pstate p \<notin> {PS_CONNECTED, PS_CLOSING}) (peers d1));
               d2 = d1\<lparr>peers := map (\<lambda>(i, p). (i, if pstate p = PS_CONNECTED
                        then p\<lparr>sq := send SEND_PRI_HIGH (terminate_packet dat) None CbNone (sq p), pstate := PS_CLOSING\<rparr>
                        else p)) (peers d1),
                      state := STATE_TERMINATED\<rparr>;
               d3 = snd (dispatch_message app (MSG_TERMINATE_SESSION DPNERR_HOSTTERMINATEDSESSION (Some dat)) d2)
           in ebind (dispatch_destroy_player app fuel (local_player_id d3) (local_player_ctx d3)
                  DPNDESTROYPLAYERREASON_SESSIONTERMINATED d3) (\<lambda>d4.
              ebind (destroy_players app fuel DPNDESTROYPLAYERREASON_SESSIONTERMINATED closing d4) (\<lambda>d5.
              ebind (group_destroy_all app fuel DPNDESTROYGROUPREASON_NORMAL d5) (\<lambda>d6.
              ebind (terminate_loop app fuel dps d6) (\<lambda>d7. Inr (S_OK, d7)))))))"

text \<open>
  \<^verbatim>\<open>Close\<close> up to the wait for the peers to go away (which an immediate close skips), from there to the
  wait for the enumerations, and the rest. The flag handed on is \<^verbatim>\<open>was_connected\<close>.
\<close>

definition Close_begin ::
  "app \<Rightarrow> nat \<Rightarrow> dword \<Rightarrow> DirectPlay8Peer \<Rightarrow> fault + (hresult + bool) \<times> DirectPlay8Peer" where
  "Close_begin app fuel flags d =
     (if state d = STATE_NEW then Inr (Inl DPNERR_UNINITIALIZED, d)
      else if state d = STATE_CLOSING then Inr (Inl DPNERR_ALREADYCLOSING, d)
      else
        (let d1 = close_main_sockets (cancel_enums d) in
         ebind (if is_connecting d1 then connect_fail app fuel DPNERR_NOCONNECTION None d1 else Inr d1) (\<lambda>d2.
         let d3 = d2\<lparr>state := STATE_CLOSING\<rparr> in
         ebind (if state d = STATE_HOSTING
             then dispatch_destroy_player app fuel (local_player_id d3) (local_player_ctx d3) DPNDESTROYPLAYERREASON_NORMAL d3
             else Inr d3) (\<lambda>d4.
         ebind (if flag_set flags DPNCLOSE_IMMEDIATE
             then peer_destroy_all app fuel DPNERR_USERCANCEL DPNDESTROYPLAYERREASON_NORMAL d4
             else peer_shutdown_all app fuel DPNERR_USERCANCEL DPNDESTROYPLAYERREASON_NORMAL d4) (\<lambda>d5.
         Inr (Inr (state d = STATE_CONNECTED), d5))))))"

definition peers_gone :: "dword \<Rightarrow> DirectPlay8Peer \<Rightarrow> bool" where
  "peers_gone flags d \<longleftrightarrow> flag_set flags DPNCLOSE_IMMEDIATE \<or> peers d = []"

definition Close_groups :: "app \<Rightarrow> nat \<Rightarrow> bool \<Rightarrow> DirectPlay8Peer \<Rightarrow> fault + DirectPlay8Peer" where
  "Close_groups app fuel was_connected d =
     ebind (if was_connected
         then dispatch_destroy_player app fuel (local_player_id d) (local_player_ctx d) DPNDESTROYPLAYERREASON_NORMAL d
         else Inr d)
       (group_destroy_all app fuel DPNDESTROYGROUPREASON_NORMAL)"

definition enums_gone :: "DirectPlay8Peer \<Rightarrow> bool" where
  "enums_gone d \<longleftrightarrow> async_host_enums d = [] \<and> sync_host_enums d = []"

definition Close_end :: "DirectPlay8Peer \<Rightarrow> DirectPlay8Peer" where
  "Close_end d = d\<lparr>worker_pool := [], destroyed_groups := {}, state := STATE_NEW\<rparr>"

text \<open>A call of \<^verbatim>\<open>Close\<close> during which nobody else changes the state, \<open>None\<close> if it would wait for ever.\<close>

definition Close ::
  "app \<Rightarrow> nat \<Rightarrow> dword \<Rightarrow> DirectPlay8Peer \<Rightarrow> (fault + hresult \<times> DirectPlay8Peer) option" where
  "Close app fuel flags d =
     (case Close_begin app fuel flags d of
        Inl e \<Rightarrow> Some (Inl e)
      | Inr (Inl h, d1) \<Rightarrow> Some (Inr (h, d1))
      | Inr (Inr was_connected, d1) \<Rightarrow>
          if \<not> peers_gone flags d1 then None
          else case Close_groups app fuel was_connected d1 of
            Inl e \<Rightarrow> Some (Inl e)
          | Inr d2 \<Rightarrow> if enums_gone d2 then Some (Inr (S_OK, Close_end d2)) else None)"

end
