(* ===== verification/PeerApiSteps.thy ===== *)
theory PeerApiSteps
  imports PeerSteps PeerCalls
begin

text \<open>
  The methods that start no operation of their own stay within every \<open>peer_relation\<close>, like the events:
  \<^verbatim>\<open>Initialize\<close>, \<^verbatim>\<open>Host\<close>, \<^verbatim>\<open>Connect\<close>, \<^verbatim>\<open>SetApplicationDesc\<close>, \<^verbatim>\<open>EnumHosts\<close>, \<^verbatim>\<open>CancelAsyncOperation\<close>,
  \<^verbatim>\<open>DestroyPeer\<close>, \<^verbatim>\<open>TerminateSession\<close> and the three parts of \<^verbatim>\<open>Close\<close>.
\<close>

lemma drops_one_remove_from: "remove_from P pris q = (Some op, q') \<Longrightarrow> drops_one (callback op) q q'"
proof -
  assume r: "remove_from P pris q = (Some op, q')"
  have m: "mset (contents q) = add_mset op (mset (contents q'))"
    using remove_from_Some [OF r] by (simp add: contents_def split: option.splits)
  then have "set (contents q') \<subseteq> set (contents q)" by (metis set_mset_add_mset_insert set_mset_mset subset_insertI)
  with m show ?thesis by (auto simp: drops_one_def)
qed

lemma remove_from_NoneD: "remove_from P pris q = (None, q') \<Longrightarrow> q' = q"
  using remove_from_None_state [of P pris q] by simp

lemma remove_by_prioritiesD:
  "remove_by_priorities pris q = (Some op, q') \<Longrightarrow> drops_one (callback op) q q'"
proof (induction pris)
  case (Cons pri pris)
  obtain r q1 where r: "remove_from (\<lambda>op. async_handle op \<noteq> 0) [pri] q = (r, q1)" by fastforce
  show ?case
  proof (cases r)
    case None
    then have "q1 = q" using remove_from_NoneD r by blast
    with Cons None r show ?thesis by (simp add: remove_queued_by_priority_from)
  next
    case (Some op1)
    with Cons.prems r have "op1 = op" "q1 = q'" by (simp_all add: remove_queued_by_priority_from)
    with r Some show ?thesis using drops_one_remove_from by blast
  qed
qed simp

context peer_relation
begin

lemma Initialize_R: "R d (snd (Initialize wsa a b c d))"
  by (simp add: Initialize_def R_refl R_core core_def)

lemma open_ports_core: "core (snd (open_ports os ipaddr ps d)) = core d"
  by (induction ps arbitrary: d) (auto simp: core_def split: option.splits)

lemma host_start_R: "relies R app \<Longrightarrow> R d (host_start app c d)"
proof -
  assume app: "relies R app"
  define d1 where "d1 = d\<lparr>next_player_id := 2, host_player_id := 1, local_player_id := 1, local_player_ctx := c,
      state := STATE_HOSTING\<rparr>"
  have "core d1 = core d" by (simp add: d1_def core_def)
  then have "R d (snd (dispatch_message app (MSG_CREATE_PLAYER 1 c) d1))"
    by (rule R_from_core [OF _ dispatch_snd_R [OF app]])
  then have "R d ((snd (dispatch_message app (MSG_CREATE_PLAYER 1 c) d1))\<lparr>local_player_ctx := x\<rparr>)" for x
    by (rule R_after_core) (simp add: core_def)
  then show ?thesis
    by (simp add: host_start_def dispatch_create_player_def case_prod_beta Let_def flip: d1_def)
qed

lemma host_sockets_ok:
  assumes app: "relies R app" and e: "core e = core d"
  shows "ok2 d (let (ok, d3) = open_ports (he_ports he) ipaddr ps e
      in if \<not> ok \<or> \<not> he_select he then Inr (DPNERR_GENERIC, d3)
         else if flag_set (ad_dwFlags ad) DPNSESSION_NODPNSVR then Inr (S_OK, host_start app c d3)
         else let d4 = d3\<lparr>discovery_socket := snd (create_discovery_socket (he_discovery he))\<rparr>
           in if discovery_socket d4 = None \<or> \<not> he_select_discovery he then Inr (DPNERR_GENERIC, d4)
              else Inr (S_OK, host_start app c d4))"
proof -
  obtain b d3 where o: "open_ports (he_ports he) ipaddr ps e = (b, d3)" by fastforce
  have c3: "core d3 = core d" using open_ports_core [of "he_ports he" ipaddr ps e] o e by simp
  then have c4: "core (d3\<lparr>discovery_socket := x\<rparr>) = core d" for x by (simp add: core_def)
  show ?thesis
    unfolding o Let_def prod.case
    using R_core [OF c3] R_core [OF c4] R_from_core [OF c3 host_start_R [OF app]] R_from_core [OF c4 host_start_R [OF app]]
    by (simp add: ok_simps)
qed

lemma Host_ok: "relies R app \<Longrightarrow> ok2 d (Host app he sz ad devs c d)"
proof (cases "host_guard (state d) \<noteq> None \<or> sz \<noteq> sizeof_DPN_APPLICATION_DESC
    \<or> flag_set (ad_dwFlags ad) DPNSESSION_CLIENT_SERVER \<or> devs = [] \<or> fst (he_guid he) \<noteq> S_OK")
  case True
  have "R d (d\<lparr>instance_guid := snd (he_guid he)\<rparr>)" by (rule R_core) (simp add: core_def)
  with True show ?thesis by (cases "host_guard (state d)") (auto simp: Host_def ok_simps R_refl)
next
  case False
  assume app: "relies R app"
  from False have none: "host_guard (state d) = None" "sz = sizeof_DPN_APPLICATION_DESC"
    "\<not> flag_set (ad_dwFlags ad) DPNSESSION_CLIENT_SERVER" "devs \<noteq> []" "fst (he_guid he) = S_OK" by auto
  show ?thesis
  proof (cases "desc_password ad")
    case (Inl x)
    then have "x = NullDeref" by (auto simp: desc_password_def split: if_splits option.splits)
    with none Inl show ?thesis by (simp add: Host_def ok_simps F_other)
  next
    case pw: (Inr pw)
    define d2 where "d2 = d\<lparr>instance_guid := snd (he_guid he), application_guid := ad_guidApplication ad,
      max_players := ad_dwMaxPlayers ad,
      session_name := (case ad_pwszSessionName ad of Some n \<Rightarrow> n | None \<Rightarrow> wide ''(null)''),
      password := pw, application_data := desc_data ad\<rparr>"
    have c2: "core d2 = core d" "core (d2\<lparr>service_provider := sp\<rparr>) = core d" for sp
      by (simp_all add: d2_def core_def)
    show ?thesis
    proof (cases "host_devices devs GUID_NULL 0")
      case (Inl e)
      then show ?thesis
        using none pw R_core [OF c2(1)] unfolding Host_def by (simp add: ok_simps flip: d2_def)
    next
      case (Inr x)
      obtain sp prt where "x = (sp, prt)" by (cases x)
      with Inr none pw show ?thesis
        using host_sockets_ok [OF app c2(2), of he "htonl INADDR_ANY" "if prt = 0 then host_ports else [prt]" sp ad c]
        unfolding Host_def by (simp del: open_ports.simps flip: d2_def)
    qed
  qed
qed

lemma Connect_ok: "ok2 d (Connect cn ad host dat pctx actx flags d)"
proof -
  let ?d1 = "d\<lparr>application_guid := ad_guidApplication ad, instance_guid := ad_guidInstance ad,
      connect_req_data := dat, local_player_ctx := pctx\<rparr>"
  obtain b d2 where o: "open_ports (cn_ports cn) (htonl INADDR_ANY) (connect_ports (cn_counter cn)) ?d1 = (b, d2)" by fastforce
  have c2: "core d2 = core d"
    using open_ports_core [of "cn_ports cn" "htonl INADDR_ANY" "connect_ports (cn_counter cn)" ?d1] o by (simp add: core_def)
  have R4: "R d d4 \<and> R d (close_both d4)" if "peer_connect ce st a p pid e = (r, d4)" "core e = core d2" for ce st a p pid e r d4
    using R_from_core [OF _ peer_connect_R [of e ce st a p pid], of d] that c2
    by (auto simp: close_both_def core_def intro: R_after_core)
  have R1: "R d ?d1" by (rule R_core) (simp add: core_def)
  show ?thesis
  proof (cases "connect_guard (state d)")
    case (Some e)
    then show ?thesis by (simp add: Connect_def ok_simps R_refl)
  next
    case None
    show ?thesis
    proof (cases "connect_target (cn_inet_pton cn) (cn_override cn) host")
      case (Inl x)
      have "x \<noteq> OpFreed" using Inl
        by (auto simp: connect_target_def connect_host_ip_def Let_def split: option.splits prod.splits if_splits sum.splits)
      then show ?thesis using None Inl by (simp add: Connect_def ok_simps F_other)
    next
      case (Inr t)
      show ?thesis
        unfolding Connect_def None option.case Let_def Inr ebind_simps
        by (auto simp: o ok_simps R1 R_core [OF c2] core_def split: option.splits prod.splits dest!: R4)
    qed
  qed
qed


lemma SetApplicationDesc_ok: "relies R app \<Longrightarrow> ok2 d (SetApplicationDesc app ad d)"
proof -
  assume app: "relies R app"
  have P: "P (appdesc_packet e)" for e
    unfolding appdesc_packet_def by (rule P_wf) (simp add: well_formed_msg_def msgid_defs)
  have "R d (snd (dispatch_message app m (send_to_connected pri (appdesc_packet e) CbNone e)))" if "core e = core d" for m pri e
    by (rule R_dispatch_after [OF app R_from_core [OF that R_send_connected [OF P]]])
  then show ?thesis
    by (auto simp: SetApplicationDesc_def ok_simps R_refl F_other desc_password_def core_def Let_def split: option.splits)
qed

lemma EnumHosts_ok: "ok2 d (EnumHosts en ea flags d)"
proof -
  have "R d (d\<lparr>sync_host_enums := x\<rparr>)" "R d (d\<lparr>handle_alloc := y\<rparr>)"
    "R d (d\<lparr>handle_alloc := y, async_host_enums := z\<rparr>)" for x y z
    by (rule R_core, simp add: core_def)+
  then show ?thesis
    by (auto simp: EnumHosts_def ok_simps R_refl F_other enum_failure_def split: sum.splits enum_error.splits prod.splits)
qed

lemma enum_completed_R: "relies R app \<Longrightarrow> R d (enum_completed app h c r d)"
  unfolding enum_completed_def Let_def by (rule R_after_core [OF dispatch_snd_R]) (simp_all add: core_def)

lemma enum_returned_R: "R d (enum_returned n d)"
  by (rule R_core) (simp add: enum_returned_def core_def)

lemma cancel_enums_core: "core (cancel_enums d) = core d"
  by (simp add: cancel_enums_def core_def)

subsection \<open>Cancelling\<close>

lemma cancel_player_sends_ok: "relies R app \<Longrightarrow> ok d (cancel_player_sends app fuel pris pid d)"
proof (induction fuel arbitrary: d)
  case 0
  then show ?case by (simp add: ok_simps F_other)
next
  case (Suc fuel)
  have "ok d (ebind (invoke_callback app (callback op) r (upd_peer i (\<lambda>p. p\<lparr>sq := q\<rparr>) d)) (cancel_player_sends app fuel pris pid))"
    if "get_peer_by_peer_id i d = Some p" "remove_by_priorities pris (sq p) = (Some op, q)" for i p op q r
    by (rule ok_ebind [OF R_finish_send [OF Suc.prems that(1) remove_by_prioritiesD [OF that(2)]]]) (rule Suc)+
  then show ?case
    by (auto simp: ok_simps R_refl get_peer_by_player_id_def split: option.splits prod.splits)
qed

lemma cancel_all_sends_ok: "relies R app \<Longrightarrow> ok d (cancel_all_sends app fuel d)"
proof (induction fuel arbitrary: d)
  case 0
  then show ?case by (simp add: ok_simps F_other)
next
  case (Suc fuel)
  have "ok d (ebind (invoke_callback app (callback op) r (upd_peer i (\<lambda>p. p\<lparr>sq := q\<rparr>) d)) (cancel_all_sends app fuel))"
    if "get_peer_by_peer_id i d = Some p" "remove_queued (sq p) = (Some op, q)" for i p op q r
    by (rule ok_ebind [OF R_finish_send [OF Suc.prems that(1) drops_one_remove_from [OF that(2) [unfolded remove_queued_def]]]])
      (rule Suc)+
  then show ?case by (auto simp: ok_simps R_refl split: option.splits prod.splits)
qed

text \<open>Where the search for a send ends, and what its callback then does.\<close>

lemma find_send_ok:
  assumes "relies R app"
  shows "(fst (find_send h is d) = None \<or> fst (find_send h is d) = Some None \<longrightarrow> R d (snd (find_send h is d)))
    \<and> (\<forall>op. fst (find_send h is d) = Some (Some op) \<longrightarrow>
      ok d (invoke_callback app (callback op) r (snd (find_send h is d))))"
proof (induction "is" arbitrary: d)
  case Nil
  then show ?case by (simp add: R_refl)
next
  case (Cons i "is")
  show ?case
  proof (cases "get_peer_by_peer_id i d")
    case None
    then show ?thesis using Cons by simp
  next
    case (Some p)
    obtain o1 q where q: "remove_queued_by_handle h (sq p) = (o1, q)" by fastforce
    let ?d1 = "upd_peer i (\<lambda>p. p\<lparr>sq := q\<rparr>) d"
    show ?thesis
    proof (cases o1)
      case None
      then have "q = sq p" using q remove_from_NoneD unfolding remove_queued_by_handle_def by blast
      then have R1: "R d ?d1" using R_requeue [OF Some, of q] by simp
      show ?thesis
        using Some q None Cons [of ?d1] R1 by (auto simp: Let_def intro: R_trans ok_after split: if_splits)
    next
      case op: (Some op)
      then have dr: "drops_one (callback op) (sq p) q"
        using q drops_one_remove_from unfolding remove_queued_by_handle_def by blast
      show ?thesis
        using Some q op R_drop [OF Some dr] R_finish_send [OF assms Some dr] by (simp add: Let_def)
    qed
  qed
qed

lemma cancel_send_ok: "relies R app \<Longrightarrow> ok2 d (cancel_send app h d)"
proof -
  assume app: "relies R app"
  obtain o1 uq where u: "remove_queued_by_handle h (udp_sq d) = (o1, uq)" by fastforce
  let ?d1 = "d\<lparr>udp_sq := uq\<rparr>"
  show ?thesis
  proof (cases o1)
    case None
    then have "uq = udp_sq d" using u remove_from_NoneD unfolding remove_queued_by_handle_def by blast
    then have R1: "R d ?d1" using R_requeue_udp [of d uq] by simp
    obtain t d2 where f: "find_send h (om_keys (peers ?d1)) ?d1 = (t, d2)" by fastforce
    have *: "t = None \<or> t = Some None \<Longrightarrow> R d d2" "t = Some (Some op) \<Longrightarrow> ok d (invoke_callback app (callback op) r d2)" for op r
      using find_send_ok [OF app, of h "om_keys (peers ?d1)" ?d1] f R_trans [OF R1] ok_after [OF R1] by auto
    show ?thesis
      using u None f R1 * by (auto simp: cancel_send_def Let_def ok_simps R_refl intro!: ok2_ebind split: option.splits)
  next
    case (Some op)
    then have dr: "drops_one (callback op) (udp_sq d) uq"
      using u drops_one_remove_from unfolding remove_queued_by_handle_def by blast
    show ?thesis
      using u Some R_drop_udp [OF dr]
      by (auto simp: cancel_send_def Let_def ok_simps R_refl intro!: ok2_ebind [OF R_finish_udp [OF app dr]])
  qed
qed

lemma cancel_kinds_ok: "relies R app \<Longrightarrow> ok d (cancel_kinds app fuel flags d)"
proof -
  assume app: "relies R app"
  have "ok d (ebind (if b then connect_fail app fuel DPNERR_USERCANCEL None e else Inr e)
      (\<lambda>d2. if c then cancel_all_sends app fuel d2 else Inr d2))" if "core e = core d" for b c e
    by (rule ok_from_core [OF that], rule ok_ebind)
      (auto simp: ok_simps R_refl intro: connect_fail_ok [OF app] cancel_all_sends_ok [OF app])
  then show ?thesis by (simp add: cancel_kinds_def Let_def cancel_enums_core)
qed

lemma CancelAsyncOperation_ok: "relies R app \<Longrightarrow> ok2 d (CancelAsyncOperation app fuel h flags d)"
proof -
  assume app: "relies R app"
  have "R d (d\<lparr>async_host_enums := x\<rparr>)" for x by (rule R_core) (simp add: core_def)
  moreover have "ok2 d (ebind r (\<lambda>d'. Inr (x, d')))" if "ok d r" for r and x :: hresult
    by (rule ok2_ebind [OF that]) (simp add: ok_simps R_refl)
  ultimately show ?thesis
    by (simp add: CancelAsyncOperation_def ok_simps R_refl cancel_player_sends_ok [OF app] cancel_kinds_ok [OF app]
        connect_fail_ok [OF app] cancel_send_ok [OF app])
qed

subsection \<open>Ending\<close>

lemma DestroyPeer_ok: "relies R app \<Longrightarrow> ok2 d (DestroyPeer app fuel pid dat d)"
proof -
  assume app: "relies R app"
  have P: "P (destroy_peer_full i x)" for i x
    unfolding destroy_peer_full_def by (rule P_wf) (simp add: well_formed_msg_def msgid_defs)
  have "ok2 d (ebind (peer_shutdown app fuel i r reason (peer_send i pri (destroy_peer_full a dat) CbNone d))
      (\<lambda>d1. Inr (S_OK, send_to_connected pri (destroy_peer_packet b) CbNone d1)))" for i r reason pri a b
    by (rule ok2_ebind [OF ok_after [OF R_peer_send [OF P] peer_shutdown_ok [OF app]]])
      (simp add: ok_simps R_send_connected P_packets)
  then show ?thesis by (auto simp: DestroyPeer_def ok_simps R_refl split: option.splits)
qed

lemma destroy_players_ok: "relies R app \<Longrightarrow> ok d (destroy_players app fuel reason ps d)"
  by (induction ps arbitrary: d) (auto simp: ok_simps R_refl intro!: ok_ebind dispatch_destroy_player_ok)

lemma terminate_loop_ok: "relies R app \<Longrightarrow> ok d (terminate_loop app fuel dps d)"
  by (induction fuel arbitrary: d)
    (auto simp: ok_simps R_refl F_other intro!: ok_ebind peer_destroy_ok split: list.splits)

lemma TerminateSession_ok: "relies R app \<Longrightarrow> ok2 d (TerminateSession app fuel dat d)"
proof -
  assume app: "relies R app"
  have P: "P (terminate_packet dat)"
    unfolding terminate_packet_def by (rule P_wf) (simp add: well_formed_msg_def msgid_defs)
  let ?d1 = "close_main_sockets d"
  define d2 where "d2 = ?d1\<lparr>peers := map (\<lambda>(i, p). (i, if pstate p = PS_CONNECTED
      then p\<lparr>sq := send SEND_PRI_HIGH (terminate_packet dat) None CbNone (sq p), pstate := PS_CLOSING\<rparr> else p)) (peers ?d1),
      state := STATE_TERMINATED\<rparr>"
  have "core d2 = core (send_to_connected SEND_PRI_HIGH (terminate_packet dat) CbNone ?d1)"
    by (auto simp: d2_def core_def send_to_connected_def)
  then have R2: "R d d2"
    by (rule R_after_core [OF R_from_core [OF _ R_send_connected [OF P]], rotated]) (simp add: core_def close_main_sockets_def)
  have fin: "ok2 d (ebind (dispatch_destroy_player app fuel a b c d3) (\<lambda>d4.
      ebind (destroy_players app fuel reason ps d4) (\<lambda>d5.
      ebind (group_destroy_all app fuel greason d5) (\<lambda>d6.
      ebind (terminate_loop app fuel dps d6) (\<lambda>d7. Inr (S_OK, d7))))))" if "R d d3" for a b c d3 reason ps greason dps
    by (rule ok2_after [OF that], (rule ok2_ebind dispatch_destroy_player_ok [OF app] destroy_players_ok [OF app]
        group_destroy_all_ok [OF app] terminate_loop_ok [OF app])+) (simp add: ok_simps R_refl)
  show ?thesis
    unfolding TerminateSession_def Let_def d2_def [symmetric]
    by (auto simp: ok_simps R_refl split: option.splits intro!: fin R_dispatch_after [OF app R2])
qed

lemma Close_begin_ok: "relies R app \<Longrightarrow> ok2 d (Close_begin app fuel flags d)"
proof -
  assume app: "relies R app"
  have c: "core (close_main_sockets (cancel_enums d)) = core d"
    using cancel_enums_core [of d] by (simp add: core_def close_main_sockets_def)
  have "R d2 (d2\<lparr>state := STATE_CLOSING\<rparr>)" for d2 by (rule R_core) (simp add: core_def)
  then have "ok2 d2 (let d3 = d2\<lparr>state := STATE_CLOSING\<rparr> in
      ebind (if b1 then dispatch_destroy_player app fuel (local_player_id d3) (local_player_ctx d3) r1 d3 else Inr d3) (\<lambda>d4.
      ebind (if b2 then peer_destroy_all app fuel r2 r3 d4 else peer_shutdown_all app fuel r2 r3 d4) (\<lambda>d5.
      Inr (Inr b3 :: hresult + bool, d5))))" for d2 b1 r1 b2 r2 r3 b3
    unfolding Let_def
    by (rule ok2_after) (auto simp: ok_simps R_refl intro!: ok2_ebind dispatch_destroy_player_ok [OF app]
        teardown_ok(2) [OF app] peer_shutdown_all_ok [OF app])
  then have "ok2 d (ebind (if b0 then connect_fail app fuel r0 None (close_main_sockets (cancel_enums d))
        else Inr (close_main_sockets (cancel_enums d))) (\<lambda>d2. let d3 = d2\<lparr>state := STATE_CLOSING\<rparr> in
      ebind (if b1 then dispatch_destroy_player app fuel (local_player_id d3) (local_player_ctx d3) r1 d3 else Inr d3) (\<lambda>d4.
      ebind (if b2 then peer_destroy_all app fuel r2 r3 d4 else peer_shutdown_all app fuel r2 r3 d4) (\<lambda>d5.
      Inr (Inr b3 :: hresult + bool, d5)))))" for b0 r0 b1 r1 b2 r2 r3 b3
    using ok_from_core [OF c connect_fail_ok [OF app]] R_core [OF c]
    by (intro ok2_ebind) (simp_all add: ok_simps)
  then show ?thesis
    unfolding Close_begin_def Let_def by (simp add: ok_simps R_refl)
qed

lemma Close_groups_ok: "relies R app \<Longrightarrow> ok d (Close_groups app fuel was d)"
  unfolding Close_groups_def
  by (rule ok_ebind) (simp_all add: ok_simps R_refl dispatch_destroy_player_ok group_destroy_all_ok)

lemma Close_end_R: "R d (Close_end d)"
  by (rule R_core) (simp add: Close_end_def core_def)

end

end
