(* ===== verification/PeerOps.thy ===== *)
theory PeerOps
  imports PeerApiSteps
begin

text \<open>
  The accounting of asynchronous and synchronous operations. The variables an operation shares among
  its closures are freed when its counter reaches zero; every queued send, pending acknowledgement,
  detached thread and work item that still refers to the operation must therefore be covered by the
  counter. \<open>balanced\<close> says so, and the interpretation of \<open>peer_relation\<close> shows that every event keeps it:
  no completion finds its variables freed.
\<close>

section \<open>References\<close>

fun cb_refs :: "send_cb \<Rightarrow> nat multiset" where
  "cb_refs CbNone = {#}"
| "cb_refs (CbComplete op) = {#op#}"
| "cb_refs (CbAwaitAck i a op) = {#op#}"
| "cb_refs (CbAllocate h a op n x c) = {#op#}"
| "cb_refs (CbSend op) = {#op#}"
| "cb_refs (CbPeerInfo i a op) = {#op#}"

fun ack_refs :: "ack_cb \<Rightarrow> nat multiset" where
  "ack_refs (AckComplete op) = {#op#}"
| "ack_refs (AckCreateGroup op n x c) = {#op#}"
| "ack_refs (AckPeerInfo op) = {#op#}"

fun task_refs :: "task \<Rightarrow> nat multiset" where
  "task_refs (TaskCreateGroup g c op) = {#op#}"
| "task_refs (TaskDestroyGroup g op) = {#op#}"
| "task_refs (TaskAddPlayer g c op) = {#op#}"
| "task_refs (TaskRemovePlayer g c op) = {#op#}"
| "task_refs (TaskSendComplete op) = {#op#}"

fun work_refs :: "work \<Rightarrow> nat multiset" where
  "work_refs (WorkReceive x f op) = {#op#}"

definition queue_refs :: "send_cb SendQueue \<Rightarrow> nat multiset" where
  "queue_refs q = (\<Sum>cb \<in># mset (map callback (contents q)). cb_refs cb)"

definition acks_refs :: "(dword, ack_cb) omap \<Rightarrow> nat multiset" where
  "acks_refs m = sum_list (map (\<lambda>(a, cb). ack_refs cb) m)"

definition peer_refs :: "Peer \<Rightarrow> nat multiset" where
  "peer_refs p = queue_refs (sq p) + acks_refs (pending_acks p)"

definition refs :: "DirectPlay8Peer \<Rightarrow> nat multiset" where
  "refs d = sum_list (map (\<lambda>(i, p). peer_refs p) (peers d)) + queue_refs (udp_sq d)
     + sum_list (map task_refs (threads d)) + sum_list (map work_refs (work_queue d))"

definition covers :: "(nat, async_op) omap \<Rightarrow> nat multiset \<Rightarrow> bool" where
  "covers ops rs \<longleftrightarrow> (\<forall>op. case om_find op ops of None \<Rightarrow> count rs op = 0 | Some x \<Rightarrow> int (count rs op) \<le> op_pending x)"

text \<open>\<open>backed c d\<close>: the counters cover the references of the state and \<open>c\<close> more.\<close>

definition backed :: "nat multiset \<Rightarrow> DirectPlay8Peer \<Rightarrow> bool" where
  "backed c d \<longleftrightarrow> om_wf (peers d) \<and> covers (async_ops d) (c + refs d)
     \<and> (\<forall>op \<ge> next_op d. om_find op (async_ops d) = None)"

definition balanced :: "DirectPlay8Peer \<Rightarrow> bool" where
  "balanced d \<longleftrightarrow> backed {#} d"

text \<open>The variables of an operation whose last part is telling the application are left alone.\<close>

definition done_kept :: "DirectPlay8Peer \<Rightarrow> DirectPlay8Peer \<Rightarrow> bool" where
  "done_kept d d' \<longleftrightarrow> (\<forall>op x. om_find op (async_ops d) = Some x \<and> op_pending x = 0 \<and> \<not> op_sync x \<longrightarrow>
     om_find op (async_ops d') = Some x)"

text \<open>
  The relation: whatever else is covered stays covered, such as the references that threads hold
  which are waiting for the lock.
\<close>

definition acct :: "DirectPlay8Peer \<Rightarrow> DirectPlay8Peer \<Rightarrow> bool" where
  "acct d d' \<longleftrightarrow> (\<forall>c. backed c d \<longrightarrow> backed c d' \<and> done_kept d d')"

definition acct_fault :: "DirectPlay8Peer \<Rightarrow> fault \<Rightarrow> bool" where
  "acct_fault d x \<longleftrightarrow> (x = OpFreed \<longrightarrow> \<not> balanced d)"

section \<open>How the references change\<close>

lemma coversI:
  "(\<And>op x. om_find op ops = None \<Longrightarrow> count rs op = 0) \<Longrightarrow>
   (\<And>op x. om_find op ops = Some x \<Longrightarrow> int (count rs op) \<le> op_pending x) \<Longrightarrow> covers ops rs"
  by (auto simp: covers_def split: option.splits)

lemma covers_None: "covers ops rs \<Longrightarrow> om_find op ops = None \<Longrightarrow> count rs op = 0"
  unfolding covers_def by (metis option.simps(4))

lemma covers_Some: "covers ops rs \<Longrightarrow> om_find op ops = Some x \<Longrightarrow> int (count rs op) \<le> op_pending x"
  unfolding covers_def by (metis option.simps(5))

lemma covers_sub: "covers ops rs \<Longrightarrow> rs' \<subseteq># rs \<Longrightarrow> covers ops rs'"
proof (rule coversI)
  fix op x
  assume c: "covers ops rs" and sub: "rs' \<subseteq># rs"
  have le: "count rs' op \<le> count rs op" using sub by (simp add: mset_subset_eq_count)
  show "om_find op ops = None \<Longrightarrow> count rs' op = 0" using covers_None [OF c] le by fastforce
  show "om_find op ops = Some x \<Longrightarrow> int (count rs' op) \<le> op_pending x" using covers_Some [OF c] le by fastforce
qed

lemma sum_om_update:
  fixes g :: "'v \<Rightarrow> 'a :: cancel_comm_monoid_add"
  assumes "om_wf m" "om_find k m = Some v"
  shows "sum_list (map (\<lambda>(j, w). g w) (om_update k f m)) + g v = sum_list (map (\<lambda>(j, w). g w) m) + g (f v)"
  using assms
proof (induction m)
  case (Cons a m)
  obtain j w where a: "a = (j, w)" by (cases a)
  show ?case
  proof (cases "j = k")
    case True
    then have "w = v" using Cons.prems(2) a by (simp add: om_find_Cons)
    moreover have "om_find k m = None"
      using Cons.prems(1) a True by (auto simp: om_wf_Cons om_find_None_iff)
    then have "om_update k f m = m" by (rule om_update_not_in)
    ultimately show ?thesis using a True by (simp add: om_update_def add.commute add.left_commute)
  next
    case False
    then have "sum_list (map (\<lambda>(j, w). g w) (om_update k f m)) + g v = sum_list (map (\<lambda>(j, w). g w) m) + g (f v)"
      using Cons a by (simp add: om_wf_Cons om_find_Cons)
    then show ?thesis using a False by (simp add: om_update_def add.assoc)
  qed
qed simp

lemma sum_om_set:
  fixes g :: "'v \<Rightarrow> 'a :: cancel_comm_monoid_add"
  assumes "om_find k m = None"
  shows "sum_list (map (\<lambda>(j, w). g w) (om_set k v m)) = g v + sum_list (map (\<lambda>(j, w). g w) m)"
  using assms
  by (induction k v m rule: om_set.induct) (auto simp: om_find_Cons add.left_commute split: if_splits)

lemma sum_om_erase:
  fixes g :: "'v \<Rightarrow> 'a multiset"
  shows "sum_list (map (\<lambda>(j, w). g w) (om_erase k m)) \<subseteq># sum_list (map (\<lambda>(j, w). g w) m)"
proof (induction m)
  case (Cons a m)
  then show ?case
    by (cases a) (auto simp: om_erase_def intro: subset_mset.add_mono subset_mset.add_increasing)
qed (simp add: om_erase_def)

lemma sum_om_erase_find:
  fixes g :: "'v \<Rightarrow> 'a multiset"
  assumes "om_find k m = Some v"
  shows "g v + sum_list (map (\<lambda>(j, w). g w) (om_erase k m)) \<subseteq># sum_list (map (\<lambda>(j, w). g w) m)"
  using assms
proof (induction m)
  case (Cons a m)
  obtain j w where a: "a = (j, w)" by (cases a)
  show ?case
  proof (cases "k = j")
    case True
    then show ?thesis using Cons.prems a sum_om_erase [of g k m] by (simp add: om_find_Cons om_erase_def)
  next
    case False
    then show ?thesis using Cons a by (auto simp: om_find_Cons om_erase_def add.left_commute [of "g v"])
  qed
qed simp

lemma refs_upd_peer:
  assumes "om_wf (peers d)" "get_peer_by_peer_id i d = Some p"
  shows "refs (upd_peer i f d) + peer_refs p = refs d + peer_refs (f p)"
  using sum_om_update [OF assms(1), of i p peer_refs f] assms(2)
  by (simp add: refs_def upd_peer_def get_peer_by_peer_id_def algebra_simps)

lemma upd_peer_absent: "get_peer_by_peer_id i d = None \<Longrightarrow> upd_peer i f d = d"
  by (simp add: upd_peer_def get_peer_by_peer_id_def om_update_not_in)

lemma mset_contents_send_async:
  "mset (contents (send_async pri ps a h cb q)) =
     add_mset (new_SendOp (fst (raw_packet ps)) a (case a of None \<Rightarrow> 0 | Some _ \<Rightarrow> sizeof_sockaddr_in) h cb) (mset (contents q))"
  by (cases pri) (auto simp: send_async_def contents_def queued_def split: option.splits)

lemma queue_refs_send_async [simp]: "queue_refs (send_async pri ps a h cb q) = queue_refs q + cb_refs cb"
proof -
  have "mset (map callback (contents (send_async pri ps a h cb q))) = add_mset cb (mset (map callback (contents q)))"
    unfolding mset_map mset_contents_send_async by (simp add: new_SendOp_def)
  then show ?thesis by (simp add: queue_refs_def)
qed

lemma queue_refs_send [simp]: "queue_refs (send pri ps a cb q) = queue_refs q + cb_refs cb"
  by (simp add: send_def)

lemma queue_refs_new [simp]: "queue_refs new_SendQueue = {#}"
  by (simp add: queue_refs_def new_SendQueue_def contents_def queued_def)

lemma queue_refs_drops: "drops_one cb q q' \<Longrightarrow> queue_refs q = cb_refs cb + queue_refs q'"
  by (simp add: drops_one_def queue_refs_def)

lemma queue_refs_same: "same_ops q q' \<Longrightarrow> queue_refs q' = queue_refs q"
  by (simp add: same_ops_def queue_refs_def)

lemma refs_core: "core d' = core d \<Longrightarrow> refs d' = refs d"
proof -
  assume c: "core d' = core d"
  have "sum_list (map (\<lambda>(i, p). peer_refs p) (peers e)) =
      sum_list (map (\<lambda>(i, q, a). queue_refs q + acks_refs a) (fst (core e)))" for e
    unfolding core_def fst_conv map_map by (rule arg_cong [where f = sum_list]) (auto simp: peer_refs_def)
  moreover have "udp_sq d' = udp_sq d" "threads d' = threads d" "work_queue d' = work_queue d"
    using c by (simp_all add: core_def)
  ultimately show ?thesis by (simp only: refs_def c)
qed

lemma refs_send_to_connected:
  "refs (send_to_connected pri ps cb d) = refs d + repeat_mset (length (connected_peers d)) (cb_refs cb)"
proof -
  have "sum_list (map (\<lambda>(i, p). peer_refs p)
        (map (\<lambda>(i, p). (i, if pstate p = PS_CONNECTED then p\<lparr>sq := send pri ps None cb (sq p)\<rparr> else p)) m)) =
      sum_list (map (\<lambda>(i, p). peer_refs p) m)
      + repeat_mset (length (filter (\<lambda>(i, p). pstate p = PS_CONNECTED) m)) (cb_refs cb)" for m :: "(dword \<times> Peer) list"
    by (induction m) (auto simp: peer_refs_def)
  then show ?thesis by (simp add: refs_def send_to_connected_def connected_peers_def)
qed


lemma acct_shrink:
  assumes "om_wf (peers d) \<Longrightarrow> om_wf (peers d') \<and> refs d' \<subseteq># refs d" "async_ops d' = async_ops d" "next_op d' = next_op d"
  shows "acct d d'"
  using assms covers_sub [of "async_ops d" "c + refs d" "c + refs d'" for c]
  by (auto simp: acct_def backed_def done_kept_def)

lemma core_fields:
  assumes "core d' = core d"
  shows "om_keys (peers d') = om_keys (peers d)" "async_ops d' = async_ops d" "next_op d' = next_op d"
proof -
  have "map fst (peers e) = map fst (fst (core e))" for e :: DirectPlay8Peer by (simp add: core_def case_prod_beta comp_def)
  then show "om_keys (peers d') = om_keys (peers d)" using assms by (simp add: om_keys_def)
qed (use assms in \<open>simp_all add: core_def\<close>)

lemma acct_core: "core d' = core d \<Longrightarrow> acct d d'"
  using core_fields [of d' d] refs_core [of d' d] by (intro acct_shrink) (simp_all add: om_wf_def)

lemma acct_upd_peer:
  assumes "\<And>p. get_peer_by_peer_id i d = Some p \<Longrightarrow> peer_refs (f p) \<subseteq># peer_refs p"
  shows "acct d (upd_peer i f d)"
proof (rule acct_shrink)
  assume wf: "om_wf (peers d)"
  have "refs (upd_peer i f d) \<subseteq># refs d"
  proof (cases "get_peer_by_peer_id i d")
    case None
    then show ?thesis by (simp add: upd_peer_absent)
  next
    case (Some p)
    have "refs (upd_peer i f d) + peer_refs p \<subseteq># refs d + peer_refs p"
      unfolding refs_upd_peer [OF wf Some] using assms [OF Some] by simp
    then show ?thesis by simp
  qed
  with wf show "om_wf (peers (upd_peer i f d)) \<and> refs (upd_peer i f d) \<subseteq># refs d" by (simp add: upd_peer_def)
qed (simp_all add: upd_peer_def)

lemma done_kept_refl: "done_kept d d"
  by (simp add: done_kept_def)

lemma done_kept_trans: "done_kept d e \<Longrightarrow> done_kept e f \<Longrightarrow> done_kept d f"
  by (auto simp: done_kept_def)

lemma acct_trans: "acct d e \<Longrightarrow> acct e f \<Longrightarrow> acct d f"
  using done_kept_trans by (auto simp: acct_def)

section \<open>Paying off references\<close>

text \<open>
  A step that is handed references which the counters cover besides \<open>c\<close>, and either faults otherwise
  or leaves a state in which \<open>c\<close> is covered.
\<close>

definition settles :: "nat multiset \<Rightarrow> DirectPlay8Peer \<Rightarrow> fault + DirectPlay8Peer \<Rightarrow> bool" where
  "settles c d r = (case r of Inl x \<Rightarrow> x \<noteq> OpFreed | Inr d' \<Rightarrow> backed c d' \<and> done_kept d d')"

lemma settles_simps [simp]:
  "settles c d (Inl x) \<longleftrightarrow> x \<noteq> OpFreed" "settles c d (Inr d') \<longleftrightarrow> backed c d' \<and> done_kept d d'"
  by (simp_all add: settles_def)

lemma refs_async_ops [simp]: "refs (d\<lparr>async_ops := m\<rparr>) = refs d" "refs (d\<lparr>next_op := n\<rparr>) = refs d"
  by (simp_all add: refs_def)

lemma refs_upd_op [simp]: "refs (upd_op op f d) = refs d"
  by (simp add: upd_op_def)

lemma upd_op_frame [simp]:
  "peers (upd_op op f d) = peers d" "next_op (upd_op op f d) = next_op d"
  "async_ops (upd_op op f d) = om_update op f (async_ops d)"
  by (simp_all add: upd_op_def)

lemma backed_found:
  assumes "backed (add_mset op c) d"
  obtains x where "om_find op (async_ops d) = Some x" "1 \<le> op_pending x"
proof (cases "om_find op (async_ops d)")
  case None
  then show thesis using assms covers_None [of "async_ops d" "add_mset op c + refs d" op] by (simp add: backed_def)
next
  case (Some x)
  then show thesis using assms covers_Some [of "async_ops d" "add_mset op c + refs d" op x] that by (simp add: backed_def)
qed

text \<open>One part of an operation ends: its counter goes down by one.\<close>

lemma backed_pay:
  assumes "backed (add_mset op c) d" "om_find op (async_ops d) = Some x" "\<And>x. op_pending (f x) = op_pending x - 1"
  shows "backed c (upd_op op f d) \<and> done_kept d (upd_op op f d)"
proof -
  have cov: "covers (async_ops d) (add_mset op c + refs d)" using assms(1) by (simp add: backed_def)
  have "covers (om_update op f (async_ops d)) (c + refs d)"
  proof (rule coversI)
    fix k y
    show "om_find k (om_update op f (async_ops d)) = None \<Longrightarrow> count (c + refs d) k = 0"
      using covers_None [OF cov, of k] by (auto split: if_splits)
    show "om_find k (om_update op f (async_ops d)) = Some y \<Longrightarrow> int (count (c + refs d) k) \<le> op_pending y"
      using covers_Some [OF cov, of k] assms(3) by (fastforce split: if_splits)
  qed
  moreover have "op_pending x \<noteq> 0"
    using covers_Some [OF cov assms(2)] by auto
  ultimately show ?thesis
    using assms(1,2) by (auto simp: backed_def done_kept_def)
qed

lemma backed_erase:
  assumes "backed c d" "om_find op (async_ops d) = Some x" "op_pending x = 0"
  shows "backed c (d\<lparr>async_ops := om_erase op (async_ops d)\<rparr>)"
proof -
  have cov: "covers (async_ops d) (c + refs d)" using assms(1) by (simp add: backed_def)
  have "covers (om_erase op (async_ops d)) (c + refs d)"
  proof (rule coversI)
    fix k y
    show "om_find k (om_erase op (async_ops d)) = None \<Longrightarrow> count (c + refs d) k = 0"
      using covers_None [OF cov, of k] covers_Some [OF cov assms(2)] assms(3) by (auto split: if_splits)
    show "om_find k (om_erase op (async_ops d)) = Some y \<Longrightarrow> int (count (c + refs d) k) \<le> op_pending y"
      using covers_Some [OF cov, of k] by (auto split: if_splits)
  qed
  with assms(1) show ?thesis by (simp add: backed_def)
qed

lemma done_kept_erase:
  assumes "done_kept d e" "om_find op (async_ops d) = Some x" "op_pending x \<noteq> 0"
  shows "done_kept d (e\<lparr>async_ops := om_erase op (async_ops e)\<rparr>)"
  using assms by (auto simp: done_kept_def)

lemma relies_acct:
  "relies acct app \<Longrightarrow> backed c d \<Longrightarrow> backed c (snd (dispatch_message app m d)) \<and> done_kept d (snd (dispatch_message app m d))"
  by (simp add: relies_def acct_def)

lemma complete_settles:
  assumes "relies acct app" "backed (add_mset op c) d"
  shows "settles c d (complete app op result d)"
proof -
  obtain x where x: "om_find op (async_ops d) = Some x" "1 \<le> op_pending x" by (rule backed_found [OF assms(2)])
  define d1 where "d1 = upd_op op (\<lambda>x. x\<lparr>op_pending := op_pending x - 1\<rparr>) d"
  have b1: "backed c d1" and k1: "done_kept d d1"
    unfolding d1_def using backed_pay [OF assms(2) x(1)] by simp_all
  have x1: "om_find op (async_ops d1) = Some (x\<lparr>op_pending := op_pending x - 1\<rparr>)" by (simp add: d1_def x(1))
  show ?thesis
  proof (cases "op_pending x - 1 = 0")
    case False
    then show ?thesis using x(1) b1 k1 by (simp add: complete_def d1_def)
  next
    case True
    let ?m = "MSG_ASYNC_OP_COMPLETE (op_handle x) (op_context x) result"
    let ?d2 = "snd (dispatch_message app ?m d1)"
    let ?d3 = "upd_op op (\<lambda>x. x\<lparr>op_result := Some result\<rparr>) d1"
    from relies_acct [OF assms(1) b1, of ?m] have b2: "backed c ?d2" and k2: "done_kept d1 ?d2" by simp_all
    have "covers (async_ops ?d3) (c + refs ?d3)"
    proof -
      have cov: "covers (async_ops d1) (c + refs d1)" using b1 by (simp add: backed_def)
      show ?thesis
        by (rule coversI) (use covers_None [OF cov] covers_Some [OF cov] in \<open>auto split: if_splits\<close>)
    qed
    then have b3: "backed c ?d3" using b1 by (auto simp: backed_def)
    have k3: "done_kept d ?d3" using k1 x by (auto simp: done_kept_def)
    show ?thesis
    proof (cases "op_sync x")
      case True
      then show ?thesis using x(1) b3 k3 \<open>op_pending x - 1 = 0\<close> by (simp add: complete_def d1_def)
    next
      case False
      have "om_find op (async_ops ?d2) = Some (x\<lparr>op_pending := op_pending x - 1\<rparr>)"
        using k2 x1 True False by (simp add: done_kept_def)
      then have "backed c (?d2\<lparr>async_ops := om_erase op (async_ops ?d2)\<rparr>)"
        using backed_erase [of c ?d2 op] b2 True by simp
      moreover have "done_kept d (?d2\<lparr>async_ops := om_erase op (async_ops ?d2)\<rparr>)"
        using done_kept_erase [OF done_kept_trans [OF k1 k2] x(1)] x(2) by simp
      ultimately show ?thesis
        using x(1) False True by (simp add: complete_def case_prod_beta flip: d1_def)
    qed
  qed
qed

lemma finish_part_settles:
  assumes "relies acct app" "backed (add_mset op c) d"
  shows "settles c d (finish_part app msg op result d)"
proof -
  obtain x where x: "om_find op (async_ops d) = Some x" "1 \<le> op_pending x" by (rule backed_found [OF assms(2)])
  define d1 where "d1 = upd_op op (note_result result) d"
  have b1: "backed c d1" and k1: "done_kept d d1"
    unfolding d1_def using backed_pay [OF assms(2) x(1)] by (simp_all add: note_result_def)
  have x1: "om_find op (async_ops d1) = Some (note_result result x)" by (simp add: d1_def x(1))
  let ?d2 = "d1\<lparr>async_ops := om_erase op (async_ops d1)\<rparr>"
  have "backed c ?d2" if "op_pending (note_result result x) = 0"
    using backed_erase [of c d1 op] b1 x1 that by simp
  moreover have "done_kept d ?d2" using done_kept_erase [OF k1 x(1)] x(2) by simp
  ultimately show ?thesis
    using x(1) b1 k1 relies_acct [OF assms(1), of c ?d2] done_kept_trans [of d ?d2]
    by (auto simp: finish_part_def Let_def simp flip: d1_def split: option.splits)
qed

lemma register_peer_ack_settles:
  assumes "backed (ack_refs cb + c) d"
  shows "settles c d (register_peer_ack i ack_id cb d)"
proof (cases "get_peer_by_peer_id i d")
  case None
  then show ?thesis by (simp add: register_peer_ack_def with_peer_def)
next
  case (Some p)
  show ?thesis
  proof (cases "om_find ack_id (pending_acks p)")
    case None
    let ?p = "p\<lparr>pending_acks := om_emplace ack_id cb (pending_acks p)\<rparr>"
    let ?d = "upd_peer i (\<lambda>_. ?p) d"
    have wf: "om_wf (peers d)" using assms by (simp add: backed_def)
    have "peer_refs ?p = ack_refs cb + peer_refs p"
      using None sum_om_set [OF None, of ack_refs cb] by (simp add: peer_refs_def acks_refs_def om_emplace_def)
    then have "refs ?d + peer_refs p = (ack_refs cb + refs d) + peer_refs p"
      using refs_upd_peer [OF wf Some, of "\<lambda>_. ?p"] by simp
    then have "refs ?d = ack_refs cb + refs d" by (simp only: add_right_cancel)
    then have "backed c ?d" using assms by (simp add: backed_def upd_peer_def ac_simps)
    moreover have "done_kept d ?d" by (simp add: done_kept_def upd_peer_def)
    ultimately show ?thesis
      using Some None by (simp add: register_peer_ack_def with_peer_def register_ack_def asserting_def)
  next
    case Ack: (Some cb')
    then show ?thesis using Some by (simp add: register_peer_ack_def with_peer_def register_ack_def asserting_def)
  qed
qed

text \<open>More parts are announced for every connected peer and one for the thread that was started.\<close>

lemma backed_grow:
  assumes "backed (add_mset op c) d" "om_find op (async_ops d) = Some x"
    "\<And>x. op_pending (f x) = op_pending x + int n"
  shows "backed (add_mset op c + replicate_mset n op) (upd_op op f d) \<and> done_kept d (upd_op op f d)"
proof -
  have cov: "covers (async_ops d) (add_mset op c + refs d)" using assms(1) by (simp add: backed_def)
  have "covers (om_update op f (async_ops d)) (add_mset op c + replicate_mset n op + refs d)"
  proof (rule coversI)
    fix k y
    show "om_find k (om_update op f (async_ops d)) = None \<Longrightarrow> count (add_mset op c + replicate_mset n op + refs d) k = 0"
      using covers_None [OF cov, of k] assms(2) by (auto split: if_splits)
    show "om_find k (om_update op f (async_ops d)) = Some y \<Longrightarrow>
        int (count (add_mset op c + replicate_mset n op + refs d) k) \<le> op_pending y"
      using covers_Some [OF cov, of k] assms(3) by (fastforce split: if_splits)
  qed
  moreover have "op_pending x \<noteq> 0" using covers_Some [OF cov assms(2)] by auto
  ultimately show ?thesis using assms(1,2) by (auto simp: backed_def done_kept_def)
qed

lemma connected_peers_upd_op [simp]: "connected_peers (upd_op op f d) = connected_peers d"
  by (simp add: connected_peers_def)

lemma om_wf_send_to_connected [simp]: "om_wf (peers (send_to_connected pri ps cb d)) = om_wf (peers d)"
  by (simp add: om_wf_def om_keys_def send_to_connected_def comp_def case_prod_beta)

lemma send_to_connected_frame [simp]:
  "async_ops (send_to_connected pri ps cb d) = async_ops d" "next_op (send_to_connected pri ps cb d) = next_op d"
  by (simp_all add: send_to_connected_def)

lemma notify_connected_backed:
  assumes "backed (add_mset op c) d"
  shows "backed (add_mset op c) (notify_connected op ps d) \<and> done_kept d (notify_connected op ps d)"
proof -
  obtain x where x: "om_find op (async_ops d) = Some x" "1 \<le> op_pending x" by (rule backed_found [OF assms])
  let ?n = "length (connected_peers d)"
  let ?d1 = "upd_op op (\<lambda>x. x\<lparr>op_pending := op_pending x + int ?n\<rparr>) d"
  have "repeat_mset ?n {#op#} = replicate_mset ?n op" by (rule multiset_eqI) simp
  with backed_grow [OF assms x(1), of "\<lambda>x. x\<lparr>op_pending := op_pending x + int ?n\<rparr>" ?n] show ?thesis
    by (simp add: notify_connected_def backed_def done_kept_def refs_send_to_connected algebra_simps)
qed

lemma backed_task:
  assumes "backed (add_mset op c) d" "task_refs t = {#op#}"
  shows "backed c (d\<lparr>threads := threads d @ [t]\<rparr>)"
  using assms by (simp add: backed_def refs_def algebra_simps)

lemma create_the_group_settles:
  assumes "backed (add_mset op r) d"
  shows "settles r d (Inr (create_the_group op n dat c gid d))"
proof -
  let ?d1 = "d\<lparr>groups := om_emplace gid (new_Group n dat c) (groups d)\<rparr>"
  let ?d2 = "notify_connected op (group_create_packet gid n dat) ?d1"
  have "backed (add_mset op r) ?d1" using assms by (simp add: backed_def refs_def)
  from notify_connected_backed [OF this] have b: "backed (add_mset op r) ?d2" and k: "done_kept ?d1 ?d2" by auto
  have "backed r (?d2\<lparr>threads := threads ?d2 @ [TaskCreateGroup gid c op]\<rparr>)"
    by (rule backed_task [OF b]) simp
  then show ?thesis using k by (simp add: create_the_group_def done_kept_def Let_def)
qed

lemma run_ack_settles:
  assumes "relies acct app" "backed (ack_refs cb + c) d"
  shows "settles c d (run_ack app cb result dat d)"
proof (cases cb)
  case (AckComplete op)
  then show ?thesis using complete_settles assms by simp
next
  case (AckCreateGroup op n x c)
  then show ?thesis using complete_settles create_the_group_settles assms by simp
next
  case (AckPeerInfo op)
  then show ?thesis using finish_part_settles assms by (simp add: op_finished_cb_def)
qed

lemma backed_wf: "backed c d \<Longrightarrow> om_wf (peers d)"
  by (simp add: backed_def)

lemma invoke_callback_settles:
  assumes "relies acct app" "backed (cb_refs cb + c) d"
  shows "settles c d (invoke_callback app cb result d)"
proof (cases cb)
  case CbNone
  then show ?thesis using assms by (simp add: done_kept_refl)
next
  case (CbComplete op)
  then show ?thesis using complete_settles assms by simp
next
  case (CbAwaitAck i a op)
  then show ?thesis using complete_settles register_peer_ack_settles [of "AckComplete op"] assms by simp
next
  case (CbAllocate h a op n x gc)
  then show ?thesis
    using complete_settles register_peer_ack_settles [of "AckCreateGroup op n x gc"] assms
    by (simp split: option.splits)
next
  case (CbSend op)
  then show ?thesis using finish_part_settles assms by (simp add: handle_send_complete_def)
next
  case (CbPeerInfo i a op)
  then show ?thesis
    using finish_part_settles register_peer_ack_settles [of "AckPeerInfo op"] assms by (simp add: op_finished_cb_def)
qed

section \<open>The interpretation\<close>

lemma backed_sub: "backed (c + c') d \<Longrightarrow> backed c d"
  using covers_sub [of "async_ops d" "c + c' + refs d" "c + refs d"] by (simp add: backed_def)

lemma backed_balanced: "backed c d \<Longrightarrow> balanced d"
  using backed_sub [of "{#}" c d] by (simp add: balanced_def)

lemma step_ok_settles:
  assumes "\<And>c. backed c d \<Longrightarrow> backed (r + c) e \<and> done_kept d e" "\<And>c. backed (r + c) e \<Longrightarrow> settles c e res"
  shows "step_ok acct acct_fault d res"
proof -
  have *: "settles c e res \<and> done_kept d e" if "backed c d" for c using assms that by blast
  show ?thesis
  proof (cases res)
    case (Inl x)
    then show ?thesis using *[of "{#}"] by (auto simp: step_ok_def acct_fault_def balanced_def)
  next
    case (Inr d')
    then show ?thesis using * done_kept_trans by (fastforce simp: step_ok_def acct_def)
  qed
qed

lemma backed_release:
  assumes "om_wf (peers d)" "get_peer_by_peer_id i d = Some p" "c + peer_refs (f p) \<subseteq># peer_refs p"
  shows "c + refs (upd_peer i f d) \<subseteq># refs d"
proof -
  have "(c + refs (upd_peer i f d)) + peer_refs p = c + (refs d + peer_refs (f p))"
    using refs_upd_peer [OF assms(1,2), of f] by (simp add: add.assoc)
  also have "\<dots> = refs d + (c + peer_refs (f p))" by (simp add: ac_simps)
  also have "\<dots> \<subseteq># refs d + peer_refs p" using assms(3) by simp
  finally show ?thesis by simp
qed

lemma backed_release_peer:
  assumes "backed c d" "get_peer_by_peer_id i d = Some p" "r + peer_refs (f p) \<subseteq># peer_refs p"
  shows "backed (r + c) (upd_peer i f d) \<and> done_kept d (upd_peer i f d)"
proof -
  have "r + refs (upd_peer i f d) \<subseteq># refs d"
    by (rule backed_release [where f = f and c = r, OF backed_wf [OF assms(1)] assms(2,3)])
  then have "(r + c) + refs (upd_peer i f d) \<subseteq># c + refs d"
    by (simp add: add.assoc [symmetric] add.commute [of r c])
  from covers_sub [OF _ this] assms(1) show ?thesis
    by (simp add: backed_def upd_peer_def done_kept_def)
qed

interpretation ops: peer_relation acct acct_fault "\<lambda>_. True"
proof (unfold_locales, goal_cases)
  case (1 d)
  then show ?case by (simp add: acct_def done_kept_refl)
next
  case (2 d e f)
  then show ?case by (rule acct_trans)
next
  case (3 d e x)
  then show ?case by (auto simp: acct_def acct_fault_def balanced_def)
next
  case (4 x d)
  then show ?case by (simp add: acct_fault_def)
next
  case (5 d' d)
  then show ?case by (rule acct_core)
next
  case (6 ps d i pri)
  then show ?case by (intro acct_upd_peer) (simp add: peer_refs_def)
next
  case (7 ps d pri)
  then show ?case by (intro acct_shrink) (simp_all add: refs_send_to_connected)
next
  case (8 ps d pri a)
  then show ?case by (intro acct_shrink) (simp_all add: refs_def)
next
  case (9 i d p q)
  then show ?case by (intro acct_upd_peer) (simp add: peer_refs_def queue_refs_same)
next
  case (10 d q)
  then show ?case by (intro acct_shrink) (simp_all add: refs_def queue_refs_same)
next
  case (11 i d p cb q)
  then show ?case by (intro acct_upd_peer) (simp add: peer_refs_def queue_refs_drops [OF 11(2)])
next
  case (12 cb d q)
  then show ?case by (intro acct_shrink) (simp_all add: refs_def queue_refs_drops [OF 12])
next
  case (13 p d i)
  then show ?case
    by (intro acct_shrink) (auto simp: refs_def om_emplace_def sum_om_set peer_refs_def acks_refs_def)
next
  case (14 d i)
  then show ?case
    using sum_om_erase [of peer_refs i "peers d"] by (intro acct_shrink) (simp_all add: refs_def)
next
  case (15 app i d p cb q result)
  show ?case
  proof (rule step_ok_settles)
    show "backed (cb_refs cb + c) (upd_peer i (\<lambda>p. p\<lparr>sq := q\<rparr>) d) \<and> done_kept d (upd_peer i (\<lambda>p. p\<lparr>sq := q\<rparr>) d)"
      if "backed c d" for c
      by (rule backed_release_peer [OF that 15(2)]) (simp add: peer_refs_def queue_refs_drops [OF 15(3)] add.assoc)
  qed (rule invoke_callback_settles [OF 15(1)])
next
  case (16 app cb d q result)
  show ?case
  proof (rule step_ok_settles)
    show "backed (cb_refs cb + c) (d\<lparr>udp_sq := q\<rparr>) \<and> done_kept d (d\<lparr>udp_sq := q\<rparr>)" if "backed c d" for c
      using that by (simp add: backed_def done_kept_def refs_def queue_refs_drops [OF 16(2)] ac_simps)
  qed (rule invoke_callback_settles [OF 16(1)])
next
  case (17 app i d p ack_id acb result dat)
  show ?case
  proof (rule step_ok_settles)
    let ?f = "\<lambda>p. p\<lparr>pending_acks := om_erase ack_id (pending_acks p)\<rparr>"
    show "backed (ack_refs acb + c) (upd_peer i ?f d) \<and> done_kept d (upd_peer i ?f d)" if "backed c d" for c
    proof (rule backed_release_peer [OF that 17(2)])
      show "ack_refs acb + peer_refs (?f p) \<subseteq># peer_refs p"
        using sum_om_erase_find [OF 17(3), of ack_refs]
        by (simp add: peer_refs_def acks_refs_def add.left_commute [of "ack_refs acb"])
    qed
  qed (rule run_ack_settles [OF 17(1)])
qed simp_all

end
