(* ===== verification/PeerQueries.thy ===== *)
theory PeerQueries
  imports PeerCalls
begin

text \<open>
  The methods of \<^verbatim>\<open>DirectPlay8Peer\<close> that only read its state (\<^verbatim>\<open>src/src/DirectPlay8Peer.cpp\<close>). Methods that
  fill a buffer of the caller return what they write, the size they report, and where the writing
  ended: \<open>extra_at\<close> is the offset of the first byte of the buffer that was not written. Sizes are those
  of the 32-bit structures, and are computed in 32 bits.
\<close>

section \<open>Structures with variable parts\<close>

definition sizeof_wchar :: dword where "sizeof_wchar = 2"
definition sizeof_DPN_GROUP_INFO :: dword where "sizeof_DPN_GROUP_INFO = 24"
definition sizeof_DPN_CAPS :: dword where "sizeof_DPN_CAPS = 20"
definition sizeof_DPN_CAPS_EX :: dword where "sizeof_DPN_CAPS_EX = 48"
definition sizeof_DPN_SP_CAPS :: dword where "sizeof_DPN_SP_CAPS = 36"
definition sizeof_DPN_SERVICE_PROVIDER_INFO :: dword where "sizeof_DPN_SERVICE_PROVIDER_INFO = 32"

text \<open>The size of a list, as \<^verbatim>\<open>size_t\<close>.\<close>

definition size_t :: "'a list \<Rightarrow> dword" where
  "size_t xs = word_of_nat (length xs)"

text \<open>A string with its terminator, at a position of the buffer: the string read back, and the position after it.\<close>

definition put_string :: "wchar list \<Rightarrow> nat \<Rightarrow> wchar list \<times> nat" where
  "put_string s at = (takeWhile (\<lambda>c. c \<noteq> 0) s, at + 2 * (length s + 1))"

definition put_data :: "byte list \<Rightarrow> nat \<Rightarrow> byte list \<times> nat" where
  "put_data dat at = (dat, at + length dat)"

record 'a filled =
  f_result :: hresult
  f_size :: dword
  f_value :: "'a option"
  f_extra_at :: nat

section \<open>The session\<close>

fun appdesc_guard :: "State \<Rightarrow> hresult option" where
  "appdesc_guard STATE_NEW = Some DPNERR_UNINITIALIZED"
| "appdesc_guard STATE_HOSTING = None"
| "appdesc_guard STATE_CONNECTED = None"
| "appdesc_guard STATE_CONNECTING_TO_HOST = Some DPNERR_CONNECTING"
| "appdesc_guard STATE_CONNECTING_TO_PEERS = Some DPNERR_CONNECTING"
| "appdesc_guard _ = Some DPNERR_NOCONNECTION"

definition appdesc_size :: "DirectPlay8Peer \<Rightarrow> dword" where
  "appdesc_size d =
     sizeof_DPN_APPLICATION_DESC + (size_t (session_name d) + 1) * sizeof_wchar
     + (size_t (password d) + (if password d \<noteq> [] then 1 else 0)) * sizeof_wchar + size_t (application_data d)"

text \<open>\<open>dwSize\<close> is the member of the caller's structure, read only when the buffer holds one.\<close>

definition GetApplicationDesc ::
  "dword \<Rightarrow> dword \<Rightarrow> DirectPlay8Peer \<Rightarrow> DPN_APPLICATION_DESC filled" where
  "GetApplicationDesc cbDataSize dwSize d =
     (case appdesc_guard (state d) of
        Some e \<Rightarrow> \<lparr>f_result = e, f_size = cbDataSize, f_value = None, f_extra_at = 0\<rparr>
      | None \<Rightarrow>
          if cbDataSize \<ge> sizeof_DPN_APPLICATION_DESC \<and> dwSize \<noteq> sizeof_DPN_APPLICATION_DESC
          then \<lparr>f_result = DPNERR_INVALIDPARAM, f_size = cbDataSize, f_value = None, f_extra_at = 0\<rparr>
          else if cbDataSize \<ge> appdesc_size d then
            (let at0 = unat sizeof_DPN_APPLICATION_DESC;
                 (name, at1) = put_string (session_name d) at0;
                 (pw, at2) = (if password d \<noteq> [] then (let (s, a) = put_string (password d) at1 in (Some s, a))
                   else (None, at1));
                 (dat, at3) = (if application_data d \<noteq> [] then (let (s, a) = put_data (application_data d) at2 in (Some s, a))
                   else (None, at2))
             in \<lparr>f_result = S_OK, f_size = cbDataSize,
                  f_value = Some \<lparr>ad_dwFlags = (if password d \<noteq> [] then DPNSESSION_REQUIREPASSWORD else 0),
                    ad_guidInstance = instance_guid d, ad_guidApplication = application_guid d,
                    ad_dwMaxPlayers = max_players d,
                    ad_dwCurrentPlayers = word_of_nat (length (player_to_peer_id d)) + 1,
                    ad_pwszSessionName = Some name, ad_pwszPassword = pw, ad_pvApplicationReservedData = dat\<rparr>,
                  f_extra_at = at3\<rparr>)
          else \<lparr>f_result = DPNERR_BUFFERTOOSMALL, f_size = appdesc_size d, f_value = None, f_extra_at = 0\<rparr>)"

section \<open>Groups and players\<close>

record info_out =
  io_flags :: dword
  io_name :: "wchar list option"
  io_data :: "byte list option"
  io_dataSize :: dword
  io_kind :: dword

definition info_size :: "dword \<Rightarrow> wchar list \<Rightarrow> byte list \<Rightarrow> dword" where
  "info_size base name dat =
     base + (if name \<noteq> [] then (size_t name + 1) * sizeof_wchar else 0) + (if dat \<noteq> [] then size_t dat else 0)"

text \<open>The part of \<^verbatim>\<open>GetGroupInfo\<close> and \<^verbatim>\<open>GetPeerInfo\<close> that writes the name and the data behind the structure.\<close>

definition put_info :: "dword \<Rightarrow> wchar list \<Rightarrow> byte list \<Rightarrow> dword \<Rightarrow> info_out \<times> nat" where
  "put_info base name dat kind =
     (let (n, at1) = (if name \<noteq> [] then (let (s, a) = put_string name (unat base) in (Some s, a)) else (None, unat base));
          (x, at2) = (if dat \<noteq> [] then (let (s, a) = put_data dat at1 in (Some s, a)) else (None, at1))
      in (\<lparr>io_flags = DPNINFO_NAME OR DPNINFO_DATA, io_name = n, io_data = x,
            io_dataSize = (if dat \<noteq> [] then size_t dat else 0), io_kind = kind\<rparr>, at2))"

definition GetGroupInfo :: "dpnid \<Rightarrow> dword \<Rightarrow> dword \<Rightarrow> DirectPlay8Peer \<Rightarrow> info_out filled" where
  "GetGroupInfo gid size_in dwSize d =
     (let fail = (\<lambda>e n. \<lparr>f_result = e, f_size = n, f_value = None, f_extra_at = 0\<rparr>) in
      if state d = STATE_NEW then fail DPNERR_UNINITIALIZED size_in
      else if state d = STATE_INITIALISED then fail DPNERR_NOCONNECTION size_in
      else case get_group_by_id gid d of
        None \<Rightarrow> fail DPNERR_INVALIDGROUP size_in
      | Some g \<Rightarrow>
          (let need = info_size sizeof_DPN_GROUP_INFO (group_name g) (group_data g) in
           if size_in < need then fail DPNERR_BUFFERTOOSMALL need
           else if dwSize \<noteq> sizeof_DPN_GROUP_INFO then fail DPNERR_INVALIDPARAM size_in
           else (let (x, at) = put_info sizeof_DPN_GROUP_INFO (group_name g) (group_data g) 0
                 in \<lparr>f_result = S_OK, f_size = size_in, f_value = Some x, f_extra_at = at\<rparr>)))"

text \<open>\<open>buf\<close> tells whether the caller passes a structure; its member \<open>dwSize\<close> is read only then.\<close>

definition GetPeerInfo :: "dpnid \<Rightarrow> bool \<Rightarrow> dword \<Rightarrow> dword \<Rightarrow> DirectPlay8Peer \<Rightarrow> info_out filled" where
  "GetPeerInfo pid buf size_in dwSize d =
     (let fail = (\<lambda>e n. \<lparr>f_result = e, f_size = n, f_value = None, f_extra_at = 0\<rparr>) in
      case (if pid = local_player_id d then Some (local_player_name d, local_player_data d)
            else map_option (\<lambda>p. (player_name p, player_data p)) (get_peer_by_player_id pid d)) of
        None \<Rightarrow> fail DPNERR_INVALIDPLAYER size_in
      | Some (name, dat) \<Rightarrow>
          (let need = sizeof_DPN_PLAYER_INFO + size_t dat + (size_t name + (if name \<noteq> [] then 1 else 0)) * sizeof_wchar in
           if buf \<and> size_in \<ge> sizeof_DPN_PLAYER_INFO \<and> dwSize \<noteq> sizeof_DPN_PLAYER_INFO then fail DPNERR_INVALIDFLAGS size_in
           else if \<not> buf \<or> size_in < need then fail DPNERR_BUFFERTOOSMALL need
           else (let kind = (if pid = local_player_id d then DPNPLAYER_LOCAL else 0)
                       OR (if pid = host_player_id d then DPNPLAYER_HOST else 0);
                     (x, at) = put_info sizeof_DPN_PLAYER_INFO name dat kind
                 in \<lparr>f_result = S_OK, f_size = size_in, f_value = Some x, f_extra_at = at\<rparr>)))"

text \<open>The identifiers written to the caller's array, and the number reported.\<close>

definition enum_ids :: "dword \<Rightarrow> DirectPlay8Peer \<Rightarrow> dpnid list" where
  "enum_ids flags d =
     (if flag_set flags DPNENUM_PLAYERS then local_player_id d # map (\<lambda>(i, p). player_id p) (connected_peers d) else [])
     @ (if flag_set flags DPNENUM_GROUPS then om_keys (groups d) else [])"

definition num_results :: "dword \<Rightarrow> DirectPlay8Peer \<Rightarrow> dword" where
  "num_results flags d =
     (if flag_set flags DPNENUM_PLAYERS then 1 + size_t (connected_peers d) else 0)
     + (if flag_set flags DPNENUM_GROUPS then size_t (groups d) else 0)"

definition EnumPlayersAndGroups ::
  "dword \<Rightarrow> dword \<Rightarrow> DirectPlay8Peer \<Rightarrow> fault + hresult \<times> dword \<times> dpnid list" where
  "EnumPlayersAndGroups cdpnid flags d =
     (case session_guard (state d) of
        Some e \<Rightarrow> Inr (e, cdpnid, [])
      | None \<Rightarrow>
          if cdpnid < num_results flags d then Inr (DPNERR_BUFFERTOOSMALL, num_results flags d, [])
          else asserting (size_t (enum_ids flags d) = num_results flags d)
            (Inr (S_OK, size_t (enum_ids flags d), enum_ids flags d)))"

fun members_guard :: "State \<Rightarrow> hresult option" where
  "members_guard STATE_NEW = Some DPNERR_UNINITIALIZED"
| "members_guard STATE_INITIALISED = Some DPNERR_NOCONNECTION"
| "members_guard STATE_CONNECT_FAILED = Some DPNERR_CONNECTIONLOST"
| "members_guard STATE_CLOSING = Some DPNERR_CONNECTIONLOST"
| "members_guard STATE_TERMINATED = Some DPNERR_CONNECTIONLOST"
| "members_guard _ = None"

definition EnumGroupMembers :: "dpnid \<Rightarrow> dword \<Rightarrow> DirectPlay8Peer \<Rightarrow> hresult \<times> dword \<times> dpnid list" where
  "EnumGroupMembers gid cdpnid d =
     (case members_guard (state d) of
        Some e \<Rightarrow> (e, cdpnid, [])
      | None \<Rightarrow>
          (case om_find gid (groups d) of
             None \<Rightarrow> (DPNERR_INVALIDGROUP, cdpnid, [])
           | Some g \<Rightarrow>
               (let ids = sorted_list_of_set (player_ids g) in
                if cdpnid < size_t ids then (DPNERR_BUFFERTOOSMALL, size_t ids, [])
                else (S_OK, size_t ids, ids))))"

section \<open>Contexts and addresses\<close>

fun player_ctx_guard :: "State \<Rightarrow> hresult option" where
  "player_ctx_guard STATE_NEW = Some DPNERR_UNINITIALIZED"
| "player_ctx_guard STATE_INITIALISED = Some DPNERR_NOTREADY"
| "player_ctx_guard STATE_CONNECTING_TO_HOST = Some DPNERR_NOTREADY"
| "player_ctx_guard STATE_CONNECTING_TO_PEERS = Some DPNERR_NOTREADY"
| "player_ctx_guard STATE_CONNECT_FAILED = Some DPNERR_NOTREADY"
| "player_ctx_guard _ = None"

definition GetPlayerContext :: "dpnid \<Rightarrow> DirectPlay8Peer \<Rightarrow> hresult + ctx" where
  "GetPlayerContext pid d =
     (case player_ctx_guard (state d) of
        Some e \<Rightarrow> Inl e
      | None \<Rightarrow>
          if pid = local_player_id d then Inr (local_player_ctx d)
          else case get_peer_by_player_id pid d of Some p \<Rightarrow> Inr (player_ctx p) | None \<Rightarrow> Inl DPNERR_INVALIDPLAYER)"

fun group_ctx_guard :: "State \<Rightarrow> hresult option" where
  "group_ctx_guard STATE_NEW = Some DPNERR_UNINITIALIZED"
| "group_ctx_guard STATE_INITIALISED = Some DPNERR_NOCONNECTION"
| "group_ctx_guard STATE_CONNECT_FAILED = Some DPNERR_CONNECTING"
| "group_ctx_guard STATE_CLOSING = Some DPNERR_CONNECTIONLOST"
| "group_ctx_guard STATE_TERMINATED = Some DPNERR_CONNECTIONLOST"
| "group_ctx_guard _ = None"

definition GetGroupContext :: "dpnid \<Rightarrow> DirectPlay8Peer \<Rightarrow> hresult + ctx" where
  "GetGroupContext gid d =
     (case group_ctx_guard (state d) of
        Some e \<Rightarrow> Inl e
      | None \<Rightarrow> (case get_group_by_id gid d of Some g \<Rightarrow> Inr (group_ctx g) | None \<Rightarrow> Inl DPNERR_INVALIDGROUP))"

definition GetPeerAddress :: "mb_conv \<Rightarrow> dpnid \<Rightarrow> DirectPlay8Peer \<Rightarrow> fault + (hresult + DirectPlay8Address)" where
  "GetPeerAddress mb pid d =
     (case get_peer_by_player_id pid d of
        None \<Rightarrow> Inr (Inl DPNERR_INVALIDPLAYER)
      | Some p \<Rightarrow>
          (case create_host_address mb None (service_provider d) \<lparr>sin_addr = ip p, sin_port = htons (port p)\<rparr> of
             None \<Rightarrow> Inl AssertFailed
           | Some (a, _) \<Rightarrow> Inr (Inr a)))"

fun local_addresses_guard :: "State \<Rightarrow> hresult option" where
  "local_addresses_guard STATE_NEW = Some DPNERR_UNINITIALIZED"
| "local_addresses_guard STATE_HOSTING = None"
| "local_addresses_guard STATE_CONNECTED = Some DPNERR_NOTHOST"
| "local_addresses_guard _ = Some DPNERR_NOCONNECTION"

text \<open>\<open>v4\<close> reads a stored address: the IPv4 address if its family is \<^verbatim>\<open>AF_INET\<close>.\<close>

definition local_addrs ::
  "(byte list \<Rightarrow> dword option) \<Rightarrow> SystemNetworkInterface list \<Rightarrow> DirectPlay8Peer \<Rightarrow> sockaddr_in list" where
  "local_addrs v4 ifs d =
     map (\<lambda>a. \<lparr>sin_addr = a, sin_port = htons (local_port d)\<rparr>)
       (List.map_filter v4 (concat (map unicast_addrs ifs)))"

definition GetLocalHostAddresses ::
  "mb_conv \<Rightarrow> (byte list \<Rightarrow> dword option) \<Rightarrow> SystemNetworkInterface list \<Rightarrow> dword \<Rightarrow> dword \<Rightarrow> DirectPlay8Peer \<Rightarrow>
     fault + hresult \<times> dword \<times> DirectPlay8Address list" where
  "GetLocalHostAddresses mb v4 ifs cAddress flags d =
     (case local_addresses_guard (state d) of
        Some e \<Rightarrow> Inr (e, cAddress, [])
      | None \<Rightarrow>
          if flag_set flags DPNGETLOCALHOSTADDRESSES_COMBINED then Inr (E_NOTIMPL, cAddress, [])
          else
            (let addrs = local_addrs v4 ifs d in
             if cAddress < size_t addrs then Inr (DPNERR_BUFFERTOOSMALL, size_t addrs, [])
             else asserting (list_all (\<lambda>a. create_host_address mb None (service_provider d) a \<noteq> None) addrs)
               (Inr (S_OK, size_t addrs,
                 map fst (List.map_filter (\<lambda>a. create_host_address mb None (service_provider d) a) addrs)))))"

section \<open>Capabilities\<close>

datatype sp_info = IP_INFO | IPX_INFO

text \<open>The structures written to the caller's buffer, the size reported, and the number returned.\<close>

definition EnumServiceProviders ::
  "guid option \<Rightarrow> dword \<Rightarrow> DirectPlay8Peer \<Rightarrow> hresult \<times> dword \<times> sp_info list" where
  "EnumServiceProviders sp cbEnumData d =
     (if state d = STATE_NEW then (DPNERR_UNINITIALIZED, cbEnumData, [])
      else case sp of
        None \<Rightarrow>
          if cbEnumData < sizeof_DPN_SERVICE_PROVIDER_INFO * 2
          then (DPNERR_BUFFERTOOSMALL, sizeof_DPN_SERVICE_PROVIDER_INFO * 2, [])
          else (S_OK, sizeof_DPN_SERVICE_PROVIDER_INFO * 2, [IPX_INFO, IP_INFO])
      | Some g \<Rightarrow>
          if g = CLSID_DP8SP_TCPIP \<or> g = CLSID_DP8SP_IPX then
            if cbEnumData < sizeof_DPN_SERVICE_PROVIDER_INFO
            then (DPNERR_BUFFERTOOSMALL, sizeof_DPN_SERVICE_PROVIDER_INFO, [])
            else (S_OK, sizeof_DPN_SERVICE_PROVIDER_INFO, [if g = CLSID_DP8SP_TCPIP then IP_INFO else IPX_INFO])
          else (DPNERR_DOESNOTEXIST, cbEnumData, []))"

text \<open>The members written after \<open>dwSize\<close>, in the order of the structure.\<close>

definition GetCaps :: "dword \<Rightarrow> DirectPlay8Peer \<Rightarrow> hresult \<times> dword list" where
  "GetCaps dwSize d =
     (if state d = STATE_NEW then (DPNERR_UNINITIALIZED, [])
      else if dwSize = sizeof_DPN_CAPS then (S_OK, [0, 200, 14, 25000])
      else if dwSize = sizeof_DPN_CAPS_EX
      then (S_OK, [0, 200, 14, 25000, 0xFFFFFFFF, 10, 5000, 7, 25, 3, 500])
      else (DPNERR_INVALIDPARAM, []))"

definition SetCaps :: "dword \<Rightarrow> DirectPlay8Peer \<Rightarrow> hresult" where
  "SetCaps dwSize d =
     (if state d = STATE_NEW then DPNERR_UNINITIALIZED
      else if dwSize = sizeof_DPN_CAPS \<or> dwSize = sizeof_DPN_CAPS_EX then S_OK
      else DPNERR_INVALIDPARAM)"

definition SetSPCaps :: "guid \<Rightarrow> dword \<Rightarrow> DirectPlay8Peer \<Rightarrow> hresult" where
  "SetSPCaps sp dwSize d =
     (if state d = STATE_NEW then DPNERR_UNINITIALIZED
      else if dwSize \<noteq> sizeof_DPN_SP_CAPS then DPNERR_INVALIDPARAM
      else if sp \<noteq> CLSID_DP8SP_TCPIP \<and> sp \<noteq> CLSID_DP8SP_IPX then DPNERR_DOESNOTEXIST
      else S_OK)"

definition GetSPCaps :: "guid \<Rightarrow> dword \<Rightarrow> DirectPlay8Peer \<Rightarrow> hresult \<times> dword list" where
  "GetSPCaps sp dwSize d =
     (let r = SetSPCaps sp dwSize d in
      (r, if r = S_OK then
            [DPNSPCAPS_SUPPORTSDPNSRV OR DPNSPCAPS_SUPPORTSBROADCAST OR DPNSPCAPS_SUPPORTSALLADAPTERS
               OR DPNSPCAPS_SUPPORTSTHREADPOOL,
             3, DEFAULT_ENUM_COUNT, DEFAULT_ENUM_INTERVAL, DEFAULT_ENUM_TIMEOUT, 983, 1, 8192]
          else []))"

text \<open>\<^verbatim>\<open>GetSendQueueInfo\<close>, \<^verbatim>\<open>SetGroupInfo\<close>, \<^verbatim>\<open>GetConnectionInfo\<close> and \<^verbatim>\<open>RegisterLobby\<close>.\<close>

definition peer_UNIMPLEMENTED :: hresult where
  "peer_UNIMPLEMENTED = E_NOTIMPL"

end
