(* ===== verification/PeerEvents.thy ===== *)
theory PeerEvents
  imports PeerOps PeerQueries
begin

text \<open>
  Everything that can happen to a peer object, as one type of events: the handlers the worker pool
  runs, the detached threads, the ends of waits, and the calls of the application. An application is
  then any function from messages to the events that happen before its handler returns, to any depth
  of nesting, and the properties below hold of every such application and every sequence of events.
\<close>

section \<open>Operations that are started\<close>

lemma om_find_fresh: "backed c d \<Longrightarrow> om_find (next_op d) (async_ops d) = None"
  by (simp add: backed_def)

lemma backed_new_op:
  assumes b: "backed c d" and new: "new_op x d = (op, d1)" and k: "int k \<le> op_pending x"
  shows "backed (replicate_mset k op + c) d1 \<and> done_kept d d1"
proof -
  have op: "op = next_op d" and d1: "d1 = d\<lparr>next_op := Suc (next_op d), async_ops := om_set (next_op d) x (async_ops d)\<rparr>"
    using new by (auto simp: new_op_def)
  have cov: "covers (async_ops d) (c + refs d)" using b by (simp add: backed_def)
  have "count (c + refs d) op = 0" unfolding op by (rule covers_None [OF cov om_find_fresh [OF b]])
  then have "covers (om_set op x (async_ops d)) (replicate_mset k op + (c + refs d))"
    by (intro coversI) (use covers_None [OF cov] covers_Some [OF cov] k in \<open>auto split: if_splits\<close>)
  then show ?thesis
    using b om_find_fresh [OF b] unfolding d1 op by (auto simp: backed_def done_kept_def refs_def add.assoc)
qed

text \<open>Queueing a packet takes over references that are covered; if the peer is gone they are lost.\<close>

lemma backed_upd_peer:
  assumes "backed (c + c') d" "\<And>p. peer_refs (f p) = peer_refs p + c'"
  shows "backed c (upd_peer i f d) \<and> done_kept d (upd_peer i f d)"
proof (cases "get_peer_by_peer_id i d")
  case None
  then show ?thesis using backed_sub [OF assms(1)] by (simp add: upd_peer_absent done_kept_refl)
next
  case (Some p)
  have wf: "om_wf (peers d)" using assms(1) by (simp add: backed_def)
  have "refs (upd_peer i f d) + peer_refs p = (refs d + c') + peer_refs p"
    using refs_upd_peer [OF wf Some, of f] assms(2) [of p] by (simp add: ac_simps)
  then have "refs (upd_peer i f d) = refs d + c'" by (simp only: add_right_cancel)
  with assms(1) show ?thesis by (simp add: backed_def upd_peer_def done_kept_def ac_simps)
qed

lemma backed_peer_send:
  assumes "backed (c + cb_refs cb) d"
  shows "backed c (peer_send i pri ps cb d) \<and> done_kept d (peer_send i pri ps cb d)"
  unfolding peer_send_def by (rule backed_upd_peer [OF assms]) (simp add: peer_refs_def)

lemma backed_frame:
  "backed c d \<Longrightarrow> refs d' = refs d \<Longrightarrow> peers d' = peers d \<Longrightarrow> async_ops d' = async_ops d \<Longrightarrow> next_op d' = next_op d \<Longrightarrow>
   backed c d' \<and> done_kept d d'"
  by (simp add: backed_def done_kept_def)

lemma backed_peer_send_async:
  assumes "backed (replicate_mset (length targets) op + c) d" "cb_refs cb = {#op#}"
  shows "backed c (fold (peer_send_async pri ps h cb) targets d) \<and> done_kept d (fold (peer_send_async pri ps h cb) targets d)"
  using assms(1)
proof (induction targets arbitrary: d)
  case (Cons i targets)
  have "backed (replicate_mset (length targets) op + c) (peer_send_async pri ps h cb i d) \<and> done_kept d (peer_send_async pri ps h cb i d)"
    unfolding peer_send_async_def
    by (rule backed_upd_peer [where c' = "{#op#}"]) (use Cons.prems assms(2) in \<open>simp_all add: peer_refs_def ac_simps\<close>)
  with Cons.IH show ?case using done_kept_trans by fastforce
qed (simp add: done_kept_refl)

text \<open>What a method does to the references that are covered.\<close>

definition settles2 :: "nat multiset \<Rightarrow> DirectPlay8Peer \<Rightarrow> fault + 'a \<times> DirectPlay8Peer \<Rightarrow> bool" where
  "settles2 c d r \<longleftrightarrow> (case r of Inl x \<Rightarrow> x \<noteq> OpFreed | Inr (a, d') \<Rightarrow> backed c d' \<and> done_kept d d')"

lemma settles2_simps [simp]:
  "settles2 c d (Inl x) \<longleftrightarrow> x \<noteq> OpFreed" "settles2 c d (Inr (a, d')) \<longleftrightarrow> backed c d' \<and> done_kept d d'"
  by (simp_all add: settles2_def)

lemma ok2_settles:
  assumes "\<And>c. backed c d \<Longrightarrow> settles2 c d r"
  shows "step2_ok acct acct_fault d r"
proof (cases r)
  case (Inl x)
  then show ?thesis using assms [of "{#}"] by (auto simp: step2_ok_def acct_fault_def balanced_def)
next
  case (Inr y)
  then show ?thesis using assms by (cases y) (simp add: step2_ok_def acct_def)
qed

lemma settles2_after: "done_kept d e \<Longrightarrow> settles2 c e r \<Longrightarrow> settles2 c d r"
  by (auto simp: settles2_def intro: done_kept_trans split: sum.splits)

lemma begin_op_backed:
  assumes "backed r d" "begin_op alloc sync c d = (op, h, d1)"
  shows "backed (add_mset op r) d1 \<and> done_kept d d1 \<and> peers d1 = peers d"
proof -
  have "\<exists>e x. new_op x e = (op, d1) \<and> op_pending x = 1 \<and> backed r e \<and> done_kept d e \<and> peers e = peers d"
  proof (cases sync)
    case True
    then show ?thesis using assms by (fastforce simp: begin_op_def done_kept_refl split: prod.splits)
  next
    case False
    obtain h' a where a: "alloc (handle_alloc d) = (h', a)" by fastforce
    have "backed r (d\<lparr>handle_alloc := a\<rparr>) \<and> done_kept d (d\<lparr>handle_alloc := a\<rparr>)"
      using assms(1) by (simp add: backed_def refs_def done_kept_def)
    then show ?thesis using assms(2) False a by (fastforce simp: begin_op_def split: prod.splits)
  qed
  then obtain e x where e: "new_op x e = (op, d1)" "op_pending x = 1" "backed r e" "done_kept d e" "peers e = peers d" by blast
  from backed_new_op [OF e(3,1), of 1] e(2) have "backed (add_mset op r) d1 \<and> done_kept e d1" by simp
  moreover have "peers d1 = peers e" using e(1) by (auto simp: new_op_def)
  ultimately show ?thesis using e(4,5) done_kept_trans by metis
qed

lemma in_session_ok2:
  "step2_ok acct acct_fault d k \<Longrightarrow> step2_ok acct acct_fault d (in_session d k)"
  by (auto simp: in_session_def step2_ok_def acct_def done_kept_refl split: option.splits)

lemma peer_refs_alloc_ack: "peer_refs (snd (alloc_ack_id p)) = peer_refs p"
  by (simp add: alloc_ack_id_def Let_def peer_refs_def)

lemma backed_ask:
  assumes "backed (add_mset op r) d" "get_peer_by_peer_id i d = Some p" "alloc_ack_id p = (a, p')" "cb_refs cb = {#op#}"
  shows "backed r (peer_send i pri ps cb (upd_peer i (\<lambda>_. p') d)) \<and> done_kept d (peer_send i pri ps cb (upd_peer i (\<lambda>_. p') d))"
proof -
  have "peer_send i pri ps cb (upd_peer i (\<lambda>_. p') d) = upd_peer i (\<lambda>_. p'\<lparr>sq := send pri ps None cb (sq p')\<rparr>) d"
    by (simp add: peer_send_def upd_peer_def comp_def)
  moreover have "refs (upd_peer i (\<lambda>_. p'\<lparr>sq := send pri ps None cb (sq p')\<rparr>) d) + peer_refs p = (refs d + {#op#}) + peer_refs p"
    using refs_upd_peer [OF backed_wf [OF assms(1)] assms(2), of "\<lambda>_. p'\<lparr>sq := send pri ps None cb (sq p')\<rparr>"]
      peer_refs_alloc_ack [of p] assms(3,4) by (simp add: peer_refs_def ac_simps)
  then have "refs (upd_peer i (\<lambda>_. p'\<lparr>sq := send pri ps None cb (sq p')\<rparr>) d) = refs d + {#op#}"
    by (simp only: add_right_cancel)
  ultimately show ?thesis
    using assms(1) by (simp add: backed_def upd_peer_def done_kept_def)
qed


section \<open>Group methods\<close>

lemma CreateGroup_ok: "step2_ok acct acct_fault d (CreateGroup info gctx actx flags d)"
  unfolding CreateGroup_def
proof (rule in_session_ok2, rule ok2_settles, goal_cases)
  case bal: (1 r)
  define sync where "sync = flag_set flags DPNCREATEGROUP_SYNC"
  obtain op h d1 where b: "begin_op new_cgroup sync actx d = (op, h, d1)" by (metis prod_cases3)
  from begin_op_backed [OF bal b] have b1: "backed (add_mset op r) d1" and k1: "done_kept d d1" by auto
  have host: "backed r (create_the_group op n dat gctx gid (d1\<lparr>next_player_id := x\<rparr>))
      \<and> done_kept d (create_the_group op n dat gctx gid (d1\<lparr>next_player_id := x\<rparr>))" for n dat gid x
  proof -
    have "backed (add_mset op r) (d1\<lparr>next_player_id := x\<rparr>) \<and> done_kept d1 (d1\<lparr>next_player_id := x\<rparr>)"
      by (rule backed_frame [OF b1]) (simp_all add: refs_def)
    then show ?thesis using create_the_group_settles [of op r "d1\<lparr>next_player_id := x\<rparr>"] done_kept_trans k1 by fastforce
  qed
  have ask: "backed r (peer_send i pri ps (CbAllocate x1 x2 op x3 x4 x5) (upd_peer i (\<lambda>_. p') d1))
      \<and> done_kept d (peer_send i pri ps (CbAllocate x1 x2 op x3 x4 x5) (upd_peer i (\<lambda>_. p') d1))"
    if "get_peer_by_peer_id i d1 = Some p" "alloc_ack_id p = (a, p')" for i p a p' pri ps x1 x2 x3 x4 x5
    using backed_ask [OF b1 that, of "CbAllocate x1 x2 op x3 x4 x5" pri ps] done_kept_trans [OF k1] by simp
  show ?case
    unfolding sync_def [symmetric]
    using bal by (auto simp: b Let_def with_peer_def done_kept_refl host ask split: option.splits prod.splits)
qed

lemma backed_notify_task:
  assumes "backed (add_mset op r) d" "task_refs t = {#op#}" "refs e = refs (notify_connected op ps d)"
    "peers e = peers (notify_connected op ps d)" "async_ops e = async_ops (notify_connected op ps d)"
    "next_op e = next_op (notify_connected op ps d)"
  shows "backed r (e\<lparr>threads := threads e @ [t]\<rparr>) \<and> done_kept d (e\<lparr>threads := threads e @ [t]\<rparr>)"
proof -
  from notify_connected_backed [OF assms(1), of ps] have n: "backed (add_mset op r) (notify_connected op ps d)"
    "done_kept d (notify_connected op ps d)" by auto
  from backed_frame [OF n(1) assms(3-6)] have e: "backed (add_mset op r) e" "done_kept (notify_connected op ps d) e" by auto
  have "backed r (e\<lparr>threads := threads e @ [t]\<rparr>)" by (rule backed_task [OF e(1) assms(2)])
  moreover have "done_kept d (e\<lparr>threads := threads e @ [t]\<rparr>)"
    using done_kept_trans [OF n(2) e(2)] by (simp add: done_kept_def)
  ultimately show ?thesis by blast
qed

lemma DestroyGroup_ok: "step2_ok acct acct_fault d (DestroyGroup gid actx flags d)"
  unfolding DestroyGroup_def
proof (rule in_session_ok2, rule ok2_settles, goal_cases)
  case bal: (1 r)
  define sync where "sync = flag_set flags DPNDESTROYGROUP_SYNC"
  obtain op h d1 where b: "begin_op new_dgroup sync actx d = (op, h, d1)" by (metis prod_cases3)
  from begin_op_backed [OF bal b] have b1: "backed (add_mset op r) d1" and k1: "done_kept d d1" by auto
  let ?d2 = "d1\<lparr>destroyed_groups := insert gid (destroyed_groups d1)\<rparr>"
  have b2: "backed (add_mset op r) ?d2" "done_kept d1 ?d2"
    using backed_frame [OF b1, of ?d2] by (simp_all add: refs_def)
  have "backed r (e\<lparr>threads := threads e @ [TaskDestroyGroup gid op]\<rparr>)
      \<and> done_kept d (e\<lparr>threads := threads e @ [TaskDestroyGroup gid op]\<rparr>)" if "e = notify_connected op ps ?d2" for e ps
    using backed_notify_task [OF b2(1), of "TaskDestroyGroup gid op" e ps] that done_kept_trans [OF done_kept_trans [OF k1 b2(2)]]
    by simp
  then show ?case
    unfolding sync_def [symmetric] using bal by (simp add: b Let_def done_kept_refl)
qed

lemma ask_remote_player_backed:
  assumes "backed (add_mset op r) d"
  shows "settles2 r d (ask_remote_player pid packet sync op h d)"
proof -
  have "backed r d" using backed_sub [of r "{#op#}" d] assms by (simp add: ac_simps)
  moreover have "backed r (peer_send i pri ps (CbAwaitAck i a op) (upd_peer i (\<lambda>_. p') d))
      \<and> done_kept d (peer_send i pri ps (CbAwaitAck i a op) (upd_peer i (\<lambda>_. p') d))"
    if "get_peer_by_peer_id i d = Some p" "alloc_ack_id p = (a, p')" for i p a p' pri ps
    using backed_ask [OF assms that, of "CbAwaitAck i a op"] by simp
  ultimately show ?thesis
    by (auto simp: ask_remote_player_def get_peer_by_player_id_def done_kept_refl split: option.splits prod.splits)
qed

text \<open>The local player joins or leaves: the peers are told, a thread tells the application.\<close>

lemma local_member_backed:
  assumes "backed (add_mset op r) d" "task_refs t = {#op#}"
  shows "backed r ((upd_group gid f (notify_connected op ps d))\<lparr>threads := threads (upd_group gid f (notify_connected op ps d)) @ [t]\<rparr>)
    \<and> done_kept d ((upd_group gid f (notify_connected op ps d))\<lparr>threads := threads (upd_group gid f (notify_connected op ps d)) @ [t]\<rparr>)"
  by (rule backed_notify_task [OF assms]) (simp_all add: upd_group_def refs_def)

lemma AddPlayerToGroup_ok: "step2_ok acct acct_fault d (AddPlayerToGroup gid pid actx flags d)"
  unfolding AddPlayerToGroup_def
proof (rule in_session_ok2, rule ok2_settles, goal_cases)
  case bal: (1 r)
  define sync where "sync = flag_set flags DPNADDPLAYERTOGROUP_SYNC"
  obtain op h d1 where b: "begin_op new_apgroup sync actx d = (op, h, d1)" by (metis prod_cases3)
  from begin_op_backed [OF bal b] have b1: "backed (add_mset op r) d1" and k1: "done_kept d d1" by auto
  note remote = settles2_after [OF k1 ask_remote_player_backed [OF b1]]
  have here: "backed r e \<and> done_kept d e"
    if "e = (upd_group gid f (notify_connected op ps d1))\<lparr>threads := threads (upd_group gid f (notify_connected op ps d1)) @ [TaskAddPlayer gid c op]\<rparr>"
    for e f ps c
    using local_member_backed [OF b1, of "TaskAddPlayer gid c op"] done_kept_trans [OF k1] that by simp
  show ?case
    unfolding sync_def [symmetric]
    using bal remote by (auto simp: b Let_def done_kept_refl here split: option.splits)
qed

lemma RemovePlayerFromGroup_ok: "step2_ok acct acct_fault d (RemovePlayerFromGroup gid pid actx flags d)"
  unfolding RemovePlayerFromGroup_def
proof (rule in_session_ok2, rule ok2_settles, goal_cases)
  case bal: (1 r)
  define sync where "sync = flag_set flags DPNREMOVEPLAYERFROMGROUP_SYNC"
  obtain op h d1 where b: "begin_op new_rpgroup sync actx d = (op, h, d1)" by (metis prod_cases3)
  from begin_op_backed [OF bal b] have b1: "backed (add_mset op r) d1" and k1: "done_kept d d1" by auto
  note remote = settles2_after [OF k1 ask_remote_player_backed [OF b1]]
  have here: "backed r e \<and> done_kept d e"
    if "e = (upd_group gid f (notify_connected op ps d1))\<lparr>threads := threads (upd_group gid f (notify_connected op ps d1)) @ [TaskRemovePlayer gid c op]\<rparr>"
    for e f ps c
    using local_member_backed [OF b1, of "TaskRemovePlayer gid c op"] done_kept_trans [OF k1] that by simp
  show ?case
    unfolding sync_def [symmetric]
    using bal remote by (auto simp: b Let_def done_kept_refl here split: option.splits)
qed

section \<open>Sending and player information\<close>

lemma send_sync_backed:
  assumes "relies acct app" "backed c d" "send_sync app payload flags targets self d = (op, d')"
  shows "backed c d' \<and> done_kept d d'"
proof -
  let ?x = "\<lparr>op_pending = int (length targets), op_sync = True, op_handle = 0, op_context = 0, op_flags = flags,
      op_result = Some S_OK\<rparr>"
  obtain d1 where n: "new_op ?x d = (op, d1)" using assms(3) by (auto simp: send_sync_def new_op_def Let_def)
  from backed_new_op [OF assms(2) n, of "length targets"]
  have b1: "backed (replicate_mset (length targets) op + c) d1" "done_kept d d1" by simp_all
  define d2 where "d2 = fold (peer_send_async (send_priority flags) (message_packet payload flags d) 0 (CbSend op)) targets d1"
  have b2: "backed c d2" "done_kept d1 d2"
    using backed_peer_send_async [OF b1(1), of "CbSend op"] by (simp_all add: d2_def)
  have d': "d' = (if self then snd (dispatch_message app (MSG_RECEIVE (local_player_id d2) (local_player_ctx d2) payload (receive_flags flags)) d2) else d2)"
    using assms(3) n by (auto simp: send_sync_def Let_def d2_def)
  show ?thesis
    using b2 relies_acct [OF assms(1) b2(1)] done_kept_trans [OF done_kept_trans [OF b1(2) b2(2)]] done_kept_trans [OF b1(2) b2(2)]
    unfolding d' by simp
qed

lemma send_unsync_backed:
  assumes "backed c d" "send_unsync payload actx flags targets self d = (h, d')"
  shows "backed c d' \<and> done_kept d d'"
proof -
  define n where "n = length targets + (if self then 1 else 0)"
  obtain h1 alloc where h: "new_send (handle_alloc d) = (h1, alloc)" by fastforce
  define x where "x = \<lparr>op_pending = (if n = 0 then 1 else int n), op_sync = False, op_handle = h1, op_context = actx,
      op_flags = flags, op_result = Some S_OK\<rparr>"
  obtain op d1 where o: "new_op x (d\<lparr>handle_alloc := alloc\<rparr>) = (op, d1)" by fastforce
  have b0: "backed c (d\<lparr>handle_alloc := alloc\<rparr>)" "done_kept d (d\<lparr>handle_alloc := alloc\<rparr>)"
    using assms(1) by (simp_all add: backed_def refs_def done_kept_def)
  let ?k = "if n = 0 then 1 else n"
  from backed_new_op [OF b0(1) o, of ?k] have b1: "backed (replicate_mset ?k op + c) d1"
    and k1: "done_kept d d1" using done_kept_trans [OF b0(2)] by (auto simp: x_def)
  define d2 where "d2 = (if n = 0 then d1\<lparr>threads := threads d1 @ [TaskSendComplete op]\<rparr> else d1)"
  have b2: "backed (replicate_mset n op + c) d2" and k2: "done_kept d1 d2"
    using b1 backed_task [of op c d1 "TaskSendComplete op"] by (auto simp: d2_def done_kept_def)
  let ?s = "if self then {#op#} + c else c"
  define d3 where "d3 = fold (peer_send_async (send_priority flags) (message_packet payload flags d) h1 (CbSend op)) targets d2"
  have "replicate_mset n op + c = replicate_mset (length targets) op + ?s" by (simp add: n_def)
  with b2 have b3: "backed ?s d3" and k3: "done_kept d2 d3"
    using backed_peer_send_async [of targets op ?s d2 "CbSend op"] by (auto simp: d3_def)
  define d4 where "d4 = (if self then queue_work (WorkReceive payload flags op) d3 else d3)"
  have "backed c d4 \<and> done_kept d3 d4"
    using b3 by (auto simp: d4_def queue_work_def backed_def refs_def done_kept_def ac_simps)
  moreover have "d' = d4"
    using assms(2) h o by (auto simp: send_unsync_def Let_def d4_def d3_def d2_def x_def n_def)
  ultimately show ?thesis using done_kept_trans k1 k2 k3 by metis
qed

lemma send_targets_fault: "send_targets dest flags d = Inl x \<Longrightarrow> x \<noteq> OpFreed"
  by (auto simp: send_targets_def group_targets_def asserting_def Let_def split: if_splits option.splits)

lemma SendTo_ok: "relies acct app \<Longrightarrow> step2_ok acct acct_fault d (SendTo app dest bufs actx flags d)"
proof (rule ok2_settles)
  fix c
  assume app: "relies acct app" and bal: "backed c d"
  show "settles2 c d (SendTo app dest bufs actx flags d)"
    using bal send_sync_backed [OF app bal] send_unsync_backed [OF bal] send_targets_fault [of dest flags d]
    by (auto simp: SendTo_def done_kept_refl ebind_def split: option.splits sum.splits prod.splits)
qed

lemma peer_refs_tell: "peer_refs (tell_peer_info op d i p) = peer_refs p + {#op#}"
  by (simp add: tell_peer_info_def alloc_ack_id_def Let_def peer_refs_def ac_simps)

lemma tell_all_backed:
  assumes "backed (replicate_mset (length (connected_peers d)) op + c) d"
  defines "d' \<equiv> d\<lparr>peers := map (\<lambda>(i, p). (i, if pstate p = PS_CONNECTED then tell_peer_info op d i p else p)) (peers d)\<rparr>"
  shows "backed c d' \<and> done_kept d d'"
proof -
  have "sum_list (map (\<lambda>(i, p). peer_refs p)
        (map (\<lambda>(i, p). (i, if pstate p = PS_CONNECTED then tell_peer_info op d i p else p)) m)) =
      sum_list (map (\<lambda>(i, p). peer_refs p) m)
      + replicate_mset (length (filter (\<lambda>(i, p). pstate p = PS_CONNECTED) m)) op" for m :: "(dword \<times> Peer) list"
    by (induction m) (auto simp: peer_refs_tell)
  then have "refs d' = refs d + replicate_mset (length (connected_peers d)) op"
    by (simp add: refs_def d'_def connected_peers_def)
  moreover have "om_wf (peers d') = om_wf (peers d)"
    by (simp add: om_wf_def om_keys_def d'_def comp_def case_prod_beta)
  ultimately show ?thesis
    using assms(1) by (simp add: backed_def done_kept_def d'_def ac_simps)
qed

lemma SetPeerInfo_ok: "relies acct app \<Longrightarrow> step2_ok acct acct_fault d (SetPeerInfo app info actx flags d)"
proof (rule ok2_settles)
  fix c
  assume app: "relies acct app" and bal: "backed c d"
  define d1 where "d1 = store_peer_info info d"
  have b1: "backed c d1" "done_kept d d1"
    using bal by (auto simp: d1_def store_peer_info_def Let_def backed_def refs_def done_kept_def)
  obtain h alloc where h: "new_pinfo (handle_alloc d1) = (h, alloc)" by fastforce
  have b1': "backed c (d1\<lparr>handle_alloc := alloc\<rparr>)" "done_kept d1 (d1\<lparr>handle_alloc := alloc\<rparr>)"
    using b1(1) by (simp_all add: backed_def refs_def done_kept_def)
  define sync where "sync = flag_set flags DPNSETPEERINFO_SYNC"
  define x where "x = \<lparr>op_pending = 1 + int (length (connected_peers d1)), op_sync = sync, op_handle = h,
      op_context = actx, op_flags = 0, op_result = Some S_OK\<rparr>"
  obtain op d2 where o: "new_op x (d1\<lparr>handle_alloc := alloc\<rparr>) = (op, d2)" by fastforce
  have "connected_peers d2 = connected_peers d1" using o by (auto simp: new_op_def connected_peers_def)
  with backed_new_op [OF b1'(1) o, of "Suc (length (connected_peers d1))"]
  have b2: "backed (replicate_mset (length (connected_peers d2)) op + add_mset op c) d2" "done_kept d1 d2"
    using done_kept_trans [OF b1'(2)] by (simp_all add: x_def)
  define d3 where "d3 = d2\<lparr>peers := map (\<lambda>(i, p). (i, if pstate p = PS_CONNECTED then tell_peer_info op d2 i p else p)) (peers d2)\<rparr>"
  from tell_all_backed [OF b2(1)] have b3: "backed (add_mset op c) d3" "done_kept d2 d3" by (simp_all add: d3_def)
  define d4 where "d4 = snd (dispatch_message app (MSG_PEER_INFO (local_player_id d2) (local_player_ctx d2)) d3)"
  from relies_acct [OF app b3(1)] have b4: "backed (add_mset op c) d4" "done_kept d3 d4" by (auto simp: d4_def)
  have k4: "done_kept d d4" using b1(2) b2(2) b3(2) b4(2) done_kept_trans by metis
  have "settles c d4 (op_finished_cb app op S_OK d4)"
    unfolding op_finished_cb_def by (rule finish_part_settles [OF app b4(1)])
  then have "settles2 c d (ebind (op_finished_cb app op S_OK d4) (\<lambda>d5.
      Inr (if sync then Blocked op else Returned DPNSUCCESS_PENDING (Some h), d5)))"
    using k4 by (auto simp: ebind_def intro: done_kept_trans split: sum.splits)
  then show "settles2 c d (SetPeerInfo app info actx flags d)"
    using b1 bal done_kept_refl
    by (simp add: SetPeerInfo_def Let_def h o [unfolded x_def sync_def] sync_def flip: d1_def d3_def d4_def)
qed

section \<open>Threads and waits\<close>

lemma settles_after: "done_kept d e \<Longrightarrow> settles c e r \<Longrightarrow> settles c d r"
  by (auto simp: settles_def intro: done_kept_trans split: sum.splits)

lemma run_task_settles:
  assumes app: "relies acct app" and b: "backed (task_refs t + c) d"
  shows "settles c d (run_task app t d)"
proof -
  note told = relies_acct [OF app]
  have fin: "settles c d (complete app op S_OK e)" if "backed (add_mset op c) e" "done_kept d e" for op e
    by (rule settles_after [OF that(2) complete_settles [OF app that(1)]])
  have grp: "backed r (upd_group gid f e) = backed r e" "done_kept d (upd_group gid f e) = done_kept d e"
    "backed r (e\<lparr>groups := gs\<rparr>) = backed r e" "done_kept d (e\<lparr>groups := gs\<rparr>) = done_kept d e" for r gid f e gs
    by (simp_all add: backed_def done_kept_def upd_group_def refs_def)
  show ?thesis
  proof (cases t)
    case (TaskSendComplete op)
    then show ?thesis using finish_part_settles [OF app] b by (simp add: handle_send_complete_def)
  next
    case (TaskDestroyGroup gid op)
    with b have "backed (add_mset op c) d" by simp
    with TaskDestroyGroup show ?thesis
      using told by (auto simp: case_prod_beta grp done_kept_refl intro!: fin split: option.splits)
  qed (use b told in \<open>auto simp: case_prod_beta grp intro!: fin\<close>)
qed

lemma run_work_settles:
  assumes app: "relies acct app" and b: "backed (work_refs w + c) d"
  shows "settles c d (run_work app w d)"
proof (cases w)
  case (WorkReceive payload flags op)
  define d1 where "d1 = snd (dispatch_message app (MSG_RECEIVE (local_player_id d) (local_player_ctx d) payload (receive_flags flags)) d)"
  from relies_acct [OF app] b WorkReceive have d1: "backed (add_mset op c) d1" "done_kept d d1" by (auto simp: d1_def)
  have "settles c d (handle_send_complete app op S_OK d1)"
    unfolding handle_send_complete_def by (rule settles_after [OF d1(2) finish_part_settles [OF app d1(1)]])
  with WorkReceive show ?thesis by (simp add: case_prod_beta d1_def)
qed

lemma handle_work_ok: "relies acct app \<Longrightarrow> step_ok acct acct_fault d (handle_work app d)"
proof (cases "work_queue d")
  case (Cons w ws)
  assume app: "relies acct app"
  show ?thesis
    unfolding handle_work_def Cons list.case
  proof (rule step_ok_settles)
    show "backed (work_refs w + c) (d\<lparr>work_queue := ws\<rparr>) \<and> done_kept d (d\<lparr>work_queue := ws\<rparr>)" if "backed c d" for c
      using that Cons by (simp add: backed_def refs_def done_kept_def ac_simps)
  qed (rule run_work_settles [OF app])
qed (simp add: handle_work_def ops.ok_simps ops.R_refl)

text \<open>The \<open>n\<close>-th detached thread gets the lock.\<close>

definition run_thread :: "app \<Rightarrow> nat \<Rightarrow> DirectPlay8Peer \<Rightarrow> fault + DirectPlay8Peer" where
  "run_thread app n d =
     (if n < length (threads d)
      then run_task app (threads d ! n) (d\<lparr>threads := take n (threads d) @ drop (Suc n) (threads d)\<rparr>)
      else Inr d)"

lemma run_thread_ok: "relies acct app \<Longrightarrow> step_ok acct acct_fault d (run_thread app n d)"
proof (cases "n < length (threads d)")
  case True
  assume app: "relies acct app"
  let ?d = "d\<lparr>threads := take n (threads d) @ drop (Suc n) (threads d)\<rparr>"
  have "sum_list (map task_refs (threads d)) = task_refs (threads d ! n) + sum_list (map task_refs (threads ?d))"
    by (subst id_take_nth_drop [OF True]) (simp add: ac_simps)
  then have r: "refs d = task_refs (threads d ! n) + refs ?d" by (simp add: refs_def ac_simps)
  have "step_ok acct acct_fault d (run_task app (threads d ! n) ?d)"
  proof (rule step_ok_settles)
    show "backed (task_refs (threads d ! n) + c) ?d \<and> done_kept d ?d" if "backed c d" for c
    proof -
      have "covers (async_ops d) (c + refs d)" using that by (simp add: backed_def)
      then have "covers (async_ops d) (task_refs (threads d ! n) + c + refs ?d)"
        unfolding r by (simp only: ac_simps)
      with that show ?thesis by (simp add: backed_def done_kept_def)
    qed
  qed (rule run_task_settles [OF app])
  with True show ?thesis by (simp add: run_thread_def)
qed (simp add: run_thread_def ops.ok_simps ops.R_refl)

text \<open>A thread that waits for a synchronous operation returns.\<close>

definition wake_sync :: "nat \<Rightarrow> DirectPlay8Peer \<Rightarrow> DirectPlay8Peer" where
  "wake_sync op d =
     (case om_find op (async_ops d) of
        None \<Rightarrow> d
      | Some x \<Rightarrow> if op_sync x then (case sync_wake op d of None \<Rightarrow> d | Some (r, d1) \<Rightarrow> d1) else d)"

lemma wake_sync_acct: "acct d (wake_sync op d)"
proof (cases "om_find op (async_ops d)")
  case (Some x)
  have "backed c (d\<lparr>async_ops := om_erase op (async_ops d)\<rparr>) \<and> done_kept d (d\<lparr>async_ops := om_erase op (async_ops d)\<rparr>)"
    if "backed c d" "op_pending x = 0" "op_sync x" for c
    using backed_erase [OF that(1) Some that(2)] that(3) Some by (auto simp: done_kept_def)
  then show ?thesis using Some by (simp add: wake_sync_def sync_wake_def acct_def done_kept_refl)
qed (simp add: wake_sync_def ops.R_refl)

section \<open>Everything that happens\<close>

datatype api_call =
  CallInitialize bool HANDLE HANDLE HANDLE
| CallHost host_env dword DPN_APPLICATION_DESC "DirectPlay8Address list" ctx
| CallConnect connect_env DPN_APPLICATION_DESC DirectPlay8Address "byte list" ctx ctx dword
| CallSendTo dpnid "byte list list" ctx dword
| CallSetPeerInfo DPN_PLAYER_INFO ctx dword
| CallSetApplicationDesc DPN_APPLICATION_DESC
| CallEnumHosts enum_env enum_args dword
| CallCancelAsyncOperation dpnhandle dword
| CallDestroyPeer dpnid "byte list"
| CallTerminateSession "byte list"

datatype group_call =
  CallCreateGroup "DPN_GROUP_INFO option" ctx ctx dword
| CallDestroyGroup dpnid ctx dword
| CallAddPlayerToGroup dpnid dpnid ctx dword
| CallRemovePlayerFromGroup dpnid dpnid ctx dword

text \<open>The steps of \<^verbatim>\<open>Close\<close>, and what ends waits.\<close>

datatype wait_step =
  CloseBegin dword
| CloseGroups bool
| CloseEnd
| EnumCompleted dpnhandle ctx hresult
| EnumReturned nat
| WakeSync nat

datatype peer_event =
  EvCall api_call
| EvGroup group_call
| EvWait wait_step
| EvPeerSocket "nat \<Rightarrow> conn_env" bool int bool bool "send_result list" "recv_result list" dword
| EvUdpSocket "(byte list \<times> sockaddr_in) option" "sendto_result list"
| EvOtherSocket conn_env "(byte list \<times> sockaddr_in) option" "(nat \<times> sockaddr_in) option" bool
| EvWork
| EvThread nat

definition state_of :: "fault + 'a \<times> DirectPlay8Peer \<Rightarrow> fault + DirectPlay8Peer" where
  "state_of r = ebind r (\<lambda>(a, d). Inr d)"

fun run_call :: "app \<Rightarrow> nat \<Rightarrow> api_call \<Rightarrow> DirectPlay8Peer \<Rightarrow> fault + DirectPlay8Peer" where
  "run_call app fuel (CallInitialize wsa a b c) d = Inr (snd (Initialize wsa a b c d))"
| "run_call app fuel (CallHost he sz ad devs c) d = state_of (Host app he sz ad devs c d)"
| "run_call app fuel (CallConnect cn ad host dat pctx actx flags) d = state_of (Connect cn ad host dat pctx actx flags d)"
| "run_call app fuel (CallSendTo dest bufs actx flags) d = state_of (SendTo app dest bufs actx flags d)"
| "run_call app fuel (CallSetPeerInfo info actx flags) d = state_of (SetPeerInfo app info actx flags d)"
| "run_call app fuel (CallSetApplicationDesc ad) d = state_of (SetApplicationDesc app ad d)"
| "run_call app fuel (CallEnumHosts en ea flags) d = state_of (EnumHosts en ea flags d)"
| "run_call app fuel (CallCancelAsyncOperation h flags) d = state_of (CancelAsyncOperation app fuel h flags d)"
| "run_call app fuel (CallDestroyPeer pid dat) d = state_of (DestroyPeer app fuel pid dat d)"
| "run_call app fuel (CallTerminateSession dat) d = state_of (TerminateSession app fuel dat d)"

fun run_group_call :: "group_call \<Rightarrow> DirectPlay8Peer \<Rightarrow> fault + DirectPlay8Peer" where
  "run_group_call (CallCreateGroup info gctx actx flags) d = state_of (CreateGroup info gctx actx flags d)"
| "run_group_call (CallDestroyGroup gid actx flags) d = state_of (DestroyGroup gid actx flags d)"
| "run_group_call (CallAddPlayerToGroup gid pid actx flags) d = state_of (AddPlayerToGroup gid pid actx flags d)"
| "run_group_call (CallRemovePlayerFromGroup gid pid actx flags) d = state_of (RemovePlayerFromGroup gid pid actx flags d)"

fun run_wait :: "app \<Rightarrow> nat \<Rightarrow> wait_step \<Rightarrow> DirectPlay8Peer \<Rightarrow> fault + DirectPlay8Peer" where
  "run_wait app fuel (CloseBegin flags) d = state_of (Close_begin app fuel flags d)"
| "run_wait app fuel (CloseGroups was) d = Close_groups app fuel was d"
| "run_wait app fuel CloseEnd d = Inr (Close_end d)"
| "run_wait app fuel (EnumCompleted h c r) d = Inr (enum_completed app h c r d)"
| "run_wait app fuel (EnumReturned n) d = Inr (enum_returned n d)"
| "run_wait app fuel (WakeSync op) d = Inr (wake_sync op d)"

fun run_event :: "mb_conv \<Rightarrow> app \<Rightarrow> nat \<Rightarrow> peer_event \<Rightarrow> DirectPlay8Peer \<Rightarrow> fault + DirectPlay8Peer" where
  "run_event mb app fuel (EvCall c) d = run_call app fuel c d"
| "run_event mb app fuel (EvGroup c) d = run_group_call c d"
| "run_event mb app fuel (EvWait w) d = run_wait app fuel w d"
| "run_event mb app fuel (EvPeerSocket env got err shut sel tx rs i) d =
     io_peer_triggered mb app fuel env got err shut sel tx rs i d"
| "run_event mb app fuel (EvUdpSocket rx tx) d = handle_udp_socket_event mb app rx tx d"
| "run_event mb app fuel (EvOtherSocket ce rx acc nb) d = handle_other_socket_event mb app ce rx acc nb d"
| "run_event mb app fuel EvWork d = handle_work app d"
| "run_event mb app fuel (EvThread n) d = run_thread app n d"

lemma state_of_ok: "step2_ok R F d r \<Longrightarrow> step_ok R F d (state_of r)"
  by (auto simp: state_of_def step_ok_def step2_ok_def ebind_def split: sum.splits)

lemmas method_ok =
  ops.Host_ok ops.Connect_ok ops.SetApplicationDesc_ok ops.EnumHosts_ok ops.CancelAsyncOperation_ok ops.DestroyPeer_ok
  ops.TerminateSession_ok ops.Close_begin_ok CreateGroup_ok DestroyGroup_ok AddPlayerToGroup_ok RemovePlayerFromGroup_ok
  SendTo_ok SetPeerInfo_ok

lemmas handler_ok =
  ops.io_peer_triggered_ok ops.handle_udp_socket_event_ok ops.handle_other_socket_event_ok ops.Close_groups_ok
  handle_work_ok run_thread_ok

lemmas transition_acct =
  ops.Initialize_R ops.enum_completed_R ops.enum_returned_R ops.Close_end_R wake_sync_acct

lemma run_call_ok: "relies acct app \<Longrightarrow> step_ok acct acct_fault d (run_call app fuel c d)"
  by (cases c) (simp_all add: state_of_ok method_ok ops.ok_simps transition_acct)

lemma run_group_call_ok: "step_ok acct acct_fault d (run_group_call c d)"
  by (cases c) (simp_all add: state_of_ok method_ok)

lemma run_wait_ok: "relies acct app \<Longrightarrow> step_ok acct acct_fault d (run_wait app fuel w d)"
  by (cases w) (simp_all add: state_of_ok method_ok handler_ok ops.ok_simps transition_acct)

lemma run_event_ok: "relies acct app \<Longrightarrow> step_ok acct acct_fault d (run_event mb app fuel ev d)"
  by (cases ev) (simp_all add: run_call_ok run_group_call_ok run_wait_ok handler_ok)

text \<open>
  What can happen: events one after the other, where each event may run the application's handler,
  during which, the lock being released, further things happen.
\<close>

inductive happens :: "mb_conv \<Rightarrow> DirectPlay8Peer \<Rightarrow> DirectPlay8Peer \<Rightarrow> bool" for mb where
  nothing: "happens mb d d"
| event: "happens mb d e \<Longrightarrow> (\<And>m x. happens mb x (snd (app m x))) \<Longrightarrow> run_event mb app fuel ev e = Inr f \<Longrightarrow>
    happens mb d f"

lemma happens_relation:
  assumes step: "\<And>app d fuel ev. relies R app \<Longrightarrow> step_ok R F d (run_event mb app fuel ev d)"
    and refl: "\<And>d. R d d" and trans: "\<And>d e f. R d e \<Longrightarrow> R e f \<Longrightarrow> R d f" and core: "\<And>d d'. core d' = core d \<Longrightarrow> R d d'"
  shows "happens mb d d' \<Longrightarrow> R d d'"
proof (induction rule: happens.induct)
  case (event d e app fuel ev f)
  have "R x (x\<lparr>delivered := ms\<rparr>)" for x ms by (rule core) (simp add: core_def)
  then have "relies R app" using event.IH(2) trans unfolding relies_def dispatch_message_def by blast
  from step [OF this, of e fuel ev] event.hyps have "R e f" by (simp add: step_ok_def)
  with event.IH(1) show ?case by (rule trans)
qed (rule refl)

lemma happens_acct: "happens mb d d' \<Longrightarrow> acct d d'"
  using happens_relation [of acct acct_fault mb d d'] run_event_ok ops.R_refl ops.R_trans ops.R_core by blast

lemma happens_relies:
  assumes "\<And>m x. happens mb x (snd (app m x))"
  shows "relies acct app"
proof -
  have "acct x (x\<lparr>delivered := ms\<rparr>)" for x ms by (rule ops.R_core) (simp add: core_def)
  then show ?thesis using happens_acct [OF assms] ops.R_trans unfolding relies_def dispatch_message_def by blast
qed

lemma balanced_new: "balanced (new_DirectPlay8Peer mem)"
  by (simp add: balanced_def backed_def new_DirectPlay8Peer_def refs_def covers_def)

text \<open>
  C1: Along every sequence of events of a new object (method calls, socket events, detached threads,
  work items, returns from waits), with every application whose handler itself lets any events happen,
  to any depth, the counter of every asynchronous or synchronous operation covers the queued sends,
  acknowledgements, threads and work items that will still use its variables, and no event finds them freed.
\<close>

theorem operations_not_freed_early:
  assumes "happens mb (new_DirectPlay8Peer mem) d" "\<And>m x. happens mb x (snd (app m x))"
  shows "balanced d \<and> run_event mb app fuel ev d \<noteq> Inl OpFreed"
proof -
  have "balanced d"
    using happens_acct [OF assms(1)] balanced_new [of mem] by (simp add: acct_def balanced_def)
  with run_event_ok [OF happens_relies [where app = app, OF assms(2)], of d mb fuel ev] show ?thesis
    by (auto simp: step_ok_def acct_fault_def split: sum.splits)
qed

fun run_events :: "mb_conv \<Rightarrow> app \<Rightarrow> nat \<Rightarrow> peer_event list \<Rightarrow> DirectPlay8Peer \<Rightarrow> fault + DirectPlay8Peer" where
  "run_events mb app fuel [] d = Inr d"
| "run_events mb app fuel (ev # evs) d = ebind (run_event mb app fuel ev d) (run_events mb app fuel evs)"

lemma silent_happens: "happens mb x (snd (silent m x))"
  by (simp add: silent_def happens.nothing)

lemma happens_run_events:
  "run_events mb silent fuel evs d = Inr e \<Longrightarrow> happens mb c d \<Longrightarrow> happens mb c e"
proof (induction evs arbitrary: d)
  case (Cons ev evs)
  then obtain d1 where "run_event mb silent fuel ev d = Inr d1" "run_events mb silent fuel evs d1 = Inr e"
    by (auto simp: ebind_def split: sum.splits)
  with Cons show ?case using happens.event [where app = silent, OF Cons.prems(2) silent_happens] by blast
qed simp

text \<open>A peer that hosts a session and creates a group.\<close>

definition demo_os :: net_os where
  "demo_os = \<lparr>os_socket = (\<lambda>t. Some 7), os_call = (\<lambda>s c. True)\<rparr>"

definition demo_events :: "peer_event list" where
  "demo_events =
     [EvCall (CallInitialize True 1 2 3),
      EvCall (CallHost \<lparr>he_ports = \<lambda>p. demo_os, he_guid = (S_OK, 5), he_select = True, he_discovery = demo_os,
          he_select_discovery = True\<rparr> 72
        \<lparr>ad_dwFlags = 0, ad_guidInstance = 0, ad_guidApplication = 9, ad_dwMaxPlayers = 0, ad_dwCurrentPlayers = 0,
         ad_pwszSessionName = Some [], ad_pwszPassword = None, ad_pvApplicationReservedData = None\<rparr>
        [\<lparr>local_refcount = 1, components = [GUIDComponent DPNA_KEY_PROVIDER CLSID_DP8SP_TCPIP], user_data = []\<rparr>] 4),
      EvGroup (CallCreateGroup (Some \<lparr>gi_dwInfoFlags = 0, gi_pwszName = [], gi_pvData = [], gi_dwGroupFlags = 0\<rparr>) 6 8 0)]"

lemma demo_device:
  "host_devices [\<lparr>local_refcount = 1, components = [GUIDComponent DPNA_KEY_PROVIDER CLSID_DP8SP_TCPIP], user_data = []\<rparr>]
     GUID_NULL 0 = Inr (CLSID_DP8SP_TCPIP, 0)"
  by (simp add: GetSP_def guid_component_def GetComponentByName_def fill_buffer_def GUID_NULL_def)

lemma host_ports_Cons: "\<exists>ps. host_ports = 49152 # ps"
proof -
  have "m < n \<Longrightarrow> \<exists>ps. map word_of_nat [m ..< n] = word_of_nat m # ps" for m n :: nat
    by (simp add: upt_conv_Cons)
  from this [of AUTO_PORT_MIN "AUTO_PORT_MAX + 1"] show ?thesis
    unfolding host_ports_def by (simp add: AUTO_PORT_MIN_def AUTO_PORT_MAX_def del: upt_rec_numeral)
qed

lemma demo_opens:
  "open_ports (\<lambda>p. demo_os) a host_ports d =
     (True, d\<lparr>udp_socket := Some 7, listener_socket := Some 7, local_ip := a, local_port := 49152\<rparr>)"
proof -
  obtain ps where "host_ports = 49152 # ps" using host_ports_Cons by blast
  then show ?thesis
    unfolding \<open>host_ports = 49152 # ps\<close>
    by (simp add: demo_os_def create_udp_socket_def create_listener_socket_def Let_def)
qed

lemma demo_discovery: "snd (create_discovery_socket demo_os) = Some 7"
  by (simp add: demo_os_def create_discovery_socket_def Let_def)

lemma demo_hosts:
  assumes "state d = STATE_INITIALISED"
  shows "\<exists>e. run_event mb silent 5 (demo_events ! 1) d = Inr e \<and> state e = STATE_HOSTING \<and> local_player_id e = host_player_id e
    \<and> threads e = threads d \<and> next_op e = next_op d \<and> next_player_id e = 2"
  using assms
  by (simp add: demo_events_def Host_def demo_device demo_opens Let_def flag_set_def desc_password_def
    desc_data_def sizeof_DPN_APPLICATION_DESC_def demo_discovery host_start_def dispatch_create_player_def
    state_of_def quiet_dispatch case_prod_beta del: host_devices.simps open_ports.simps)


lemma demo_creates:
  assumes "state d = STATE_HOSTING" "local_player_id d = host_player_id d" "threads d = []" "next_op d = 0" "next_player_id d = 2"
  shows "\<exists>e. run_event mb silent 5 (demo_events ! 2) d = Inr e \<and> threads e = [TaskCreateGroup 2 6 0]"
  using assms
  by (simp add: demo_events_def CreateGroup_def in_session_def flag_set_def begin_op_def new_op_def Let_def
    create_the_group_def notify_connected_def send_to_connected_def upd_op_def state_of_def case_prod_beta)

lemma demo_runs:
  "\<exists>e. run_events mb silent 5 demo_events (new_DirectPlay8Peer zeroed_memory) = Inr e \<and> threads e = [TaskCreateGroup 2 6 0]"
proof -
  let ?d = "new_DirectPlay8Peer zeroed_memory"
  obtain d1 where d1: "run_event mb silent 5 (demo_events ! 0) ?d = Inr d1" "state d1 = STATE_INITIALISED"
    "threads d1 = []" "next_op d1 = 0"
    by (simp add: demo_events_def Initialize_def new_DirectPlay8Peer_def)
  from demo_hosts [OF d1(2), of mb] obtain d2 where d2: "run_event mb silent 5 (demo_events ! 1) d1 = Inr d2"
    "state d2 = STATE_HOSTING" "local_player_id d2 = host_player_id d2" "threads d2 = []" "next_op d2 = 0" "next_player_id d2 = 2"
    using d1 by auto
  from demo_creates [OF d2(2-6), of mb] obtain e where e: "run_event mb silent 5 (demo_events ! 2) d2 = Inr e"
    "threads e = [TaskCreateGroup 2 6 0]" by blast
  have "run_events mb silent 5 [demo_events ! 0, demo_events ! 1, demo_events ! 2] ?d = Inr e"
    by (simp only: run_events.simps d1(1) d2(1) e(1) ebind_simps)
  with e(2) show ?thesis by (simp add: demo_events_def)
qed

theorem operations_not_freed_early_witness:
  "\<exists>e. run_events (\<lambda>_ _. []) silent 5 demo_events (new_DirectPlay8Peer zeroed_memory) = Inr e
     \<and> threads e = [TaskCreateGroup 2 6 0] \<and> balanced e \<and> run_event (\<lambda>_ _. []) silent 5 (EvThread 0) e \<noteq> Inl OpFreed"
  using demo_runs [of "\<lambda>_ _. []"]
    operations_not_freed_early [of "\<lambda>_ _. []" zeroed_memory _ silent 5 "EvThread 0", OF happens_run_events [OF _ happens.nothing] silent_happens]
  by blast

end
