(* ===== verification/PeerPackets.thy ===== *)
theory PeerPackets
  imports PeerEvents
begin

text \<open>
  What a peer sends. Every packet in a send queue is the serialisation of a message with the layout
  that \<^verbatim>\<open>src/src/Messages.hpp\<close> documents for its identifier, except that the two replies which list
  players and groups announce numbers that need not be those of the lists. The second interpretation of
  \<open>peer_relation\<close> carries this over every loop and handler.
\<close>

section \<open>Layouts\<close>

text \<open>The two replies, whatever numbers they announce.\<close>

definition listing_reply :: "dword \<Rightarrow> field list \<Rightarrow> bool" where
  "listing_reply t fs \<longleftrightarrow>
     t = DPLITE_MSGID_CONNECT_HOST_OK \<and>
       (\<exists>g a b n xs r nm x mp sn pw y k gs. 3 dvd length xs \<and> (r = FNull \<or> is_FData r) \<and>
          fs = [FGuid g, FDword a, FDword b, FDword n] @ map FDword xs
            @ [r, FWstring nm, FData x, FDword mp, FWstring sn, FWstring pw, FData y, FDword k] @ map FDword gs) \<or>
     t = DPLITE_MSGID_CONNECT_PEER_OK \<and> (\<exists>nm x k gs. fs = [FWstring nm, FData x, FDword k] @ map FDword gs)"

definition packet_ok :: "sbuf \<Rightarrow> bool" where
  "packet_ok ps \<longleftrightarrow> (\<exists>t fs. ps = serialise t fs \<and> (well_formed_msg t fs \<or> listing_reply t fs))"

definition data_ok :: "byte list \<Rightarrow> bool" where
  "data_ok bs \<longleftrightarrow> (\<exists>ps. packet_ok ps \<and> bs = fst (raw_packet ps))"

definition queue_ok :: "send_cb SendQueue \<Rightarrow> bool" where
  "queue_ok q \<longleftrightarrow> (\<forall>op \<in> set (contents q). data_ok (op_data op))"

definition packets_ok :: "DirectPlay8Peer \<Rightarrow> bool" where
  "packets_ok d \<longleftrightarrow> (\<forall>(i, p) \<in> set (peers d). queue_ok (sq p)) \<and> queue_ok (udp_sq d)"

definition keeps_packets :: "DirectPlay8Peer \<Rightarrow> DirectPlay8Peer \<Rightarrow> bool" where
  "keeps_packets d d' \<longleftrightarrow> (packets_ok d \<longrightarrow> packets_ok d')"

section \<open>Queues\<close>

lemma queue_ok_new [simp]: "queue_ok new_SendQueue"
  by (simp add: queue_ok_def new_SendQueue_def contents_def queued_def)

lemma set_contents_send_async:
  "set (contents (send_async pri ps a h cb q)) =
     insert (new_SendOp (fst (raw_packet ps)) a (case a of None \<Rightarrow> 0 | Some _ \<Rightarrow> sizeof_sockaddr_in) h cb) (set (contents q))"
  using mset_contents_send_async [of pri ps a h cb q] by (metis set_mset_add_mset_insert set_mset_mset)

lemma queue_ok_send_async [simp]: "packet_ok ps \<Longrightarrow> queue_ok q \<Longrightarrow> queue_ok (send_async pri ps a h cb q)"
  by (auto simp: queue_ok_def set_contents_send_async new_SendOp_def data_ok_def)

lemma queue_ok_send [simp]: "packet_ok ps \<Longrightarrow> queue_ok q \<Longrightarrow> queue_ok (send pri ps a cb q)"
  by (simp add: send_def)

lemma queue_ok_fewer: "op_data ` set (contents q') \<subseteq> op_data ` set (contents q) \<Longrightarrow> queue_ok q \<Longrightarrow> queue_ok q'"
  unfolding queue_ok_def by (metis image_iff image_subset_iff)

lemma queue_ok_drops: "drops_one cb q q' \<Longrightarrow> queue_ok q \<Longrightarrow> queue_ok q'"
  by (rule queue_ok_fewer) (simp_all add: drops_one_def)

lemma queue_ok_same: "same_ops q q' \<Longrightarrow> queue_ok q \<Longrightarrow> queue_ok q'"
  by (rule queue_ok_fewer) (simp_all add: same_ops_def)

section \<open>States\<close>

lemma packets_ok_frame: "peers d' = peers d \<Longrightarrow> udp_sq d' = udp_sq d \<Longrightarrow> packets_ok d' = packets_ok d"
  by (simp add: packets_ok_def)

lemma packets_ok_find: "packets_ok d \<Longrightarrow> get_peer_by_peer_id i d = Some p \<Longrightarrow> queue_ok (sq p)"
  unfolding packets_ok_def get_peer_by_peer_id_def by (auto dest: om_find_Some_mem)

lemma packets_ok_upd_peer:
  "packets_ok d \<Longrightarrow> (\<And>p. queue_ok (sq p) \<Longrightarrow> queue_ok (sq (f p))) \<Longrightarrow> packets_ok (upd_peer i f d)"
  "packets_ok d \<Longrightarrow> queue_ok (sq p) \<Longrightarrow> packets_ok (upd_peer i (\<lambda>_. p) d)"
  "packets_ok d \<Longrightarrow> queue_ok q \<Longrightarrow> packets_ok (upd_peer i (\<lambda>p. p\<lparr>sq := q\<rparr>) d)"
  by (auto simp: packets_ok_def upd_peer_def om_update_def split: if_splits)

lemma packets_ok_map:
  "packets_ok d \<Longrightarrow> (\<And>i p. queue_ok (sq p) \<Longrightarrow> queue_ok (sq (f i p))) \<Longrightarrow>
   packets_ok (d\<lparr>peers := map (\<lambda>(i, p). (i, f i p)) (peers d)\<rparr>)"
  by (auto simp: packets_ok_def)

lemma packets_ok_send_to_connected: "packet_ok ps \<Longrightarrow> packets_ok d \<Longrightarrow> packets_ok (send_to_connected pri ps cb d)"
  unfolding send_to_connected_def by (rule packets_ok_map) simp_all

lemma packets_ok_peer_send: "packet_ok ps \<Longrightarrow> packets_ok d \<Longrightarrow> packets_ok (peer_send i pri ps cb d)"
  unfolding peer_send_def by (rule packets_ok_upd_peer(1)) simp_all

lemma packets_ok_core: "core d' = core d \<Longrightarrow> packets_ok d' = packets_ok d"
proof -
  assume c: "core d' = core d"
  have "packets_ok e \<longleftrightarrow> (\<forall>(i, q, a) \<in> set (fst (core e)). queue_ok q) \<and> queue_ok (fst (snd (core e)))" for e
    by (auto simp: packets_ok_def core_def)
  with c show ?thesis by simp
qed

text \<open>A result whose packets are fine if those of the state it came from were.\<close>

definition sound :: "fault + DirectPlay8Peer \<Rightarrow> bool" where
  "sound r \<longleftrightarrow> (case r of Inl x \<Rightarrow> True | Inr d \<Rightarrow> packets_ok d)"

lemma sound_simps [simp]: "sound (Inl x)" "sound (Inr d) \<longleftrightarrow> packets_ok d"
  by (simp_all add: sound_def)

lemma sound_step: "(packets_ok d \<Longrightarrow> sound r) \<Longrightarrow> step_ok keeps_packets (\<lambda>_ _. True) d r"
  by (cases r) (auto simp: step_ok_def keeps_packets_def)

lemma relies_packets: "relies keeps_packets app \<Longrightarrow> packets_ok d \<Longrightarrow> packets_ok (snd (dispatch_message app m d))"
  by (simp add: relies_def keeps_packets_def)

lemma packets_ok_frames [simp]:
  "packets_ok (upd_op op f d) = packets_ok d"
  "packets_ok (upd_group gid g d) = packets_ok d"
  "packets_ok (d\<lparr>async_ops := a\<rparr>) = packets_ok d"
  "packets_ok (d\<lparr>threads := t\<rparr>) = packets_ok d"
  "packets_ok (d\<lparr>groups := gs\<rparr>) = packets_ok d"
  "packets_ok (d\<lparr>work_queue := w\<rparr>) = packets_ok d"
  "packets_ok (d\<lparr>handle_alloc := h\<rparr>) = packets_ok d"
  "packets_ok (d\<lparr>next_player_id := n\<rparr>) = packets_ok d"
  "packets_ok (d\<lparr>destroyed_groups := dg\<rparr>) = packets_ok d"
  by (simp_all add: packets_ok_def upd_op_def upd_group_def)

lemma complete_sound: "relies keeps_packets app \<Longrightarrow> packets_ok d \<Longrightarrow> sound (complete app op result d)"
  using relies_packets [of app "upd_op op (\<lambda>x. x\<lparr>op_pending := op_pending x - 1\<rparr>) d"]
  by (auto simp: complete_def Let_def case_prod_beta split: option.splits)

lemma finish_part_sound: "relies keeps_packets app \<Longrightarrow> packets_ok d \<Longrightarrow> sound (finish_part app msg op result d)"
  using relies_packets [of app]
  by (auto simp: finish_part_def Let_def split: option.splits)

lemma packet_okI: "well_formed_msg t fs \<Longrightarrow> packet_ok (serialise t fs)"
  by (auto simp: packet_ok_def)

lemma packet_ok_packets [simp]:
  "packet_ok (group_destroy_packet gid)" "packet_ok (group_create_packet gid n dat)" "packet_ok (group_joined_packet gid g)"
  "packet_ok (group_left_packet gid)" "packet_ok (group_join_packet gid a g)" "packet_ok (group_leave_packet gid a)"
  "packet_ok (group_allocate_packet a)"
  using packet_okI [of DPLITE_MSGID_GROUP_DESTROY "[FDword gid]"]
    packet_okI [of DPLITE_MSGID_GROUP_CREATE "[FDword gid, FWstring n, FData dat]"]
    packet_okI [of DPLITE_MSGID_GROUP_JOINED "[FDword gid, FWstring (group_name g), FData (group_data g)]"]
    packet_okI [of DPLITE_MSGID_GROUP_LEFT "[FDword gid]"]
    packet_okI [of DPLITE_MSGID_GROUP_JOIN "[FDword gid, FDword a, FWstring (group_name g), FData (group_data g)]"]
    packet_okI [of DPLITE_MSGID_GROUP_LEAVE "[FDword gid, FDword a]"]
    packet_okI [of DPLITE_MSGID_GROUP_ALLOCATE "[FDword a]"]
  by (simp_all add: well_formed_msg_def msgid_defs serialise_def group_destroy_packet_def
      group_create_packet_def group_joined_packet_def group_left_packet_def group_join_packet_def
      group_leave_packet_def group_allocate_packet_def)

lemma notify_connected_packets: "packet_ok ps \<Longrightarrow> packets_ok d \<Longrightarrow> packets_ok (notify_connected op ps d)"
  by (simp add: notify_connected_def packets_ok_send_to_connected)

lemma create_the_group_packets: "packets_ok d \<Longrightarrow> packets_ok (create_the_group op n dat c gid d)"
  by (simp add: create_the_group_def Let_def notify_connected_packets)

lemma register_peer_ack_sound: "packets_ok d \<Longrightarrow> sound (register_peer_ack i a cb d)"
  using packets_ok_find [of d i]
  by (auto simp: register_peer_ack_def with_peer_def register_ack_def asserting_def
      intro!: packets_ok_upd_peer(2) split: option.splits)

lemma run_ack_sound: "relies keeps_packets app \<Longrightarrow> packets_ok d \<Longrightarrow> sound (run_ack app cb result dat d)"
  by (cases cb) (simp_all add: complete_sound create_the_group_packets op_finished_cb_def finish_part_sound)

lemma invoke_callback_sound: "relies keeps_packets app \<Longrightarrow> packets_ok d \<Longrightarrow> sound (invoke_callback app cb result d)"
  by (cases cb)
    (simp_all add: complete_sound register_peer_ack_sound op_finished_cb_def handle_send_complete_def finish_part_sound
      split: option.splits)

lemma host_ok_packet: "packet_ok (serialise DPLITE_MSGID_CONNECT_HOST_OK (host_ok_fields i pid reply d))"
proof -
  define m where "m = filter (\<lambda>(j, p). j \<noteq> i \<and> pstate p = PS_CONNECTED) (peers d)"
  define xs where "xs = concat (map (\<lambda>(j, p). [player_id p, ip p, ucast (port p)]) m)"
  have "other_peer_fields i d = map FDword xs"
    unfolding other_peer_fields_def xs_def m_def [symmetric] by (induction m) auto
  moreover have "length xs = 3 * length m" unfolding xs_def by (induction m) auto
  then have "3 dvd length xs" by simp
  ultimately have "listing_reply DPLITE_MSGID_CONNECT_HOST_OK (host_ok_fields i pid reply d)"
    by (fastforce simp: listing_reply_def host_ok_fields_def data_or_null_def)
  then show ?thesis by (auto simp: packet_ok_def)
qed

lemma peer_ok_packet: "packet_ok (serialise DPLITE_MSGID_CONNECT_PEER_OK (peer_ok_fields d))"
proof -
  have "listing_reply DPLITE_MSGID_CONNECT_PEER_OK (peer_ok_fields d)"
    by (auto simp: listing_reply_def peer_ok_fields_def)
  then show ?thesis by (auto simp: packet_ok_def)
qed

lemma packets_ok_sub:
  assumes "packets_ok d" "set m \<subseteq> set (peers d) \<union> {(i, p)}" "queue_ok (sq p)"
  shows "packets_ok (d\<lparr>peers := m\<rparr>)"
proof -
  have "queue_ok (sq q)" if "(j, q) \<in> set m" for j q
  proof (cases "(j, q) = (i, p)")
    case False
    then have "(j, q) \<in> set (peers d)" using subsetD [OF assms(2) that] by auto
    with assms(1) show ?thesis unfolding packets_ok_def by blast
  qed (use assms(3) in simp)
  then have "\<forall>(j, q) \<in> set m. queue_ok (sq q)" by blast
  with assms(1) show ?thesis by (simp add: packets_ok_def)
qed

interpretation pk: peer_relation keeps_packets "\<lambda>_ _. True" packet_ok
proof (unfold_locales, goal_cases)
  case (5 d' d)
  from packets_ok_core [OF 5] show ?case by (simp add: keeps_packets_def)
next
  case (6 ps d i pri)
  then show ?case by (simp add: keeps_packets_def packets_ok_upd_peer(1))
next
  case (7 ps d pri)
  then show ?case by (simp add: keeps_packets_def packets_ok_send_to_connected)
next
  case (8 ps d pri a)
  then show ?case by (simp add: keeps_packets_def packets_ok_def)
next
  case (9 i d p q)
  then show ?case using packets_ok_find queue_ok_same by (metis keeps_packets_def packets_ok_upd_peer(3))
next
  case (10 d q)
  then show ?case using queue_ok_same by (auto simp: keeps_packets_def packets_ok_def)
next
  case (11 i d p cb q)
  then show ?case using packets_ok_find queue_ok_drops by (metis keeps_packets_def packets_ok_upd_peer(3))
next
  case (12 cb d q)
  then show ?case using queue_ok_drops by (auto simp: keeps_packets_def packets_ok_def)
next
  case (13 p d i)
  have "set (om_set i p m) \<subseteq> set m \<union> {(i, p)}" for m by (induction i p m rule: om_set.induct) auto
  from packets_ok_sub [OF _ this, of d] 13 show ?case by (simp add: keeps_packets_def om_emplace_def)
next
  case (14 d i)
  then show ?case by (auto simp: keeps_packets_def packets_ok_def om_erase_def)
next
  case (15 app i d p cb q result)
  then show ?case
    using packets_ok_find queue_ok_drops by (metis sound_step invoke_callback_sound packets_ok_upd_peer(3))
next
  case (16 app cb d q result)
  then show ?case using queue_ok_drops by (intro sound_step invoke_callback_sound) (auto simp: packets_ok_def)
next
  case (17 app i d p ack_id acb result dat)
  then show ?case by (intro sound_step run_ack_sound) (auto intro: packets_ok_upd_peer(1))
qed (auto simp: keeps_packets_def packet_okI host_ok_packet peer_ok_packet)

section \<open>Methods and threads\<close>

definition sound2 :: "fault + 'a \<times> DirectPlay8Peer \<Rightarrow> bool" where
  "sound2 r \<longleftrightarrow> (case r of Inl x \<Rightarrow> True | Inr (a, d) \<Rightarrow> packets_ok d)"

lemma sound2_simps [simp]: "sound2 (Inl x)" "sound2 (Inr (a, d)) \<longleftrightarrow> packets_ok d"
  by (simp_all add: sound2_def)

lemma sound2_step: "(packets_ok d \<Longrightarrow> sound2 r) \<Longrightarrow> step2_ok keeps_packets (\<lambda>_ _. True) d r"
  by (auto simp: step2_ok_def sound2_def keeps_packets_def split: sum.splits)

lemma sound_then: "sound r \<Longrightarrow> sound2 (ebind r (\<lambda>x. Inr (b, x)))"
  by (cases r) simp_all

lemma begin_op_packets: "packets_ok d \<Longrightarrow> begin_op alloc sync c d = (op, h, d1) \<Longrightarrow> packets_ok d1"
  by (auto simp: begin_op_def new_op_def Let_def packets_ok_def split: prod.splits if_splits)

lemma ask_packets:
  assumes "packets_ok d" "get_peer_by_peer_id i d = Some p" "alloc_ack_id p = (a, p')" "packet_ok ps"
  shows "packets_ok (peer_send i pri ps cb (upd_peer i (\<lambda>_. p') d))"
proof (rule packets_ok_peer_send [OF assms(4) packets_ok_upd_peer(2) [OF assms(1)]])
  show "queue_ok (sq p')"
    using packets_ok_find [OF assms(1,2)] assms(3) by (auto simp: alloc_ack_id_def Let_def)
qed

lemma CreateGroup_packets: "packets_ok d \<Longrightarrow> sound2 (CreateGroup info gctx actx flags d)"
  by (auto simp: CreateGroup_def in_session_def Let_def with_peer_def split: option.splits prod.splits
      intro!: create_the_group_packets ask_packets dest: begin_op_packets)

lemma DestroyGroup_packets: "packets_ok d \<Longrightarrow> sound2 (DestroyGroup gid actx flags d)"
  by (auto simp: DestroyGroup_def in_session_def Let_def split: option.splits prod.splits
      intro!: notify_connected_packets dest: begin_op_packets)

lemma ask_remote_player_packets: "packets_ok d \<Longrightarrow> (\<And>a. packet_ok (packet a)) \<Longrightarrow> sound2 (ask_remote_player pid packet sync op h d)"
  by (auto simp: ask_remote_player_def get_peer_by_player_id_def intro!: ask_packets split: option.splits prod.splits)

lemma AddPlayerToGroup_packets: "packets_ok d \<Longrightarrow> sound2 (AddPlayerToGroup gid pid actx flags d)"
  by (auto simp: AddPlayerToGroup_def in_session_def Let_def split: option.splits prod.splits
      intro!: notify_connected_packets ask_remote_player_packets dest: begin_op_packets)

lemma RemovePlayerFromGroup_packets: "packets_ok d \<Longrightarrow> sound2 (RemovePlayerFromGroup gid pid actx flags d)"
  by (auto simp: RemovePlayerFromGroup_def in_session_def Let_def split: option.splits prod.splits
      intro!: notify_connected_packets ask_remote_player_packets dest: begin_op_packets)

lemma message_packet_ok [simp]: "packet_ok (message_packet payload flags d)"
proof -
  have "message_packet payload flags d = serialise DPLITE_MSGID_MESSAGE
      [FDword (local_player_id d), FData payload, FDword (flags AND (DPNSEND_GUARANTEED OR DPNSEND_COALESCE OR DPNSEND_COMPLETEONPROCESS))]"
    by (simp add: message_packet_def serialise_def)
  then show ?thesis by (simp add: packet_okI well_formed_msg_def msgid_defs)
qed

lemma fold_send_packets:
  "packets_ok d \<Longrightarrow> packet_ok ps \<Longrightarrow> packets_ok (fold (peer_send_async pri ps h cb) targets d)"
  by (induction targets arbitrary: d) (simp_all add: peer_send_async_def packets_ok_upd_peer(1))

lemma new_op_packets [simp]: "packets_ok (snd (new_op x d)) = packets_ok d"
  by (simp add: new_op_def packets_ok_def)

lemma send_sync_packets:
  "relies keeps_packets app \<Longrightarrow> packets_ok d \<Longrightarrow> packets_ok (snd (send_sync app payload flags targets self d))"
  by (simp add: send_sync_def Let_def case_prod_beta fold_send_packets relies_packets)

lemma send_unsync_packets: "packets_ok d \<Longrightarrow> packets_ok (snd (send_unsync payload actx flags targets self d))"
  by (simp add: send_unsync_def Let_def queue_work_def case_prod_beta fold_send_packets)

lemma SendTo_packets: "relies keeps_packets app \<Longrightarrow> packets_ok d \<Longrightarrow> sound2 (SendTo app dest bufs actx flags d)"
  by (simp add: SendTo_def ebind_def Let_def case_prod_beta send_sync_packets send_unsync_packets
      split: option.splits sum.splits)

lemma SetPeerInfo_packets:
  assumes "relies keeps_packets app" "packets_ok d"
  shows "sound2 (SetPeerInfo app info actx flags d)"
proof -
  have tell: "queue_ok (sq p) \<Longrightarrow> queue_ok (sq (tell_peer_info op e i p))" for op e i p
    by (simp add: tell_peer_info_def alloc_ack_id_def Let_def playerinfo_packet_def packet_okI well_formed_msg_def msgid_defs)
  have all: "packets_ok e \<Longrightarrow>
      packets_ok (e\<lparr>peers := map (\<lambda>(i, p). (i, if pstate p = PS_CONNECTED then tell_peer_info op e i p else p)) (peers e)\<rparr>)" for op e
    by (rule packets_ok_map) (simp_all add: tell)
  have "packets_ok (store_peer_info info d)"
    using assms(2) by (simp add: store_peer_info_def Let_def packets_ok_def)
  moreover have "packets_ok e \<Longrightarrow> sound2 (ebind (op_finished_cb app op S_OK e) (\<lambda>x. Inr (b, x)))" for e op and b :: api_result
    unfolding op_finished_cb_def by (rule sound_then [OF finish_part_sound [OF assms(1)]])
  ultimately show ?thesis
    using assms(2) by (simp add: SetPeerInfo_def Let_def case_prod_beta all relies_packets [OF assms(1)])
qed

lemma run_task_packets: "relies keeps_packets app \<Longrightarrow> packets_ok d \<Longrightarrow> sound (run_task app t d)"
  by (cases t) (simp_all add: case_prod_beta complete_sound relies_packets handle_send_complete_def finish_part_sound
      split: option.splits)

lemma handle_work_packets: "relies keeps_packets app \<Longrightarrow> packets_ok d \<Longrightarrow> sound (handle_work app d)"
proof (cases "work_queue d")
  case (Cons w ws)
  then show "relies keeps_packets app \<Longrightarrow> packets_ok d \<Longrightarrow> ?thesis"
    by (cases w) (simp add: handle_work_def case_prod_beta relies_packets handle_send_complete_def finish_part_sound)
qed (simp add: handle_work_def)

lemma run_thread_packets: "relies keeps_packets app \<Longrightarrow> packets_ok d \<Longrightarrow> sound (run_thread app n d)"
  by (simp add: run_thread_def run_task_packets)

lemma wake_sync_packets: "keeps_packets d (wake_sync op d)"
  by (simp add: keeps_packets_def wake_sync_def sync_wake_def split: option.splits)

section \<open>Every event\<close>

lemmas packet_method_ok =
  pk.Host_ok pk.Connect_ok pk.SetApplicationDesc_ok pk.EnumHosts_ok pk.CancelAsyncOperation_ok pk.DestroyPeer_ok
  pk.TerminateSession_ok pk.Close_begin_ok
  sound2_step [OF CreateGroup_packets] sound2_step [OF DestroyGroup_packets] sound2_step [OF AddPlayerToGroup_packets]
  sound2_step [OF RemovePlayerFromGroup_packets] sound2_step [OF SendTo_packets] sound2_step [OF SetPeerInfo_packets]

lemmas packet_handler_ok =
  pk.io_peer_triggered_ok pk.handle_udp_socket_event_ok pk.handle_other_socket_event_ok pk.Close_groups_ok
  sound_step [OF handle_work_packets] sound_step [OF run_thread_packets]

lemmas packet_transition_ok =
  pk.Initialize_R pk.enum_completed_R pk.enum_returned_R pk.Close_end_R wake_sync_packets

lemma run_event_packets:
  "relies keeps_packets app \<Longrightarrow> step_ok keeps_packets (\<lambda>_ _. True) d (run_event mb app fuel ev d)"
proof (cases ev)
  case (EvCall c)
  assume "relies keeps_packets app"
  with EvCall show ?thesis
    by (cases c) (simp_all add: state_of_ok packet_method_ok pk.ok_simps packet_transition_ok)
next
  case (EvGroup c)
  then show ?thesis by (cases c) (simp_all add: state_of_ok packet_method_ok)
next
  case (EvWait w)
  assume "relies keeps_packets app"
  with EvWait show ?thesis
    by (cases w) (simp_all add: state_of_ok packet_method_ok packet_handler_ok pk.ok_simps packet_transition_ok)
qed (simp_all add: packet_handler_ok)

lemma happens_packets: "happens mb d d' \<Longrightarrow> keeps_packets d d'"
  using happens_relation [of keeps_packets "\<lambda>_ _. True" mb d d'] run_event_packets pk.R_refl pk.R_trans pk.R_core
  by blast

lemma packets_ok_new: "packets_ok (new_DirectPlay8Peer mem)"
  by (simp add: packets_ok_def new_DirectPlay8Peer_def)

text \<open>
  C2: Whatever events happen to a new object, every packet waiting in the send queue of a peer or of the
  datagram socket is the serialisation of a message identifier with the fields that the protocol
  documents for it, in their order and types. Only in the two replies that list players and groups the
  announced numbers are not claimed to be those of the lists.
\<close>

theorem queued_packets_documented:
  assumes "happens mb (new_DirectPlay8Peer mem) d"
    "op \<in> set (contents (udp_sq d)) \<or> (\<exists>(i, p) \<in> set (peers d). op \<in> set (contents (sq p)))"
  shows "\<exists>t fs. op_data op = fst (raw_packet (serialise t fs)) \<and> (well_formed_msg t fs \<or> listing_reply t fs)"
proof -
  have "packets_ok d" using happens_packets [OF assms(1)] packets_ok_new [of mem] by (simp add: keeps_packets_def)
  with assms(2) have "data_ok (op_data op)" by (auto simp: packets_ok_def queue_ok_def)
  then show ?thesis by (auto simp: data_ok_def packet_ok_def)
qed

text \<open>A peer that connects to a host.\<close>

definition demo_host :: DirectPlay8Address where
  "demo_host = \<lparr>local_refcount = 1, components = [GUIDComponent DPNA_KEY_PROVIDER CLSID_DP8SP_TCPIP,
     StringComponentW DPNA_KEY_HOSTNAME [104, 0], DWORDComponent DPNA_KEY_PORT 6073], user_data = []\<rparr>"

lemma demo_target: "connect_target (\<lambda>n. Some 1) None demo_host = Inr (Some (1, 6073))"
  by (simp add: connect_target_def demo_host_def GetSP_def guid_component_def GetComponentByName_def fill_buffer_def
    connect_host_ip_def connect_host_port_def key_defs wcsncpy_def c_string_def)

definition demo_conn :: conn_env where
  "demo_conn = \<lparr>ce_os = demo_os, ce_event = 9, ce_select = True, ce_would_block = True, ce_uninit_id = 0, ce_uninit_ctx = 0\<rparr>"

definition demo_connect :: "peer_event list" where
  "demo_connect =
     [EvCall (CallInitialize True 1 2 3),
      EvCall (CallConnect \<lparr>cn_inet_pton = \<lambda>n. Some 1, cn_override = None, cn_counter = 0, cn_ports = \<lambda>p. demo_os,
          cn_conn = demo_conn, cn_select = True\<rparr>
        \<lparr>ad_dwFlags = 0, ad_guidInstance = 0, ad_guidApplication = 9, ad_dwMaxPlayers = 0, ad_dwCurrentPlayers = 0,
         ad_pwszSessionName = None, ad_pwszPassword = None, ad_pvApplicationReservedData = None\<rparr> demo_host [] 4 5 0),
      EvPeerSocket (\<lambda>_. demo_conn) True 0 True True [] [] 0]"

lemma connect_ports_Cons: "\<exists>p ps. connect_ports c = p # ps"
proof -
  have "m < n \<Longrightarrow> \<exists>p ps. map (connect_port c) [m ..< n] = p # ps" for m n :: nat
    by (simp add: upt_conv_Cons)
  then show ?thesis unfolding connect_ports_def by (simp add: AUTO_PORT_MIN_def AUTO_PORT_MAX_def del: upt_rec_numeral)
qed

lemma demo_connect_opens:
  "\<exists>q. open_ports (\<lambda>p. demo_os) a (connect_ports c) d =
     (True, d\<lparr>udp_socket := Some 7, listener_socket := Some 7, local_ip := a, local_port := q\<rparr>)"
proof -
  obtain q ps where "connect_ports c = q # ps" using connect_ports_Cons by blast
  then show ?thesis
    by (intro exI [of _ q]) (simp add: demo_os_def create_udp_socket_def create_listener_socket_def Let_def)
qed

lemma demo_connecting:
  assumes "state d = STATE_INITIALISED" "peers d = []" "next_peer_id d = 0"
  shows "\<exists>e p. run_event mb silent 5 (demo_connect ! 1) d = Inr e \<and> state e = STATE_CONNECTING_TO_HOST
    \<and> peers e = [(0, p)] \<and> pstate p = PS_CONNECTING_HOST \<and> contents (sq p) = []"
proof -
  obtain q where q: "open_ports (\<lambda>p. demo_os) (htonl INADDR_ANY) (connect_ports 0) d' =
      (True, d'\<lparr>udp_socket := Some 7, listener_socket := Some 7, local_ip := htonl INADDR_ANY, local_port := q\<rparr>)"
    if "d' = d\<lparr>application_guid := 9, instance_guid := 0, connect_req_data := [], local_player_ctx := 4\<rparr>" for d'
    using demo_connect_opens by blast
  have s: "snd (create_client_socket demo_os a b) = Some 7" for a b
    by (simp add: demo_os_def create_client_socket_def Let_def)
  show ?thesis
    using assms
    by (simp add: demo_connect_def Connect_def Let_def demo_target q flag_set_def peer_connect_def demo_conn_def s case_prod_beta
      state_of_def enable_events_def add_peer_def om_emplace_def new_Peer_def new_SendQueue_def contents_def queued_def)
qed

lemma demo_connected:
  assumes "state d = STATE_CONNECTING_TO_HOST" "peers d = [(0, p)]" "pstate p = PS_CONNECTING_HOST" "contents (sq p) = []"
  shows "\<exists>e p' op. run_event mb silent 5 (demo_connect ! 2) d = Inr e \<and> peers e = [(0, p')] \<and> contents (sq p') = [op]
    \<and> op_data op = fst (raw_packet (connect_host_packet d))"
proof -
  have "mset (contents (send pri ps None CbNone (sq p))) = {#new_SendOp (fst (raw_packet ps)) None 0 0 CbNone#}" for pri ps
    using assms(4) unfolding send_def mset_contents_send_async by simp
  then have one: "contents (send pri ps None CbNone (sq p)) = [new_SendOp (fst (raw_packet ps)) None 0 0 CbNone]" for pri ps
    by simp
  show ?thesis
    using assms
    by (simp add: demo_connect_def io_peer_triggered_def get_peer_by_peer_id_def om_find_Cons asserting_def io_peer_connected_def
      with_peer_def upd_peer_def om_update_def one) (simp add: new_SendOp_def)
qed

lemma demo_connect_runs:
  "\<exists>e p op. run_events mb silent 5 demo_connect (new_DirectPlay8Peer zeroed_memory) = Inr e \<and> peers e = [(0, p)]
     \<and> contents (sq p) = [op]"
proof -
  let ?d = "new_DirectPlay8Peer zeroed_memory"
  obtain d1 where d1: "run_event mb silent 5 (demo_connect ! 0) ?d = Inr d1" "state d1 = STATE_INITIALISED"
    "peers d1 = []" "next_peer_id d1 = 0"
    by (simp add: demo_connect_def Initialize_def new_DirectPlay8Peer_def zeroed_memory_def)
  from demo_connecting [OF d1(2-4), of mb] obtain d2 p where d2: "run_event mb silent 5 (demo_connect ! 1) d1 = Inr d2"
    "state d2 = STATE_CONNECTING_TO_HOST" "peers d2 = [(0, p)]" "pstate p = PS_CONNECTING_HOST" "contents (sq p) = []" by blast
  from demo_connected [OF d2(2-5), of mb] obtain e p' op where e: "run_event mb silent 5 (demo_connect ! 2) d2 = Inr e"
    "peers e = [(0, p')]" "contents (sq p') = [op]" by blast
  have "run_events mb silent 5 [demo_connect ! 0, demo_connect ! 1, demo_connect ! 2] ?d = Inr e"
    by (simp only: run_events.simps d1(1) d2(1) e(1) ebind_simps)
  with e(2,3) show ?thesis by (simp add: demo_connect_def)
qed

theorem queued_packets_documented_witness:
  "\<exists>e p op t fs. run_events (\<lambda>_ _. []) silent 5 demo_connect (new_DirectPlay8Peer zeroed_memory) = Inr e
     \<and> peers e = [(0, p)] \<and> contents (sq p) = [op] \<and> op_data op = fst (raw_packet (serialise t fs))
     \<and> (well_formed_msg t fs \<or> listing_reply t fs)"
proof -
  obtain e p op where e: "run_events (\<lambda>_ _. []) silent 5 demo_connect (new_DirectPlay8Peer zeroed_memory) = Inr e"
    "peers e = [(0, p)]" "contents (sq p) = [op]" using demo_connect_runs by blast
  from queued_packets_documented [OF happens_run_events [OF e(1) happens.nothing], of op] e show ?thesis
    by (auto simp del: demo_connect_def)
qed

end
