(* ===== verification/PeerStream.thy ===== *)
theory PeerStream
  imports PeerIO
begin

text \<open>
  From the byte stream of a connection to messages for the application: however TCP cuts the stream,
  the receive loop of \<^verbatim>\<open>io_peer_recv\<close> hands over every message once and in order.
\<close>

section \<open>Framing\<close>

definition frame_sized :: "dword \<Rightarrow> field list \<Rightarrow> bool" where
  "frame_sized t fs \<longleftrightarrow> length (packet_bytes t fs) \<le> MAX_PACKET_SIZE"

lemma header_length:
  assumes "frame_sized t fs"
  shows "unat (8 + de32 (take 4 (drop 4 (packet_bytes t fs @ rest))) :: dword) = length (packet_bytes t fs)"
proof -
  let ?v = "concat (map field_bytes fs)"
  have len: "length (packet_bytes t fs) = 8 + length ?v" by (simp add: packet_bytes_def)
  then have "8 + length ?v < 2 ^ 32" using assms by (simp add: frame_sized_def MAX_PACKET_SIZE_def)
  moreover have "take 4 (drop 4 (packet_bytes t fs @ rest)) = le32 (word_of_nat (length ?v))"
    by (simp add: packet_bytes_def tlv_def chunk_bytes_def)
  ultimately show ?thesis
    using unat_word_of_nat_small [of "8 + length ?v", where 'a = 32] by (simp add: len)
qed

lemma next_frame_packet:
  "frame_sized t fs \<Longrightarrow> next_frame (packet_bytes t fs @ rest) = Frame (length (packet_bytes t fs))"
  using header_length [of t fs rest] by (simp add: next_frame_def Let_def frame_sized_def packet_bytes_def)

lemma next_frame_partial:
  assumes "frame_sized t fs" "packet_bytes t fs = part @ rst" "rst \<noteq> []"
  shows "next_frame part = NeedMore"
proof (cases "length part < 8")
  case False
  then have "take 4 (drop 4 part) = take 4 (drop 4 (packet_bytes t fs @ []))" by (simp add: assms(2))
  then have "unat (8 + de32 (take 4 (drop 4 part)) :: dword) = length part + length rst"
    using header_length [OF assms(1), of "[]"] unfolding assms(2) by (simp only: append_Nil2 length_append)
  moreover have "length part + length rst \<le> MAX_PACKET_SIZE" using assms(1,2) by (simp add: frame_sized_def)
  ultimately show ?thesis using assms(3) by (simp add: next_frame_def Let_def)
qed (simp add: next_frame_def)

text \<open>The bytes that stay in the buffer when all complete packets are taken off.\<close>

function leftover :: "byte list \<Rightarrow> byte list" where
  "leftover buf = (case next_frame buf of Frame n \<Rightarrow> if 0 < n then leftover (drop n buf) else buf | _ \<Rightarrow> buf)"
  by pat_completeness auto
termination
  by (relation "measure length") (auto simp: next_frame_def Let_def split: if_splits)

declare leftover.simps [simp del]

lemma packet_bytes_nonempty: "packet_bytes t fs \<noteq> []"
  by (simp add: packet_bytes_def flip: length_greater_0_conv)

lemma leftover_packet: "frame_sized t fs \<Longrightarrow> leftover (packet_bytes t fs @ rest) = leftover rest"
  by (subst leftover.simps) (auto simp: next_frame_packet packet_bytes_nonempty)

lemma leftover_partial: "next_frame part = NeedMore \<Longrightarrow> leftover part = part"
  by (subst leftover.simps) simp

text \<open>What \<^verbatim>\<open>recv\<close> yields before the end of the stream: something, and never more than the free part of the buffer.\<close>

fun fits :: "byte list \<Rightarrow> byte list list \<Rightarrow> bool" where
  "fits part [] \<longleftrightarrow> True"
| "fits part (c # cs) \<longleftrightarrow> c \<noteq> [] \<and> length part + length c \<le> MAX_PACKET_SIZE \<and> fits (leftover (part @ c)) cs"


section \<open>Messages\<close>

text \<open>Sender, payload and flags of a message, its packet, and what it makes the application see.\<close>

type_synonym msg = "dpnid \<times> byte list \<times> dword"

fun wire :: "msg \<Rightarrow> byte list" where
  "wire (frm, payload, flags) = fst (raw_packet (serialise DPLITE_MSGID_MESSAGE [FDword frm, FData payload, FDword flags]))"

fun received :: "DirectPlay8Peer \<Rightarrow> msg \<Rightarrow> dpnmsg list" where
  "received d (frm, payload, flags) =
     (case get_peer_by_player_id frm d of None \<Rightarrow> [] | Some p \<Rightarrow> [MSG_RECEIVE frm (player_ctx p) payload 0])"

lemma wire_packet_bytes: "wire (frm, payload, flags) = packet_bytes DPLITE_MSGID_MESSAGE [FDword frm, FData payload, FDword flags]"
  unfolding wire.simps raw_packet_def serialise_def PacketSerialiser_packet_bytes foldl_append_field by simp

lemma next_frame_wire: "length (wire m) \<le> MAX_PACKET_SIZE \<Longrightarrow> next_frame (wire m @ rest) = Frame (length (wire m))"
  by (cases m) (simp only: wire_packet_bytes next_frame_packet frame_sized_def)

lemma next_frame_wire_partial:
  "length (wire m) \<le> MAX_PACKET_SIZE \<Longrightarrow> wire m = part @ rst \<Longrightarrow> rst \<noteq> [] \<Longrightarrow> next_frame part = NeedMore"
  by (cases m) (metis wire_packet_bytes frame_sized_def next_frame_partial)

lemma leftover_wire: "length (wire m) \<le> MAX_PACKET_SIZE \<Longrightarrow> leftover (wire m @ rest) = leftover rest"
  by (cases m) (simp only: wire_packet_bytes leftover_packet frame_sized_def)

lemma wire_nonempty [simp]: "wire m \<noteq> []"
  by (cases m) (simp only: wire_packet_bytes packet_bytes_def flip: length_0_conv, simp)

text \<open>A prefix of a stream of packets is some whole packets and the beginning of the next.\<close>

lemma split_stream:
  assumes "\<forall>m \<in> set ms. length (wire m) \<le> MAX_PACKET_SIZE" "concat (map wire ms) = buf @ rest"
  shows "\<exists>ms1 ms2 part. ms = ms1 @ ms2 \<and> buf = concat (map wire ms1) @ part \<and> concat (map wire ms2) = part @ rest
    \<and> next_frame part = NeedMore"
  using assms
proof (induction ms arbitrary: buf)
  case Nil
  then show ?case by (simp add: next_frame_def)
next
  case (Cons m ms)
  show ?case
  proof (cases "length (wire m) \<le> length buf")
    case True
    have "wire m = take (length (wire m)) buf" "concat (map wire ms) = drop (length (wire m)) buf @ rest"
      using Cons.prems(2) True by (simp_all add: append_eq_append_conv_if)
    then obtain buf' where b: "buf = wire m @ buf'" "concat (map wire ms) = buf' @ rest"
      by (metis append_take_drop_id)
    with Cons obtain ms1 ms2 part where "ms = ms1 @ ms2" "buf' = concat (map wire ms1) @ part" "concat (map wire ms2) = part @ rest"
      "next_frame part = NeedMore" by fastforce
    with b show ?thesis by (intro exI [of _ "m # ms1"] exI [of _ ms2] exI [of _ part]) simp
  next
    case False
    then have "take (length buf) (wire m) = buf" "drop (length buf) (wire m) \<noteq> []"
      using Cons.prems(2) by (simp_all add: append_eq_append_conv_if)
    then have "wire m = buf @ drop (length buf) (wire m)" "drop (length buf) (wire m) \<noteq> []" by (metis append_take_drop_id)+
    then have "next_frame buf = NeedMore" using next_frame_wire_partial Cons.prems(1) by (metis list.set_intros(1))
    with Cons.prems(2) show ?thesis by (intro exI [of _ "[]"] exI [of _ "m # ms"] exI [of _ buf]) simp
  qed
qed

lemma leftover_stream:
  "\<forall>m \<in> set ms. length (wire m) \<le> MAX_PACKET_SIZE \<Longrightarrow> next_frame part = NeedMore \<Longrightarrow> leftover (concat (map wire ms) @ part) = part"
  by (induction ms) (simp_all add: leftover_partial leftover_wire)

section \<open>Delivery\<close>

lemma handle_packet_wire:
  assumes "quiet app" "represents pd DPLITE_MSGID_MESSAGE [FDword frm, FData payload, FDword flags]"
  shows "handle_packet mb app fuel env i pd d = Inr (d\<lparr>delivered := delivered d @ received d (frm, payload, flags)\<rparr>)"
proof -
  have "packet_type pd = Inr DPLITE_MSGID_MESSAGE" "get_dword pd 0 = Inr frm" "get_data pd 1 = Inr payload" "get_dword pd 2 = Inr flags"
    using assms(2) by (simp_all add: represents_def field_access_def)
  then show ?thesis
    using quiet_dispatch_snd [OF assms(1)]
    by (auto simp: handle_packet_def handle_message_def msgid_defs split: option.splits)
qed

text \<open>The state after the buffer of a peer was set and messages were delivered.\<close>

definition advanced :: "dword \<Rightarrow> byte list \<Rightarrow> dpnmsg list \<Rightarrow> DirectPlay8Peer \<Rightarrow> DirectPlay8Peer" where
  "advanced i b out d = (upd_peer i (\<lambda>p. p\<lparr>recv_buf := b\<rparr>) d)\<lparr>delivered := delivered d @ out\<rparr>"

lemma get_peer_advanced:
  "get_peer_by_peer_id j (advanced i b out d) =
     (if j = i then map_option (\<lambda>p. p\<lparr>recv_buf := b\<rparr>) (get_peer_by_peer_id j d) else get_peer_by_peer_id j d)"
  using get_peer_upd_peer [of j i "\<lambda>p. p\<lparr>recv_buf := b\<rparr>" d] by (simp add: advanced_def get_peer_by_peer_id_def)

lemma om_wf_upd_peer: "om_wf (peers (upd_peer i f d)) = om_wf (peers d)"
  by (simp add: upd_peer_def)

lemma received_upd_peer: "(\<And>p. player_ctx (f p) = player_ctx p) \<Longrightarrow> received (upd_peer i f d) = received d"
proof (intro ext)
  fix m :: msg assume f: "\<And>p. player_ctx (f p) = player_ctx p"
  obtain frm payload flags where m: "m = (frm, payload, flags)" by (cases m)
  have "player_to_peer_id (upd_peer i f d) = player_to_peer_id d" by (simp add: upd_peer_def)
  then show "received (upd_peer i f d) m = received d m"
    by (auto simp: m get_peer_by_player_id_def get_peer_upd_peer f split: option.splits)
qed

lemma received_delivered: "received (d\<lparr>delivered := ms\<rparr>) = received d"
  by (intro ext) (auto simp: get_peer_by_player_id_def get_peer_by_peer_id_def split: option.splits)

lemma received_advanced [simp]: "received (advanced i b out d) = received d"
  by (simp add: advanced_def received_delivered received_upd_peer)

lemma advanced_advanced: "advanced i b out (advanced i b' out' d) = advanced i b (out' @ out) d"
  by (simp add: advanced_def upd_peer_def om_update_def comp_def case_prod_beta if_distrib cong: if_cong)

lemma om_update_cong: "om_wf m \<Longrightarrow> om_find k m = Some v \<Longrightarrow> f v = g v \<Longrightarrow> om_update k f m = om_update k g m"
  using om_wf_mem_find [of m k] by (fastforce simp: om_update_def)

lemma process_packets_step:
  assumes "om_wf (peers d)" and "quiet app" "length (wire m) \<le> MAX_PACKET_SIZE" "get_peer_by_peer_id i d = Some p" "recv_buf p = wire m @ rest"
  shows "process_packets mb app (Suc fuel) env i d = process_packets mb app fuel env i (advanced i rest (received d m) d)"
proof -
  obtain frm payload flags where m: "m = (frm, payload, flags)" by (cases m)
  let ?fs = "[FDword frm, FData payload, FDword flags]"
  define pd where "pd = \<lparr>pd_mem = wire m @ rest, pd_header = 0, pd_fields = field_offsets 8 ?fs\<rparr>"
  have small: "length (packet_bytes DPLITE_MSGID_MESSAGE ?fs) < 2 ^ 32"
    using assms(3) by (simp add: m MAX_PACKET_SIZE_def wire_packet_bytes del: wire.simps)
  then have des: "PacketDeserialiser (wire m @ rest) (word_of_nat (length (wire m)) :: 32 word) = Some (Inr pd)"
    using PacketDeserialiser_packet_bytes [OF _ small, of rest, where 'z = 32] by (simp only: pd_def m wire_packet_bytes) simp
  have "represents pd DPLITE_MSGID_MESSAGE ?fs"
    by (rule packet_bytes_represents [OF small, of _ rest]) (simp only: pd_def m wire_packet_bytes)
  from handle_packet_wire [OF assms(2) this, of mb fuel env i d]
  have h: "handle_packet mb app fuel env i pd d = Inr (d\<lparr>delivered := delivered d @ received d m\<rparr>)" by (simp only: m)
  have "upd_peer i (\<lambda>p. p\<lparr>recv_buf := drop (length (wire m)) (recv_buf p)\<rparr>) (d\<lparr>delivered := x\<rparr>) =
      (upd_peer i (\<lambda>p. p\<lparr>recv_buf := rest\<rparr>) d)\<lparr>delivered := x\<rparr>" for x
    using om_update_cong [OF assms(1), of i p "\<lambda>p. p\<lparr>recv_buf := drop (length (wire m)) (recv_buf p)\<rparr>" "\<lambda>p. p\<lparr>recv_buf := rest\<rparr>"]
      assms(4,5) by (simp add: upd_peer_def get_peer_by_peer_id_def)
  then show ?thesis
    using assms(4,5) by (simp add: next_frame_wire [OF assms(3)] des h advanced_def del: wire.simps)
qed

lemma advanced_wf [simp]: "om_wf (peers (advanced i b out d)) = om_wf (peers d)"
  by (simp add: advanced_def upd_peer_def)

lemma advanced_nothing: "om_wf (peers d) \<Longrightarrow> get_peer_by_peer_id i d = Some p \<Longrightarrow> recv_buf p = b \<Longrightarrow> advanced i b [] d = d"
  using om_update_cong [of "peers d" i p "\<lambda>p. p\<lparr>recv_buf := b\<rparr>" "\<lambda>p. p"]
  by (simp add: advanced_def upd_peer_def get_peer_by_peer_id_def om_update_def case_prod_beta)

lemma process_packets_stream:
  assumes "quiet app" "\<forall>m \<in> set ms. length (wire m) \<le> MAX_PACKET_SIZE" "next_frame part = NeedMore" "length ms < fuel"
    "om_wf (peers d)" "get_peer_by_peer_id i d = Some p" "recv_buf p = concat (map wire ms) @ part"
  shows "process_packets mb app fuel env i d = Inr (True, advanced i part (concat (map (received d) ms)) d)"
  using assms(2,4-7)
proof (induction ms arbitrary: fuel d p)
  case Nil
  then show ?case using assms(3) by (cases fuel) (simp_all add: advanced_nothing)
next
  case (Cons m ms)
  let ?rest = "concat (map wire ms) @ part"
  let ?d = "advanced i ?rest (received d m) d"
  obtain fuel' where f: "fuel = Suc fuel'" "length ms < fuel'" using Cons.prems(2) by (cases fuel) auto
  have "process_packets mb app fuel env i d = process_packets mb app fuel' env i ?d"
    unfolding f using Cons.prems by (intro process_packets_step [OF _ assms(1)]) simp_all
  also have "\<dots> = Inr (True, advanced i part (concat (map (received ?d) ms)) ?d)"
    using Cons.prems f(2) by (intro Cons.IH [of fuel' ?d "p\<lparr>recv_buf := ?rest\<rparr>"]) (simp_all add: get_peer_advanced)
  finally show ?case by (simp add: advanced_advanced)
qed

text \<open>The loop once the buffer is claimed.\<close>

lemma recv_loop_stream:
  assumes "quiet app" "length ms < fuel" "\<forall>m \<in> set ms. length (wire m) \<le> MAX_PACKET_SIZE"
    "om_wf (peers d)" "get_peer_by_peer_id i d = Some p" "pstate p \<noteq> PS_CLOSING"
    "concat (map wire ms) = recv_buf p @ concat chunks" "fits (recv_buf p) chunks" "next_frame (recv_buf p) = NeedMore"
  shows "recv_loop mb app fuel env sel i True (map RecvData chunks) d =
    Inr (upd_peer i (release_recv sel) (advanced i [] (concat (map (received d) ms)) d))"
  using assms(2-9)
proof (induction chunks arbitrary: d p ms)
  case Nil
  have "ms = []"
  proof (cases ms)
    case (Cons m ms')
    then have "next_frame (recv_buf p) = Frame (length (wire m))"
      using Nil.prems(2,6) next_frame_wire [of m "concat (map wire ms')"] by simp
    with Nil.prems(8) show ?thesis by simp
  qed simp
  then show ?case using Nil.prems by (simp add: advanced_nothing)
next
  case (Cons c chunks)
  let ?buf = "recv_buf p @ c"
  have len: "length (recv_buf p) + length c \<le> MAX_PACKET_SIZE" and some: "newly_read c p \<noteq> []"
    using Cons.prems(7) by (auto simp: neq_Nil_conv)
  obtain ms1 ms2 part where s: "ms = ms1 @ ms2" "?buf = concat (map wire ms1) @ part" "concat (map wire ms2) = part @ concat chunks"
    "next_frame part = NeedMore"
    using split_stream [OF Cons.prems(2), of ?buf "concat chunks"] Cons.prems(6) by auto
  have ms1: "\<forall>m \<in> set ms1. length (wire m) \<le> MAX_PACKET_SIZE" using Cons.prems(2) s(1) by simp
  let ?d1 = "upd_peer i (\<lambda>p. p\<lparr>recv_buf := recv_buf p @ take (MAX_PACKET_SIZE - length (recv_buf p)) c\<rparr>) d"
  have d1: "?d1 = advanced i ?buf [] d"
    using om_update_cong [OF Cons.prems(3), of i p "\<lambda>p. p\<lparr>recv_buf := recv_buf p @ take (MAX_PACKET_SIZE - length (recv_buf p)) c\<rparr>"
        "\<lambda>p. p\<lparr>recv_buf := ?buf\<rparr>"] Cons.prems(4) len
    by (simp add: advanced_def upd_peer_def get_peer_by_peer_id_def)
  let ?d2 = "advanced i part (concat (map (received d) ms1)) d"
  have "process_packets mb app fuel env i ?d1 = Inr (True, ?d2)"
    unfolding d1
    using process_packets_stream [OF assms(1) ms1 s(4), of fuel "advanced i ?buf [] d" i "p\<lparr>recv_buf := ?buf\<rparr>"]
      Cons.prems(1,3,4) s(1,2) by (simp add: get_peer_advanced advanced_advanced)
  then have "recv_loop mb app fuel env sel i True (map RecvData (c # chunks)) d =
      recv_loop mb app fuel env sel i True (map RecvData chunks) ?d2"
    using Cons.prems(4,5) some by simp
  also have "\<dots> = Inr (upd_peer i (release_recv sel) (advanced i [] (concat (map (received ?d2) ms2)) ?d2))"
  proof (rule Cons.IH [of ms2 ?d2 "p\<lparr>recv_buf := part\<rparr>"])
    show "fits (recv_buf (p\<lparr>recv_buf := part\<rparr>)) chunks"
      using Cons.prems(7) leftover_stream [OF ms1 s(4)] s(2) by simp
  qed (use Cons.prems s in \<open>simp_all add: get_peer_advanced\<close>)
  finally show ?case using s(1) by (simp add: advanced_advanced)
qed

lemma claim_recv_fields [simp]:
  "recv_buf (claim_recv sel p) = recv_buf p" "pstate (claim_recv sel p) = pstate p" "player_ctx (claim_recv sel p) = player_ctx p"
  by (simp_all add: claim_recv_def disable_events_def)

lemma release_recv_fields [simp]: "recv_buf (release_recv sel p) = recv_buf p" "\<not> recv_busy (release_recv sel p)"
  by (simp_all add: release_recv_def enable_events_def)

lemma recv_loop_claims:
  "get_peer_by_peer_id i d = Some p \<Longrightarrow> \<not> recv_busy p \<Longrightarrow>
   recv_loop mb app fuel env sel i False (r # rs) d = recv_loop mb app fuel env sel i True (r # rs) (upd_peer i (claim_recv sel) d)"
  by (cases r) (simp_all add: get_peer_upd_peer Let_def)

lemma io_peer_recv_stream:
  assumes "quiet app" "length ms < fuel" "\<forall>m \<in> set ms. length (wire m) \<le> MAX_PACKET_SIZE"
    "om_wf (peers d)" "get_peer_by_peer_id i d = Some p" "pstate p \<noteq> PS_CLOSING" "\<not> recv_busy p" "recv_buf p = []"
    "concat chunks = concat (map wire ms)" "fits [] chunks"
  shows "\<exists>d' p'. io_peer_recv mb app fuel env sel (map RecvData chunks) i d = Inr d'
    \<and> delivered d' = delivered d @ concat (map (received d) ms)
    \<and> get_peer_by_peer_id i d' = Some p' \<and> recv_buf p' = [] \<and> \<not> recv_busy p'"
proof (cases chunks)
  case Nil
  then have "ms = []" using assms(9) by (cases ms) auto
  then show ?thesis using Nil assms by (simp add: io_peer_recv_def)
next
  case (Cons c cs)
  let ?d = "upd_peer i (claim_recv sel) d"
  have "next_frame [] = NeedMore" by (simp add: next_frame_def)
  then have "recv_loop mb app fuel env sel i True (map RecvData chunks) ?d =
      Inr (upd_peer i (release_recv sel) (advanced i [] (concat (map (received ?d) ms)) ?d))"
    using assms by (intro recv_loop_stream [of _ _ _ _ _ "claim_recv sel p"]) (simp_all add: get_peer_upd_peer om_wf_upd_peer)
  then have "io_peer_recv mb app fuel env sel (map RecvData chunks) i d =
      Inr (upd_peer i (release_recv sel) (advanced i [] (concat (map (received d) ms)) ?d))"
    using recv_loop_claims [OF assms(5,7)] by (simp add: io_peer_recv_def Cons received_upd_peer)
  then show ?thesis using assms(5)
    by (simp add: get_peer_upd_peer get_peer_advanced) (simp add: advanced_def upd_peer_def)
qed

text \<open>
  C3: However the byte stream of a connection that carries messages is cut into the pieces that \<^verbatim>\<open>recv\<close>
  returns, none of them empty, \<^verbatim>\<open>io_peer_recv\<close> delivers to the application exactly the messages, each once and in the order
  they were sent (those whose sender is not a known player are skipped), and ends with an empty buffer
  that is free for the next event.
\<close>

theorem stream_delivery:
  assumes "quiet app" "length ms < fuel" "\<forall>m \<in> set ms. length (wire m) \<le> MAX_PACKET_SIZE"
    "om_wf (peers d)" "get_peer_by_peer_id i d = Some p" "pstate p \<noteq> PS_CLOSING" "\<not> recv_busy p" "recv_buf p = []"
    "concat chunks = concat (map wire ms)" "fits [] chunks"
  shows "\<exists>d' p'. io_peer_recv mb app fuel env sel (map RecvData chunks) i d = Inr d'
    \<and> delivered d' = delivered d @ concat (map (received d) ms)
    \<and> get_peer_by_peer_id i d' = Some p' \<and> recv_buf p' = [] \<and> \<not> recv_busy p'"
  by (rule io_peer_recv_stream [OF assms])

text \<open>Two messages whose packets arrive in two pieces, cut inside the first header.\<close>

definition demo_msgs :: "msg list" where
  "demo_msgs = [(7, [1], 0), (7, [2, 3], 0)]"

definition demo_receiver :: DirectPlay8Peer where
  "demo_receiver = zeroed_memory\<lparr>peers := [(3, (new_Peer 7 0 1 PS_CONNECTED 5 0 0)\<lparr>player_ctx := 42\<rparr>)], player_to_peer_id := [(7, 3)]\<rparr>"

theorem stream_delivery_witness:
  "let s = concat (map wire demo_msgs) in
   \<exists>d' p'. io_peer_recv (\<lambda>_ _. []) silent 3 (\<lambda>_. undefined) True (map RecvData [take 5 s, drop 5 s]) 3 demo_receiver = Inr d'
     \<and> delivered d' = [MSG_RECEIVE 7 42 [1] 0, MSG_RECEIVE 7 42 [2, 3] 0]
     \<and> get_peer_by_peer_id 3 d' = Some p' \<and> recv_buf p' = [] \<and> \<not> recv_busy p'"
proof -
  define s where "s = concat (map wire demo_msgs)"
  have l: "length s = 83"
    unfolding s_def demo_msgs_def by (simp add: wire_packet_bytes packet_bytes_def length_field_bytes del: wire.simps)
  have "next_frame (take 5 s) = NeedMore" "s \<noteq> []" using l by (auto simp: next_frame_def)
  then have fit: "fits [] [take 5 s, drop 5 s]" by (auto simp add: leftover_partial l MAX_PACKET_SIZE_def)
  have small: "\<forall>m \<in> set demo_msgs. length (wire m) \<le> MAX_PACKET_SIZE"
    by (simp add: demo_msgs_def wire_packet_bytes packet_bytes_def length_field_bytes MAX_PACKET_SIZE_def del: wire.simps)
  have "get_peer_by_player_id 7 demo_receiver = Some ((new_Peer 7 0 1 PS_CONNECTED 5 0 0)\<lparr>player_ctx := 42\<rparr>)"
    by (simp add: get_peer_by_player_id_def get_peer_by_peer_id_def demo_receiver_def om_find_Cons)
  then have r: "delivered demo_receiver @ concat (map (received demo_receiver) demo_msgs) = [MSG_RECEIVE 7 42 [1] 0, MSG_RECEIVE 7 42 [2, 3] 0]"
    by (simp add: demo_msgs_def demo_receiver_def zeroed_memory_def)
  have d: "om_wf (peers demo_receiver)"
    "get_peer_by_peer_id 3 demo_receiver = Some ((new_Peer 7 0 1 PS_CONNECTED 5 0 0)\<lparr>player_ctx := 42\<rparr>)"
    by (simp_all add: demo_receiver_def om_wf_def om_keys_def get_peer_by_peer_id_def om_find_Cons)
  have n: "length demo_msgs < 3" by (simp add: demo_msgs_def)
  have c: "concat [take 5 s, drop 5 s] = concat (map wire demo_msgs)" by (simp flip: s_def)
  show ?thesis
    unfolding Let_def s_def [symmetric] r [symmetric]
    by (rule stream_delivery [OF _ n small d _ _ _ c fit]) (simp_all add: new_Peer_def)
qed

end
