(* ===== verification/PeerPorts.thy ===== *)
theory PeerPorts
  imports PeerCalls
begin

text \<open>
  The search for a local port: \<^verbatim>\<open>Host\<close> tries the automatic range in order, \<^verbatim>\<open>Connect\<close> from a point that
  depends on the clock. Both try the same ports, each once.
\<close>

lemma rotated_range: "set (map (\<lambda>p. (b + p) mod n) [m ..< m + n]) = {..< n}" "distinct (map (\<lambda>p. (b + p) mod n) [m ..< m + n])"
  for b m n :: nat
proof -
  have inj: "inj_on (\<lambda>p. (b + p) mod n) {m ..< m + n}"
  proof (rule linorder_inj_onI)
    fix p q :: nat
    assume pq: "p < q" "p \<in> {m ..< m + n}" "q \<in> {m ..< m + n}"
    show "(b + p) mod n \<noteq> (b + q) mod n"
    proof
      assume "(b + p) mod n = (b + q) mod n"
      then have "n dvd (b + q) - (b + p)" using pq(1) by (metis add_le_cancel_left less_imp_le mod_eq_dvd_iff_nat)
      then have "n \<le> q - p" using pq(1) by (auto dest!: dvd_imp_le)
      with pq show False by auto
    qed
  qed auto
  then show "distinct (map (\<lambda>p. (b + p) mod n) [m ..< m + n])" by (simp add: distinct_map)
  have "(\<lambda>p. (b + p) mod n) ` {m ..< m + n} \<subseteq> {..< n}" by auto
  moreover have "card ((\<lambda>p. (b + p) mod n) ` {m ..< m + n}) = card {..< n}" using card_image [OF inj] by simp
  ultimately have "(\<lambda>p. (b + p) mod n) ` {m ..< m + n} = {..< n}" by (intro card_subset_eq) simp_all
  then show "set (map (\<lambda>p. (b + p) mod n) [m ..< m + n]) = {..< n}" by simp
qed

lemma mset_rotated_range: "mset (map (\<lambda>p. f ((b + p) mod n)) [m ..< m + n]) = mset (map f [0 ..< n])" for b m n :: nat
proof -
  have "mset (map (\<lambda>p. (b + p) mod n) [m ..< m + n]) = mset [0 ..< n]"
    using rotated_range [of b n m]
    by (subst set_eq_iff_mset_eq_distinct [symmetric]) (simp_all add: atLeast0LessThan)
  then have "image_mset f (mset (map (\<lambda>p. (b + p) mod n) [m ..< m + n])) = image_mset f (mset [0 ..< n])" by simp
  then show ?thesis by (simp only: mset_map [symmetric] map_map comp_def)
qed

lemma mset_connect_ports: "mset (connect_ports c) = mset host_ports"
proof -
  define n where "n = AUTO_PORT_MAX - AUTO_PORT_MIN + 1"
  have r: "AUTO_PORT_MAX + 1 = AUTO_PORT_MIN + n" by (simp add: n_def AUTO_PORT_MIN_def AUTO_PORT_MAX_def)
  have "host_ports = map (\<lambda>k. word_of_nat (AUTO_PORT_MIN + k)) [0 ..< n]"
    unfolding host_ports_def r by (rule nth_equalityI) (simp_all del: of_nat_add upt_rec_numeral)
  then show ?thesis
    unfolding connect_ports_def connect_port_def Let_def r
    using mset_rotated_range [of "\<lambda>k. word_of_nat (AUTO_PORT_MIN + k) :: 16 word" "c mod (AUTO_PORT_MAX - AUTO_PORT_MIN)" n AUTO_PORT_MIN]
    by (simp only: n_def)
qed

lemma open_ports_usable:
  "fst (open_ports os a ps d) \<longleftrightarrow>
     (\<exists>p \<in> set ps. snd (create_udp_socket (os p) a p) \<noteq> None \<and> snd (create_listener_socket (os p) a p) \<noteq> None)"
  by (induction ps arbitrary: d) (auto split: option.splits)

text \<open>
  C33: Wherever the clock makes it start, \<^verbatim>\<open>Connect\<close> tries exactly the ports of the automatic range that
  \<^verbatim>\<open>Host\<close> tries, each once, and finds a port on which both sockets open if and only if \<^verbatim>\<open>Host\<close> does.
\<close>

theorem connect_ports_equivalent:
  "mset (connect_ports p_counter) = mset host_ports
   \<and> fst (open_ports os ipaddr (connect_ports p_counter) d) = fst (open_ports os ipaddr host_ports d)"
proof -
  have "set (connect_ports p_counter) = set host_ports" using mset_connect_ports mset_eq_setD by blast
  then show ?thesis using mset_connect_ports by (simp add: open_ports_usable)
qed

end
