(* ===== verification/PeerCompletion.thy ===== *)
theory PeerCompletion
  imports PeerCalls
begin

text \<open>
  The completion of sends: a message to several players is one operation of the application, which is
  told once, with the first failure among the parts.
\<close>

definition send_report :: "async_op \<Rightarrow> hresult \<Rightarrow> dpnmsg list" where
  "send_report x r =
     (if flag_set (op_flags x) DPNSEND_NOCOMPLETE then []
      else [MSG_SEND_COMPLETE (op_handle x) (op_context x) r (receive_flags (op_flags x))])"

text \<open>The parts of an operation end one after the other.\<close>

fun finish_parts :: "app \<Rightarrow> nat \<Rightarrow> hresult list \<Rightarrow> DirectPlay8Peer \<Rightarrow> fault + DirectPlay8Peer" where
  "finish_parts app op [] d = Inr d"
| "finish_parts app op (r # rs) d = ebind (handle_send_complete app op r d) (finish_parts app op rs)"

fun first_failure :: "hresult list \<Rightarrow> hresult" where
  "first_failure [] = S_OK"
| "first_failure (r # rs) = (if r = S_OK then first_failure rs else r)"

definition noted :: "hresult list \<Rightarrow> async_op \<Rightarrow> async_op" where
  "noted rs x = fold note_result rs x"

lemma noted_fields [simp]:
  "op_pending (noted rs x) = op_pending x - int (length rs)" "op_sync (noted rs x) = op_sync x"
  "op_flags (noted rs x) = op_flags x" "op_handle (noted rs x) = op_handle x" "op_context (noted rs x) = op_context x"
  by (induction rs arbitrary: x) (simp_all add: noted_def note_result_def)

lemma noted_failure: "op_result x = Some r \<Longrightarrow> r \<noteq> S_OK \<Longrightarrow> op_result (noted rs x) = Some r"
  by (induction rs arbitrary: x) (simp_all add: noted_def note_result_def)

lemma noted_result: "op_result x = Some S_OK \<Longrightarrow> op_result (noted rs x) = Some (first_failure rs)"
proof (induction rs arbitrary: x)
  case (Cons r rs)
  have "noted (r # rs) x = noted rs (note_result r x)" by (simp add: noted_def)
  then show ?case
    using Cons noted_failure [of "note_result r x" r rs] by (cases "r = S_OK") (simp_all add: note_result_def)
qed (simp add: noted_def)

lemma finish_parts_pending:
  assumes "om_find op (async_ops d) = Some x" "int (length rs) < op_pending x"
  shows "finish_parts app op rs d = Inr (upd_op op (noted rs) d)"
  using assms
proof (induction rs arbitrary: d x)
  case Nil
  have "om_update op (\<lambda>x. x) m = m" for m :: "(nat, async_op) omap" by (simp add: om_update_def case_prod_beta)
  then show ?case by (simp add: noted_def upd_op_def)
next
  case (Cons r rs)
  let ?d = "upd_op op (note_result r) d"
  have "handle_send_complete app op r d = Inr ?d"
    using Cons.prems by (simp add: handle_send_complete_def finish_part_def Let_def note_result_def)
  moreover have "finish_parts app op rs ?d = Inr (upd_op op (noted rs) ?d)"
    using Cons.prems by (intro Cons.IH [of ?d "note_result r x"]) (simp_all add: upd_op_def note_result_def)
  moreover have "noted rs \<circ> note_result r = noted (r # rs)" by (intro ext) (simp add: noted_def)
  ultimately show ?case by (simp add: upd_op_def)
qed

lemma finish_parts_append: "finish_parts app op (rs @ rs') d = ebind (finish_parts app op rs d) (finish_parts app op rs')"
  by (induction rs arbitrary: d) (simp_all add: ebind_def split: sum.splits)

text \<open>
  C10: When the parts of an asynchronous send end, in whatever order and with whatever results, the
  application is told exactly once, by the last part, with the handle and context of the call and the
  result of the first part that failed (or success), unless it asked not to be told; until then
  nothing is delivered, and afterwards the operation is gone.
\<close>

theorem send_completes_once:
  assumes "quiet app" "om_find op (async_ops d) = Some x" "op_pending x = int (length rs) + 1" "\<not> op_sync x"
    "op_result x = Some S_OK"
  shows "(\<exists>d1. finish_parts app op rs d = Inr d1 \<and> delivered d1 = delivered d)
    \<and> (\<exists>d2. finish_parts app op (rs @ [r]) d = Inr d2 \<and> om_find op (async_ops d2) = None
        \<and> delivered d2 = delivered d @ send_report x (first_failure (rs @ [r])))"
proof -
  let ?d1 = "upd_op op (noted rs) d"
  have first: "finish_parts app op rs d = Inr ?d1" by (rule finish_parts_pending [OF assms(2)]) (simp add: assms(3))
  have x: "om_find op (async_ops ?d1) = Some (noted rs x)" using assms(2) by (simp add: upd_op_def)
  have last: "note_result r (noted rs x) = noted (rs @ [r]) x" by (simp add: noted_def)
  let ?d2 = "(upd_op op (note_result r) ?d1)\<lparr>async_ops := om_erase op (async_ops (upd_op op (note_result r) ?d1)),
      delivered := delivered d @ send_report x (first_failure (rs @ [r]))\<rparr>"
  have "handle_send_complete app op r ?d1 = Inr ?d2"
    using assms(3,4) quiet_dispatch_snd [OF assms(1)] noted_result [OF assms(5), of "rs @ [r]"]
    by (simp add: handle_send_complete_def finish_part_def x last Let_def op_final_def send_report_def) (simp add: upd_op_def)
  with first have "finish_parts app op (rs @ [r]) d = Inr ?d2" by (simp add: finish_parts_append)
  with first show ?thesis by (simp add: upd_op_def)
qed

theorem send_completes_once_witness:
  "let x = \<lparr>op_pending = 3, op_sync = False, op_handle = 9, op_context = 4, op_flags = 0, op_result = Some S_OK\<rparr>;
       d = zeroed_memory\<lparr>async_ops := [(0, x)]\<rparr>
   in \<exists>d2. finish_parts silent 0 ([S_OK, DPNERR_CONNECTIONLOST] @ [DPNERR_USERCANCEL]) d = Inr d2
        \<and> delivered d2 = [MSG_SEND_COMPLETE 9 4 DPNERR_CONNECTIONLOST 0]"
  using send_completes_once [of silent 0 "zeroed_memory\<lparr>async_ops := [(0, \<lparr>op_pending = 3, op_sync = False, op_handle = 9,
      op_context = 4, op_flags = 0, op_result = Some S_OK\<rparr>)]\<rparr>" _ "[S_OK, DPNERR_CONNECTIONLOST]" DPNERR_USERCANCEL]
  by (auto simp: om_find_Cons zeroed_memory_def send_report_def flag_set_def receive_flags_def const_defs)

end
