(* ===== verification/PeerBuffers.thy ===== *)
theory PeerBuffers
  imports PeerQueries
begin

text \<open>
  The buffers of the query methods: what is written stays inside the buffer of the caller, and a
  caller that follows the protocol of asking for the size first succeeds.
\<close>

text \<open>
  The contract of a method that fills a buffer of \<open>n\<close> bytes: \<open>r\<close> is its answer and \<open>again\<close> the answer
  when it is called with another size.
\<close>

definition fills :: "dword \<Rightarrow> 'a filled \<Rightarrow> (dword \<Rightarrow> 'a filled) \<Rightarrow> bool" where
  "fills n r again \<longleftrightarrow>
     (f_result r = S_OK \<longrightarrow> f_value r \<noteq> None \<and> f_extra_at r \<le> unat n) \<and>
     (f_result r = DPNERR_BUFFERTOOSMALL \<longrightarrow>
        f_value r = None \<and> f_result (again (f_size r)) = S_OK \<and> f_extra_at (again (f_size r)) = unat (f_size r))"

lemma unat_size_t: "length xs < 2 ^ 32 \<Longrightarrow> unat (size_t xs) = length xs"
  by (simp add: size_t_def unat_word_of_nat_small)

lemma dword_nat: "unat (word_of_nat k :: dword) = k" if "k < 2 ^ 32"
  using that by (simp add: unat_word_of_nat_small)

lemma size_sum:
  "base = word_of_nat b \<Longrightarrow> base + (size_t xs + word_of_nat k) * sizeof_wchar + size_t ys =
     (word_of_nat (b + 2 * (length xs + k) + length ys) :: dword)"
  by (simp add: size_t_def sizeof_wchar_def algebra_simps)

lemma unat_appdesc_size:
  assumes "72 + 2 * (length (session_name d) + 1) + 2 * (length (password d) + 1) + length (application_data d) < 2 ^ 32"
  shows "unat (appdesc_size d) = 72 + 2 * (length (session_name d) + 1)
    + 2 * (length (password d) + (if password d \<noteq> [] then 1 else 0)) + length (application_data d)"
proof -
  have "appdesc_size d = word_of_nat (72 + 2 * (length (session_name d) + 1)
      + 2 * (length (password d) + (if password d \<noteq> [] then 1 else 0)) + length (application_data d))"
    by (simp add: appdesc_size_def size_t_def sizeof_wchar_def sizeof_DPN_APPLICATION_DESC_def algebra_simps)
  then show ?thesis using assms by (simp only:) (rule dword_nat, auto)
qed

lemma appdesc_guard_errors: "appdesc_guard st = Some e \<Longrightarrow> e \<noteq> S_OK \<and> e \<noteq> DPNERR_BUFFERTOOSMALL"
  by (cases st) (auto simp: const_defs)

lemma GetApplicationDesc_written:
  assumes "72 + 2 * (length (session_name d) + 1) + 2 * (length (password d) + 1) + length (application_data d) < 2 ^ 32"
    "appdesc_guard (state d) = None" "appdesc_size d \<le> n" "sz = sizeof_DPN_APPLICATION_DESC \<or> n < sizeof_DPN_APPLICATION_DESC"
  shows "f_result (GetApplicationDesc n sz d) = S_OK \<and> f_value (GetApplicationDesc n sz d) \<noteq> None
    \<and> f_extra_at (GetApplicationDesc n sz d) = unat (appdesc_size d)"
  using assms(2-4)
  by (auto simp: GetApplicationDesc_def unat_appdesc_size [OF assms(1)] put_string_def put_data_def Let_def
      sizeof_DPN_APPLICATION_DESC_def not_le)

lemma GetApplicationDesc_fills:
  assumes "72 + 2 * (length (session_name d) + 1) + 2 * (length (password d) + 1) + length (application_data d) < 2 ^ 32"
  shows "fills n (GetApplicationDesc n sz d) (\<lambda>n'. GetApplicationDesc n' sizeof_DPN_APPLICATION_DESC d)"
proof (cases "appdesc_guard (state d)")
  case (Some e)
  then show ?thesis using appdesc_guard_errors [OF Some] by (simp add: fills_def GetApplicationDesc_def)
next
  case None
  have inv: "DPNERR_INVALIDPARAM \<noteq> S_OK" "DPNERR_INVALIDPARAM \<noteq> DPNERR_BUFFERTOOSMALL" "DPNERR_BUFFERTOOSMALL \<noteq> S_OK"
    by (simp_all add: const_defs)
  note ok = GetApplicationDesc_written [OF assms None]
  consider (param) "n \<ge> sizeof_DPN_APPLICATION_DESC" "sz \<noteq> sizeof_DPN_APPLICATION_DESC"
    | (fits) "appdesc_size d \<le> n" "sz = sizeof_DPN_APPLICATION_DESC \<or> n < sizeof_DPN_APPLICATION_DESC"
    | (small) "n < appdesc_size d" "sz = sizeof_DPN_APPLICATION_DESC \<or> n < sizeof_DPN_APPLICATION_DESC"
    by fastforce
  then show ?thesis
  proof cases
    case param
    then show ?thesis using None inv by (simp add: fills_def GetApplicationDesc_def)
  next
    case fits
    then show ?thesis using ok [OF fits] inv by (simp add: fills_def word_le_nat_alt)
  next
    case small
    then have "GetApplicationDesc n sz d = \<lparr>f_result = DPNERR_BUFFERTOOSMALL, f_size = appdesc_size d, f_value = None, f_extra_at = 0\<rparr>"
      using None by (auto simp: GetApplicationDesc_def)
    then show ?thesis using ok [of "appdesc_size d" sizeof_DPN_APPLICATION_DESC] inv by (simp add: fills_def)
  qed
qed

text \<open>Names and data of groups and players.\<close>

lemma unat_info_size:
  assumes "24 + 2 * (length name + 1) + length dat < 2 ^ 32"
  shows "unat (info_size 24 name dat) = 24 + (if name \<noteq> [] then 2 * (length name + 1) else 0) + length dat"
proof -
  have "info_size 24 name dat = word_of_nat (24 + (if name \<noteq> [] then 2 * (length name + 1) else 0) + length dat)"
    by (simp add: info_size_def size_t_def sizeof_wchar_def algebra_simps)
  then show ?thesis using assms by (simp only:) (rule dword_nat, auto)
qed

lemma put_info_end:
  assumes "24 + 2 * (length name + 1) + length dat < 2 ^ 32"
  shows "snd (put_info 24 name dat kind) = unat (info_size 24 name dat)"
  by (simp add: unat_info_size [OF assms] put_info_def put_string_def put_data_def Let_def)

lemma GetGroupInfo_fills:
  assumes "get_group_by_id gid d = Some g" "24 + 2 * (length (group_name g) + 1) + length (group_data g) < 2 ^ 32"
  shows "fills n (GetGroupInfo gid n sz d) (\<lambda>n'. GetGroupInfo gid n' sizeof_DPN_GROUP_INFO d)"
  using assms put_info_end [OF assms(2)]
  by (auto simp: fills_def GetGroupInfo_def Let_def sizeof_DPN_GROUP_INFO_def const_defs case_prod_beta word_le_nat_alt word_less_nat_alt)

lemma player_info_size:
  "sizeof_DPN_PLAYER_INFO + size_t dat + (size_t name + (if name \<noteq> [] then 1 else 0)) * sizeof_wchar = info_size 24 name dat"
  by (simp add: info_size_def size_t_def sizeof_DPN_PLAYER_INFO_def)

lemma GetPeerInfo_fills:
  assumes "(if pid = local_player_id d then Some (local_player_name d, local_player_data d)
      else map_option (\<lambda>p. (player_name p, player_data p)) (get_peer_by_player_id pid d)) = Some (name, dat)"
    "24 + 2 * (length name + 1) + length dat < 2 ^ 32"
  shows "fills n (GetPeerInfo pid buf n sz d) (\<lambda>n'. GetPeerInfo pid True n' sizeof_DPN_PLAYER_INFO d)"
  using put_info_end [OF assms(2)]
  unfolding GetPeerInfo_def assms(1) option.case prod.case player_info_size
  by (auto simp: fills_def Let_def sizeof_DPN_PLAYER_INFO_def const_defs case_prod_beta word_le_nat_alt word_less_nat_alt)

text \<open>Names and data short enough for the sizes to be representable.\<close>

definition short :: "wchar list \<Rightarrow> byte list \<Rightarrow> bool" where
  "short name dat \<longleftrightarrow> length name < 2 ^ 29 \<and> length dat < 2 ^ 29"

definition short_texts :: "DirectPlay8Peer \<Rightarrow> bool" where
  "short_texts d \<longleftrightarrow> short (session_name d) (application_data d) \<and> short (password d) []
     \<and> short (local_player_name d) (local_player_data d)
     \<and> list_all (\<lambda>(i, p). short (player_name p) (player_data p)) (peers d)
     \<and> list_all (\<lambda>(i, g). short (group_name g) (group_data g)) (groups d)"

lemma short_info: "short name dat \<Longrightarrow> 24 + 2 * (length name + 1) + length dat < 2 ^ 32"
  by (simp add: short_def)

text \<open>
  C32: As long as no name or data block reaches half a gigabyte, \<^verbatim>\<open>GetApplicationDesc\<close>, \<^verbatim>\<open>GetGroupInfo\<close> and
  \<^verbatim>\<open>GetPeerInfo\<close> write only inside the buffer of the caller, and after \<^verbatim>\<open>DPNERR_BUFFERTOOSMALL\<close> a call with
  exactly the reported size succeeds and fills it to the last byte.
\<close>

theorem query_buffers_respected:
  assumes "short_texts d"
  shows "fills n (GetApplicationDesc n sz d) (\<lambda>n'. GetApplicationDesc n' sizeof_DPN_APPLICATION_DESC d)
    \<and> fills n (GetGroupInfo gid n sz d) (\<lambda>n'. GetGroupInfo gid n' sizeof_DPN_GROUP_INFO d)
    \<and> fills n (GetPeerInfo pid buf n sz d) (\<lambda>n'. GetPeerInfo pid True n' sizeof_DPN_PLAYER_INFO d)"
proof (intro conjI)
  show "fills n (GetApplicationDesc n sz d) (\<lambda>n'. GetApplicationDesc n' sizeof_DPN_APPLICATION_DESC d)"
    using assms by (intro GetApplicationDesc_fills) (simp add: short_texts_def short_def)
  show "fills n (GetGroupInfo gid n sz d) (\<lambda>n'. GetGroupInfo gid n' sizeof_DPN_GROUP_INFO d)"
  proof (cases "get_group_by_id gid d")
    case None
    then show ?thesis by (simp add: fills_def GetGroupInfo_def Let_def const_defs)
  next
    case (Some g)
    then have "short (group_name g) (group_data g)"
      using assms by (auto simp: short_texts_def get_group_by_id_def list_all_iff dest: om_find_Some_mem)
    then show ?thesis by (intro GetGroupInfo_fills [OF Some] short_info)
  qed
  show "fills n (GetPeerInfo pid buf n sz d) (\<lambda>n'. GetPeerInfo pid True n' sizeof_DPN_PLAYER_INFO d)"
  proof (cases "if pid = local_player_id d then Some (local_player_name d, local_player_data d)
      else map_option (\<lambda>p. (player_name p, player_data p)) (get_peer_by_player_id pid d)")
    case None
    then show ?thesis unfolding GetPeerInfo_def None by (simp add: fills_def Let_def const_defs)
  next
    case (Some x)
    obtain name dat where x: "x = (name, dat)" by fastforce
    have "short name dat"
      using assms Some x
      by (auto simp: short_texts_def get_peer_by_player_id_def get_peer_by_peer_id_def list_all_iff
          dest!: om_find_Some_mem split: if_splits option.splits)
    then show ?thesis by (intro GetPeerInfo_fills [OF Some [unfolded x]] short_info)
  qed
qed

text \<open>A host whose session has a name of one character: 72 bytes and two characters are needed.\<close>

theorem query_buffers_respected_witness:
  "let d = zeroed_memory\<lparr>state := STATE_HOSTING, session_name := [65]\<rparr>; r = GetApplicationDesc 75 72 d
   in f_result r = DPNERR_BUFFERTOOSMALL \<and> f_size r = 76 \<and> f_result (GetApplicationDesc 76 72 d) = S_OK
     \<and> f_extra_at (GetApplicationDesc 76 72 d) = 76"
proof -
  define d where "d = zeroed_memory\<lparr>state := STATE_HOSTING, session_name := [65]\<rparr>"
  have "short_texts d" by (simp add: d_def short_texts_def short_def zeroed_memory_def)
  from query_buffers_respected [OF this, of 75 72 0 0 False]
  have f: "fills 75 (GetApplicationDesc 75 72 d) (\<lambda>n'. GetApplicationDesc n' sizeof_DPN_APPLICATION_DESC d)" by simp
  have "appdesc_size d = 76"
    by (simp add: appdesc_size_def d_def zeroed_memory_def size_t_def sizeof_wchar_def sizeof_DPN_APPLICATION_DESC_def)
  then have "f_result (GetApplicationDesc 75 72 d) = DPNERR_BUFFERTOOSMALL \<and> f_size (GetApplicationDesc 75 72 d) = 76"
    by (simp add: GetApplicationDesc_def sizeof_DPN_APPLICATION_DESC_def) (simp add: d_def)
  with f show ?thesis unfolding Let_def d_def [symmetric] by (simp add: fills_def sizeof_DPN_APPLICATION_DESC_def)
qed

end
