(* ===== verification/PeerHandshake.thy ===== *)
theory PeerHandshake
  imports PeerIO PeerCalls
begin

text \<open>
  What the host writes and the joining peer reads: the answer to a request to join, and changes of the
  description of the session.
\<close>

lemma serialise_received:
  assumes "length (serialise t fs) < 2 ^ 32"
  obtains pd where "PacketDeserialiser (fst (raw_packet (serialise t fs))) (word_of_nat (length (serialise t fs)) :: 32 word) = Some (Inr pd)"
    "represents pd t fs"
proof -
  have b: "serialise t fs = packet_bytes t fs"
    unfolding serialise_def PacketSerialiser_packet_bytes foldl_append_field by simp
  define pd where "pd = \<lparr>pd_mem = packet_bytes t fs @ [], pd_header = 0, pd_fields = field_offsets 8 fs\<rparr>"
  have "PacketDeserialiser (fst (raw_packet (serialise t fs))) (word_of_nat (length (serialise t fs)) :: 32 word) = Some (Inr pd)"
    using PacketDeserialiser_packet_bytes [OF _ assms [unfolded b], of "[]", where 'z = 32]
    unfolding b by (simp only: pd_def raw_packet_def append_Nil2 fst_conv) simp
  moreover have "represents pd t fs"
    by (rule packet_bytes_represents [OF assms [unfolded b], of _ "[]"]) (simp add: pd_def)
  ultimately show ?thesis by (rule that)
qed

section \<open>The answer of the host\<close>

definition others :: "dword \<Rightarrow> DirectPlay8Peer \<Rightarrow> (dword \<times> dword \<times> dword) list" where
  "others i d = map (\<lambda>(j, p). (player_id p, ip p, ucast (port p)))
     (filter (\<lambda>(j, p). j \<noteq> i \<and> pstate p = PS_CONNECTED) (peers d))"

definition triples :: "(dword \<times> dword \<times> dword) list \<Rightarrow> field list" where
  "triples xs = concat (map (\<lambda>(a, b, c). [FDword a, FDword b, FDword c]) xs)"

lemma other_peer_fields_triples: "other_peer_fields i d = triples (others i d)"
proof -
  have "concat (map (\<lambda>(j, p). [FDword (player_id p), FDword (ip p), FDword (ucast (port p))]) m) =
      triples (map (\<lambda>(j, p). (player_id p, ip p, ucast (port p))) m)" for m :: "(dword \<times> Peer) list"
    by (induction m) (auto simp: triples_def)
  then show ?thesis by (simp add: other_peer_fields_def others_def)
qed

lemma length_triples [simp]: "length (triples xs) = 3 * length xs"
  by (induction xs) (auto simp: triples_def)

text \<open>Reading field by field from a list of fields, as the accessors of a packet do.\<close>

definition reads :: "pd \<Rightarrow> field list \<Rightarrow> bool" where
  "reads pd fs \<longleftrightarrow> (\<forall>k. get_dword pd k = field_access as_dword fs k) \<and> (\<forall>k. get_data pd k = field_access as_data fs k)
     \<and> (\<forall>k. get_wstring pd k = field_access as_wstring fs k) \<and> (\<forall>k. get_guid pd k = field_access as_guid fs k)
     \<and> (\<forall>k. is_null pd k = field_access (\<lambda>f. Inr (f = FNull)) fs k)"

lemma represents_reads: "represents pd t fs \<Longrightarrow> reads pd fs"
  by (simp add: represents_def reads_def)

lemma reads_at:
  assumes "reads pd fs" "fs = pre @ f # post" "k = length pre"
  shows "get_dword pd k = as_dword f" "get_data pd k = as_data f" "get_wstring pd k = as_wstring f" "get_guid pd k = as_guid f"
    "is_null pd k = Inr (f = FNull)"
  using assms by (simp_all add: reads_def field_access_def nth_append)

lemma parse_peers_triples:
  "reads pd (pre @ triples xs @ post) \<Longrightarrow> n \<le> length xs \<Longrightarrow> parse_peers pd (length pre) n = Inr (take n xs)"
proof (induction n arbitrary: pre xs)
  case (Suc n)
  then obtain a b c ys where xs: "xs = (a, b, c) # ys" by (cases xs) auto
  let ?pre = "pre @ [FDword a, FDword b, FDword c]"
  have r: "reads pd (?pre @ triples ys @ post)" using Suc.prems(1) by (simp add: xs triples_def)
  have r': "reads pd (pre @ FDword a # FDword b # FDword c # triples ys @ post)" using r by simp
  have "get_dword pd (length pre) = Inr a" "get_dword pd (Suc (length pre)) = Inr b" "get_dword pd (Suc (Suc (length pre))) = Inr c"
    using reads_at(1) [OF r' refl refl] reads_at(1) [OF r', of "pre @ [FDword a]"] reads_at(1) [OF r', of "pre @ [FDword a, FDword b]"]
    by simp_all
  moreover have "parse_peers pd (length ?pre) n = Inr (take n ys)" using Suc.IH [OF r] Suc.prems(2) xs by simp
  ultimately show ?case by (simp add: xs numeral_3_eq_3)
qed simp

lemma parse_peers_beyond:
  "reads pd (pre @ triples xs @ f # post) \<Longrightarrow> \<not> is_FDword f \<Longrightarrow> length xs < n \<Longrightarrow> \<exists>e. parse_peers pd (length pre) n = Inl e"
proof (induction xs arbitrary: pre n)
  case Nil
  then obtain m where "n = Suc m" by (cases n) auto
  moreover have "get_dword pd (length pre) = as_dword f" using reads_at(1) [of pd _ pre f post] Nil.prems(1) by (simp add: triples_def)
  ultimately show ?case using Nil.prems(2) by (cases f) auto
next
  case (Cons x xs)
  obtain a b c where x: "x = (a, b, c)" by (cases x)
  obtain m where n: "n = Suc m" using Cons.prems(3) by (cases n) auto
  let ?pre = "pre @ [FDword a, FDword b, FDword c]"
  have r: "reads pd (?pre @ triples xs @ f # post)" using Cons.prems(1) by (simp add: x triples_def)
  have r': "reads pd (pre @ FDword a # FDword b # FDword c # triples xs @ f # post)" using r by simp
  have "get_dword pd (length pre) = Inr a" "get_dword pd (Suc (length pre)) = Inr b" "get_dword pd (Suc (Suc (length pre))) = Inr c"
    using reads_at(1) [OF r' refl refl] reads_at(1) [OF r', of "pre @ [FDword a]"] reads_at(1) [OF r', of "pre @ [FDword a, FDword b]"]
    by simp_all
  moreover obtain e where "parse_peers pd (length ?pre) m = Inl e" using Cons.IH [OF r Cons.prems(2)] Cons.prems(3) n by auto
  ultimately show ?case by (simp add: n numeral_3_eq_3)
qed

lemma parse_dwords_all: "reads pd (pre @ map FDword gs) \<Longrightarrow> parse_dwords pd (length pre) (length gs) = Inr gs"
proof (induction gs arbitrary: pre)
  case (Cons g gs)
  have "get_dword pd (length pre) = Inr g" using reads_at(1) [OF Cons.prems, of pre] by simp
  moreover have "parse_dwords pd (length (pre @ [FDword g])) (length gs) = Inr gs" using Cons.prems by (intro Cons.IH) simp
  ultimately show ?case by simp
qed simp

text \<open>The part of the packet behind the list of players.\<close>

definition host_fields :: "byte list \<Rightarrow> DirectPlay8Peer \<Rightarrow> field list" where
  "host_fields reply d =
     [data_or_null reply, FWstring (local_player_name d), FData (local_player_data d), FDword (max_players d),
      FWstring (session_name d), FWstring (password d), FData (application_data d),
      FDword (word_of_nat (length (member_group_ids d)))]"

definition announced :: "DirectPlay8Peer \<Rightarrow> dword" where
  "announced d = word_of_nat (length (player_to_peer_id d)) - 1"

lemma host_ok_fields_parts:
  "host_ok_fields i pid reply d =
     [FGuid (instance_guid d), FDword (host_player_id d), FDword pid, FDword (announced d)] @ triples (others i d)
     @ host_fields reply d @ map FDword (member_group_ids d)"
  by (simp add: host_ok_fields_def host_fields_def announced_def other_peer_fields_triples)

lemma reads_block:
  "reads pd (pre @ fs @ post) \<Longrightarrow> k < length fs \<Longrightarrow>
     get_dword pd (length pre + k) = as_dword (fs ! k) \<and> get_data pd (length pre + k) = as_data (fs ! k)
     \<and> get_wstring pd (length pre + k) = as_wstring (fs ! k) \<and> get_guid pd (length pre + k) = as_guid (fs ! k)
     \<and> is_null pd (length pre + k) = Inr (fs ! k = FNull)"
  by (simp add: reads_def field_access_def nth_append)

lemma host_head:
  assumes "reads pd (host_ok_fields i pid reply d)"
  shows "get_guid pd 0 = Inr (instance_guid d)" "get_dword pd (Suc 0) = Inr (host_player_id d)" "get_dword pd 2 = Inr pid"
    "get_dword pd 3 = Inr (announced d)"
  using assms by (simp_all add: host_ok_fields_parts reads_def field_access_def)

lemma head_length: "length [a, b, c, e] = 4"
  by simp

lemma parse_host_ok_others:
  assumes r: "reads pd (host_ok_fields i pid reply d)" and n: "unat (announced d) \<noteq> length (others i d)"
  shows "\<exists>e. parse_host_ok pd = Inl e"
proof -
  let ?head = "[FGuid (instance_guid d), FDword (host_player_id d), FDword pid, FDword (announced d)]"
  let ?rest = "host_fields reply d @ map FDword (member_group_ids d)"
  have r': "reads pd (?head @ triples (others i d) @ ?rest)" using r by (simp only: host_ok_fields_parts append.assoc)
  show ?thesis
  proof (cases "length (others i d) < unat (announced d)")
    case True
    have "reads pd (?head @ triples (others i d) @ data_or_null reply # tl (host_fields reply d) @ map FDword (member_group_ids d))"
      using r' by (simp add: host_fields_def)
    moreover have "\<not> is_FDword (data_or_null reply)" by (simp add: data_or_null_def)
    ultimately obtain e where "parse_peers pd (length ?head) (unat (announced d)) = Inl e"
      using parse_peers_beyond True by blast
    then have "parse_peers pd 4 (unat (announced d)) = Inl e" by (simp only: head_length)
    then show ?thesis by (simp add: parse_host_ok_def host_head [OF r])
  next
    case False
    then have less: "unat (announced d) < length (others i d)" using n by simp
    have ps: "parse_peers pd 4 (unat (announced d)) = Inr (take (unat (announced d)) (others i d))"
      using parse_peers_triples [OF r', of "unat (announced d)"] less by (simp only: head_length less_imp_le)
    let ?k = "3 * unat (announced d)"
    obtain v where v: "triples (others i d) ! ?k = FDword v"
    proof -
      have "k < length xs \<Longrightarrow> \<exists>v. triples xs ! (3 * k) = FDword v" for k xs
      proof (induction xs arbitrary: k)
        case (Cons x xs)
        obtain a b c where "x = (a, b, c)" by (cases x)
        then have t: "triples (x # xs) = FDword a # FDword b # FDword c # triples xs" by (simp add: triples_def)
        show ?case
        proof (cases k)
          case (Suc j)
          then have "3 * k = Suc (Suc (Suc (3 * j)))" by simp
          then show ?thesis using Cons.IH [of j] Cons.prems Suc by (simp only: t nth_Cons_Suc) simp
        qed (simp add: t)
      qed simp
      then show thesis using less that by blast
    qed
    from reads_block [OF r', of ?k, unfolded head_length] less v have "is_null pd (4 + ?k) = Inr False" "get_data pd (4 + ?k) = Inl TypeMismatch"
      by simp_all
    then have "optional_data pd (4 + ?k) = Inl TypeMismatch" by (simp add: optional_data_def)
    then show ?thesis by (simp add: parse_host_ok_def host_head [OF r] ps Let_def)
  qed
qed

lemma parse_host_ok_same:
  assumes r: "reads pd (host_ok_fields i pid reply d)" and n: "unat (announced d) = length (others i d)"
    and g: "length (member_group_ids d) < 2 ^ 32"
  shows "parse_host_ok pd = Inr \<lparr>ho_instance = instance_guid d, ho_host_id = host_player_id d, ho_local_id = pid,
    ho_peers = others i d, ho_reply = reply, ho_name = local_player_name d, ho_data = local_player_data d,
    ho_max_players = max_players d, ho_session_name = session_name d, ho_password = password d,
    ho_application_data = application_data d, ho_groups = member_group_ids d\<rparr>"
proof -
  let ?head = "[FGuid (instance_guid d), FDword (host_player_id d), FDword pid, FDword (announced d)]"
  let ?pre = "?head @ triples (others i d)"
  let ?gs = "map FDword (member_group_ids d)"
  have r1: "reads pd (?head @ triples (others i d) @ host_fields reply d @ ?gs)" using r by (simp only: host_ok_fields_parts append.assoc)
  have ps: "parse_peers pd 4 (length (others i d)) = Inr (others i d)" using parse_peers_triples [OF r1, of "length (others i d)"]
    by (simp only: head_length take_all order_refl)
  have r2: "reads pd (?pre @ host_fields reply d @ ?gs)" using r1 by (simp only: append.assoc)
  define base where "base = 4 + 3 * length (others i d)"
  have b: "length ?pre = base" by (simp add: base_def)
  have at: "get_dword pd (base + k) = as_dword (host_fields reply d ! k)" "get_data pd (base + k) = as_data (host_fields reply d ! k)"
    "get_wstring pd (base + k) = as_wstring (host_fields reply d ! k)" "is_null pd (base + k) = Inr (host_fields reply d ! k = FNull)"
    if "k < 8" for k
    using reads_block [OF r2, of k] that unfolding b by (simp_all add: host_fields_def)
  have opt: "optional_data pd base = Inr (if reply = [] then None else Some reply)"
    using at(2,4) [of 0] by (simp add: optional_data_def host_fields_def data_or_null_def)
  have "reads pd ((?pre @ host_fields reply d) @ ?gs)" using r2 by (simp only: append.assoc)
  moreover have "length (?pre @ host_fields reply d) = base + 8" by (simp add: base_def host_fields_def)
  ultimately have gs: "parse_dwords pd (base + 8) (length (member_group_ids d)) = Inr (member_group_ids d)"
    using parse_dwords_all [of pd "?pre @ host_fields reply d"] by (simp only:)
  have ng: "unat (word_of_nat (length (member_group_ids d)) :: dword) = length (member_group_ids d)"
    using g by (simp add: unat_word_of_nat_small)
  have f: "get_wstring pd (base + 1) = Inr (local_player_name d)" "get_data pd (base + 2) = Inr (local_player_data d)"
    "get_dword pd (base + 3) = Inr (max_players d)" "get_wstring pd (base + 4) = Inr (session_name d)"
    "get_wstring pd (base + 5) = Inr (password d)" "get_data pd (base + 6) = Inr (application_data d)"
    "get_dword pd (base + 7) = Inr (word_of_nat (length (member_group_ids d)))"
    using at(1) [of 3] at(1) [of 7] at(2) [of 2] at(2) [of 6] at(3) [of 1] at(3) [of 4] at(3) [of 5]
    by (simp_all add: host_fields_def)
  show ?thesis
    unfolding parse_host_ok_def Let_def
    by (simp only: host_head(1,3,4) [OF r] host_head(2) [OF r, folded One_nat_def] ebind_simps n ps opt f ng gs flip: base_def) simp
qed

text \<open>
  C7: The joining peer reads from the host's \<^verbatim>\<open>DPLITE_MSGID_CONNECT_HOST_OK\<close> packet exactly what the host
  put in (identifiers, the other connected players with their addresses, reply data, the host's name and
  data, the session's description, the host's groups) if the announced number of players, the number of
  entries of \<^verbatim>\<open>player_to_peer_id\<close> less one, is the number of connected players listed; whenever the two
  differ the packet cannot be parsed.
\<close>

theorem host_ok_round_trip:
  assumes "represents pd DPLITE_MSGID_CONNECT_HOST_OK (host_ok_fields i pid reply d)" "length (member_group_ids d) < 2 ^ 32"
  shows "if unat (announced d) = length (others i d)
    then parse_host_ok pd = Inr \<lparr>ho_instance = instance_guid d, ho_host_id = host_player_id d, ho_local_id = pid,
      ho_peers = others i d, ho_reply = reply, ho_name = local_player_name d, ho_data = local_player_data d,
      ho_max_players = max_players d, ho_session_name = session_name d, ho_password = password d,
      ho_application_data = application_data d, ho_groups = member_group_ids d\<rparr>
    else \<exists>e. parse_host_ok pd = Inl e"
  using parse_host_ok_same [OF represents_reads [OF assms(1)] _ assms(2)] parse_host_ok_others [OF represents_reads [OF assms(1)]]
  by simp

text \<open>A host with one connected player and the newcomer, and the same host while a player is closing.\<close>

definition demo_session :: "PeerState \<Rightarrow> DirectPlay8Peer" where
  "demo_session s = zeroed_memory\<lparr>host_player_id := 1, local_player_id := 1, session_name := [65],
     peers := [(0, new_Peer 2 0 0 s 5 7 8), (1, new_Peer 3 0 0 PS_CONNECTED 6 9 10)],
     player_to_peer_id := [(2, 0), (3, 1)]\<rparr>"

definition demo_answer :: "PeerState \<Rightarrow> pd" where
  "demo_answer s = (let b = packet_bytes DPLITE_MSGID_CONNECT_HOST_OK (host_ok_fields 1 3 [] (demo_session s))
     in \<lparr>pd_mem = b, pd_header = 0, pd_fields = field_offsets 8 (host_ok_fields 1 3 [] (demo_session s))\<rparr>)"

lemma demo_answer_represents:
  "represents (demo_answer s) DPLITE_MSGID_CONNECT_HOST_OK (host_ok_fields 1 3 [] (demo_session s))"
proof (rule packet_bytes_represents [where rest = "[]"])
  have "length (concat (map field_bytes (other_peer_fields 1 (demo_session s)))) \<le> 36"
    by (simp add: other_peer_fields_def demo_session_def length_field_bytes)
  moreover have "member_group_ids (demo_session s) = []" by (simp add: member_group_ids_def demo_session_def zeroed_memory_def)
  ultimately show "length (packet_bytes DPLITE_MSGID_CONNECT_HOST_OK (host_ok_fields 1 3 [] (demo_session s))) < 2 ^ 32"
    by (simp add: packet_bytes_def host_ok_fields_def length_field_bytes data_or_null_def demo_session_def zeroed_memory_def)
qed (simp add: demo_answer_def)

theorem host_ok_round_trip_witness:
  "(\<exists>ho. parse_host_ok (demo_answer PS_CONNECTED) = Inr ho \<and> ho_peers ho = [(2, 7, 8)] \<and> ho_session_name ho = [65])
   \<and> (\<exists>e. parse_host_ok (demo_answer PS_CLOSING) = Inl e)"
  using host_ok_round_trip [OF demo_answer_represents [of PS_CONNECTED]] host_ok_round_trip [OF demo_answer_represents [of PS_CLOSING]]
  by (simp add: announced_def others_def demo_session_def zeroed_memory_def new_Peer_def member_group_ids_def)

section \<open>The description of the session\<close>

text \<open>
  C8: When the host changes the description of the session, every connected peer is queued one packet
  after which, received and dispatched, it holds the host's maximum of players, session name, password
  and application data, and its application is told.
\<close>

theorem application_desc_propagates:
  assumes "quiet app" "SetApplicationDesc app ad d = Inr (S_OK, d')" "length (appdesc_packet d') < 2 ^ 32"
    "quiet app'" "get_peer_by_peer_id i e = Some p" "pstate p = PS_CONNECTED" "player_id p = host_player_id e"
  shows "(\<forall>(j, q) \<in> set (peers d). pstate q = PS_CONNECTED \<longrightarrow>
        (j, q\<lparr>sq := send SEND_PRI_MEDIUM (appdesc_packet d') None CbNone (sq q)\<rparr>) \<in> set (peers d'))
    \<and> (\<exists>pd. PacketDeserialiser (fst (raw_packet (appdesc_packet d')))
          (word_of_nat (length (appdesc_packet d')) :: 32 word) = Some (Inr pd)
        \<and> handle_packet mb app' fuel env i pd e = Inr (e\<lparr>max_players := max_players d', session_name := session_name d',
            password := password d', application_data := application_data d', delivered := delivered e @ [MSG_APPLICATION_DESC]\<rparr>))"
proof -
  define d1 where "d1 pw n = d\<lparr>max_players := ad_dwMaxPlayers ad, session_name := n, password := pw, application_data := desc_data ad\<rparr>" for pw n
  obtain pw n where d': "d' = snd (dispatch_message app MSG_APPLICATION_DESC
      (send_to_connected SEND_PRI_MEDIUM (appdesc_packet (d1 pw n)) CbNone (d1 pw n)))"
    using assms(2)
    by (auto simp: SetApplicationDesc_def ebind_def Let_def d1_def const_defs split: if_splits option.splits sum.splits)
  have p': "peers d' = map (\<lambda>(j, q). (j, if pstate q = PS_CONNECTED
      then q\<lparr>sq := send SEND_PRI_MEDIUM (appdesc_packet (d1 pw n)) None CbNone (sq q)\<rparr> else q)) (peers d)"
    unfolding d' quiet_dispatch_snd [OF assms(1)]
    by (simp add: send_to_connected_def) (simp add: d1_def)
  have same: "appdesc_packet d' = appdesc_packet (d1 pw n)"
    unfolding d' quiet_dispatch_snd [OF assms(1)] by (simp add: send_to_connected_def appdesc_packet_def)
  obtain pd where pd: "PacketDeserialiser (fst (raw_packet (appdesc_packet d'))) (word_of_nat (length (appdesc_packet d')) :: 32 word) = Some (Inr pd)"
    and "represents pd DPLITE_MSGID_APPDESC
      [FDword (max_players d'), FWstring (session_name d'), FWstring (password d'), FData (application_data d')]"
    using serialise_received assms(3) unfolding appdesc_packet_def by blast
  then have "handle_packet mb app' fuel env i pd e = Inr (e\<lparr>max_players := max_players d', session_name := session_name d',
      password := password d', application_data := application_data d', delivered := delivered e @ [MSG_APPLICATION_DESC]\<rparr>)"
    using assms(5-7) quiet_dispatch_snd [OF assms(4)]
    by (simp add: represents_def field_access_def handle_packet_def handle_appdesc_def with_peer_def msgid_defs)
  moreover have "\<forall>(j, q) \<in> set (peers d). pstate q = PS_CONNECTED \<longrightarrow>
      (j, q\<lparr>sq := send SEND_PRI_MEDIUM (appdesc_packet d') None CbNone (sq q)\<rparr>) \<in> set (peers d')"
    unfolding p' same by force
  ultimately show ?thesis using pd by blast
qed

theorem application_desc_propagates_witness:
  "let ad = \<lparr>ad_dwFlags = 0, ad_guidInstance = 0, ad_guidApplication = 0, ad_dwMaxPlayers = 4, ad_dwCurrentPlayers = 0,
         ad_pwszSessionName = Some [66], ad_pwszPassword = None, ad_pvApplicationReservedData = Some [1, 2]\<rparr>;
       d = (demo_session PS_CONNECTED)\<lparr>state := STATE_HOSTING\<rparr>;
       e = zeroed_memory\<lparr>host_player_id := 1, peers := [(0, new_Peer 1 0 0 PS_CONNECTED 5 0 0)]\<rparr>
   in \<exists>d' pd e'. SetApplicationDesc silent ad d = Inr (S_OK, d')
     \<and> PacketDeserialiser (fst (raw_packet (appdesc_packet d'))) (word_of_nat (length (appdesc_packet d')) :: 32 word) = Some (Inr pd)
     \<and> handle_packet (\<lambda>_ _. []) silent 3 (\<lambda>_. undefined) 0 pd e = Inr e' \<and> session_name e' = [66] \<and> max_players e' = 4"
proof -
  define ad where "ad = \<lparr>ad_dwFlags = 0, ad_guidInstance = 0, ad_guidApplication = 0, ad_dwMaxPlayers = 4, ad_dwCurrentPlayers = 0,
    ad_pwszSessionName = Some [66], ad_pwszPassword = None, ad_pvApplicationReservedData = Some [1, 2]\<rparr>"
  define d where "d = (demo_session PS_CONNECTED)\<lparr>state := STATE_HOSTING\<rparr>"
  define e where "e = zeroed_memory\<lparr>host_player_id := 1, peers := [(0, new_Peer 1 0 0 PS_CONNECTED 5 0 0)]\<rparr>"
  obtain d' where s: "SetApplicationDesc silent ad d = Inr (S_OK, d')" and f: "max_players d' = 4" "session_name d' = [66]"
      "password d' = []" "application_data d' = [1, 2]"
    by (simp add: SetApplicationDesc_def ad_def d_def demo_session_def desc_password_def desc_data_def flag_set_def Let_def
        quiet_dispatch_snd send_to_connected_def)
  have len: "length (appdesc_packet d') < 2 ^ 32"
    unfolding appdesc_packet_def serialise_def PacketSerialiser_packet_bytes foldl_append_field
    by (simp add: f packet_bytes_def length_field_bytes)
  have "get_peer_by_peer_id 0 e = Some (new_Peer 1 0 0 PS_CONNECTED 5 0 0)"
    by (simp add: e_def get_peer_by_peer_id_def om_find_Cons)
  from application_desc_propagates [OF quiet_silent s len quiet_silent this, of "\<lambda>_ _. []" 3 "\<lambda>_. undefined"]
  obtain pd where "PacketDeserialiser (fst (raw_packet (appdesc_packet d'))) (word_of_nat (length (appdesc_packet d')) :: 32 word) = Some (Inr pd)"
    "\<exists>e'. handle_packet (\<lambda>_ _. []) silent 3 (\<lambda>_. undefined) 0 pd e = Inr e' \<and> session_name e' = [66] \<and> max_players e' = 4"
    by (auto simp: f new_Peer_def e_def)
  with s show ?thesis unfolding Let_def ad_def [symmetric] d_def [symmetric] e_def [symmetric] by blast
qed

end
