(* ===== verification/PeerAborts.thy ===== *)
theory PeerAborts
  imports PeerIO PeerCalls
begin

text \<open>
  Where the peer object stops the process: an exception of the deserialiser that nobody catches, and
  an assertion that fails because a loop does not advance.
\<close>

section \<open>An unfinished handshake\<close>

definition empty_request :: "byte list" where
  "empty_request = packet_bytes DPLITE_MSGID_CONNECT_HOST []"

lemma next_frame_empty_request: "next_frame (empty_request @ []) = Frame 8"
  by (simp add: next_frame_def empty_request_def packet_bytes_def tlv_def chunk_bytes_def MAX_PACKET_SIZE_def)

lemma empty_request_reads:
  "\<exists>pd. PacketDeserialiser (empty_request @ []) (8 :: 32 word) = Some (Inr pd) \<and> represents pd DPLITE_MSGID_CONNECT_HOST []"
proof -
  have len: "length (packet_bytes DPLITE_MSGID_CONNECT_HOST []) = 8" by (simp add: packet_bytes_def)
  have small: "length (packet_bytes DPLITE_MSGID_CONNECT_HOST []) < 2 ^ 32" by (simp add: len)
  let ?pd = "\<lparr>pd_mem = empty_request @ [], pd_header = 0, pd_fields = field_offsets 8 []\<rparr>"
  have "PacketDeserialiser (empty_request @ []) (8 :: 32 word) = Some (Inr ?pd)"
    using PacketDeserialiser_packet_bytes [OF _ small, of "[]", where 'z = 32] unfolding len empty_request_def by simp
  moreover have "represents ?pd DPLITE_MSGID_CONNECT_HOST []"
    by (rule packet_bytes_represents [OF small, of _ "[]"]) (simp add: empty_request_def)
  ultimately show ?thesis by blast
qed

text \<open>
  A hosting peer on which a connection was just accepted (nothing received yet) is stopped by the
  eight bytes of a \<^verbatim>\<open>DPLITE_MSGID_CONNECT_HOST\<close> packet without fields: the handler asks for the first
  field and the exception of the deserialiser leaves \<^verbatim>\<open>io_peer_recv\<close>.
\<close>

theorem empty_request_uncaught:
  assumes "get_peer_by_peer_id i d = Some p" "pstate p = PS_ACCEPTED" "\<not> recv_busy p" "recv_buf p = []" "state d = STATE_HOSTING"
  shows "io_peer_recv mb app (Suc fuel) env sel (RecvData empty_request # rs) i d = Inl (Uncaught MissingField)"
proof -
  define d1 where "d1 = upd_peer i (\<lambda>p. p\<lparr>recv_buf := recv_buf p @ take (MAX_PACKET_SIZE - length (recv_buf p)) empty_request\<rparr>)
      (upd_peer i (claim_recv sel) d)"
  have len: "length empty_request = 8" by (simp add: empty_request_def packet_bytes_def)
  have q: "recv_buf (claim_recv sel p) = []" "pstate (claim_recv sel p) = PS_ACCEPTED"
    using assms(2,4) by (simp_all add: claim_recv_def disable_events_def)
  have p: "get_peer_by_peer_id i d1 = Some ((claim_recv sel p)\<lparr>recv_buf := empty_request\<rparr>)"
    using assms(1) q len by (simp add: d1_def get_peer_by_peer_id_def upd_peer_def MAX_PACKET_SIZE_def)
  obtain pd where pd: "PacketDeserialiser empty_request (8 :: 32 word) = Some (Inr pd)" "represents pd DPLITE_MSGID_CONNECT_HOST []"
    using empty_request_reads by auto
  have "state d1 = STATE_HOSTING" using assms(5) by (simp add: d1_def upd_peer_def)
  then have "handle_packet mb app fuel env i pd d1 = Inl (Uncaught MissingField)"
    using pd(2) p q by (simp add: handle_packet_def represents_def field_access_def handle_host_connect_request_def with_peer_def msgid_defs)
  then have "process_packets mb app (Suc fuel) env i d1 = Inl (Uncaught MissingField)"
    using p next_frame_empty_request pd(1) by simp
  moreover have "newly_read empty_request p \<noteq> []" using assms(4) len by (auto simp: MAX_PACKET_SIZE_def)
  ultimately show ?thesis using assms(1-3) by (simp add: io_peer_recv_def Let_def d1_def del: process_packets.simps)
qed

theorem empty_request_uncaught_witness:
  "io_peer_recv (\<lambda>_ _. []) silent 1 (\<lambda>_. undefined) True [RecvData empty_request] 0
     (zeroed_memory\<lparr>state := STATE_HOSTING, peers := [(0, new_Peer 0 0 1 PS_ACCEPTED 5 0 0)]\<rparr>) = Inl (Uncaught MissingField)"
  using empty_request_uncaught [of 0 "zeroed_memory\<lparr>state := STATE_HOSTING, peers := [(0, new_Peer 0 0 1 PS_ACCEPTED 5 0 0)]\<rparr>"
      "new_Peer 0 0 1 PS_ACCEPTED 5 0 0" "\<lambda>_ _. []" silent 0 "\<lambda>_. undefined" True "[]"]
  by (simp add: get_peer_by_peer_id_def om_find_Cons new_Peer_def)

section \<open>Ending a session with a connection half open\<close>

lemma ebind_stuck: "(\<And>x. \<exists>e. k x = Inl e) \<Longrightarrow> \<exists>e. ebind r k = Inl e"
  by (cases r) auto

lemma ebind_stuck_first: "\<exists>e. r = Inl e \<Longrightarrow> \<exists>e. ebind r (\<lambda>x. Inr (k x)) = Inl e"
  by auto

lemma terminate_loop_stuck: "\<exists>x. terminate_loop app fuel (i # dps) d = Inl x"
proof (induction fuel arbitrary: d)
  case (Suc fuel)
  then show ?case by (cases "peer_destroy app fuel i DPNERR_USERCANCEL DPNDESTROYPLAYERREASON_NORMAL d") auto
qed simp

text \<open>
  On a host with a peer that is neither connected nor closing, for instance a connection that was
  accepted and has not asked to join, \<^verbatim>\<open>TerminateSession\<close> never returns: its last loop destroys the first
  such peer over and over, and the second time its identifier is no longer known.
\<close>

theorem terminate_half_open_never_returns:
  assumes "state d = STATE_HOSTING" "list_ex (\<lambda>(i, p). pstate p \<notin> {PS_CONNECTED, PS_CLOSING}) (peers d)"
  shows "\<exists>x. TerminateSession app fuel dat d = Inl x"
proof -
  have p: "peers (close_main_sockets d) = peers d" by (simp add: close_main_sockets_def)
  obtain i dps where dps: "map fst (filter (\<lambda>(i, p). pstate p \<notin> {PS_CONNECTED, PS_CLOSING}) (peers (close_main_sockets d))) = i # dps"
    using assms(2) unfolding p
    by (cases "map fst (filter (\<lambda>(i, p). pstate p \<notin> {PS_CONNECTED, PS_CLOSING}) (peers d))")
      (auto simp: list_ex_iff filter_empty_conv)
  show ?thesis
    unfolding TerminateSession_def assms(1) host_only_guard.simps option.case Let_def dps
    by (intro ebind_stuck ebind_stuck_first terminate_loop_stuck)
qed

theorem terminate_half_open_never_returns_witness:
  "let d = zeroed_memory\<lparr>state := STATE_HOSTING, peers := [(0, new_Peer 0 0 1 PS_ACCEPTED 5 0 0)]\<rparr>
   in (\<forall>fuel. \<exists>x. TerminateSession silent fuel [] d = Inl x) \<and> TerminateSession silent 5 [] d = Inl AssertFailed"
proof -
  let ?d = "zeroed_memory\<lparr>state := STATE_HOSTING, peers := [(0, new_Peer 0 0 1 PS_ACCEPTED 5 0 0)]\<rparr>"
  have "\<exists>x. TerminateSession silent fuel [] ?d = Inl x" for fuel
    by (rule terminate_half_open_never_returns) (simp_all add: new_Peer_def)
  moreover have "TerminateSession silent 5 [] ?d = Inl AssertFailed" by code_simp
  ultimately show ?thesis unfolding Let_def by blast
qed

end
