(* ===== verification/PeerClose.thy ===== *)
theory PeerClose
  imports PeerOps
begin

text \<open>
  Teardown ends: with an application that does not call back, destroying peers and closing the object
  run through all queued sends, pending acknowledgements, groups and peers, and return.
\<close>

lemma quiet_relies: "quiet app \<Longrightarrow> relies acct app"
  unfolding relies_def by (simp add: quiet_dispatch_snd) (intro allI acct_core, simp add: core_def)

text \<open>The completions of \<^verbatim>\<open>Connect\<close> that the application has been told of.\<close>

fun is_connect_complete :: "dpnmsg \<Rightarrow> bool" where
  "is_connect_complete (MSG_CONNECT_COMPLETE h c hr reply pid) = True"
| "is_connect_complete _ = False"

abbreviation connects :: "DirectPlay8Peer \<Rightarrow> dpnmsg list" where
  "connects d \<equiv> filter is_connect_complete (delivered d)"

lemma leave_msgs_connects [simp]: "filter is_connect_complete (leave_msgs pid c gs) = []"
  by (auto simp: leave_msgs_def filter_empty_conv)

text \<open>The part of the state that completing an operation leaves alone when the application is quiet.\<close>

definition light :: "DirectPlay8Peer \<Rightarrow> DirectPlay8Peer \<Rightarrow> bool" where
  "light d d' \<longleftrightarrow> peers d' = peers d \<and> groups d' = groups d \<and> state d' = state d \<and> destroyed_groups d' = destroyed_groups d
     \<and> async_host_enums d' = async_host_enums d \<and> sync_host_enums d' = sync_host_enums d
     \<and> connect_handle d' = connect_handle d \<and> connect_ctx d' = connect_ctx d
     \<and> udp_socket d' = udp_socket d \<and> listener_socket d' = listener_socket d \<and> discovery_socket d' = discovery_socket d
     \<and> connects d' = connects d"

lemma light_refl: "light d d"
  by (simp add: light_def)

lemma complete_light: "quiet app \<Longrightarrow> backed (add_mset op c) d \<Longrightarrow> \<exists>d'. complete app op r d = Inr d' \<and> light d d'"
  by (erule backed_found) (auto simp: complete_def Let_def quiet_dispatch case_prod_beta upd_op_def light_def)

lemma finish_part_light: "quiet app \<Longrightarrow> backed (add_mset op c) d \<Longrightarrow> \<forall>x m. msg x = Some m \<longrightarrow> \<not> is_connect_complete m \<Longrightarrow> \<exists>d'. finish_part app msg op r d = Inr d' \<and> light d d'"
  by (erule backed_found)
    (auto simp: finish_part_def Let_def quiet_dispatch_snd upd_op_def light_def split: option.splits)

text \<open>Callbacks and acknowledgements that report a failure.\<close>

lemma invoke_callback_fails:
  assumes "quiet app" "result \<noteq> S_OK" "backed (cb_refs cb + c) d"
  shows "\<exists>d'. invoke_callback app cb result d = Inr d' \<and> light d d' \<and> backed c d'"
proof -
  have "\<exists>d'. invoke_callback app cb result d = Inr d' \<and> light d d'"
    using assms complete_light [OF assms(1)] finish_part_light [OF assms(1)]
    by (cases cb) (simp_all add: light_refl handle_send_complete_def op_finished_cb_def)
  then show ?thesis using invoke_callback_settles [OF quiet_relies [OF assms(1)] assms(3), of result] by auto
qed

lemma run_ack_fails:
  assumes "quiet app" "result \<noteq> S_OK" "backed (ack_refs cb + c) d"
  shows "\<exists>d'. run_ack app cb result dat d = Inr d' \<and> light d d' \<and> backed c d'"
proof -
  have "\<exists>d'. run_ack app cb result dat d = Inr d' \<and> light d d'"
    using assms complete_light [OF assms(1)] finish_part_light [OF assms(1)]
    by (cases cb) (simp_all add: op_finished_cb_def)
  then show ?thesis using run_ack_settles [OF quiet_relies [OF assms(1)] assms(3), of result dat] by auto
qed

section \<open>Draining\<close>

text \<open>Only sends and acknowledgements of one peer changed, apart from operations.\<close>

definition draining :: "dword \<Rightarrow> (Peer \<Rightarrow> Peer) \<Rightarrow> DirectPlay8Peer \<Rightarrow> DirectPlay8Peer \<Rightarrow> bool" where
  "draining i f d d' \<longleftrightarrow> light (upd_peer i f d) d'"

lemma drainingD:
  "draining i f d d' \<Longrightarrow> peers d' = om_update i f (peers d) \<and> groups d' = groups d \<and> state d' = state d
     \<and> destroyed_groups d' = destroyed_groups d \<and> async_host_enums d' = async_host_enums d \<and> sync_host_enums d' = sync_host_enums d
     \<and> connect_handle d' = connect_handle d \<and> connect_ctx d' = connect_ctx d
     \<and> udp_socket d' = udp_socket d \<and> listener_socket d' = listener_socket d \<and> discovery_socket d' = discovery_socket d
     \<and> connects d' = connects d"
  by (simp add: draining_def light_def upd_peer_def)

lemma draining_trans: "draining i f d d' \<Longrightarrow> draining i g d' d'' \<Longrightarrow> draining i (g \<circ> f) d d''"
  by (simp add: draining_def light_def upd_peer_def)

lemma pending_send:
  assumes "contents q = op # ops"
  obtains q1 q2 where "get_pending q = (Some op, q1)" "pop_pending op q1 = Some q2" "contents q2 = ops" "drops_one (callback op) q q2"
proof -
  obtain r q1 where g: "get_pending q = (r, q1)" by fastforce
  then obtain op' where r: "r = Some op'" using get_pending_NoneD [of q q1] assms by (cases r) auto
  then have op: "op' = op" "current q1 = Some op" using get_pending_SomeD [of q op' q1] g assms by auto
  then have pop: "pop_pending op q1 = Some (q1\<lparr>current := None\<rparr>)" by (simp add: pop_pending_def)
  have "contents (q1\<lparr>current := None\<rparr>) = ops" using pop_pendingD [OF pop] get_pending_same [OF g] assms by simp
  then show thesis using that [OF _ pop _ drops_one_pop [OF _ pop]] g r op by simp
qed

lemma drain_sends_ends:
  assumes "quiet app" "result \<noteq> S_OK"
  shows "backed c d \<Longrightarrow> get_peer_by_peer_id i d = Some p \<Longrightarrow> length (contents (sq p)) < fuel \<Longrightarrow>
    \<exists>d' q. drain_sends app fuel i result d = Inr (True, d') \<and> draining i (\<lambda>p. p\<lparr>sq := q\<rparr>) d d' \<and> backed c d'"
proof (induction fuel arbitrary: d p)
  case (Suc fuel)
  show ?case
  proof (cases "contents (sq p)")
    case Nil
    then have "get_pending (sq p) = (None, sq p)" using sq.pend_Nil [OF Nil] get_pending_NoneD [of "sq p"] by (metis prod.collapse)
    moreover have "backed c (upd_peer i (\<lambda>x. x\<lparr>sq := sq p\<rparr>) d)"
      using backed_release_peer [OF Suc.prems(1,2), of "{#}" "\<lambda>x. x\<lparr>sq := sq p\<rparr>"] by (simp add: peer_refs_def)
    ultimately show ?thesis
      using Suc.prems by (auto simp: draining_def intro!: exI [of _ "sq p"] light_refl)
  next
    case (Cons op ops)
    obtain q1 q2 where q: "get_pending (sq p) = (Some op, q1)" "pop_pending op q1 = Some q2" "contents q2 = ops"
      "drops_one (callback op) (sq p) q2" by (rule pending_send [OF Cons])
    let ?d1 = "upd_peer i (\<lambda>p. p\<lparr>sq := q2\<rparr>) d"
    have "backed (cb_refs (callback op) + c) ?d1"
      using backed_release_peer [OF Suc.prems(1,2), of "cb_refs (callback op)" "\<lambda>p. p\<lparr>sq := q2\<rparr>"]
      by (simp add: peer_refs_def queue_refs_drops [OF q(4)])
    then obtain d2 where d2: "invoke_callback app (callback op) result ?d1 = Inr d2" "light ?d1 d2" "backed c d2"
      using invoke_callback_fails [OF assms] by blast
    have "get_peer_by_peer_id i d2 = Some (p\<lparr>sq := q2\<rparr>)"
      using d2(2) Suc.prems(2) by (simp add: light_def get_peer_by_peer_id_def upd_peer_def)
    with Suc.IH [OF d2(3)] Suc.prems(3) Cons q(3) obtain d' q' where "drain_sends app fuel i result d2 = Inr (True, d')"
      "draining i (\<lambda>p. p\<lparr>sq := q'\<rparr>) d2 d'" "backed c d'" by fastforce
    moreover have "draining i (\<lambda>p. p\<lparr>sq := q2\<rparr>) d d2" using d2(2) by (simp add: draining_def)
    ultimately show ?thesis using draining_trans Suc.prems(2) q(1,2) d2(1) by (fastforce simp: comp_def)
  qed
qed simp

lemma drain_acks_ends:
  assumes "quiet app" "result \<noteq> S_OK"
  shows "backed c d \<Longrightarrow> get_peer_by_peer_id i d = Some p \<Longrightarrow> length (pending_acks p) < fuel \<Longrightarrow>
    \<exists>d' f. drain_acks app fuel i result d = Inr (True, d') \<and> draining i f d d' \<and> (\<forall>p. pstate (f p) = pstate p) \<and> backed c d'"
proof (induction fuel arbitrary: d p)
  case (Suc fuel)
  show ?case
  proof (cases "pending_acks p")
    case Nil
    have "draining i (\<lambda>p. p) d d" by (simp add: draining_def light_def upd_peer_def om_update_def case_prod_beta)
    then show ?thesis using Nil Suc.prems by (auto intro!: exI [of _ "\<lambda>p. p"])
  next
    case (Cons x rest)
    obtain a cb where x: "x = (a, cb)" by fastforce
    let ?f = "\<lambda>p. p\<lparr>pending_acks := om_erase a (pending_acks p)\<rparr>"
    let ?d1 = "upd_peer i ?f d"
    have find: "om_find a (pending_acks p) = Some cb" by (simp add: Cons x om_find_Cons)
    have less: "length (om_erase a (pending_acks p)) < length (pending_acks p)"
      by (simp add: Cons x om_erase_def le_imp_less_Suc)
    have "ack_refs cb + peer_refs (?f p) \<subseteq># peer_refs p"
      using sum_om_erase_find [OF find, of ack_refs] by (simp add: peer_refs_def acks_refs_def add.left_commute [of "ack_refs cb"])
    then have "backed (ack_refs cb + c) ?d1" using backed_release_peer [OF Suc.prems(1,2), of "ack_refs cb" ?f] by simp
    then obtain d2 where d2: "run_ack app cb result [] ?d1 = Inr d2" "light ?d1 d2" "backed c d2"
      using run_ack_fails [OF assms] by blast
    have "get_peer_by_peer_id i d2 = Some (?f p)"
      using d2(2) Suc.prems(2) by (simp add: light_def get_peer_by_peer_id_def upd_peer_def)
    with Suc.IH [OF d2(3)] Suc.prems(3) less obtain d' f where rest: "drain_acks app fuel i result d2 = Inr (True, d')"
      "draining i f d2 d'" "\<forall>p. pstate (f p) = pstate p" "backed c d'" by fastforce
    have "draining i ?f d d2" using d2(2) by (simp add: draining_def)
    from draining_trans [OF this rest(2)] rest show ?thesis
      using Suc.prems(2) Cons x d2(1) by (auto intro!: exI [of _ "f \<circ> ?f"])
  qed
qed simp

section \<open>Peers\<close>

definition load :: "Peer \<Rightarrow> nat" where
  "load p = length (contents (sq p)) + length (pending_acks p)"

text \<open>States in which losing a peer means neither the end of the session nor a failed attempt to connect.\<close>

definition detached :: "State \<Rightarrow> bool" where
  "detached s \<longleftrightarrow> s \<notin> {STATE_CONNECTED, STATE_CONNECTING_TO_HOST, STATE_CONNECTING_TO_PEERS}"

text \<open>What a step of the teardown leaves as it was.\<close>

definition settled :: "DirectPlay8Peer \<Rightarrow> DirectPlay8Peer \<Rightarrow> bool" where
  "settled d d' \<longleftrightarrow> state d' = state d \<and> om_wf (groups d') \<and> length (groups d') = length (groups d)
     \<and> async_host_enums d' = async_host_enums d \<and> sync_host_enums d' = sync_host_enums d
     \<and> connect_handle d' = connect_handle d \<and> connect_ctx d' = connect_ctx d
     \<and> udp_socket d' = udp_socket d \<and> listener_socket d' = listener_socket d \<and> discovery_socket d' = discovery_socket d
     \<and> connects d' = connects d"

lemma backed_fields:
  "peers d' = peers d \<Longrightarrow> refs d' = refs d \<Longrightarrow> async_ops d' = async_ops d \<Longrightarrow> next_op d' = next_op d \<Longrightarrow> backed c d' = backed c d"
  by (simp add: backed_def)

lemma remove_peer_acct: "acct d (remove_peer i p d)"
  by (rule acct_shrink) (use sum_om_erase [of peer_refs i "peers d"] in \<open>simp_all add: remove_peer_def refs_def\<close>)

text \<open>The first two loops of \<^verbatim>\<open>peer_destroy\<close>: afterwards the peer has neither sends nor acknowledgements left.\<close>

lemma peer_drains:
  assumes "quiet app" "result \<noteq> S_OK" "backed c d" "get_peer_by_peer_id i d = Some p" "load p < f"
  obtains d1 d2 r g h where "drain_sends app f i result d = Inr (True, d1)" "drain_acks app f i result d1 = Inr (True, d2)"
    "get_peer_by_peer_id i d1 \<noteq> None" "get_peer_by_peer_id i d2 = Some r" "backed c d2"
    "draining i g d d1" "draining i h d1 d2"
proof -
  obtain d1 q where d1: "drain_sends app f i result d = Inr (True, d1)" "draining i (\<lambda>p. p\<lparr>sq := q\<rparr>) d d1" "backed c d1"
    using drain_sends_ends [OF assms(1-4), of f] assms(5) by (auto simp: load_def)
  have p1: "get_peer_by_peer_id i d1 = Some (p\<lparr>sq := q\<rparr>)"
    using drainingD [OF d1(2)] assms(4) by (simp add: get_peer_by_peer_id_def)
  obtain d2 g where d2: "drain_acks app f i result d1 = Inr (True, d2)" "draining i g d1 d2" "backed c d2"
    using drain_acks_ends [OF assms(1,2) d1(3) p1, of f] assms(5) by (auto simp: load_def)
  have "get_peer_by_peer_id i d2 = Some (g (p\<lparr>sq := q\<rparr>))"
    using drainingD [OF d2(2)] p1 by (simp add: get_peer_by_peer_id_def)
  with d1 d2 p1 show ?thesis using that by blast
qed

lemma peer_destroy_ends:
  assumes "quiet app" "result \<noteq> S_OK" "backed c d" "get_peer_by_peer_id i d = Some p" "detached (state d)"
    "om_wf (groups d)" "load p + length (groups d) + 1 < fuel"
  shows "\<exists>d'. peer_destroy app fuel i result reason d = Inr d' \<and> backed c d' \<and> peers d' = om_erase i (peers d) \<and> settled d d'"
proof -
  obtain f where fuel: "fuel = Suc f" "load p + length (groups d) < f" using assms(7) by (cases fuel) auto
  then have "load p < f" by simp
  from peer_drains [OF assms(1-4) this] obtain d1 d2 r g h where
    dr: "drain_sends app f i result d = Inr (True, d1)" "drain_acks app f i result d1 = Inr (True, d2)"
      "get_peer_by_peer_id i d1 \<noteq> None" "get_peer_by_peer_id i d2 = Some r" "backed c d2"
    and steps: "draining i g d d1" "draining i h d1 d2" .
  note same = drainingD [OF steps(1)] drainingD [OF steps(2)]
  have erased: "om_erase i (peers d2) = om_erase i (peers d)" using same by simp
  have other: "state d2 \<notin> {STATE_CONNECTED, STATE_CONNECTING_TO_HOST, STATE_CONNECTING_TO_PEERS}"
    using assms(5) same by (simp add: detached_def)
  show ?thesis
  proof (cases "pstate r = PS_CONNECTED")
    case False
    then have "peer_destroy app fuel i result reason d = Inr (remove_peer i r d2)"
      using assms(4) dr other by (simp add: fuel(1) with_peer_def renew_peer_def)
    moreover have "backed c (remove_peer i r d2)" using remove_peer_acct dr(5) by (simp add: acct_def)
    ultimately show ?thesis using erased same assms(6) by (simp add: remove_peer_def settled_def)
  next
    case True
    define d3 where "d3 = upd_peer i (\<lambda>p. p\<lparr>send_open := False, pstate := PS_CLOSING\<rparr>) d2"
    define d4 where "d4 = d3\<lparr>groups := without (player_id r) (groups d3), delivered := delivered d3
      @ leave_msgs (player_id r) (player_ctx r) (groups d3) @ [MSG_DESTROY_PLAYER (player_id r) (player_ctx r) reason]\<rparr>"
    define d5 where "d5 = d4\<lparr>player_to_peer_id := om_erase (player_id r) (player_to_peer_id d4)\<rparr>"
    let ?r = "r\<lparr>send_open := False, pstate := PS_CLOSING\<rparr>"
    have g3: "groups d3 = groups d" "state d3 = state d2" "state d4 = state d2" "peers d5 = peers d3"
      using same by (simp_all add: d5_def d4_def d3_def upd_peer_def)
    have told: "dispatch_destroy_player app f (player_id r) (player_ctx r) reason d3 = Inr d4"
      unfolding d4_def by (rule dispatch_destroy_player_quiet [OF assms(1)]) (use assms(6) fuel(2) in \<open>simp_all add: g3\<close>)
    have "get_peer_by_peer_id i d5 = Some ?r"
      using dr(4) by (simp add: g3 d3_def get_peer_by_peer_id_def upd_peer_def)
    then have "peer_destroy app fuel i result reason d = Inr (remove_peer i ?r d5)"
      using assms(4) dr other True told g3
      by (simp add: fuel(1) with_peer_def renew_peer_def Let_def flip: d3_def d5_def)
    moreover have "acct d2 d3" unfolding d3_def by (rule acct_upd_peer) (simp add: peer_refs_def)
    then have "backed c d5" using dr(5) backed_fields [of d5 d3] by (simp add: acct_def d5_def d4_def refs_def)
    then have "backed c (remove_peer i ?r d5)" using remove_peer_acct by (simp add: acct_def)
    moreover have "om_erase i (peers d5) = om_erase i (peers d)"
      using erased by (simp add: g3 d3_def upd_peer_def)
    ultimately show ?thesis
      using same assms(6) g3(1) by (simp add: remove_peer_def settled_def d5_def d4_def) (simp add: d3_def upd_peer_def)
  qed
qed

lemma erase_head:
  assumes "om_wf m" "m = (i, p) # m'"
  shows "om_erase i m = m'"
  using assms by (auto simp: om_erase_def om_wf_Cons om_keys_def intro!: filter_True)

lemma peer_destroy_all_ends:
  assumes "quiet app" "result \<noteq> S_OK"
  shows "backed c d \<Longrightarrow> detached (state d) \<Longrightarrow> om_wf (groups d) \<Longrightarrow>
    sum_list (map (\<lambda>(i, p). load p) (peers d)) + length (peers d) + length (groups d) + 2 < fuel \<Longrightarrow>
    \<exists>d'. peer_destroy_all app fuel result reason d = Inr d' \<and> backed c d' \<and> peers d' = [] \<and> settled d d'"
proof (induction fuel arbitrary: d)
  case (Suc fuel)
  show ?case
  proof (cases "peers d")
    case Nil
    then show ?thesis using Suc.prems by (simp add: settled_def)
  next
    case (Cons x m)
    obtain i p where x: "x = (i, p)" by fastforce
    have p: "get_peer_by_peer_id i d = Some p" by (simp add: Cons x get_peer_by_peer_id_def om_find_Cons)
    obtain d1 where d1: "peer_destroy app fuel i result reason d = Inr d1" "backed c d1" "peers d1 = om_erase i (peers d)" "settled d d1"
      using peer_destroy_ends [OF assms Suc.prems(1) p Suc.prems(2,3), of fuel reason] Suc.prems(4) by (auto simp: Cons x)
    have m: "peers d1 = m" using erase_head [OF backed_wf [OF Suc.prems(1)]] Cons x d1(3) by simp
    obtain d' where "peer_destroy_all app fuel result reason d1 = Inr d'" "backed c d'" "peers d' = []" "settled d1 d'"
      using Suc.IH [OF d1(2)] Suc.prems(2-4) d1(4) by (auto simp: m Cons x settled_def)
    then show ?thesis using d1(1,4) by (auto simp: Cons x settled_def)
  qed
qed simp

section \<open>Closing\<close>

lemma destroy_local_ends:
  assumes "quiet app" "om_wf (groups d)" "length (groups d) < fuel"
  shows "\<exists>d'. (if b then dispatch_destroy_player app fuel pid c reason d else Inr d) = Inr d' \<and> peers d' = peers d
    \<and> settled d d' \<and> backed r d' = backed r d"
  using assms dispatch_destroy_player_quiet [OF assms]
  by (auto simp: settled_def backed_def refs_def)

text \<open>
  C9: Closing at once ends. On an initialised object that is not in the middle of connecting and has no
  enumeration running, \<^verbatim>\<open>Close\<close> with \<^verbatim>\<open>DPNCLOSE_IMMEDIATE\<close> and an application that does not call back cancels
  every queued send and pending acknowledgement, and returns success with no peer, no group and no
  worker left and the state of a new object; fuel above the number of sends, acknowledgements, peers
  and groups is enough.
\<close>

theorem close_immediate_returns:
  assumes "quiet app" "balanced d" "om_wf (groups d)" "flag_set flags DPNCLOSE_IMMEDIATE"
    "state d \<notin> {STATE_NEW, STATE_CLOSING, STATE_CONNECTING_TO_HOST, STATE_CONNECTING_TO_PEERS}"
    "async_host_enums d = []" "sync_host_enums d = []"
    "sum_list (map (\<lambda>(i, p). load p) (peers d)) + length (peers d) + length (groups d) + 2 < fuel"
  shows "\<exists>d'. Close app fuel flags d = Some (Inr (S_OK, d')) \<and> peers d' = [] \<and> groups d' = [] \<and> state d' = STATE_NEW
    \<and> worker_pool d' = [] \<and> balanced d'"
proof -
  define d1 where "d1 = close_main_sockets (cancel_enums d)"
  define d3 where "d3 = d1\<lparr>state := STATE_CLOSING\<rparr>"
  have f3: "peers d3 = peers d" "groups d3 = groups d" "state d3 = STATE_CLOSING" "async_host_enums d3 = []" "sync_host_enums d3 = []"
    "state d1 = state d"
    using assms(6,7) by (simp_all add: d3_def d1_def close_main_sockets_def cancel_enums_def)
  have b3: "backed {#} d3"
    using assms(2) backed_fields [of d3 d] by (simp add: balanced_def d3_def d1_def close_main_sockets_def cancel_enums_def refs_def)
  have err: "DPNERR_USERCANCEL \<noteq> S_OK" by (simp add: const_defs)
  obtain d4 where d4: "(if state d = STATE_HOSTING then dispatch_destroy_player app fuel (local_player_id d3) (local_player_ctx d3)
      DPNDESTROYPLAYERREASON_NORMAL d3 else Inr d3) = Inr d4" "peers d4 = peers d3" "settled d3 d4" "backed {#} d4"
    using destroy_local_ends [OF assms(1), of d3 fuel] assms(3,8) b3 f3 by (metis add_lessD1 add.commute)
  obtain d5 where d5: "peer_destroy_all app fuel DPNERR_USERCANCEL DPNDESTROYPLAYERREASON_NORMAL d4 = Inr d5" "backed {#} d5"
    "peers d5 = []" "settled d4 d5"
    using peer_destroy_all_ends [OF assms(1) err d4(4), of fuel DPNDESTROYPLAYERREASON_NORMAL] d4(2,3) f3 assms(8)
    by (auto simp: settled_def detached_def)
  have started: "Close_begin app fuel flags d = Inr (Inr (state d = STATE_CONNECTED), d5)"
    using assms(4,5) d4(1) d5(1) f3 by (simp add: Close_begin_def is_connecting_def Let_def split: if_splits flip: d1_def d3_def)
  have g5: "om_wf (groups d5)" "length (groups d5) < fuel" using d5(4) d4(3) f3 assms(8) by (simp_all add: settled_def)
  obtain d6 where d6: "(if state d = STATE_CONNECTED then dispatch_destroy_player app fuel (local_player_id d5) (local_player_ctx d5)
      DPNDESTROYPLAYERREASON_NORMAL d5 else Inr d5) = Inr d6" "peers d6 = peers d5" "settled d5 d6" "backed {#} d6"
    using destroy_local_ends [OF assms(1) g5] d5(2) by metis
  have g6: "om_wf (groups d6)" "length (groups d6) < fuel" using d6(3) g5 by (simp_all add: settled_def)
  define d7 where "d7 = d6\<lparr>groups := [], destroyed_groups := destroyed_groups d6 \<union> set (om_keys (groups d6)),
      delivered := delivered d6 @ destroy_group_msgs DPNDESTROYGROUPREASON_NORMAL d6\<rparr>"
  have groups: "Close_groups app fuel (state d = STATE_CONNECTED) d5 = Inr d7"
    using d6(1) group_destroy_all_quiet [OF assms(1) g6] by (simp add: Close_groups_def d7_def)
  have "peers_gone flags d5" using assms(4) by (simp add: peers_gone_def)
  moreover have "enums_gone d7" using d6(3) d5(4) d4(3) f3 by (simp add: enums_gone_def d7_def settled_def)
  ultimately have "Close app fuel flags d = Some (Inr (S_OK, Close_end d7))" by (simp add: Close_def started groups)
  moreover have "balanced (Close_end d7)"
    using d6(4) by (simp add: balanced_def backed_def Close_end_def d7_def refs_def)
  ultimately show ?thesis using d5(3) d6(2) by (simp add: Close_end_def d7_def)
qed

text \<open>A host with one player and one group.\<close>

theorem close_immediate_returns_witness:
  "\<exists>d'. Close silent 9 DPNCLOSE_IMMEDIATE (zeroed_memory\<lparr>state := STATE_HOSTING,
       peers := [(0, new_Peer 2 0 1 PS_CONNECTED 5 0 0)], groups := [(4, new_Group [] [] 0)]\<rparr>) = Some (Inr (S_OK, d'))
     \<and> peers d' = [] \<and> groups d' = [] \<and> state d' = STATE_NEW"
proof -
  define d where "d = zeroed_memory\<lparr>state := STATE_HOSTING, peers := [(0, new_Peer 2 0 1 PS_CONNECTED 5 0 0)],
    groups := [(4, new_Group [] [] 0)]\<rparr>"
  have "balanced d"
    by (simp add: d_def balanced_def backed_def zeroed_memory_def refs_def covers_def om_wf_def om_keys_def peer_refs_def
        acks_refs_def new_Peer_def)
  moreover have "load (new_Peer 2 0 1 PS_CONNECTED 5 0 0) = 0"
    by (simp add: load_def new_Peer_def new_SendQueue_def contents_def queued_def)
  ultimately show ?thesis
    using close_immediate_returns [of silent d DPNCLOSE_IMMEDIATE 9]
    by (auto simp: d_def [symmetric]) (auto simp: d_def zeroed_memory_def om_wf_def om_keys_def flag_set_def const_defs)
qed

end
