(* ===== verification/PeerDelivery.thy ===== *)
theory PeerDelivery
  imports PeerEvents PeerStream PeerClose
begin

text \<open>
  From \<^verbatim>\<open>SendTo\<close> on one machine to the application on the other: the calls queue packets, \<^verbatim>\<open>io_peer_send\<close> hands
  them to the connection in the order of their priorities and in whatever pieces the socket takes, and
  \<^verbatim>\<open>io_peer_recv\<close> of the receiver puts the messages together again.
\<close>

section \<open>The sending loop\<close>

text \<open>Callbacks that leave the connections alone when a packet went out.\<close>

fun plain_cb :: "send_cb \<Rightarrow> bool" where
  "plain_cb CbNone = True"
| "plain_cb (CbComplete op) = True"
| "plain_cb (CbSend op) = True"
| "plain_cb _ = False"

lemma plain_cb_light:
  assumes "quiet app" "plain_cb cb" "backed (cb_refs cb + c) d"
  shows "\<exists>d'. invoke_callback app cb S_OK d = Inr d' \<and> light d d' \<and> backed c d'"
proof -
  have "\<exists>d'. invoke_callback app cb S_OK d = Inr d' \<and> light d d'"
    using assms complete_light [OF assms(1)] finish_part_light [OF assms(1)]
    by (cases cb) (simp_all add: light_refl handle_send_complete_def)
  then show ?thesis using invoke_callback_settles [OF quiet_relies [OF assms(1)] assms(3), of S_OK] by auto
qed

text \<open>The sizes of the pieces in which a stream socket takes \<open>n\<close> bytes.\<close>

definition pieces :: "nat list \<Rightarrow> nat \<Rightarrow> bool" where
  "pieces ns n \<longleftrightarrow> sum_list ns = n \<and> 0 \<notin> set ns"

lemma get_pending_contents:
  fixes q :: "send_cb SendQueue"
  assumes "contents q = op # ops"
  obtains q1 where "get_pending q = (Some op, q1)" "current q1 = Some op" "queued q1 = ops"
proof -
  obtain q1 q2 where "get_pending q = (Some op, q1)" by (rule pending_send [OF assms])
  then show ?thesis using that get_pending_SomeD [of q op q1] assms by (auto simp: contents_def)
qed

lemma contents_current [simp]: "contents (q\<lparr>current := Some op\<rparr>) = op # queued q" "contents (q\<lparr>current := None\<rparr>) = queued q"
  by (simp_all add: contents_def queued_def)

lemma send_one_op:
  assumes "quiet app" "ns \<noteq> []" "pieces ns (length (op_data op) - sent_data op)" "sent_data op \<le> length (op_data op)" "plain_cb (callback op)"
    "backed c d" "get_peer_by_peer_id i d = Some p" "contents (sq p) = op # ops" "length (op_data op) < 2 ^ 32"
  shows "\<exists>d' q'. io_peer_send app fuel shut (map Sent ns @ tx) i d = io_peer_send app fuel shut tx i d' \<and> contents q' = ops
     \<and> draining i (\<lambda>p. p\<lparr>sock_sent := sock_sent p @ drop (sent_data op) (op_data op), sq := q'\<rparr>) d d' \<and> backed c d'"
  using assms(2-)
proof (induction ns arbitrary: op d p)
  case (Cons n ns)
  obtain q where q: "get_pending (sq p) = (Some op, q)" "current q = Some op" "queued q = ops"
    by (rule get_pending_contents [OF Cons.prems(7)])
  let ?d1 = "sock_send i n op (upd_peer i (\<lambda>p. p\<lparr>sq := q\<rparr>) d)"
  let ?op = "op\<lparr>sent_data := sent_data op + n\<rparr>"
  have n: "0 < n" "n + sum_list ns = length (op_data op) - sent_data op" "0 \<notin> set ns"
    using Cons.prems(2) by (auto simp: pieces_def)
  then have inc: "inc_sent_data op n = Some ?op" using Cons.prems(3,8) by (simp add: inc_sent_data_def)
  have put: "upd_peer i (\<lambda>p. p\<lparr>sq := x\<rparr>) ?d1 =
      upd_peer i (\<lambda>p. p\<lparr>sock_sent := sock_sent p @ take n (drop (sent_data op) (op_data op)), sq := x\<rparr>) d" for x
    by (simp add: sock_send_def upd_peer_def comp_def get_pending_data_def)
  show ?case
  proof (cases ns)
    case Nil
    then have whole: "n = length (op_data op) - sent_data op" using n by simp
    let ?q = "snd (get_pending (q\<lparr>current := None\<rparr>))"
    have pop: "pop_pending ?op (q\<lparr>current := Some ?op\<rparr>) = Some (q\<lparr>current := None\<rparr>)" by (simp add: pop_pending_def)
    have c: "contents ?q = ops" using get_pending_same [of "q\<lparr>current := None\<rparr>"] q(3) by (metis contents_current(2) prod.collapse)
    let ?f = "\<lambda>p. p\<lparr>sock_sent := sock_sent p @ drop (sent_data op) (op_data op), sq := ?q\<rparr>"
    have d2: "upd_peer i (\<lambda>p. p\<lparr>sq := ?q\<rparr>) ?d1 = upd_peer i ?f d" unfolding put by (simp add: whole)
    have "drops_one (callback op) (sq p) ?q" using Cons.prems(7) c by (auto simp: drops_one_def)
    then have "backed (cb_refs (callback op) + c) (upd_peer i ?f d)"
      using backed_release_peer [OF Cons.prems(5,6), of "cb_refs (callback op)" ?f]
      by (simp add: peer_refs_def queue_refs_drops)
    then obtain d' where d': "invoke_callback app (callback op) S_OK (upd_peer i ?f d) = Inr d'" "light (upd_peer i ?f d) d'" "backed c d'"
      using plain_cb_light [OF assms(1) Cons.prems(4)] by blast
    then have "io_peer_send app fuel shut (map Sent (n # ns) @ tx) i d = io_peer_send app fuel shut tx i d'"
      using Cons.prems(6) q(1) inc pop d2 whole Nil
      by (subst io_peer_send.simps) (simp add: Let_def get_pending_data_def)
    with d' c show ?thesis unfolding draining_def by blast
  next
    case (Cons m ms)
    then have part: "n \<noteq> snd (get_pending_data op)" using n by (auto simp: get_pending_data_def)
    let ?q = "q\<lparr>current := Some ?op\<rparr>"
    let ?f = "\<lambda>p. p\<lparr>sock_sent := sock_sent p @ take n (drop (sent_data op) (op_data op)), sq := ?q\<rparr>"
    let ?d2 = "upd_peer i ?f d"
    have step: "io_peer_send app fuel shut (map Sent (n # ns) @ tx) i d = io_peer_send app fuel shut (map Sent ns @ tx) i ?d2"
      using Cons.prems(6) q(1) inc part put [of ?q]
      by (subst io_peer_send.simps) (simp add: Let_def)
    have "same_ops (sq p) ?q" using Cons.prems(7) q by (auto simp: same_ops_def)
    then have b: "backed c ?d2"
      using backed_release_peer [OF Cons.prems(5,6), of "{#}" ?f] by (simp add: peer_refs_def queue_refs_same)
    have p2: "get_peer_by_peer_id i ?d2 = Some (?f p)" using Cons.prems(6) by simp
    have rest: "m + sum_list ms = length (op_data op) - (sent_data op + n)" "sent_data op + n \<le> length (op_data op)"
      using n Cons Cons.prems(3) by auto
    have "\<exists>d' q'. io_peer_send app fuel shut (map Sent ns @ tx) i ?d2 = io_peer_send app fuel shut tx i d' \<and> contents q' = ops
       \<and> draining i (\<lambda>p. p\<lparr>sock_sent := sock_sent p @ drop (sent_data ?op) (op_data ?op), sq := q'\<rparr>) ?d2 d' \<and> backed c d'"
      by (rule Cons.IH [OF _ _ _ _ b p2]) (use Cons Cons.prems n q rest in \<open>simp_all add: pieces_def\<close>)
    then obtain d' q' where d': "io_peer_send app fuel shut (map Sent ns @ tx) i ?d2 = io_peer_send app fuel shut tx i d'" "contents q' = ops"
      "draining i (\<lambda>p. p\<lparr>sock_sent := sock_sent p @ drop (sent_data op + n) (op_data op), sq := q'\<rparr>) ?d2 d'" "backed c d'" by auto
    have both: "take n (drop (sent_data op) (op_data op)) @ drop (sent_data op + n) (op_data op) = drop (sent_data op) (op_data op)"
      by (metis append_take_drop_id drop_drop add.commute)
    have "draining i ?f d ?d2" by (simp add: draining_def light_refl)
    from draining_trans [OF this d'(3)]
    have "draining i (\<lambda>p. p\<lparr>sock_sent := sock_sent p @ drop (sent_data op) (op_data op), sq := q'\<rparr>) d d'"
      by (simp add: comp_def both)
    with step d' show ?thesis by auto
  qed
qed simp

text \<open>A queue of whole packets whose completion leaves the connections alone.\<close>

definition fresh_op :: "send_cb SendOp \<Rightarrow> bool" where
  "fresh_op op \<longleftrightarrow> sent_data op = 0 \<and> plain_cb (callback op) \<and> op_data op \<noteq> []"

lemma send_all_ops:
  assumes "quiet app"
  shows "list_all2 (\<lambda>ns op. pieces ns (length (op_data op))) nss ops \<Longrightarrow> \<forall>op \<in> set ops. fresh_op op \<and> length (op_data op) < 2 ^ 32 \<Longrightarrow> backed c d \<Longrightarrow>
    get_peer_by_peer_id i d = Some p \<Longrightarrow> contents (sq p) = ops \<Longrightarrow> pstate p \<noteq> PS_CLOSING \<Longrightarrow>
    \<exists>d' p'. io_peer_send app fuel shut (map Sent (concat nss)) i d = Inr d' \<and> get_peer_by_peer_id i d' = Some p'
      \<and> contents (sq p') = [] \<and> sock_sent p' = sock_sent p @ concat (map op_data ops)"
proof (induction ops arbitrary: nss d p)
  case Nil
  then have "get_pending (sq p) = (None, sq p)" using sq.pend_Nil [of "sq p"] get_pending_NoneD [of "sq p"] by (metis prod.collapse)
  with Nil show ?case by (subst io_peer_send.simps) auto
next
  case (Cons op ops)
  obtain ns nss' where nss: "nss = ns # nss'" "pieces ns (length (op_data op))" "list_all2 (\<lambda>ns op. pieces ns (length (op_data op))) nss' ops"
    using Cons.prems(1) by (auto simp: list_all2_Cons2)
  have op: "sent_data op = 0" "plain_cb (callback op)" "op_data op \<noteq> []" using Cons.prems(2) by (auto simp: fresh_op_def)
  have small: "length (op_data op) < 2 ^ 32" using Cons.prems(2) by simp
  from op(3) have "ns \<noteq> []" using nss(2) by (auto simp: pieces_def)
  from send_one_op [OF assms this _ _ op(2) Cons.prems(3-5) small, of fuel shut "map Sent (concat nss')"] nss op obtain d' q' where
    d': "io_peer_send app fuel shut (map Sent (concat nss)) i d = io_peer_send app fuel shut (map Sent (concat nss')) i d'" "contents q' = ops"
      "draining i (\<lambda>p. p\<lparr>sock_sent := sock_sent p @ op_data op, sq := q'\<rparr>) d d'" "backed c d'" by auto
  have p': "get_peer_by_peer_id i d' = Some (p\<lparr>sock_sent := sock_sent p @ op_data op, sq := q'\<rparr>)"
    using drainingD [OF d'(3)] Cons.prems(4) by (simp add: get_peer_by_peer_id_def)
  from Cons.IH [OF nss(3) _ d'(4) p'] Cons.prems(2,6) d'(1,2) show ?case by auto
qed

section \<open>Calls of \<^verbatim>\<open>SendTo\<close>\<close>

text \<open>Buffers, context and flags of a call, and the message it puts on the wire.\<close>

type_synonym outgoing = "byte list list \<times> ctx \<times> dword"

fun out_msg :: "dpnid \<Rightarrow> outgoing \<Rightarrow> msg" where
  "out_msg me (bufs, actx, flags) =
     (me, concat bufs, flags AND (DPNSEND_GUARANTEED OR DPNSEND_COALESCE OR DPNSEND_COMPLETEONPROCESS))"

fun out_priority :: "outgoing \<Rightarrow> SendPriority" where
  "out_priority (bufs, actx, flags) = send_priority flags"

definition by_priority :: "outgoing list \<Rightarrow> outgoing list" where
  "by_priority ms = concat (map (\<lambda>pri. filter (\<lambda>m. out_priority m = pri) ms) (rev (sorted_list_of_set UNIV)))"

lemma mset_by_priority: "mset (by_priority ms) = mset ms"
proof (induction ms)
  case (Cons m ms)
  then show ?case by (cases "out_priority m") (simp_all add: by_priority_def priorities_ascending)
qed (simp add: by_priority_def priorities_ascending)

fun send_messages :: "app \<Rightarrow> dpnid \<Rightarrow> outgoing list \<Rightarrow> DirectPlay8Peer \<Rightarrow> fault + DirectPlay8Peer" where
  "send_messages app dest [] d = Inr d"
| "send_messages app dest ((bufs, actx, flags) # ms) d =
     ebind (SendTo app dest bufs actx flags d) (\<lambda>(_, d'). send_messages app dest ms d')"

text \<open>The player \<open>dest\<close> is reached through peer \<open>i\<close>, in a state in which messages may be sent.\<close>

definition reaches :: "dpnid \<Rightarrow> dword \<Rightarrow> DirectPlay8Peer \<Rightarrow> bool" where
  "reaches dest i d \<longleftrightarrow> send_guard (state d) = None \<and> dest \<noteq> DPNID_ALL_PLAYERS_GROUP \<and> dest \<noteq> local_player_id d
     \<and> om_find dest (player_to_peer_id d) = Some i \<and> get_peer_by_peer_id i d \<noteq> None"

lemma SendTo_queues:
  assumes "reaches dest i d" "\<not> flag_set flags DPNSEND_COMPLETEONPROCESS"
  shows "\<exists>r d' h op. SendTo app dest bufs actx flags d = Inr (r, d')
     \<and> peers d' = om_update i (\<lambda>p. p\<lparr>sq := send_async (send_priority flags) (message_packet (concat bufs) flags d) None h (CbSend op) (sq p)\<rparr>) (peers d)
     \<and> reaches dest i d' \<and> local_player_id d' = local_player_id d"
proof -
  have t: "send_targets dest flags d = Inr (Some ([i], False))"
    using assms(1) by (auto simp: send_targets_def reaches_def get_peer_by_player_id_def)
  show ?thesis
    using assms
    by (cases "flag_set flags DPNSEND_SYNC")
      (auto simp: SendTo_def t reaches_def send_sync_def send_unsync_def new_op_def Let_def peer_send_async_def upd_peer_def
        get_peer_by_peer_id_def case_prod_beta)
qed

text \<open>What a number of calls leaves in the queue of an idle connection.\<close>

definition waiting_bytes :: "send_cb SendQueue \<Rightarrow> SendPriority \<Rightarrow> byte list list" where
  "waiting_bytes q pri = map op_data (queue_of pri q)"

definition fresh_queue :: "send_cb SendQueue \<Rightarrow> bool" where
  "fresh_queue q \<longleftrightarrow> current q = None \<and> (\<forall>pri. \<forall>op \<in> set (queue_of pri q). fresh_op op)"

lemma message_packet_wire: "fst (raw_packet (message_packet (concat bufs) flags d)) = wire (out_msg (local_player_id d) (bufs, actx, flags))"
  by (simp add: message_packet_def)

lemma queue_send_async:
  assumes "fst (raw_packet ps) = wire m" "fresh_queue q"
  shows "fresh_queue (send_async pri ps None h (CbSend op) q)"
    "waiting_bytes (send_async pri ps None h (CbSend op) q) pri' = waiting_bytes q pri' @ (if pri' = pri then [wire m] else [])"
  using assms wire_nonempty [of m]
  by (auto simp: send_async_def Let_def fresh_queue_def fresh_op_def waiting_bytes_def new_SendOp_def simp del: wire.simps)

lemma send_messages_queue:
  assumes "quiet app"
  shows "reaches dest i d \<Longrightarrow> \<forall>(bufs, actx, flags) \<in> set ms. \<not> flag_set flags DPNSEND_COMPLETEONPROCESS \<Longrightarrow> backed {#} d \<Longrightarrow>
    get_peer_by_peer_id i d = Some p \<Longrightarrow> fresh_queue (sq p) \<Longrightarrow>
    \<exists>d' q. send_messages app dest ms d = Inr d' \<and> backed {#} d' \<and> get_peer_by_peer_id i d' = Some (p\<lparr>sq := q\<rparr>) \<and> fresh_queue q
      \<and> (\<forall>pri. waiting_bytes q pri = waiting_bytes (sq p) pri @ map (wire \<circ> out_msg (local_player_id d)) (filter (\<lambda>m. out_priority m = pri) ms))"
proof (induction ms arbitrary: d p)
  case Nil
  then show ?case by (auto intro!: exI [of _ "sq p"])
next
  case (Cons m ms)
  obtain bufs actx flags where m: "m = (bufs, actx, flags)" by (cases m)
  with Cons.prems(2) have "\<not> flag_set flags DPNSEND_COMPLETEONPROCESS" by simp
  from SendTo_queues [OF Cons.prems(1) this, of app bufs actx] obtain r d1 h op where
    s: "SendTo app dest bufs actx flags d = Inr (r, d1)" "reaches dest i d1" "local_player_id d1 = local_player_id d"
      "peers d1 = om_update i (\<lambda>p. p\<lparr>sq := send_async (send_priority flags) (message_packet (concat bufs) flags d) None h (CbSend op) (sq p)\<rparr>) (peers d)"
    by blast
  let ?q = "send_async (send_priority flags) (message_packet (concat bufs) flags d) None h (CbSend op) (sq p)"
  have "acct d d1" using SendTo_ok [OF quiet_relies [OF assms], of d dest bufs actx flags] s(1) by (simp add: step2_ok_def)
  then have b: "backed {#} d1" using Cons.prems(3) by (simp add: acct_def)
  have p1: "get_peer_by_peer_id i d1 = Some (p\<lparr>sq := ?q\<rparr>)" using s(4) Cons.prems(4) by (simp add: get_peer_by_peer_id_def)
  note q = queue_send_async [OF message_packet_wire [of bufs flags d actx] Cons.prems(5), of "send_priority flags" h op]
  have "\<forall>(bufs, actx, flags) \<in> set ms. \<not> flag_set flags DPNSEND_COMPLETEONPROCESS" using Cons.prems(2) by simp
  from Cons.IH [OF s(2) this b p1] q(1) obtain d' q' where
    d': "send_messages app dest ms d1 = Inr d'" "backed {#} d'" "get_peer_by_peer_id i d' = Some (p\<lparr>sq := q'\<rparr>)" "fresh_queue q'"
      "\<forall>pri. waiting_bytes q' pri = waiting_bytes ?q pri @ map (wire \<circ> out_msg (local_player_id d)) (filter (\<lambda>m. out_priority m = pri) ms)"
    using s(3) by auto
  show ?case
    using d' s(1) q(2) by (intro exI [of _ d'] exI [of _ q']) (simp add: m)
qed

lemma fresh_contents: "fresh_queue q \<Longrightarrow> contents q = queued q \<and> (\<forall>op \<in> set (contents q). fresh_op op)"
  by (auto simp: fresh_queue_def contents_def set_queued)

lemma waiting_contents: "map op_data (queued q) = concat (map (waiting_bytes q) (rev (sorted_list_of_set UNIV)))"
  by (simp add: queued_descending waiting_bytes_def [abs_def] map_concat comp_def)

lemma empty_fresh: "contents q = [] \<Longrightarrow> fresh_queue q \<and> waiting_bytes q pri = []"
proof -
  assume "contents q = []"
  then have "current q = None" "queue_of pri q = []" for pri
    by (cases pri; simp add: contents_def queued_def split: option.splits)+
  then show ?thesis by (simp add: fresh_queue_def waiting_bytes_def)
qed

text \<open>
  C4: Messages arrive. Any number of calls of \<^verbatim>\<open>SendTo\<close> for a player that is reached through an idle connection,
  followed by \<^verbatim>\<open>io_peer_send\<close> with a socket that takes every packet in pieces of any sizes, empties the queue; and
  however TCP cuts the bytes that went out, the receiver's \<^verbatim>\<open>io_peer_recv\<close> delivers exactly the payloads of the calls,
  each once, by falling priority and within a priority in the order of the calls, as messages of the sender.
\<close>

theorem messages_arrive:
  assumes "quiet app" "quiet app'" "balanced d" "reaches dest i d" "get_peer_by_peer_id i d = Some p" "pstate p \<noteq> PS_CLOSING"
    "contents (sq p) = []" "sock_sent p = []"
    "\<forall>(bufs, actx, flags) \<in> set ms. \<not> flag_set flags DPNSEND_COMPLETEONPROCESS"
    "\<forall>m \<in> set ms. length (wire (out_msg (local_player_id d) m)) \<le> MAX_PACKET_SIZE"
    "list_all2 (\<lambda>ns m. pieces ns (length (wire (out_msg (local_player_id d) m)))) nss (by_priority ms)"
    "om_wf (peers e)" "get_peer_by_peer_id j e = Some r" "pstate r \<noteq> PS_CLOSING" "\<not> recv_busy r" "recv_buf r = []"
    "get_peer_by_player_id (local_player_id d) e = Some sender" "length ms < fuel"
  shows "\<exists>d1 d2 p2. send_messages app dest ms d = Inr d1 \<and> io_peer_send app fuel shut (map Sent (concat nss)) i d1 = Inr d2
    \<and> get_peer_by_peer_id i d2 = Some p2 \<and> contents (sq p2) = []
    \<and> (\<forall>chunks. concat chunks = sock_sent p2 \<and> fits [] chunks \<longrightarrow>
         (\<exists>e'. io_peer_recv mb app' fuel env sel (map RecvData chunks) j e = Inr e' \<and>
            delivered e' = delivered e @ map (\<lambda>(bufs, actx, flags). MSG_RECEIVE (local_player_id d) (player_ctx sender) (concat bufs) 0) (by_priority ms)))"
proof -
  let ?me = "local_player_id d"
  have empty: "fresh_queue (sq p)" "waiting_bytes (sq p) pri = []" for pri using empty_fresh [OF assms(7)] by simp_all
  from send_messages_queue [OF assms(1,4,9) _ assms(5) empty(1)] assms(3) empty(2) obtain d1 q where
    d1: "send_messages app dest ms d = Inr d1" "backed {#} d1" "get_peer_by_peer_id i d1 = Some (p\<lparr>sq := q\<rparr>)" "fresh_queue q"
      "\<forall>pri. waiting_bytes q pri = map (wire \<circ> out_msg ?me) (filter (\<lambda>m. out_priority m = pri) ms)"
    by (auto simp: balanced_def)
  have "waiting_bytes q = (\<lambda>pri. map (wire \<circ> out_msg ?me) (filter (\<lambda>m. out_priority m = pri) ms))" using d1(5) by auto
  then have bytes: "map op_data (queued q) = map (wire \<circ> out_msg ?me) (by_priority ms)"
    by (simp add: waiting_contents by_priority_def map_concat comp_def)
  have "list_all2 (\<lambda>ns bs. pieces ns (length bs)) nss (map op_data (queued q))"
    using assms(11) unfolding bytes by (simp add: list_all2_map2)
  then have "list_all2 (\<lambda>ns op. pieces ns (length (op_data op))) nss (queued q)" by (simp add: list_all2_map2)
  moreover have "length (op_data op) < 2 ^ 32" if "op \<in> set (queued q)" for op
  proof -
    have "op_data op \<in> set (map (wire \<circ> out_msg ?me) (by_priority ms))" using that unfolding bytes [symmetric] by simp
    then obtain m where "m \<in> set ms" "op_data op = wire (out_msg ?me m)"
      using mset_eq_setD [OF mset_by_priority [of ms]] by auto
    with assms(10) show ?thesis by (fastforce simp: MAX_PACKET_SIZE_def)
  qed
  ultimately obtain d2 p2 where
    d2: "io_peer_send app fuel shut (map Sent (concat nss)) i d1 = Inr d2" "get_peer_by_peer_id i d2 = Some p2" "contents (sq p2) = []"
      "sock_sent p2 = concat (map wire (map (out_msg ?me) (by_priority ms)))"
    using send_all_ops [OF assms(1) _ _ d1(2,3), of nss "queued q" fuel shut] fresh_contents [OF d1(4)] assms(6,8) by (auto simp: bytes)
  have sub: "set (by_priority ms) = set ms" and len: "length (by_priority ms) = length ms"
    using mset_by_priority [of ms] by (metis mset_eq_setD, metis mset_eq_length)
  have got: "concat (map (received e) (map (out_msg ?me) xs)) =
      map (\<lambda>(bufs, actx, flags). MSG_RECEIVE ?me (player_ctx sender) (concat bufs) 0) xs" for xs
    by (induction xs) (auto simp: assms(17))
  have "\<exists>e'. io_peer_recv mb app' fuel env sel (map RecvData chunks) j e = Inr e' \<and>
      delivered e' = delivered e @ map (\<lambda>(bufs, actx, flags). MSG_RECEIVE ?me (player_ctx sender) (concat bufs) 0) (by_priority ms)"
    if "concat chunks = sock_sent p2 \<and> fits [] chunks" for chunks
  proof -
    have small: "\<forall>m \<in> set (map (out_msg ?me) (by_priority ms)). length (wire m) \<le> MAX_PACKET_SIZE" using assms(10) sub by auto
    have fuel: "length (map (out_msg ?me) (by_priority ms)) < fuel" using assms(18) len by simp
    from that d2(4) have "concat chunks = concat (map wire (map (out_msg ?me) (by_priority ms)))" "fits [] chunks" by simp_all
    from io_peer_recv_stream [OF assms(2) fuel small assms(12-16) this, of mb env sel] show ?thesis unfolding got by blast
  qed
  with d1(1) d2 show ?thesis by blast
qed

text \<open>
  Player 1 sends two messages to player 7, the second with high priority; the socket takes the packets in
  two pieces and one, and the receiver gets everything in two pieces cut inside the first header.
\<close>

definition demo_calls :: "outgoing list" where
  "demo_calls = [([[1]], 0, 0), ([[2], [3]], 0, DPNSEND_PRIORITY_HIGH)]"

definition demo_sender :: DirectPlay8Peer where
  "demo_sender = zeroed_memory\<lparr>state := STATE_CONNECTED, local_player_id := 1, player_to_peer_id := [(7, 3)],
     peers := [(3, new_Peer 7 0 1 PS_CONNECTED 5 0 0)]\<rparr>"

definition demo_addressee :: DirectPlay8Peer where
  "demo_addressee = zeroed_memory\<lparr>peers := [(4, (new_Peer 1 0 1 PS_CONNECTED 5 0 0)\<lparr>player_ctx := 42\<rparr>)], player_to_peer_id := [(1, 4)]\<rparr>"

lemma demo_order: "by_priority demo_calls = [([[2], [3]], 0, DPNSEND_PRIORITY_HIGH), ([[1]], 0, 0)]"
  by (simp add: by_priority_def demo_calls_def priorities_ascending send_priority_def flag_set_def const_defs)

lemma demo_lengths: "length (wire (me, payload, flags)) = 40 + length payload"
  by (simp add: wire_packet_bytes packet_bytes_def length_field_bytes del: wire.simps)

theorem messages_arrive_witness:
  "\<exists>d1 d2 p2. send_messages silent 7 demo_calls demo_sender = Inr d1
    \<and> io_peer_send silent 3 True (map Sent (concat [[20, 22], [41]])) 3 d1 = Inr d2
    \<and> get_peer_by_peer_id 3 d2 = Some p2 \<and> contents (sq p2) = []
    \<and> (\<forall>chunks. concat chunks = sock_sent p2 \<and> fits [] chunks \<longrightarrow>
         (\<exists>e'. io_peer_recv (\<lambda>_ _. []) silent 3 (\<lambda>_. undefined) True (map RecvData chunks) 4 demo_addressee = Inr e' \<and>
            delivered e' = [MSG_RECEIVE 1 42 [2, 3] 0, MSG_RECEIVE 1 42 [1] 0]))"
proof -
  let ?p = "new_Peer 7 0 1 PS_CONNECTED 5 0 0" and ?r = "(new_Peer 1 0 1 PS_CONNECTED 5 0 0)\<lparr>player_ctx := 42\<rparr>"
  have s: "get_peer_by_peer_id 3 demo_sender = Some ?p" "local_player_id demo_sender = 1" "reaches 7 3 demo_sender"
    by (simp_all add: demo_sender_def get_peer_by_peer_id_def om_find_Cons reaches_def const_defs)
  have t: "get_peer_by_peer_id 4 demo_addressee = Some ?r" "get_peer_by_player_id 1 demo_addressee = Some ?r" "om_wf (peers demo_addressee)"
    "delivered demo_addressee = []"
    by (simp_all add: demo_addressee_def get_peer_by_peer_id_def get_peer_by_player_id_def om_find_Cons om_wf_def om_keys_def zeroed_memory_def)
  have "balanced demo_sender"
    by (simp add: demo_sender_def balanced_def backed_def zeroed_memory_def refs_def covers_def om_wf_def om_keys_def peer_refs_def
        acks_refs_def new_Peer_def)
  moreover have "\<forall>(bufs, actx, flags) \<in> set demo_calls. \<not> flag_set flags DPNSEND_COMPLETEONPROCESS"
    by (simp add: demo_calls_def flag_set_def const_defs)
  moreover have "\<forall>m \<in> set demo_calls. length (wire (out_msg 1 m)) \<le> MAX_PACKET_SIZE"
    by (simp add: demo_calls_def demo_lengths MAX_PACKET_SIZE_def del: wire.simps)
  moreover have "list_all2 (\<lambda>ns m. pieces ns (length (wire (out_msg 1 m)))) [[20, 22], [41]] (by_priority demo_calls)"
    by (simp add: demo_order demo_lengths pieces_def del: wire.simps)
  moreover have "length demo_calls < 3" by (simp add: demo_calls_def)
  ultimately show ?thesis
    using messages_arrive [of silent silent demo_sender 7 3 ?p demo_calls "[[20, 22], [41]]" demo_addressee 4 ?r ?r 3 True "\<lambda>_ _. []" "\<lambda>_. undefined" True] s t
    by (simp add: demo_order new_Peer_def new_SendQueue_def contents_def queued_def)
qed

end
