(* ===== verification/PeerJoin.thy ===== *)
theory PeerJoin
  imports PeerHandshake PeerClose
begin

text \<open>
  Joining a session, with both ends in the picture: the request of the joining peer, the decision of the
  host, and what the answer makes of the joining peer.
\<close>

text \<open>A packet that arrives whole.\<close>

definition receive_packet ::
  "mb_conv \<Rightarrow> app \<Rightarrow> nat \<Rightarrow> (nat \<Rightarrow> conn_env) \<Rightarrow> dword \<Rightarrow> byte list \<Rightarrow> DirectPlay8Peer \<Rightarrow> fault + DirectPlay8Peer" where
  "receive_packet mb app fuel env i bs d =
     (case PacketDeserialiser bs (word_of_nat (length bs) :: 32 word) of
        None \<Rightarrow> Inl Diverges
      | Some (Inl e) \<Rightarrow> Inl (Uncaught e)
      | Some (Inr pd) \<Rightarrow> handle_packet mb app fuel env i pd d)"

lemma receive_serialised:
  assumes "length (serialise t fs) < 2 ^ 32"
  obtains pd where "represents pd t fs" "receive_packet mb app fuel env i (serialise t fs) d = handle_packet mb app fuel env i pd d"
proof -
  from serialise_received [OF assms] obtain pd where
    "PacketDeserialiser (fst (raw_packet (serialise t fs))) (word_of_nat (length (serialise t fs)) :: 32 word) = Some (Inr pd)" "represents pd t fs" .
  then show ?thesis using that by (simp add: receive_packet_def raw_packet_def)
qed

section \<open>The request\<close>

definition request_fields :: "DirectPlay8Peer \<Rightarrow> field list" where
  "request_fields d =
     [if instance_guid d \<noteq> GUID_NULL then FGuid (instance_guid d) else FNull,
      FGuid (application_guid d),
      if password d \<noteq> [] then FWstring (password d) else FNull,
      data_or_null (connect_req_data d), FWstring (local_player_name d), FData (local_player_data d)]"

lemma request_packet: "connect_host_packet d = serialise DPLITE_MSGID_CONNECT_HOST (request_fields d)"
  by (simp add: connect_host_packet_def request_fields_def)

lemma request_read:
  assumes "represents pd DPLITE_MSGID_CONNECT_HOST (request_fields c)"
  shows "is_null pd 0 = Inr (instance_guid c = GUID_NULL)"
    "instance_guid c \<noteq> GUID_NULL \<Longrightarrow> get_guid pd 0 = Inr (instance_guid c)"
    "get_guid pd (Suc 0) = Inr (application_guid c)" "optional_wstring pd 2 = Inr (password c)"
    "get_wstring pd 4 = Inr (local_player_name c)" "get_data pd 5 = Inr (local_player_data c)"
    "optional_data pd 3 = Inr (if connect_req_data c = [] then None else Some (connect_req_data c))"
  using assms by (simp_all add: represents_def field_access_def request_fields_def optional_wstring_def optional_data_def data_or_null_def)

text \<open>The connection was established: the request is queued.\<close>

lemma connected_requests:
  assumes "peers c = [(k, q)]" "pstate q = PS_CONNECTING_HOST"
  shows "io_peer_connected app fuel True 0 k c = Inr (c\<lparr>peers := [(k, q\<lparr>sq := send SEND_PRI_MEDIUM (connect_host_packet c) None CbNone (sq q),
    pstate := PS_REQUESTING_HOST\<rparr>)]\<rparr>)"
  using assms by (simp add: io_peer_connected_def with_peer_def get_peer_by_peer_id_def om_find_Cons upd_peer_def om_update_def)

lemma length_contents_send [simp]: "length (contents (send pri ps a cb q)) = Suc (length (contents q))"
  by (cases pri) (simp_all add: send_def send_async_def Let_def contents_def queued_def)

section \<open>The decision of the host\<close>

text \<open>Why the host turns a request down before it asks the application.\<close>

definition refusal :: "DirectPlay8Peer \<Rightarrow> DirectPlay8Peer \<Rightarrow> hresult option" where
  "refusal c h =
     (if state h \<noteq> STATE_HOSTING then Some DPNERR_NOTHOST
      else if instance_guid c \<noteq> GUID_NULL \<and> instance_guid c \<noteq> instance_guid h then Some DPNERR_INVALIDINSTANCE
      else if application_guid c \<noteq> application_guid h then Some DPNERR_INVALIDAPPLICATION
      else if password c \<noteq> password h then Some DPNERR_INVALIDPASSWORD
      else None)"

lemma request_refused:
  assumes "represents pd DPLITE_MSGID_CONNECT_HOST (request_fields c)" "get_peer_by_peer_id i h = Some p" "pstate p = PS_ACCEPTED"
    "refusal c h = Some err"
  shows "handle_packet mb app fuel env i pd h = Inr (host_send_fail i err [] h)"
proof -
  have "packet_type pd = Inr DPLITE_MSGID_CONNECT_HOST" using assms(1) by (simp add: represents_def)
  then show ?thesis
    using assms(2-) request_read [OF assms(1)]
    by (auto simp: handle_packet_def handle_host_connect_request_def with_peer_def refusal_def split: if_splits)
qed

text \<open>A session without other players and without groups, on a service provider of the library.\<close>

definition empty_session :: "dword \<Rightarrow> DirectPlay8Peer \<Rightarrow> bool" where
  "empty_session i h \<longleftrightarrow> player_to_peer_id h = [] \<and> groups h = [] \<and> destroyed_groups h = {}
     \<and> (\<forall>(j, q) \<in> set (peers h). j = i \<or> pstate q \<noteq> PS_CONNECTED)
     \<and> service_provider h \<in> {CLSID_DP8SP_TCPIP, CLSID_DP8SP_IPX}"

lemma create_host_address_provider: "sp \<in> {CLSID_DP8SP_TCPIP, CLSID_DP8SP_IPX} \<Longrightarrow> \<exists>x. create_host_address mb g sp sa = Some x"
  by (auto simp: create_host_address_def Let_def case_prod_beta)

text \<open>The host's state when it writes the answer.\<close>

definition welcomed :: "dword \<Rightarrow> app_reply \<Rightarrow> DirectPlay8Peer \<Rightarrow> DirectPlay8Peer" where
  "welcomed i r d =
     upd_peer i (\<lambda>p. p\<lparr>player_id := next_player_id d, player_ctx := r_context r, pstate := PS_CONNECTED\<rparr>)
       (d\<lparr>next_player_id := next_player_id d + 1, player_to_peer_id := om_set (next_player_id d) i (player_to_peer_id d)\<rparr>)"

definition answer_packet :: "dword \<Rightarrow> app_reply \<Rightarrow> DirectPlay8Peer \<Rightarrow> sbuf" where
  "answer_packet i r d = serialise DPLITE_MSGID_CONNECT_HOST_OK (host_ok_fields i (next_player_id d) (r_data r) (welcomed i r d))"

lemma empty_session_answer:
  assumes "empty_session i h"
  shows "others i (welcomed i r h) = []" "member_group_ids (welcomed i r h) = []" "announced (welcomed i r h) = 0"
  using assms
  by (auto simp: empty_session_def others_def welcomed_def upd_peer_def om_update_def member_group_ids_def announced_def filter_empty_conv
      split: if_splits)

text \<open>The newcomer is a player: found under its new identifier, with its own name and data, and the answer queued.\<close>

definition player_added :: "dword \<Rightarrow> dpnid \<Rightarrow> wchar list \<Rightarrow> byte list \<Rightarrow> send_cb SendQueue \<Rightarrow> DirectPlay8Peer \<Rightarrow> bool" where
  "player_added i pid n dat q d \<longleftrightarrow> player_to_peer_id d = [(pid, i)] \<and>
     (\<exists>p. get_peer_by_peer_id i d = Some p \<and> pstate p = PS_CONNECTED \<and> player_id p = pid \<and> player_name p = n \<and> player_data p = dat \<and> sq p = q)"

lemma accept_player_empty:
  assumes "quiet app" "empty_session i d" "get_peer_by_peer_id i d = Some p"
  shows "\<exists>d'. accept_player app i r d = Inr d'
    \<and> player_added i (next_player_id d) (player_name p) (player_data p) (send SEND_PRI_MEDIUM (answer_packet i r d) None CbNone (sq p)) d'
    \<and> delivered d' = delivered d @ [MSG_CREATE_PLAYER (next_player_id d) (r_context r)]"
proof -
  let ?w = "welcomed i r d"
  define d3 where "d3 = peer_send i SEND_PRI_MEDIUM (answer_packet i r d) CbNone ?w"
  define d4 where "d4 = d3\<lparr>delivered := delivered d3 @ [MSG_CREATE_PLAYER (next_player_id d) (r_context r)]\<rparr>"
  define c where "c = r_context (fst (app (MSG_CREATE_PLAYER (next_player_id d) (r_context r)) d4))"
  have ann: "announce_groups i ?w = ?w"
    using assms(2) by (simp add: announce_groups_def empty_session_def welcomed_def upd_peer_def)
  have p4: "get_peer_by_peer_id i d4 = Some (p\<lparr>player_id := next_player_id d, player_ctx := r_context r, pstate := PS_CONNECTED,
      sq := send SEND_PRI_MEDIUM (answer_packet i r d) None CbNone (sq p)\<rparr>)"
    using assms(3) by (simp add: d4_def d3_def peer_send_def welcomed_def get_peer_by_peer_id_def upd_peer_def)
  have acc: "accept_player app i r d = (let pid = next_player_id d; d1 = ?w; d2 = announce_groups i d1;
      d3 = peer_send i SEND_PRI_MEDIUM (serialise DPLITE_MSGID_CONNECT_HOST_OK (host_ok_fields i pid (r_data r) d2)) CbNone d2;
      (r2, d4) = dispatch_message app (MSG_CREATE_PLAYER pid (r_context r)) d3
    in renew_peer i d4 (\<lambda>_. Inr (upd_peer i (\<lambda>p. p\<lparr>player_ctx := r_context r2\<rparr>) d4)))"
    by (simp only: accept_player_def welcomed_def Let_def)
  have "accept_player app i r d = Inr (upd_peer i (\<lambda>p. p\<lparr>player_ctx := c\<rparr>) d4)"
    unfolding acc Let_def ann answer_packet_def [symmetric] d3_def [symmetric] quiet_dispatch [OF assms(1)] d4_def [symmetric] c_def [symmetric]
    by (simp add: renew_peer_def p4 c_def)
  moreover have "player_to_peer_id (upd_peer i f d4) = [(next_player_id d, i)]" for f
    using assms(2) by (simp add: d4_def d3_def peer_send_def welcomed_def upd_peer_def empty_session_def)
  moreover have "delivered (upd_peer i f d4) = delivered d @ [MSG_CREATE_PLAYER (next_player_id d) (r_context r)]" for f
    by (simp add: d4_def d3_def peer_send_def welcomed_def upd_peer_def)
  ultimately show ?thesis using p4 by (simp add: player_added_def)
qed

text \<open>
  What the host asks its application about a request that passed the checks, the state in which it asks, and the answer.
\<close>

definition indication :: "mb_conv \<Rightarrow> DirectPlay8Peer \<Rightarrow> DirectPlay8Peer \<Rightarrow> Peer \<Rightarrow> dpnmsg" where
  "indication mb c h p =
     MSG_INDICATE_CONNECT (if connect_req_data c = [] then None else Some (connect_req_data c))
       (map_option fst (create_host_address mb None (service_provider h) \<lparr>sin_addr = ip p, sin_port = htons (port p)\<rparr>))"

definition asking :: "dword \<Rightarrow> DirectPlay8Peer \<Rightarrow> DirectPlay8Peer \<Rightarrow> DirectPlay8Peer" where
  "asking i c h =
     upd_peer i (\<lambda>p. p\<lparr>player_name := local_player_name c, player_data := local_player_data c, pstate := PS_INDICATING\<rparr>) h"

definition host_reply :: "mb_conv \<Rightarrow> app \<Rightarrow> dword \<Rightarrow> DirectPlay8Peer \<Rightarrow> DirectPlay8Peer \<Rightarrow> Peer \<Rightarrow> app_reply" where
  "host_reply mb app i c h p = fst (dispatch_message app (indication mb c h p) (asking i c h))"

definition asked_msgs :: "mb_conv \<Rightarrow> app_reply \<Rightarrow> DirectPlay8Peer \<Rightarrow> DirectPlay8Peer \<Rightarrow> Peer \<Rightarrow> dpnmsg list" where
  "asked_msgs mb r c h p =
     indication mb c h p # (if r_data r = [] then [] else [MSG_RETURN_BUFFER S_OK (r_data r) (r_data_context r)])"

text \<open>The host's decision: the reason for a refusal with the data that goes with it, or none.\<close>

definition decision :: "mb_conv \<Rightarrow> app \<Rightarrow> dword \<Rightarrow> DirectPlay8Peer \<Rightarrow> DirectPlay8Peer \<Rightarrow> Peer \<Rightarrow> (hresult \<times> byte list) option" where
  "decision mb app i c h p =
     (case refusal c h of
        Some err \<Rightarrow> Some (err, [])
      | None \<Rightarrow>
          let r = host_reply mb app i c h p
          in if r_result r = S_OK then None else Some (DPNERR_HOSTREJECTEDCONNECTION, r_data r))"

lemma request_asked:
  assumes "represents pd DPLITE_MSGID_CONNECT_HOST (request_fields c)" "get_peer_by_peer_id i h = Some p" "pstate p = PS_ACCEPTED"
    "refusal c h = None" "service_provider h \<in> {CLSID_DP8SP_TCPIP, CLSID_DP8SP_IPX}" "quiet app"
    "r = host_reply mb app i c h p" "h3 = (asking i c h)\<lparr>delivered := delivered h @ asked_msgs mb r c h p\<rparr>"
  shows "handle_packet mb app fuel env i pd h =
      (if r_result r = S_OK then accept_player app i r h3 else Inr (host_send_fail i DPNERR_HOSTREJECTEDCONNECTION (r_data r) h3))"
proof -
  have type: "packet_type pd = Inr DPLITE_MSGID_CONNECT_HOST" using assms(1) by (simp add: represents_def)
  define cd where "cd = (if connect_req_data c = [] then None else Some (connect_req_data c))"
  obtain x where x: "create_host_address mb None (service_provider h) \<lparr>sin_addr = ip p, sin_port = htons (port p)\<rparr> = Some x"
    using create_host_address_provider assms(5) by blast
  have ind: "indication mb c h p = MSG_INDICATE_CONNECT cd (Some (fst x))" by (simp add: indication_def x cd_def)
  have asked: "dispatch_message app (MSG_INDICATE_CONNECT cd (Some (fst x))) (asking i c h) =
      (r, (asking i c h)\<lparr>delivered := delivered h @ [indication mb c h p]\<rparr>)"
    using quiet_dispatch [OF assms(6), of "indication mb c h p" "asking i c h"] assms(7)
    by (simp add: host_reply_def ind asking_def upd_peer_def)
  have ret: "return_buffer app r ((asking i c h)\<lparr>delivered := delivered h @ [indication mb c h p]\<rparr>) = h3"
    by (simp add: return_buffer_def quiet_dispatch_snd [OF assms(6)] assms(8) asked_msgs_def)
  have p3: "get_peer_by_peer_id i h3 \<noteq> None" using assms(2) by (simp add: assms(8) asking_def get_peer_by_peer_id_def upd_peer_def)
  show ?thesis
    using assms(2-4) request_read [OF assms(1)] type x asked p3
    by (auto simp: handle_packet_def handle_host_connect_request_def with_peer_def refusal_def renew_peer_def case_prod_beta ret
        simp flip: cd_def asking_def split: if_splits)
qed

lemma request_accepted:
  assumes "represents pd DPLITE_MSGID_CONNECT_HOST (request_fields c)" "get_peer_by_peer_id i h = Some p" "pstate p = PS_ACCEPTED"
    "refusal c h = None" "empty_session i h" "quiet app" "r = host_reply mb app i c h p" "r_result r = S_OK"
  shows "\<exists>h'. handle_packet mb app fuel env i pd h = Inr h'
    \<and> player_added i (next_player_id h) (local_player_name c) (local_player_data c)
        (send SEND_PRI_MEDIUM (answer_packet i r h) None CbNone (sq p)) h'
    \<and> delivered h' = delivered h @ asked_msgs mb r c h p @ [MSG_CREATE_PLAYER (next_player_id h) (r_context r)]"
proof -
  define h3 where "h3 = (asking i c h)\<lparr>delivered := delivered h @ asked_msgs mb r c h p\<rparr>"
  have sp: "service_provider h \<in> {CLSID_DP8SP_TCPIP, CLSID_DP8SP_IPX}" using assms(5) by (simp add: empty_session_def)
  note asked = request_asked [OF assms(1-4) sp assms(6,7) h3_def]
  have p3: "get_peer_by_peer_id i h3 = Some (p\<lparr>player_name := local_player_name c, player_data := local_player_data c, pstate := PS_INDICATING\<rparr>)"
    using assms(2) by (simp add: h3_def asking_def get_peer_by_peer_id_def upd_peer_def)
  have e3: "empty_session i h3"
    using assms(5) by (auto simp: empty_session_def h3_def asking_def upd_peer_def om_update_def)
  have same: "instance_guid h3 = instance_guid h" "host_player_id h3 = host_player_id h" "next_player_id h3 = next_player_id h"
    "local_player_name h3 = local_player_name h" "local_player_data h3 = local_player_data h" "max_players h3 = max_players h"
    "session_name h3 = session_name h" "password h3 = password h" "application_data h3 = application_data h"
    by (simp_all add: h3_def asking_def upd_peer_def)
  have ans: "answer_packet i r h3 = answer_packet i r h"
    unfolding answer_packet_def host_ok_fields_parts empty_session_answer [OF e3] empty_session_answer [OF assms(5)]
    by (simp add: host_fields_def empty_session_answer [OF e3] empty_session_answer [OF assms(5)])
      (simp add: welcomed_def upd_peer_def same)
  show ?thesis
    using accept_player_empty [OF assms(6) e3 p3, of r] assms(8) unfolding asked by (auto simp: ans same) (simp_all add: h3_def)
qed

lemma request_rejected:
  assumes "represents pd DPLITE_MSGID_CONNECT_HOST (request_fields c)" "get_peer_by_peer_id i h = Some p" "pstate p = PS_ACCEPTED"
    "service_provider h \<in> {CLSID_DP8SP_TCPIP, CLSID_DP8SP_IPX}" "quiet app" "decision mb app i c h p = Some (err, dat)"
  shows "\<exists>h' p'. handle_packet mb app fuel env i pd h = Inr h' \<and> get_peer_by_peer_id i h' = Some p' \<and> pstate p' = PS_CLOSING
    \<and> sq p' = send SEND_PRI_MEDIUM (host_fail_packet err dat) None CbNone (sq p) \<and> player_to_peer_id h' = player_to_peer_id h"
proof (cases "refusal c h")
  case (Some e)
  then have e: "err = e" "dat = []" using assms(6) by (simp_all add: decision_def)
  have "player_to_peer_id (upd_peer i f h) = player_to_peer_id h" for f by (simp add: upd_peer_def)
  with request_refused [OF assms(1-3) Some, of mb app fuel env] assms(2) show ?thesis by (simp add: host_send_fail_def e)
next
  case None
  define r where "r = host_reply mb app i c h p"
  define h3 where "h3 = (asking i c h)\<lparr>delivered := delivered h @ asked_msgs mb r c h p\<rparr>"
  have "err = DPNERR_HOSTREJECTEDCONNECTION" "dat = r_data r" "r_result r \<noteq> S_OK"
    using assms(6) None by (auto simp: decision_def Let_def r_def split: if_splits)
  then have "handle_packet mb app fuel env i pd h = Inr (host_send_fail i err dat h3)"
    using request_asked [OF assms(1-3) None assms(4,5) r_def h3_def, of fuel env] by simp
  moreover have "get_peer_by_peer_id i h3 = Some (p\<lparr>player_name := local_player_name c, player_data := local_player_data c, pstate := PS_INDICATING\<rparr>)"
    "player_to_peer_id h3 = player_to_peer_id h"
    using assms(2) by (simp_all add: h3_def asking_def get_peer_by_peer_id_def upd_peer_def)
  moreover have "player_to_peer_id (upd_peer i f h3) = player_to_peer_id h3" for f by (simp add: upd_peer_def)
  ultimately show ?thesis by (simp add: host_send_fail_def)
qed

section \<open>The joining peer\<close>

text \<open>The joining peer is in the session of \<open>h\<close> as player \<open>pid\<close>, connected to the host through peer \<open>k\<close>.\<close>

definition in_session_of :: "dword \<Rightarrow> dpnid \<Rightarrow> DirectPlay8Peer \<Rightarrow> DirectPlay8Peer \<Rightarrow> bool" where
  "in_session_of k pid h c \<longleftrightarrow> state c = STATE_CONNECTED \<and> local_player_id c = pid \<and> instance_guid c = instance_guid h
     \<and> host_player_id c = host_player_id h \<and> om_find (host_player_id h) (player_to_peer_id c) = Some k
     \<and> max_players c = max_players h \<and> session_name c = session_name h \<and> password c = password h
     \<and> application_data c = application_data h \<and> connect_result c = S_OK
     \<and> (\<exists>q. get_peer_by_peer_id k c = Some q \<and> pstate q = PS_CONNECTED \<and> player_id q = host_player_id h
          \<and> player_name q = local_player_name h \<and> player_data q = local_player_data h)"

lemma answer_joins:
  assumes "quiet app" "state c = STATE_CONNECTING_TO_HOST" "peers c = [(k, q)]" "pstate q = PS_REQUESTING_HOST"
    "represents pd DPLITE_MSGID_CONNECT_HOST_OK (host_ok_fields i pid reply w)"
    "others i w = []" "member_group_ids w = []" "announced w = 0"
  shows "\<exists>c'. handle_packet mb app fuel env k pd c = Inr c' \<and> in_session_of k pid w c'
    \<and> delivered c' = delivered c @ [MSG_CREATE_PLAYER pid (local_player_ctx c), MSG_CREATE_PLAYER (host_player_id w) 0,
        MSG_CONNECT_COMPLETE (connect_handle c) (connect_ctx c) S_OK (if reply = [] then None else Some reply) pid]"
proof -
  have type: "packet_type pd = Inr DPLITE_MSGID_CONNECT_HOST_OK" using assms(5) by (simp add: represents_def)
  have parse: "parse_host_ok pd = Inr \<lparr>ho_instance = instance_guid w, ho_host_id = host_player_id w, ho_local_id = pid,
    ho_peers = [], ho_reply = reply, ho_name = local_player_name w, ho_data = local_player_data w,
    ho_max_players = max_players w, ho_session_name = session_name w, ho_password = password w,
    ho_application_data = application_data w, ho_groups = []\<rparr>"
    using parse_host_ok_same [OF represents_reads [OF assms(5)]] assms(6-8) by simp
  show ?thesis
    using assms(2-4)
    by (simp add: handle_packet_def type msgid_defs handle_host_connect_ok_def with_peer_def get_peer_by_peer_id_def om_find_Cons parse
        apply_host_ok_def upd_peer_def om_update_def quiet_dispatch [OF assms(1)] quiet_dispatch_snd [OF assms(1)] renew_peer_def
        connect_check_def connecting_def Let_def in_session_of_def asserting_def om_find_set)
qed

text \<open>
  The joining peer is back in the state after \<^verbatim>\<open>Initialize\<close>, with no connection and no socket, and its application has been told that
  \<^verbatim>\<open>Connect\<close> failed, once and as the last thing.
\<close>

definition join_failed :: "hresult \<Rightarrow> byte list \<Rightarrow> DirectPlay8Peer \<Rightarrow> DirectPlay8Peer \<Rightarrow> bool" where
  "join_failed err dat c c' \<longleftrightarrow> state c' = STATE_INITIALISED \<and> peers c' = [] \<and> udp_socket c' = None \<and> listener_socket c' = None
     \<and> discovery_socket c' = None \<and> connect_result c' = err
     \<and> (let m = MSG_CONNECT_COMPLETE (connect_handle c) (connect_ctx c) err (if dat = [] then None else Some dat) 0
        in connects c' = connects c @ [m] \<and> last (delivered c') = m)"

lemma refused_fails:
  assumes "quiet app" "balanced c" "state c = STATE_CONNECTING_TO_HOST" "peers c = [(k, q)]" "pstate q = PS_REQUESTING_HOST"
    "om_wf (groups c)" "load q + length (groups c) + 5 < fuel"
    "represents pd DPLITE_MSGID_CONNECT_HOST_FAIL [FDword err, data_or_null dat]"
  shows "\<exists>c'. handle_packet mb app fuel env k pd c = Inr c' \<and> join_failed err dat c c'"
proof -
  have type: "packet_type pd = Inr DPLITE_MSGID_CONNECT_HOST_FAIL" "get_dword pd 0 = Inr err"
    "optional_data pd (Suc 0) = Inr (if dat = [] then None else Some dat)"
    using assms(8) by (simp_all add: represents_def field_access_def optional_data_def data_or_null_def)
  obtain f where f: "fuel = Suc f" using assms(7) by (cases fuel) auto
  let ?c = "close_main_sockets (c\<lparr>state := STATE_CONNECT_FAILED\<rparr>)"
  have same: "peers ?c = peers c" "groups ?c = groups c" "state ?c = STATE_CONNECT_FAILED" "connect_handle ?c = connect_handle c" "connect_ctx ?c = connect_ctx c"
    "udp_socket ?c = None" "listener_socket ?c = None" "discovery_socket ?c = None" "delivered ?c = delivered c"
    by (simp_all add: close_main_sockets_def)
  have b: "backed {#} ?c"
    using assms(2) backed_fields [of ?c c] by (simp add: balanced_def close_main_sockets_def refs_def)
  have "DPNERR_GENERIC \<noteq> S_OK" by (simp add: const_defs)
  from peer_destroy_all_ends [OF assms(1) this b, of f DPNDESTROYPLAYERREASON_CONNECTIONLOST] obtain c1 where
    c1: "peer_destroy_all app f DPNERR_GENERIC DPNDESTROYPLAYERREASON_CONNECTIONLOST ?c = Inr c1" "peers c1 = []" "settled ?c c1"
    using assms(4,6,7) by (auto simp: same f detached_def)
  then show ?thesis
    using assms(3-5) c1(3)
    by (simp add: handle_packet_def type msgid_defs handle_host_connect_fail_def with_peer_def get_peer_by_peer_id_def om_find_Cons f
        asserting_def Let_def quiet_dispatch_snd [OF assms(1)] settled_def same join_failed_def)
qed

section \<open>Both ends\<close>

lemma answer_received:
  assumes "quiet app" "state c = STATE_CONNECTING_TO_HOST" "peers c = [(k, q)]" "pstate q = PS_REQUESTING_HOST" "empty_session i h"
    "length (answer_packet i r h) < 2 ^ 32"
  shows "\<exists>c'. receive_packet mb app fuel env k (answer_packet i r h) c = Inr c' \<and> in_session_of k (next_player_id h) h c'
    \<and> delivered c' = delivered c @ [MSG_CREATE_PLAYER (next_player_id h) (local_player_ctx c), MSG_CREATE_PLAYER (host_player_id h) 0,
        MSG_CONNECT_COMPLETE (connect_handle c) (connect_ctx c) S_OK (if r_data r = [] then None else Some (r_data r)) (next_player_id h)]"
proof -
  from receive_serialised [OF assms(6) [unfolded answer_packet_def], of mb app fuel env k c] obtain pd where
    "represents pd DPLITE_MSGID_CONNECT_HOST_OK (host_ok_fields i (next_player_id h) (r_data r) (welcomed i r h))"
    "receive_packet mb app fuel env k (answer_packet i r h) c = handle_packet mb app fuel env k pd c"
    unfolding answer_packet_def .
  moreover have "in_session_of k pid (welcomed i r h) c' = in_session_of k pid h c'" "host_player_id (welcomed i r h) = host_player_id h" for pid c'
    by (simp_all add: in_session_of_def welcomed_def upd_peer_def)
  ultimately show ?thesis
    using answer_joins [OF assms(1-4) _ empty_session_answer [OF assms(5)]] by metis
qed

lemma refusal_received:
  assumes "quiet app" "balanced c" "state c = STATE_CONNECTING_TO_HOST" "peers c = [(k, q)]" "pstate q = PS_REQUESTING_HOST"
    "om_wf (groups c)" "load q + length (groups c) + 5 < fuel" "length (host_fail_packet err dat) < 2 ^ 32"
  shows "\<exists>c'. receive_packet mb app fuel env k (host_fail_packet err dat) c = Inr c' \<and> join_failed err dat c c'"
proof -
  from receive_serialised [OF assms(8) [unfolded host_fail_packet_def], of mb app fuel env k c] obtain pd where
    "represents pd DPLITE_MSGID_CONNECT_HOST_FAIL [FDword err, data_or_null dat]"
    "receive_packet mb app fuel env k (host_fail_packet err dat) c = handle_packet mb app fuel env k pd c"
    unfolding host_fail_packet_def .
  then show ?thesis using refused_fails [OF assms(1-7), of pd err dat mb env] by simp
qed


text \<open>A host with a password, and a joining peer that knows it and one that does not.\<close>

definition demo_hosting :: DirectPlay8Peer where
  "demo_hosting = zeroed_memory\<lparr>state := STATE_HOSTING, service_provider := CLSID_DP8SP_TCPIP, password := [80], session_name := [65],
     host_player_id := 1, local_player_id := 1, next_player_id := 2, peers := [(0, new_Peer 0 0 2 PS_ACCEPTED 5 0 0)]\<rparr>"

definition demo_joining :: "wchar list \<Rightarrow> DirectPlay8Peer" where
  "demo_joining pw = zeroed_memory\<lparr>state := STATE_CONNECTING_TO_HOST, password := pw, local_player_name := [74], connect_handle := 6,
     peers := [(9, new_Peer 0 0 2 PS_CONNECTING_HOST 5 0 0)]\<rparr>"

lemma demo_join:
  "get_peer_by_peer_id 0 demo_hosting = Some (new_Peer 0 0 2 PS_ACCEPTED 5 0 0)" "empty_session 0 demo_hosting"
  "balanced (demo_joining pw)" "peers (demo_joining pw) = [(9, new_Peer 0 0 2 PS_CONNECTING_HOST 5 0 0)]"
  "refusal (demo_joining pw) demo_hosting = (if pw = [80] then None else Some DPNERR_INVALIDPASSWORD)"
  by (simp_all add: demo_hosting_def demo_joining_def get_peer_by_peer_id_def om_find_Cons empty_session_def zeroed_memory_def
      balanced_def backed_def refs_def covers_def om_wf_def om_keys_def peer_refs_def acks_refs_def new_Peer_def refusal_def GUID_NULL_def)

lemma demo_request: "length (connect_host_packet (demo_joining [a])) < 2 ^ 32"
  unfolding request_packet serialise_def PacketSerialiser_packet_bytes foldl_append_field
  by (simp add: request_fields_def demo_joining_def zeroed_memory_def GUID_NULL_def data_or_null_def packet_bytes_def length_field_bytes)

lemma demo_answer:
  assumes "r_data r = []"
  shows "length (answer_packet 0 r demo_hosting) < 2 ^ 32"
  unfolding answer_packet_def serialise_def PacketSerialiser_packet_bytes foldl_append_field host_ok_fields_parts
    empty_session_answer [OF demo_join(2)]
  by (simp add: host_fields_def empty_session_answer [OF demo_join(2)])
    (simp add: welcomed_def upd_peer_def demo_hosting_def zeroed_memory_def data_or_null_def packet_bytes_def length_field_bytes triples_def assms)

lemma demo_failure: "length (host_fail_packet err []) < 2 ^ 32"
  unfolding host_fail_packet_def serialise_def PacketSerialiser_packet_bytes foldl_append_field
  by (simp add: packet_bytes_def length_field_bytes data_or_null_def)

text \<open>An application that turns everybody down.\<close>

definition unfriendly :: app where
  "unfriendly m d = (\<lparr>r_result = DPNERR_GENERIC, r_context = 0, r_data = [], r_data_context = 0\<rparr>, d)"


end
