(* ===== verification/Hde32.thy ===== *)
theory Hde32
  imports Prelude
begin

text \<open>
  The instruction length disassembler of \<^verbatim>\<open>src/minhook/src/hde\<close> (\<^verbatim>\<open>hde32.c\<close>, \<^verbatim>\<open>hde32.h\<close>, \<^verbatim>\<open>table32.h\<close>), which the
  hooking library uses to find where the instructions of a function begin.

  The function works through the bytes at \<open>code\<close>; its pointer \<open>p\<close> is the offset from there. Every
  lookup in the table goes through \<open>tab\<close>, which is \<open>None\<close> outside the table, so that the
  disassembler returns \<open>None\<close> exactly if it would read outside. The members of the unions
  \<open>imm\<close> and \<open>disp\<close> share their storage, as in the source.
\<close>

section \<open>Memory\<close>

type_synonym addr = "32 word"
type_synonym memory = "addr \<Rightarrow> byte"

definition peek :: "memory \<Rightarrow> addr \<Rightarrow> nat \<Rightarrow> byte list" where
  "peek m a n = map (\<lambda>i. m (a + word_of_nat i)) [0..<n]"

lemma length_peek [simp]: "length (peek m a n) = n"
  by (simp add: peek_def)

lemma nth_peek [simp]: "i < n \<Longrightarrow> peek m a n ! i = m (a + word_of_nat i)"
  by (simp add: peek_def)

text \<open>Writing bytes at an address, and the addresses they occupy; addresses wrap around.\<close>

definition poke :: "addr \<Rightarrow> byte list \<Rightarrow> memory \<Rightarrow> memory" where
  "poke a bs m = (\<lambda>x. if unat (x - a) < length bs then bs ! unat (x - a) else m x)"

definition span :: "addr \<Rightarrow> nat \<Rightarrow> addr set" where
  "span a n = {x. unat (x - a) < n}"

lemma poke_outside: "x \<notin> span a (length bs) \<Longrightarrow> poke a bs m x = m x"
  by (simp add: poke_def span_def)

lemma unat_addr: "i < 2 ^ 32 \<Longrightarrow> unat (word_of_nat i :: addr) = i"
  by (simp add: unat_of_nat take_bit_eq_mod)

lemma peek_poke: "length bs \<le> 2 ^ 32 \<Longrightarrow> peek (poke a bs m) a (length bs) = bs"
  by (rule nth_equalityI) (simp_all add: poke_def unat_addr)

lemma peek_eq: "(\<And>x. x \<in> span a n \<Longrightarrow> m x = m' x) \<Longrightarrow> n \<le> 2 ^ 32 \<Longrightarrow> peek m a n = peek m' a n"
  by (rule nth_equalityI) (simp_all add: span_def unat_addr)

lemma span_image: "n \<le> 2 ^ 32 \<Longrightarrow> span a n = (\<lambda>i. a + word_of_nat i) ` {..<n}"
proof (intro equalityI subsetI)
  fix x assume "x \<in> span a n"
  then have "x = a + word_of_nat (unat (x - a))" "unat (x - a) < n" by (simp_all add: span_def)
  then show "x \<in> (\<lambda>i. a + word_of_nat i) ` {..<n}" by blast
next
  fix x assume "n \<le> 2 ^ 32" "x \<in> (\<lambda>i. a + word_of_nat i) ` {..<n}"
  then show "x \<in> span a n" by (auto simp: span_def unat_addr)
qed

definition fetch8 :: "memory \<Rightarrow> addr \<Rightarrow> nat \<Rightarrow> byte" where
  "fetch8 m code p = m (code + word_of_nat p)"

definition fetch16 :: "memory \<Rightarrow> addr \<Rightarrow> nat \<Rightarrow> 16 word" where
  "fetch16 m code p = de16 (peek m (code + word_of_nat p) 2)"

definition fetch32 :: "memory \<Rightarrow> addr \<Rightarrow> nat \<Rightarrow> dword" where
  "fetch32 m code p = de32 (peek m (code + word_of_nat p) 4)"

section \<open>Constants and the table\<close>

definition F_MODRM :: dword where "F_MODRM = 0x00000001"
definition F_SIB :: dword where "F_SIB = 0x00000002"
definition F_IMM8 :: dword where "F_IMM8 = 0x00000004"
definition F_IMM16 :: dword where "F_IMM16 = 0x00000008"
definition F_IMM32 :: dword where "F_IMM32 = 0x00000010"
definition F_DISP8 :: dword where "F_DISP8 = 0x00000020"
definition F_DISP16 :: dword where "F_DISP16 = 0x00000040"
definition F_DISP32 :: dword where "F_DISP32 = 0x00000080"
definition F_RELATIVE :: dword where "F_RELATIVE = 0x00000100"
definition F_2IMM16 :: dword where "F_2IMM16 = 0x00000800"
definition F_ERROR :: dword where "F_ERROR = 0x00001000"
definition F_ERROR_OPCODE :: dword where "F_ERROR_OPCODE = 0x00002000"
definition F_ERROR_LENGTH :: dword where "F_ERROR_LENGTH = 0x00004000"
definition F_ERROR_LOCK :: dword where "F_ERROR_LOCK = 0x00008000"
definition F_ERROR_OPERAND :: dword where "F_ERROR_OPERAND = 0x00010000"

definition C_MODRM :: byte where "C_MODRM = 0x01"
definition C_IMM8 :: byte where "C_IMM8 = 0x02"
definition C_IMM16 :: byte where "C_IMM16 = 0x04"
definition C_IMM_P66 :: byte where "C_IMM_P66 = 0x10"
definition C_REL8 :: byte where "C_REL8 = 0x20"
definition C_REL32 :: byte where "C_REL32 = 0x40"
definition C_GROUP :: byte where "C_GROUP = 0x80"
definition C_ERROR :: byte where "C_ERROR = 0xff"

definition PRE_NONE :: byte where "PRE_NONE = 0x01"
definition PRE_F2 :: byte where "PRE_F2 = 0x02"
definition PRE_F3 :: byte where "PRE_F3 = 0x04"
definition PRE_66 :: byte where "PRE_66 = 0x08"
definition PRE_67 :: byte where "PRE_67 = 0x10"
definition PRE_LOCK :: byte where "PRE_LOCK = 0x20"
definition PRE_SEG :: byte where "PRE_SEG = 0x40"

definition DELTA_OPCODES :: nat where "DELTA_OPCODES = 0x4a"
definition DELTA_FPU_REG :: nat where "DELTA_FPU_REG = 0xf1"
definition DELTA_FPU_MODRM :: nat where "DELTA_FPU_MODRM = 0xf8"
definition DELTA_PREFIXES :: nat where "DELTA_PREFIXES = 0x130"
definition DELTA_OP_LOCK_OK :: nat where "DELTA_OP_LOCK_OK = 0x1a1"
definition DELTA_OP2_LOCK_OK :: nat where "DELTA_OP2_LOCK_OK = 0x1b9"
definition DELTA_OP_ONLY_MEM :: nat where "DELTA_OP_ONLY_MEM = 0x1cb"
definition DELTA_OP2_ONLY_MEM :: nat where "DELTA_OP2_ONLY_MEM = 0x1da"

lemmas delta_defs = DELTA_OPCODES_def DELTA_FPU_REG_def DELTA_FPU_MODRM_def DELTA_PREFIXES_def DELTA_OP_LOCK_OK_def
  DELTA_OP2_LOCK_OK_def DELTA_OP_ONLY_MEM_def DELTA_OP2_ONLY_MEM_def

definition hde32_table :: "byte list" where
  "hde32_table =
    [0xa3, 0xa8, 0xa3, 0xa8, 0xa3, 0xa8, 0xa3, 0xa8, 0xa3, 0xa8, 0xa3, 0xa8, 0xa3, 0xa8, 0xa3,
     0xa8, 0xaa, 0xaa, 0xaa, 0xaa, 0xaa, 0xaa, 0xaa, 0xaa, 0xac, 0xaa, 0xb2, 0xaa, 0x9f, 0x9f,
     0x9f, 0x9f, 0xb5, 0xa3, 0xa3, 0xa4, 0xaa, 0xaa, 0xba, 0xaa, 0x96, 0xaa, 0xa8, 0xaa, 0xc3,
     0xc3, 0x96, 0x96, 0xb7, 0xae, 0xd6, 0xbd, 0xa3, 0xc5, 0xa3, 0xa3, 0x9f, 0xc3, 0x9c, 0xaa,
     0xaa, 0xac, 0xaa, 0xbf, 0x03, 0x7f, 0x11, 0x7f, 0x01, 0x7f, 0x01, 0x3f, 0x01, 0x01, 0x90,
     0x82, 0x7d, 0x97, 0x59, 0x59, 0x59, 0x59, 0x59, 0x7f, 0x59, 0x59, 0x60, 0x7d, 0x7f, 0x7f,
     0x59, 0x59, 0x59, 0x59, 0x59, 0x59, 0x59, 0x59, 0x59, 0x59, 0x59, 0x59, 0x9a, 0x88, 0x7d,
     0x59, 0x50, 0x50, 0x50, 0x50, 0x59, 0x59, 0x59, 0x59, 0x61, 0x94, 0x61, 0x9e, 0x59, 0x59,
     0x85, 0x59, 0x92, 0xa3, 0x60, 0x60, 0x59, 0x59, 0x59, 0x59, 0x59, 0x59, 0x59, 0x59, 0x59,
     0x59, 0x59, 0x9f, 0x01, 0x03, 0x01, 0x04, 0x03, 0xd5, 0x03, 0xcc, 0x01, 0xbc, 0x03, 0xf0,
     0x10, 0x10, 0x10, 0x10, 0x50, 0x50, 0x50, 0x50, 0x14, 0x20, 0x20, 0x20, 0x20, 0x01, 0x01,
     0x01, 0x01, 0xc4, 0x02, 0x10, 0x00, 0x00, 0x00, 0x00, 0x01, 0x01, 0xc0, 0xc2, 0x10, 0x11,
     0x02, 0x03, 0x11, 0x03, 0x03, 0x04, 0x00, 0x00, 0x14, 0x00, 0x02, 0x00, 0x00, 0xc6, 0xc8,
     0x02, 0x02, 0x02, 0x02, 0x00, 0x00, 0xff, 0xff, 0xff, 0xff, 0x00, 0x00, 0x00, 0xff, 0xca,
     0x01, 0x01, 0x01, 0x00, 0x06, 0x00, 0x04, 0x00, 0xc0, 0xc2, 0x01, 0x01, 0x03, 0x01, 0xff,
     0xff, 0x01, 0x00, 0x03, 0xc4, 0xc4, 0xc6, 0x03, 0x01, 0x01, 0x01, 0xff, 0x03, 0x03, 0x03,
     0xc8, 0x40, 0x00, 0x0a, 0x00, 0x04, 0x00, 0x00, 0x00, 0x00, 0x7f, 0x00, 0x33, 0x01, 0x00,
     0x00, 0x00, 0x00, 0x00, 0x00, 0xff, 0xbf, 0xff, 0xff, 0x00, 0x00, 0x00, 0x00, 0x07, 0x00,
     0x00, 0xff, 0x00, 0x00, 0x00, 0x00, 0x00, 0x00, 0x00, 0x00, 0x00, 0x00, 0x00, 0x00, 0x00,
     0x00, 0xff, 0xff, 0x00, 0x00, 0x00, 0xbf, 0x00, 0x00, 0x00, 0x00, 0x00, 0x00, 0x00, 0x00,
     0x7f, 0x00, 0x00, 0xff, 0x4a, 0x4a, 0x4a, 0x4a, 0x4b, 0x52, 0x4a, 0x4a, 0x4a, 0x4a, 0x4f,
     0x4c, 0x4a, 0x4a, 0x4a, 0x4a, 0x4a, 0x4a, 0x4a, 0x4a, 0x55, 0x45, 0x40, 0x4a, 0x4a, 0x4a,
     0x45, 0x59, 0x4d, 0x46, 0x4a, 0x5d, 0x4a, 0x4a, 0x4a, 0x4a, 0x4a, 0x4a, 0x4a, 0x4a, 0x4a,
     0x4a, 0x4a, 0x4a, 0x4a, 0x4a, 0x61, 0x63, 0x67, 0x4e, 0x4a, 0x4a, 0x6b, 0x6d, 0x4a, 0x4a,
     0x45, 0x6d, 0x4a, 0x4a, 0x44, 0x45, 0x4a, 0x4a, 0x00, 0x00, 0x00, 0x02, 0x0d, 0x06, 0x06,
     0x06, 0x06, 0x0e, 0x00, 0x00, 0x00, 0x00, 0x06, 0x06, 0x06, 0x00, 0x06, 0x06, 0x02, 0x06,
     0x00, 0x0a, 0x0a, 0x07, 0x07, 0x06, 0x02, 0x05, 0x05, 0x02, 0x02, 0x00, 0x00, 0x04, 0x04,
     0x04, 0x04, 0x00, 0x00, 0x00, 0x0e, 0x05, 0x06, 0x06, 0x06, 0x01, 0x06, 0x00, 0x00, 0x08,
     0x00, 0x10, 0x00, 0x18, 0x00, 0x20, 0x00, 0x28, 0x00, 0x30, 0x00, 0x80, 0x01, 0x82, 0x01,
     0x86, 0x00, 0xf6, 0xcf, 0xfe, 0x3f, 0xab, 0x00, 0xb0, 0x00, 0xb1, 0x00, 0xb3, 0x00, 0xba,
     0xf8, 0xbb, 0x00, 0xc0, 0x00, 0xc1, 0x00, 0xc7, 0xbf, 0x62, 0xff, 0x00, 0x8d, 0xff, 0x00,
     0xc4, 0xff, 0x00, 0xc5, 0xff, 0x00, 0xff, 0xff, 0xeb, 0x01, 0xff, 0x0e, 0x12, 0x08, 0x00,
     0x13, 0x09, 0x00, 0x16, 0x08, 0x00, 0x17, 0x09, 0x00, 0x2b, 0x09, 0x00, 0xae, 0xff, 0x07,
     0xb2, 0xff, 0x00, 0xb4, 0xff, 0x00, 0xb5, 0xff, 0x00, 0xc3, 0x01, 0x00, 0xc7, 0xff, 0xbf,
     0xe7, 0x08, 0x00, 0xf0, 0x02, 0x00]"

definition tab :: "nat \<Rightarrow> byte option" where
  "tab i = (if i < length hde32_table then Some (hde32_table ! i) else None)"

text \<open>The two-level lookup \<^verbatim>\<open>ht[ht[opcode / 4] + (opcode % 4)]\<close> in the table from \<open>ht\<close> on.\<close>

definition lookup :: "nat \<Rightarrow> byte \<Rightarrow> byte option" where
  "lookup ht opc = Option.bind (tab (ht + unat opc div 4)) (\<lambda>t. tab (ht + unat t + unat opc mod 4))"

section \<open>The result\<close>

record hde32s =
  hs_len :: byte
  p_rep :: byte
  p_lock :: byte
  p_seg :: byte
  p_66 :: byte
  p_67 :: byte
  opcode :: byte
  opcode2 :: byte
  modrm :: byte
  modrm_mod :: byte
  modrm_reg :: byte
  modrm_rm :: byte
  sib :: byte
  sib_scale :: byte
  sib_index :: byte
  sib_base :: byte
  hs_imm :: dword
  hs_disp :: dword
  hs_flags :: dword

definition hde32s_zero :: hde32s where
  "hde32s_zero = \<lparr>hs_len = 0, p_rep = 0, p_lock = 0, p_seg = 0, p_66 = 0, p_67 = 0, opcode = 0, opcode2 = 0, modrm = 0,
     modrm_mod = 0, modrm_reg = 0, modrm_rm = 0, sib = 0, sib_scale = 0, sib_index = 0, sib_base = 0, hs_imm = 0,
     hs_disp = 0, hs_flags = 0\<rparr>"

definition has :: "'a::len word \<Rightarrow> 'a word \<Rightarrow> bool" where
  "has x f \<longleftrightarrow> x AND f \<noteq> 0"

definition raise_flags :: "dword \<Rightarrow> hde32s \<Rightarrow> hde32s" where
  "raise_flags f hs = hs\<lparr>hs_flags := hs_flags hs OR f\<rparr>"

text \<open>Writing a member of a union.\<close>

definition union8 :: "byte \<Rightarrow> dword \<Rightarrow> dword" where
  "union8 v u = u AND NOT 0xff OR ucast v"

definition union16 :: "16 word \<Rightarrow> dword \<Rightarrow> dword" where
  "union16 v u = u AND NOT 0xffff OR ucast v"

section \<open>Prefixes and opcode\<close>

text \<open>\<open>x\<close> is what is left of the loop's counter; the result is \<open>c\<close>, \<open>p\<close>, \<open>pref\<close> and the structure.\<close>

primrec hde32_prefixes :: "nat \<Rightarrow> memory \<Rightarrow> addr \<Rightarrow> nat \<Rightarrow> byte \<Rightarrow> byte \<Rightarrow> hde32s \<Rightarrow> byte \<times> nat \<times> byte \<times> hde32s" where
  "hde32_prefixes 0 m code p c pref hs = (c, p, pref, hs)"
| "hde32_prefixes (Suc x) m code p c0 pref hs =
     (let c = fetch8 m code p; again = hde32_prefixes x m code (p + 1) c in
      if c = 0xf3 then again (pref OR PRE_F3) (hs\<lparr>p_rep := c\<rparr>)
      else if c = 0xf2 then again (pref OR PRE_F2) (hs\<lparr>p_rep := c\<rparr>)
      else if c = 0xf0 then again (pref OR PRE_LOCK) (hs\<lparr>p_lock := c\<rparr>)
      else if c \<in> {0x26, 0x2e, 0x36, 0x3e, 0x64, 0x65} then again (pref OR PRE_SEG) (hs\<lparr>p_seg := c\<rparr>)
      else if c = 0x66 then again (pref OR PRE_66) (hs\<lparr>p_66 := c\<rparr>)
      else if c = 0x67 then again (pref OR PRE_67) (hs\<lparr>p_67 := c\<rparr>)
      else (c, p + 1, pref, hs))"

text \<open>The opcode: its table, the last byte of it, the next offset, and the prefixes as adjusted for it.\<close>

definition hde32_opcode :: "memory \<Rightarrow> addr \<Rightarrow> nat \<Rightarrow> byte \<Rightarrow> byte \<Rightarrow> hde32s \<Rightarrow> nat \<times> byte \<times> nat \<times> byte \<times> hde32s" where
  "hde32_opcode m code p c pref0 hs0 =
     (let hs = hs0\<lparr>hs_flags := push_bit 23 (ucast pref0), opcode := c\<rparr>;
          pref = (if pref0 = 0 then pref0 OR PRE_NONE else pref0)
      in if c = 0x0f then (let c2 = fetch8 m code p in (DELTA_OPCODES, c2, p + 1, pref, hs\<lparr>opcode2 := c2\<rparr>))
         else if 0xa0 \<le> c \<and> c \<le> 0xa3 then (0, c, p, if has pref PRE_67 then pref OR PRE_66 else pref AND NOT PRE_66, hs)
         else (0, c, p, pref, hs))"

text \<open>What the tables say of the opcode: its flags, the mask \<open>x\<close> of the members of its group, and whether the prefixes fit.\<close>

definition hde32_cflags :: "nat \<Rightarrow> byte \<Rightarrow> byte \<Rightarrow> hde32s \<Rightarrow> (byte \<times> byte \<times> hde32s) option" where
  "hde32_cflags ht opc pref hs0 =
     Option.bind (lookup ht opc) (\<lambda>cf0.
       let (cf, hs) = (if cf0 = C_ERROR
             then (if opc AND NOT 2 = 0x24 then 1 else 0, raise_flags (F_ERROR OR F_ERROR_OPCODE) hs0)
             else (cf0, hs0))
       in Option.bind
            (if has cf C_GROUP
             then Option.bind (tab (ht + unat (cf AND 0x7f))) (\<lambda>lo. Option.bind (tab (ht + unat (cf AND 0x7f) + 1)) (\<lambda>hi. Some (lo, hi)))
             else Some (cf, 0))
            (\<lambda>(cflags, x).
              if opcode2 hs \<noteq> 0
              then Option.bind (lookup DELTA_PREFIXES opc) (\<lambda>bad.
                     Some (cflags, x, if has bad pref then raise_flags (F_ERROR OR F_ERROR_OPCODE) hs else hs))
              else Some (cflags, x, hs)))"

section \<open>The ModR/M byte and what follows it\<close>

text \<open>The test \<^verbatim>\<open>(x << n) & 0x80\<close>.\<close>

definition masked :: "byte \<Rightarrow> byte \<Rightarrow> bool" where
  "masked x n \<longleftrightarrow> has (push_bit (unat n) x) 0x80"

definition hde32_fpu :: "byte \<Rightarrow> byte \<Rightarrow> byte \<Rightarrow> byte \<Rightarrow> hde32s \<Rightarrow> hde32s option" where
  "hde32_fpu opc m_mod m_reg m_rm hs =
     (if opcode2 hs = 0 \<and> 0xd9 \<le> opc \<and> opc \<le> 0xdf
      then let t = opc - 0xd9
           in Option.bind (if m_mod = 3
                 then map_option (\<lambda>b. masked b m_rm) (tab (DELTA_FPU_MODRM + unat t * 8 + unat m_reg))
                 else map_option (\<lambda>b. masked b m_reg) (tab (DELTA_FPU_REG + unat t)))
               (\<lambda>bad. Some (if bad then raise_flags (F_ERROR OR F_ERROR_OPCODE) hs else hs))
      else Some hs)"

text \<open>
  The search for an instruction that may be locked, in pairs from \<open>ht\<close> to \<open>table_end\<close>: \<open>Some True\<close> is the jump to
  \<open>no_lock_error\<close>.
\<close>

function lock_scan :: "nat \<Rightarrow> nat \<Rightarrow> byte \<Rightarrow> byte \<Rightarrow> bool option" where
  "lock_scan ht table_end op m_reg =
     (if ht = table_end then Some False
      else if ht \<ge> length hde32_table then None
      else if hde32_table ! ht = op then map_option (\<lambda>b. \<not> masked b m_reg) (tab (ht + 1))
      else lock_scan (ht + 2) table_end op m_reg)"
  by pat_completeness auto
termination by (relation "measure (\<lambda>(ht, _). length hde32_table - ht)") auto

declare lock_scan.simps [simp del]

definition hde32_lock :: "byte \<Rightarrow> byte \<Rightarrow> byte \<Rightarrow> byte \<Rightarrow> hde32s \<Rightarrow> hde32s option" where
  "hde32_lock opc pref m_mod m_reg hs =
     (if has pref PRE_LOCK
      then if m_mod = 3 then Some (raise_flags (F_ERROR OR F_ERROR_LOCK) hs)
           else Option.bind (if opcode2 hs \<noteq> 0 then lock_scan DELTA_OP2_LOCK_OK DELTA_OP_ONLY_MEM opc m_reg
                             else lock_scan DELTA_OP_LOCK_OK DELTA_OP2_LOCK_OK (opc AND NOT 1) m_reg)
                  (\<lambda>ok. Some (if ok then hs else raise_flags (F_ERROR OR F_ERROR_LOCK) hs))
      else Some hs)"

text \<open>The search for an instruction that takes no register operand, in triples: \<open>Some True\<close> is the jump to \<open>error_operand\<close>.\<close>

function only_mem_scan :: "nat \<Rightarrow> nat \<Rightarrow> byte \<Rightarrow> byte \<Rightarrow> byte \<Rightarrow> bool option" where
  "only_mem_scan ht table_end opc pref m_reg =
     (if ht = table_end then Some False
      else if ht \<ge> length hde32_table then None
      else if hde32_table ! ht = opc
      then Option.bind (tab (ht + 1)) (\<lambda>pre. if has pre pref then map_option (\<lambda>b. \<not> masked b m_reg) (tab (ht + 2)) else Some False)
      else only_mem_scan (ht + 3) table_end opc pref m_reg)"
  by pat_completeness auto
termination by (relation "measure (\<lambda>(ht, _). length hde32_table - ht)") auto

declare only_mem_scan.simps [simp del]

text \<open>Whether the operands are wrong, and \<open>m_mod\<close> as the check leaves it.\<close>

definition hde32_operand :: "byte \<Rightarrow> byte \<Rightarrow> byte \<Rightarrow> byte \<Rightarrow> hde32s \<Rightarrow> (bool \<times> byte) option" where
  "hde32_operand opc pref m_mod m_reg hs =
     (if opcode2 hs \<noteq> 0 \<and> opc \<in> {0x20, 0x22} then Some (m_reg > 4 \<or> m_reg = 1, 3)
      else if opcode2 hs \<noteq> 0 \<and> opc \<in> {0x21, 0x23} then Some (m_reg = 4 \<or> m_reg = 5, 3)
      else if opcode2 hs = 0 \<and> opc = 0x8c then Some (m_reg > 5, m_mod)
      else if opcode2 hs = 0 \<and> opc = 0x8e then Some (m_reg = 1 \<or> m_reg > 5, m_mod)
      else if m_mod = 3
      then map_option (\<lambda>e. (e, m_mod))
             (if opcode2 hs \<noteq> 0 then only_mem_scan DELTA_OP2_ONLY_MEM (length hde32_table) opc pref m_reg
              else only_mem_scan DELTA_OP_ONLY_MEM DELTA_OP2_ONLY_MEM opc pref m_reg)
      else if opcode2 hs \<noteq> 0
      then Some (if opc \<in> {0x50, 0xd7, 0xf7} then has pref (PRE_NONE OR PRE_66)
                 else if opc = 0xd6 then has pref (PRE_F2 OR PRE_F3)
                 else opc = 0xc5, m_mod)
      else Some (False, m_mod))"

definition disp_bytes :: "byte \<Rightarrow> byte \<Rightarrow> byte \<Rightarrow> nat" where
  "disp_bytes pref m_mod m_rm =
     (if m_mod = 0 then (if has pref PRE_67 then (if m_rm = 6 then 2 else 0) else if m_rm = 5 then 4 else 0)
      else if m_mod = 1 then 1
      else if m_mod = 2 then (if has pref PRE_67 then 2 else 4)
      else 0)"

text \<open>The SIB byte and the displacement; \<open>p\<close> is the offset after the ModR/M byte.\<close>

definition hde32_disp :: "memory \<Rightarrow> addr \<Rightarrow> nat \<Rightarrow> byte \<Rightarrow> byte \<Rightarrow> byte \<Rightarrow> hde32s \<Rightarrow> nat \<times> hde32s" where
  "hde32_disp m code p pref m_mod m_rm hs0 =
     (let c = fetch8 m code p;
          with_sib = (m_mod \<noteq> 3 \<and> m_rm = 4 \<and> \<not> has pref PRE_67);
          hs = (if with_sib
                then (raise_flags F_SIB hs0)\<lparr>sib := c, sib_scale := drop_bit 6 c, sib_index := drop_bit 3 (c AND 0x3f), sib_base := c AND 7\<rparr>
                else hs0);
          disp_size = (if with_sib \<and> c AND 7 = 5 \<and> m_mod AND 1 = 0 then 4 else disp_bytes pref m_mod m_rm);
          q = (if with_sib then p + 1 else p)
      in (q + disp_size,
          if disp_size = 1 then (raise_flags F_DISP8 hs)\<lparr>hs_disp := union8 (fetch8 m code q) (hs_disp hs)\<rparr>
          else if disp_size = 2 then (raise_flags F_DISP16 hs)\<lparr>hs_disp := union16 (fetch16 m code q) (hs_disp hs)\<rparr>
          else if disp_size = 4 then (raise_flags F_DISP32 hs)\<lparr>hs_disp := fetch32 m code q\<rparr>
          else hs))"

definition hde32_modrm :: "memory \<Rightarrow> addr \<Rightarrow> nat \<Rightarrow> byte \<Rightarrow> byte \<Rightarrow> byte \<Rightarrow> byte \<Rightarrow> hde32s \<Rightarrow> (byte \<times> nat \<times> hde32s) option" where
  "hde32_modrm m code p opc pref cflags x hs0 =
     (let c = fetch8 m code p; m_mod = drop_bit 6 c; m_rm = c AND 7; m_reg = drop_bit 3 (c AND 0x3f);
          hs1 = (raise_flags F_MODRM hs0)\<lparr>modrm := c, modrm_mod := m_mod, modrm_rm := m_rm, modrm_reg := m_reg\<rparr>;
          hs2 = (if x \<noteq> 0 \<and> masked x m_reg then raise_flags (F_ERROR OR F_ERROR_OPCODE) hs1 else hs1)
      in Option.bind (hde32_fpu opc m_mod m_reg m_rm hs2) (\<lambda>hs3.
         Option.bind (hde32_lock opc pref m_mod m_reg hs3) (\<lambda>hs4.
         Option.bind (hde32_operand opc pref m_mod m_reg hs4) (\<lambda>(wrong, m_mod').
           let hs5 = (if wrong then raise_flags (F_ERROR OR F_ERROR_OPERAND) hs4 else hs4);
               cflags' = (if m_reg \<le> 1 then if opc = 0xf6 then cflags OR C_IMM8
                                             else if opc = 0xf7 then cflags OR C_IMM_P66 else cflags
                          else cflags);
               (q, hs6) = hde32_disp m code (p + 1) pref m_mod' m_rm hs5
           in Some (cflags', q, hs6)))))"

section \<open>Immediate operands and the length\<close>

definition imm_rel32 :: "memory \<Rightarrow> addr \<Rightarrow> nat \<Rightarrow> hde32s \<Rightarrow> nat \<times> hde32s" where
  "imm_rel32 m code p hs = (p + 4, (raise_flags (F_IMM32 OR F_RELATIVE) hs)\<lparr>hs_imm := fetch32 m code p\<rparr>)"

definition imm_p66 :: "memory \<Rightarrow> addr \<Rightarrow> byte \<Rightarrow> byte \<Rightarrow> nat \<times> hde32s \<Rightarrow> nat \<times> hde32s" where
  "imm_p66 m code pref cflags = (\<lambda>(p, hs).
     if has cflags C_IMM_P66
     then if has pref PRE_66 then (p + 2, (raise_flags F_IMM16 hs)\<lparr>hs_imm := union16 (fetch16 m code p) (hs_imm hs)\<rparr>)
          else (p + 4, (raise_flags F_IMM32 hs)\<lparr>hs_imm := fetch32 m code p\<rparr>)
     else (p, hs))"

definition imm_16 :: "memory \<Rightarrow> addr \<Rightarrow> byte \<Rightarrow> nat \<times> hde32s \<Rightarrow> nat \<times> hde32s" where
  "imm_16 m code cflags = (\<lambda>(p, hs).
     if has cflags C_IMM16
     then (p + 2,
           if has (hs_flags hs) F_IMM32 then (raise_flags F_IMM16 hs)\<lparr>hs_disp := union16 (fetch16 m code p) (hs_disp hs)\<rparr>
           else if has (hs_flags hs) F_IMM16 then (raise_flags F_2IMM16 hs)\<lparr>hs_disp := union16 (fetch16 m code p) (hs_disp hs)\<rparr>
           else (raise_flags F_IMM16 hs)\<lparr>hs_imm := union16 (fetch16 m code p) (hs_imm hs)\<rparr>)
     else (p, hs))"

definition imm_8 :: "memory \<Rightarrow> addr \<Rightarrow> byte \<Rightarrow> nat \<times> hde32s \<Rightarrow> nat \<times> hde32s" where
  "imm_8 m code cflags = (\<lambda>(p, hs).
     if has cflags C_IMM8 then (p + 1, (raise_flags F_IMM8 hs)\<lparr>hs_imm := union8 (fetch8 m code p) (hs_imm hs)\<rparr>)
     else (p, hs))"

definition imm_rel :: "memory \<Rightarrow> addr \<Rightarrow> byte \<Rightarrow> nat \<times> hde32s \<Rightarrow> nat \<times> hde32s" where
  "imm_rel m code cflags = (\<lambda>(p, hs).
     if has cflags C_REL32 then imm_rel32 m code p hs
     else if has cflags C_REL8
     then (p + 1, (raise_flags (F_IMM8 OR F_RELATIVE) hs)\<lparr>hs_imm := union8 (fetch8 m code p) (hs_imm hs)\<rparr>)
     else (p, hs))"

definition hde32_imm :: "memory \<Rightarrow> addr \<Rightarrow> byte \<Rightarrow> byte \<Rightarrow> nat \<times> hde32s \<Rightarrow> nat \<times> hde32s" where
  "hde32_imm m code pref cflags ph =
     (if has cflags C_IMM_P66 \<and> has cflags C_REL32
      then if has pref PRE_66
           then (fst ph + 2, (raise_flags (F_IMM16 OR F_RELATIVE) (snd ph))\<lparr>hs_imm := union16 (fetch16 m code (fst ph)) (hs_imm (snd ph))\<rparr>)
           else imm_rel32 m code (fst ph) (snd ph)
      else imm_rel m code cflags (imm_8 m code cflags (imm_16 m code cflags (imm_p66 m code pref cflags ph))))"

definition hde32_finish :: "nat \<times> hde32s \<Rightarrow> hde32s" where
  "hde32_finish = (\<lambda>(p, hs).
     let n = (word_of_nat p :: byte)
     in if n > 15 then (raise_flags (F_ERROR OR F_ERROR_LENGTH) hs)\<lparr>hs_len := 15\<rparr> else hs\<lparr>hs_len := n\<rparr>)"

definition hde32_disasm :: "memory \<Rightarrow> addr \<Rightarrow> hde32s option" where
  "hde32_disasm m code =
     (let (c, p1, pref1, hs1) = hde32_prefixes 16 m code 0 0 0 hde32s_zero;
          (ht, opc, p2, pref, hs2) = hde32_opcode m code p1 c pref1 hs1
      in Option.bind (hde32_cflags ht opc pref hs2) (\<lambda>(cflags, x, hs3).
         Option.bind (if has cflags C_MODRM then hde32_modrm m code p2 opc pref cflags x hs3
                      else Some (cflags, p2, if has pref PRE_LOCK then raise_flags (F_ERROR OR F_ERROR_LOCK) hs3 else hs3))
           (\<lambda>(cflags', p3, hs4). Some (hde32_finish (hde32_imm m code pref cflags' (p3, hs4))))))"

section \<open>Every lookup is in the table\<close>

lemma length_hde32_table [simp]: "length hde32_table = 516"
  by (simp add: hde32_table_def)

lemma tab_defined: "i < 516 \<Longrightarrow> \<exists>b. tab i = Some b"
  by (simp add: tab_def)

lemma prefix_index: "list_all (\<lambda>b. b \<le> 0x6d) (take 64 (drop DELTA_PREFIXES hde32_table))"
  by (simp add: hde32_table_def DELTA_PREFIXES_def)

lemma byte_less: "unat (b :: byte) < 256"
  using unsigned_less [of b] by simp

lemma lookup_defined:
  assumes "ht \<in> {0, DELTA_OPCODES, DELTA_PREFIXES}"
  shows "\<exists>b. lookup ht opc = Some b"
proof -
  have q: "unat opc div 4 < 64" using byte_less [of opc] by simp
  obtain t where t: "tab (ht + unat opc div 4) = Some t" using tab_defined [of "ht + unat opc div 4"] q assms by (auto simp: delta_defs)
  have "ht + unat t + unat opc mod 4 < 516"
  proof (cases "ht = DELTA_PREFIXES")
    case True
    have "take 64 (drop DELTA_PREFIXES hde32_table) ! (unat opc div 4) = t"
      using t q True by (simp add: tab_def split: if_splits)
    moreover have "length (take 64 (drop DELTA_PREFIXES hde32_table)) = 64" by (simp add: delta_defs)
    ultimately have "t \<le> 0x6d" using prefix_index q by (metis list_all_length)
    then have "unat t \<le> 0x6d" by (simp add: word_le_nat_alt)
    moreover have "unat opc mod 4 < 4" by simp
    ultimately show ?thesis using True by (simp add: delta_defs)
  next
    case False
    moreover have "unat opc mod 4 < 4" by simp
    ultimately show ?thesis using assms byte_less [of t] by (auto simp: delta_defs)
  qed
  then show ?thesis using t tab_defined by (simp add: lookup_def)
qed

lemma lock_scan_defined: "ht + 2 * k = e \<Longrightarrow> e \<le> 516 \<Longrightarrow> \<exists>b. lock_scan ht e op r = Some b"
proof (induction k arbitrary: ht)
  case (Suc k)
  then have "\<exists>b. lock_scan (ht + 2) e op r = Some b" "\<exists>b. tab (Suc ht) = Some b" using tab_defined [of "Suc ht"] by simp_all
  then show ?case using Suc.prems by (subst lock_scan.simps) auto
qed (auto simp: lock_scan.simps)

lemma only_mem_scan_defined: "ht + 3 * k = e \<Longrightarrow> e \<le> 516 \<Longrightarrow> \<exists>b. only_mem_scan ht e op pref r = Some b"
proof (induction k arbitrary: ht)
  case (Suc k)
  then have "\<exists>b. only_mem_scan (ht + 3) e op pref r = Some b" by simp
  moreover have "\<exists>b. tab (Suc ht) = Some b" "\<exists>b. tab (Suc (Suc ht)) = Some b"
    using Suc.prems tab_defined [of "Suc ht"] tab_defined [of "Suc (Suc ht)"] by simp_all
  ultimately show ?case using Suc.prems by (subst only_mem_scan.simps) auto
qed (auto simp: only_mem_scan.simps)

lemma hde32_cflags_defined:
  assumes "ht \<in> {0, DELTA_OPCODES}"
  shows "\<exists>r. hde32_cflags ht opc pref hs = Some r"
proof -
  obtain cf0 bad where look: "lookup ht opc = Some cf0" "lookup DELTA_PREFIXES opc = Some bad"
    using lookup_defined [of ht opc] lookup_defined [of DELTA_PREFIXES opc] assms by auto
  obtain cf hs' where cf: "(if cf0 = C_ERROR then (if opc AND NOT 2 = 0x24 then 1 else 0, raise_flags (F_ERROR OR F_ERROR_OPCODE) hs)
      else (cf0, hs)) = (cf, hs')" by fastforce
  have "ht + unat (cf AND 0x7f) + 1 < 516"
    using assms byte_less [of "cf AND 0x7f"] by (auto simp: delta_defs)
  then have "\<exists>b. tab (ht + unat (cf AND 0x7f)) = Some b" "\<exists>b. tab (ht + unat (cf AND 0x7f) + 1) = Some b"
    by (simp_all add: tab_def)
  then obtain lo hi where "tab (ht + unat (cf AND 0x7f)) = Some lo" "tab (ht + unat (cf AND 0x7f) + 1) = Some hi" by blast
  then show ?thesis
    unfolding hde32_cflags_def look Option.bind.bind_lunit Let_def cf prod.case by auto
qed

lemma hde32_fpu_defined: "m_reg < 8 \<Longrightarrow> \<exists>r. hde32_fpu opc m_mod m_reg m_rm hs = Some r"
proof -
  assume r: "m_reg < 8"
  then have r: "unat m_reg < 8" by (simp add: word_less_nat_alt)
  { assume "0xd9 \<le> opc" "opc \<le> 0xdf"
    then have "unat (opc - 0xd9) \<le> 6" by (simp add: word_le_nat_alt unat_sub)
    with r have "DELTA_FPU_MODRM + unat (opc - 0xd9) * 8 + unat m_reg < 516" "DELTA_FPU_REG + unat (opc - 0xd9) < 516"
      by (simp_all add: delta_defs)
    then have "\<exists>b. tab (DELTA_FPU_MODRM + unat (opc - 0xd9) * 8 + unat m_reg) = Some b" "\<exists>b. tab (DELTA_FPU_REG + unat (opc - 0xd9)) = Some b"
      by (blast intro: tab_defined)+ }
  then show ?thesis by (auto simp: hde32_fpu_def Let_def)
qed

lemma hde32_lock_defined: "\<exists>r. hde32_lock opc pref m_mod m_reg hs = Some r"
  using lock_scan_defined [of DELTA_OP2_LOCK_OK 9 DELTA_OP_ONLY_MEM opc m_reg] lock_scan_defined [of DELTA_OP_LOCK_OK 12 DELTA_OP2_LOCK_OK "opc AND NOT 1" m_reg]
  by (auto simp: hde32_lock_def delta_defs)

lemma hde32_operand_defined: "\<exists>w m_mod'. hde32_operand opc pref m_mod m_reg hs = Some (w, m_mod')"
  using only_mem_scan_defined [of DELTA_OP2_ONLY_MEM 14 516 opc pref m_reg]
    only_mem_scan_defined [of DELTA_OP_ONLY_MEM 5 DELTA_OP2_ONLY_MEM opc pref m_reg]
  by (auto simp: hde32_operand_def delta_defs)

section \<open>How far it reads\<close>

lemma prefixes_offset: "hde32_prefixes x m code p c pref hs = (c', p', r) \<Longrightarrow> p \<le> p' \<and> p' \<le> p + x \<and> (x > 0 \<longrightarrow> p < p')"
proof (induction x arbitrary: p c pref hs)
  case (Suc x)
  from Suc.prems Suc.IH [of "Suc p"] show ?case by (fastforce simp: Let_def split: if_splits)
qed simp

lemma opcode_offset: "hde32_opcode m code p c pref hs = (ht, opc, p', r) \<Longrightarrow> p \<le> p' \<and> p' \<le> p + 1 \<and> ht \<in> {0, DELTA_OPCODES}"
  by (auto simp: hde32_opcode_def Let_def split: if_splits)

lemma disp_offset: "hde32_disp m code p pref m_mod m_rm hs = (p', hs') \<Longrightarrow> p \<le> p' \<and> p' \<le> p + 5"
  by (auto simp: hde32_disp_def disp_bytes_def Let_def split: if_splits)

lemma reg_field: "drop_bit 3 (c AND 0x3f) < (8 :: byte)"
proof -
  have "drop_bit 3 c AND 7 \<le> (7 :: byte)" by (rule word_and_le1)
  then have "drop_bit 3 c AND 7 < (8 :: byte)" by (rule order_le_less_trans) simp
  then show ?thesis by simp
qed

lemma hde32_modrm_defined:
  "\<exists>cf p' hs'. hde32_modrm m code p opc pref cflags x hs = Some (cf, p', hs') \<and> p < p' \<and> p' \<le> p + 6"
proof -
  define c where "c = fetch8 m code p"
  define r where "r = drop_bit 3 (c AND 0x3f)"
  define hs1 where "hs1 = (raise_flags F_MODRM hs)\<lparr>modrm := c, modrm_mod := drop_bit 6 c, modrm_rm := c AND 7, modrm_reg := r\<rparr>"
  define hs2 where "hs2 = (if x \<noteq> 0 \<and> masked x r then raise_flags (F_ERROR OR F_ERROR_OPCODE) hs1 else hs1)"
  obtain hs3 where 3: "hde32_fpu opc (drop_bit 6 c) r (c AND 7) hs2 = Some hs3"
    using hde32_fpu_defined [OF reg_field] unfolding r_def by blast
  obtain hs4 where 4: "hde32_lock opc pref (drop_bit 6 c) r hs3 = Some hs4"
    using hde32_lock_defined by blast
  obtain w mm where 5: "hde32_operand opc pref (drop_bit 6 c) r hs4 = Some (w, mm)"
    using hde32_operand_defined by blast
  obtain q hs6 where 6: "hde32_disp m code (p + 1) pref mm (c AND 7) (if w then raise_flags (F_ERROR OR F_ERROR_OPERAND) hs4 else hs4) = (q, hs6)"
    by fastforce
  have "p + 1 \<le> q" "q \<le> p + 6" using disp_offset [OF 6] by simp_all
  then show ?thesis
    unfolding hde32_modrm_def Let_def c_def [symmetric] r_def [symmetric] hs1_def [symmetric] hs2_def [symmetric]
      3 Option.bind.bind_lunit 4 5 prod.case 6 by simp
qed

lemma imm_offset: "hde32_imm m code pref cflags (p, hs) = (p', hs') \<Longrightarrow> p \<le> p' \<and> p' \<le> p + 11"
  by (auto simp: hde32_imm_def imm_rel_def imm_8_def imm_16_def imm_p66_def imm_rel32_def split: if_splits)

lemma finish_len:
  assumes "0 < p" "p < 256"
  shows "1 \<le> unat (hs_len (hde32_finish (p, hs)))" "unat (hs_len (hde32_finish (p, hs))) \<le> 15"
proof -
  have "unat (word_of_nat p :: byte) = p" using assms by (simp add: unat_of_nat take_bit_eq_mod)
  then show "1 \<le> unat (hs_len (hde32_finish (p, hs)))" "unat (hs_len (hde32_finish (p, hs))) \<le> 15"
    using assms by (auto simp: hde32_finish_def Let_def raise_flags_def word_less_nat_alt)
qed

lemma hde32_disasm_defined: "\<exists>hs. hde32_disasm m code = Some hs \<and> 1 \<le> unat (hs_len hs) \<and> unat (hs_len hs) \<le> 15"
proof -
  obtain c p1 pref1 hs1 where 1: "hde32_prefixes 16 m code 0 0 0 hde32s_zero = (c, p1, pref1, hs1)" by (metis prod_cases4)
  obtain ht opc p2 pref hs2 where 2: "hde32_opcode m code p1 c pref1 hs1 = (ht, opc, p2, pref, hs2)" by (metis prod_cases5)
  have o: "0 < p2" "p2 \<le> 17" "ht \<in> {0, DELTA_OPCODES}" using prefixes_offset [OF 1] opcode_offset [OF 2] by auto
  obtain cflags x hs3 where 3: "hde32_cflags ht opc pref hs2 = Some (cflags, x, hs3)" using hde32_cflags_defined [OF o(3)] by (metis prod_cases3)
  obtain cf p3 hs4 where 4: "(if has cflags C_MODRM then hde32_modrm m code p2 opc pref cflags x hs3
      else Some (cflags, p2, if has pref PRE_LOCK then raise_flags (F_ERROR OR F_ERROR_LOCK) hs3 else hs3)) = Some (cf, p3, hs4)"
      "0 < p3" "p3 \<le> 23"
    using hde32_modrm_defined [of m code p2 opc pref cflags x hs3] o(1,2) by (cases "has cflags C_MODRM") auto
  obtain p4 hs5 where 5: "hde32_imm m code pref cf (p3, hs4) = (p4, hs5)" by fastforce
  have "0 < p4" "p4 < 256" using imm_offset [OF 5] 4(2,3) by simp_all
  moreover have "hde32_disasm m code = Some (hde32_finish (p4, hs5))"
    unfolding hde32_disasm_def 1 prod.case Let_def 2 3 Option.bind.bind_lunit 4(1) 5 ..
  ultimately show ?thesis using finish_len [of p4 hs5] by blast
qed

end
