(* ===== verification/HookBuffer.thy ===== *)
theory HookBuffer
  imports Hde32
begin

text \<open>
  The memory for trampolines, \<^verbatim>\<open>src/minhook/src/buffer.c\<close> in its 32-bit build: blocks of one page, each cut into slots of
  32 bytes, and the list of the free slots of each block. A block is the record of its head; the lists that the source
  links through \<open>pNext\<close> are lists here. The links of the free slots live in the slots themselves, which no one
  else writes (\<open>slots_disjoint\<close>, and the bounds of what a trampoline writes in theory \<open>HookTrampoline\<close>).

  What \<^verbatim>\<open>VirtualAlloc\<close> returns is an argument: \<open>None\<close> is a failed call.
\<close>

section \<open>Blocks and slots\<close>

definition MEMORY_BLOCK_SIZE :: nat where "MEMORY_BLOCK_SIZE = 0x1000"
definition MEMORY_SLOT_SIZE :: nat where "MEMORY_SLOT_SIZE = 32"

record MEMORY_BLOCK =
  block_addr :: addr
  pFree :: "addr list"
  usedCount :: dword

text \<open>The loop that builds the list of the slots: the last slot of the block comes first.\<close>

function build_slots :: "nat \<Rightarrow> addr \<Rightarrow> addr list \<Rightarrow> addr list" where
  "build_slots off b free =
     (let free' = (b + word_of_nat off) # free; off' = off + MEMORY_SLOT_SIZE
      in if off' \<le> MEMORY_BLOCK_SIZE - MEMORY_SLOT_SIZE then build_slots off' b free' else free')"
  by pat_completeness auto
termination by (relation "measure (\<lambda>(off, _). MEMORY_BLOCK_SIZE - off)") (auto simp: MEMORY_BLOCK_SIZE_def MEMORY_SLOT_SIZE_def)

declare build_slots.simps [simp del]

text \<open>The first block with a free slot, or a new one at the head of the list; the blocks and the position of the block.\<close>

fun find_free :: "MEMORY_BLOCK list \<Rightarrow> nat option" where
  "find_free [] = None"
| "find_free (b # bs) = (if pFree b \<noteq> [] then Some 0 else map_option Suc (find_free bs))"

definition GetMemoryBlock :: "addr option \<Rightarrow> MEMORY_BLOCK list \<Rightarrow> (nat \<times> MEMORY_BLOCK list) option" where
  "GetMemoryBlock valloc bs =
     (case find_free bs of
        Some i \<Rightarrow> Some (i, bs)
      | None \<Rightarrow>
          (case valloc of
             None \<Rightarrow> None
           | Some a \<Rightarrow> Some (0, \<lparr>block_addr = a, pFree = build_slots MEMORY_SLOT_SIZE a [], usedCount = 0\<rparr> # bs)))"

definition AllocateBuffer :: "addr option \<Rightarrow> MEMORY_BLOCK list \<Rightarrow> (addr \<times> MEMORY_BLOCK list) option" where
  "AllocateBuffer valloc bs0 =
     (case GetMemoryBlock valloc bs0 of
        None \<Rightarrow> None
      | Some (i, bs) \<Rightarrow>
          let b = bs ! i in Some (hd (pFree b), bs[i := b\<lparr>pFree := tl (pFree b), usedCount := usedCount b + 1\<rparr>]))"

definition page_of :: "addr \<Rightarrow> addr" where
  "page_of a = word_of_nat (unat a div MEMORY_BLOCK_SIZE * MEMORY_BLOCK_SIZE)"

fun FreeBuffer :: "addr \<Rightarrow> MEMORY_BLOCK list \<Rightarrow> MEMORY_BLOCK list" where
  "FreeBuffer buf [] = []"
| "FreeBuffer buf (b # bs) =
     (if block_addr b = page_of buf
      then let b' = b\<lparr>pFree := buf # pFree b, usedCount := usedCount b - 1\<rparr>
           in if usedCount b' = 0 then bs else b' # bs
      else b # FreeBuffer buf bs)"

definition UninitializeBuffer :: "MEMORY_BLOCK list \<Rightarrow> MEMORY_BLOCK list" where
  "UninitializeBuffer bs = []"

section \<open>The slots of a block\<close>

definition slot :: "addr \<Rightarrow> nat \<Rightarrow> addr" where
  "slot a i = a + word_of_nat (MEMORY_SLOT_SIZE * Suc i)"

definition slots :: "addr \<Rightarrow> addr list" where
  "slots a = map (slot a) [0..<127]"

lemma build_slots_rev: "k \<le> 126 \<Longrightarrow> build_slots (32 * Suc k) a free = rev (map (slot a) [k..<127]) @ free"
proof (induction "126 - k" arbitrary: k free)
  case 0
  then have "k = 126" by simp
  then show ?case by (subst build_slots.simps) (simp add: MEMORY_BLOCK_SIZE_def MEMORY_SLOT_SIZE_def slot_def)
next
  case (Suc n)
  then have "n = 126 - Suc k" "k < 126" by simp_all
  with Suc.hyps(1) [of "Suc k"] show ?case
    by (subst build_slots.simps) (simp add: MEMORY_BLOCK_SIZE_def MEMORY_SLOT_SIZE_def slot_def upt_conv_Cons)
qed

lemma build_slots_all: "build_slots MEMORY_SLOT_SIZE a [] = rev (slots a)"
  using build_slots_rev [of 0 a "[]"] by (simp add: slots_def MEMORY_SLOT_SIZE_def)

lemma length_slots [simp]: "length (slots a) = 127"
  by (simp add: slots_def)

definition page_aligned :: "addr \<Rightarrow> bool" where
  "page_aligned a \<longleftrightarrow> unat a mod MEMORY_BLOCK_SIZE = 0"

lemma unat_in_page:
  assumes "page_aligned a" "n < MEMORY_BLOCK_SIZE"
  shows "unat (a + word_of_nat n) = unat a + n"
proof -
  have "unat a < 2 ^ 32" using unsigned_less [of a] by simp
  moreover obtain k where "unat a = 4096 * k" using assms(1) by (auto simp: page_aligned_def MEMORY_BLOCK_SIZE_def)
  ultimately have "unat a + n < 2 ^ 32" using assms(2) by (simp add: MEMORY_BLOCK_SIZE_def)
  then show ?thesis
    using assms(2) by (simp add: unat_word_ariths unat_of_nat MEMORY_BLOCK_SIZE_def take_bit_eq_mod)
qed

lemma page_of_in_page: "page_aligned a \<Longrightarrow> n < MEMORY_BLOCK_SIZE \<Longrightarrow> page_of (a + word_of_nat n) = a"
proof -
  assume a: "page_aligned a" "n < MEMORY_BLOCK_SIZE"
  then obtain k where "unat a = 4096 * k" by (auto simp: page_aligned_def MEMORY_BLOCK_SIZE_def)
  moreover have "(word_of_nat (unat a) :: addr) = a" by simp
  ultimately show ?thesis using a by (simp add: page_of_def unat_in_page MEMORY_BLOCK_SIZE_def mult.commute)
qed

lemma unat_slot: "page_aligned a \<Longrightarrow> i < 127 \<Longrightarrow> k < 32 \<Longrightarrow> unat (slot a i + word_of_nat k) = unat a + 32 * Suc i + k"
  using unat_in_page [of a "32 * Suc i + k"] by (simp add: slot_def MEMORY_SLOT_SIZE_def MEMORY_BLOCK_SIZE_def algebra_simps)

lemma unat_slot0: "page_aligned a \<Longrightarrow> i < 127 \<Longrightarrow> unat (slot a i) = unat a + 32 * Suc i"
  using unat_slot [of a i 0] by simp

lemma slots_page: "page_aligned a \<Longrightarrow> s \<in> set (slots a) \<Longrightarrow> page_of s = a"
  by (auto simp: slots_def slot_def simp del: mult_Suc_right of_nat_Suc of_nat_mult intro!: page_of_in_page)
    (simp add: MEMORY_SLOT_SIZE_def MEMORY_BLOCK_SIZE_def)

lemma distinct_slots: "page_aligned a \<Longrightarrow> distinct (slots a)"
  by (auto simp: slots_def distinct_map inj_on_def dest!: arg_cong [where f = unat] simp: unat_slot0)

section \<open>Who owns which slot\<close>

text \<open>The bytes of a slot.\<close>

definition room :: "addr \<Rightarrow> addr set" where
  "room s = (\<lambda>i. s + word_of_nat i) ` {..<MEMORY_SLOT_SIZE}"

text \<open>
  What the hooking library relies on: a set of live slots, which an allocation extends by a slot that was not live and
  a release shrinks by the slot released, and whose bytes never overlap. \<open>fits\<close> is what the operating system promises of a
  new block.
\<close>

locale slot_pool =
  fixes ok :: "'s \<Rightarrow> bool"
    and live :: "'s \<Rightarrow> addr set"
    and fits :: "addr \<Rightarrow> 's \<Rightarrow> bool"
    and alloc :: "addr option \<Rightarrow> 's \<Rightarrow> (addr \<times> 's) option"
    and release :: "addr \<Rightarrow> 's \<Rightarrow> 's"
  assumes alloc_ok: "ok p \<Longrightarrow> (\<And>a. v = Some a \<Longrightarrow> fits a p) \<Longrightarrow> alloc v p = Some (s, p') \<Longrightarrow> ok p' \<and> s \<notin> live p \<and> live p' = insert s (live p)"
    and release_ok: "ok p \<Longrightarrow> s \<in> live p \<Longrightarrow> ok (release s p) \<and> live (release s p) = live p - {s}"
    and apart: "ok p \<Longrightarrow> s \<in> live p \<Longrightarrow> t \<in> live p \<Longrightarrow> s \<noteq> t \<Longrightarrow> room s \<inter> room t = {}"
begin

lemma alloc_apart:
  assumes "ok p" "\<And>a. v = Some a \<Longrightarrow> fits a p" "alloc v p = Some (s, p')" "t \<in> live p"
  shows "room s \<inter> room t = {}"
  using alloc_ok [OF assms(1-3)] apart [of p' s t] assms(4) by auto

lemma alloc_release:
  assumes "ok p" "\<And>a. v = Some a \<Longrightarrow> fits a p" "alloc v p = Some (s, p')"
  shows "ok (release s p')" "live (release s p') = live p"
  using alloc_ok [OF assms] release_ok [of p' s] by auto

end

definition block_ok :: "MEMORY_BLOCK \<Rightarrow> bool" where
  "block_ok b \<longleftrightarrow> page_aligned (block_addr b) \<and> distinct (pFree b) \<and> set (pFree b) \<subseteq> set (slots (block_addr b))
     \<and> length (pFree b) < 127 \<and> usedCount b = word_of_nat (127 - length (pFree b))"

definition blocks_ok :: "MEMORY_BLOCK list \<Rightarrow> bool" where
  "blocks_ok bs \<longleftrightarrow> distinct (map block_addr bs) \<and> (\<forall>b \<in> set bs. block_ok b)"

definition block_live :: "MEMORY_BLOCK \<Rightarrow> addr set" where
  "block_live b = set (slots (block_addr b)) - set (pFree b)"

definition live_slots :: "MEMORY_BLOCK list \<Rightarrow> addr set" where
  "live_slots bs = \<Union> (block_live ` set bs)"

text \<open>What \<^verbatim>\<open>VirtualAlloc\<close> promises: a page that is not one of the blocks.\<close>

definition fresh_page :: "addr \<Rightarrow> MEMORY_BLOCK list \<Rightarrow> bool" where
  "fresh_page a bs \<longleftrightarrow> page_aligned a \<and> a \<notin> block_addr ` set bs"

lemma find_free_Some: "find_free bs = Some i \<Longrightarrow> i < length bs \<and> pFree (bs ! i) \<noteq> []"
  by (induction bs arbitrary: i) (auto split: if_splits)

lemma used_nonzero: "n < 127 \<Longrightarrow> (word_of_nat (127 - n) :: dword) \<noteq> 0"
proof
  assume n: "n < 127" "(word_of_nat (127 - n) :: dword) = 0"
  have "unat (word_of_nat (127 - n) :: dword) = 127 - n" using n(1) by (simp only: unat_of_nat take_bit_eq_mod) simp
  then show False using n by simp
qed

text \<open>Taking the first free slot of a block.\<close>

definition take_slot :: "MEMORY_BLOCK \<Rightarrow> MEMORY_BLOCK" where
  "take_slot b = b\<lparr>pFree := tl (pFree b), usedCount := usedCount b + 1\<rparr>"

lemma take_slot:
  assumes "page_aligned (block_addr b)" "distinct (pFree b)" "set (pFree b) \<subseteq> set (slots (block_addr b))" "pFree b \<noteq> []"
    "length (pFree b) \<le> 127" "usedCount b = word_of_nat (127 - length (pFree b))"
  shows "block_ok (take_slot b)" "hd (pFree b) \<notin> block_live b" "block_live (take_slot b) = insert (hd (pFree b)) (block_live b)"
    "block_addr (take_slot b) = block_addr b"
proof -
  obtain s fs where f: "pFree b = s # fs" using assms(4) by (cases "pFree b") auto
  with assms(5) have "127 - length fs = Suc (127 - length (pFree b))" by simp
  with assms f show "block_ok (take_slot b)" "hd (pFree b) \<notin> block_live b" "block_live (take_slot b) = insert (hd (pFree b)) (block_live b)"
    by (auto simp: take_slot_def block_ok_def block_live_def)
  show "block_addr (take_slot b) = block_addr b" by (simp add: take_slot_def)
qed

lemma live_page: "blocks_ok bs \<Longrightarrow> c \<in> set bs \<Longrightarrow> s \<in> block_live c \<Longrightarrow> page_of s = block_addr c"
  using slots_page by (auto simp: blocks_ok_def block_ok_def block_live_def)

lemma live_apart_blocks:
  assumes "blocks_ok bs" "s \<in> block_live b" "b \<in> set bs" "s \<in> block_live c" "c \<in> set bs"
  shows "b = c"
proof -
  have "page_of s = block_addr b" "page_of s = block_addr c" using live_page assms by blast+
  then show ?thesis using assms(1,3,5) by (auto simp: blocks_ok_def distinct_map inj_on_def)
qed

lemma live_slots_split: "live_slots (xs @ b # ys) = block_live b \<union> \<Union> (block_live ` (set xs \<union> set ys))"
  by (auto simp: live_slots_def)

lemma live_slots_update:
  assumes "i < length bs"
  shows "live_slots (bs[i := b]) = block_live b \<union> \<Union> (block_live ` (set (take i bs) \<union> set (drop (Suc i) bs)))"
    "live_slots bs = block_live (bs ! i) \<union> \<Union> (block_live ` (set (take i bs) \<union> set (drop (Suc i) bs)))"
  unfolding upd_conv_take_nth_drop [OF assms] live_slots_split
  by (simp, metis id_take_nth_drop [OF assms] live_slots_split)

text \<open>A slot of a block that has one, and the first slot of a new block.\<close>

lemma allocate_old:
  assumes "blocks_ok bs" "find_free bs = Some i" "AllocateBuffer v bs = Some (s, bs')"
  shows "blocks_ok bs' \<and> s \<notin> live_slots bs \<and> live_slots bs' = insert s (live_slots bs)"
proof -
  let ?b = "bs ! i"
  have i: "i < length bs" "pFree ?b \<noteq> []" using find_free_Some [OF assms(2)] by simp_all
  then have b: "?b \<in> set bs" "block_ok ?b" using assms(1) by (auto simp: blocks_ok_def)
  have out: "s = hd (pFree ?b)" "bs' = bs[i := take_slot ?b]"
    using assms(3,2) by (auto simp: AllocateBuffer_def GetMemoryBlock_def Let_def take_slot_def)
  note t = take_slot [of ?b, OF _ _ _ i(2)]
  have "map block_addr bs' = map block_addr bs"
    using i(1) by (simp add: out map_update take_slot_def list_update_same_conv)
  then have "blocks_ok bs'"
    using assms(1) t(1) b(2) set_update_subset_insert [of bs i "take_slot ?b"] by (auto simp: blocks_ok_def out block_ok_def)
  moreover have s: "s \<in> set (slots (block_addr ?b))" "s \<notin> block_live ?b" using b(2) i(2) out(1) t(2) by (auto simp: block_ok_def)
  have "s \<notin> live_slots bs"
  proof
    assume "s \<in> live_slots bs"
    then obtain c where c: "c \<in> set bs" "s \<in> block_live c" by (auto simp: live_slots_def)
    then have "block_addr c = block_addr ?b"
      using live_page [OF assms(1)] slots_page [OF _ s(1)] b(2) by (simp add: block_ok_def)
    then have "c = ?b" using assms(1) b(1) c(1) by (auto simp: blocks_ok_def distinct_map inj_on_def)
    then show False using c(2) s(2) by simp
  qed
  moreover have "live_slots bs' = insert s (live_slots bs)"
    using t(3) b(2) live_slots_update [OF i(1)] by (auto simp: out block_ok_def)
  ultimately show ?thesis by simp
qed

lemma allocate_new:
  assumes "blocks_ok bs" "find_free bs = None" "fresh_page a bs" "AllocateBuffer (Some a) bs = Some (s, bs')"
  shows "blocks_ok bs' \<and> s \<notin> live_slots bs \<and> live_slots bs' = insert s (live_slots bs)"
proof -
  let ?b = "\<lparr>block_addr = a, pFree = rev (slots a), usedCount = 0\<rparr>"
  have f: "page_aligned a" "a \<notin> block_addr ` set bs" using assms(3) by (simp_all add: fresh_page_def)
  have out: "s = hd (pFree ?b)" "bs' = take_slot ?b # bs"
    using assms(4,2) by (auto simp: AllocateBuffer_def GetMemoryBlock_def Let_def take_slot_def build_slots_all)
  have ne: "pFree ?b \<noteq> []" using length_slots [of a] by (auto simp del: length_slots)
  have t: "block_ok (take_slot ?b)" "hd (pFree ?b) \<notin> block_live ?b" "block_live (take_slot ?b) = insert (hd (pFree ?b)) (block_live ?b)"
    using take_slot [of ?b] f(1) distinct_slots ne by simp_all
  have "s \<in> set (slots a)" using ne hd_in_set [OF ne] out(1) by simp
  then have p: "page_of s = a" using slots_page f(1) by blast
  have "s \<notin> live_slots bs"
  proof
    assume "s \<in> live_slots bs"
    then obtain c where "c \<in> set bs" "s \<in> block_live c" by (auto simp: live_slots_def)
    then show False using live_page [OF assms(1)] p f(2) by auto
  qed
  moreover have "live_slots bs' = insert s (live_slots bs)"
    using t(3) out by (simp add: live_slots_def) (simp add: block_live_def)
  moreover have "blocks_ok bs'" using assms(1) t(1) f(2) by (simp add: blocks_ok_def out take_slot_def)
  ultimately show ?thesis by simp
qed

lemma AllocateBuffer_ok:
  assumes "blocks_ok bs" "\<And>a. v = Some a \<Longrightarrow> fresh_page a bs" "AllocateBuffer v bs = Some (s, bs')"
  shows "blocks_ok bs' \<and> s \<notin> live_slots bs \<and> live_slots bs' = insert s (live_slots bs)"
proof (cases "find_free bs")
  case (Some i)
  then show ?thesis using allocate_old assms(1,3) by blast
next
  case None
  then obtain a where "v = Some a" using assms(3) by (auto simp: AllocateBuffer_def GetMemoryBlock_def split: option.splits)
  then show ?thesis using allocate_new [OF assms(1) None, of a s bs'] assms(2,3) by simp
qed

text \<open>Giving a slot back to its block.\<close>

lemma give_slot:
  assumes "block_ok b" "s \<in> block_live b" "b' = b\<lparr>pFree := s # pFree b, usedCount := usedCount b - 1\<rparr>"
  shows "if usedCount b' = 0 then block_live b = {s} else block_ok b' \<and> block_live b' = block_live b - {s}"
proof -
  have b: "distinct (s # pFree b)" "set (s # pFree b) \<subseteq> set (slots (block_addr b))" "length (pFree b) < 127"
    using assms(1,2) by (auto simp: block_ok_def block_live_def)
  have u: "usedCount b' = word_of_nat (127 - length (s # pFree b))"
    using assms(1,3) b(3) by (simp add: block_ok_def)
  show ?thesis
  proof (cases "length (s # pFree b) = 127")
    case True
    have "card (set (s # pFree b)) = 127" using distinct_card [OF b(1)] True by simp
    moreover have "card (set (slots (block_addr b))) = 127"
      using assms(1) distinct_card [OF distinct_slots] by (simp add: block_ok_def)
    ultimately have "set (s # pFree b) = set (slots (block_addr b))" using b(2) by (intro card_subset_eq) simp_all
    then have "block_live b = {s}" using b(1) by (auto simp: block_live_def)
    then show ?thesis using u True by simp
  next
    case False
    then have l: "length (s # pFree b) < 127" using b(3) by simp
    then have "usedCount b' \<noteq> 0" using used_nonzero u by metis
    moreover have "block_ok b'" using assms(1,3) b l u by (auto simp: block_ok_def)
    ultimately show ?thesis using assms(3) by (auto simp: block_live_def)
  qed
qed

lemma FreeBuffer_addrs: "block_addr ` set (FreeBuffer s bs) \<subseteq> block_addr ` set bs"
  by (induction bs) (auto simp: Let_def)

lemma FreeBuffer_ok: "blocks_ok bs \<Longrightarrow> s \<in> live_slots bs \<Longrightarrow> blocks_ok (FreeBuffer s bs) \<and> live_slots (FreeBuffer s bs) = live_slots bs - {s}"
proof (induction bs)
  case (Cons b bs)
  have b: "block_ok b" "blocks_ok bs" "block_addr b \<notin> block_addr ` set bs" using Cons.prems(1) by (auto simp: blocks_ok_def)
  have tail: "page_of t \<in> block_addr ` set bs" if "t \<in> live_slots bs" for t
    using that live_page [OF b(2)] by (auto simp: live_slots_def)
  show ?case
  proof (cases "block_addr b = page_of s")
    case True
    then have n: "s \<notin> live_slots bs" using tail b(3) by metis
    then have s: "s \<in> block_live b" using Cons.prems(2) by (auto simp: live_slots_def)
    define b' where "b' = b\<lparr>pFree := s # pFree b, usedCount := usedCount b - 1\<rparr>"
    from give_slot [OF b(1) s b'_def] True b n show ?thesis
      by (auto simp: blocks_ok_def live_slots_def b'_def split: if_splits)
  next
    case False
    then have "s \<notin> block_live b" using live_page [OF Cons.prems(1), of b] by auto
    then have "s \<in> live_slots bs" using Cons.prems(2) by (simp add: live_slots_def)
    with Cons.IH b(2) have "blocks_ok (FreeBuffer s bs)" "live_slots (FreeBuffer s bs) = live_slots bs - {s}" by simp_all
    then show ?thesis
      using False b(1,3) FreeBuffer_addrs [of s bs] \<open>s \<notin> block_live b\<close> by (auto simp: blocks_ok_def live_slots_def)
  qed
qed (simp add: live_slots_def)

lemma quotient_eq: "n * q + k = n * r + l \<Longrightarrow> k < n \<Longrightarrow> l < n \<Longrightarrow> q = (r :: nat)"
  by (metis add_cancel_right_right div_less div_mult_self4 not_less_zero)

lemma slots_apart:
  assumes "page_aligned a" "page_aligned b" "s \<in> set (slots a)" "t \<in> set (slots b)" "s \<noteq> t"
  shows "room s \<inter> room t = {}"
proof -
  obtain i j where ij: "s = slot a i" "i < 127" "t = slot b j" "j < 127" using assms(3,4) by (auto simp: slots_def)
  have "slot a i + word_of_nat k \<noteq> slot b j + word_of_nat l" if kl: "k < 32" "l < 32" for k l
  proof
    assume "slot a i + word_of_nat k = slot b j + word_of_nat l"
    then have "unat a + 32 * Suc i + k = unat b + 32 * Suc j + l"
      using unat_slot [OF assms(1) ij(2) kl(1)] unat_slot [OF assms(2) ij(4) kl(2)] by metis
    moreover obtain x y where xy: "unat a = 4096 * x" "unat b = 4096 * y"
      using assms(1,2) by (auto simp: page_aligned_def MEMORY_BLOCK_SIZE_def elim!: dvdE)
    ultimately have e: "32 * (128 * x + Suc i) + k = 32 * (128 * y + Suc j) + l" by simp
    have e: "128 * x + Suc i = 128 * y + Suc j" using e by (rule quotient_eq) (simp_all add: kl)
    then have "x = y" by (rule quotient_eq) (use ij in simp_all)
    with e xy have "unat a = unat b" "i = j" by simp_all
    moreover from this have "a = b" by (simp add: word_unat_eq_iff)
    ultimately show False using assms(5) ij by simp
  qed
  then show ?thesis unfolding room_def MEMORY_SLOT_SIZE_def ij(1,3) by blast
qed

lemma live_slots_apart:
  assumes "blocks_ok bs" "s \<in> live_slots bs" "t \<in> live_slots bs" "s \<noteq> t"
  shows "room s \<inter> room t = {}"
proof -
  obtain b c where "b \<in> set bs" "s \<in> block_live b" "c \<in> set bs" "t \<in> block_live c" using assms(2,3) by (auto simp: live_slots_def)
  then show ?thesis using slots_apart [of "block_addr b" "block_addr c" s t] assms(1,4) by (auto simp: blocks_ok_def block_ok_def block_live_def)
qed

interpretation buf: slot_pool blocks_ok live_slots fresh_page AllocateBuffer FreeBuffer
proof
  show "blocks_ok p \<Longrightarrow> (\<And>a. v = Some a \<Longrightarrow> fresh_page a p) \<Longrightarrow> AllocateBuffer v p = Some (s, p') \<Longrightarrow>
    blocks_ok p' \<and> s \<notin> live_slots p \<and> live_slots p' = insert s (live_slots p)" for p v s p'
    by (rule AllocateBuffer_ok)
  show "blocks_ok p \<Longrightarrow> s \<in> live_slots p \<Longrightarrow> blocks_ok (FreeBuffer s p) \<and> live_slots (FreeBuffer s p) = live_slots p - {s}" for p s
    by (rule FreeBuffer_ok)
  show "blocks_ok p \<Longrightarrow> s \<in> live_slots p \<Longrightarrow> t \<in> live_slots p \<Longrightarrow> s \<noteq> t \<Longrightarrow> room s \<inter> room t = {}" for p s t
    by (rule live_slots_apart)
qed

text \<open>
  C27: Slots for trampolines. From blocks in order and a page of the operating system that is none of them, a successful
  \<^verbatim>\<open>AllocateBuffer\<close> hands out a slot that was free, whose bytes lie in no live slot, and leaves the blocks in order with
  exactly that slot more in use; \<^verbatim>\<open>FreeBuffer\<close> of it gives back the live slots of before.
\<close>

theorem buffer_contract:
  assumes "blocks_ok bs" "\<And>a. v = Some a \<Longrightarrow> fresh_page a bs" "AllocateBuffer v bs = Some (s, bs')"
  shows "blocks_ok bs' \<and> s \<notin> live_slots bs \<and> live_slots bs' = insert s (live_slots bs) \<and> (\<forall>t \<in> live_slots bs. room s \<inter> room t = {})
    \<and> blocks_ok (FreeBuffer s bs') \<and> live_slots (FreeBuffer s bs') = live_slots bs"
  using buf.alloc_ok [OF assms] buf.alloc_apart [OF assms] buf.alloc_release [OF assms] by simp

theorem buffer_contract_witness:
  "\<exists>s bs'. AllocateBuffer (Some 0x10000) [] = Some (s, bs') \<and> live_slots bs' = {s} \<and> live_slots (FreeBuffer s bs') = {}"
proof -
  have f: "fresh_page 0x10000 []" by (simp add: fresh_page_def page_aligned_def MEMORY_BLOCK_SIZE_def)
  have e: "blocks_ok []" "live_slots [] = {}" by (simp_all add: blocks_ok_def live_slots_def)
  obtain s bs' where "AllocateBuffer (Some 0x10000) [] = Some (s, bs')"
    by (simp add: AllocateBuffer_def GetMemoryBlock_def Let_def)
  then show ?thesis using buffer_contract [OF e(1), of "Some 0x10000" s bs'] f e(2) by auto
qed

end
