(* ===== verification/HookTrampoline.thy ===== *)
theory HookTrampoline
  imports HookBuffer
begin

text \<open>
  The trampolines of \<^verbatim>\<open>src/minhook/src/trampoline.c\<close> and \<^verbatim>\<open>trampoline.h\<close> in the 32-bit build: the first instructions of the
  function to be hooked, moved to a slot with their relative branches adjusted, and a jump back into the function.

  The arrays of instruction boundaries are lists with one element for each boundary noted so far (\<open>nIP\<close> of the source
  is their length). Which addresses are executable (\<^verbatim>\<open>VirtualQuery\<close>) is an argument.
\<close>

record TRAMPOLINE =
  ct_pTarget :: addr
  ct_pDetour :: addr
  ct_pTrampoline :: addr
  ct_patchAbove :: bool
  ct_oldIPs :: "byte list"
  ct_newIPs :: "byte list"

text \<open>\<^verbatim>\<open>JMP_REL\<close> (and \<^verbatim>\<open>CALL_REL\<close>), \<^verbatim>\<open>JMP_REL_SHORT\<close> and \<^verbatim>\<open>JCC_REL\<close> at address \<open>from\<close>.\<close>

definition jmp_rel :: "byte \<Rightarrow> addr \<Rightarrow> addr \<Rightarrow> byte list" where
  "jmp_rel op dest from = op # le32 (dest - (from + 5))"

definition jmp_rel_short :: "byte \<Rightarrow> byte list" where
  "jmp_rel_short operand = [0xEB, operand]"

definition jcc_rel :: "byte \<Rightarrow> addr \<Rightarrow> addr \<Rightarrow> byte list" where
  "jcc_rel cond dest from = 0x0F # (0x80 OR cond) # le32 (dest - (from + 6))"

lemma length_jumps [simp]: "length (jmp_rel op dest from) = 5" "length (jmp_rel_short o8) = 2" "length (jcc_rel cond dest from) = 6"
  by (simp_all add: jmp_rel_def jmp_rel_short_def jcc_rel_def le32_def)

fun all_equal :: "byte \<Rightarrow> byte list \<Rightarrow> bool" where
  "all_equal b [] = True"
| "all_equal b (x # xs) = (x = b \<and> all_equal b xs)"

definition IsCodePadding :: "memory \<Rightarrow> addr \<Rightarrow> nat \<Rightarrow> bool" where
  "IsCodePadding m pInst n \<longleftrightarrow> m pInst \<in> {0x00, 0x90, 0xCC} \<and> all_equal (m pInst) (peek m (pInst + 1) (n - 1))"

text \<open>
  The instruction at \<open>pOldInst\<close> as it goes to \<open>pNewInst\<close>: its bytes there, whether it completes the trampoline, and
  the furthest destination of an internal jump; \<open>None\<close> is an instruction that cannot be moved.
\<close>

definition relocate :: "memory \<Rightarrow> addr \<Rightarrow> byte \<Rightarrow> addr \<Rightarrow> addr \<Rightarrow> hde32s \<Rightarrow> addr \<Rightarrow> (byte list \<times> bool \<times> addr) option" where
  "relocate m target oldPos pOldInst pNewInst hs jmpDest =
     (let after = pOldInst + ucast (hs_len hs);
          rel8 = (scast (ucast (hs_imm hs) :: byte) :: addr);
          copy = peek m pOldInst (unat (hs_len hs));
          internal = (\<lambda>dest. target \<le> dest \<and> dest < target + 5);
          further = (\<lambda>dest. if jmpDest < dest then dest else jmpDest);
          short = (opcode hs AND 0xF0 = 0x70 \<or> opcode hs AND 0xFC = 0xE0)
      in if oldPos \<ge> 5 then Some (jmp_rel 0xE9 pOldInst pNewInst, True, jmpDest)
         else if opcode hs = 0xE8 then Some (jmp_rel 0xE8 (after + hs_imm hs) pNewInst, False, jmpDest)
         else if opcode hs AND 0xFD = 0xE9
         then let dest = after + (if opcode hs = 0xEB then rel8 else hs_imm hs)
              in if internal dest then Some (copy, False, further dest)
                 else Some (jmp_rel 0xE9 dest pNewInst, pOldInst \<ge> jmpDest, jmpDest)
         else if short \<or> opcode2 hs AND 0xF0 = 0x80
         then let dest = after + (if short then rel8 else hs_imm hs)
              in if internal dest then Some (copy, False, further dest)
                 else if opcode hs AND 0xFC = 0xE0 then None
                 else Some (jcc_rel ((if opcode hs \<noteq> 0x0F then opcode hs else opcode2 hs) AND 0x0F) dest pNewInst, False, jmpDest)
         else if opcode hs AND 0xFE = 0xC2 then Some (copy, pOldInst \<ge> jmpDest, jmpDest)
         else Some (copy, False, jmpDest))"

definition TRAMPOLINE_MAX_SIZE :: nat where "TRAMPOLINE_MAX_SIZE = MEMORY_SLOT_SIZE"

text \<open>
  The loop of \<^verbatim>\<open>CreateTrampolineFunction\<close>: whether it completed, the length of the instructions moved, the trampoline and the
  memory. \<open>None\<close> is a read outside the disassembler's table.
\<close>

function tramp_loop :: "memory \<Rightarrow> TRAMPOLINE \<Rightarrow> byte \<Rightarrow> byte \<Rightarrow> addr \<Rightarrow> (bool \<times> byte \<times> TRAMPOLINE \<times> memory) option" where
  "tramp_loop m ct oldPos newPos jmpDest =
     (let pOldInst = ct_pTarget ct + ucast oldPos; pNewInst = ct_pTrampoline ct + ucast newPos
      in case hde32_disasm m pOldInst of
           None \<Rightarrow> None
         | Some hs \<Rightarrow>
             if has (hs_flags hs) F_ERROR then Some (False, oldPos, ct, m)
             else (case relocate m (ct_pTarget ct) oldPos pOldInst pNewInst hs jmpDest of
                     None \<Rightarrow> Some (False, oldPos, ct, m)
                   | Some (src, finished, jmpDest') \<Rightarrow>
                       if pOldInst < jmpDest' \<and> length src \<noteq> unat (hs_len hs) then Some (False, oldPos, ct, m)
                       else if unat newPos + length src > TRAMPOLINE_MAX_SIZE then Some (False, oldPos, ct, m)
                       else if length (ct_oldIPs ct) \<ge> 8 then Some (False, oldPos, ct, m)
                       else let ct' = ct\<lparr>ct_oldIPs := ct_oldIPs ct @ [oldPos], ct_newIPs := ct_newIPs ct @ [newPos]\<rparr>;
                                m' = poke pNewInst src m;
                                oldPos' = oldPos + hs_len hs;
                                newPos' = newPos + word_of_nat (length src)
                            in if finished then Some (True, oldPos', ct', m')
                               else tramp_loop m' ct' oldPos' newPos' jmpDest'))"
  by pat_completeness auto
termination by (relation "measure (\<lambda>(m, ct, _). 8 - length (ct_oldIPs ct))") auto

declare tramp_loop.simps [simp del]

definition CreateTrampolineFunction :: "(addr \<Rightarrow> bool) \<Rightarrow> memory \<Rightarrow> TRAMPOLINE \<Rightarrow> (bool \<times> TRAMPOLINE \<times> memory) option" where
  "CreateTrampolineFunction IsExecutableAddress m ct0 =
     (case tramp_loop m (ct0\<lparr>ct_patchAbove := False, ct_oldIPs := [], ct_newIPs := []\<rparr>) 0 0 0 of
        None \<Rightarrow> None
      | Some (ok, oldPos, ct, m') \<Rightarrow>
          if \<not> ok then Some (False, ct, m')
          else if oldPos < 5 \<and> \<not> IsCodePadding m' (ct_pTarget ct + ucast oldPos) (5 - unat oldPos)
          then if oldPos < 2 \<and> \<not> IsCodePadding m' (ct_pTarget ct + ucast oldPos) (2 - unat oldPos) then Some (False, ct, m')
               else if \<not> IsExecutableAddress (ct_pTarget ct - 5) then Some (False, ct, m')
               else if \<not> IsCodePadding m' (ct_pTarget ct - 5) 5 then Some (False, ct, m')
               else Some (True, ct\<lparr>ct_patchAbove := True\<rparr>, m')
          else Some (True, ct, m'))"

section \<open>Where a branch leads\<close>

text \<open>The destination of the relative branch at \<open>a\<close> whose operand takes the last four of its \<open>n\<close> bytes.\<close>

definition branch_dest :: "memory \<Rightarrow> addr \<Rightarrow> nat \<Rightarrow> addr" where
  "branch_dest m a n = a + word_of_nat n + fetch32 m a (n - 4)"

lemma branch_dest_jmp: "peek m a 5 = jmp_rel op dest a \<Longrightarrow> m a = op \<and> branch_dest m a 5 = dest"
proof -
  assume *: "peek m a 5 = jmp_rel op dest a"
  then have "m a = op" using nth_peek [of 0 5 m a] by (simp add: jmp_rel_def)
  moreover have "peek m (a + 1) 4 = tl (peek m a 5)"
    by (rule nth_equalityI) (auto simp: nth_tl add.assoc)
  then have "fetch32 m a 1 = dest - (a + 5)" using * by (simp add: fetch32_def jmp_rel_def le32.dec_enc)
  ultimately show ?thesis by (simp add: branch_dest_def)
qed

lemma branch_dest_jcc: "peek m a 6 = jcc_rel cond dest a \<Longrightarrow> m a = 0x0F \<and> m (a + 1) = 0x80 OR cond \<and> branch_dest m a 6 = dest"
proof -
  assume *: "peek m a 6 = jcc_rel cond dest a"
  then have "m a = 0x0F" "m (a + 1) = 0x80 OR cond" using nth_peek [of 0 6 m a] nth_peek [of 1 6 m a] by (simp_all add: jcc_rel_def)
  moreover have "peek m (a + 2) 4 = tl (tl (peek m a 6))"
    by (rule nth_equalityI) (auto simp: nth_tl add.assoc)
  then have "fetch32 m a 2 = dest - (a + 6)" using * by (simp add: fetch32_def jcc_rel_def le32.dec_enc)
  ultimately show ?thesis by (simp add: branch_dest_def)
qed

section \<open>What the loop keeps\<close>

lemma span_sub:
  assumes "unat d + n \<le> k"
  shows "span (a + d) n \<subseteq> span a k"
proof
  fix x assume "x \<in> span (a + d) n"
  then have "unat (x - (a + d)) + unat d < k" using assms by (simp add: span_def)
  moreover have "unat (u + d) \<le> unat u + unat d" for u by (simp add: unat_word_ariths(1))
  ultimately have "unat ((x - (a + d)) + d) < k" by (rule order_le_less_trans [rotated])
  then show "x \<in> span a k" by (simp add: span_def)
qed

lemma unat_ucast_byte [simp]: "unat (ucast (b :: byte) :: addr) = unat b"
  using byte_less [of b] by (simp add: unsigned_ucast_eq take_bit_nat_eq_self)

lemma room_span: "room s = span s MEMORY_SLOT_SIZE"
  by (simp add: room_def span_image MEMORY_SLOT_SIZE_def)

lemma relocate_facts:
  assumes "relocate m target oldPos pOld pNew hs jmpDest = Some (src, finished, jmpDest')" "1 \<le> unat (hs_len hs)"
  shows "src \<noteq> []" "\<not> finished \<Longrightarrow> oldPos < 5" "oldPos \<ge> 5 \<Longrightarrow> src = jmp_rel 0xE9 pOld pNew"
proof -
  have ne: "peek m pOld (unat (hs_len hs)) \<noteq> []" "jmp_rel op d a \<noteq> []" "jcc_rel op d a \<noteq> []" for op d a
    using assms(2) by (auto simp: jmp_rel_def jcc_rel_def peek_def)
  show "src \<noteq> []" "\<not> finished \<Longrightarrow> oldPos < 5" "oldPos \<ge> 5 \<Longrightarrow> src = jmp_rel 0xE9 pOld pNew"
    using assms(1) ne by (auto simp: relocate_def Let_def split: if_splits)
qed

text \<open>One round of the loop: it gives up, or moves an instruction.\<close>

lemma tramp_loop_round:
  obtains "tramp_loop m ct oldPos newPos jmpDest = Some (False, oldPos, ct, m)"
  | hs src finished jmpDest' where "1 \<le> unat (hs_len hs)" "unat (hs_len hs) \<le> 15"
    "relocate m (ct_pTarget ct) oldPos (ct_pTarget ct + ucast oldPos) (ct_pTrampoline ct + ucast newPos) hs jmpDest = Some (src, finished, jmpDest')"
    "unat newPos + length src \<le> 32" "length (ct_oldIPs ct) < 8"
    "tramp_loop m ct oldPos newPos jmpDest =
      (let ct' = ct\<lparr>ct_oldIPs := ct_oldIPs ct @ [oldPos], ct_newIPs := ct_newIPs ct @ [newPos]\<rparr>;
           m' = poke (ct_pTrampoline ct + ucast newPos) src m
       in if finished then Some (True, oldPos + hs_len hs, ct', m')
          else tramp_loop m' ct' (oldPos + hs_len hs) (newPos + word_of_nat (length src)) jmpDest')"
proof -
  obtain hs where hs: "hde32_disasm m (ct_pTarget ct + ucast oldPos) = Some hs" "1 \<le> unat (hs_len hs)" "unat (hs_len hs) \<le> 15"
    using hde32_disasm_defined by blast
  show ?thesis
  proof (cases "relocate m (ct_pTarget ct) oldPos (ct_pTarget ct + ucast oldPos) (ct_pTrampoline ct + ucast newPos) hs jmpDest")
    case None
    then show ?thesis using hs(1) that(1) by (simp add: tramp_loop.simps [of m ct] Let_def)
  next
    case (Some r)
    obtain src finished jmpDest' where r: "r = (src, finished, jmpDest')" by (cases r)
    show ?thesis
    proof (cases "has (hs_flags hs) F_ERROR \<or> (ct_pTarget ct + ucast oldPos < jmpDest' \<and> length src \<noteq> unat (hs_len hs))
        \<or> unat newPos + length src > 32 \<or> length (ct_oldIPs ct) \<ge> 8")
      case True
      then show ?thesis
        using hs(1) Some r by (intro that(1)) (auto simp: tramp_loop.simps [of m ct] Let_def TRAMPOLINE_MAX_SIZE_def MEMORY_SLOT_SIZE_def)
    next
      case False
      show ?thesis
        by (rule that(2) [OF hs(2,3) Some [unfolded r]])
          (use False hs(1) Some r in \<open>auto simp: tramp_loop.simps [of m ct] Let_def TRAMPOLINE_MAX_SIZE_def MEMORY_SLOT_SIZE_def\<close>)
    qed
  qed
qed

text \<open>The boundaries noted so far, with the positions reached.\<close>

definition boundaries :: "TRAMPOLINE \<Rightarrow> byte \<Rightarrow> byte \<Rightarrow> bool" where
  "boundaries ct oldPos newPos \<longleftrightarrow> sorted_wrt (<) (ct_oldIPs ct @ [oldPos]) \<and> sorted_wrt (<) (ct_newIPs ct @ [newPos])
     \<and> length (ct_newIPs ct) = length (ct_oldIPs ct) \<and> length (ct_oldIPs ct) \<le> 8 \<and> unat newPos \<le> 32"

lemma byte_advance: "unat (a :: byte) + n < 256 \<Longrightarrow> unat (a + word_of_nat n) = unat a + n"
  by (simp add: unat_word_ariths unat_of_nat take_bit_eq_mod)

lemma boundaries_next:
  assumes "boundaries ct oldPos newPos" "length (ct_oldIPs ct) < 8" "unat oldPos \<le> 19" "1 \<le> unat l" "unat l \<le> 15" "0 < n" "unat newPos + n \<le> 32"
  shows "boundaries (ct\<lparr>ct_oldIPs := ct_oldIPs ct @ [oldPos], ct_newIPs := ct_newIPs ct @ [newPos]\<rparr>) (oldPos + l) (newPos + word_of_nat n)"
proof -
  have "unat (oldPos + l) = unat oldPos + unat l" using byte_advance [of oldPos "unat l"] assms(3,5) by simp
  moreover have n: "unat (newPos + word_of_nat n) = unat newPos + n" using byte_advance [of newPos n] assms(7) by simp
  ultimately have "oldPos < oldPos + l" "newPos < newPos + word_of_nat n" using assms(4,6) by (simp_all add: word_less_nat_alt)
  then show ?thesis
    using assms(1,2,7) n by (auto simp: boundaries_def sorted_wrt_append)
qed

text \<open>A trampoline that moved five bytes or more ends with a jump to the first instruction it left in place.\<close>

definition returns_to_target :: "memory \<Rightarrow> TRAMPOLINE \<Rightarrow> bool" where
  "returns_to_target m ct \<longleftrightarrow> (last (ct_oldIPs ct) \<ge> 5 \<longrightarrow>
     (let a = ct_pTrampoline ct + ucast (last (ct_newIPs ct)) in m a = 0xE9 \<and> branch_dest m a 5 = ct_pTarget ct + ucast (last (ct_oldIPs ct))))"

definition kept :: "TRAMPOLINE \<Rightarrow> TRAMPOLINE \<Rightarrow> bool" where
  "kept ct ct' \<longleftrightarrow> ct_pTarget ct' = ct_pTarget ct \<and> ct_pDetour ct' = ct_pDetour ct \<and> ct_pTrampoline ct' = ct_pTrampoline ct"

definition loop_result :: "memory \<Rightarrow> TRAMPOLINE \<Rightarrow> byte \<Rightarrow> byte \<Rightarrow> bool \<times> byte \<times> TRAMPOLINE \<times> memory \<Rightarrow> bool" where
  "loop_result m ct oldPos newPos = (\<lambda>(ok, oldPos', ct', m'). (\<forall>x. x \<notin> room (ct_pTrampoline ct) \<longrightarrow> m' x = m x) \<and> kept ct ct'
    \<and> (ok \<longrightarrow> Ex (boundaries ct' oldPos') \<and> (\<exists>os. ct_oldIPs ct' = ct_oldIPs ct @ oldPos # os)
         \<and> (\<exists>ns. ct_newIPs ct' = ct_newIPs ct @ newPos # ns) \<and> returns_to_target m' ct'))"

lemma loop_result_next:
  assumes "loop_result m1 (ct\<lparr>ct_oldIPs := ct_oldIPs ct @ [oldPos], ct_newIPs := ct_newIPs ct @ [newPos]\<rparr>) oldPos1 newPos1 r"
    "\<And>x. x \<notin> room (ct_pTrampoline ct) \<Longrightarrow> m1 x = m x"
  shows "loop_result m ct oldPos newPos r"
  using assms by (auto simp: loop_result_def kept_def)

lemma last_jump:
  assumes "oldPos \<ge> 5 \<Longrightarrow> src = jmp_rel 0xE9 (ct_pTarget ct + ucast oldPos) (ct_pTrampoline ct + ucast newPos)"
  shows "returns_to_target (poke (ct_pTrampoline ct + ucast newPos) src m) (ct\<lparr>ct_oldIPs := ct_oldIPs ct @ [oldPos], ct_newIPs := ct_newIPs ct @ [newPos]\<rparr>)"
proof (cases "oldPos \<ge> 5")
  case True
  let ?p = "ct_pTrampoline ct + ucast newPos"
  have "peek (poke ?p src m) ?p 5 = jmp_rel 0xE9 (ct_pTarget ct + ucast oldPos) ?p"
    using assms [OF True] peek_poke [of src ?p m] by simp
  then show ?thesis using branch_dest_jmp by (simp add: returns_to_target_def Let_def)
qed (simp add: returns_to_target_def)

lemma tramp_loop_ok:
  assumes "boundaries ct oldPos newPos" "unat oldPos \<le> 19"
  shows "\<exists>r. tramp_loop m ct oldPos newPos jmpDest = Some r \<and> loop_result m ct oldPos newPos r"
  using assms
proof (induction "8 - length (ct_oldIPs ct)" arbitrary: m ct oldPos newPos jmpDest rule: less_induct)
  case less
  show ?case
  proof (cases rule: tramp_loop_round [where m = m and ct = ct and oldPos = oldPos and newPos = newPos and jmpDest = jmpDest])
    case 1
    then show ?thesis by (auto simp: kept_def loop_result_def)
  next
    case (2 hs src finished jmpDest')
    let ?p = "ct_pTrampoline ct + ucast newPos"
    define ct1 where "ct1 = ct\<lparr>ct_oldIPs := ct_oldIPs ct @ [oldPos], ct_newIPs := ct_newIPs ct @ [newPos]\<rparr>"
    define m1 where "m1 = poke ?p src m"
    have loop: "tramp_loop m ct oldPos newPos jmpDest = (if finished then Some (True, oldPos + hs_len hs, ct1, m1)
        else tramp_loop m1 ct1 (oldPos + hs_len hs) (newPos + word_of_nat (length src)) jmpDest')"
      using 2(6) by (simp only: ct1_def m1_def Let_def)
    note rf = relocate_facts [OF 2(3,1)]
    have b1: "boundaries ct1 (oldPos + hs_len hs) (newPos + word_of_nat (length src))"
      unfolding ct1_def by (rule boundaries_next) (use less.prems 2(1,2,4,5) rf(1) in auto)
    have "span ?p (length src) \<subseteq> room (ct_pTrampoline ct)"
      unfolding room_span MEMORY_SLOT_SIZE_def by (rule span_sub) (use 2(4) in simp)
    then have fr: "x \<notin> room (ct_pTrampoline ct) \<Longrightarrow> m1 x = m x" for x by (auto simp: m1_def intro: poke_outside)
    show ?thesis
    proof (cases finished)
      case True
      have "returns_to_target m1 ct1" unfolding m1_def ct1_def using rf(3) by (intro last_jump) simp
      then show ?thesis using loop True b1 fr by (auto simp: loop_result_def kept_def ct1_def)
    next
      case False
      then have "unat oldPos < 5" using rf(2) by (simp add: word_less_nat_alt)
      then have "unat (oldPos + hs_len hs) \<le> 19" using byte_advance [of oldPos "unat (hs_len hs)"] 2(2) by simp
      moreover have "8 - length (ct_oldIPs ct1) < 8 - length (ct_oldIPs ct)" using 2(5) by (simp add: ct1_def)
      ultimately obtain r where r: "tramp_loop m ct oldPos newPos jmpDest = Some r"
          "loop_result m1 ct1 (oldPos + hs_len hs) (newPos + word_of_nat (length src)) r"
        using less.hyps [OF _ b1, of m1 jmpDest'] loop False by (auto simp del: split_paired_Ex)
      have "loop_result m ct oldPos newPos r" by (rule loop_result_next [OF r(2) [unfolded ct1_def] fr])
      then show ?thesis using r(1) by simp
    qed
  qed
qed

section \<open>What a trampoline is\<close>

definition trampoline_ok :: "memory \<Rightarrow> TRAMPOLINE \<Rightarrow> bool" where
  "trampoline_ok m ct \<longleftrightarrow> ct_oldIPs ct \<noteq> [] \<and> length (ct_newIPs ct) = length (ct_oldIPs ct) \<and> length (ct_oldIPs ct) \<le> 8
     \<and> hd (ct_oldIPs ct) = 0 \<and> hd (ct_newIPs ct) = 0 \<and> sorted_wrt (<) (ct_oldIPs ct) \<and> sorted_wrt (<) (ct_newIPs ct)
     \<and> (\<forall>n \<in> set (ct_newIPs ct). unat n < MEMORY_SLOT_SIZE) \<and> returns_to_target m ct"

lemma CreateTrampolineFunction_ok:
  "\<exists>ok ct' m'. CreateTrampolineFunction exec m ct = Some (ok, ct', m') \<and> (\<forall>x. x \<notin> room (ct_pTrampoline ct) \<longrightarrow> m' x = m x)
    \<and> (ok \<longrightarrow> trampoline_ok m' ct' \<and> kept ct ct')"
proof -
  let ?ct = "ct\<lparr>ct_patchAbove := False, ct_oldIPs := [], ct_newIPs := []\<rparr>"
  have "boundaries ?ct 0 0" by (simp add: boundaries_def)
  from tramp_loop_ok [OF this, of m 0] obtain ok oldPos ct' m' where loop: "tramp_loop m ?ct 0 0 0 = Some (ok, oldPos, ct', m')"
    and res: "loop_result m ?ct 0 0 (ok, oldPos, ct', m')" by auto
  have fr: "\<forall>x. x \<notin> room (ct_pTrampoline ct) \<longrightarrow> m' x = m x" and same: "kept ct ct'"
    and fin: "ok \<longrightarrow> Ex (boundaries ct' oldPos) \<and> (\<exists>os. ct_oldIPs ct' = 0 # os) \<and> (\<exists>ns. ct_newIPs ct' = 0 # ns) \<and> returns_to_target m' ct'"
    using res by (simp_all add: loop_result_def kept_def)
  have "trampoline_ok m' ct'" if ok
  proof -
    from fin that obtain newPos os ns where b: "boundaries ct' oldPos newPos" "ct_oldIPs ct' = 0 # os" "ct_newIPs ct' = 0 # ns" "returns_to_target m' ct'"
      by auto
    then have "unat n < 32" if "n \<in> set (ct_newIPs ct')" for n
      using that by (auto simp: boundaries_def sorted_wrt_append word_less_nat_alt)
    then show ?thesis
      using b by (auto simp: trampoline_ok_def boundaries_def sorted_wrt_append MEMORY_SLOT_SIZE_def)
  qed
  moreover have "trampoline_ok m' (ct'\<lparr>ct_patchAbove := True\<rparr>) = trampoline_ok m' ct'"
    by (simp add: trampoline_ok_def returns_to_target_def)
  ultimately show ?thesis using loop fr same by (auto simp: CreateTrampolineFunction_def kept_def)
qed

text \<open>
  C26: Trampolines. Whatever bytes the function to be hooked begins with, building its trampoline returns, reads nothing outside
  the tables of the disassembler and writes nothing outside the slot it was given. If it succeeds, at most eight
  instruction boundaries are noted, from 0 and ascending in the function and in the slot alike, and if the
  instructions moved cover the five bytes of a jump, the trampoline ends with a jump to the first instruction left in place.
\<close>

theorem trampoline_built:
  "\<exists>ok ct' m'. CreateTrampolineFunction exec m ct = Some (ok, ct', m') \<and> (\<forall>x. x \<notin> room (ct_pTrampoline ct) \<longrightarrow> m' x = m x)
    \<and> (ok \<longrightarrow> trampoline_ok m' ct')"
  using CreateTrampolineFunction_ok [of exec m ct] by blast

text \<open>A function that begins with a jump to another.\<close>

definition demo_code :: memory where
  "demo_code = poke 0x2000 [0xE9, 0x10, 0, 0, 0] (\<lambda>_. 0xCC)"

definition demo_ct :: TRAMPOLINE where
  "demo_ct = \<lparr>ct_pTarget = 0x2000, ct_pDetour = 0x3000, ct_pTrampoline = 0x10020, ct_patchAbove = False, ct_oldIPs = [], ct_newIPs = []\<rparr>"

text \<open>A function that begins with a jump out of itself can be hooked.\<close>

lemma disasm_jump:
  assumes "m a = 0xE9"
  shows "hde32_disasm m a = Some (hde32s_zero\<lparr>opcode := 0xE9, hs_flags := F_IMM32 OR F_RELATIVE, hs_imm := fetch32 m a 1, hs_len := 5\<rparr>)"
proof -
  have f: "fetch8 m a 0 = 0xE9" using assms by (simp add: fetch8_def)
  have "hde32_prefixes 16 m a 0 0 0 hde32s_zero = (0xE9, 1, 0, hde32s_zero)"
    using hde32_prefixes.simps(2) [of 15 m a 0 0 0 hde32s_zero] f by simp
  moreover have "lookup 0 0xE9 = Some 0x50" by (simp add: lookup_def tab_def hde32_table_def)
  ultimately show ?thesis
    by (simp add: hde32_disasm_def hde32_opcode_def hde32_cflags_def hde32_imm_def imm_rel32_def hde32_finish_def has_def raise_flags_def
        C_ERROR_def C_GROUP_def C_MODRM_def C_IMM_P66_def C_REL32_def PRE_66_def PRE_LOCK_def PRE_NONE_def hde32s_zero_def)
qed

lemma jump_trampoline:
  assumes "m (ct_pTarget ct) = 0xE9" "\<not> (ct_pTarget ct \<le> branch_dest m (ct_pTarget ct) 5 \<and> branch_dest m (ct_pTarget ct) 5 < ct_pTarget ct + 5)"
  shows "\<exists>ct' m'. CreateTrampolineFunction exec m ct = Some (True, ct', m')"
proof -
  let ?t = "ct_pTarget ct"
  let ?hs = "hde32s_zero\<lparr>opcode := 0xE9, hs_flags := F_IMM32 OR F_RELATIVE, hs_imm := fetch32 m ?t 1, hs_len := 5\<rparr>"
  have "\<not> (?t \<le> ?t + 5 + fetch32 m ?t 1 \<and> ?t + 5 + fetch32 m ?t 1 < ?t + 5)" using assms(2) by (simp add: branch_dest_def)
  then have "relocate m ?t 0 ?t (ct_pTrampoline ct) ?hs 0 = Some (jmp_rel 0xE9 (?t + 5 + fetch32 m ?t 1) (ct_pTrampoline ct), True, 0)"
    unfolding relocate_def Let_def by (simp split del: if_split) simp
  then show ?thesis
    using disasm_jump [of m ?t] assms(1)
    by (simp add: CreateTrampolineFunction_def tramp_loop.simps has_def F_ERROR_def F_IMM32_def F_RELATIVE_def
        TRAMPOLINE_MAX_SIZE_def MEMORY_SLOT_SIZE_def Let_def)
qed

lemma demo_trampoline: "\<exists>ct m. CreateTrampolineFunction (\<lambda>_. True) demo_code (demo_ct\<lparr>ct_pTrampoline := buf\<rparr>) = Some (True, ct, m)"
  by (rule jump_trampoline) (simp_all add: demo_code_def demo_ct_def poke_def branch_dest_def fetch32_def peek_def upt_rec)

theorem trampoline_built_witness:
  "\<exists>ct' m'. CreateTrampolineFunction (\<lambda>_. True) demo_code demo_ct = Some (True, ct', m') \<and> trampoline_ok m' ct' \<and> m' 0x2000 = 0xE9"
proof -
  obtain ok ct' m' where r: "CreateTrampolineFunction (\<lambda>_. True) demo_code demo_ct = Some (ok, ct', m')"
    "\<forall>x. x \<notin> room (ct_pTrampoline demo_ct) \<longrightarrow> m' x = demo_code x" "ok \<longrightarrow> trampoline_ok m' ct'"
    using trampoline_built by blast
  moreover have ok using r(1) demo_trampoline [of "ct_pTrampoline demo_ct"] by simp
  moreover have "0x2000 \<notin> room (ct_pTrampoline demo_ct)" "demo_code 0x2000 = 0xE9"
    by (simp_all add: room_span span_def demo_ct_def MEMORY_SLOT_SIZE_def demo_code_def poke_def)
  ultimately show ?thesis by auto
qed

end
