(* ===== verification/HookTable.thy ===== *)
theory HookTable
  imports HookTrampoline
begin

text \<open>
  The hooking library proper, \<^verbatim>\<open>src/minhook/src/hook.c\<close> with \<^verbatim>\<open>src/minhook/include/MinHook.h\<close> (32-bit build): the table
  of hooks, the patching of the hooked functions, the suspension of the other threads and the moving of their instruction pointers
  while code changes, and the functions of the interface.

  The state holds the memory of the process, the instruction pointer of each thread and how often it is
  suspended. \<open>g_hooks.pItems\<close> is the list of its first \<open>g_hooks.size\<close> elements. The answers of the operating system to a call
  of the interface are the record \<open>os\<close>. A call of the interface runs under the spin lock; \<open>None\<close> is a call that
  spins for as long as the lock is held.
\<close>

section \<open>State\<close>

datatype MH_STATUS = MH_UNKNOWN | MH_OK | MH_ERROR_ALREADY_INITIALIZED | MH_ERROR_NOT_INITIALIZED | MH_ERROR_ALREADY_CREATED
  | MH_ERROR_NOT_CREATED | MH_ERROR_ENABLED | MH_ERROR_DISABLED | MH_ERROR_NOT_EXECUTABLE | MH_ERROR_UNSUPPORTED_FUNCTION
  | MH_ERROR_MEMORY_ALLOC | MH_ERROR_MEMORY_PROTECT | MH_ERROR_MODULE_NOT_FOUND | MH_ERROR_FUNCTION_NOT_FOUND

datatype ACTION = ACTION_DISABLE | ACTION_ENABLE | ACTION_APPLY_QUEUED

record HOOK_ENTRY =
  pTarget :: addr
  pDetour :: addr
  pTrampoline :: addr
  backup :: "byte list"
  patchAbove :: bool
  isEnabled :: bool
  queueEnable :: bool
  oldIPs :: "byte list"
  newIPs :: "byte list"

record MinHook =
  g_isLocked :: bool
  g_hHeap :: bool
  g_pItems :: bool
  g_capacity :: dword
  g_hooks :: "HOOK_ENTRY list"
  g_pMemoryBlocks :: "MEMORY_BLOCK list"
  mem :: memory
  eip :: "dword \<Rightarrow> addr"
  suspended :: "dword \<Rightarrow> nat"

record THREADENTRY32 =
  te_dwSize :: dword
  te_pid :: dword
  te_tid :: dword

record os =
  os_HeapCreate :: bool
  os_HeapAlloc :: bool
  os_HeapReAlloc :: bool
  os_IsExecutable :: "addr \<Rightarrow> bool"
  os_VirtualAlloc :: "addr option"
  os_VirtualProtect :: "addr \<Rightarrow> bool"
  os_snapshot :: "THREADENTRY32 list option"
  os_pid :: dword
  os_tid :: dword
  os_thread_heap :: "nat \<Rightarrow> bool"
  os_OpenThread :: "dword \<Rightarrow> bool"
  os_ReopenThread :: "dword \<Rightarrow> bool"
  os_GetThreadContext :: "dword \<Rightarrow> bool"
  os_SetThreadContext :: "dword \<Rightarrow> bool"

definition INITIAL_HOOK_CAPACITY :: dword where "INITIAL_HOOK_CAPACITY = 32"
definition INITIAL_THREAD_CAPACITY :: nat where "INITIAL_THREAD_CAPACITY = 128"

section \<open>The table\<close>

definition FindHookEntry :: "addr \<Rightarrow> MinHook \<Rightarrow> nat option" where
  "FindHookEntry target s = (case filter (\<lambda>i. pTarget (g_hooks s ! i) = target) [0..<length (g_hooks s)] of [] \<Rightarrow> None | i # _ \<Rightarrow> Some i)"

text \<open>A new element, as its caller fills it in; \<open>False\<close> is no memory.\<close>

definition AddHookEntry :: "os \<Rightarrow> HOOK_ENTRY \<Rightarrow> MinHook \<Rightarrow> bool \<times> MinHook" where
  "AddHookEntry e h s =
     (if \<not> g_pItems s
      then let s1 = s\<lparr>g_capacity := INITIAL_HOOK_CAPACITY\<rparr>
           in if os_HeapAlloc e then (True, s1\<lparr>g_pItems := True, g_hooks := g_hooks s1 @ [h]\<rparr>) else (False, s1)
      else if word_of_nat (length (g_hooks s)) \<ge> g_capacity s
      then if os_HeapReAlloc e then (True, s\<lparr>g_capacity := g_capacity s * 2, g_hooks := g_hooks s @ [h]\<rparr>) else (False, s)
      else (True, s\<lparr>g_hooks := g_hooks s @ [h]\<rparr>))"

definition DeleteHookEntry :: "os \<Rightarrow> nat \<Rightarrow> MinHook \<Rightarrow> MinHook" where
  "DeleteHookEntry e pos s =
     (let hs = (if pos < length (g_hooks s) - 1 then (g_hooks s)[pos := last (g_hooks s)] else g_hooks s);
          s1 = s\<lparr>g_hooks := butlast hs\<rparr>
      in if g_capacity s div 2 \<ge> INITIAL_HOOK_CAPACITY \<and> g_capacity s div 2 \<ge> word_of_nat (length (g_hooks s1)) \<and> os_HeapReAlloc e
         then s1\<lparr>g_capacity := g_capacity s div 2\<rparr> else s1)"

section \<open>Threads\<close>

text \<open>The boundary paired with the first one at the address; 0 is none.\<close>

fun find_ip :: "addr \<Rightarrow> (addr \<times> addr) list \<Rightarrow> addr" where
  "find_ip ip [] = 0"
| "find_ip ip ((a, b) # ps) = (if ip = a then b else find_ip ip ps)"

definition FindOldIP :: "HOOK_ENTRY \<Rightarrow> addr \<Rightarrow> addr" where
  "FindOldIP h ip =
     (if patchAbove h \<and> ip = pTarget h - 5 then pTarget h
      else find_ip ip (zip (map (\<lambda>n. pTrampoline h + ucast n) (newIPs h)) (map (\<lambda>o8. pTarget h + ucast o8) (oldIPs h))))"

definition FindNewIP :: "HOOK_ENTRY \<Rightarrow> addr \<Rightarrow> addr" where
  "FindNewIP h ip = find_ip ip (zip (map (\<lambda>o8. pTarget h + ucast o8) (oldIPs h)) (map (\<lambda>n. pTrampoline h + ucast n) (newIPs h)))"

definition action_enables :: "ACTION \<Rightarrow> HOOK_ENTRY \<Rightarrow> bool" where
  "action_enables a h = (case a of ACTION_DISABLE \<Rightarrow> False | ACTION_ENABLE \<Rightarrow> True | ACTION_APPLY_QUEUED \<Rightarrow> queueEnable h)"

definition process_hook :: "ACTION \<Rightarrow> addr \<Rightarrow> HOOK_ENTRY \<Rightarrow> addr" where
  "process_hook a ip h =
     (if isEnabled h = action_enables a h then ip
      else let ip' = (if action_enables a h then FindNewIP h ip else FindOldIP h ip) in if ip' \<noteq> 0 then ip' else ip)"

text \<open>\<open>None\<close> as position is \<^verbatim>\<open>ALL_HOOKS_POS\<close>.\<close>

definition ProcessThreadIPs :: "os \<Rightarrow> dword \<Rightarrow> nat option \<Rightarrow> ACTION \<Rightarrow> MinHook \<Rightarrow> MinHook" where
  "ProcessThreadIPs e tid pos a s =
     (if \<not> os_GetThreadContext e tid then s
      else let hs = (case pos of None \<Rightarrow> g_hooks s | Some i \<Rightarrow> [g_hooks s ! i])
           in if os_SetThreadContext e tid then s\<lparr>eip := (eip s)(tid := foldl (process_hook a) (eip s tid) hs)\<rparr> else s)"

text \<open>The threads to suspend: \<open>None\<close> is no array.\<close>

fun enumerate_loop :: "os \<Rightarrow> THREADENTRY32 list \<Rightarrow> nat \<Rightarrow> dword list option \<Rightarrow> dword list option" where
  "enumerate_loop e [] cap items = items"
| "enumerate_loop e (te # tes) cap items =
     (if te_dwSize te \<ge> 16 \<and> te_pid te = os_pid e \<and> te_tid te \<noteq> os_tid e
      then (case items of
              None \<Rightarrow> if os_thread_heap e 0 then enumerate_loop e tes INITIAL_THREAD_CAPACITY (Some [te_tid te]) else None
            | Some ts \<Rightarrow>
                if length ts \<ge> cap
                then if os_thread_heap e (length ts) then enumerate_loop e tes (cap * 2) (Some (ts @ [te_tid te])) else Some ts
                else enumerate_loop e tes cap (Some (ts @ [te_tid te])))
      else enumerate_loop e tes cap items)"

definition EnumerateThreads :: "os \<Rightarrow> dword list option" where
  "EnumerateThreads e = (case os_snapshot e of None \<Rightarrow> None | Some tes \<Rightarrow> enumerate_loop e tes 0 None)"

definition freeze_thread :: "os \<Rightarrow> nat option \<Rightarrow> ACTION \<Rightarrow> dword \<Rightarrow> MinHook \<Rightarrow> MinHook" where
  "freeze_thread e pos a tid s =
     (if os_OpenThread e tid then ProcessThreadIPs e tid pos a (s\<lparr>suspended := (suspended s)(tid := suspended s tid + 1)\<rparr>) else s)"

definition Freeze :: "os \<Rightarrow> nat option \<Rightarrow> ACTION \<Rightarrow> MinHook \<Rightarrow> dword list option \<times> MinHook" where
  "Freeze e pos a s =
     (let items = EnumerateThreads e
      in (items, case items of None \<Rightarrow> s | Some ts \<Rightarrow> fold (freeze_thread e pos a) ts s))"

definition unfreeze_thread :: "os \<Rightarrow> dword \<Rightarrow> MinHook \<Rightarrow> MinHook" where
  "unfreeze_thread e tid s = (if os_ReopenThread e tid then s\<lparr>suspended := (suspended s)(tid := suspended s tid - 1)\<rparr> else s)"

definition Unfreeze :: "os \<Rightarrow> dword list option \<Rightarrow> MinHook \<Rightarrow> MinHook" where
  "Unfreeze e items s = (case items of None \<Rightarrow> s | Some ts \<Rightarrow> fold (unfreeze_thread e) ts s)"

section \<open>Patching\<close>

definition patch_target :: "HOOK_ENTRY \<Rightarrow> addr" where
  "patch_target h = (if patchAbove h then pTarget h - 5 else pTarget h)"

definition patch_size :: "HOOK_ENTRY \<Rightarrow> nat" where
  "patch_size h = (if patchAbove h then 7 else 5)"

definition EnableHookLL :: "os \<Rightarrow> nat \<Rightarrow> bool \<Rightarrow> MinHook \<Rightarrow> MH_STATUS \<times> MinHook" where
  "EnableHookLL e pos enable s =
     (let h = g_hooks s ! pos; p = patch_target h
      in if \<not> os_VirtualProtect e p then (MH_ERROR_MEMORY_PROTECT, s)
         else let m = (if enable
                       then let m1 = poke p (jmp_rel 0xE9 (pDetour h) p) (mem s)
                            in if patchAbove h then poke (pTarget h) (jmp_rel_short (0 - (2 + 5))) m1 else m1
                       else poke p (take (patch_size h) (backup h)) (mem s))
              in (MH_OK, s\<lparr>mem := m, g_hooks := (g_hooks s)[pos := h\<lparr>isEnabled := enable, queueEnable := enable\<rparr>]\<rparr>))"

text \<open>The second loop of \<^verbatim>\<open>EnableAllHooksLL\<close> and of \<^verbatim>\<open>MH_ApplyQueued\<close>: the hooks at the positions, until one fails.\<close>

fun enable_each :: "os \<Rightarrow> (HOOK_ENTRY \<Rightarrow> bool) \<Rightarrow> nat list \<Rightarrow> MinHook \<Rightarrow> MH_STATUS \<times> MinHook" where
  "enable_each e want [] s = (MH_OK, s)"
| "enable_each e want (i # is) s =
     (let h = g_hooks s ! i
      in if isEnabled h \<noteq> want h
         then let (st, s') = EnableHookLL e i (want h) s in if st \<noteq> MH_OK then (st, s') else enable_each e want is s'
         else enable_each e want is s)"

definition apply_wanted :: "os \<Rightarrow> (HOOK_ENTRY \<Rightarrow> bool) \<Rightarrow> ACTION \<Rightarrow> MinHook \<Rightarrow> MH_STATUS \<times> MinHook" where
  "apply_wanted e want a s =
     (case filter (\<lambda>i. isEnabled (g_hooks s ! i) \<noteq> want (g_hooks s ! i)) [0..<length (g_hooks s)] of
        [] \<Rightarrow> (MH_OK, s)
      | first # _ \<Rightarrow>
          let (threads, s1) = Freeze e None a s;
              (st, s2) = enable_each e want [first..<length (g_hooks s1)] s1
          in (st, Unfreeze e threads s2))"

definition EnableAllHooksLL :: "os \<Rightarrow> bool \<Rightarrow> MinHook \<Rightarrow> MH_STATUS \<times> MinHook" where
  "EnableAllHooksLL e enable = apply_wanted e (\<lambda>_. enable) (if enable then ACTION_ENABLE else ACTION_DISABLE)"

section \<open>The interface\<close>

definition EnterSpinLock :: "MinHook \<Rightarrow> MinHook option" where
  "EnterSpinLock s = (if g_isLocked s then None else Some (s\<lparr>g_isLocked := True\<rparr>))"

definition LeaveSpinLock :: "MinHook \<Rightarrow> MinHook" where
  "LeaveSpinLock s = s\<lparr>g_isLocked := False\<rparr>"

definition under_lock :: "(MinHook \<Rightarrow> ('r \<times> MinHook) option) \<Rightarrow> MinHook \<Rightarrow> ('r \<times> MinHook) option" where
  "under_lock f s = Option.bind (EnterSpinLock s) (\<lambda>s1. Option.bind (f s1) (\<lambda>(r, s2). Some (r, LeaveSpinLock s2)))"

definition MH_Initialize :: "os \<Rightarrow> MinHook \<Rightarrow> (MH_STATUS \<times> MinHook) option" where
  "MH_Initialize e = under_lock (\<lambda>s. Some
     (if g_hHeap s then (MH_ERROR_ALREADY_INITIALIZED, s)
      else if os_HeapCreate e then (MH_OK, s\<lparr>g_hHeap := True\<rparr>) else (MH_ERROR_MEMORY_ALLOC, s)))"

definition MH_Uninitialize :: "os \<Rightarrow> MinHook \<Rightarrow> (MH_STATUS \<times> MinHook) option" where
  "MH_Uninitialize e = under_lock (\<lambda>s. Some
     (if g_hHeap s
      then let (st, s1) = EnableAllHooksLL e False s
           in (st, if st = MH_OK
                   then s1\<lparr>g_pMemoryBlocks := UninitializeBuffer (g_pMemoryBlocks s1), g_hHeap := False, g_pItems := False,
                          g_capacity := 0, g_hooks := []\<rparr>
                   else s1)
      else (MH_ERROR_NOT_INITIALIZED, s)))"

definition new_hook :: "TRAMPOLINE \<Rightarrow> memory \<Rightarrow> HOOK_ENTRY" where
  "new_hook ct m =
     \<lparr>pTarget = ct_pTarget ct, pDetour = ct_pDetour ct, pTrampoline = ct_pTrampoline ct,
      backup = (if ct_patchAbove ct then peek m (ct_pTarget ct - 5) 7 else peek m (ct_pTarget ct) 5),
      patchAbove = ct_patchAbove ct, isEnabled = False, queueEnable = False, oldIPs = ct_oldIPs ct, newIPs = ct_newIPs ct\<rparr>"

text \<open>The status and \<open>*ppOriginal\<close>, where it is written.\<close>

definition MH_CreateHook :: "os \<Rightarrow> addr \<Rightarrow> addr \<Rightarrow> MinHook \<Rightarrow> ((MH_STATUS \<times> addr option) \<times> MinHook) option" where
  "MH_CreateHook e target detour = under_lock (\<lambda>s.
     if \<not> g_hHeap s then Some ((MH_ERROR_NOT_INITIALIZED, None), s)
     else if \<not> (os_IsExecutable e target \<and> os_IsExecutable e detour) then Some ((MH_ERROR_NOT_EXECUTABLE, None), s)
     else if FindHookEntry target s \<noteq> None then Some ((MH_ERROR_ALREADY_CREATED, None), s)
     else (case AllocateBuffer (os_VirtualAlloc e) (g_pMemoryBlocks s) of
             None \<Rightarrow> Some ((MH_ERROR_MEMORY_ALLOC, None), s)
           | Some (buf, bs) \<Rightarrow>
               let s1 = s\<lparr>g_pMemoryBlocks := bs\<rparr>;
                   give_back = (\<lambda>st s'. Some ((st, None), s'\<lparr>g_pMemoryBlocks := FreeBuffer buf (g_pMemoryBlocks s')\<rparr>))
               in (case CreateTrampolineFunction (os_IsExecutable e) (mem s1)
                          \<lparr>ct_pTarget = target, ct_pDetour = detour, ct_pTrampoline = buf, ct_patchAbove = False, ct_oldIPs = [], ct_newIPs = []\<rparr> of
                     None \<Rightarrow> None
                   | Some (ok, ct, m) \<Rightarrow>
                       let s2 = s1\<lparr>mem := m\<rparr>
                       in if \<not> ok then give_back MH_ERROR_UNSUPPORTED_FUNCTION s2
                          else let (added, s3) = AddHookEntry e (new_hook ct m) s2
                               in if added then Some ((MH_OK, Some (ct_pTrampoline ct)), s3)
                                  else give_back MH_ERROR_MEMORY_ALLOC s3)))"

definition MH_RemoveHook :: "os \<Rightarrow> addr \<Rightarrow> MinHook \<Rightarrow> (MH_STATUS \<times> MinHook) option" where
  "MH_RemoveHook e target = under_lock (\<lambda>s. Some
     (if \<not> g_hHeap s then (MH_ERROR_NOT_INITIALIZED, s)
      else case FindHookEntry target s of
             None \<Rightarrow> (MH_ERROR_NOT_CREATED, s)
           | Some pos \<Rightarrow>
               let (st, s1) = (if isEnabled (g_hooks s ! pos)
                     then let (threads, sf) = Freeze e (Some pos) ACTION_DISABLE s; (st, se) = EnableHookLL e pos False sf
                          in (st, Unfreeze e threads se)
                     else (MH_OK, s))
               in if st = MH_OK
                  then (st, DeleteHookEntry e pos (s1\<lparr>g_pMemoryBlocks := FreeBuffer (pTrampoline (g_hooks s1 ! pos)) (g_pMemoryBlocks s1)\<rparr>))
                  else (st, s1)))"

definition EnableHook :: "os \<Rightarrow> addr \<Rightarrow> bool \<Rightarrow> MinHook \<Rightarrow> (MH_STATUS \<times> MinHook) option" where
  "EnableHook e target enable = under_lock (\<lambda>s. Some
     (if \<not> g_hHeap s then (MH_ERROR_NOT_INITIALIZED, s)
      else if target = 0 then EnableAllHooksLL e enable s
      else case FindHookEntry target s of
             None \<Rightarrow> (MH_ERROR_NOT_CREATED, s)
           | Some pos \<Rightarrow>
               if isEnabled (g_hooks s ! pos) \<noteq> enable
               then let (threads, sf) = Freeze e (Some pos) ACTION_ENABLE s; (st, se) = EnableHookLL e pos enable sf
                    in (st, Unfreeze e threads se)
               else (if enable then MH_ERROR_ENABLED else MH_ERROR_DISABLED, s)))"

definition MH_EnableHook :: "os \<Rightarrow> addr \<Rightarrow> MinHook \<Rightarrow> (MH_STATUS \<times> MinHook) option" where
  "MH_EnableHook e target = EnableHook e target True"

definition MH_DisableHook :: "os \<Rightarrow> addr \<Rightarrow> MinHook \<Rightarrow> (MH_STATUS \<times> MinHook) option" where
  "MH_DisableHook e target = EnableHook e target False"

definition QueueHook :: "addr \<Rightarrow> bool \<Rightarrow> MinHook \<Rightarrow> (MH_STATUS \<times> MinHook) option" where
  "QueueHook target q = under_lock (\<lambda>s. Some
     (if \<not> g_hHeap s then (MH_ERROR_NOT_INITIALIZED, s)
      else if target = 0 then (MH_OK, s\<lparr>g_hooks := map (\<lambda>h. h\<lparr>queueEnable := q\<rparr>) (g_hooks s)\<rparr>)
      else case FindHookEntry target s of
             None \<Rightarrow> (MH_ERROR_NOT_CREATED, s)
           | Some pos \<Rightarrow> (MH_OK, s\<lparr>g_hooks := (g_hooks s)[pos := (g_hooks s ! pos)\<lparr>queueEnable := q\<rparr>]\<rparr>)))"

definition MH_QueueEnableHook :: "addr \<Rightarrow> MinHook \<Rightarrow> (MH_STATUS \<times> MinHook) option" where
  "MH_QueueEnableHook target = QueueHook target True"

definition MH_QueueDisableHook :: "addr \<Rightarrow> MinHook \<Rightarrow> (MH_STATUS \<times> MinHook) option" where
  "MH_QueueDisableHook target = QueueHook target False"

definition MH_ApplyQueued :: "os \<Rightarrow> MinHook \<Rightarrow> (MH_STATUS \<times> MinHook) option" where
  "MH_ApplyQueued e = under_lock (\<lambda>s. Some
     (if g_hHeap s then apply_wanted e queueEnable ACTION_APPLY_QUEUED s else (MH_ERROR_NOT_INITIALIZED, s)))"

definition MH_CreateHookApiEx ::
  "('n \<Rightarrow> 'h option) \<Rightarrow> ('h \<Rightarrow> string \<Rightarrow> addr option) \<Rightarrow> os \<Rightarrow> 'n \<Rightarrow> string \<Rightarrow> addr \<Rightarrow> MinHook
     \<Rightarrow> ((MH_STATUS \<times> addr option \<times> addr option) \<times> MinHook) option" where
  "MH_CreateHookApiEx get_module get_proc e module proc_name detour s =
     (case get_module module of
        None \<Rightarrow> Some ((MH_ERROR_MODULE_NOT_FOUND, None, None), s)
      | Some h \<Rightarrow>
          (case get_proc h proc_name of
             None \<Rightarrow> Some ((MH_ERROR_FUNCTION_NOT_FOUND, None, None), s)
           | Some target \<Rightarrow> map_option (\<lambda>((st, orig), s'). ((st, orig, Some target), s')) (MH_CreateHook e target detour s)))"

definition MH_CreateHookApi ::
  "('n \<Rightarrow> 'h option) \<Rightarrow> ('h \<Rightarrow> string \<Rightarrow> addr option) \<Rightarrow> os \<Rightarrow> 'n \<Rightarrow> string \<Rightarrow> addr \<Rightarrow> MinHook
     \<Rightarrow> ((MH_STATUS \<times> addr option) \<times> MinHook) option" where
  "MH_CreateHookApi get_module get_proc e module proc_name detour s =
     map_option (\<lambda>((st, orig, _), s'). ((st, orig), s')) (MH_CreateHookApiEx get_module get_proc e module proc_name detour s)"

fun MH_StatusToString :: "MH_STATUS \<Rightarrow> string" where
  "MH_StatusToString MH_UNKNOWN = ''MH_UNKNOWN''"
| "MH_StatusToString MH_OK = ''MH_OK''"
| "MH_StatusToString MH_ERROR_ALREADY_INITIALIZED = ''MH_ERROR_ALREADY_INITIALIZED''"
| "MH_StatusToString MH_ERROR_NOT_INITIALIZED = ''MH_ERROR_NOT_INITIALIZED''"
| "MH_StatusToString MH_ERROR_ALREADY_CREATED = ''MH_ERROR_ALREADY_CREATED''"
| "MH_StatusToString MH_ERROR_NOT_CREATED = ''MH_ERROR_NOT_CREATED''"
| "MH_StatusToString MH_ERROR_ENABLED = ''MH_ERROR_ENABLED''"
| "MH_StatusToString MH_ERROR_DISABLED = ''MH_ERROR_DISABLED''"
| "MH_StatusToString MH_ERROR_NOT_EXECUTABLE = ''MH_ERROR_NOT_EXECUTABLE''"
| "MH_StatusToString MH_ERROR_UNSUPPORTED_FUNCTION = ''MH_ERROR_UNSUPPORTED_FUNCTION''"
| "MH_StatusToString MH_ERROR_MEMORY_ALLOC = ''MH_ERROR_MEMORY_ALLOC''"
| "MH_StatusToString MH_ERROR_MEMORY_PROTECT = ''MH_ERROR_MEMORY_PROTECT''"
| "MH_StatusToString MH_ERROR_MODULE_NOT_FOUND = ''MH_ERROR_MODULE_NOT_FOUND''"
| "MH_StatusToString MH_ERROR_FUNCTION_NOT_FOUND = ''MH_ERROR_FUNCTION_NOT_FOUND''"

end
