(* ===== verification/HookCode.thy ===== *)
theory HookCode
  imports HookTable "HOL-Library.Multiset"
begin

text \<open>
  What the hooking library does to the code of the process: an invariant of the table, the slots and the memory that every
  call of the interface keeps (\<open>hooks_ok\<close>), and what follows from it for any sequence of calls.
\<close>

section \<open>Only threads change\<close>

definition threads_only :: "MinHook \<Rightarrow> MinHook \<Rightarrow> bool" where
  "threads_only s s' \<longleftrightarrow> g_hooks s' = g_hooks s \<and> g_pMemoryBlocks s' = g_pMemoryBlocks s \<and> mem s' = mem s \<and> g_hHeap s' = g_hHeap s
     \<and> g_isLocked s' = g_isLocked s \<and> g_pItems s' = g_pItems s \<and> g_capacity s' = g_capacity s"

lemma threads_only_refl [simp]: "threads_only s s"
  by (simp add: threads_only_def)

lemma threads_only_trans: "threads_only s s' \<Longrightarrow> threads_only s' s'' \<Longrightarrow> threads_only s s''"
  by (simp add: threads_only_def)

lemma threads_only_fold: "(\<And>t s. threads_only s (f t s)) \<Longrightarrow> threads_only s (fold f ts s)"
proof (induction ts arbitrary: s)
  case (Cons t ts)
  then show ?case using threads_only_trans by fastforce
qed simp

lemma freeze_thread_only: "threads_only s (freeze_thread e pos a tid s)"
  by (simp add: threads_only_def freeze_thread_def ProcessThreadIPs_def Let_def)

lemma Freeze_threads: "Freeze e pos a s = (ts, s') \<Longrightarrow> threads_only s s'"
  by (auto simp: Freeze_def Let_def split: option.splits intro: threads_only_fold freeze_thread_only)

lemma Unfreeze_threads: "threads_only s (Unfreeze e ts s)"
proof -
  have "threads_only s (unfreeze_thread e t s)" for t s
    by (simp add: unfreeze_thread_def threads_only_def)
  then show ?thesis by (auto simp: Unfreeze_def split: option.splits intro: threads_only_fold)
qed

section \<open>The hooked code\<close>

text \<open>The bytes of an enabled hook, and the addresses they take.\<close>

definition patch_bytes :: "HOOK_ENTRY \<Rightarrow> byte list" where
  "patch_bytes h = jmp_rel 0xE9 (pDetour h) (patch_target h) @ (if patchAbove h then jmp_rel_short 0xF9 else [])"

definition patch_area :: "HOOK_ENTRY \<Rightarrow> addr set" where
  "patch_area h = span (patch_target h) (patch_size h)"

definition window :: "addr \<Rightarrow> addr set" where
  "window t = span (t - 5) 10"

lemma length_patch_bytes [simp]: "length (patch_bytes h) = patch_size h"
  by (simp add: patch_bytes_def patch_size_def)

lemma patch_area_window: "patch_area h \<subseteq> window (pTarget h)"
  using span_sub [of 5 5 10 "pTarget h - 5"] span_sub [of 0 7 10 "pTarget h - 5"]
  by (simp add: patch_area_def window_def patch_target_def patch_size_def)

lemma poke_append: "length xs + length ys < 2 ^ 32 \<Longrightarrow> poke (a + word_of_nat (length xs)) ys (poke a xs m) = poke a (xs @ ys) m"
proof
  fix x assume len: "length xs + length ys < 2 ^ 32"
  have n: "unat (word_of_nat (length xs) :: addr) = length xs" using len by (simp add: unat_addr)
  have e: "x - (a + word_of_nat (length xs)) = (x - a) - word_of_nat (length xs)" by simp
  have "unat (x - (a + word_of_nat (length xs))) =
      (if length xs \<le> unat (x - a) then unat (x - a) - length xs else unat (x - a) + 2 ^ 32 - length xs)"
    unfolding e unat_sub_if_size n by (simp add: word_size)
  then show "poke (a + word_of_nat (length xs)) ys (poke a xs m) x = poke a (xs @ ys) m x"
    using len by (auto simp: poke_def nth_append)
qed

definition world :: "addr set \<Rightarrow> addr set \<Rightarrow> bool" where
  "world T R \<longleftrightarrow> (\<forall>t \<in> T. \<forall>t' \<in> T. t \<noteq> t' \<longrightarrow> window t \<inter> window t' = {}) \<and> (\<forall>t \<in> T. window t \<inter> R = {})"

definition hook_ok :: "memory \<Rightarrow> memory \<Rightarrow> HOOK_ENTRY \<Rightarrow> bool" where
  "hook_ok m0 m h \<longleftrightarrow> backup h = peek m0 (patch_target h) (patch_size h)
     \<and> peek m (patch_target h) (patch_size h) = (if isEnabled h then patch_bytes h else backup h)"

definition code_ok :: "addr set \<Rightarrow> addr set \<Rightarrow> memory \<Rightarrow> memory \<Rightarrow> HOOK_ENTRY list \<Rightarrow> bool" where
  "code_ok T R m0 m hs \<longleftrightarrow> distinct (map pTarget hs) \<and> (\<forall>h \<in> set hs. pTarget h \<in> T \<and> hook_ok m0 m h)
     \<and> (\<forall>x. x \<notin> R \<and> (\<forall>h \<in> set hs. x \<notin> patch_area h) \<longrightarrow> m x = m0 x)"

definition slots_ok :: "addr set \<Rightarrow> MEMORY_BLOCK list \<Rightarrow> HOOK_ENTRY list \<Rightarrow> bool" where
  "slots_ok R bs hs \<longleftrightarrow> blocks_ok bs \<and> (\<forall>b \<in> set bs. span (block_addr b) MEMORY_BLOCK_SIZE \<subseteq> R)
     \<and> distinct (map pTrampoline hs) \<and> pTrampoline ` set hs = live_slots bs"

definition hooks_ok :: "addr set \<Rightarrow> addr set \<Rightarrow> memory \<Rightarrow> MinHook \<Rightarrow> bool" where
  "hooks_ok T R m0 s \<longleftrightarrow> code_ok T R m0 (mem s) (g_hooks s) \<and> slots_ok R (g_pMemoryBlocks s) (g_hooks s)
     \<and> (\<not> g_hHeap s \<longrightarrow> g_hooks s = [] \<and> g_pMemoryBlocks s = [])"

lemma hooks_ok_threads: "threads_only s s' \<Longrightarrow> hooks_ok T R m0 s' = hooks_ok T R m0 s"
  by (simp add: threads_only_def hooks_ok_def)

lemma EnableHookLL_mem:
  assumes "EnableHookLL e pos enable s = (MH_OK, s')" "hook_ok m0 (mem s) (g_hooks s ! pos)"
  shows "mem s' = poke (patch_target (g_hooks s ! pos)) (if enable then patch_bytes (g_hooks s ! pos) else backup (g_hooks s ! pos)) (mem s)"
proof -
  let ?h = "g_hooks s ! pos"
  let ?j = "jmp_rel 0xE9 (pDetour ?h) (pTarget ?h - 5)"
  have "poke (pTarget ?h) (jmp_rel_short 0xF9) (poke (pTarget ?h - 5) ?j (mem s)) = poke (pTarget ?h - 5) (?j @ jmp_rel_short 0xF9) (mem s)"
    using poke_append [of ?j "jmp_rel_short 0xF9" "pTarget ?h - 5" "mem s"] by simp
  moreover have "jmp_rel_short (- 7) = jmp_rel_short 0xF9" by (simp add: jmp_rel_short_def)
  moreover have "length (backup ?h) = patch_size ?h" using assms(2) by (simp add: hook_ok_def)
  ultimately show ?thesis
    using assms(1) unfolding EnableHookLL_def Let_def patch_bytes_def patch_target_def by (auto split: if_splits)
qed

lemma EnableHookLL_table:
  assumes "EnableHookLL e pos enable s = (st, s')"
  shows "if st = MH_OK then s' = s\<lparr>mem := mem s', g_hooks := (g_hooks s)[pos := (g_hooks s ! pos)\<lparr>isEnabled := enable, queueEnable := enable\<rparr>]\<rparr>
    else st = MH_ERROR_MEMORY_PROTECT \<and> s' = s"
  using assms by (auto simp: EnableHookLL_def Let_def split: if_splits)

text \<open>Two hooks never patch a byte of each other.\<close>

lemma areas_apart:
  assumes "world T R" "code_ok T R m0 m hs" "i < length hs" "j < length hs" "i \<noteq> j"
  shows "patch_area (hs ! i) \<inter> patch_area (hs ! j) = {}"
proof -
  have "pTarget (hs ! i) \<noteq> pTarget (hs ! j)" using assms(2-5) by (simp add: code_ok_def distinct_conv_nth)
  moreover have "pTarget (hs ! i) \<in> T" "pTarget (hs ! j) \<in> T" using assms(2-4) by (simp_all add: code_ok_def)
  ultimately have "window (pTarget (hs ! i)) \<inter> window (pTarget (hs ! j)) = {}" using assms(1) by (simp add: world_def)
  then show ?thesis using patch_area_window by blast
qed

lemma hook_flags [simp]:
  "patch_target (h\<lparr>isEnabled := a, queueEnable := b\<rparr>) = patch_target h" "patch_size (h\<lparr>isEnabled := a, queueEnable := b\<rparr>) = patch_size h"
  "patch_bytes (h\<lparr>isEnabled := a, queueEnable := b\<rparr>) = patch_bytes h" "patch_area (h\<lparr>isEnabled := a, queueEnable := b\<rparr>) = patch_area h"
  by (simp_all add: patch_target_def patch_size_def patch_bytes_def patch_area_def)

lemma patch_size_small: "patch_size h \<le> 2 ^ 32"
  by (simp add: patch_size_def)

lemma hook_ok_outside:
  assumes "hook_ok m0 m h" "\<And>x. x \<in> patch_area h \<Longrightarrow> m' x = m x"
  shows "hook_ok m0 m' h"
  using assms(1) peek_eq [of "patch_target h" "patch_size h" m' m] assms(2) patch_size_small [of h]
  by (simp add: hook_ok_def patch_area_def)

lemma all_update:
  assumes "P v" "\<And>j. j < length xs \<Longrightarrow> j \<noteq> i \<Longrightarrow> P (xs ! j)"
  shows "\<forall>k \<in> set (xs[i := v]). P k"
  using assms by (metis in_set_conv_nth length_list_update nth_list_update_eq nth_list_update_neq)

lemma map_update_same: "i < length xs \<Longrightarrow> f v = f (xs ! i) \<Longrightarrow> map f (xs[i := v]) = map f xs"
  by (simp add: map_update list_update_same_conv)

lemma code_ok_patch:
  assumes "world T R" "code_ok T R m0 m hs" "pos < length hs"
    "bs = (if enable then patch_bytes (hs ! pos) else backup (hs ! pos))"
  shows "code_ok T R m0 (poke (patch_target (hs ! pos)) bs m) (hs[pos := (hs ! pos)\<lparr>isEnabled := enable, queueEnable := q\<rparr>])"
    (is "code_ok T R m0 ?m ?hs")
proof -
  let ?h = "hs ! pos"
  have h: "hook_ok m0 m ?h" "pTarget ?h \<in> T" using assms(2,3) by (simp_all add: code_ok_def)
  have len: "length bs = patch_size ?h" using h(1) assms(4) by (simp add: hook_ok_def)
  have out: "?m x = m x" if "x \<notin> patch_area ?h" for x
    using that poke_outside [of x "patch_target ?h" bs] by (simp add: len patch_area_def)
  have "peek ?m (patch_target ?h) (patch_size ?h) = bs" using peek_poke [of bs "patch_target ?h" m] patch_size_small [of ?h] by (simp add: len)
  then have "hook_ok m0 ?m (?h\<lparr>isEnabled := enable, queueEnable := q\<rparr>)" using h(1) assms(4) by (simp add: hook_ok_def)
  moreover have "pTarget (hs ! i) \<in> T \<and> hook_ok m0 ?m (hs ! i)" if i: "i < length hs" "i \<noteq> pos" for i
  proof -
    have "?m x = m x" if "x \<in> patch_area (hs ! i)" for x using that out areas_apart [OF assms(1,2) i(1) assms(3) i(2)] by blast
    then show ?thesis using assms(2) i(1) hook_ok_outside [of m0 m "hs ! i"] by (simp add: code_ok_def)
  qed
  ultimately have "\<forall>k \<in> set ?hs. pTarget k \<in> T \<and> hook_ok m0 ?m k" using h(2) by (intro all_update) simp_all
  moreover have "?m x = m0 x" if "x \<notin> R" "\<forall>k \<in> set ?hs. x \<notin> patch_area k" for x
  proof -
    have "set (map patch_area ?hs) = set (map patch_area hs)" using assms(3) by (simp only: map_update_same hook_flags)
    then have "\<forall>k \<in> set hs. x \<notin> patch_area k" using that(2) by (metis (mono_tags, lifting) imageE imageI list.set_map)
    then show ?thesis using that(1) out assms(2,3) by (simp add: code_ok_def)
  qed
  moreover have "map pTarget ?hs = map pTarget hs" using assms(3) by (simp add: map_update_same)
  ultimately show ?thesis using assms(2) by (simp add: code_ok_def)
qed

lemma EnableHookLL_ok:
  assumes "world T R" "hooks_ok T R m0 s" "pos < length (g_hooks s)" "EnableHookLL e pos enable s = (st, s')"
  shows "hooks_ok T R m0 s'" "length (g_hooks s') = length (g_hooks s)"
proof -
  note t = EnableHookLL_table [OF assms(4)]
  show "length (g_hooks s') = length (g_hooks s)" using t by (cases "st = MH_OK") (auto dest: arg_cong [where f = g_hooks])
  show "hooks_ok T R m0 s'"
  proof (cases "st = MH_OK")
    case True
    let ?h = "g_hooks s ! pos"
    have h: "hook_ok m0 (mem s) ?h" using assms(2,3) by (simp add: hooks_ok_def code_ok_def)
    have s': "s' = s\<lparr>mem := mem s', g_hooks := (g_hooks s)[pos := ?h\<lparr>isEnabled := enable, queueEnable := enable\<rparr>]\<rparr>" using t True by simp
    then have f: "g_hooks s' = (g_hooks s)[pos := ?h\<lparr>isEnabled := enable, queueEnable := enable\<rparr>]" "g_pMemoryBlocks s' = g_pMemoryBlocks s" "g_hHeap s' = g_hHeap s"
      by (metis MinHook.select_convs MinHook.surjective MinHook.update_convs)+
    have "code_ok T R m0 (mem s') (g_hooks s')"
      unfolding f(1) EnableHookLL_mem [OF assms(4) [unfolded True] h] using code_ok_patch assms(1-3) by (simp add: hooks_ok_def)
    moreover have "map pTrampoline (g_hooks s') = map pTrampoline (g_hooks s)" unfolding f(1) using assms(3) by (simp add: map_update_same)
    then have "slots_ok R (g_pMemoryBlocks s') (g_hooks s')"
      using assms(2) unfolding hooks_ok_def slots_ok_def f(2) by (metis list.set_map)
    ultimately show ?thesis using assms(2) f(2,3) f(1) by (auto simp: hooks_ok_def)
  qed (use t assms(2) in simp)
qed

lemma first_filter:
  assumes "filter P [0..<n] = i # is"
  shows "i < n \<and> P i \<and> (\<forall>j < i. \<not> P j)"
proof -
  from filter_eq_ConsD [OF assms] obtain us vs where u: "[0..<n] = us @ i # vs" "\<forall>u \<in> set us. \<not> P u" "P i" by blast
  have l: "length us < n" using arg_cong [OF u(1), of length] by simp
  have n: "us ! j = j" if "j < length us" for j using arg_cong [OF u(1), of "\<lambda>l. l ! j"] that l by (simp add: nth_append)
  have "i = length us" using arg_cong [OF u(1), of "\<lambda>l. l ! length us"] l by simp
  then show ?thesis using u(2,3) l n by (metis nth_mem)
qed

lemma EnableHookLL_length: "EnableHookLL e pos enable s = (st, s') \<Longrightarrow> length (g_hooks s') = length (g_hooks s)"
  by (auto simp: EnableHookLL_def Let_def split: if_splits)

lemma enable_each_length: "enable_each e want is s = (st, s') \<Longrightarrow> length (g_hooks s') = length (g_hooks s)"
proof (induction "is" arbitrary: s)
  case (Cons i "is")
  then show ?case by (auto simp: Let_def split: if_splits prod.splits dest: EnableHookLL_length)
qed simp

lemma enable_each_ok:
  assumes "world T R" "hooks_ok T R m0 s" "\<forall>i \<in> set is. i < length (g_hooks s)" "enable_each e want is s = (st, s')"
  shows "hooks_ok T R m0 s' \<and> length (g_hooks s') = length (g_hooks s)"
  using assms(2-)
proof (induction "is" arbitrary: s)
  case (Cons i "is")
  show ?case
  proof (cases "isEnabled (g_hooks s ! i) \<noteq> want (g_hooks s ! i)")
    case True
    obtain st1 s1 where 1: "EnableHookLL e i (want (g_hooks s ! i)) s = (st1, s1)" by fastforce
    note ok = EnableHookLL_ok [OF assms(1) Cons.prems(1) _ 1]
    show ?thesis
    proof (cases "st1 = MH_OK")
      case True
      then have "enable_each e want is s1 = (st, s')" using Cons.prems(3) \<open>isEnabled _ \<noteq> _\<close> 1 by simp
      then show ?thesis using Cons.IH [of s1] Cons.prems(2) ok by simp
    next
      case False
      then show ?thesis using Cons.prems(2,3) \<open>isEnabled _ \<noteq> _\<close> 1 ok by simp
    qed
  qed (use Cons in simp)
qed simp

text \<open>If the loop does not fail, the hooks it went through are as they were wanted, the others as they were.\<close>

lemma enable_each_flags:
  assumes "enable_each e (\<lambda>_. en) is s = (MH_OK, s')" "\<forall>i \<in> set is. i < length (g_hooks s)"
  shows "\<forall>j < length (g_hooks s). isEnabled (g_hooks s' ! j) = (if j \<in> set is then en else isEnabled (g_hooks s ! j))"
  using assms
proof (induction "is" arbitrary: s)
  case (Cons i "is")
  obtain st1 s1 where 1: "EnableHookLL e i en s = (st1, s1)" by fastforce
  show ?case
  proof (cases "isEnabled (g_hooks s ! i) \<noteq> en")
    case True
    then have ok: "st1 = MH_OK" "enable_each e (\<lambda>_. en) is s1 = (MH_OK, s')" using Cons.prems(1) 1 by (auto split: if_splits)
    have "s1 = s\<lparr>mem := mem s1, g_hooks := (g_hooks s)[i := (g_hooks s ! i)\<lparr>isEnabled := en, queueEnable := en\<rparr>]\<rparr>"
      using EnableHookLL_table [OF 1] ok(1) by simp
    then have g: "g_hooks s1 = (g_hooks s)[i := (g_hooks s ! i)\<lparr>isEnabled := en, queueEnable := en\<rparr>]"
      by (metis MinHook.select_convs MinHook.surjective MinHook.update_convs)
    then have "\<forall>j < length (g_hooks s). isEnabled (g_hooks s' ! j) = (if j \<in> set is then en else isEnabled (g_hooks s1 ! j))"
      using Cons.IH [OF ok(2)] Cons.prems(2) by simp
    then show ?thesis using g by (auto simp: nth_list_update)
  next
    case False
    then show ?thesis using Cons by auto
  qed
qed simp

lemma apply_wanted_ok:
  assumes "world T R" "hooks_ok T R m0 s" "apply_wanted e want a s = (st, s')"
  shows "hooks_ok T R m0 s'"
proof (cases "filter (\<lambda>i. isEnabled (g_hooks s ! i) \<noteq> want (g_hooks s ! i)) [0..<length (g_hooks s)]")
  case Nil
  then show ?thesis using assms(2,3) by (simp add: apply_wanted_def)
next
  case (Cons i "is")
  obtain ts s1 where 1: "Freeze e None a s = (ts, s1)" by fastforce
  obtain st2 s2 where 2: "enable_each e want [i..<length (g_hooks s1)] s1 = (st2, s2)" by fastforce
  have "hooks_ok T R m0 s1" using hooks_ok_threads [OF Freeze_threads [OF 1]] assms(2) by simp
  then have "hooks_ok T R m0 s2" using enable_each_ok [OF assms(1) _ _ 2] by simp
  moreover have "s' = Unfreeze e ts s2" using assms(3) Cons 1 2 by (simp add: apply_wanted_def)
  ultimately show ?thesis using hooks_ok_threads [OF Unfreeze_threads] by simp
qed

lemma EnableAllHooksLL_flags:
  assumes "EnableAllHooksLL e en s = (MH_OK, s')"
  shows "\<forall>h \<in> set (g_hooks s'). isEnabled h = en"
proof (cases "filter (\<lambda>i. isEnabled (g_hooks s ! i) \<noteq> en) [0..<length (g_hooks s)]")
  case Nil
  then have "s' = s" "\<forall>i < length (g_hooks s). isEnabled (g_hooks s ! i) = en"
    using assms by (auto simp: EnableAllHooksLL_def apply_wanted_def filter_empty_conv)
  then show ?thesis by (metis in_set_conv_nth)
next
  case (Cons i "is")
  let ?a = "if en then ACTION_ENABLE else ACTION_DISABLE"
  obtain ts s1 where 1: "Freeze e None ?a s = (ts, s1)" by fastforce
  obtain st2 s2 where 2: "enable_each e (\<lambda>_. en) [i..<length (g_hooks s1)] s1 = (st2, s2)" by fastforce
  have r: "st2 = MH_OK" "s' = Unfreeze e ts s2"
    using assms Cons 1 2 by (simp_all add: EnableAllHooksLL_def apply_wanted_def)
  have g: "g_hooks s1 = g_hooks s" "g_hooks s' = g_hooks s2"
    using Freeze_threads [OF 1] Unfreeze_threads [of s2 e ts] r(2) by (simp_all add: threads_only_def)
  have i: "isEnabled (g_hooks s ! j) = en" if "j < i" for j using first_filter [OF Cons] that by simp
  have "isEnabled (g_hooks s2 ! j) = en" if "j < length (g_hooks s)" for j
    using enable_each_flags [OF 2 [unfolded r(1)]] that i [of j] by (cases "j < i") (auto simp: g(1))
  then show ?thesis
    using enable_each_length [OF 2] by (auto simp: g in_set_conv_nth)
qed

section \<open>Entries come and go\<close>

lemma peek_span:
  assumes "peek m a n = peek m' a n" "x \<in> span a n"
  shows "m x = m' x"
proof -
  have "peek m a n ! unat (x - a) = peek m' a n ! unat (x - a)" using assms(1) by simp
  then show ?thesis using assms(2) by (simp add: span_def)
qed

lemma code_ok_drop:
  assumes "code_ok T R m0 m (h # hs)" "\<not> isEnabled h"
  shows "code_ok T R m0 m hs"
proof -
  have "m x = m0 x" if "x \<in> patch_area h" for x
    using assms that peek_span [of m "patch_target h" "patch_size h" m0 x] by (simp add: code_ok_def hook_ok_def patch_area_def)
  then show ?thesis using assms(1) unfolding code_ok_def by auto
qed

lemma code_ok_all_disabled: "code_ok T R m0 m hs \<Longrightarrow> \<forall>h \<in> set hs. \<not> isEnabled h \<Longrightarrow> code_ok T R m0 m []"
proof (induction hs)
  case (Cons h hs)
  then show ?case using code_ok_drop [of T R m0 m h hs] by simp
qed simp

lemma code_ok_mset: "mset hs = mset hs' \<Longrightarrow> code_ok T R m0 m hs = code_ok T R m0 m hs'"
  using mset_eq_setD [of hs hs'] mset_eq_imp_distinct_iff [of "map pTarget hs" "map pTarget hs'"] by (simp add: code_ok_def)

lemma slots_ok_mset: "mset hs = mset hs' \<Longrightarrow> slots_ok R bs hs = slots_ok R bs hs'"
  using mset_eq_setD [of hs hs'] mset_eq_imp_distinct_iff [of "map pTrampoline hs" "map pTrampoline hs'"] by (simp add: slots_ok_def)

definition without :: "nat \<Rightarrow> 'a list \<Rightarrow> 'a list" where
  "without pos xs = butlast (if pos < length xs - 1 then xs[pos := last xs] else xs)"

lemma mset_without: "pos < length xs \<Longrightarrow> mset xs = mset (xs ! pos # without pos xs)"
proof -
  assume p: "pos < length xs"
  then obtain ys y where xs: "xs = ys @ [y]" by (cases xs rule: rev_cases) auto
  show ?thesis
  proof (cases "pos < length ys")
    case True
    have "mset (ys[pos := y]) = add_mset y (mset ys - {#ys ! pos#})" using True by (simp add: mset_update)
    moreover have "ys ! pos \<in># mset ys" using True by simp
    ultimately show ?thesis using True by (simp add: xs without_def nth_append list_update_append)
  next
    case False
    then have "pos = length ys" using p xs by simp
    then show ?thesis by (simp add: xs without_def)
  qed
qed

lemma DeleteHookEntry_fields:
  "g_hooks (DeleteHookEntry e pos s) = without pos (g_hooks s)" "g_pMemoryBlocks (DeleteHookEntry e pos s) = g_pMemoryBlocks s"
  "mem (DeleteHookEntry e pos s) = mem s" "g_hHeap (DeleteHookEntry e pos s) = g_hHeap s"
  by (simp_all add: DeleteHookEntry_def without_def Let_def)

lemma room_in_page:
  assumes "blocks_ok bs" "s \<in> live_slots bs" "\<forall>b \<in> set bs. span (block_addr b) MEMORY_BLOCK_SIZE \<subseteq> R"
  shows "room s \<subseteq> R"
proof -
  obtain b i where b: "b \<in> set bs" "i < 127" "s = slot (block_addr b) i"
    using assms(2) by (auto simp: live_slots_def block_live_def slots_def)
  have "span (block_addr b + word_of_nat (32 * Suc i)) 32 \<subseteq> span (block_addr b) 4096"
    using b(2) by (intro span_sub) (simp add: unat_addr del: mult_Suc_right of_nat_Suc of_nat_mult)
  then show ?thesis
    using b assms(3) by (simp add: room_span slot_def MEMORY_SLOT_SIZE_def MEMORY_BLOCK_SIZE_def) blast
qed

lemma AllocateBuffer_addrs:
  assumes "AllocateBuffer v bs = Some (s, bs')"
  shows "block_addr ` set bs' \<subseteq> block_addr ` set bs \<union> set_option v"
proof (cases "find_free bs")
  case (Some i)
  then have i: "i < length bs" using find_free_Some by blast
  have "map block_addr bs' = map block_addr bs" using assms Some i by (auto simp: AllocateBuffer_def GetMemoryBlock_def Let_def map_update_same)
  then show ?thesis by (metis Un_upper1 list.set_map)
next
  case None
  then show ?thesis using assms by (auto simp: AllocateBuffer_def GetMemoryBlock_def Let_def split: option.splits)
qed

section \<open>Every call keeps the order\<close>

text \<open>What the operating system promises: a new block is a free page, outside the code that is hooked.\<close>

definition os_ok :: "addr set \<Rightarrow> os \<Rightarrow> MinHook \<Rightarrow> bool" where
  "os_ok R e s \<longleftrightarrow> (\<forall>a. os_VirtualAlloc e = Some a \<longrightarrow> fresh_page a (g_pMemoryBlocks s) \<and> span a MEMORY_BLOCK_SIZE \<subseteq> R)"

lemma allocate_slots:
  assumes "slots_ok R (g_pMemoryBlocks s) hs" "os_ok R e s" "AllocateBuffer (os_VirtualAlloc e) (g_pMemoryBlocks s) = Some (buf, bs)"
  shows "blocks_ok bs" "\<forall>b \<in> set bs. span (block_addr b) MEMORY_BLOCK_SIZE \<subseteq> R" "buf \<notin> pTrampoline ` set hs"
    "live_slots bs = insert buf (pTrampoline ` set hs)" "room buf \<subseteq> R" "slots_ok R (FreeBuffer buf bs) hs"
proof -
  have ok: "blocks_ok bs" "buf \<notin> live_slots (g_pMemoryBlocks s)" "live_slots bs = insert buf (live_slots (g_pMemoryBlocks s))"
    using buf.alloc_ok [OF _ _ assms(3)] assms(1,2) by (auto simp: slots_ok_def os_ok_def)
  show "blocks_ok bs" "buf \<notin> pTrampoline ` set hs" "live_slots bs = insert buf (pTrampoline ` set hs)"
    using ok assms(1) by (simp_all add: slots_ok_def)
  show page: "\<forall>b \<in> set bs. span (block_addr b) MEMORY_BLOCK_SIZE \<subseteq> R"
  proof
    fix b assume "b \<in> set bs"
    then have "block_addr b \<in> block_addr ` set (g_pMemoryBlocks s) \<or> os_VirtualAlloc e = Some (block_addr b)"
      using AllocateBuffer_addrs [OF assms(3)] by (auto simp: elem_set)
    then show "span (block_addr b) MEMORY_BLOCK_SIZE \<subseteq> R"
      using assms(1,2) unfolding slots_ok_def os_ok_def by (elim disjE imageE) simp_all
  qed
  show "room buf \<subseteq> R" using room_in_page [OF ok(1) _ page] ok(3) by blast
  have "blocks_ok (FreeBuffer buf bs)" "live_slots (FreeBuffer buf bs) = live_slots (g_pMemoryBlocks s)"
    using buf.release_ok [OF ok(1), of buf] ok(2,3) by auto
  moreover have "\<forall>b \<in> set (FreeBuffer buf bs). span (block_addr b) MEMORY_BLOCK_SIZE \<subseteq> R"
  proof
    fix b assume "b \<in> set (FreeBuffer buf bs)"
    then have "block_addr b \<in> block_addr ` set bs" using FreeBuffer_addrs [of buf bs] by blast
    then show "span (block_addr b) MEMORY_BLOCK_SIZE \<subseteq> R" using page by (elim imageE) simp
  qed
  ultimately show "slots_ok R (FreeBuffer buf bs) hs" using assms(1) by (simp add: slots_ok_def)
qed

text \<open>A hook that was just created.\<close>

lemma area_outside: "world T R \<Longrightarrow> pTarget h \<in> T \<Longrightarrow> x \<in> patch_area h \<Longrightarrow> x \<notin> R"
  using patch_area_window [of h] unfolding world_def by blast

lemma code_ok_outside:
  assumes "world T R" "code_ok T R m0 m hs" "\<And>x. x \<notin> R \<Longrightarrow> m' x = m x"
  shows "code_ok T R m0 m' hs"
  using assms(2,3) hook_ok_outside [of m0 m _ m'] area_outside [OF assms(1)] by (auto simp: code_ok_def)

text \<open>Around a function that is not hooked nothing has changed.\<close>

lemma window_original:
  assumes "world T R" "code_ok T R m0 m hs" "t \<in> T" "t \<notin> pTarget ` set hs" "x \<in> window t"
  shows "m x = m0 x"
proof -
  have "x \<notin> patch_area h" if "h \<in> set hs" for h
  proof -
    have "pTarget h \<in> T" "pTarget h \<noteq> t" using that assms(2,4) by (auto simp: code_ok_def)
    then have "window (pTarget h) \<inter> window t = {}" using assms(1,3) by (simp add: world_def)
    then show ?thesis using assms(5) patch_area_window [of h] by auto
  qed
  moreover have "x \<notin> R" using assms(1,3,5) unfolding world_def by blast
  ultimately show ?thesis using assms(2) by (simp add: code_ok_def)
qed

lemma code_ok_new:
  assumes "world T R" "code_ok T R m0 m hs" "t \<in> T" "t \<notin> pTarget ` set hs" "ct_pTarget ct = t"
  shows "code_ok T R m0 m (hs @ [new_hook ct m])"
proof -
  let ?h = "new_hook ct m"
  have t: "pTarget ?h = t" "isEnabled ?h = False" "backup ?h = peek m (patch_target ?h) (patch_size ?h)"
    using assms(5) by (simp_all add: new_hook_def patch_target_def patch_size_def)
  have "m x = m0 x" if "x \<in> patch_area ?h" for x
    using window_original [OF assms(1-4)] patch_area_window [of ?h] t(1) that by blast
  then have "backup ?h = peek m0 (patch_target ?h) (patch_size ?h)"
    unfolding t(3) by (intro peek_eq patch_size_small) (simp add: patch_area_def)
  then have "hook_ok m0 m ?h" using t by (simp add: hook_ok_def)
  then show ?thesis using assms(2,3,4) t(1) by (auto simp: code_ok_def)
qed

lemma AddHookEntry_fields:
  assumes "AddHookEntry e h s = (added, s')"
  shows "g_hooks s' = (if added then g_hooks s @ [h] else g_hooks s)" "g_pMemoryBlocks s' = g_pMemoryBlocks s" "mem s' = mem s"
    "g_hHeap s' = g_hHeap s"
  using assms by (auto simp: AddHookEntry_def Let_def split: if_splits)

definition ready :: "addr set \<Rightarrow> addr set \<Rightarrow> memory \<Rightarrow> MinHook \<Rightarrow> bool" where
  "ready T R m0 s \<longleftrightarrow> \<not> g_isLocked s \<and> hooks_ok T R m0 s"

lemma under_lock_ready:
  assumes "ready T R m0 s" "\<And>s1. s1 = s\<lparr>g_isLocked := True\<rparr> \<Longrightarrow> hooks_ok T R m0 s1 \<Longrightarrow> \<exists>r s2. f s1 = Some (r, s2) \<and> hooks_ok T R m0 s2"
  shows "\<exists>r s'. under_lock f s = Some (r, s') \<and> ready T R m0 s'"
proof -
  have "hooks_ok T R m0 (s\<lparr>g_isLocked := True\<rparr>)" using assms(1) by (simp add: ready_def hooks_ok_def)
  from assms(2) [OF refl this] obtain r s2 where "f (s\<lparr>g_isLocked := True\<rparr>) = Some (r, s2)" "hooks_ok T R m0 s2" by blast
  then show ?thesis
    using assms(1) by (simp add: under_lock_def EnterSpinLock_def LeaveSpinLock_def ready_def hooks_ok_def)
qed

lemma FindHookEntry_None: "FindHookEntry t s = None \<Longrightarrow> t \<notin> pTarget ` set (g_hooks s)"
  by (force simp: FindHookEntry_def filter_empty_conv in_set_conv_nth split: list.splits)

lemma FindHookEntry_Some: "FindHookEntry t s = Some i \<Longrightarrow> i < length (g_hooks s) \<and> pTarget (g_hooks s ! i) = t"
  by (auto simp: FindHookEntry_def split: list.splits dest: first_filter)

lemma MH_Initialize_ready: "ready T R m0 s \<Longrightarrow> \<exists>r s'. MH_Initialize e s = Some (r, s') \<and> ready T R m0 s'"
  unfolding MH_Initialize_def by (rule under_lock_ready) (auto simp: hooks_ok_def)

lemma EnableAllHooksLL_ok:
  assumes "world T R" "hooks_ok T R m0 s" "EnableAllHooksLL e en s = (st, s')"
  shows "hooks_ok T R m0 s'" "st = MH_OK \<Longrightarrow> \<not> en \<Longrightarrow> code_ok T R m0 (mem s') []"
proof -
  show ok: "hooks_ok T R m0 s'" by (rule apply_wanted_ok [OF assms(1,2) assms(3) [unfolded EnableAllHooksLL_def]])
  show "code_ok T R m0 (mem s') []" if "st = MH_OK" "\<not> en"
    using code_ok_all_disabled [of T R m0 "mem s'" "g_hooks s'"] EnableAllHooksLL_flags [of e en s s'] assms(3) ok that by (simp add: hooks_ok_def)
qed

lemma MH_Uninitialize_ready:
  assumes "world T R" "ready T R m0 s"
  shows "\<exists>r s'. MH_Uninitialize e s = Some (r, s') \<and> ready T R m0 s'"
  unfolding MH_Uninitialize_def
proof (rule under_lock_ready [OF assms(2)], goal_cases)
  case (1 s1)
  obtain st s2 where 2: "EnableAllHooksLL e False s1 = (st, s2)" by fastforce
  from EnableAllHooksLL_ok [OF assms(1) 1(2) 2] 1(2) 2 show ?case
    by (auto simp: hooks_ok_def UninitializeBuffer_def slots_ok_def blocks_ok_def live_slots_def)
qed

lemma MH_CreateHook_ready:
  assumes "world T R" "ready T R m0 s" "os_ok R e s" "t \<in> T"
  shows "\<exists>r s'. MH_CreateHook e t d s = Some (r, s') \<and> ready T R m0 s'"
  unfolding MH_CreateHook_def
proof (rule under_lock_ready [OF assms(2)], goal_cases)
  case (1 s1)
  have os: "os_ok R e s1" using assms(3) 1(1) by (simp add: os_ok_def)
  have c: "code_ok T R m0 (mem s1) (g_hooks s1)" "slots_ok R (g_pMemoryBlocks s1) (g_hooks s1)" using 1(2) by (simp_all add: hooks_ok_def)
  show ?case
  proof (cases "g_hHeap s1 \<and> os_IsExecutable e t \<and> os_IsExecutable e d \<and> FindHookEntry t s1 = None \<and> AllocateBuffer (os_VirtualAlloc e) (g_pMemoryBlocks s1) \<noteq> None")
    case False
    then show ?thesis using 1(2) by (cases "AllocateBuffer (os_VirtualAlloc e) (g_pMemoryBlocks s1)") auto
  next
    case True
    then obtain buf bs where a: "AllocateBuffer (os_VirtualAlloc e) (g_pMemoryBlocks s1) = Some (buf, bs)" by auto
    let ?ct = "\<lparr>ct_pTarget = t, ct_pDetour = d, ct_pTrampoline = buf, ct_patchAbove = False, ct_oldIPs = [], ct_newIPs = []\<rparr>"
    obtain ok ct m where ct: "CreateTrampolineFunction (os_IsExecutable e) (mem s1) ?ct = Some (ok, ct, m)"
      "\<forall>x. x \<notin> room buf \<longrightarrow> m x = mem s1 x" "ok \<longrightarrow> kept ?ct ct"
      using CreateTrampolineFunction_ok [of "os_IsExecutable e" "mem s1" ?ct] by auto
    note al = allocate_slots [OF c(2) os a]
    have m: "m x = mem s1 x" if "x \<notin> R" for x using ct(2) al(5) that by blast
    obtain added s3 where s3: "AddHookEntry e (new_hook ct m) (s1\<lparr>g_pMemoryBlocks := bs, mem := m\<rparr>) = (added, s3)" by fastforce
    note f = AddHookEntry_fields [OF s3]
    have code: "code_ok T R m0 m (g_hooks s1)" using code_ok_outside [OF assms(1) c(1)] m by blast
    show ?thesis
    proof (cases "ok \<and> added")
      case True
      then have t: "ct_pTarget ct = t" "ct_pTrampoline ct = buf" using ct(3) by (simp_all add: kept_def)
      have "hooks_ok T R m0 s3"
        using code_ok_new [OF assms(1) code assms(4) FindHookEntry_None t(1)] \<open>g_hHeap s1 \<and> _\<close> True f al(1-4) t(2) c(2)
        by (auto simp: hooks_ok_def slots_ok_def new_hook_def)
      then show ?thesis using \<open>g_hHeap s1 \<and> _\<close> True a ct(1) s3 by simp
    next
      case False
      then show ?thesis using \<open>g_hHeap s1 \<and> _\<close> a ct(1) s3 f code al(6) by (cases ok) (simp_all add: hooks_ok_def)
    qed
  qed
qed

text \<open>Freezing, patching one hook and thawing.\<close>

lemma switch_ok:
  assumes "world T R" "hooks_ok T R m0 s" "pos < length (g_hooks s)" "Freeze e p a s = (ts, sf)" "EnableHookLL e pos en sf = (st, se)"
  shows "hooks_ok T R m0 (Unfreeze e ts se)"
    "st = MH_OK \<Longrightarrow> g_hooks (Unfreeze e ts se) = (g_hooks s)[pos := (g_hooks s ! pos)\<lparr>isEnabled := en, queueEnable := en\<rparr>]"
proof -
  have f: "threads_only s sf" using Freeze_threads [OF assms(4)] .
  have "hooks_ok T R m0 sf" using assms(2) by (simp only: hooks_ok_threads [OF f])
  moreover have "pos < length (g_hooks sf)" using assms(3) f by (simp add: threads_only_def)
  ultimately have "hooks_ok T R m0 se" using EnableHookLL_ok(1) [OF assms(1) _ _ assms(5)] by blast
  then show "hooks_ok T R m0 (Unfreeze e ts se)" by (simp only: hooks_ok_threads [OF Unfreeze_threads])
  have "st = MH_OK \<Longrightarrow> g_hooks se = (g_hooks sf)[pos := (g_hooks sf ! pos)\<lparr>isEnabled := en, queueEnable := en\<rparr>]"
    using assms(5) by (auto simp: EnableHookLL_def Let_def split: if_splits)
  then show "st = MH_OK \<Longrightarrow> g_hooks (Unfreeze e ts se) = (g_hooks s)[pos := (g_hooks s ! pos)\<lparr>isEnabled := en, queueEnable := en\<rparr>]"
    using f Unfreeze_threads [of se e ts] by (simp add: threads_only_def)
qed

lemma slots_ok_remove:
  assumes "slots_ok R bs hs" "pos < length hs"
  shows "slots_ok R (FreeBuffer (pTrampoline (hs ! pos)) bs) (without pos hs)"
proof -
  let ?t = "pTrampoline (hs ! pos)"
  have s: "slots_ok R bs (hs ! pos # without pos hs)" using assms(1) slots_ok_mset [OF mset_without [OF assms(2)]] by blast
  then have l: "blocks_ok (FreeBuffer ?t bs)" "live_slots (FreeBuffer ?t bs) = live_slots bs - {?t}"
    using buf.release_ok [of bs ?t] by (auto simp: slots_ok_def)
  have "\<forall>b \<in> set (FreeBuffer ?t bs). span (block_addr b) MEMORY_BLOCK_SIZE \<subseteq> R"
  proof
    fix b assume "b \<in> set (FreeBuffer ?t bs)"
    then have "block_addr b \<in> block_addr ` set bs" using FreeBuffer_addrs [of ?t bs] by blast
    then show "span (block_addr b) MEMORY_BLOCK_SIZE \<subseteq> R" using assms(1) unfolding slots_ok_def by (elim imageE) simp
  qed
  moreover have "live_slots bs = insert ?t (pTrampoline ` set (without pos hs))" "?t \<notin> pTrampoline ` set (without pos hs)"
    "distinct (map pTrampoline (without pos hs))" using s by (simp_all add: slots_ok_def)
  ultimately show ?thesis using l by (simp add: slots_ok_def)
qed

lemma remove_entry_ok:
  assumes "hooks_ok T R m0 s" "pos < length (g_hooks s)" "\<not> isEnabled (g_hooks s ! pos)" "g_hHeap s"
  shows "hooks_ok T R m0 (DeleteHookEntry e pos (s\<lparr>g_pMemoryBlocks := FreeBuffer (pTrampoline (g_hooks s ! pos)) (g_pMemoryBlocks s)\<rparr>))"
proof -
  have "code_ok T R m0 (mem s) (g_hooks s ! pos # without pos (g_hooks s))"
    using assms(1) code_ok_mset [OF mset_without [OF assms(2)]] by (simp add: hooks_ok_def)
  then have "code_ok T R m0 (mem s) (without pos (g_hooks s))" using code_ok_drop assms(3) by blast
  then show ?thesis using slots_ok_remove [OF _ assms(2)] assms(1,4) by (simp add: hooks_ok_def DeleteHookEntry_fields)
qed

lemma MH_RemoveHook_ready:
  assumes "world T R" "ready T R m0 s"
  shows "\<exists>r s'. MH_RemoveHook e t s = Some (r, s') \<and> ready T R m0 s'"
  unfolding MH_RemoveHook_def
proof (rule under_lock_ready [OF assms(2)], goal_cases)
  case (1 s1)
  show ?case
  proof (cases "g_hHeap s1 \<and> FindHookEntry t s1 \<noteq> None")
    case False
    then show ?thesis using 1(2) by auto
  next
    case True
    then obtain pos where pos: "FindHookEntry t s1 = Some pos" "pos < length (g_hooks s1)" using FindHookEntry_Some by blast
    show ?thesis
    proof (cases "isEnabled (g_hooks s1 ! pos)")
      case en: True
      obtain ts sf where f: "Freeze e (Some pos) ACTION_DISABLE s1 = (ts, sf)" by fastforce
      obtain st se where l: "EnableHookLL e pos False sf = (st, se)" by fastforce
      note sw = switch_ok [OF assms(1) 1(2) pos(2) f l]
      have heap: "g_hHeap (Unfreeze e ts se) = g_hHeap s1"
        using Freeze_threads [OF f] Unfreeze_threads [of se e ts] l by (auto simp: threads_only_def EnableHookLL_def Let_def split: if_splits)
      show ?thesis
      proof (cases "st = MH_OK")
        case ok: True
        then have "hooks_ok T R m0 (DeleteHookEntry e pos ((Unfreeze e ts se)\<lparr>g_pMemoryBlocks :=
            FreeBuffer (pTrampoline (g_hooks (Unfreeze e ts se) ! pos)) (g_pMemoryBlocks (Unfreeze e ts se))\<rparr>))"
          using sw pos(2) heap True by (intro remove_entry_ok) simp_all
        then show ?thesis using True pos(1) en f l ok by simp
      next
        case ok: False
        then show ?thesis using True pos(1) en f l sw(1) by simp
      qed
    next
      case en: False
      then show ?thesis using remove_entry_ok [OF 1(2) pos(2) en] True pos(1) by simp
    qed
  qed
qed

lemma EnableHook_ready:
  assumes "world T R" "ready T R m0 s"
  shows "\<exists>r s'. EnableHook e t en s = Some (r, s') \<and> ready T R m0 s'"
  unfolding EnableHook_def
proof (rule under_lock_ready [OF assms(2)], goal_cases)
  case (1 s1)
  obtain st s2 where all: "EnableAllHooksLL e en s1 = (st, s2)" by fastforce
  show ?case
  proof (cases "g_hHeap s1 \<and> t \<noteq> 0 \<and> FindHookEntry t s1 \<noteq> None")
    case False
    then show ?thesis using 1(2) all EnableAllHooksLL_ok(1) [OF assms(1) 1(2) all] by auto
  next
    case True
    then obtain pos where pos: "FindHookEntry t s1 = Some pos" "pos < length (g_hooks s1)" using FindHookEntry_Some by blast
    obtain ts sf where f: "Freeze e (Some pos) ACTION_ENABLE s1 = (ts, sf)" by fastforce
    obtain st se where l: "EnableHookLL e pos en sf = (st, se)" by fastforce
    show ?thesis using True pos(1) f l switch_ok(1) [OF assms(1) 1(2) pos(2) f l] 1(2) by auto
  qed
qed

lemma queue_flag [simp]: "patch_target (h\<lparr>queueEnable := q\<rparr>) = patch_target h" "patch_size (h\<lparr>queueEnable := q\<rparr>) = patch_size h"
  "patch_bytes (h\<lparr>queueEnable := q\<rparr>) = patch_bytes h" "patch_area (h\<lparr>queueEnable := q\<rparr>) = patch_area h" "hook_ok m0 m (h\<lparr>queueEnable := q\<rparr>) = hook_ok m0 m h"
  by (simp_all add: patch_target_def patch_size_def patch_bytes_def patch_area_def hook_ok_def)

text \<open>Only what is queued changes.\<close>

lemma hooks_ok_queue:
  assumes "hooks_ok T R m0 s" "length hs = length (g_hooks s)" "\<And>i. i < length hs \<Longrightarrow> \<exists>q. hs ! i = (g_hooks s ! i)\<lparr>queueEnable := q\<rparr>"
  shows "hooks_ok T R m0 (s\<lparr>g_hooks := hs\<rparr>)"
proof -
  have all: "(\<forall>h \<in> set hs. P h) = (\<forall>h \<in> set (g_hooks s). P h)" if "\<And>h q. P (h\<lparr>queueEnable := q\<rparr>) = P h" for P
    using assms(2,3) that by (metis in_set_conv_nth)
  have m: "map f hs = map f (g_hooks s)" if "\<And>h q. f (h\<lparr>queueEnable := q\<rparr>) = f h" for f :: "HOOK_ENTRY \<Rightarrow> addr"
    using assms(2,3) that by (intro nth_equalityI) (simp, metis length_map nth_map)
  then have t: "map pTarget hs = map pTarget (g_hooks s)" "map pTrampoline hs = map pTrampoline (g_hooks s)" by simp_all
  have "code_ok T R m0 (mem s) hs" using assms(1) all by (simp add: hooks_ok_def code_ok_def t(1))
  moreover have "slots_ok R (g_pMemoryBlocks s) hs" using assms(1) t(2) unfolding hooks_ok_def slots_ok_def by (metis list.set_map)
  ultimately show ?thesis using assms(1,2) by (auto simp: hooks_ok_def)
qed

lemma QueueHook_ready:
  assumes "ready T R m0 s"
  shows "\<exists>r s'. QueueHook t q s = Some (r, s') \<and> ready T R m0 s'"
  unfolding QueueHook_def
proof (rule under_lock_ready [OF assms], goal_cases)
  case (1 s1)
  have "hooks_ok T R m0 (s1\<lparr>g_hooks := map (\<lambda>h. h\<lparr>queueEnable := q\<rparr>) (g_hooks s1)\<rparr>)" using 1(2) by (rule hooks_ok_queue) auto
  moreover have "hooks_ok T R m0 (s1\<lparr>g_hooks := (g_hooks s1)[pos := (g_hooks s1 ! pos)\<lparr>queueEnable := q\<rparr>]\<rparr>)" for pos
  proof (rule hooks_ok_queue [OF 1(2)])
    fix i assume "i < length ((g_hooks s1)[pos := (g_hooks s1 ! pos)\<lparr>queueEnable := q\<rparr>])"
    then show "\<exists>q'. (g_hooks s1)[pos := (g_hooks s1 ! pos)\<lparr>queueEnable := q\<rparr>] ! i = (g_hooks s1 ! i)\<lparr>queueEnable := q'\<rparr>"
      by (cases "i = pos") (auto intro: exI [of _ "queueEnable (g_hooks s1 ! i)"])
  qed simp
  ultimately show ?case using 1(2) by (auto split: option.split)
qed

lemma MH_ApplyQueued_ready:
  assumes "world T R" "ready T R m0 s"
  shows "\<exists>r s'. MH_ApplyQueued e s = Some (r, s') \<and> ready T R m0 s'"
  unfolding MH_ApplyQueued_def
proof (rule under_lock_ready [OF assms(2)], goal_cases)
  case (1 s1)
  obtain st s2 where "apply_wanted e queueEnable ACTION_APPLY_QUEUED s1 = (st, s2)" by fastforce
  then show ?case using apply_wanted_ok [OF assms(1) 1(2)] 1(2) by auto
qed

section \<open>Any sequence of calls\<close>

datatype hook_call = Initialize | Uninitialize | CreateHook addr addr | RemoveHook addr | Enable addr | Disable addr
  | QueueEnable addr | QueueDisable addr | ApplyQueued

fun do_call :: "os \<Rightarrow> hook_call \<Rightarrow> MinHook \<Rightarrow> (MH_STATUS \<times> MinHook) option" where
  "do_call e Initialize s = MH_Initialize e s"
| "do_call e Uninitialize s = MH_Uninitialize e s"
| "do_call e (CreateHook t d) s = map_option (\<lambda>((st, _), s'). (st, s')) (MH_CreateHook e t d s)"
| "do_call e (RemoveHook t) s = MH_RemoveHook e t s"
| "do_call e (Enable t) s = MH_EnableHook e t s"
| "do_call e (Disable t) s = MH_DisableHook e t s"
| "do_call e (QueueEnable t) s = MH_QueueEnableHook t s"
| "do_call e (QueueDisable t) s = MH_QueueDisableHook t s"
| "do_call e ApplyQueued s = MH_ApplyQueued e s"

fun do_calls :: "(os \<times> hook_call) list \<Rightarrow> MinHook \<Rightarrow> (MH_STATUS list \<times> MinHook) option" where
  "do_calls [] s = Some ([], s)"
| "do_calls ((e, c) # cs) s =
     Option.bind (do_call e c s) (\<lambda>(st, s1). Option.bind (do_calls cs s1) (\<lambda>(sts, s2). Some (st # sts, s2)))"

text \<open>The functions hooked are those of \<open>T\<close>, and the operating system hands out pages of \<open>R\<close>.\<close>

fun fair :: "addr set \<Rightarrow> addr set \<Rightarrow> (os \<times> hook_call) list \<Rightarrow> MinHook \<Rightarrow> bool" where
  "fair T R [] s = True"
| "fair T R ((e, c) # cs) s \<longleftrightarrow> os_ok R e s \<and> (case c of CreateHook t d \<Rightarrow> t \<in> T | _ \<Rightarrow> True)
     \<and> (case do_call e c s of None \<Rightarrow> True | Some (st, s') \<Rightarrow> fair T R cs s')"

lemma do_call_ready:
  assumes "world T R" "ready T R m0 s" "os_ok R e s" "case c of CreateHook t d \<Rightarrow> t \<in> T | _ \<Rightarrow> True"
  shows "\<exists>st s'. do_call e c s = Some (st, s') \<and> ready T R m0 s'"
proof (cases c)
  case (CreateHook t d)
  then show ?thesis using MH_CreateHook_ready [OF assms(1-3), of t d] assms(4) by fastforce
qed (use assms(1,2) MH_Initialize_ready MH_Uninitialize_ready MH_RemoveHook_ready EnableHook_ready QueueHook_ready MH_ApplyQueued_ready in
    \<open>simp_all add: MH_EnableHook_def MH_DisableHook_def MH_QueueEnableHook_def MH_QueueDisableHook_def\<close>)

lemma do_calls_ready:
  assumes "world T R"
  shows "ready T R m0 s \<Longrightarrow> fair T R cs s \<Longrightarrow> \<exists>sts s'. do_calls cs s = Some (sts, s') \<and> ready T R m0 s'"
proof (induction cs arbitrary: s)
  case (Cons ec cs)
  obtain e c where ec: "ec = (e, c)" by fastforce
  obtain st s1 where 1: "do_call e c s = Some (st, s1)" "ready T R m0 s1"
    using do_call_ready [OF assms Cons.prems(1), of e c] Cons.prems(2) unfolding ec fair.simps by blast
  then show ?case using Cons.IH [OF 1(2)] Cons.prems(2) by (auto simp: ec)
qed simp

text \<open>A process in which nothing is hooked.\<close>

definition unhooked :: "memory \<Rightarrow> (dword \<Rightarrow> addr) \<Rightarrow> (dword \<Rightarrow> nat) \<Rightarrow> MinHook" where
  "unhooked m ips n = \<lparr>g_isLocked = False, g_hHeap = False, g_pItems = False, g_capacity = 0, g_hooks = [], g_pMemoryBlocks = [],
     mem = m, eip = ips, suspended = n\<rparr>"

lemma unhooked_ready: "ready T R m (unhooked m ips n)"
  by (simp add: ready_def hooks_ok_def code_ok_def slots_ok_def blocks_ok_def live_slots_def unhooked_def)

text \<open>Whether a call of \<open>t\<close> goes on at \<open>d\<close>: over a jump, or a short jump to a jump.\<close>

definition redirects :: "memory \<Rightarrow> addr \<Rightarrow> addr \<Rightarrow> bool" where
  "redirects m t d \<longleftrightarrow> (m t = 0xE9 \<and> branch_dest m t 5 = d)
     \<or> (m t = 0xEB \<and> (let a = t + 2 + scast (m (t + 1)) in m a = 0xE9 \<and> branch_dest m a 5 = d))"

lemma enabled_redirects:
  assumes "hook_ok m0 m h" "isEnabled h"
  shows "redirects m (pTarget h) (pDetour h)"
proof (cases "patchAbove h")
  case False
  then show ?thesis
    using assms branch_dest_jmp [of m "pTarget h" "0xE9" "pDetour h"]
    by (simp add: hook_ok_def patch_bytes_def patch_target_def patch_size_def redirects_def)
next
  case True
  let ?a = "pTarget h - 5"
  have p: "peek m ?a 7 = jmp_rel 0xE9 (pDetour h) ?a @ jmp_rel_short 0xF9"
    using assms True by (simp add: hook_ok_def patch_bytes_def patch_target_def patch_size_def)
  have "peek m ?a 5 = take 5 (peek m ?a 7)" by (rule nth_equalityI) simp_all
  then have j: "m ?a = 0xE9" "branch_dest m ?a 5 = pDetour h" using branch_dest_jmp [of m ?a] p by simp_all
  have "m (?a + word_of_nat i) = (jmp_rel 0xE9 (pDetour h) ?a @ jmp_rel_short 0xF9) ! i" if "i < 7" for i
    using that nth_peek [of i 7 m ?a] p by simp
  from this [of 5] this [of 6] have "m (pTarget h) = 0xEB" "m (pTarget h + 1) = 0xF9"
    by (simp_all add: nth_append jmp_rel_short_def add.commute)
  moreover have "pTarget h + 2 + scast (0xF9 :: byte) = ?a" by simp
  ultimately show ?thesis using j by (simp add: redirects_def)
qed

text \<open>
  C24: Hooked code. In a process where nothing is hooked, let any calls of the interface be made whose targets lie at least ten
  bytes apart and away from the pages of the trampolines. Every call returns and gives the lock back. Afterwards
  each enabled hook redirects its target to its detour, every byte outside the enabled hooks and the trampolines is
  as at the beginning, and the slots in use are exactly those of the hooks. In particular all code is as
  at the beginning once the library is uninitialised or every hook removed.
\<close>

theorem hooked_code:
  assumes "world T R" "fair T R cs (unhooked m0 ips n)"
  shows "\<exists>sts s. do_calls cs (unhooked m0 ips n) = Some (sts, s) \<and> \<not> g_isLocked s
    \<and> (\<forall>h \<in> set (g_hooks s). isEnabled h \<longrightarrow> redirects (mem s) (pTarget h) (pDetour h))
    \<and> (\<forall>x. x \<notin> R \<and> (\<forall>h \<in> set (g_hooks s). isEnabled h \<longrightarrow> x \<notin> patch_area h) \<longrightarrow> mem s x = m0 x)
    \<and> pTrampoline ` set (g_hooks s) = live_slots (g_pMemoryBlocks s)
    \<and> (\<not> g_hHeap s \<longrightarrow> (\<forall>x. x \<notin> R \<longrightarrow> mem s x = m0 x))"
proof -
  obtain sts s where run: "do_calls cs (unhooked m0 ips n) = Some (sts, s)" "ready T R m0 s"
    using do_calls_ready [OF assms(1) unhooked_ready assms(2)] by blast
  then have ok: "hooks_ok T R m0 s" by (simp add: ready_def)
  have bytes: "mem s x = m0 x" if out: "x \<notin> R" "\<forall>h \<in> set (g_hooks s). isEnabled h \<longrightarrow> x \<notin> patch_area h" for x
  proof (cases "\<exists>h \<in> set (g_hooks s). x \<in> patch_area h")
    case True
    then obtain h where "h \<in> set (g_hooks s)" "x \<in> patch_area h" "\<not> isEnabled h" using out(2) by blast
    then show ?thesis using ok peek_span [of "mem s" "patch_target h" "patch_size h" m0 x]
      by (simp add: hooks_ok_def code_ok_def hook_ok_def patch_area_def)
  qed (use out(1) ok in \<open>simp add: hooks_ok_def code_ok_def\<close>)
  then show ?thesis
    using run ok enabled_redirects by (auto simp: ready_def hooks_ok_def code_ok_def slots_ok_def)
qed

text \<open>A process with the function of theory \<open>HookTrampoline\<close>, hooked, unhooked, and the library shut down.\<close>

definition demo_os :: os where
  "demo_os = \<lparr>os_HeapCreate = True, os_HeapAlloc = True, os_HeapReAlloc = True, os_IsExecutable = (\<lambda>_. True), os_VirtualAlloc = Some 0x10000,
     os_VirtualProtect = (\<lambda>_. True), os_snapshot = None, os_pid = 1, os_tid = 1, os_thread_heap = (\<lambda>_. True), os_OpenThread = (\<lambda>_. True),
     os_ReopenThread = (\<lambda>_. True), os_GetThreadContext = (\<lambda>_. True), os_SetThreadContext = (\<lambda>_. True)\<rparr>"

definition demo_calls :: "(os \<times> hook_call) list" where
  "demo_calls = [(demo_os, Initialize), (demo_os, CreateHook 0x2000 0x3000), (demo_os\<lparr>os_VirtualAlloc := None\<rparr>, Enable 0x2000)]"

lemma demo_created:
  "\<exists>s. do_calls [(demo_os, Initialize), (demo_os, CreateHook 0x2000 0x3000)] (unhooked demo_code ips n) = Some ([MH_OK, MH_OK], s)
    \<and> g_hHeap s \<and> \<not> g_isLocked s \<and> (\<exists>h. g_hooks s = [h] \<and> pTarget h = 0x2000 \<and> pDetour h = 0x3000 \<and> \<not> isEnabled h)"
proof -
  let ?buf = "hd (rev (slots 0x10000))"
  obtain bs where a: "AllocateBuffer (Some 0x10000) [] = Some (?buf, bs)"
    by (simp add: AllocateBuffer_def GetMemoryBlock_def Let_def build_slots_all)
  let ?ct = "demo_ct\<lparr>ct_pTrampoline := ?buf\<rparr>"
  obtain ct m where c: "CreateTrampolineFunction (\<lambda>_. True) demo_code ?ct = Some (True, ct, m)" using demo_trampoline by blast
  then have k: "kept ?ct ct" using CreateTrampolineFunction_ok [of "\<lambda>_. True" demo_code ?ct] by fastforce
  have d: "?ct = \<lparr>ct_pTarget = 0x2000, ct_pDetour = 0x3000, ct_pTrampoline = ?buf, ct_patchAbove = False, ct_oldIPs = [], ct_newIPs = []\<rparr>"
    by (simp add: demo_ct_def)
  show ?thesis
    using a c k unfolding d
    by (simp add: MH_Initialize_def MH_CreateHook_def under_lock_def EnterSpinLock_def LeaveSpinLock_def unhooked_def demo_os_def
        FindHookEntry_def AddHookEntry_def Let_def new_hook_def kept_def)
qed

definition demo_pages :: "addr set" where
  "demo_pages = span 0x10000 MEMORY_BLOCK_SIZE"

lemma demo_window: "x \<in> window 0x2000 \<Longrightarrow> x \<notin> demo_pages \<and> x \<noteq> 0x3000"
proof -
  assume "x \<in> window 0x2000"
  then obtain i where i: "i < 10" "x = 0x1FFB + word_of_nat i" by (auto simp: window_def span_image)
  then have "i \<in> {0, 1, 2, 3, 4, 5, 6, 7, 8, 9}" by auto
  then show ?thesis using i(2) by (auto simp: demo_pages_def span_def MEMORY_BLOCK_SIZE_def)
qed

lemma demo_world: "world {0x2000} demo_pages"
  using demo_window by (auto simp: world_def)

lemma demo_enabled:
  assumes "g_hHeap s" "\<not> g_isLocked s" "g_hooks s = [h]" "pTarget h = 0x2000" "\<not> isEnabled h"
  shows "\<exists>s'. do_call (demo_os\<lparr>os_VirtualAlloc := None\<rparr>) (Enable 0x2000) s = Some (MH_OK, s')
    \<and> g_hooks s' = [h\<lparr>isEnabled := True, queueEnable := True\<rparr>]"
  using assms
  by (simp add: MH_EnableHook_def EnableHook_def under_lock_def EnterSpinLock_def LeaveSpinLock_def FindHookEntry_def Freeze_def
      EnumerateThreads_def demo_os_def EnableHookLL_def Unfreeze_def Let_def)

theorem hooked_code_witness:
  "\<exists>s. do_calls demo_calls (unhooked demo_code (\<lambda>_. 0) (\<lambda>_. 0)) = Some ([MH_OK, MH_OK, MH_OK], s) \<and> redirects (mem s) 0x2000 0x3000
    \<and> mem s 0x3000 = demo_code 0x3000"
proof -
  let ?u = "unhooked demo_code (\<lambda>_. 0) (\<lambda>_. 0)"
  obtain s h where s: "do_calls [(demo_os, Initialize), (demo_os, CreateHook 0x2000 0x3000)] ?u = Some ([MH_OK, MH_OK], s)"
    "g_hHeap s" "\<not> g_isLocked s" "g_hooks s = [h]" "pTarget h = 0x2000" "pDetour h = 0x3000" "\<not> isEnabled h" using demo_created by metis
  obtain s' where s': "do_call (demo_os\<lparr>os_VirtualAlloc := None\<rparr>) (Enable 0x2000) s = Some (MH_OK, s')"
    "g_hooks s' = [h\<lparr>isEnabled := True, queueEnable := True\<rparr>]" using demo_enabled [OF s(2-5,7)] by metis
  have run: "do_calls demo_calls ?u = Some ([MH_OK, MH_OK, MH_OK], s')"
    using s(1) s'(1) by (auto simp: demo_calls_def simp del: do_call.simps split: bind_splits)
  have os: "os_ok demo_pages demo_os x" if "g_pMemoryBlocks x = []" for x
    using that by (simp add: os_ok_def demo_os_def demo_pages_def fresh_page_def page_aligned_def MEMORY_BLOCK_SIZE_def)
  have i: "do_call demo_os Initialize ?u = Some (MH_OK, ?u\<lparr>g_hHeap := True\<rparr>)"
    by (simp add: MH_Initialize_def under_lock_def EnterSpinLock_def LeaveSpinLock_def unhooked_def demo_os_def)
  have "os_ok demo_pages (demo_os\<lparr>os_VirtualAlloc := None\<rparr>) x" for x by (simp add: os_ok_def)
  moreover have "os_ok demo_pages demo_os ?u" "os_ok demo_pages demo_os (?u\<lparr>g_hHeap := True\<rparr>)" by (rule os, simp add: unhooked_def)+
  ultimately have "fair {0x2000} demo_pages demo_calls ?u"
    unfolding demo_calls_def fair.simps i hook_call.case option.case prod.case by (auto split: option.split)
  from hooked_code [OF demo_world this] run have r: "\<forall>k \<in> set (g_hooks s'). isEnabled k \<longrightarrow> redirects (mem s') (pTarget k) (pDetour k)"
    "\<forall>x. x \<notin> demo_pages \<and> (\<forall>k \<in> set (g_hooks s'). isEnabled k \<longrightarrow> x \<notin> patch_area k) \<longrightarrow> mem s' x = demo_code x" by auto
  have "0x3000 \<notin> patch_area (h\<lparr>isEnabled := True\<rparr>)" using patch_area_window [of "h\<lparr>isEnabled := True\<rparr>"] demo_window s(5) by auto
  moreover have "0x3000 \<notin> demo_pages" by (simp add: demo_pages_def span_def MEMORY_BLOCK_SIZE_def)
  ultimately show ?thesis using run r s(5,6) s'(2) by simp
qed

end
