(* ===== verification/HookThreads.thy ===== *)
theory HookThreads
  imports HookCode
begin

text \<open>
  What the hooking library does to the other threads of the process while it changes code: whom it suspends it resumes, and
  whoever stands in a trampoline that is removed is moved back.
\<close>

section \<open>The other threads\<close>

lemma fold_freeze_suspended:
  "suspended (fold (freeze_thread e pos a) ts s) t = suspended s t + (if os_OpenThread e t then count_list ts t else 0)"
  by (induction ts arbitrary: s) (simp_all add: freeze_thread_def ProcessThreadIPs_def Let_def)

lemma fold_unfreeze_suspended:
  "suspended (fold (unfreeze_thread e) ts s) t = suspended s t - (if os_ReopenThread e t then count_list ts t else 0)"
  by (induction ts arbitrary: s) (simp_all add: unfreeze_thread_def)

lemma thaw_suspended:
  assumes "Freeze e pos a s = (ts, s1)" "suspended s2 = suspended s1" "os_ReopenThread e = os_OpenThread e"
  shows "suspended (Unfreeze e ts s2) = suspended s"
  using assms
  by (auto simp: Freeze_def Unfreeze_def Let_def fun_eq_iff fold_freeze_suspended fold_unfreeze_suspended split: option.splits)

lemma EnableHookLL_suspended [simp]: "suspended (snd (EnableHookLL e pos en s)) = suspended s" "eip (snd (EnableHookLL e pos en s)) = eip s"
  by (simp_all add: EnableHookLL_def Let_def)

lemma enable_each_suspended: "suspended (snd (enable_each e want is s)) = suspended s"
proof (induction "is" arbitrary: s)
  case (Cons i "is")
  obtain st s1 where 1: "EnableHookLL e i (want (g_hooks s ! i)) s = (st, s1)" by fastforce
  then have "suspended s1 = suspended s" using EnableHookLL_suspended(1) by (metis snd_conv)
  then show ?case using Cons.IH [of s1] Cons.IH [of s] 1 by (simp add: Let_def)
qed simp

lemma apply_wanted_suspended:
  assumes "os_ReopenThread e = os_OpenThread e"
  shows "suspended (snd (apply_wanted e want a s)) = suspended s"
proof -
  obtain ts s1 where 1: "Freeze e None a s = (ts, s1)" by fastforce
  have "suspended (Unfreeze e ts (snd (enable_each e want js s1))) = suspended s" for js
    by (rule thaw_suspended [OF 1 enable_each_suspended assms])
  then show ?thesis by (auto simp: apply_wanted_def 1 case_prod_beta Let_def split: list.split)
qed

text \<open>What a call leaves of the suspension counts.\<close>

lemma under_lock_suspended:
  assumes "under_lock f s = Some (r, s')" "\<And>s1 r s2. f s1 = Some (r, s2) \<Longrightarrow> suspended s2 = suspended s1"
  shows "suspended s' = suspended s"
  using assms(1) by (auto simp: under_lock_def EnterSpinLock_def LeaveSpinLock_def split: if_splits bind_splits dest: assms(2))

lemma switch_suspended:
  assumes "os_ReopenThread e = os_OpenThread e"
  shows "suspended (Unfreeze e (fst (Freeze e p a s)) (snd (EnableHookLL e pos en (snd (Freeze e p a s))))) = suspended s"
  by (rule thaw_suspended [OF _ EnableHookLL_suspended(1) assms]) simp

lemma MH_RemoveHook_suspended:
  assumes "os_ReopenThread e = os_OpenThread e" "MH_RemoveHook e t s = Some (st, s')"
  shows "suspended s' = suspended s"
  using assms(2) unfolding MH_RemoveHook_def
  by (rule under_lock_suspended)
    (auto simp: Let_def DeleteHookEntry_def case_prod_beta switch_suspended [OF assms(1)] split: if_splits option.splits)

lemma EnableHook_suspended:
  assumes "os_ReopenThread e = os_OpenThread e" "EnableHook e t en s = Some (st, s')"
  shows "suspended s' = suspended s"
  using assms(2) unfolding EnableHook_def
proof (rule under_lock_suspended, goal_cases)
  case (1 s1 r s2)
  then show ?case
    using apply_wanted_suspended [OF assms(1), of "\<lambda>_. en" _ s1] switch_suspended [OF assms(1)]
    by (auto simp: EnableAllHooksLL_def Let_def case_prod_beta split: if_splits option.splits) (metis snd_conv)+
qed

lemma do_call_suspended:
  assumes "do_call e c s = Some (st, s')" "os_ReopenThread e = os_OpenThread e"
  shows "suspended s' = suspended s"
proof (cases c)
  case Initialize
  with assms(1) show ?thesis
    by (auto simp: MH_Initialize_def elim!: under_lock_suspended split: if_splits)
next
  case Uninitialize
  with assms(1) show ?thesis
    using apply_wanted_suspended [OF assms(2)]
    by (auto simp: MH_Uninitialize_def EnableAllHooksLL_def case_prod_beta Let_def elim!: under_lock_suspended split: if_splits)
next
  case (CreateHook t d)
  have "MH_CreateHook e t d s = Some (r, s') \<Longrightarrow> suspended s' = suspended s" for r
    unfolding MH_CreateHook_def
    by (erule under_lock_suspended) (auto simp: AddHookEntry_def Let_def split: if_splits option.splits)
  with assms(1) CreateHook show ?thesis by auto
next
  case (RemoveHook t)
  with assms show ?thesis using MH_RemoveHook_suspended by simp
next
  case (Enable t)
  with assms show ?thesis using EnableHook_suspended by (simp add: MH_EnableHook_def)
next
  case (Disable t)
  with assms show ?thesis using EnableHook_suspended by (simp add: MH_DisableHook_def)
next
  case ApplyQueued
  have "apply_wanted e queueEnable ACTION_APPLY_QUEUED s1 = (r, s2) \<Longrightarrow> suspended s2 = suspended s1" for s1 r s2
    using apply_wanted_suspended [OF assms(2)] by (metis snd_conv)
  with assms(1) ApplyQueued show ?thesis by (auto simp: MH_ApplyQueued_def elim!: under_lock_suspended split: if_splits)
qed (use assms(1) in
    \<open>auto simp: MH_QueueEnableHook_def MH_QueueDisableHook_def QueueHook_def elim!: under_lock_suspended split: if_splits option.splits\<close>)

text \<open>Boundaries are found, in both directions.\<close>

lemma find_ip_nth:
  assumes "distinct as" "length bs = length as" "i < length as"
  shows "find_ip (as ! i) (zip as bs) = bs ! i"
  using assms
proof (induction as arbitrary: bs i)
  case (Cons a as)
  obtain b bs' where "bs = b # bs'" using Cons.prems(2) by (cases bs) auto
  then show ?case using Cons by (cases i) auto
qed simp

definition ips_ok :: "HOOK_ENTRY \<Rightarrow> bool" where
  "ips_ok h \<longleftrightarrow> distinct (oldIPs h) \<and> distinct (newIPs h) \<and> length (newIPs h) = length (oldIPs h)"

lemma inj_offset: "inj_on (\<lambda>b :: byte. a + ucast b :: addr) A"
  by (rule inj_onI) (metis add_left_cancel unat_ucast_byte word_unat_eq_iff)

lemma FindNewIP_nth: "ips_ok h \<Longrightarrow> i < length (oldIPs h) \<Longrightarrow> FindNewIP h (pTarget h + ucast (oldIPs h ! i)) = pTrampoline h + ucast (newIPs h ! i)"
  using find_ip_nth [of "map (\<lambda>b. pTarget h + ucast b) (oldIPs h)" "map (\<lambda>n. pTrampoline h + ucast n) (newIPs h)" i] inj_offset
  by (simp add: FindNewIP_def ips_ok_def distinct_map)

lemma FindOldIP_nth:
  assumes "ips_ok h" "i < length (oldIPs h)" "pTrampoline h + ucast (newIPs h ! i) \<noteq> pTarget h - 5"
  shows "FindOldIP h (pTrampoline h + ucast (newIPs h ! i)) = pTarget h + ucast (oldIPs h ! i)"
  using find_ip_nth [of "map (\<lambda>n. pTrampoline h + ucast n) (newIPs h)" "map (\<lambda>b. pTarget h + ucast b) (oldIPs h)" i] inj_offset assms
  by (simp add: FindOldIP_def ips_ok_def distinct_map)

text \<open>A new hook has the boundaries of its trampoline.\<close>

lemma new_hook_ips: "trampoline_ok m ct \<Longrightarrow> ips_ok (new_hook ct m')"
  by (auto simp: trampoline_ok_def ips_ok_def new_hook_def strict_sorted_iff)

lemma fold_freeze_eip:
  assumes "os_OpenThread e t" "os_GetThreadContext e t" "os_SetThreadContext e t" "distinct ts" "t \<in> set ts"
  shows "eip (fold (freeze_thread e (Some pos) a) ts s) t = process_hook a (eip s t) (g_hooks s ! pos)"
proof -
  have other: "eip (fold (freeze_thread e (Some pos) a) us s') t = eip s' t" if "t \<notin> set us" for us s'
    using that by (induction us arbitrary: s') (auto simp: freeze_thread_def ProcessThreadIPs_def Let_def)
  show ?thesis
    using assms(4,5)
  proof (induction ts arbitrary: s)
    case (Cons u ts)
    have g: "g_hooks (freeze_thread e (Some pos) a u s) = g_hooks s" using freeze_thread_only [of s e "Some pos" a u] by (simp add: threads_only_def)
    show ?case
    proof (cases "u = t")
      case True
      then have "eip (fold (freeze_thread e (Some pos) a) (u # ts) s) t = eip (freeze_thread e (Some pos) a t s) t" using Cons.prems other by simp
      moreover have "eip (freeze_thread e (Some pos) a t s) t = process_hook a (eip s t) (g_hooks s ! pos)"
        using assms(1-3) by (simp add: freeze_thread_def ProcessThreadIPs_def Let_def)
      ultimately show ?thesis by simp
    next
      case False
      then have "eip (freeze_thread e (Some pos) a u s) t = eip s t" by (simp add: freeze_thread_def ProcessThreadIPs_def Let_def)
      then show ?thesis using Cons g False by simp
    qed
  qed simp
qed

lemma Unfreeze_eip [simp]: "eip (Unfreeze e ts s) = eip s"
proof -
  have "eip (fold (unfreeze_thread e) us s) = eip s" for us
    by (induction us arbitrary: s) (simp_all add: unfreeze_thread_def)
  then show ?thesis by (simp add: Unfreeze_def split: option.split)
qed

lemma Freeze_eip:
  assumes "EnumerateThreads e = Some ts" "distinct ts" "t \<in> set ts" "os_OpenThread e t" "os_GetThreadContext e t" "os_SetThreadContext e t"
  shows "eip (snd (Freeze e (Some pos) a s)) t = process_hook a (eip s t) (g_hooks s ! pos)"
  using fold_freeze_eip [OF assms(4-6,2,3)] assms(1) by (simp add: Freeze_def Let_def)

text \<open>What \<^verbatim>\<open>MH_RemoveHook\<close> did when it succeeded for an enabled hook.\<close>

lemma MH_RemoveHook_enabled:
  assumes "FindHookEntry target s = Some pos" "isEnabled (g_hooks s ! pos)" "MH_RemoveHook e target s = Some (MH_OK, s')"
    "sf = snd (Freeze e (Some pos) ACTION_DISABLE (s\<lparr>g_isLocked := True\<rparr>))"
  obtains se where "EnableHookLL e pos False sf = (MH_OK, se)" "eip s' = eip se" "mem s' = mem se"
    "g_pMemoryBlocks s' = FreeBuffer (pTrampoline (g_hooks s ! pos)) (g_pMemoryBlocks s)"
proof -
  let ?l = "s\<lparr>g_isLocked := True\<rparr>"
  obtain ts where f: "Freeze e (Some pos) ACTION_DISABLE ?l = (ts, sf)" using assms(4) by (metis prod.collapse)
  obtain st se where l: "EnableHookLL e pos False sf = (st, se)" by fastforce
  have same: "threads_only ?l sf" "threads_only se (Unfreeze e ts se)" using Freeze_threads [OF f] Unfreeze_threads by blast+
  have find: "FindHookEntry target ?l = Some pos" using assms(1) by (simp add: FindHookEntry_def)
  have st: "st = MH_OK" and s': "s' = LeaveSpinLock (DeleteHookEntry e pos ((Unfreeze e ts se)\<lparr>g_pMemoryBlocks :=
      FreeBuffer (pTrampoline (g_hooks (Unfreeze e ts se) ! pos)) (g_pMemoryBlocks (Unfreeze e ts se))\<rparr>))"
    using assms(2,3) find f l
    by (auto simp: MH_RemoveHook_def under_lock_def EnterSpinLock_def Let_def split: if_splits)
  have pos: "pos < length (g_hooks s)" using FindHookEntry_Some [OF assms(1)] by simp
  have se: "g_pMemoryBlocks se = g_pMemoryBlocks sf" "pTrampoline (g_hooks se ! pos) = pTrampoline (g_hooks sf ! pos)"
    using l pos same(1) by (auto simp: EnableHookLL_def Let_def threads_only_def split: if_splits)
  show ?thesis
  proof (rule that [OF l [unfolded st]])
    show "eip s' = eip se" by (simp add: s' LeaveSpinLock_def DeleteHookEntry_def Let_def)
    show "mem s' = mem se" using same(2) by (simp add: s' LeaveSpinLock_def DeleteHookEntry_fields threads_only_def)
    show "g_pMemoryBlocks s' = FreeBuffer (pTrampoline (g_hooks s ! pos)) (g_pMemoryBlocks s)"
      using same se by (simp add: s' LeaveSpinLock_def DeleteHookEntry_fields threads_only_def)
  qed
qed

text \<open>
  C25: Threads in a hook that is removed. Let \<^verbatim>\<open>MH_RemoveHook\<close> succeed for an enabled hook while another thread of the process,
  which the library can open and move, is suspended at an instruction boundary of the trampoline. Then the thread
  stands at the corresponding instruction of the function, whose bytes are the original ones again, no
  thread is suspended more often than before, and the slot of the trampoline is free.
\<close>

theorem remove_moves_threads:
  assumes "world T R" "ready T R m0 s" "FindHookEntry target s = Some pos" "h = g_hooks s ! pos" "isEnabled h" "ips_ok h"
    "i < length (oldIPs h)" "eip s t = pTrampoline h + ucast (newIPs h ! i)" "pTrampoline h + ucast (newIPs h ! i) \<noteq> pTarget h - 5"
    "pTarget h + ucast (oldIPs h ! i) \<noteq> 0"
    "EnumerateThreads e = Some ts" "distinct ts" "t \<in> set ts" "os_OpenThread e t" "os_GetThreadContext e t" "os_SetThreadContext e t"
    "os_ReopenThread e = os_OpenThread e" "MH_RemoveHook e target s = Some (MH_OK, s')"
  shows "eip s' t = pTarget h + ucast (oldIPs h ! i) \<and> peek (mem s') (patch_target h) (patch_size h) = peek m0 (patch_target h) (patch_size h)
    \<and> suspended s' = suspended s \<and> pTrampoline h \<notin> live_slots (g_pMemoryBlocks s')"
proof -
  have pos: "pos < length (g_hooks s)" using FindHookEntry_Some [OF assms(3)] by simp
  have ok: "code_ok T R m0 (mem s) (g_hooks s)" "slots_ok R (g_pMemoryBlocks s) (g_hooks s)" using assms(2) by (simp_all add: ready_def hooks_ok_def)
  define sf where "sf = snd (Freeze e (Some pos) ACTION_DISABLE (s\<lparr>g_isLocked := True\<rparr>))"
  obtain se where se: "EnableHookLL e pos False sf = (MH_OK, se)" "eip s' = eip se" "mem s' = mem se"
    "g_pMemoryBlocks s' = FreeBuffer (pTrampoline h) (g_pMemoryBlocks s)"
    using MH_RemoveHook_enabled [OF assms(3) _ assms(18) sf_def] assms(4,5) by auto
  have "threads_only (s\<lparr>g_isLocked := True\<rparr>) sf" unfolding sf_def by (rule Freeze_threads [OF prod.collapse [symmetric]])
  then have sf: "g_hooks sf = g_hooks s" "mem sf = mem s" by (simp_all add: threads_only_def)
  have "eip s' = eip sf" using EnableHookLL_suspended(2) [of e pos False sf] se(1,2) by simp
  moreover have "eip sf t = process_hook ACTION_DISABLE (eip s t) h"
    unfolding sf_def using Freeze_eip [OF assms(11-16), of pos ACTION_DISABLE "s\<lparr>g_isLocked := True\<rparr>"] assms(4) by simp
  moreover have "process_hook ACTION_DISABLE (eip s t) h = pTarget h + ucast (oldIPs h ! i)"
    using assms(5,8,10) FindOldIP_nth [OF assms(6,7,9)] by (simp add: process_hook_def action_enables_def)
  moreover have "peek (mem s') (patch_target h) (patch_size h) = peek m0 (patch_target h) (patch_size h)"
  proof -
    have h: "hook_ok m0 (mem sf) (g_hooks sf ! pos)" using ok(1) pos by (simp add: sf code_ok_def)
    have "mem s' = poke (patch_target h) (backup h) (mem s)" using EnableHookLL_mem [OF se(1) h] se(3) assms(4) by (simp add: sf)
    moreover have "backup h = peek m0 (patch_target h) (patch_size h)" using h assms(4) by (simp add: hook_ok_def sf)
    ultimately show ?thesis using peek_poke [of "backup h" "patch_target h" "mem s"] patch_size_small [of h] by simp
  qed
  moreover have "pTrampoline h \<notin> live_slots (g_pMemoryBlocks s')"
  proof -
    have "live_slots (g_pMemoryBlocks s) = pTrampoline ` set (g_hooks s)" "blocks_ok (g_pMemoryBlocks s)" using ok(2) by (simp_all add: slots_ok_def)
    then show ?thesis using buf.release_ok [of "g_pMemoryBlocks s" "pTrampoline h"] pos assms(4) se(4) by simp
  qed
  ultimately show ?thesis using MH_RemoveHook_suspended [OF assms(17,18)] by simp
qed

text \<open>The function of theory \<open>HookTrampoline\<close> hooked, and a thread that is in its trampoline.\<close>

definition demo_hook :: HOOK_ENTRY where
  "demo_hook = \<lparr>pTarget = 0x2000, pDetour = 0x3000, pTrampoline = slot 0x10000 126, backup = [0xE9, 0x10, 0, 0, 0], patchAbove = False,
     isEnabled = True, queueEnable = True, oldIPs = [0], newIPs = [0]\<rparr>"

definition demo_hooked :: MinHook where
  "demo_hooked = (unhooked (poke 0x2000 (patch_bytes demo_hook) demo_code) (\<lambda>_. slot 0x10000 126) (\<lambda>_. 0))\<lparr>g_hHeap := True, g_pItems := True,
     g_capacity := 32, g_hooks := [demo_hook], g_pMemoryBlocks := snd (the (AllocateBuffer (Some 0x10000) []))\<rparr>"

definition demo_threads :: os where
  "demo_threads = demo_os\<lparr>os_snapshot := Some [\<lparr>te_dwSize = 28, te_pid = 1, te_tid = 7\<rparr>]\<rparr>"

lemma demo_slots: "slots_ok demo_pages (g_pMemoryBlocks demo_hooked) [demo_hook]"
proof -
  have "hd (rev (slots 0x10000)) = slot 0x10000 126" by (simp add: slots_def hd_rev last_map)
  then obtain bs where bs: "AllocateBuffer (Some 0x10000) [] = Some (slot 0x10000 126, bs)"
    by (simp add: AllocateBuffer_def GetMemoryBlock_def Let_def build_slots_all)
  have "fresh_page 0x10000 []" by (simp add: fresh_page_def page_aligned_def MEMORY_BLOCK_SIZE_def)
  then have "blocks_ok bs \<and> live_slots bs = {slot 0x10000 126}"
    using buf.alloc_ok [OF _ _ bs] by (simp add: blocks_ok_def live_slots_def)
  moreover have "\<forall>b \<in> set bs. span (block_addr b) MEMORY_BLOCK_SIZE \<subseteq> demo_pages"
    using AllocateBuffer_addrs [OF bs] by (auto simp: demo_pages_def)
  ultimately show ?thesis by (simp add: slots_ok_def demo_hooked_def bs demo_hook_def)
qed

lemma demo_ready: "ready {0x2000} demo_pages demo_code demo_hooked"
proof -
  let ?m = "poke 0x2000 (patch_bytes demo_hook) demo_code"
  have p: "patch_target demo_hook = 0x2000" "patch_size demo_hook = 5" by (simp_all add: demo_hook_def patch_target_def patch_size_def)
  have "peek ?m 0x2000 5 = patch_bytes demo_hook" using peek_poke [of "patch_bytes demo_hook" "0x2000" demo_code] p by simp
  moreover have "backup demo_hook = peek demo_code 0x2000 5" by (simp add: demo_hook_def demo_code_def peek_def poke_def upt_rec)
  ultimately have "hook_ok demo_code ?m demo_hook" using p by (simp add: hook_ok_def) (simp add: demo_hook_def)
  moreover have "?m x = demo_code x" if "x \<notin> patch_area demo_hook" for x
    using that p poke_outside [of x "0x2000" "patch_bytes demo_hook"] by (simp add: patch_area_def)
  moreover have "pTarget demo_hook = 0x2000" by (simp add: demo_hook_def)
  ultimately have "code_ok {0x2000} demo_pages demo_code ?m [demo_hook]" by (simp add: code_ok_def)
  then show ?thesis using demo_slots by (simp add: ready_def hooks_ok_def demo_hooked_def unhooked_def)
qed

lemma demo_removed: "\<exists>s'. MH_RemoveHook demo_threads 0x2000 demo_hooked = Some (MH_OK, s')"
proof -
  have "fst (EnableHookLL demo_threads pos en s) = MH_OK" for pos en s by (simp add: EnableHookLL_def Let_def demo_threads_def demo_os_def)
  then show ?thesis
    by (simp add: MH_RemoveHook_def under_lock_def EnterSpinLock_def demo_hooked_def unhooked_def FindHookEntry_def demo_hook_def case_prod_beta Let_def)
qed

theorem remove_moves_threads_witness:
  "\<exists>s'. MH_RemoveHook demo_threads 0x2000 demo_hooked = Some (MH_OK, s') \<and> eip s' 7 = 0x2000 \<and> suspended s' 7 = 0
    \<and> peek (mem s') 0x2000 5 = [0xE9, 0x10, 0, 0, 0]"
proof -
  have f: "FindHookEntry 0x2000 demo_hooked = Some 0" by (simp add: FindHookEntry_def demo_hooked_def demo_hook_def)
  have e: "EnumerateThreads demo_threads = Some [7]" by (simp add: EnumerateThreads_def demo_threads_def demo_os_def)
  obtain s' where s': "MH_RemoveHook demo_threads 0x2000 demo_hooked = Some (MH_OK, s')" using demo_removed by blast
  have h: "demo_hook = g_hooks demo_hooked ! 0" by (simp add: demo_hooked_def)
  have "eip s' 7 = pTarget demo_hook + ucast (oldIPs demo_hook ! 0)
    \<and> peek (mem s') (patch_target demo_hook) (patch_size demo_hook) = peek demo_code (patch_target demo_hook) (patch_size demo_hook)
    \<and> suspended s' = suspended demo_hooked \<and> pTrampoline demo_hook \<notin> live_slots (g_pMemoryBlocks s')"
    by (rule remove_moves_threads [OF demo_world demo_ready f h _ _ _ _ _ _ e _ _ _ _ _ _ s'])
      (simp_all add: demo_hook_def ips_ok_def demo_hooked_def unhooked_def slot_def MEMORY_SLOT_SIZE_def demo_threads_def demo_os_def)
  moreover have "peek demo_code 0x2000 5 = [0xE9, 0x10, 0, 0, 0]" by (simp add: demo_code_def peek_def poke_def upt_rec)
  ultimately show ?thesis using s' by (simp add: demo_hook_def patch_target_def patch_size_def demo_hooked_def unhooked_def)
qed

text \<open>
  Disabling a hook passes the action for enabling to \<^verbatim>\<open>Freeze\<close>, so that no thread is moved out of the trampoline; removing the hook
  then frees the slot under such a thread.
\<close>

lemma fold_freeze_still:
  "isEnabled (g_hooks s ! pos) \<Longrightarrow> eip (fold (freeze_thread e (Some pos) ACTION_ENABLE) ts s) = eip s"
proof (induction ts arbitrary: s)
  case (Cons t ts)
  have "g_hooks (freeze_thread e (Some pos) ACTION_ENABLE t s) = g_hooks s"
    using freeze_thread_only [of s e "Some pos" ACTION_ENABLE t] by (simp add: threads_only_def)
  moreover have "eip (freeze_thread e (Some pos) ACTION_ENABLE t s) = eip s"
    using Cons.prems by (simp add: freeze_thread_def ProcessThreadIPs_def Let_def process_hook_def action_enables_def fun_upd_idem)
  ultimately show ?case using Cons by simp
qed simp

lemma MH_DisableHook_still:
  assumes "FindHookEntry target s = Some pos" "isEnabled (g_hooks s ! pos)" "target \<noteq> 0" "MH_DisableHook e target s = Some (MH_OK, s')"
  shows "eip s' = eip s" "g_pMemoryBlocks s' = g_pMemoryBlocks s"
    "g_hooks s' = (g_hooks s)[pos := (g_hooks s ! pos)\<lparr>isEnabled := False, queueEnable := False\<rparr>]"
proof -
  let ?l = "s\<lparr>g_isLocked := True\<rparr>"
  obtain ts sf where f: "Freeze e (Some pos) ACTION_ENABLE ?l = (ts, sf)" by fastforce
  obtain st se where l: "EnableHookLL e pos False sf = (st, se)" by fastforce
  have find: "FindHookEntry target ?l = Some pos" using assms(1) by (simp add: FindHookEntry_def)
  have r: "st = MH_OK" "s' = LeaveSpinLock (Unfreeze e ts se)"
    using assms(2-4) find f l
    by (auto simp: MH_DisableHook_def EnableHook_def under_lock_def EnterSpinLock_def Let_def split: if_splits)
  have same: "threads_only ?l sf" "threads_only se (Unfreeze e ts se)" using Freeze_threads [OF f] Unfreeze_threads by blast+
  have e: "eip sf = eip s" using f assms(2) fold_freeze_still [of ?l pos e] by (auto simp: Freeze_def Let_def split: option.splits)
  have se: "eip se = eip sf" "g_pMemoryBlocks se = g_pMemoryBlocks sf" "g_hooks se = (g_hooks sf)[pos := (g_hooks sf ! pos)\<lparr>isEnabled := False, queueEnable := False\<rparr>]"
    using l r(1) by (auto simp: EnableHookLL_def Let_def split: if_splits)
  show "eip s' = eip s" using e se(1) by (simp add: r(2) LeaveSpinLock_def)
  show "g_pMemoryBlocks s' = g_pMemoryBlocks s" "g_hooks s' = (g_hooks s)[pos := (g_hooks s ! pos)\<lparr>isEnabled := False, queueEnable := False\<rparr>]"
    using same se(2,3) by (simp_all add: r(2) LeaveSpinLock_def threads_only_def)
qed

lemma FindHookEntry_cong:
  assumes "map pTarget (g_hooks s') = map pTarget (g_hooks s)"
  shows "FindHookEntry t s' = FindHookEntry t s"
proof -
  have l: "length (g_hooks s') = length (g_hooks s)" using assms by (rule map_eq_imp_length_eq)
  have "pTarget (g_hooks s' ! i) = pTarget (g_hooks s ! i)" if "i < length (g_hooks s)" for i
    using arg_cong [OF assms, of "\<lambda>xs. xs ! i"] that l by simp
  then have "filter (\<lambda>i. pTarget (g_hooks s' ! i) = t) [0..<length (g_hooks s)] = filter (\<lambda>i. pTarget (g_hooks s ! i) = t) [0..<length (g_hooks s)]"
    by (intro filter_cong) simp_all
  then show ?thesis by (simp add: FindHookEntry_def l)
qed

theorem disable_strands_threads:
  assumes "ready T R m0 s" "FindHookEntry target s = Some pos" "isEnabled (g_hooks s ! pos)" "target \<noteq> 0"
    "MH_DisableHook e target s = Some (MH_OK, s1)" "MH_RemoveHook e' target s1 = Some (MH_OK, s2)"
  shows "eip s2 = eip s \<and> pTrampoline (g_hooks s ! pos) \<notin> live_slots (g_pMemoryBlocks s2)"
proof -
  note d = MH_DisableHook_still [OF assms(2-5)]
  have pos: "pos < length (g_hooks s)" using FindHookEntry_Some [OF assms(2)] by simp
  have "map pTarget (g_hooks s1) = map pTarget (g_hooks s)" using pos by (simp add: d(3) map_update_same)
  then have "FindHookEntry target (s1\<lparr>g_isLocked := True\<rparr>) = Some pos" using assms(2) FindHookEntry_cong [of "s1\<lparr>g_isLocked := True\<rparr>" s] by simp
  moreover have "\<not> isEnabled (g_hooks s1 ! pos)" "pTrampoline (g_hooks s1 ! pos) = pTrampoline (g_hooks s ! pos)" using pos by (simp_all add: d(3))
  ultimately have r: "eip s2 = eip s1" "g_pMemoryBlocks s2 = FreeBuffer (pTrampoline (g_hooks s ! pos)) (g_pMemoryBlocks s1)"
    using assms(6)
    by (auto simp: MH_RemoveHook_def under_lock_def EnterSpinLock_def LeaveSpinLock_def DeleteHookEntry_def Let_def split: if_splits)
  have "live_slots (g_pMemoryBlocks s) = pTrampoline ` set (g_hooks s)" "blocks_ok (g_pMemoryBlocks s)"
    using assms(1) by (simp_all add: ready_def hooks_ok_def slots_ok_def)
  then show ?thesis using buf.release_ok [of "g_pMemoryBlocks s" "pTrampoline (g_hooks s ! pos)"] pos r d(1,2) by simp
qed

end
