(* ===== verification/Logging.thy ===== *)
theory Logging
  imports Prelude
begin

text \<open>
  The small services of the library: the log file (\<^verbatim>\<open>src/src/Log.cpp\<close>), the exception that carries a result code
  (\<^verbatim>\<open>src/src/COMAPIException.cpp\<close>) and the owner of a Windows event (\<^verbatim>\<open>src/src/EventObject.cpp\<close>).

  The process environment and whether a file opens are an argument of the functions, and so are the thread and the clock that a line of the log
  names. Files are a map from names to their contents as text, where mode \<^verbatim>\<open>"a"\<close> adds at the end. Every function of the log holds its mutex from
  start to end, so a run of the program is a sequence of them.
\<close>

section \<open>Numbers as text\<close>

text \<open>\<^verbatim>\<open>%u\<close>, \<^verbatim>\<open>%08X\<close> and \<^verbatim>\<open>atoi\<close>; the callers only ask whether the last is zero, so it is not cut to the range of an \<^verbatim>\<open>int\<close>.\<close>

definition digit :: "nat \<Rightarrow> char" where
  "digit n = ''0123456789ABCDEF'' ! n"

fun format_u :: "nat \<Rightarrow> string" where
  "format_u n = (if n < 10 then [digit n] else format_u (n div 10) @ [digit (n mod 10)])"

declare format_u.simps [simp del]

fun format_X :: "nat \<Rightarrow> nat \<Rightarrow> string" where
  "format_X 0 n = []"
| "format_X (Suc k) n = format_X k (n div 16) @ [digit (n mod 16)]"

definition digit_value :: "char \<Rightarrow> nat" where
  "digit_value c = (if of_char c < (58 :: nat) then of_char c - 48 else of_char c - 55)"

definition numeral_value :: "nat \<Rightarrow> string \<Rightarrow> nat" where
  "numeral_value b s = foldl (\<lambda>a c. b * a + digit_value c) 0 s"

definition is_digit :: "char \<Rightarrow> bool" where
  "is_digit c \<longleftrightarrow> (48 :: nat) \<le> of_char c \<and> of_char c \<le> (57 :: nat)"

definition space_char :: "char \<Rightarrow> bool" where
  "space_char c \<longleftrightarrow> of_char c = (32 :: nat) \<or> (9 :: nat) \<le> of_char c \<and> of_char c \<le> (13 :: nat)"

definition atoi :: "string \<Rightarrow> int" where
  "atoi s =
     (case dropWhile space_char s of
        [] \<Rightarrow> 0
      | c # r \<Rightarrow>
          (if c = CHR ''-'' then - int (numeral_value 10 (takeWhile is_digit r))
           else if c = CHR ''+'' then int (numeral_value 10 (takeWhile is_digit r))
           else int (numeral_value 10 (takeWhile is_digit (c # r)))))"

section \<open>The log\<close>

record environment =
  getenv :: "string \<Rightarrow> string option"
  fopen_succeeds :: "string \<Rightarrow> bool"

record log_state =
  initialised :: bool
  log_fh :: "string option"
  trace_enabled :: bool
  files :: "string \<Rightarrow> string"

definition log_init :: "environment \<Rightarrow> log_state \<Rightarrow> log_state" where
  "log_init e s =
     (if initialised s then s
      else s\<lparr>log_fh := (case getenv e ''DPLITE_LOG'' of None \<Rightarrow> log_fh s | Some f \<Rightarrow> if fopen_succeeds e f then Some f else None),
             trace_enabled := (case getenv e ''DPLITE_TRACE'' of None \<Rightarrow> False | Some t \<Rightarrow> atoi t \<noteq> 0),
             initialised := True\<rparr>)"

definition log_fini :: "log_state \<Rightarrow> log_state" where
  "log_fini s = s\<lparr>initialised := False, trace_enabled := False, log_fh := None\<rparr>"

definition log_trace_enabled :: "environment \<Rightarrow> log_state \<Rightarrow> bool \<times> log_state" where
  "log_trace_enabled e s = (let s1 = log_init e s in (trace_enabled s1, s1))"

definition log_line :: "dword \<Rightarrow> dword \<Rightarrow> string \<Rightarrow> string" where
  "log_line thread time text = ''[thread='' @ format_u (unat thread) @ '' time='' @ format_u (unat time) @ ''] '' @ text @ [char_of (10 :: nat)]"

definition fprintf :: "string \<Rightarrow> string \<Rightarrow> log_state \<Rightarrow> log_state" where
  "fprintf f text s = s\<lparr>files := (files s)(f := files s f @ text)\<rparr>"

definition log_printf :: "environment \<Rightarrow> dword \<Rightarrow> dword \<Rightarrow> string \<Rightarrow> log_state \<Rightarrow> log_state" where
  "log_printf e thread time text s =
     (let s1 = log_init e s in
      case log_fh s1 of None \<Rightarrow> s1 | Some f \<Rightarrow> fprintf f (log_line thread time text) s1)"

text \<open>\<open>message\<close> is what \<^verbatim>\<open>FormatMessage\<close> left in the buffer of 256 zeroed bytes, the last of which it is not given.\<close>

definition win_strerror :: "string \<Rightarrow> string" where
  "win_strerror message = takeWhile (\<lambda>c. of_char c \<notin> {0 :: nat, 10, 13}) (take 255 message)"

section \<open>The exception\<close>

record COMAPIException =
  hr :: hresult
  what_s :: string

definition new_COMAPIException :: "hresult \<Rightarrow> COMAPIException" where
  "new_COMAPIException result = \<lparr>hr = result, what_s = take 63 (''COMAPIException, HRESULT '' @ format_X 8 (unat result))\<rparr>"

section \<open>The event\<close>

text \<open>\<open>answer\<close> is the handle \<^verbatim>\<open>CreateEvent\<close> returns, and the second argument the handles the process has open.\<close>

definition new_EventObject :: "nat option \<Rightarrow> nat set \<Rightarrow> (string + nat) \<times> nat set" where
  "new_EventObject answer open = (case answer of None \<Rightarrow> (Inl ''Unable to create event object'', open) | Some h \<Rightarrow> (Inr h, insert h open))"

definition delete_EventObject :: "nat \<Rightarrow> nat set \<Rightarrow> nat set" where
  "delete_EventObject handle open = open - {handle}"

section \<open>Numbers are read back\<close>

lemma digits_checked:
  "list_all (\<lambda>n. digit_value (digit n) = n \<and> (n < 10 \<longrightarrow> is_digit (digit n) \<and> \<not> space_char (digit n) \<and> digit n \<notin> {CHR ''-'', CHR ''+''})) [0..<16]"
  by code_simp

lemma digit_read: "n < 16 \<Longrightarrow> digit_value (digit n) = n"
  and digit_decimal: "n < 10 \<Longrightarrow> is_digit (digit n) \<and> \<not> space_char (digit n) \<and> digit n \<noteq> CHR ''-'' \<and> digit n \<noteq> CHR ''+''"
  using digits_checked by (simp_all add: list_all_iff)

lemma numeral_value_snoc: "numeral_value b (s @ [c]) = b * numeral_value b s + digit_value c"
  by (simp add: numeral_value_def)

lemma format_u_value: "numeral_value 10 (format_u n) = n"
proof (induction n rule: format_u.induct)
  case (1 n)
  then show ?case
    by (subst format_u.simps) (auto simp: numeral_value_snoc digit_read, simp add: numeral_value_def digit_read)
qed

lemma format_X_value: "numeral_value 16 (format_X k n) = n mod 16 ^ k"
proof (induction k arbitrary: n)
  case (Suc k)
  have "16 * (n div 16 mod 16 ^ k) + n mod 16 = n mod (16 * 16 ^ k)" by (simp add: mod_mult2_eq)
  then show ?case by (simp add: numeral_value_snoc Suc digit_read)
qed (simp add: numeral_value_def)

lemma format_X_length [simp]: "length (format_X k n) = k"
  by (induction k arbitrary: n) simp_all

lemma format_u_digits: "list_all is_digit (format_u n) \<and> (\<exists>c r. format_u n = c # r \<and> \<not> space_char c \<and> c \<noteq> CHR ''-'' \<and> c \<noteq> CHR ''+'')"
proof (induction n rule: format_u.induct)
  case (1 n)
  then show ?case by (subst (1 2) format_u.simps) (auto simp: digit_decimal)
qed

lemma atoi_format_u: "atoi (format_u n) = int n"
proof -
  obtain c r where c: "format_u n = c # r" "\<not> space_char c" "c \<noteq> CHR ''-''" "c \<noteq> CHR ''+''" "list_all is_digit (c # r)"
    using format_u_digits [of n] by auto
  then have tw: "takeWhile is_digit r = r" by (simp add: list_all_iff takeWhile_eq_all_conv)
  show ?thesis using c format_u_value [of n] by (simp add: atoi_def tw)
qed

lemma what_tells_result:
  "numeral_value 16 (drop 25 (what_s (new_COMAPIException result))) = unat (hr (new_COMAPIException result))"
  "length (what_s (new_COMAPIException result)) = 33"
  using unsigned_less [of result, where ?'a = nat] by (simp_all add: new_COMAPIException_def format_X_value take_Cons' del: format_X.simps)

section \<open>What the log file holds\<close>

datatype log_call = Init | Fini | Trace | Print dword dword string

fun do_log :: "environment \<Rightarrow> log_call \<Rightarrow> log_state \<Rightarrow> log_state" where
  "do_log e Init s = log_init e s"
| "do_log e Fini s = log_fini s"
| "do_log e Trace s = snd (log_trace_enabled e s)"
| "do_log e (Print thread time text) s = log_printf e thread time text s"

fun printed :: "log_call list \<Rightarrow> string" where
  "printed [] = []"
| "printed (Print thread time text # cs) = log_line thread time text @ printed cs"
| "printed (c # cs) = printed cs"

definition new_log :: "(string \<Rightarrow> string) \<Rightarrow> log_state" where
  "new_log fs = \<lparr>initialised = False, log_fh = None, trace_enabled = False, files = fs\<rparr>"

definition log_file :: "environment \<Rightarrow> string option" where
  "log_file e = (case getenv e ''DPLITE_LOG'' of None \<Rightarrow> None | Some f \<Rightarrow> if fopen_succeeds e f then Some f else None)"

definition log_wanted :: "environment \<Rightarrow> bool" where
  "log_wanted e = (case getenv e ''DPLITE_TRACE'' of None \<Rightarrow> False | Some t \<Rightarrow> atoi t \<noteq> 0)"

definition log_ok :: "environment \<Rightarrow> log_state \<Rightarrow> bool" where
  "log_ok e s \<longleftrightarrow> log_fh s = (if initialised s then log_file e else None) \<and> trace_enabled s = (initialised s \<and> log_wanted e)"

lemma log_init_ok: "log_ok e s \<Longrightarrow> log_init e s = s\<lparr>initialised := True, log_fh := log_file e, trace_enabled := log_wanted e\<rparr>"
  by (cases s) (auto simp: log_ok_def log_init_def log_file_def log_wanted_def split: option.split)

lemma do_log_ok: "log_ok e s \<Longrightarrow> log_ok e (do_log e c s)"
  by (cases c) (auto simp: log_init_ok log_fini_def log_trace_enabled_def log_printf_def Let_def fprintf_def log_ok_def split: option.split)

lemma log_calls_ok: "log_ok e s \<Longrightarrow> log_ok e (fold (do_log e) cs s)"
  by (induction cs arbitrary: s) (simp_all add: do_log_ok)

lemma do_log_files:
  "log_ok e s \<Longrightarrow> files (do_log e c s) f = files s f @ (if log_file e = Some f then printed [c] else [])"
  by (cases c) (auto simp: log_init_ok log_fini_def log_trace_enabled_def log_printf_def Let_def fprintf_def split: option.split)

lemma printed_Cons: "printed (c # cs) = printed [c] @ printed cs"
  by (cases c) simp_all

lemma log_calls_files:
  "log_ok e s \<Longrightarrow> files (fold (do_log e) cs s) f = files s f @ (if log_file e = Some f then printed cs else [])"
proof (induction cs arbitrary: s)
  case (Cons c cs)
  then show ?case using do_log_files [of e s c f] by (simp add: do_log_ok) (metis printed_Cons)
qed simp

text \<open>
  Nothing written to the log is lost. Whatever the calls and wherever among them the log is closed, the file that \<^verbatim>\<open>DPLITE_LOG\<close> names, if it
  can be opened, keeps what it held and gains every printed line once and in order; no other file changes, and without such a file nothing is
  written. Tracing is on exactly when \<^verbatim>\<open>DPLITE_TRACE\<close> is a number other than zero, at every moment it is asked for.
\<close>

theorem log_lines_kept:
  "files (fold (do_log e) cs (new_log fs)) f
     = fs f @ (if getenv e ''DPLITE_LOG'' = Some f \<and> fopen_succeeds e f then printed cs else [])
   \<and> fst (log_trace_enabled e (fold (do_log e) cs (new_log fs))) = (case getenv e ''DPLITE_TRACE'' of None \<Rightarrow> False | Some t \<Rightarrow> atoi t \<noteq> 0)"
proof -
  have "log_ok e (new_log fs)" by (simp add: log_ok_def new_log_def)
  note ok = log_calls_ok [OF this] and kept = log_calls_files [OF this, of cs f]
  have "log_file e = Some f \<longleftrightarrow> getenv e ''DPLITE_LOG'' = Some f \<and> fopen_succeeds e f" by (auto simp: log_file_def split: option.split)
  then show ?thesis using kept ok by (simp add: new_log_def log_trace_enabled_def log_init_ok Let_def log_wanted_def)
qed

section \<open>Messages of the system\<close>

lemma win_strerror_one_line: "c \<in> set (win_strerror m) \<Longrightarrow> of_char c \<notin> {0 :: nat, 10, 13}" "length (win_strerror m) \<le> 255"
  using length_takeWhile_le [of "\<lambda>c. of_char c \<notin> {0 :: nat, 10, 13}" "take 255 m"]
  by (auto simp: win_strerror_def dest: set_takeWhileD)

lemma event_closed: "new_EventObject a h0 = (Inr h, h1) \<Longrightarrow> h \<notin> h0 \<Longrightarrow> delete_EventObject h h1 = h0"
  by (auto simp: new_EventObject_def delete_EventObject_def split: option.splits)

end
