(* ===== verification/HookDll.thy ===== *)
theory HookDll
  imports HookThreads ComServer Logging
begin

text \<open>
  The hook DLL of \<^verbatim>\<open>src/hookdll/hookdll.cpp\<close>: loaded in place of a DLL of the system, it hooks the functions that initialise COM and
  registers the classes of the library while COM is initialised.

  The answers of COM and of the loader are arguments. A call that ends in \<^verbatim>\<open>abort\<close> is \<open>Aborted\<close>. \<open>class_objects\<close> is the
  account of the calls the DLL makes: the registrations it asked for and did not revoke, by their cookies, with the factories and the
  references to them that were not given back. What COM does with a registration is not modelled.
\<close>

section \<open>State\<close>

datatype 'a outcome = Aborted | Done 'a

record hook_dll =
  dll_handle :: "nat option"
  coinit_depth :: dword
  DirectPlay8Address_cookie :: dword
  DirectPlay8Peer_cookie :: dword
  real_CoInitialize :: "addr option"
  real_CoInitializeEx :: "addr option"
  real_CoUninitialize :: "addr option"
  minhook :: MinHook
  class_objects :: "dword \<rightharpoonup> guid \<times> Factory"
  log :: log_state

definition then_do :: "'a outcome \<Rightarrow> ('a \<Rightarrow> 'b outcome) \<Rightarrow> 'b outcome" where
  "then_do r f = (case r of Aborted \<Rightarrow> Aborted | Done x \<Rightarrow> f x)"

lemma then_do_simps [simp]: "then_do Aborted f = Aborted" "then_do (Done x) f = f x"
  by (simp_all add: then_do_def)

section \<open>Registering the classes\<close>

text \<open>
  \<^verbatim>\<open>register_class\<close> with the result and the cookie of \<^verbatim>\<open>CoRegisterClassObject\<close>, which adds a reference to the factory; the one of
  its creator is released. A factory without references is gone.
\<close>

definition register_class :: "guid \<Rightarrow> com_class \<Rightarrow> hresult \<times> dword \<Rightarrow> (dword \<rightharpoonup> guid \<times> Factory) \<Rightarrow> (dword \<times> (dword \<rightharpoonup> guid \<times> Factory)) outcome" where
  "register_class clsid cls answer objs =
     (let (factory, _) = new_Factory cls None
      in if fst answer \<noteq> S_OK then Aborted
         else let (_, factory1, _) = factory_AddRef factory None; (_, kept_factory, _) = factory_Release factory1 None
              in Done (snd answer, objs(snd answer := map_option (Pair clsid) kept_factory)))"

record com_answers =
  com_result :: hresult
  com_address :: "hresult \<times> dword"
  com_peer :: "hresult \<times> dword"

definition register_classes :: "com_answers \<Rightarrow> hook_dll \<Rightarrow> hook_dll outcome" where
  "register_classes a d =
     then_do (register_class CLSID_DirectPlay8Address DirectPlay8AddressClass (com_address a) (class_objects d)) (\<lambda>(c1, objs1).
       then_do (register_class CLSID_DirectPlay8Peer DirectPlay8PeerClass (com_peer a) objs1) (\<lambda>(c2, objs2).
         Done (d\<lparr>DirectPlay8Address_cookie := c1, DirectPlay8Peer_cookie := c2, class_objects := objs2\<rparr>)))"

definition hook_CoInitialize :: "com_answers \<Rightarrow> hook_dll \<Rightarrow> (hresult \<times> hook_dll) outcome" where
  "hook_CoInitialize a d =
     (let res = com_result a
      in if res = S_OK \<or> res = S_FALSE
         then let d1 = d\<lparr>coinit_depth := coinit_depth d + 1\<rparr>
              in if coinit_depth d1 = 1 then then_do (register_classes a d1) (\<lambda>d2. Done (res, d2)) else Done (res, d1)
         else Done (res, d))"

definition hook_CoInitializeEx :: "com_answers \<Rightarrow> hook_dll \<Rightarrow> (hresult \<times> hook_dll) outcome" where
  "hook_CoInitializeEx a d =
     (let res = com_result a
      in if res = S_OK \<or> res = S_FALSE
         then let d1 = d\<lparr>coinit_depth := coinit_depth d + 1\<rparr>
              in if coinit_depth d1 = 1 then then_do (register_classes a d1) (\<lambda>d2. Done (res, d2)) else Done (res, d1)
         else Done (res, d))"

text \<open>The two calls of \<^verbatim>\<open>CoRevokeClassObject\<close>, whose results the code ignores, strike their cookies from the account.\<close>

definition hook_CoUninitialize :: "hook_dll \<Rightarrow> hook_dll" where
  "hook_CoUninitialize d =
     (let d1 = d\<lparr>coinit_depth := coinit_depth d - 1\<rparr>
      in if coinit_depth d1 = 0
         then d1\<lparr>class_objects := (class_objects d1)(DirectPlay8Peer_cookie d1 := None, DirectPlay8Address_cookie d1 := None)\<rparr>
         else d1)"

section \<open>Forwarding to the DLL it stands in for\<close>

text \<open>
  \<^verbatim>\<open>find_sym\<close>: the path of the system directory as the buffer holds it, the loader and the lookup of a symbol are arguments; the buffer has 512 characters.
\<close>

definition find_sym :: "string \<Rightarrow> (string \<Rightarrow> nat option) \<Rightarrow> (nat \<Rightarrow> string \<Rightarrow> addr option) \<Rightarrow> string \<Rightarrow> string \<Rightarrow> hook_dll \<Rightarrow> (addr \<times> hook_dll) outcome" where
  "find_sym path LoadLibrary GetProcAddress dll_name sym_name d =
     then_do (case dll_handle d of
                Some h \<Rightarrow> Done (h, d)
              | None \<Rightarrow>
                  if length path + length dll_name + 2 > 512 then Aborted
                  else (case LoadLibrary (path @ [CHR 0x5C] @ dll_name) of
                          None \<Rightarrow> Aborted
                        | Some h \<Rightarrow> Done (h, d\<lparr>dll_handle := Some h\<rparr>)))
       (\<lambda>(h, d1). case GetProcAddress h sym_name of None \<Rightarrow> Aborted | Some a \<Rightarrow> Done (a, d1))"

section \<open>Loading and unloading\<close>

text \<open>One pair of \<^verbatim>\<open>MH_CreateHook\<close> and \<^verbatim>\<open>MH_EnableHook\<close>: what was written to the pointer of the original, if both succeeded.\<close>

definition create_and_enable :: "os \<times> os \<Rightarrow> addr \<Rightarrow> addr \<Rightarrow> MinHook \<Rightarrow> (addr \<times> MinHook) outcome option" where
  "create_and_enable e target detour s =
     Option.bind (MH_CreateHook (fst e) target detour s) (\<lambda>((st, orig), s1).
       case orig of
         None \<Rightarrow> Some Aborted
       | Some tramp \<Rightarrow>
           if st \<noteq> MH_OK then Some Aborted
           else Option.bind (MH_EnableHook (snd e) target s1) (\<lambda>(st2, s2). Some (if st2 \<noteq> MH_OK then Aborted else Done (tramp, s2))))"

text \<open>The functions of COM and those that replace them.\<close>

record com_functions =
  CoInitialize :: addr
  CoInitializeEx :: addr
  CoUninitialize :: addr
  at_hook_CoInitialize :: addr
  at_hook_CoInitializeEx :: addr
  at_hook_CoUninitialize :: addr

text \<open>\<open>w\<close> is the environment, the thread and the time of the message in the log; the other messages are followed by \<^verbatim>\<open>abort\<close>.\<close>

definition DllMain_process_attach :: "environment \<times> dword \<times> dword \<Rightarrow> os \<Rightarrow> (os \<times> os) \<times> (os \<times> os) \<times> (os \<times> os) \<Rightarrow> com_functions \<Rightarrow> hook_dll \<Rightarrow> (bool \<times> hook_dll) outcome option" where
  "DllMain_process_attach w e es fn d =
     (case es of (e1, e2, e3) \<Rightarrow>
       Option.bind (MH_Initialize e (minhook d)) (\<lambda>(st, s0).
         if st \<noteq> MH_OK then Some (Done (False, d\<lparr>minhook := s0, log := log_printf (fst w) (fst (snd w)) (snd (snd w)) ''Unable to initialise MinHook'' (log d)\<rparr>))
         else Option.bind (create_and_enable e1 (CoInitialize fn) (at_hook_CoInitialize fn) s0) (\<lambda>r1. case r1 of Aborted \<Rightarrow> Some Aborted | Done (t1, s1) \<Rightarrow>
           Option.bind (create_and_enable e2 (CoInitializeEx fn) (at_hook_CoInitializeEx fn) s1) (\<lambda>r2. case r2 of Aborted \<Rightarrow> Some Aborted | Done (t2, s2) \<Rightarrow>
             Option.bind (create_and_enable e3 (CoUninitialize fn) (at_hook_CoUninitialize fn) s2) (\<lambda>r3. case r3 of Aborted \<Rightarrow> Some Aborted | Done (t3, s3) \<Rightarrow>
               Some (Done (True, d\<lparr>real_CoInitialize := Some t1, real_CoInitializeEx := Some t2, real_CoUninitialize := Some t3, minhook := s3\<rparr>)))))))"

fun remove_all :: "(os \<times> addr) list \<Rightarrow> MinHook \<Rightarrow> MinHook outcome option" where
  "remove_all [] s = Some (Done s)"
| "remove_all ((e, t) # ts) s = Option.bind (MH_RemoveHook e t s) (\<lambda>(st, s1). if st \<noteq> MH_OK then Some Aborted else remove_all ts s1)"

text \<open>\<open>reserved\<close> is whether \<open>lpvReserved\<close> is set: the process is ending, and nothing is done.\<close>

definition DllMain_process_detach :: "bool \<Rightarrow> os \<times> os \<times> os \<times> os \<Rightarrow> com_functions \<Rightarrow> hook_dll \<Rightarrow> (bool \<times> hook_dll) outcome option" where
  "DllMain_process_detach reserved es fn d =
     (if reserved then Some (Done (True, d))
      else case es of (e1, e2, e3, e4) \<Rightarrow>
        Option.bind (remove_all [(e1, CoUninitialize fn), (e2, CoInitializeEx fn), (e3, CoInitialize fn)] (minhook d)) (\<lambda>r. case r of Aborted \<Rightarrow> Some Aborted | Done s \<Rightarrow>
          Option.bind (MH_Uninitialize e4 s) (\<lambda>(st, s'). Some (if st \<noteq> MH_OK then Aborted else Done (True, d\<lparr>minhook := s', log := log_fini (log d)\<rparr>)))))"

section \<open>Classes are registered while COM is in use\<close>

datatype com_call = CallInitialize com_answers | CallInitializeEx com_answers | CallUninitialize

fun run_com :: "com_call list \<Rightarrow> hook_dll \<Rightarrow> hook_dll outcome" where
  "run_com [] d = Done d"
| "run_com (CallInitialize a # cs) d = then_do (hook_CoInitialize a d) (\<lambda>(_, d1). run_com cs d1)"
| "run_com (CallInitializeEx a # cs) d = then_do (hook_CoInitializeEx a d) (\<lambda>(_, d1). run_com cs d1)"
| "run_com (CallUninitialize # cs) d = run_com cs (hook_CoUninitialize d)"

text \<open>
  How deep COM is initialised after the calls; \<open>None\<close> is a call of \<^verbatim>\<open>CoUninitialize\<close> without its \<^verbatim>\<open>CoInitialize\<close>, or more calls than an
  \<^verbatim>\<open>unsigned int\<close> counts.
\<close>

definition deeper :: "com_answers \<Rightarrow> nat \<Rightarrow> nat option" where
  "deeper a n = (if com_result a = S_OK \<or> com_result a = S_FALSE then if n + 1 < 2 ^ 32 then Some (n + 1) else None else Some n)"

fun nesting :: "com_call list \<Rightarrow> nat \<Rightarrow> nat option" where
  "nesting [] n = Some n"
| "nesting (CallInitialize a # cs) n = Option.bind (deeper a n) (nesting cs)"
| "nesting (CallInitializeEx a # cs) n = Option.bind (deeper a n) (nesting cs)"
| "nesting (CallUninitialize # cs) n = (if n = 0 then None else nesting cs (n - 1))"

text \<open>What COM promises: registrations succeed, each with a cookie of its own.\<close>

fun obliging :: "com_call \<Rightarrow> bool" where
  "obliging (CallInitialize a) \<longleftrightarrow> fst (com_address a) = S_OK \<and> fst (com_peer a) = S_OK \<and> snd (com_address a) \<noteq> snd (com_peer a)"
| "obliging (CallInitializeEx a) \<longleftrightarrow> fst (com_address a) = S_OK \<and> fst (com_peer a) = S_OK \<and> snd (com_address a) \<noteq> snd (com_peer a)"
| "obliging CallUninitialize \<longleftrightarrow> True"

definition both_classes :: "hook_dll \<Rightarrow> (dword \<rightharpoonup> guid \<times> Factory)" where
  "both_classes d =
     [DirectPlay8Address_cookie d \<mapsto> (CLSID_DirectPlay8Address, \<lparr>fac_class = DirectPlay8AddressClass, fac_refcount = 1\<rparr>),
      DirectPlay8Peer_cookie d \<mapsto> (CLSID_DirectPlay8Peer, \<lparr>fac_class = DirectPlay8PeerClass, fac_refcount = 1\<rparr>)]"

definition follows :: "nat \<Rightarrow> hook_dll \<Rightarrow> bool" where
  "follows n d \<longleftrightarrow> n < 2 ^ 32 \<and> coinit_depth d = word_of_nat n \<and> class_objects d = (if n = 0 then Map.empty else both_classes d)"

lemma register_class_ok:
  "fst answer = S_OK \<Longrightarrow> register_class clsid cls answer objs = Done (snd answer, objs(snd answer \<mapsto> (clsid, \<lparr>fac_class = cls, fac_refcount = 1\<rparr>)))"
  by (simp add: register_class_def new_Factory_def factory_AddRef_def factory_Release_def)

lemma register_classes_ok:
  assumes "obliging (CallInitialize a)" "class_objects d = Map.empty"
  shows "\<exists>d'. register_classes a d = Done d' \<and> class_objects d' = both_classes d' \<and> coinit_depth d' = coinit_depth d"
  using assms by (simp add: register_classes_def register_class_ok both_classes_def)

lemma depth_zero_iff: "n < 2 ^ 32 \<Longrightarrow> (word_of_nat n = (0 :: dword)) = (n = 0)"
  by (auto simp: word_of_nat_eq_0_iff dest: nat_dvd_not_less)

lemma hook_CoInitialize_follows:
  assumes "follows n d" "obliging (CallInitialize a)" "deeper a n = Some n'"
  shows "\<exists>r d'. hook_CoInitialize a d = Done (r, d') \<and> follows n' d'"
proof (cases "com_result a = S_OK \<or> com_result a = S_FALSE")
  case False
  then show ?thesis using assms by (auto simp: hook_CoInitialize_def deeper_def)
next
  case True
  then have n': "n' = n + 1" "n + 1 < 2 ^ 32" using assms(3) by (auto simp: deeper_def split: if_splits)
  have c: "coinit_depth (d\<lparr>coinit_depth := coinit_depth d + 1\<rparr>) = word_of_nat n'" using assms(1) by (simp add: follows_def n' add.commute)
  have one: "(word_of_nat n' = (1 :: dword)) = (n = 0)" using depth_zero_iff [of n] n'(2) by (simp add: n'(1))
  show ?thesis
  proof (cases "n = 0")
    case True
    then obtain d' where "register_classes a (d\<lparr>coinit_depth := coinit_depth d + 1\<rparr>) = Done d'" "class_objects d' = both_classes d'"
      "coinit_depth d' = word_of_nat n'"
      using register_classes_ok [OF assms(2), of "d\<lparr>coinit_depth := coinit_depth d + 1\<rparr>"] assms(1) c by (auto simp: follows_def)
    then show ?thesis using \<open>com_result a = S_OK \<or> _\<close> c one True n' by (auto simp: hook_CoInitialize_def Let_def follows_def)
  next
    case False
    then show ?thesis
      using \<open>com_result a = S_OK \<or> _\<close> c one n' assms(1) by (auto simp: hook_CoInitialize_def Let_def follows_def both_classes_def)
  qed
qed

lemma hook_CoUninitialize_follows:
  assumes "follows n d" "n \<noteq> 0"
  shows "follows (n - 1) (hook_CoUninitialize d)"
proof -
  obtain k where k: "n = Suc k" using assms(2) by (cases n) auto
  have c: "coinit_depth d - 1 = word_of_nat k" using assms(1) by (simp add: follows_def k)
  have "(word_of_nat k = (0 :: dword)) = (k = 0)" using depth_zero_iff [of k] assms(1) by (simp add: follows_def k)
  then show ?thesis
    using assms(1) c by (auto simp: hook_CoUninitialize_def Let_def follows_def k both_classes_def fun_eq_iff)
qed

lemma hook_CoInitializeEx_same: "hook_CoInitializeEx = hook_CoInitialize"
  by (simp add: hook_CoInitialize_def hook_CoInitializeEx_def fun_eq_iff)

lemma run_com_follows:
  "follows n d \<Longrightarrow> \<forall>c \<in> set cs. obliging c \<Longrightarrow> nesting cs n = Some n' \<Longrightarrow> \<exists>d'. run_com cs d = Done d' \<and> follows n' d'"
proof (induction cs arbitrary: n d)
  case (Cons c cs)
  have init: ?case if p: "obliging (CallInitialize a)" "nesting (c # cs) n = Option.bind (deeper a n) (nesting cs)"
    "run_com (c # cs) d = then_do (hook_CoInitialize a d) (\<lambda>(_, d1). run_com cs d1)" for a
  proof -
    obtain m where m: "deeper a n = Some m" "nesting cs m = Some n'" using p(2) Cons.prems(3) by (auto split: bind_splits)
    from hook_CoInitialize_follows [OF Cons.prems(1) p(1) m(1)] obtain r d1 where "hook_CoInitialize a d = Done (r, d1)" "follows m d1" by blast
    then show ?thesis using Cons.IH [OF _ _ m(2)] Cons.prems(2) p(3) by simp
  qed
  show ?case
  proof (cases c)
    case (CallInitialize a)
    then show ?thesis using init [of a] Cons.prems(2) by simp
  next
    case (CallInitializeEx a)
    then show ?thesis using init [of a] Cons.prems(2) by (simp add: hook_CoInitializeEx_same)
  next
    case CallUninitialize
    then show ?thesis using Cons hook_CoUninitialize_follows [OF Cons.prems(1)] by (simp split: if_splits)
  qed
qed simp

text \<open>
  C28: The classes are registered exactly while COM is in use. From a process in which the hooks have seen no call of COM, and for any calls
  of \<^verbatim>\<open>CoInitialize\<close>, \<^verbatim>\<open>CoInitializeEx\<close> and \<^verbatim>\<open>CoUninitialize\<close> that match, failed ones included, none aborts, the depth is the number of
  successful initialisations that are open, and COM holds both classes, each with one reference to its factory, if that number is positive, and none if it is zero.
\<close>

theorem classes_follow_com:
  assumes "coinit_depth d = 0" "class_objects d = Map.empty" "\<forall>c \<in> set cs. obliging c" "nesting cs 0 = Some n"
  shows "\<exists>d'. run_com cs d = Done d' \<and> coinit_depth d' = word_of_nat n \<and> class_objects d' = (if n = 0 then Map.empty else both_classes d')"
proof -
  have "follows 0 d" using assms(1,2) by (simp add: follows_def)
  from run_com_follows [OF this assms(3,4)] show ?thesis by (auto simp: follows_def)
qed

definition demo_answers :: com_answers where
  "demo_answers = \<lparr>com_result = S_OK, com_address = (S_OK, 11), com_peer = (S_OK, 12)\<rparr>"

definition idle_dll :: "MinHook \<Rightarrow> hook_dll" where
  "idle_dll s = \<lparr>dll_handle = None, coinit_depth = 0, DirectPlay8Address_cookie = 0, DirectPlay8Peer_cookie = 0, real_CoInitialize = None,
     real_CoInitializeEx = None, real_CoUninitialize = None, minhook = s, class_objects = Map.empty, log = new_log (\<lambda>_. [])\<rparr>"

definition demo_log :: "environment \<times> dword \<times> dword" where
  "demo_log = (\<lparr>getenv = \<lambda>_. None, fopen_succeeds = \<lambda>_. True\<rparr>, 7, 9)"

definition demo_dll :: hook_dll where
  "demo_dll = idle_dll (unhooked demo_code (\<lambda>_. 0) (\<lambda>_. 0))"

theorem classes_follow_com_witness:
  "(\<exists>d'. run_com [CallInitialize demo_answers, CallInitializeEx (demo_answers\<lparr>com_result := S_FALSE\<rparr>), CallUninitialize] demo_dll = Done d'
      \<and> coinit_depth d' = 1 \<and> class_objects d' = both_classes d')
   \<and> (\<exists>d'. run_com [CallInitialize demo_answers, CallUninitialize] demo_dll = Done d' \<and> class_objects d' = Map.empty)"
  (is "(\<exists>d'. run_com ?c1 _ = _ \<and> _) \<and> (\<exists>d'. run_com ?c2 _ = _ \<and> _)")
proof -
  have d: "coinit_depth demo_dll = 0" "class_objects demo_dll = Map.empty" by (simp_all add: demo_dll_def idle_dll_def)
  have o1: "\<forall>c \<in> set ?c1. obliging c" and o2: "\<forall>c \<in> set ?c2. obliging c" by (simp_all add: demo_answers_def)
  have n1: "nesting ?c1 0 = Some 1" and n2: "nesting ?c2 0 = Some 0" by (simp_all add: demo_answers_def deeper_def)
  show ?thesis using classes_follow_com [OF d o1 n1] classes_follow_com [OF d o2 n2] by (auto simp del: run_com.simps)
qed

text \<open>
  A call of \<^verbatim>\<open>CoUninitialize\<close> whose \<^verbatim>\<open>CoInitialize\<close> came before the DLL was loaded takes the depth below zero; the next initialisation
  brings it back to zero, and registers nothing.
\<close>

theorem depth_underflow:
  assumes "coinit_depth d = 0" "com_result a = S_OK"
  shows "\<exists>d'. hook_CoInitialize a (hook_CoUninitialize d) = Done (S_OK, d') \<and> coinit_depth d' = 0 \<and> class_objects d' = class_objects d"
  using assms by (simp add: hook_CoInitialize_def hook_CoUninitialize_def Let_def)

section \<open>Loading and unloading the DLL\<close>

lemma MH_CreateHook_adds:
  assumes "MH_CreateHook e t d s = Some ((MH_OK, orig), s')"
  shows "\<exists>h. g_hooks s' = g_hooks s @ [h] \<and> pTarget h = t \<and> pDetour h = d \<and> orig = Some (pTrampoline h) \<and> \<not> isEnabled h"
proof -
  have "kept ct ct'" if "CreateTrampolineFunction x m ct = Some (True, ct', m')" for x m ct ct' m'
    using CreateTrampolineFunction_ok [of x m ct] that by fastforce
  then show ?thesis
    using assms unfolding MH_CreateHook_def under_lock_def EnterSpinLock_def LeaveSpinLock_def
    by (fastforce simp: Let_def AddHookEntry_def new_hook_def kept_def split: if_splits option.splits)
qed

lemma FindHookEntry_last:
  assumes "g_hooks s = hs @ [h]" "t \<notin> pTarget ` set hs" "pTarget h = t"
  shows "FindHookEntry t s = Some (length hs)"
proof -
  have "filter (\<lambda>i. pTarget ((hs @ [h]) ! i) = t) [0..<length hs] = []" using assms(2) by (force simp: filter_empty_conv nth_append)
  then show ?thesis using assms(1,3) by (simp add: FindHookEntry_def)
qed

lemma MH_EnableHook_sets:
  assumes "MH_EnableHook e t s = Some (MH_OK, s')" "t \<noteq> 0" "g_hooks s = hs @ [h]" "t \<notin> pTarget ` set hs" "pTarget h = t"
  shows "g_hooks s' = hs @ [h\<lparr>isEnabled := True, queueEnable := True\<rparr>]"
proof -
  let ?l = "s\<lparr>g_isLocked := True\<rparr>"
  have find: "FindHookEntry t ?l = Some (length hs)" by (rule FindHookEntry_last) (use assms in simp_all)
  obtain ts sf where f: "Freeze e (Some (length hs)) ACTION_ENABLE ?l = (ts, sf)" by fastforce
  obtain st se where l: "EnableHookLL e (length hs) True sf = (st, se)" by fastforce
  have r: "st = MH_OK" "s' = LeaveSpinLock (Unfreeze e ts se)"
    using assms(1-3) find f l by (auto simp: MH_EnableHook_def EnableHook_def under_lock_def EnterSpinLock_def Let_def split: if_splits)
  have "g_hooks se = (g_hooks sf)[length hs := (g_hooks sf ! length hs)\<lparr>isEnabled := True, queueEnable := True\<rparr>]"
    using l r(1) by (auto simp: EnableHookLL_def Let_def split: if_splits)
  then show ?thesis
    using Freeze_threads [OF f] Unfreeze_threads [of se e ts] assms(3) by (simp add: r(2) LeaveSpinLock_def threads_only_def)
qed

text \<open>What a pair of calls did to the table, and that it is a part of a sequence of calls.\<close>

lemma create_and_enable_hooks:
  assumes "create_and_enable e t d s = Some (Done (tramp, s'))" "t \<noteq> 0" "t \<notin> pTarget ` set (g_hooks s)"
  shows "\<exists>h. g_hooks s' = g_hooks s @ [h] \<and> pTarget h = t \<and> pDetour h = d \<and> pTrampoline h = tramp \<and> isEnabled h"
    "do_calls [(fst e, CreateHook t d), (snd e, Enable t)] s = Some ([MH_OK, MH_OK], s')"
proof -
  obtain s1 where c: "MH_CreateHook (fst e) t d s = Some ((MH_OK, Some tramp), s1)" "MH_EnableHook (snd e) t s1 = Some (MH_OK, s')"
    using assms(1) by (auto simp: create_and_enable_def split: bind_splits option.splits if_splits)
  from MH_CreateHook_adds [OF c(1)] obtain h where h: "g_hooks s1 = g_hooks s @ [h]" "pTarget h = t" "pDetour h = d" "pTrampoline h = tramp" by auto
  have "g_hooks s' = g_hooks s @ [h\<lparr>isEnabled := True, queueEnable := True\<rparr>]" by (rule MH_EnableHook_sets [OF c(2) assms(2) h(1) assms(3) h(2)])
  then show "\<exists>h. g_hooks s' = g_hooks s @ [h] \<and> pTarget h = t \<and> pDetour h = d \<and> pTrampoline h = tramp \<and> isEnabled h" using h by auto
  show "do_calls [(fst e, CreateHook t d), (snd e, Enable t)] s = Some ([MH_OK, MH_OK], s')" using c by simp
qed

lemma do_calls_append: "do_calls (cs @ ds) s = Option.bind (do_calls cs s) (\<lambda>(r, s1). Option.bind (do_calls ds s1) (\<lambda>(r', s2). Some (r @ r', s2)))"
proof (induction cs arbitrary: s)
  case (Cons ec cs)
  then show ?case by (cases ec) (auto split: bind_splits)
qed (auto split: bind_splits)

definition attach_calls :: "os \<Rightarrow> (os \<times> os) \<times> (os \<times> os) \<times> (os \<times> os) \<Rightarrow> com_functions \<Rightarrow> (os \<times> hook_call) list" where
  "attach_calls e es fn = (case es of (e1, e2, e3) \<Rightarrow>
     [(e, Initialize)]
     @ [(fst e1, CreateHook (CoInitialize fn) (at_hook_CoInitialize fn)), (snd e1, Enable (CoInitialize fn))]
     @ [(fst e2, CreateHook (CoInitializeEx fn) (at_hook_CoInitializeEx fn)), (snd e2, Enable (CoInitializeEx fn))]
     @ [(fst e3, CreateHook (CoUninitialize fn) (at_hook_CoUninitialize fn)), (snd e3, Enable (CoUninitialize fn))])"

text \<open>A successful attach is those calls, and leaves the three hooks.\<close>

lemma attach_hooks:
  assumes "DllMain_process_attach w e es fn d = Some (Done (True, d1))" "g_hooks (minhook d) = []" "\<not> g_isLocked (minhook d)"
    "distinct [CoInitialize fn, CoInitializeEx fn, CoUninitialize fn, 0]"
  shows "\<exists>h1 h2 h3 r. do_calls (attach_calls e es fn) (minhook d) = Some (r, minhook d1) \<and> g_hooks (minhook d1) = [h1, h2, h3]
    \<and> list_all isEnabled [h1, h2, h3]
    \<and> map pTarget [h1, h2, h3] = [CoInitialize fn, CoInitializeEx fn, CoUninitialize fn]
    \<and> map pDetour [h1, h2, h3] = [at_hook_CoInitialize fn, at_hook_CoInitializeEx fn, at_hook_CoUninitialize fn]
    \<and> map (Some \<circ> pTrampoline) [h1, h2, h3] = [real_CoInitialize d1, real_CoInitializeEx d1, real_CoUninitialize d1]"
proof -
  obtain e1 e2 e3 where es: "es = (e1, e2, e3)" by (cases es)
  obtain s0 t1 s1 t2 s2 t3 s3 where c: "MH_Initialize e (minhook d) = Some (MH_OK, s0)"
    "create_and_enable e1 (CoInitialize fn) (at_hook_CoInitialize fn) s0 = Some (Done (t1, s1))"
    "create_and_enable e2 (CoInitializeEx fn) (at_hook_CoInitializeEx fn) s1 = Some (Done (t2, s2))"
    "create_and_enable e3 (CoUninitialize fn) (at_hook_CoUninitialize fn) s2 = Some (Done (t3, s3))"
    "d1 = d\<lparr>real_CoInitialize := Some t1, real_CoInitializeEx := Some t2, real_CoUninitialize := Some t3, minhook := s3\<rparr>"
    using assms(1) by (auto simp: DllMain_process_attach_def es split: bind_splits outcome.splits if_splits)
  have s0: "g_hooks s0 = []" using c(1) assms(2,3) by (auto simp: MH_Initialize_def under_lock_def EnterSpinLock_def LeaveSpinLock_def split: if_splits)
  have x1: "CoInitialize fn \<noteq> 0" "CoInitialize fn \<notin> pTarget ` set (g_hooks s0)" using assms(4) s0 by simp_all
  obtain h1 where h1: "g_hooks s1 = [h1]" "pTarget h1 = CoInitialize fn" "pDetour h1 = at_hook_CoInitialize fn" "pTrampoline h1 = t1" "isEnabled h1"
    using create_and_enable_hooks(1) [OF c(2) x1] s0 by auto
  have x2: "CoInitializeEx fn \<noteq> 0" "CoInitializeEx fn \<notin> pTarget ` set (g_hooks s1)" using assms(4) h1 by auto
  obtain h2 where h2: "g_hooks s2 = [h1, h2]" "pTarget h2 = CoInitializeEx fn" "pDetour h2 = at_hook_CoInitializeEx fn" "pTrampoline h2 = t2" "isEnabled h2"
    using create_and_enable_hooks(1) [OF c(3) x2] h1 by auto
  have x3: "CoUninitialize fn \<noteq> 0" "CoUninitialize fn \<notin> pTarget ` set (g_hooks s2)" using assms(4) h1 h2 by auto
  obtain h3 where h3: "g_hooks s3 = [h1, h2, h3]" "pTarget h3 = CoUninitialize fn" "pDetour h3 = at_hook_CoUninitialize fn" "pTrampoline h3 = t3" "isEnabled h3"
    using create_and_enable_hooks(1) [OF c(4) x3] h2 by auto
  have "do_calls [(e, Initialize)] (minhook d) = Some ([MH_OK], s0)" using c(1) by simp
  note calls = this create_and_enable_hooks(2) [OF c(2) x1] create_and_enable_hooks(2) [OF c(3) x2] create_and_enable_hooks(2) [OF c(4) x3]
  have "\<exists>r. do_calls (attach_calls e es fn) (minhook d) = Some (r, s3)"
    unfolding attach_calls_def es prod.case
    by (simp only: do_calls_append calls Option.bind.bind_lunit prod.case option.inject prod.inject) blast
  then show ?thesis using h1 h2 h3 by (auto simp: c(5))
qed

lemma remove_all_ready: "world T R \<Longrightarrow> ready T R m0 s \<Longrightarrow> remove_all ts s = Some (Done s') \<Longrightarrow> ready T R m0 s'"
proof (induction ts arbitrary: s)
  case (Cons et ts)
  obtain e t where et: "et = (e, t)" by fastforce
  obtain st s1 where "MH_RemoveHook e t s = Some (st, s1)" "ready T R m0 s1" using MH_RemoveHook_ready [OF Cons.prems(1,2)] by blast
  then show ?case using Cons by (auto simp: et split: if_splits)
qed simp

lemma MH_Uninitialize_restores:
  assumes "world T R" "ready T R m0 s" "MH_Uninitialize e s = Some (MH_OK, s')"
  shows "\<forall>x. x \<notin> R \<longrightarrow> mem s' x = m0 x"
proof -
  have "ready T R m0 s'" using MH_Uninitialize_ready [OF assms(1,2), of e] assms(3) by auto
  moreover have "\<not> g_hHeap s'"
    using assms(3) by (auto simp: MH_Uninitialize_def under_lock_def EnterSpinLock_def LeaveSpinLock_def Let_def case_prod_beta split: if_splits)
  ultimately show ?thesis by (simp add: ready_def hooks_ok_def code_ok_def)
qed

lemma detach_restores:
  assumes "world T R" "ready T R m0 (minhook d)" "DllMain_process_detach False es fn d = Some (Done (True, d'))"
  shows "\<forall>x. x \<notin> R \<longrightarrow> mem (minhook d') x = m0 x"
proof -
  obtain e1 e2 e3 e4 where es: "es = (e1, e2, e3, e4)" by (metis prod_cases4)
  obtain s where s: "remove_all [(e1, CoUninitialize fn), (e2, CoInitializeEx fn), (e3, CoInitialize fn)] (minhook d) = Some (Done s)"
    "MH_Uninitialize e4 s = Some (MH_OK, minhook d')"
    using assms(3) unfolding DllMain_process_detach_def es prod.case if_False
    by (auto split: bind_splits outcome.splits if_splits simp del: remove_all.simps)
  show ?thesis using MH_Uninitialize_restores [OF assms(1) remove_all_ready [OF assms(1,2) s(1)] s(2)] .
qed

text \<open>
  C29: The life of the hook DLL. In a process where nothing is hooked and whose three functions of COM lie apart, let attaching succeed. Then each of
  the three functions redirects to its replacement, the pointers for calling the originals lead to the trampolines of the hooks, and every byte
  outside them and the trampolines is as before. If detaching while the process goes on succeeds after that, all code is as before the DLL was loaded.
\<close>

theorem hook_dll_life:
  assumes "T = {CoInitialize fn, CoInitializeEx fn, CoUninitialize fn}" "distinct [CoInitialize fn, CoInitializeEx fn, CoUninitialize fn, 0]"
    "world T R" "minhook d = unhooked m0 ips n" "fair T R (attach_calls e es fn) (minhook d)"
    "DllMain_process_attach w e es fn d = Some (Done (True, d1))"
  shows "redirects (mem (minhook d1)) (CoInitialize fn) (at_hook_CoInitialize fn)
    \<and> redirects (mem (minhook d1)) (CoInitializeEx fn) (at_hook_CoInitializeEx fn)
    \<and> redirects (mem (minhook d1)) (CoUninitialize fn) (at_hook_CoUninitialize fn)
    \<and> {real_CoInitialize d1, real_CoInitializeEx d1, real_CoUninitialize d1} = Some ` live_slots (g_pMemoryBlocks (minhook d1))
    \<and> (\<forall>x. x \<notin> R \<and> (\<forall>t \<in> T. x \<notin> window t) \<longrightarrow> mem (minhook d1) x = m0 x)
    \<and> (\<forall>es' d2. DllMain_process_detach False es' fn d1 = Some (Done (True, d2)) \<longrightarrow> (\<forall>x. x \<notin> R \<longrightarrow> mem (minhook d2) x = m0 x))"
proof -
  have "g_hooks (minhook d) = []" "\<not> g_isLocked (minhook d)" by (simp_all add: assms(4) unhooked_def)
  from attach_hooks [OF assms(6) this assms(2)] obtain h1 h2 h3 r where a: "do_calls (attach_calls e es fn) (minhook d) = Some (r, minhook d1)"
    and hs: "g_hooks (minhook d1) = [h1, h2, h3]" and h: "isEnabled h1" "isEnabled h2" "isEnabled h3"
      "pTarget h1 = CoInitialize fn" "pTarget h2 = CoInitializeEx fn" "pTarget h3 = CoUninitialize fn"
      "pDetour h1 = at_hook_CoInitialize fn" "pDetour h2 = at_hook_CoInitializeEx fn" "pDetour h3 = at_hook_CoUninitialize fn"
      "real_CoInitialize d1 = Some (pTrampoline h1)" "real_CoInitializeEx d1 = Some (pTrampoline h2)" "real_CoUninitialize d1 = Some (pTrampoline h3)"
    by auto
  have rd: "ready T R m0 (minhook d1)" using do_calls_ready [OF assms(3) unhooked_ready, of cs m0 ips n for cs] a assms(4,5) by fastforce
  then have ok: "code_ok T R m0 (mem (minhook d1)) [h1, h2, h3]" "slots_ok R (g_pMemoryBlocks (minhook d1)) [h1, h2, h3]"
    by (simp_all add: ready_def hooks_ok_def hs)
  then have "redirects (mem (minhook d1)) (pTarget k) (pDetour k)" if "k \<in> {h1, h2, h3}" for k
    using that h(1-3) enabled_redirects by (auto simp: code_ok_def)
  moreover have "mem (minhook d1) x = m0 x" if "x \<notin> R" "\<forall>t \<in> T. x \<notin> window t" for x
    using ok(1) that patch_area_window [of h1] patch_area_window [of h2] patch_area_window [of h3] by (auto simp: code_ok_def assms(1) h)
  moreover have "{real_CoInitialize d1, real_CoInitializeEx d1, real_CoUninitialize d1} = Some ` live_slots (g_pMemoryBlocks (minhook d1))"
    using ok(2) by (auto simp: slots_ok_def h)
  moreover have "mem (minhook d2) x = m0 x" if "DllMain_process_detach False es' fn d1 = Some (Done (True, d2))" "x \<notin> R" for es' d2 x
    using detach_restores [OF assms(3) rd that(1)] that(2) by blast
  ultimately show ?thesis by (metis (no_types, lifting) h(4-9) insertCI)
qed

section \<open>A process that loads it\<close>

lemma fair_append: "fair T R cs s \<Longrightarrow> (\<And>r s1. do_calls cs s = Some (r, s1) \<Longrightarrow> fair T R ds s1) \<Longrightarrow> fair T R (cs @ ds) s"
proof (induction cs arbitrary: s)
  case (Cons ec cs)
  obtain e c where ec: "ec = (e, c)" by fastforce
  show ?case
  proof (cases "do_call e c s")
    case None
    then show ?thesis using Cons.prems(1) by (simp add: ec)
  next
    case (Some r)
    obtain st s1 where r: "r = (st, s1)" by fastforce
    have "fair T R ds s2" if "do_calls cs s1 = Some (q, s2)" for q s2
      using Cons.prems(2) [of "st # q" s2] that Some r by (simp add: ec)
    then show ?thesis using Cons.IH [of s1] Cons.prems(1) Some r by (simp add: ec)
  qed
qed simp

text \<open>Hooking a function that is a jump, with an operating system that grants everything.\<close>

definition grants :: "addr \<Rightarrow> os \<times> os" where
  "grants a = (demo_os\<lparr>os_VirtualAlloc := Some a\<rparr>, demo_os\<lparr>os_VirtualAlloc := None\<rparr>)"

lemma MH_CreateHook_jump:
  assumes "\<not> g_isLocked s" "g_hHeap s" "FindHookEntry t s = None" "mem s t = 0xE9" "\<not> (t \<le> branch_dest (mem s) t 5 \<and> branch_dest (mem s) t 5 < t + 5)"
  shows "\<exists>tr s'. MH_CreateHook (fst (grants a)) t d s = Some ((MH_OK, Some tr), s') \<and> g_hHeap s' \<and> \<not> g_isLocked s'
    \<and> block_addr ` set (g_pMemoryBlocks s') \<subseteq> block_addr ` set (g_pMemoryBlocks s) \<union> {a}"
proof -
  let ?l = "s\<lparr>g_isLocked := True\<rparr>"
  obtain buf bs where al: "AllocateBuffer (Some a) (g_pMemoryBlocks s) = Some (buf, bs)"
    by (cases "find_free (g_pMemoryBlocks s)") (auto simp: AllocateBuffer_def GetMemoryBlock_def Let_def)
  let ?ct = "\<lparr>ct_pTarget = t, ct_pDetour = d, ct_pTrampoline = buf, ct_patchAbove = False, ct_oldIPs = [], ct_newIPs = []\<rparr>"
  obtain ct m where ct: "CreateTrampolineFunction (\<lambda>_. True) (mem s) ?ct = Some (True, ct, m)" using jump_trampoline [of "mem s" ?ct "\<lambda>_. True"] assms(4,5) by auto
  have find: "FindHookEntry t ?l = None" using assms(3) by (simp add: FindHookEntry_def)
  show ?thesis
    using assms(1,2) find al ct AllocateBuffer_addrs [OF al]
    by (auto simp: MH_CreateHook_def under_lock_def EnterSpinLock_def LeaveSpinLock_def grants_def demo_os_def AddHookEntry_def Let_def)
qed

lemma MH_EnableHook_granted:
  assumes "\<not> g_isLocked s" "g_hHeap s" "t \<noteq> 0" "g_hooks s = hs @ [h]" "t \<notin> pTarget ` set hs" "pTarget h = t" "\<not> isEnabled h"
  shows "\<exists>s'. MH_EnableHook (snd (grants a)) t s = Some (MH_OK, s') \<and> g_hHeap s' \<and> g_pMemoryBlocks s' = g_pMemoryBlocks s"
proof -
  have "FindHookEntry t (s\<lparr>g_isLocked := True\<rparr>) = Some (length hs)" by (rule FindHookEntry_last) (use assms in simp_all)
  then show ?thesis
    using assms by (simp add: MH_EnableHook_def EnableHook_def under_lock_def EnterSpinLock_def LeaveSpinLock_def grants_def demo_os_def Freeze_def
        EnumerateThreads_def Unfreeze_def EnableHookLL_def Let_def)
qed

lemma branch_dest_window: "(\<And>x. x \<in> window t \<Longrightarrow> m x = m' x) \<Longrightarrow> branch_dest m t 5 = branch_dest m' t 5"
proof -
  assume eq: "\<And>x. x \<in> window t \<Longrightarrow> m x = m' x"
  have "span (t + 1) 4 \<subseteq> window t" using span_sub [of 6 4 10 "t - 5"] by (simp add: window_def add.commute)
  then have "peek m (t + 1) 4 = peek m' (t + 1) 4" using eq by (intro peek_eq) auto
  then show ?thesis by (simp add: branch_dest_def fetch32_def)
qed

lemma self_window: "t \<in> window t"
  by (simp add: window_def span_def)

lemma grants_step:
  assumes "world T R" "ready T R m0 s" "g_hHeap s" "t \<in> T" "t \<noteq> 0" "t \<notin> pTarget ` set (g_hooks s)" "m0 t = 0xE9"
    "\<not> (t \<le> branch_dest m0 t 5 \<and> branch_dest m0 t 5 < t + 5)" "fresh_page a (g_pMemoryBlocks s)" "span a MEMORY_BLOCK_SIZE \<subseteq> R"
  shows "\<exists>tr s'. create_and_enable (grants a) t d s = Some (Done (tr, s')) \<and> ready T R m0 s' \<and> g_hHeap s'
    \<and> pTarget ` set (g_hooks s') = insert t (pTarget ` set (g_hooks s))
    \<and> block_addr ` set (g_pMemoryBlocks s') \<subseteq> block_addr ` set (g_pMemoryBlocks s) \<union> {a}
    \<and> fair T R [(fst (grants a), CreateHook t d), (snd (grants a), Enable t)] s"
proof -
  have unl: "\<not> g_isLocked s" and ok: "code_ok T R m0 (mem s) (g_hooks s)" using assms(2) by (simp_all add: ready_def hooks_ok_def)
  note same = window_original [OF assms(1) ok assms(4,6)]
  have "FindHookEntry t s = None" using assms(6) FindHookEntry_Some [of t s] by (cases "FindHookEntry t s") auto
  then obtain tr s1 where s1: "MH_CreateHook (fst (grants a)) t d s = Some ((MH_OK, Some tr), s1)" "g_hHeap s1" "\<not> g_isLocked s1"
    "block_addr ` set (g_pMemoryBlocks s1) \<subseteq> block_addr ` set (g_pMemoryBlocks s) \<union> {a}"
    using MH_CreateHook_jump [OF unl assms(3), of t a d] same [OF self_window] branch_dest_window [OF same] assms(7,8) by auto
  obtain h where h: "g_hooks s1 = g_hooks s @ [h]" "pTarget h = t" "\<not> isEnabled h" using MH_CreateHook_adds [OF s1(1)] by auto
  obtain s2 where s2: "MH_EnableHook (snd (grants a)) t s1 = Some (MH_OK, s2)" "g_hHeap s2" "g_pMemoryBlocks s2 = g_pMemoryBlocks s1"
    using MH_EnableHook_granted [OF s1(3,2) assms(5) h(1) assms(6) h(2,3)] by blast
  have c: "create_and_enable (grants a) t d s = Some (Done (tr, s2))" using s1(1) s2(1) by (simp add: create_and_enable_def)
  have os: "os_ok R (fst (grants a)) s" "os_ok R (snd (grants a)) x" for x using assms(9,10) by (simp_all add: os_ok_def grants_def)
  then have f: "fair T R [(fst (grants a), CreateHook t d), (snd (grants a), Enable t)] s" using assms(4) by (simp split: option.split)
  have "ready T R m0 s2"
    using do_calls_ready [OF assms(1,2) f] create_and_enable_hooks(2) [OF c assms(5,6)] by auto
  moreover have "pTarget ` set (g_hooks s2) = insert t (pTarget ` set (g_hooks s))"
    using create_and_enable_hooks(1) [OF c assms(5,6)] by auto
  ultimately show ?thesis using c s2(2,3) s1(4) f by auto
qed

definition demo_fn :: com_functions where
  "demo_fn = \<lparr>CoInitialize = 0x2000, CoInitializeEx = 0x2100, CoUninitialize = 0x2200,
     at_hook_CoInitialize = 0x3000, at_hook_CoInitializeEx = 0x3100, at_hook_CoUninitialize = 0x3200\<rparr>"

definition demo_com :: memory where
  "demo_com = poke 0x2200 [0xE9, 0x10, 0, 0, 0] (poke 0x2100 [0xE9, 0x10, 0, 0, 0] demo_code)"

definition demo_targets :: "addr set" where
  "demo_targets = {0x2000, 0x2100, 0x2200}"

definition three_pages :: "addr set" where
  "three_pages = span 0x10000 MEMORY_BLOCK_SIZE \<union> span 0x20000 MEMORY_BLOCK_SIZE \<union> span 0x30000 MEMORY_BLOCK_SIZE"

lemma span_range: "unat a + n \<le> 2 ^ 32 \<Longrightarrow> x \<in> span a n \<Longrightarrow> unat a \<le> unat x \<and> unat x < unat a + n"
proof -
  assume a: "unat a + n \<le> 2 ^ 32" "x \<in> span a n"
  have "unat (a + (x - a)) = unat a + unat (x - a)" using a by (subst unat_add_lem [symmetric]) (simp add: span_def)
  then show ?thesis using a(2) by (simp add: span_def)
qed

lemma span_disjoint: "unat a + n \<le> unat b \<Longrightarrow> unat b + k \<le> 2 ^ 32 \<Longrightarrow> span a n \<inter> span b k = {}"
proof -
  assume "unat a + n \<le> unat b" "unat b + k \<le> 2 ^ 32"
  then have "unat x < unat b" "unat b \<le> unat x" if "x \<in> span a n" "x \<in> span b k" for x
    using span_range [of a n x] span_range [of b k x] that by linarith+
  then show ?thesis by (meson disjoint_iff leD)
qed

lemma demo_apart: "world demo_targets three_pages"
proof -
  have w: "window 0x2000 = span 0x1FFB 10" "window 0x2100 = span 0x20FB 10" "window 0x2200 = span 0x21FB 10" by (simp_all add: window_def)
  have p: "span a 10 \<inter> three_pages = {}" if "unat a + 10 \<le> 0x10000" for a
    using that span_disjoint [of a 10 "0x10000" MEMORY_BLOCK_SIZE] span_disjoint [of a 10 "0x20000" MEMORY_BLOCK_SIZE]
      span_disjoint [of a 10 "0x30000" MEMORY_BLOCK_SIZE] by (simp add: three_pages_def MEMORY_BLOCK_SIZE_def Int_Un_distrib)
  have d: "span 0x1FFB 10 \<inter> span 0x20FB 10 = {}" "span 0x1FFB 10 \<inter> span 0x21FB 10 = {}" "span 0x20FB 10 \<inter> span 0x21FB 10 = {}"
    by (rule span_disjoint; simp)+
  then have "span 0x20FB 10 \<inter> span 0x1FFB 10 = {}" "span 0x21FB 10 \<inter> span 0x1FFB 10 = {}" "span 0x21FB 10 \<inter> span 0x20FB 10 = {}" by blast+
  moreover have "span 0x1FFB 10 \<inter> three_pages = {}" "span 0x20FB 10 \<inter> three_pages = {}" "span 0x21FB 10 \<inter> three_pages = {}"
    by (rule p; simp)+
  ultimately show ?thesis by (simp add: world_def demo_targets_def w d)
qed

lemma demo_jumps: "t \<in> demo_targets \<Longrightarrow> demo_com t = 0xE9 \<and> branch_dest demo_com t 5 = t + 0x15 \<and> t \<noteq> 0"
proof -
  assume t: "t \<in> demo_targets"
  have u: "[0..<5] = [0, 1, 2, 3, 4]" by (simp add: upt_rec)
  have "peek demo_com 0x2000 5 = [0xE9, 0x10, 0, 0, 0]" "peek demo_com 0x2100 5 = [0xE9, 0x10, 0, 0, 0]" "peek demo_com 0x2200 5 = [0xE9, 0x10, 0, 0, 0]"
    by (simp_all add: peek_def u demo_com_def demo_code_def poke_def)
  then have "peek demo_com t 5 = [0xE9, 0x10, 0, 0, 0]" using t by (auto simp: demo_targets_def)
  moreover have "jmp_rel 0xE9 (t + 0x15) t = [0xE9, 0x10, 0, 0, 0]" by (simp add: jmp_rel_def le32_def)
  ultimately show ?thesis using branch_dest_jmp [of demo_com t "0xE9" "t + 0x15"] t by (auto simp: demo_targets_def)
qed

definition demo_grants :: "(os \<times> os) \<times> (os \<times> os) \<times> (os \<times> os)" where
  "demo_grants = (grants 0x10000, grants 0x20000, grants 0x30000)"

definition demo_process :: hook_dll where
  "demo_process = idle_dll (unhooked demo_com (\<lambda>_. 0) (\<lambda>_. 0))"

lemma demo_step:
  assumes "ready demo_targets three_pages demo_com s" "g_hHeap s" "t \<in> demo_targets" "t \<notin> pTarget ` set (g_hooks s)"
    "a \<in> {0x10000, 0x20000, 0x30000}" "a \<notin> block_addr ` set (g_pMemoryBlocks s)"
  shows "\<exists>tr s'. create_and_enable (grants a) t d s = Some (Done (tr, s')) \<and> ready demo_targets three_pages demo_com s' \<and> g_hHeap s'
    \<and> pTarget ` set (g_hooks s') = insert t (pTarget ` set (g_hooks s))
    \<and> block_addr ` set (g_pMemoryBlocks s') \<subseteq> block_addr ` set (g_pMemoryBlocks s) \<union> {a}
    \<and> fair demo_targets three_pages [(fst (grants a), CreateHook t d), (snd (grants a), Enable t)] s"
proof -
  have j: "demo_com t = 0xE9" "t \<noteq> 0" "\<not> (t \<le> branch_dest demo_com t 5 \<and> branch_dest demo_com t 5 < t + 5)"
    using demo_jumps [OF assms(3)] assms(3) by (auto simp: demo_targets_def)
  have "fresh_page a (g_pMemoryBlocks s)" using assms(5,6) by (auto simp: fresh_page_def page_aligned_def MEMORY_BLOCK_SIZE_def)
  moreover have "span a MEMORY_BLOCK_SIZE \<subseteq> three_pages" using assms(5) by (auto simp: three_pages_def)
  ultimately show ?thesis using grants_step [OF demo_apart assms(1-3) j(2) assms(4) j(1,3)] by blast
qed

lemma fair_after: "fair T R cs s \<Longrightarrow> do_calls cs s = Some (r, s1) \<Longrightarrow> fair T R ds s1 \<Longrightarrow> fair T R (cs @ ds) s"
  by (rule fair_append) (assumption, simp)

lemma demo_started:
  "MH_Initialize demo_os (unhooked demo_com (\<lambda>_. 0) (\<lambda>_. 0)) = Some (MH_OK, (unhooked demo_com (\<lambda>_. 0) (\<lambda>_. 0))\<lparr>g_hHeap := True\<rparr>)"
  "fair demo_targets three_pages [(demo_os, Initialize)] (unhooked demo_com (\<lambda>_. 0) (\<lambda>_. 0))"
proof -
  show "MH_Initialize demo_os (unhooked demo_com (\<lambda>_. 0) (\<lambda>_. 0)) = Some (MH_OK, (unhooked demo_com (\<lambda>_. 0) (\<lambda>_. 0))\<lparr>g_hHeap := True\<rparr>)"
    by (simp add: MH_Initialize_def under_lock_def EnterSpinLock_def LeaveSpinLock_def unhooked_def demo_os_def)
  have "span 0x10000 MEMORY_BLOCK_SIZE \<subseteq> three_pages" by (auto simp: three_pages_def)
  then have "os_ok three_pages demo_os (unhooked demo_com (\<lambda>_. 0) (\<lambda>_. 0))"
    by (simp add: os_ok_def demo_os_def unhooked_def fresh_page_def page_aligned_def MEMORY_BLOCK_SIZE_def)
  then show "fair demo_targets three_pages [(demo_os, Initialize)] (unhooked demo_com (\<lambda>_. 0) (\<lambda>_. 0))" by (simp split: option.split)
qed

lemma demo_attached:
  "\<exists>d1. DllMain_process_attach demo_log demo_os demo_grants demo_fn demo_process = Some (Done (True, d1))
    \<and> fair demo_targets three_pages (attach_calls demo_os demo_grants demo_fn) (minhook demo_process)"
proof -
  let ?u = "unhooked demo_com (\<lambda>_. 0) (\<lambda>_. 0)"
  let ?s0 = "?u\<lparr>g_hHeap := True\<rparr>"
  let ?calls = "\<lambda>a t d. [(fst (grants a), CreateHook t d), (snd (grants a), Enable t)]"
  have s0: "ready demo_targets three_pages demo_com ?s0" "g_hHeap ?s0" "g_hooks ?s0 = []" "g_pMemoryBlocks ?s0 = []"
    using MH_Initialize_ready [OF unhooked_ready [of demo_targets three_pages demo_com "\<lambda>_. 0" "\<lambda>_. 0"], of demo_os] demo_started(1)
    by (simp_all add: unhooked_def)
  have T: "0x2000 \<in> demo_targets" "0x2100 \<in> demo_targets" "0x2200 \<in> demo_targets" by (simp_all add: demo_targets_def)
  have n0: "(0x2000 :: addr) \<notin> pTarget ` set (g_hooks ?s0)" "(0x10000 :: addr) \<notin> block_addr ` set (g_pMemoryBlocks ?s0)" by (simp_all add: s0(3,4))
  obtain t1 s1 where 1: "create_and_enable (grants 0x10000) 0x2000 0x3000 ?s0 = Some (Done (t1, s1))" "ready demo_targets three_pages demo_com s1" "g_hHeap s1"
    "pTarget ` set (g_hooks s1) = insert 0x2000 (pTarget ` set (g_hooks ?s0))"
    "block_addr ` set (g_pMemoryBlocks s1) \<subseteq> block_addr ` set (g_pMemoryBlocks ?s0) \<union> {0x10000}"
    "fair demo_targets three_pages (?calls 0x10000 0x2000 0x3000) ?s0"
    using demo_step [OF s0(1,2) T(1) n0(1) _ n0(2), of "0x3000"] by blast
  have n1: "(0x2100 :: addr) \<notin> pTarget ` set (g_hooks s1)" unfolding 1(4) by (simp add: s0(3))
  have "(0x20000 :: addr) \<notin> block_addr ` set (g_pMemoryBlocks s1)" by (rule contra_subsetD [OF 1(5)]) (simp add: s0(4))
  then obtain t2 s2 where 2: "create_and_enable (grants 0x20000) 0x2100 0x3100 s1 = Some (Done (t2, s2))" "ready demo_targets three_pages demo_com s2" "g_hHeap s2"
    "pTarget ` set (g_hooks s2) = insert 0x2100 (pTarget ` set (g_hooks s1))"
    "block_addr ` set (g_pMemoryBlocks s2) \<subseteq> block_addr ` set (g_pMemoryBlocks s1) \<union> {0x20000}"
    "fair demo_targets three_pages (?calls 0x20000 0x2100 0x3100) s1"
    using demo_step [OF 1(2,3) T(2) n1, of "0x20000" "0x3100"] by blast
  have n2: "(0x2200 :: addr) \<notin> pTarget ` set (g_hooks s2)" unfolding 2(4) 1(4) by (simp add: s0(3))
  have "block_addr ` set (g_pMemoryBlocks s2) \<subseteq> {0x10000, 0x20000}" using 1(5) 2(5) by (simp add: s0(4)) blast
  then have "(0x30000 :: addr) \<notin> block_addr ` set (g_pMemoryBlocks s2)" by (rule contra_subsetD) simp
  then obtain t3 s3 where 3: "create_and_enable (grants 0x30000) 0x2200 0x3200 s2 = Some (Done (t3, s3))"
    "fair demo_targets three_pages (?calls 0x30000 0x2200 0x3200) s2"
    using demo_step [OF 2(2,3) T(3) n2, of "0x30000" "0x3200"] by blast
  have c1: "do_calls (?calls 0x10000 0x2000 0x3000) ?s0 = Some ([MH_OK, MH_OK], s1)" using create_and_enable_hooks(2) [OF 1(1) _ n0(1)] by simp
  have c2: "do_calls (?calls 0x20000 0x2100 0x3100) s1 = Some ([MH_OK, MH_OK], s2)" using create_and_enable_hooks(2) [OF 2(1) _ n1] by simp
  have c0: "do_calls [(demo_os, Initialize)] ?u = Some ([MH_OK], ?s0)" by (simp add: demo_started(1))
  have "fair demo_targets three_pages ([(demo_os, Initialize)] @ ?calls 0x10000 0x2000 0x3000 @ ?calls 0x20000 0x2100 0x3100 @ ?calls 0x30000 0x2200 0x3200) ?u"
    by (rule fair_after [OF demo_started(2) c0 fair_after [OF 1(6) c1 fair_after [OF 2(6) c2 3(2)]]])
  then have "fair demo_targets three_pages (attach_calls demo_os demo_grants demo_fn) ?u"
    unfolding attach_calls_def demo_grants_def demo_fn_def prod.case com_functions.simps .
  moreover have "\<exists>d1. DllMain_process_attach demo_log demo_os demo_grants demo_fn demo_process = Some (Done (True, d1))"
    by (simp add: DllMain_process_attach_def demo_grants_def demo_fn_def demo_process_def idle_dll_def demo_started(1) 1(1) 2(1) 3(1))
  ultimately show ?thesis by (simp add: demo_process_def idle_dll_def)
qed

theorem hook_dll_life_witness:
  "\<exists>d1. DllMain_process_attach demo_log demo_os demo_grants demo_fn demo_process = Some (Done (True, d1))
    \<and> redirects (mem (minhook d1)) 0x2000 0x3000 \<and> redirects (mem (minhook d1)) 0x2100 0x3100 \<and> redirects (mem (minhook d1)) 0x2200 0x3200"
proof -
  obtain d1 where a: "DllMain_process_attach demo_log demo_os demo_grants demo_fn demo_process = Some (Done (True, d1))"
    and f: "fair demo_targets three_pages (attach_calls demo_os demo_grants demo_fn) (minhook demo_process)" using demo_attached by blast
  have t: "demo_targets = {CoInitialize demo_fn, CoInitializeEx demo_fn, CoUninitialize demo_fn}" by (simp add: demo_targets_def demo_fn_def)
  have m: "minhook demo_process = unhooked demo_com (\<lambda>_. 0) (\<lambda>_. 0)" by (simp add: demo_process_def idle_dll_def)
  have "distinct [CoInitialize demo_fn, CoInitializeEx demo_fn, CoUninitialize demo_fn, 0]" by (simp add: demo_fn_def)
  from hook_dll_life [OF t this demo_apart m f a] have "redirects (mem (minhook d1)) 0x2000 0x3000"
    "redirects (mem (minhook d1)) 0x2100 0x3100" "redirects (mem (minhook d1)) 0x2200 0x3200" by (simp_all add: demo_fn_def)
  then show ?thesis using a by blast
qed

end
