(* ===== verification/PoolShutdown.thy ===== *)
theory PoolShutdown
  imports HandlePool
begin

text \<open>
  The end of the worker pool: \<^verbatim>\<open>~HandleHandlingPool\<close> and \<^verbatim>\<open>worker_exit\<close> of \<^verbatim>\<open>src/src/HandleHandlingPool.cpp\<close>, with the loop of the workers as far as it
  matters for it. The destructor and the workers run in any interleaving; a step is one access to the state they share: the flag \<open>stopping\<close>,
  the event \<open>spin_workers\<close>, the mutex \<open>workers_lock\<close> with its condition variable, the set of active workers, and the thread in \<open>join_worker\<close>.

  No handle is added or removed meanwhile (\<^verbatim>\<open>DirectPlay8Peer::Close\<close> destroys the pool when it has no peer and no socket left), so
  \<open>wait_lock\<close>, which the workers share, stops none of them and is left out. A callback that runs is taken to return. What a worker waits for and what it
  calls is the subject of theory \<open>HandlePool\<close>, the sequence of the writers that of \<open>PoolProtocol\<close>.
\<close>

section \<open>States\<close>

datatype exit_pc = KTop | KWaiting | KCallback | KExiting | KLocked | KJoined | KErased | KUnlocked | KNotified | KEnded

datatype dtor_pc = DIdle | DStopping | DSignalled | DBlocked | DChecking | DSleeping | DJoin | DClose | DDone

datatype holder = ByWorker nat | ByDestructor

text \<open>The handles a worker waits for beside \<open>spin_workers\<close>: none is signalled, one is, or the wait for them fails.\<close>

datatype others = Quiet | Signalled | Invalid

record shutdown =
  sd_stopping :: bool
  sd_spin :: bool
  workers_lock :: "holder option"
  sd_active :: "nat set"
  sd_join :: "nat option"
  sd_others :: "nat \<Rightarrow> others"
  sd_k :: "nat \<Rightarrow> exit_pc"
  sd_d :: dtor_pc

definition shutdown_init :: "nat set \<Rightarrow> shutdown" where
  "shutdown_init K = \<lparr>sd_stopping = False, sd_spin = False, workers_lock = None, sd_active = K, sd_join = None, sd_others = (\<lambda>_. Quiet),
     sd_k = (\<lambda>k. if k \<in> K then KTop else KEnded), sd_d = DIdle\<rparr>"

section \<open>Steps\<close>

text \<open>
  Worker \<open>k\<close>: its loop, where waiting ends because the event or a handle is signalled, and \<open>worker_exit\<close>: lock, join the thread that
  exited before, take its place, unlock, notify, end. A worker whose block is gone leaves before it waits, and one whose wait fails after it.
\<close>

inductive exit_step :: "nat \<Rightarrow> shutdown \<Rightarrow> shutdown \<Rightarrow> bool" for k s where
  e_wait: "sd_k s k = KTop \<Longrightarrow> exit_step k s (s\<lparr>sd_k := (sd_k s)(k := KWaiting)\<rparr>)"
| e_no_handles: "sd_k s k = KTop \<Longrightarrow> exit_step k s (s\<lparr>sd_k := (sd_k s)(k := KExiting)\<rparr>)"
| e_stop: "sd_k s k = KWaiting \<Longrightarrow> sd_stopping s \<Longrightarrow> sd_spin s \<or> sd_others s k \<noteq> Quiet \<Longrightarrow>
    exit_step k s (s\<lparr>sd_k := (sd_k s)(k := KExiting)\<rparr>)"
| e_failed: "sd_k s k = KWaiting \<Longrightarrow> sd_others s k = Invalid \<Longrightarrow> exit_step k s (s\<lparr>sd_k := (sd_k s)(k := KExiting)\<rparr>)"
| e_spin: "sd_k s k = KWaiting \<Longrightarrow> \<not> sd_stopping s \<Longrightarrow> sd_spin s \<Longrightarrow> exit_step k s (s\<lparr>sd_k := (sd_k s)(k := KTop)\<rparr>)"
| e_call: "sd_k s k = KWaiting \<Longrightarrow> \<not> sd_stopping s \<Longrightarrow> sd_others s k = Signalled \<Longrightarrow>
    exit_step k s (s\<lparr>sd_k := (sd_k s)(k := KCallback)\<rparr>)"
| e_return: "sd_k s k = KCallback \<Longrightarrow> exit_step k s (s\<lparr>sd_k := (sd_k s)(k := KTop)\<rparr>)"
| e_lock: "sd_k s k = KExiting \<Longrightarrow> workers_lock s = None \<Longrightarrow>
    exit_step k s (s\<lparr>workers_lock := Some (ByWorker k), sd_k := (sd_k s)(k := KLocked)\<rparr>)"
| e_nobody: "sd_k s k = KLocked \<Longrightarrow> sd_join s = None \<Longrightarrow> exit_step k s (s\<lparr>sd_k := (sd_k s)(k := KJoined)\<rparr>)"
| e_join: "sd_k s k = KLocked \<Longrightarrow> sd_join s = Some z \<Longrightarrow> sd_k s z = KEnded \<Longrightarrow>
    exit_step k s (s\<lparr>sd_join := None, sd_k := (sd_k s)(k := KJoined)\<rparr>)"
| e_erase: "sd_k s k = KJoined \<Longrightarrow>
    exit_step k s (s\<lparr>sd_join := Some k, sd_active := sd_active s - {k}, sd_k := (sd_k s)(k := KErased)\<rparr>)"
| e_unlock: "sd_k s k = KErased \<Longrightarrow> exit_step k s (s\<lparr>workers_lock := None, sd_k := (sd_k s)(k := KUnlocked)\<rparr>)"
| e_notify: "sd_k s k = KUnlocked \<Longrightarrow>
    exit_step k s (s\<lparr>sd_d := (if sd_d s = DSleeping then DBlocked else sd_d s), sd_k := (sd_k s)(k := KNotified)\<rparr>)"
| e_end: "sd_k s k = KNotified \<Longrightarrow> exit_step k s (s\<lparr>sd_k := (sd_k s)(k := KEnded)\<rparr>)"

text \<open>The destructor, in the order of its statements. It holds \<open>workers_lock\<close> from the end of its wait to the end.\<close>

inductive dtor_step :: "shutdown \<Rightarrow> shutdown \<Rightarrow> bool" for s where
  d_stop: "sd_d s = DIdle \<Longrightarrow> dtor_step s (s\<lparr>sd_stopping := True, sd_d := DStopping\<rparr>)"
| d_signal: "sd_d s = DStopping \<Longrightarrow> dtor_step s (s\<lparr>sd_spin := True, sd_d := DSignalled\<rparr>)"
| d_begin: "sd_d s = DSignalled \<Longrightarrow> dtor_step s (s\<lparr>sd_d := DBlocked\<rparr>)"
| d_lock: "sd_d s = DBlocked \<Longrightarrow> workers_lock s = None \<Longrightarrow> dtor_step s (s\<lparr>workers_lock := Some ByDestructor, sd_d := DChecking\<rparr>)"
| d_sleep: "sd_d s = DChecking \<Longrightarrow> sd_active s \<noteq> {} \<Longrightarrow> dtor_step s (s\<lparr>workers_lock := None, sd_d := DSleeping\<rparr>)"
| d_empty: "sd_d s = DChecking \<Longrightarrow> sd_active s = {} \<Longrightarrow> dtor_step s (s\<lparr>sd_d := DJoin\<rparr>)"
| d_nobody: "sd_d s = DJoin \<Longrightarrow> sd_join s = None \<Longrightarrow> dtor_step s (s\<lparr>sd_d := DClose\<rparr>)"
| d_join: "sd_d s = DJoin \<Longrightarrow> sd_join s = Some z \<Longrightarrow> sd_k s z = KEnded \<Longrightarrow> dtor_step s (s\<lparr>sd_join := None, sd_d := DClose\<rparr>)"
| d_close: "sd_d s = DClose \<Longrightarrow> dtor_step s (s\<lparr>workers_lock := None, sd_d := DDone\<rparr>)"

definition shutdown_step :: "shutdown \<Rightarrow> shutdown \<Rightarrow> bool" where
  "shutdown_step s t \<longleftrightarrow> dtor_step s t \<or> (\<exists>k. exit_step k s t)"

text \<open>A condition variable may also wake up without a notification, and the handles change as they like.\<close>

inductive shutdown_reach :: "nat set \<Rightarrow> shutdown \<Rightarrow> bool" for K where
  sd_start: "shutdown_reach K (shutdown_init K)"
| sd_more: "shutdown_reach K s \<Longrightarrow> shutdown_step s t \<Longrightarrow> shutdown_reach K t"
| sd_spurious: "shutdown_reach K s \<Longrightarrow> sd_d s = DSleeping \<Longrightarrow> shutdown_reach K (s\<lparr>sd_d := DBlocked\<rparr>)"
| sd_handles: "shutdown_reach K s \<Longrightarrow> shutdown_reach K (s\<lparr>sd_others := h\<rparr>)"

section \<open>The invariant\<close>

definition lock_pcs :: "exit_pc set" where
  "lock_pcs = {KLocked, KJoined, KErased}"

definition gone_pcs :: "exit_pc set" where
  "gone_pcs = {KErased, KUnlocked, KNotified, KEnded}"

definition holding_pcs :: "dtor_pc set" where
  "holding_pcs = {DChecking, DJoin, DClose}"

lemmas shutdown_pcs = lock_pcs_def gone_pcs_def holding_pcs_def

lemma shutdown_pc_sets:
  "KLocked \<notin> gone_pcs" "KJoined \<notin> gone_pcs" "KErased \<in> gone_pcs" "KUnlocked \<in> gone_pcs" "KNotified \<in> gone_pcs" "KEnded \<in> gone_pcs"
  by (simp_all add: gone_pcs_def)

text \<open>Who holds \<open>workers_lock\<close>.\<close>

fun hold_ok :: "holder option \<Rightarrow> (nat \<Rightarrow> exit_pc) \<Rightarrow> dtor_pc \<Rightarrow> bool" where
  "hold_ok None kp d \<longleftrightarrow> (\<forall>k. kp k \<notin> lock_pcs) \<and> d \<notin> holding_pcs"
| "hold_ok (Some (ByWorker j)) kp d \<longleftrightarrow> (\<forall>k. kp k \<in> lock_pcs \<longleftrightarrow> k = j) \<and> d \<notin> holding_pcs"
| "hold_ok (Some ByDestructor) kp d \<longleftrightarrow> (\<forall>k. kp k \<notin> lock_pcs) \<and> d \<in> holding_pcs"

lemma hold_ok_worker:
  "hold_ok l kp d \<Longrightarrow> kp k \<in> lock_pcs \<longleftrightarrow> pc \<in> lock_pcs \<Longrightarrow> hold_ok l (kp(k := pc)) d"
  "hold_ok None kp d \<Longrightarrow> pc \<in> lock_pcs \<Longrightarrow> hold_ok (Some (ByWorker k)) (kp(k := pc)) d"
  "hold_ok l kp d \<Longrightarrow> kp k \<in> lock_pcs \<Longrightarrow> pc \<notin> lock_pcs \<Longrightarrow> hold_ok None (kp(k := pc)) d"
  by (cases "(l, kp, d)" rule: hold_ok.cases; auto)+

lemma hold_ok_dtor:
  "hold_ok l kp d \<Longrightarrow> d \<in> holding_pcs \<longleftrightarrow> d' \<in> holding_pcs \<Longrightarrow> hold_ok l kp d'"
  "hold_ok None kp d \<Longrightarrow> d' \<in> holding_pcs \<Longrightarrow> hold_ok (Some ByDestructor) kp d'"
  "hold_ok l kp d \<Longrightarrow> d \<in> holding_pcs \<Longrightarrow> d' \<notin> holding_pcs \<Longrightarrow> hold_ok None kp d'"
  by (cases "(l, kp, d)" rule: hold_ok.cases; auto)+

lemma hold_ok_unique: "hold_ok l kp d \<Longrightarrow> kp j \<in> lock_pcs \<Longrightarrow> kp k \<in> lock_pcs \<Longrightarrow> j = k"
  by (cases "(l, kp, d)" rule: hold_ok.cases) auto

text \<open>Who is active, and who is the thread to be joined: the only one that has left the set and not yet ended.\<close>

fun zombie_ok :: "nat option \<Rightarrow> (nat \<Rightarrow> exit_pc) \<Rightarrow> bool" where
  "zombie_ok None kp \<longleftrightarrow> (\<forall>k. kp k \<in> gone_pcs \<longrightarrow> kp k = KEnded)"
| "zombie_ok (Some j) kp \<longleftrightarrow> kp j \<in> gone_pcs \<and> (\<forall>k. kp k \<in> gone_pcs \<longrightarrow> k \<noteq> j \<longrightarrow> kp k = KEnded) \<and> (\<forall>k. kp k \<noteq> KJoined)"

definition members_ok :: "nat set \<Rightarrow> nat option \<Rightarrow> (nat \<Rightarrow> exit_pc) \<Rightarrow> bool" where
  "members_ok act z kp \<longleftrightarrow> act = {k. kp k \<notin> gone_pcs} \<and> zombie_ok z kp"

lemma members_ok_inside:
  "members_ok act z kp \<Longrightarrow> kp k \<notin> gone_pcs \<Longrightarrow> pc \<notin> gone_pcs \<Longrightarrow> pc \<noteq> KJoined \<Longrightarrow> members_ok act z (kp(k := pc))"
  by (cases z) (auto simp: members_ok_def)

lemma members_ok_joined: "members_ok act (Some j) kp \<Longrightarrow> kp j = KEnded \<Longrightarrow> members_ok act None kp"
  by (auto simp: members_ok_def)

lemma members_ok_ready: "members_ok act None kp \<Longrightarrow> kp k = KLocked \<Longrightarrow> members_ok act None (kp(k := KJoined))"
  by (auto simp: members_ok_def shutdown_pc_sets)

lemma members_ok_erase:
  assumes "members_ok act z kp" "kp k = KJoined" "\<And>j. j \<noteq> k \<Longrightarrow> kp j \<noteq> KJoined"
  shows "members_ok (act - {k}) (Some k) (kp(k := KErased))"
proof -
  have "z = None" using assms(1,2) by (cases z) (auto simp: members_ok_def)
  then show ?thesis using assms by (auto simp: members_ok_def shutdown_pc_sets)
qed

lemma members_ok_outside:
  assumes "members_ok act z kp" "kp k \<in> gone_pcs" "kp k \<noteq> KEnded" "pc \<in> gone_pcs"
  shows "members_ok act z (kp(k := pc))"
proof -
  have "pc \<noteq> KJoined" using assms(4) by (auto simp: gone_pcs_def)
  then show ?thesis using assms by (cases z) (auto simp: members_ok_def)
qed

text \<open>What the destructor has done so far; while it sleeps there is a notification to come.\<close>

definition dtor_ok :: "bool \<Rightarrow> bool \<Rightarrow> nat set \<Rightarrow> nat option \<Rightarrow> (nat \<Rightarrow> exit_pc) \<Rightarrow> dtor_pc \<Rightarrow> bool" where
  "dtor_ok stop spin act z kp d \<longleftrightarrow> (d \<noteq> DIdle \<longleftrightarrow> stop) \<and> (d \<notin> {DIdle, DStopping} \<longrightarrow> spin)
     \<and> (d = DSleeping \<longrightarrow> (\<exists>k. kp k \<notin> {KNotified, KEnded})) \<and> (d \<in> {DJoin, DClose, DDone} \<longrightarrow> act = {})
     \<and> (d \<in> {DClose, DDone} \<longrightarrow> z = None)"

definition shutdown_inv :: "nat set \<Rightarrow> shutdown \<Rightarrow> bool" where
  "shutdown_inv K s \<longleftrightarrow> hold_ok (workers_lock s) (sd_k s) (sd_d s) \<and> members_ok (sd_active s) (sd_join s) (sd_k s)
     \<and> dtor_ok (sd_stopping s) (sd_spin s) (sd_active s) (sd_join s) (sd_k s) (sd_d s) \<and> (\<forall>k. k \<notin> K \<longrightarrow> sd_k s k = KEnded)"

text \<open>A worker that does not notify leaves the destructor where it is.\<close>

lemma dtor_ok_worker:
  "dtor_ok stop spin act z kp d \<Longrightarrow> pc \<notin> {KNotified, KEnded} \<Longrightarrow> dtor_ok stop spin act z (kp(k := pc)) d"
  by (auto simp: dtor_ok_def)

lemma dtor_ok_end: "dtor_ok stop spin act z kp d \<Longrightarrow> kp k = KNotified \<Longrightarrow> dtor_ok stop spin act z (kp(k := KEnded)) d"
  by (auto simp: dtor_ok_def)

lemma dtor_ok_notify:
  "dtor_ok stop spin act z kp d \<Longrightarrow> dtor_ok stop spin act z (kp(k := KNotified)) (if d = DSleeping then DBlocked else d)"
  by (auto simp: dtor_ok_def)

lemma dtor_ok_joined: "dtor_ok stop spin act z kp d \<Longrightarrow> dtor_ok stop spin act None kp d"
  by (auto simp: dtor_ok_def)

lemma dtor_ok_erase:
  "dtor_ok stop spin act z kp d \<Longrightarrow> act \<noteq> {} \<Longrightarrow> dtor_ok stop spin (act - {k}) (Some k) (kp(k := KErased)) d"
  by (auto simp: dtor_ok_def)

lemma hold_ok_step:
  assumes step: "exit_step k s t" and hold: "hold_ok (workers_lock s) (sd_k s) (sd_d s)"
  shows "hold_ok (workers_lock t) (sd_k t) (sd_d t)"
proof -
  have "hold_ok (workers_lock t) (sd_k t) (sd_d s)"
    using step
  proof (cases rule: exit_step.cases)
    case e_lock
    then show ?thesis using hold hold_ok_worker(2) [of "sd_k s" "sd_d s" KLocked k] by (simp add: shutdown_pcs del: hold_ok.simps)
  next
    case e_unlock
    then show ?thesis using hold hold_ok_worker(3) [of "workers_lock s" "sd_k s" "sd_d s" k KUnlocked] by (simp add: shutdown_pcs del: hold_ok.simps)
  qed (simp_all add: hold hold_ok_worker(1) shutdown_pcs)
  moreover have "sd_d s \<in> holding_pcs \<longleftrightarrow> sd_d t \<in> holding_pcs"
    using step by (cases rule: exit_step.cases) (simp_all add: shutdown_pcs)
  ultimately show ?thesis by (rule hold_ok_dtor(1))
qed

lemma members_ok_step:
  assumes step: "exit_step k s t" and hold: "hold_ok (workers_lock s) (sd_k s) (sd_d s)"
    and mem: "members_ok (sd_active s) (sd_join s) (sd_k s)"
  shows "members_ok (sd_active t) (sd_join t) (sd_k t)"
  using step
proof (cases rule: exit_step.cases)
  case e_nobody
  then show ?thesis using mem members_ok_ready [of "sd_active s" "sd_k s" k] by simp
next
  case e_erase
  have "sd_k s j \<noteq> KJoined" if "j \<noteq> k" for j
    using that e_erase(2) hold_ok_unique [OF hold, of j k] by (auto simp: lock_pcs_def)
  then show ?thesis using members_ok_erase [OF mem e_erase(2)] e_erase(1) by simp
next
  case (e_join z)
  then have "members_ok (sd_active s) None (sd_k s)" using mem members_ok_joined [of "sd_active s" z] by simp
  then show ?thesis using e_join members_ok_ready [of "sd_active s" "sd_k s" k] by simp
next
  case e_unlock
  then show ?thesis using members_ok_outside [OF mem, of k KUnlocked] by (simp add: shutdown_pc_sets)
next
  case e_notify
  then show ?thesis using members_ok_outside [OF mem, of k KNotified] by (simp add: shutdown_pc_sets)
next
  case e_end
  then show ?thesis using members_ok_outside [OF mem, of k KEnded] by (simp add: shutdown_pc_sets)
qed (simp_all add: members_ok_inside [OF mem] gone_pcs_def)

lemma dtor_ok_step:
  assumes step: "exit_step k s t" and mem: "members_ok (sd_active s) (sd_join s) (sd_k s)"
    and d: "dtor_ok (sd_stopping s) (sd_spin s) (sd_active s) (sd_join s) (sd_k s) (sd_d s)"
  shows "dtor_ok (sd_stopping t) (sd_spin t) (sd_active t) (sd_join t) (sd_k t) (sd_d t)"
  using step
proof (cases rule: exit_step.cases)
  case e_erase
  then have "k \<in> sd_active s" using mem by (simp add: members_ok_def gone_pcs_def)
  then have "sd_active s \<noteq> {}" by blast
  then show ?thesis using dtor_ok_erase [OF d] e_erase by simp
next
  case (e_join z)
  then show ?thesis using dtor_ok_worker [OF dtor_ok_joined [OF d], of KJoined k] by simp
next
  case e_notify
  then show ?thesis using dtor_ok_notify [OF d, of k] by simp
next
  case e_end
  then show ?thesis using dtor_ok_end [OF d, of k] by simp
qed (use d in \<open>simp_all add: dtor_ok_worker\<close>)

lemma shutdown_inv_worker:
  assumes inv: "shutdown_inv K s" and step: "exit_step k s t"
  shows "shutdown_inv K t"
proof -
  have "sd_k s k \<noteq> KEnded" using step by (cases rule: exit_step.cases) simp_all
  then have "k \<in> K" using inv by (auto simp: shutdown_inv_def)
  moreover have "\<forall>j. j \<noteq> k \<longrightarrow> sd_k t j = sd_k s j" using step by (cases rule: exit_step.cases) simp_all
  ultimately have "\<forall>j. j \<notin> K \<longrightarrow> sd_k t j = KEnded" using inv unfolding shutdown_inv_def by metis
  then show ?thesis
    using inv hold_ok_step [OF step] members_ok_step [OF step] dtor_ok_step [OF step] by (simp add: shutdown_inv_def)
qed

lemma shutdown_inv_dtor:
  assumes inv: "shutdown_inv K s" and step: "dtor_step s t"
  shows "shutdown_inv K t"
proof -
  have h: "hold_ok (workers_lock s) (sd_k s) (sd_d s)" and m: "members_ok (sd_active s) (sd_join s) (sd_k s)"
    and d: "dtor_ok (sd_stopping s) (sd_spin s) (sd_active s) (sd_join s) (sd_k s) (sd_d s)" and o: "\<forall>k. k \<notin> K \<longrightarrow> sd_k s k = KEnded"
    using inv by (simp_all add: shutdown_inv_def)
  have "hold_ok (workers_lock t) (sd_k t) (sd_d t)"
    using step
  proof (cases rule: dtor_step.cases)
    case d_lock
    then show ?thesis using h hold_ok_dtor(2) [of "sd_k s" "sd_d s" DChecking] by (simp add: shutdown_pcs del: hold_ok.simps)
  next
    case d_sleep
    then show ?thesis using hold_ok_dtor(3) [OF h, of DSleeping] by (simp add: shutdown_pcs del: hold_ok.simps)
  next
    case d_close
    then show ?thesis using hold_ok_dtor(3) [OF h, of DDone] by (simp add: shutdown_pcs del: hold_ok.simps)
  qed (simp_all add: hold_ok_dtor(1) [OF h] shutdown_pcs del: hold_ok.simps)
  moreover have "members_ok (sd_active t) (sd_join t) (sd_k t)"
    using step
  proof (cases rule: dtor_step.cases)
    case (d_join z)
    then show ?thesis using m members_ok_joined [of "sd_active s" z] by simp
  qed (use m in simp_all)
  moreover have "dtor_ok (sd_stopping t) (sd_spin t) (sd_active t) (sd_join t) (sd_k t) (sd_d t)"
    using step
  proof (cases rule: dtor_step.cases)
    case d_sleep
    then obtain k where "k \<in> sd_active s" by blast
    then have "sd_k s k \<notin> {KNotified, KEnded}" using m by (auto simp: members_ok_def gone_pcs_def)
    then show ?thesis using d d_sleep by (auto simp: dtor_ok_def)
  qed (use d in \<open>simp_all add: dtor_ok_def\<close>)
  moreover have "sd_k t = sd_k s" using step by (cases rule: dtor_step.cases) simp_all
  ultimately show ?thesis using o by (simp add: shutdown_inv_def)
qed

lemma shutdown_reach_inv: "shutdown_reach K s \<Longrightarrow> shutdown_inv K s"
proof (induction rule: shutdown_reach.induct)
  case sd_start
  have "zombie_ok None (\<lambda>k. if k \<in> K then KTop else KEnded)" by (simp add: gone_pcs_def)
  then show ?case by (auto simp: shutdown_inv_def shutdown_init_def shutdown_pcs members_ok_def dtor_ok_def)
next
  case (sd_more s t)
  then show ?case by (auto simp: shutdown_step_def intro: shutdown_inv_worker shutdown_inv_dtor)
next
  case (sd_spurious s)
  then have "hold_ok (workers_lock s) (sd_k s) DBlocked"
    using hold_ok_dtor(1) [of "workers_lock s" "sd_k s" "sd_d s" DBlocked] by (simp add: shutdown_inv_def shutdown_pcs del: hold_ok.simps)
  then show ?case using sd_spurious by (simp add: shutdown_inv_def dtor_ok_def)
next
  case (sd_handles s h)
  then show ?case by (simp add: shutdown_inv_def)
qed

section \<open>The end\<close>

text \<open>What a worker and the destructor have still to do, once the pool is stopping.\<close>

fun exit_left :: "exit_pc \<Rightarrow> nat" where
  "exit_left KCallback = 9" | "exit_left KTop = 8" | "exit_left KWaiting = 7" | "exit_left KExiting = 6" | "exit_left KLocked = 5"
| "exit_left KJoined = 4" | "exit_left KErased = 3" | "exit_left KUnlocked = 2" | "exit_left KNotified = 1" | "exit_left KEnded = 0"

fun dtor_left :: "dtor_pc \<Rightarrow> nat" where
  "dtor_left DIdle = 8" | "dtor_left DStopping = 7" | "dtor_left DSignalled = 6" | "dtor_left DBlocked = 5" | "dtor_left DChecking = 4"
| "dtor_left DSleeping = 3" | "dtor_left DJoin = 2" | "dtor_left DClose = 1" | "dtor_left DDone = 0"

definition shutdown_left :: "nat set \<Rightarrow> shutdown \<Rightarrow> nat" where
  "shutdown_left K s = (\<Sum>k\<in>K. 3 * exit_left (sd_k s k)) + dtor_left (sd_d s)"

lemma shutdown_left_worker:
  assumes "finite K" "k \<in> K" "\<forall>j. j \<noteq> k \<longrightarrow> sd_k t j = sd_k s j"
    and "3 * exit_left (sd_k t k) + dtor_left (sd_d t) < 3 * exit_left (sd_k s k) + dtor_left (sd_d s)"
  shows "shutdown_left K t < shutdown_left K s"
proof -
  have "(\<Sum>j\<in>K - {k}. 3 * exit_left (sd_k t j)) = (\<Sum>j\<in>K - {k}. 3 * exit_left (sd_k s j))"
    by (rule sum.cong) (use assms(3) in auto)
  then show ?thesis using assms(4) by (simp add: shutdown_left_def sum.remove [OF assms(1,2)])
qed

lemma shutdown_step_left:
  assumes fin: "finite K" and inv: "shutdown_inv K s" and stop: "sd_stopping s" and step: "shutdown_step s t"
  shows "shutdown_left K t < shutdown_left K s"
proof -
  consider "dtor_step s t" | k where "exit_step k s t" using step by (auto simp: shutdown_step_def)
  then show ?thesis
  proof cases
    case 1
    have "sd_d s \<noteq> DIdle" using inv stop by (simp add: shutdown_inv_def dtor_ok_def)
    with 1 show ?thesis by (cases rule: dtor_step.cases) (simp_all add: shutdown_left_def)
  next
    case (2 k)
    have "sd_k s k \<noteq> KEnded" using 2 by (cases rule: exit_step.cases) simp_all
    then have "k \<in> K" using inv by (auto simp: shutdown_inv_def)
    moreover have "\<forall>j. j \<noteq> k \<longrightarrow> sd_k t j = sd_k s j" using 2 by (cases rule: exit_step.cases) simp_all
    moreover have "3 * exit_left (sd_k t k) + dtor_left (sd_d t) < 3 * exit_left (sd_k s k) + dtor_left (sd_d s)"
      using 2 stop by (cases rule: exit_step.cases) simp_all
    ultimately show ?thesis using shutdown_left_worker [OF fin] by blast
  qed
qed

lemma shutdown_steps_left:
  assumes "finite K" "shutdown_reach K s" "sd_stopping s" "(shutdown_step ^^ n) s t"
  shows "n + shutdown_left K t \<le> shutdown_left K s \<and> shutdown_reach K t \<and> sd_stopping t"
  using assms(4)
proof (induction n arbitrary: t)
  case 0
  then show ?case using assms by simp
next
  case (Suc n)
  then obtain u where u: "(shutdown_step ^^ n) s u" "shutdown_step u t" by auto
  then have ih: "n + shutdown_left K u \<le> shutdown_left K s" "shutdown_reach K u" "sd_stopping u" using Suc.IH by auto
  then have "shutdown_left K t < shutdown_left K u" using shutdown_step_left assms(1) u(2) shutdown_reach_inv by blast
  moreover have "sd_stopping t" using u(2) ih(3) by (auto simp: shutdown_step_def elim!: dtor_step.cases exit_step.cases)
  ultimately show ?case using ih u(2) by (auto intro: sd_more)
qed

text \<open>A worker that is at work has a next step, unless it waits for the mutex or for the end of the thread before it.\<close>

lemma worker_stuck:
  assumes "\<forall>t. \<not> exit_step k s t" "sd_stopping s" "sd_spin s"
  shows "sd_k s k = KEnded \<or> sd_k s k = KExiting \<and> workers_lock s \<noteq> None
     \<or> sd_k s k = KLocked \<and> (\<exists>z. sd_join s = Some z \<and> sd_k s z \<noteq> KEnded)"
proof (cases "sd_k s k")
  case KLocked
  then show ?thesis using assms(1) e_nobody e_join by (cases "sd_join s") blast+
qed (use assms e_wait [of s k] e_stop [of s k] e_return [of s k] e_lock [of s k] e_erase [of s k] e_unlock [of s k] e_notify [of s k]
    e_end [of s k] in \<open>simp_all, blast\<close>)

lemma dtor_stuck:
  assumes "\<forall>t. \<not> dtor_step s t" "sd_stopping s" "sd_d s \<noteq> DIdle"
  shows "sd_d s \<in> {DSleeping, DDone} \<or> sd_d s = DBlocked \<and> workers_lock s \<noteq> None
     \<or> sd_d s = DJoin \<and> (\<exists>z. sd_join s = Some z \<and> sd_k s z \<noteq> KEnded)"
proof (cases "sd_d s")
  case DJoin
  then show ?thesis using assms(1) d_nobody d_join by (cases "sd_join s") blast+
qed (use assms dtor_step.intros [of s] in \<open>simp_all, blast+\<close>)

lemma shutdown_stuck:
  assumes inv: "shutdown_inv K s" and stop: "sd_stopping s" and stuck: "\<forall>t. \<not> shutdown_step s t"
  shows "sd_d s = DDone \<and> (\<forall>k. sd_k s k = KEnded)"
proof -
  have hold: "hold_ok (workers_lock s) (sd_k s) (sd_d s)" and mem: "members_ok (sd_active s) (sd_join s) (sd_k s)"
    and dt: "dtor_ok (sd_stopping s) (sd_spin s) (sd_active s) (sd_join s) (sd_k s) (sd_d s)"
    using inv by (simp_all add: shutdown_inv_def)
  have idle: "sd_d s \<noteq> DIdle" using dt stop by (simp add: dtor_ok_def)
  have noD: "\<forall>t. \<not> dtor_step s t" and noW: "\<forall>t. \<not> exit_step k s t" for k using stuck by (auto simp: shutdown_step_def)
  note d = dtor_stuck [OF noD stop idle]
  have "sd_spin s" using dt d idle by (auto simp: dtor_ok_def)
  note w = worker_stuck [OF noW stop this]
  have zom: "sd_k s z = KEnded" if "sd_join s = Some z" for z
  proof -
    have "sd_k s z \<in> gone_pcs" using mem that by (simp add: members_ok_def)
    then show ?thesis using w [of z] by (auto simp: gone_pcs_def)
  qed
  have free: "workers_lock s = None"
  proof (rule ccontr)
    assume "workers_lock s \<noteq> None"
    then consider k where "workers_lock s = Some (ByWorker k)" | "workers_lock s = Some ByDestructor"
      by (metis holder.exhaust option.exhaust)
    then show False
    proof cases
      case (1 k)
      then have "sd_k s k \<in> lock_pcs" using hold by simp
      then show False using w [of k] zom by (auto simp: lock_pcs_def)
    next
      case 2
      then have "sd_d s \<in> holding_pcs" using hold by simp
      then show False using d zom by (auto simp: holding_pcs_def)
    qed
  qed
  have ended: "sd_k s k = KEnded" for k using w [of k] free zom by auto
  then show ?thesis using d free zom dt by (auto simp: dtor_ok_def)
qed

text \<open>
  C23: The destructor of the pool comes to its end, in whatever order the threads run. From the moment it sets \<open>stopping\<close> the
  destructor and the workers together take at most \<open>shutdown_left K s\<close> more steps (a wait for the mutex, for the condition or for a thread to
  be joined is no step), and the state in which none of them can take a step is the one where every worker thread has ended and the destructor has
  returned: no notification is lost, no two threads wait for each other, each thread that exits is joined by the next one. And it closes
  \<open>spin_workers\<close>, the event the workers wait for, only when every worker has ended and the last of them has been joined.
\<close>

theorem destructor_ends:
  assumes "finite K" "shutdown_reach K s" "sd_stopping s" "(shutdown_step ^^ n) s t"
  shows "n + shutdown_left K t \<le> shutdown_left K s
    \<and> ((\<nexists>u. shutdown_step t u) \<longrightarrow> sd_d t = DDone \<and> (\<forall>k. sd_k t k = KEnded))
    \<and> (sd_d t \<in> {DClose, DDone} \<longrightarrow> sd_join t = None \<and> (\<forall>k. sd_k t k = KEnded))"
proof -
  have t: "n + shutdown_left K t \<le> shutdown_left K s" "shutdown_inv K t" "sd_stopping t"
    using shutdown_steps_left [OF assms] shutdown_reach_inv by auto
  moreover have "sd_d t = DDone \<and> (\<forall>k. sd_k t k = KEnded)" if "\<nexists>u. shutdown_step t u" using shutdown_stuck t(2,3) that by blast
  moreover have "sd_join t = None \<and> (\<forall>k. sd_k t k = KEnded)" if "sd_d t \<in> {DClose, DDone}"
    using t(2) that by (auto simp: shutdown_inv_def dtor_ok_def members_ok_def)
  ultimately show ?thesis by blast
qed

text \<open>Two workers, both about to wait for their handles, when the destructor begins: the bound is 54 steps after its second statement.\<close>

definition stopping_pair :: shutdown where
  "stopping_pair = (shutdown_init {0, 1})\<lparr>sd_stopping := True, sd_d := DStopping\<rparr>"

theorem destructor_ends_witness:
  "1 + shutdown_left {0, 1} (stopping_pair\<lparr>sd_spin := True, sd_d := DSignalled\<rparr>) \<le> shutdown_left {0, 1} stopping_pair
    \<and> shutdown_left {0, 1} (stopping_pair\<lparr>sd_spin := True, sd_d := DSignalled\<rparr>) = 54"
proof -
  have "dtor_step (shutdown_init {0, 1}) stopping_pair"
    using d_stop [of "shutdown_init {0, 1}"] by (simp add: stopping_pair_def shutdown_init_def)
  then have r: "shutdown_reach {0, 1} stopping_pair" using sd_more [OF sd_start] by (simp add: shutdown_step_def)
  have p: "sd_stopping stopping_pair" "sd_d stopping_pair = DStopping" by (simp_all add: stopping_pair_def)
  have one: "(shutdown_step ^^ 1) stopping_pair (stopping_pair\<lparr>sd_spin := True, sd_d := DSignalled\<rparr>)"
    using d_signal [OF p(2)] by (auto simp: shutdown_step_def intro!: relcomppI)
  show ?thesis
    using destructor_ends [OF _ r p(1) one] by (simp add: shutdown_left_def stopping_pair_def shutdown_init_def)
qed

end
