(* ===== verification/PeerReplicas.thy ===== *)
theory PeerReplicas
  imports PeerJoin PeerDelivery
begin

text \<open>
  The groups of a session are kept by every peer, without a master copy: a peer that changes them tells the others. This theory gives the
  groups one peer knows as an abstract map, gives each kind of packet as a change of such a map, and shows that the copies stay equal.
\<close>

section \<open>The groups a peer knows\<close>

type_synonym group_map = "dpnid \<Rightarrow> (wchar list \<times> byte list \<times> dpnid set) option"

type_synonym replica = "group_map \<times> dpnid set"

text \<open>A destroyed group stays in \<open>groups\<close> until the thread that tells the application has run; it is no longer there for anybody.\<close>

definition replica_of :: "DirectPlay8Peer \<Rightarrow> replica" where
  "replica_of d =
     (\<lambda>gid. if gid \<in> destroyed_groups d then None
        else map_option (\<lambda>g. (group_name g, group_data g, player_ids g)) (get_group_by_id gid d),
      destroyed_groups d)"

datatype change =
    Created dpnid "wchar list" "byte list"
  | Destroyed dpnid
  | Joined dpnid "wchar list" "byte list" dpnid
  | Left dpnid dpnid
  | Asked dword

text \<open>A request for the identifier of a group to be made changes nothing yet.\<close>

fun apply_change :: "change \<Rightarrow> replica \<Rightarrow> replica" where
  "apply_change (Created gid n dat) (m, gone) =
     (if gid \<in> gone \<or> m gid \<noteq> None then (m, gone) else (m(gid \<mapsto> (n, dat, {})), gone))"
| "apply_change (Destroyed gid) (m, gone) = (m(gid := None), insert gid gone)"
| "apply_change (Joined gid n dat pid) (m, gone) =
     (m(gid := map_option (\<lambda>(n, dat, ps). (n, dat, insert pid ps)) (m gid)), gone)"
| "apply_change (Left gid pid) (m, gone) =
     (m(gid := map_option (\<lambda>(n, dat, ps). (n, dat, ps - {pid})) (m gid)), gone)"
| "apply_change (Asked ack_id) r = r"

fun change_type :: "change \<Rightarrow> dword" where
  "change_type (Created gid n dat) = DPLITE_MSGID_GROUP_CREATE"
| "change_type (Destroyed gid) = DPLITE_MSGID_GROUP_DESTROY"
| "change_type (Joined gid n dat pid) = DPLITE_MSGID_GROUP_JOINED"
| "change_type (Left gid pid) = DPLITE_MSGID_GROUP_LEFT"
| "change_type (Asked ack_id) = DPLITE_MSGID_GROUP_ALLOCATE"

fun change_fields :: "change \<Rightarrow> field list" where
  "change_fields (Created gid n dat) = [FDword gid, FWstring n, FData dat]"
| "change_fields (Destroyed gid) = [FDword gid]"
| "change_fields (Joined gid n dat pid) = [FDword gid, FWstring n, FData dat]"
| "change_fields (Left gid pid) = [FDword gid]"
| "change_fields (Asked ack_id) = [FDword ack_id]"

definition change_packet :: "change \<Rightarrow> sbuf" where
  "change_packet c = serialise (change_type c) (change_fields c)"

text \<open>What a peer may announce: its own membership, in a group that is there.\<close>

fun announceable :: "dpnid \<Rightarrow> change \<Rightarrow> replica \<Rightarrow> bool" where
  "announceable me (Joined gid n dat pid) r \<longleftrightarrow> pid = me \<and> fst r gid \<noteq> None"
| "announceable me (Left gid pid) r \<longleftrightarrow> pid = me"
| "announceable me _ r \<longleftrightarrow> True"

fun announceable_all :: "dpnid \<Rightarrow> change list \<Rightarrow> replica \<Rightarrow> bool" where
  "announceable_all me [] r \<longleftrightarrow> True"
| "announceable_all me (c # cs) r \<longleftrightarrow> announceable me c r \<and> announceable_all me cs (apply_change c r)"

lemma group_packets:
  "group_create_packet gid n dat = change_packet (Created gid n dat)" "group_destroy_packet gid = change_packet (Destroyed gid)"
  "group_joined_packet gid g = change_packet (Joined gid (group_name g) (group_data g) pid)" "group_left_packet gid = change_packet (Left gid pid)"
  "group_allocate_packet ack_id = change_packet (Asked ack_id)"
  by (simp_all add: group_allocate_packet_def group_create_packet_def group_destroy_packet_def group_joined_packet_def group_left_packet_def change_packet_def serialise_def)

section \<open>Receiving a change\<close>

lemma replica_delivered [simp]: "replica_of (d\<lparr>delivered := ms\<rparr>) = replica_of d" "replica_of (d\<lparr>peers := ps\<rparr>) = replica_of d"
  by (simp_all add: replica_of_def get_group_by_id_def cong: if_cong)

lemmas replica_defs = replica_of_def get_group_by_id_def upd_group_def fun_eq_iff option.map_comp

text \<open>The connection to the peer that announced the change is still there, to the same player.\<close>

definition still :: "dword \<Rightarrow> Peer \<Rightarrow> DirectPlay8Peer \<Rightarrow> bool" where
  "still j q e \<longleftrightarrow> (\<exists>q'. get_peer_by_peer_id j e = Some q' \<and> pstate q' = pstate q \<and> player_id q' = player_id q)"

lemma handle_asked:
  assumes "get_peer_by_peer_id j e = Some q" "pstate q = PS_CONNECTED" "represents pd DPLITE_MSGID_GROUP_ALLOCATE [FDword ack_id]"
  shows "\<exists>e'. handle_packet mb app fuel env j pd e = Inr e' \<and> replica_of e' = replica_of e \<and> still j q e'"
proof -
  have r: "packet_type pd = Inr DPLITE_MSGID_GROUP_ALLOCATE" "get_dword pd 0 = Inr ack_id"
    using assms(3) by (simp_all add: represents_def field_access_def)
  have h: "handle_packet mb app fuel env j pd e = handle_group_allocate j pd e"
    by (simp add: handle_packet_def r(1) msgid_defs)
  have "get_peer_by_peer_id j (e\<lparr>next_player_id := n\<rparr>) = Some q" for n using assms(1) by (simp add: get_peer_by_peer_id_def)
  moreover have "replica_of (upd_peer i f (e\<lparr>next_player_id := n\<rparr>)) = replica_of e" for i f n
    by (simp add: upd_peer_def) (simp add: replica_of_def get_group_by_id_def cong: if_cong)
  ultimately show ?thesis
    using assms(1,2) r(2) by (simp add: h handle_group_allocate_def with_peer_def still_def send_ack_def)
qed

lemma handle_created:
  assumes "quiet app" "get_peer_by_peer_id j e = Some q" "pstate q = PS_CONNECTED"
    "represents pd DPLITE_MSGID_GROUP_CREATE [FDword gid, FWstring n, FData dat]"
  shows "\<exists>e'. handle_packet mb app fuel env j pd e = Inr e' \<and> replica_of e' = apply_change (Created gid n dat) (replica_of e) \<and> still j q e'"
proof -
  have r: "packet_type pd = Inr DPLITE_MSGID_GROUP_CREATE" "get_dword pd 0 = Inr gid" "get_wstring pd 1 = Inr n" "get_data pd 2 = Inr dat"
    using assms(4) by (simp_all add: represents_def field_access_def)
  have h: "handle_packet mb app fuel env j pd e = handle_group_create app j pd e"
    by (simp add: handle_packet_def r(1) msgid_defs)
  show ?thesis
    using assms(2,3) r(2-4)
    by (auto simp: h handle_group_create_def with_peer_def group_fields_def numeral_2_eq_2 learn_group_def Let_def quiet_dispatch [OF assms(1)]
      new_Group_def replica_defs still_def get_peer_by_peer_id_def)
qed

lemma handle_destroyed:
  assumes "quiet app" "get_peer_by_peer_id j e = Some q" "pstate q = PS_CONNECTED" "represents pd DPLITE_MSGID_GROUP_DESTROY [FDword gid]"
  shows "\<exists>e'. handle_packet mb app fuel env j pd e = Inr e' \<and> replica_of e' = apply_change (Destroyed gid) (replica_of e) \<and> still j q e'"
proof -
  have r: "packet_type pd = Inr DPLITE_MSGID_GROUP_DESTROY" "get_dword pd 0 = Inr gid"
    using assms(4) by (simp_all add: represents_def field_access_def)
  have h: "handle_packet mb app fuel env j pd e = handle_group_destroy app j pd e"
    by (simp add: handle_packet_def r(1) msgid_defs)
  show ?thesis
    using assms(2,3) r(2)
    by (auto simp: h handle_group_destroy_def with_peer_def Let_def quiet_dispatch [OF assms(1)] replica_defs still_def get_peer_by_peer_id_def split: option.splits)
qed

lemma handle_joined:
  assumes "quiet app" "get_peer_by_peer_id j e = Some q" "pstate q = PS_CONNECTED" "fst (replica_of e) gid \<noteq> None"
    "represents pd DPLITE_MSGID_GROUP_JOINED [FDword gid, FWstring n, FData dat]"
  shows "\<exists>e'. handle_packet mb app fuel env j pd e = Inr e' \<and> replica_of e' = apply_change (Joined gid n dat (player_id q)) (replica_of e) \<and> still j q e'"
proof -
  have r: "packet_type pd = Inr DPLITE_MSGID_GROUP_JOINED" "get_dword pd 0 = Inr gid" "get_wstring pd 1 = Inr n" "get_data pd 2 = Inr dat"
    using assms(5) by (simp_all add: represents_def field_access_def)
  have h: "handle_packet mb app fuel env j pd e = handle_group_joined app j pd e"
    by (simp add: handle_packet_def r(1) msgid_defs)
  from assms(4) obtain g where g: "om_find gid (groups e) = Some g" "gid \<notin> destroyed_groups e"
    by (auto simp: replica_of_def get_group_by_id_def split: if_splits)
  show ?thesis
    using assms(2,3) r(2-4) g
    by (auto simp: h handle_group_joined_def with_peer_def group_fields_def numeral_2_eq_2 Let_def quiet_dispatch [OF assms(1)] replica_defs still_def get_peer_by_peer_id_def)
qed

lemma handle_left:
  assumes "quiet app" "get_peer_by_peer_id j e = Some q" "pstate q = PS_CONNECTED" "represents pd DPLITE_MSGID_GROUP_LEFT [FDword gid]"
  shows "\<exists>e'. handle_packet mb app fuel env j pd e = Inr e' \<and> replica_of e' = apply_change (Left gid (player_id q)) (replica_of e) \<and> still j q e'"
proof -
  have r: "packet_type pd = Inr DPLITE_MSGID_GROUP_LEFT" "get_dword pd 0 = Inr gid"
    using assms(4) by (simp_all add: represents_def field_access_def)
  have h: "handle_packet mb app fuel env j pd e = handle_group_left app j pd e"
    by (simp add: handle_packet_def r(1) msgid_defs)
  show ?thesis
    using assms(2,3) r(2)
    by (auto simp: h handle_group_left_def with_peer_def Let_def quiet_dispatch [OF assms(1)] replica_defs still_def get_peer_by_peer_id_def split: option.splits)
qed

lemma handle_change:
  assumes "quiet app" "get_peer_by_peer_id j e = Some q" "pstate q = PS_CONNECTED" "announceable (player_id q) c (replica_of e)"
    "represents pd (change_type c) (change_fields c)"
  shows "\<exists>e'. handle_packet mb app fuel env j pd e = Inr e' \<and> replica_of e' = apply_change c (replica_of e) \<and> still j q e'"
proof (cases c)
  case (Created gid n dat)
  then show ?thesis using handle_created [OF assms(1-3)] assms(5) by simp
next
  case (Destroyed gid)
  then show ?thesis using handle_destroyed [OF assms(1-3)] assms(5) by simp
next
  case (Joined gid n dat pid)
  then show ?thesis using handle_joined [OF assms(1-3)] assms(4,5) by simp
next
  case (Left gid pid)
  then show ?thesis using handle_left [OF assms(1-3)] assms(4,5) by simp
next
  case (Asked ack_id)
  then show ?thesis using handle_asked [OF assms(2,3), of pd ack_id mb app fuel env] assms(5) by simp
qed

lemma receive_change:
  assumes "quiet app" "get_peer_by_peer_id j e = Some q" "pstate q = PS_CONNECTED" "announceable (player_id q) c (replica_of e)"
    "length (change_packet c) < 2 ^ 32"
  shows "\<exists>e'. receive_packet mb app fuel env j (change_packet c) e = Inr e' \<and> replica_of e' = apply_change c (replica_of e) \<and> still j q e'"
proof -
  from receive_serialised [OF assms(5) [unfolded change_packet_def], of mb app fuel env j e] obtain pd where
    "represents pd (change_type c) (change_fields c)" "receive_packet mb app fuel env j (change_packet c) e = handle_packet mb app fuel env j pd e"
    by (auto simp: change_packet_def)
  with handle_change [OF assms(1-4) this(1)] show ?thesis by simp
qed

fun receive_packets ::
  "mb_conv \<Rightarrow> app \<Rightarrow> nat \<Rightarrow> (nat \<Rightarrow> conn_env) \<Rightarrow> dword \<Rightarrow> byte list list \<Rightarrow> DirectPlay8Peer \<Rightarrow> fault + DirectPlay8Peer" where
  "receive_packets mb app fuel env j [] e = Inr e"
| "receive_packets mb app fuel env j (bs # bss) e = ebind (receive_packet mb app fuel env j bs e) (receive_packets mb app fuel env j bss)"

lemma receive_changes:
  assumes "quiet app"
  shows "get_peer_by_peer_id j e = Some q \<Longrightarrow> pstate q = PS_CONNECTED \<Longrightarrow> announceable_all (player_id q) cs (replica_of e) \<Longrightarrow>
    \<forall>c \<in> set cs. length (change_packet c) < 2 ^ 32 \<Longrightarrow>
    \<exists>e'. receive_packets mb app fuel env j (map change_packet cs) e = Inr e' \<and> replica_of e' = fold apply_change cs (replica_of e)"
proof (induction cs arbitrary: e q)
  case (Cons c cs)
  from receive_change [OF assms Cons.prems(1,2), of c mb fuel env] Cons.prems obtain e1 where
    e1: "receive_packet mb app fuel env j (change_packet c) e = Inr e1" "replica_of e1 = apply_change c (replica_of e)" "still j q e1"
    by auto
  from e1(3) obtain q1 where q1: "get_peer_by_peer_id j e1 = Some q1" "pstate q1 = pstate q" "player_id q1 = player_id q"
    by (auto simp: still_def)
  with Cons.IH [OF q1(1)] Cons.prems e1 show ?case by simp
qed simp

section \<open>Making a change\<close>

text \<open>A connection on which the given packets wait, and nothing else.\<close>

definition waits :: "dword \<Rightarrow> byte list list \<Rightarrow> DirectPlay8Peer \<Rightarrow> bool" where
  "waits i bss d \<longleftrightarrow> (\<exists>p. get_peer_by_peer_id i d = Some p \<and> pstate p = PS_CONNECTED \<and> current (sq p) = None
     \<and> map op_data (high_queue (sq p)) = bss \<and> medium_queue (sq p) = [] \<and> low_queue (sq p) = [])"

lemma waits_contents: "waits i bss d \<Longrightarrow> \<exists>p. get_peer_by_peer_id i d = Some p \<and> map op_data (contents (sq p)) = bss"
  by (auto simp: waits_def contents_def queued_def)

lemma waits_frame: "peers d' = peers d \<Longrightarrow> waits i bss d' = waits i bss d"
  by (simp add: waits_def get_peer_by_peer_id_def)

lemma waits_notify: "waits i bss d \<Longrightarrow> waits i (bss @ [fst (raw_packet ps)]) (notify_connected op ps d)"
  by (auto simp: waits_def notify_connected_def upd_op_def get_peer_by_peer_id_def om_find_send_to_connected send_def send_async_def new_SendOp_def)

lemma notify_connected_frame:
  "groups (notify_connected op ps d) = groups d" "destroyed_groups (notify_connected op ps d) = destroyed_groups d"
  "local_player_id (notify_connected op ps d) = local_player_id d" "host_player_id (notify_connected op ps d) = host_player_id d"
  "next_player_id (notify_connected op ps d) = next_player_id d"
  by (simp_all add: notify_connected_def send_to_connected_def upd_op_def)

text \<open>Calls that concern the caller: everybody creates and destroys groups, and every player joins and leaves on its own.\<close>

fun own_call :: "DirectPlay8Peer \<Rightarrow> group_call \<Rightarrow> bool" where
  "own_call d (CallCreateGroup info gctx actx flags) \<longleftrightarrow> True"
| "own_call d (CallDestroyGroup gid actx flags) \<longleftrightarrow> True"
| "own_call d (CallAddPlayerToGroup gid pid actx flags) \<longleftrightarrow> pid = local_player_id d"
| "own_call d (CallRemovePlayerFromGroup gid pid actx flags) \<longleftrightarrow> pid = local_player_id d"

definition same_player :: "DirectPlay8Peer \<Rightarrow> DirectPlay8Peer \<Rightarrow> bool" where
  "same_player d d' \<longleftrightarrow> local_player_id d' = local_player_id d \<and> host_player_id d' = host_player_id d"

text \<open>One call makes at most one change, and queues its packet.\<close>

definition makes :: "dword \<Rightarrow> byte list list \<Rightarrow> DirectPlay8Peer \<Rightarrow> change list \<Rightarrow> DirectPlay8Peer \<Rightarrow> bool" where
  "makes i bss d cs d' \<longleftrightarrow> waits i (bss @ map change_packet cs) d' \<and> replica_of d' = fold apply_change cs (replica_of d)
     \<and> announceable_all (local_player_id d) cs (replica_of d) \<and> same_player d d'"

lemma raw_packet_id [simp]: "fst (raw_packet ps) = ps"
  by (simp add: raw_packet_def)

lemma makes_nothing: "waits i bss d \<Longrightarrow> makes i bss d [] d"
  by (simp add: makes_def same_player_def)

lemma begin_op_frame:
  assumes "begin_op al sync c d = (op, h, d1)"
  shows "groups d1 = groups d" "destroyed_groups d1 = destroyed_groups d" "local_player_id d1 = local_player_id d"
    "host_player_id d1 = host_player_id d" "next_player_id d1 = next_player_id d" "peers d1 = peers d" "player_to_peer_id d1 = player_to_peer_id d"
  using assms by (auto simp: begin_op_def new_op_def Let_def split: if_splits prod.splits)

lemma RemovePlayer_makes:
  assumes "RemovePlayerFromGroup gid (local_player_id d) actx flags d = Inr (r, d')" "waits i bss d"
  shows "\<exists>cs. length cs \<le> 1 \<and> makes i bss d cs d'"
proof (cases "d' = d")
  case True
  then show ?thesis using makes_nothing [OF assms(2)] by (intro exI [of _ "[]"]) simp
next
  case False
  then obtain g where g: "get_group_by_id gid d = Some g" "local_player_id d \<in> player_ids g"
    using assms(1) by (auto simp: RemovePlayerFromGroup_def in_session_def split: option.splits if_splits)
  obtain op h d1 where b: "begin_op new_rpgroup (flag_set flags DPNREMOVEPLAYERFROMGROUP_SYNC) actx d = (op, h, d1)"
    by (metis prod_cases3)
  note f = begin_op_frame [OF b]
  have d': "d' = (let d3 = upd_group gid (\<lambda>g. g\<lparr>player_ids := player_ids g - {local_player_id d}\<rparr>) (notify_connected op (group_left_packet gid) d1)
      in d3\<lparr>threads := threads d3 @ [TaskRemovePlayer gid (group_ctx g) op]\<rparr>)"
    using assms(1) False g f(3) by (auto simp: RemovePlayerFromGroup_def in_session_def b Let_def split: option.splits)
  have "waits i (bss @ [group_left_packet gid]) d'"
    using waits_notify [of i bss d1 "group_left_packet gid" op] assms(2) waits_frame [OF f(6)]
    by (simp add: d' Let_def upd_group_def waits_def get_peer_by_peer_id_def)
  moreover have "replica_of d' = apply_change (Left gid (local_player_id d)) (replica_of d)"
    using g f by (auto simp: d' Let_def replica_defs notify_connected_frame)
  moreover have "same_player d d'" using f by (simp add: d' Let_def upd_group_def same_player_def notify_connected_frame)
  ultimately have "makes i bss d [Left gid (local_player_id d)] d'" by (simp add: makes_def group_packets(4) [where pid = "local_player_id d"])
  then show ?thesis by (intro exI [of _ "[Left gid (local_player_id d)]"]) simp
qed

lemma AddPlayer_makes:
  assumes "AddPlayerToGroup gid (local_player_id d) actx flags d = Inr (r, d')" "waits i bss d"
  shows "\<exists>cs. length cs \<le> 1 \<and> makes i bss d cs d'"
proof (cases "d' = d")
  case True
  then show ?thesis using makes_nothing [OF assms(2)] by (intro exI [of _ "[]"]) simp
next
  case False
  then obtain g where g: "get_group_by_id gid d = Some g" "gid \<notin> destroyed_groups d" "local_player_id d \<notin> player_ids g"
    using assms(1) by (auto simp: AddPlayerToGroup_def in_session_def split: option.splits if_splits)
  obtain op h d1 where b: "begin_op new_apgroup (flag_set flags DPNADDPLAYERTOGROUP_SYNC) actx d = (op, h, d1)"
    by (metis prod_cases3)
  note f = begin_op_frame [OF b]
  have d': "d' = (let d3 = upd_group gid (\<lambda>g. g\<lparr>player_ids := insert (local_player_id d) (player_ids g)\<rparr>)
        (notify_connected op (group_joined_packet gid g) d1)
      in d3\<lparr>threads := threads d3 @ [TaskAddPlayer gid (group_ctx g) op]\<rparr>)"
    using assms(1) False g f(3) by (auto simp: AddPlayerToGroup_def in_session_def b Let_def split: option.splits)
  let ?c = "Joined gid (group_name g) (group_data g) (local_player_id d)"
  have "waits i (bss @ [group_joined_packet gid g]) d'"
    using waits_notify [of i bss d1 "group_joined_packet gid g" op] assms(2) waits_frame [OF f(6)]
    by (simp add: d' Let_def upd_group_def waits_def get_peer_by_peer_id_def)
  moreover have "replica_of d' = apply_change ?c (replica_of d)"
    using g f by (auto simp: d' Let_def replica_defs notify_connected_frame)
  moreover have "announceable (local_player_id d) ?c (replica_of d)" using g by (simp add: replica_of_def)
  moreover have "same_player d d'" using f by (simp add: d' Let_def upd_group_def same_player_def notify_connected_frame)
  ultimately have "makes i bss d [?c] d'" by (simp add: makes_def group_packets(3) [where pid = "local_player_id d"])
  then show ?thesis by (intro exI [of _ "[?c]"]) simp
qed

lemma DestroyGroup_makes:
  assumes "DestroyGroup gid actx flags d = Inr (r, d')" "waits i bss d"
  shows "\<exists>cs. length cs \<le> 1 \<and> makes i bss d cs d'"
proof (cases "d' = d")
  case True
  then show ?thesis using makes_nothing [OF assms(2)] by (intro exI [of _ "[]"]) simp
next
  case False
  then obtain g where g: "get_group_by_id gid d = Some g" "gid \<notin> destroyed_groups d"
    using assms(1) by (auto simp: DestroyGroup_def in_session_def split: option.splits if_splits)
  obtain op h d1 where b: "begin_op new_dgroup (flag_set flags DPNDESTROYGROUP_SYNC) actx d = (op, h, d1)"
    by (metis prod_cases3)
  note f = begin_op_frame [OF b]
  have d': "d' = (let d3 = notify_connected op (group_destroy_packet gid) (d1\<lparr>destroyed_groups := insert gid (destroyed_groups d1)\<rparr>)
      in d3\<lparr>threads := threads d3 @ [TaskDestroyGroup gid op]\<rparr>)"
    using assms(1) False g by (auto simp: DestroyGroup_def in_session_def b Let_def split: option.splits)
  have "waits i bss (d1\<lparr>destroyed_groups := insert gid (destroyed_groups d1)\<rparr>)"
    using assms(2) f(6) by (simp add: waits_def get_peer_by_peer_id_def)
  from waits_notify [OF this, of "group_destroy_packet gid" op] have "waits i (bss @ [group_destroy_packet gid]) d'"
    by (simp add: d' Let_def waits_def get_peer_by_peer_id_def)
  moreover have "replica_of d' = apply_change (Destroyed gid) (replica_of d)"
    using f by (auto simp: d' Let_def replica_defs notify_connected_frame)
  moreover have "same_player d d'" using f by (simp add: d' Let_def same_player_def notify_connected_frame)
  ultimately have "makes i bss d [Destroyed gid] d'" by (simp add: makes_def group_packets(2))
  then show ?thesis by (intro exI [of _ "[Destroyed gid]"]) simp
qed

lemma create_the_group_makes:
  assumes "waits i bss d"
  shows "makes i bss d [Created gid n dat] (create_the_group op n dat c gid d)"
proof -
  let ?d2 = "d\<lparr>groups := om_emplace gid (new_Group n dat c) (groups d)\<rparr>"
  have "waits i bss ?d2" using assms by (simp add: waits_def get_peer_by_peer_id_def)
  from waits_notify [OF this, of "group_create_packet gid n dat" op]
  have "waits i (bss @ [group_create_packet gid n dat]) (create_the_group op n dat c gid d)"
    by (simp add: create_the_group_def Let_def waits_def get_peer_by_peer_id_def)
  moreover have "replica_of (create_the_group op n dat c gid d) = apply_change (Created gid n dat) (replica_of d)"
    by (auto simp: create_the_group_def Let_def replica_defs notify_connected_frame new_Group_def)
  moreover have "same_player d (create_the_group op n dat c gid d)"
    by (simp add: create_the_group_def Let_def same_player_def notify_connected_frame)
  ultimately show ?thesis by (simp add: makes_def group_packets(1))
qed

text \<open>Steps that leave the groups and the connections alone.\<close>

definition group_frame :: "DirectPlay8Peer \<Rightarrow> DirectPlay8Peer \<Rightarrow> bool" where
  "group_frame d d' \<longleftrightarrow> groups d' = groups d \<and> destroyed_groups d' = destroyed_groups d \<and> same_player d d'"

lemma group_frame_replica: "group_frame d d' \<Longrightarrow> replica_of d' = replica_of d"
  by (simp add: group_frame_def replica_of_def get_group_by_id_def cong: if_cong)

lemma makes_after_frame: "group_frame d d1 \<Longrightarrow> makes i bss d1 cs d' \<Longrightarrow> makes i bss d cs d'"
  using group_frame_replica [of d d1] by (simp add: makes_def group_frame_def same_player_def)

lemma makes_frame: "group_frame d d' \<Longrightarrow> peers d' = peers d \<Longrightarrow> waits i bss d \<Longrightarrow> makes i bss d [] d'"
  using group_frame_replica [of d d'] waits_frame [of d' d] by (simp add: makes_def group_frame_def)

text \<open>A peer that is not the host asks it for an identifier; other calls make their change at once.\<close>

lemma CreateGroup_makes:
  assumes "CreateGroup info gctx actx flags d = Inr (r, d')" "waits i bss d"
  shows "\<exists>cs. length cs \<le> 1 \<and> makes i bss d cs d'"
proof (cases "d' = d")
  case True
  then show ?thesis using makes_nothing [OF assms(2)] by (intro exI [of _ "[]"]) simp
next
  case False
  then obtain gi where gi: "info = Some gi" using assms(1) by (auto simp: CreateGroup_def in_session_def split: option.splits)
  obtain op h d1 where b: "begin_op new_cgroup (flag_set flags DPNCREATEGROUP_SYNC) actx d = (op, h, d1)"
    by (metis prod_cases3)
  note f = begin_op_frame [OF b]
  let ?n = "if flag_set (gi_dwInfoFlags gi) DPNINFO_NAME then gi_pwszName gi else []"
  let ?dat = "if flag_set (gi_dwInfoFlags gi) DPNINFO_DATA then gi_pvData gi else []"
  show ?thesis
  proof (cases "local_player_id d = host_player_id d")
    case True
    let ?gid = "next_player_id d" and ?d2 = "d1\<lparr>next_player_id := next_player_id d + 1\<rparr>"
    have d': "d' = create_the_group op ?n ?dat gctx ?gid ?d2"
      using assms(1) True False f(3-5)
      by (auto simp: CreateGroup_def in_session_def gi b Let_def split: option.splits if_splits)
    have "waits i bss ?d2" using assms(2) f(6) by (simp add: waits_def get_peer_by_peer_id_def)
    from create_the_group_makes [OF this] have "makes i bss ?d2 [Created ?gid ?n ?dat] d'" unfolding d' .
    moreover have "group_frame d ?d2" using f by (simp add: group_frame_def same_player_def)
    ultimately show ?thesis by (intro exI [of _ "[Created ?gid ?n ?dat]"]) (simp add: makes_after_frame)
  next
    case nohost: False
    from assms(1) nohost False f(3,4) obtain k host where
      k: "get_peer_by_peer_id k d1 = Some host"
      "d' = peer_send k SEND_PRI_HIGH (group_allocate_packet (fst (alloc_ack_id host)))
        (CbAllocate (host_player_id d1) (fst (alloc_ack_id host)) op ?n ?dat gctx) (upd_peer k (\<lambda>_. snd (alloc_ack_id host)) d1)"
      by (auto simp: CreateGroup_def in_session_def gi b Let_def with_peer_def case_prod_beta split: option.splits if_splits)
    let ?a = "fst (alloc_ack_id host)"
    have w: "waits i bss d1" using assms(2) waits_frame [OF f(6)] by simp
    have same: "group_frame d d'" "group_frame d d1" "same_player d d'"
      using f by (simp_all add: k(2) group_frame_def same_player_def peer_send_def upd_peer_def)
    have rep: "replica_of d' = replica_of d" using group_frame_replica [OF same(1)] .
    have "waits i (if i = k then bss @ [group_allocate_packet ?a] else bss) d'"
      using w k(1) by (auto simp: k(2) waits_def peer_send_def alloc_ack_id_def Let_def send_def send_async_def new_SendOp_def)
    then have "makes i bss d (if i = k then [Asked ?a] else []) d'"
      using rep same(3) by (simp add: makes_def group_packets(5) split: if_splits)
    then show ?thesis by (intro exI [of _ "if i = k then [Asked ?a] else []"]) simp
  qed
qed

lemma group_call_makes:
  assumes "run_group_call c d = Inr d'" "own_call d c" "waits i bss d"
  shows "\<exists>cs. length cs \<le> 1 \<and> makes i bss d cs d'"
  using assms CreateGroup_makes DestroyGroup_makes AddPlayer_makes RemovePlayer_makes
  by (cases c) (auto simp: state_of_def ebind_def split: sum.splits prod.splits)

text \<open>The answer of the host makes the group that was asked for; other acknowledgements only end an operation.\<close>

lemma run_ack_makes:
  assumes "quiet app" "run_ack app cb result dat d = Inr d'" "waits i bss d"
  shows "\<exists>cs. length cs \<le> 1 \<and> makes i bss d cs d'"
proof -
  have c: "\<exists>cs. length cs \<le> 1 \<and> makes i bss d cs d'" if "complete app op result d = Inr d'" for op
    using that assms(3)
    by (intro exI [of _ "[]"]) (auto simp: complete_def Let_def quiet_dispatch [OF assms(1)] upd_op_def group_frame_def same_player_def
      split: option.splits if_splits intro!: makes_frame)
  have o: "\<exists>cs. length cs \<le> 1 \<and> makes i bss d cs d'" if "op_finished_cb app op result d = Inr d'" for op
    using that assms(3)
    by (intro exI [of _ "[]"]) (auto simp: op_finished_cb_def finish_part_def Let_def quiet_dispatch_snd [OF assms(1)] upd_op_def
      group_frame_def same_player_def split: option.splits if_splits intro!: makes_frame)
  show ?thesis
  proof (cases cb)
    case (AckCreateGroup op n x gc)
    show ?thesis
    proof (cases "result = S_OK \<and> length dat = 4")
      case True
      then have "d' = create_the_group op n x gc (de32 dat) d" using assms(2) AckCreateGroup by simp
      then show ?thesis using create_the_group_makes [OF assms(3), of "de32 dat" n x op gc]
        by (intro exI [of _ "[Created (de32 dat) n x]"]) simp
    next
      case False
      then have "complete app op result d = Inr d'" using assms(2) AckCreateGroup by (simp split: if_splits)
      then show ?thesis by (rule c)
    qed
  qed (use c o assms(2) in simp_all)
qed

lemma handle_ack_makes:
  assumes "quiet app" "handle_ack app k pd d = Inr d'" "waits i bss d"
  shows "\<exists>cs. length cs \<le> 1 \<and> makes i bss d cs d'"
proof (cases "d' = d")
  case True
  then show ?thesis using makes_nothing [OF assms(3)] by (intro exI [of _ "[]"]) simp
next
  case False
  with assms(2) obtain a cb result dat where
    r: "run_ack app cb result dat (upd_peer k (\<lambda>p. p\<lparr>pending_acks := om_erase a (pending_acks p)\<rparr>) d) = Inr d'"
    by (auto simp: handle_ack_def with_peer_def attempt_def ebind_def split: option.splits sum.splits if_splits)
  have "waits i bss (upd_peer k (\<lambda>p. p\<lparr>pending_acks := om_erase a (pending_acks p)\<rparr>) d)"
    using assms(3) by (auto simp: waits_def)
  moreover have "group_frame d (upd_peer k f d)" for f by (simp add: group_frame_def same_player_def upd_peer_def)
  ultimately show ?thesis using run_ack_makes [OF assms(1) r] makes_after_frame by blast
qed

section \<open>The copies stay equal\<close>

text \<open>What happens at a peer: calls of the application, and answers that arrive.\<close>

datatype group_step =
    GroupCall group_call
  | AckArrives dword pd

fun run_group_steps :: "app \<Rightarrow> group_step list \<Rightarrow> DirectPlay8Peer \<Rightarrow> fault + DirectPlay8Peer" where
  "run_group_steps app [] d = Inr d"
| "run_group_steps app (GroupCall c # ss) d = ebind (run_group_call c d) (run_group_steps app ss)"
| "run_group_steps app (AckArrives k pd # ss) d = ebind (handle_ack app k pd d) (run_group_steps app ss)"

fun own_step :: "DirectPlay8Peer \<Rightarrow> group_step \<Rightarrow> bool" where
  "own_step d (GroupCall c) \<longleftrightarrow> own_call d c"
| "own_step d (AckArrives k pd) \<longleftrightarrow> True"

lemma announceable_append:
  "announceable_all me (cs @ cs') r \<longleftrightarrow> announceable_all me cs r \<and> announceable_all me cs' (fold apply_change cs r)"
  by (induction cs arbitrary: r) auto

lemma own_call_same: "same_player d d' \<Longrightarrow> own_call d' c = own_call d c"
  by (cases c) (auto simp: same_player_def)

lemma own_step_same: "same_player d d' \<Longrightarrow> own_step d' s = own_step d s"
  by (cases s) (auto simp: own_call_same)

lemma group_step_makes:
  assumes "quiet app" "run_group_steps app (s # ss) d = Inr d'" "own_step d s" "waits i bss d"
  shows "\<exists>d1 cs. run_group_steps app ss d1 = Inr d' \<and> length cs \<le> 1 \<and> makes i bss d cs d1"
proof (cases s)
  case (GroupCall c)
  then obtain d1 where "run_group_call c d = Inr d1" "run_group_steps app ss d1 = Inr d'"
    using assms(2) by (auto simp: ebind_def split: sum.splits)
  then show ?thesis using group_call_makes [OF _ _ assms(4)] assms(3) GroupCall by fastforce
next
  case (AckArrives k pd)
  then obtain d1 where "handle_ack app k pd d = Inr d1" "run_group_steps app ss d1 = Inr d'"
    using assms(2) by (auto simp: ebind_def split: sum.splits)
  then show ?thesis using handle_ack_makes [OF assms(1) _ assms(4)] by blast
qed

lemma group_steps_make:
  assumes "quiet app"
  shows "run_group_steps app ss d = Inr d' \<Longrightarrow> \<forall>s \<in> set ss. own_step d s \<Longrightarrow> waits i bss d \<Longrightarrow>
    \<exists>cs. length cs \<le> length ss \<and> makes i bss d cs d'"
proof (induction ss arbitrary: d bss)
  case Nil
  then show ?case by (auto simp: makes_def same_player_def intro: exI [of _ "[]"])
next
  case (Cons s ss)
  from group_step_makes [OF assms Cons.prems(1) _ Cons.prems(3)] Cons.prems(2) obtain d1 cs1 where
    d1: "run_group_steps app ss d1 = Inr d'" and cs1: "length cs1 \<le> 1" "makes i bss d cs1 d1" by auto
  then have m1: "waits i (bss @ map change_packet cs1) d1" "replica_of d1 = fold apply_change cs1 (replica_of d)"
    "announceable_all (local_player_id d) cs1 (replica_of d)" "same_player d d1"
    by (simp_all add: makes_def)
  have own: "\<forall>s \<in> set ss. own_step d1 s" using Cons.prems(2) own_step_same [OF m1(4)] by simp
  from Cons.IH [OF d1 own m1(1)] obtain cs2 where
    cs2: "length cs2 \<le> length ss" "makes i (bss @ map change_packet cs1) d1 cs2 d'" by auto
  have "makes i bss d (cs1 @ cs2) d'"
    using cs2(2) m1 by (auto simp: makes_def announceable_append same_player_def)
  moreover have "length (cs1 @ cs2) \<le> length (s # ss)" using cs1(1) cs2(1) by simp
  ultimately show ?case by blast
qed

text \<open>
  C6: The peers of a session agree on its groups. Let two connected peers know the same groups, with the same names, data and members, and let one
  of them, the host or not, any number of times, create groups, destroy groups, join groups itself and leave them itself, whatever these calls return,
  and receive acknowledgements, such as the identifier that the host grants to a peer that asked for a group to be made. If nothing was waiting on
  the connection, then what waits on it afterwards comes from at most one packet per step, and once the other peer has received these packets it again
  knows the same groups; none of the packets stops it. The applications do not call back, and each packet is below four gigabytes.
\<close>

theorem groups_replicate:
  assumes "quiet app" "quiet app'" "run_group_steps app' ss d = Inr d'" "\<forall>s \<in> set ss. own_step d s"
    "get_peer_by_peer_id i d = Some p" "pstate p = PS_CONNECTED" "contents (sq p) = []"
    "get_peer_by_peer_id j e = Some q" "pstate q = PS_CONNECTED" "player_id q = local_player_id d" "replica_of e = replica_of d"
  shows "\<exists>p'. get_peer_by_peer_id i d' = Some p' \<and> length (contents (sq p')) \<le> length ss
    \<and> ((\<forall>op \<in> set (contents (sq p')). length (op_data op) < 2 ^ 32) \<longrightarrow>
         (\<exists>e'. receive_packets mb app fuel env j (map op_data (contents (sq p'))) e = Inr e' \<and> replica_of e' = replica_of d'))"
proof -
  have "waits i [] d" using assms(5-7) by (auto simp: waits_def contents_def queued_def split: option.splits)
  from group_steps_make [OF assms(2,3,4) this] obtain cs where
    cs: "length cs \<le> length ss" "waits i (map change_packet cs) d'" "replica_of d' = fold apply_change cs (replica_of d)"
      "announceable_all (local_player_id d) cs (replica_of d)"
    by (auto simp: makes_def)
  from waits_contents [OF cs(2)] obtain p' where p': "get_peer_by_peer_id i d' = Some p'" "map op_data (contents (sq p')) = map change_packet cs"
    by blast
  then have len: "length (contents (sq p')) \<le> length ss" using cs(1) by (metis length_map)
  have "\<exists>e'. receive_packets mb app fuel env j (map op_data (contents (sq p'))) e = Inr e' \<and> replica_of e' = replica_of d'"
    if "\<forall>op \<in> set (contents (sq p')). length (op_data op) < 2 ^ 32"
  proof -
    have "\<forall>bs \<in> set (map op_data (contents (sq p'))). length bs < 2 ^ 32" using that by simp
    then have "\<forall>c \<in> set cs. length (change_packet c) < 2 ^ 32" unfolding p'(2) by simp
    then show ?thesis
      using receive_changes [OF assms(1,8,9), of cs mb fuel env] cs(3,4) by (simp add: p'(2) assms(10,11))
  qed
  with p'(1) len show ?thesis by blast
qed

text \<open>A peer that is not the host is granted the group it asked for, and joins it.\<close>

definition group_guest :: DirectPlay8Peer where
  "group_guest = zeroed_memory\<lparr>state := STATE_CONNECTED, local_player_id := 2, host_player_id := 1,
     peers := [(1, (new_Peer 1 0 1 PS_CONNECTED 5 0 0)\<lparr>pending_acks := [(7, AckCreateGroup 0 [71] [7] 5)]\<rparr>)], player_to_peer_id := [(1, 1)],
     async_ops := [(0, \<lparr>op_pending = 1, op_sync = False, op_handle = 0, op_context = 0, op_flags = 0, op_result = None\<rparr>)]\<rparr>"

definition group_host :: DirectPlay8Peer where
  "group_host = zeroed_memory\<lparr>state := STATE_HOSTING, local_player_id := 1, host_player_id := 1, next_player_id := 4,
     peers := [(3, new_Peer 2 0 1 PS_CONNECTED 5 0 0)], player_to_peer_id := [(2, 3)]\<rparr>"

definition group_steps :: "pd \<Rightarrow> group_step list" where
  "group_steps pd = [AckArrives 1 pd, GroupCall (CallAddPlayerToGroup 3 2 6 0)]"

lemma group_steps_run:
  assumes "represents pd DPLITE_MSGID_ACK [FDword 7, FDword S_OK, FData (le32 3)]"
  shows "\<exists>d'. run_group_steps silent (group_steps pd) group_guest = Inr d' \<and> fst (replica_of d') 3 = Some ([71], [7], {2})
     \<and> (\<forall>p. get_peer_by_peer_id 1 d' = Some p \<longrightarrow>
          map op_data (contents (sq p)) = [group_create_packet 3 [71] [7], group_joined_packet 3 (new_Group [71] [7] 5)])"
proof -
  have r: "get_dword pd 0 = Inr 7" "get_dword pd (Suc 0) = Inr S_OK" "get_data pd 2 = Inr (le32 3)"
    using assms by (simp_all add: represents_def field_access_def)
  have l: "length (le32 3) = 4" "de32 (le32 3) = 3" by simp_all
  show ?thesis
    by (simp add: group_steps_def group_guest_def zeroed_memory_def handle_ack_def r l with_peer_def upd_peer_def create_the_group_def
      state_of_def in_session_def begin_op_def new_op_def Let_def flag_set_def
      const_defs notify_connected_def send_to_connected_def upd_op_def AddPlayerToGroup_def case_prod_beta
      get_group_by_id_def om_emplace_def om_find_Cons new_Peer_def new_Group_def upd_group_def om_update_def replica_of_def get_peer_by_peer_id_def
      send_def send_async_def new_SendOp_def new_SendQueue_def contents_def queued_def)
qed

lemma group_packet_lengths:
  "length (group_create_packet 3 [71] [7]) < 2 ^ 32" "length (group_joined_packet 3 (new_Group [71] [7] 5)) < 2 ^ 32"
  unfolding group_packets(1) group_packets(3) [of _ _ 1] change_packet_def serialise_def PacketSerialiser_packet_bytes foldl_append_field
  by (simp_all add: new_Group_def packet_bytes_def length_field_bytes)

theorem groups_replicate_witness:
  "\<exists>pd d' p' e'. represents pd DPLITE_MSGID_ACK [FDword 7, FDword S_OK, FData (le32 3)]
     \<and> run_group_steps silent (group_steps pd) group_guest = Inr d' \<and> get_peer_by_peer_id 1 d' = Some p'
     \<and> receive_packets (\<lambda>_ _. []) silent 1 (\<lambda>_. undefined) 3 (map op_data (contents (sq p'))) group_host = Inr e'
     \<and> fst (replica_of e') 3 = Some ([71], [7], {2})"
proof -
  have "length (serialise DPLITE_MSGID_ACK [FDword 7, FDword S_OK, FData (le32 3)]) < 2 ^ 32"
    unfolding serialise_def PacketSerialiser_packet_bytes foldl_append_field by (simp add: packet_bytes_def length_field_bytes)
  from serialise_received [OF this] obtain pd where pd: "represents pd DPLITE_MSGID_ACK [FDword 7, FDword S_OK, FData (le32 3)]" .
  from group_steps_run [OF pd] obtain d' where
    d': "run_group_steps silent (group_steps pd) group_guest = Inr d'" "fst (replica_of d') 3 = Some ([71], [7], {2})"
      "\<forall>p. get_peer_by_peer_id 1 d' = Some p \<longrightarrow>
         map op_data (contents (sq p)) = [group_create_packet 3 [71] [7], group_joined_packet 3 (new_Group [71] [7] 5)]" by blast
  have own: "\<forall>s \<in> set (group_steps pd). own_step group_guest s" by (simp add: group_steps_def group_guest_def)
  let ?g = "(new_Peer 1 0 1 PS_CONNECTED 5 0 0)\<lparr>pending_acks := [(7, AckCreateGroup 0 [71] [7] 5)]\<rparr>"
  have p: "get_peer_by_peer_id 1 group_guest = Some ?g" "get_peer_by_peer_id 3 group_host = Some (new_Peer 2 0 1 PS_CONNECTED 5 0 0)"
    by (simp_all add: group_host_def group_guest_def get_peer_by_peer_id_def om_find_Cons)
  have f: "pstate ?g = PS_CONNECTED" "contents (sq ?g) = []" "pstate (new_Peer 2 0 1 PS_CONNECTED 5 0 0) = PS_CONNECTED"
    "player_id (new_Peer 2 0 1 PS_CONNECTED 5 0 0) = local_player_id group_guest"
    by (simp_all add: new_Peer_def contents_def queued_def new_SendQueue_def group_guest_def)
  have same: "replica_of group_host = replica_of group_guest" by (simp add: replica_of_def group_guest_def group_host_def get_group_by_id_def zeroed_memory_def)
  from groups_replicate [OF quiet_silent quiet_silent d'(1) own p(1) f(1,2) p(2) f(3,4) same, of "\<lambda>_ _. []" 1 "\<lambda>_. undefined"] obtain p' where
    p': "get_peer_by_peer_id 1 d' = Some p'"
      "(\<forall>op \<in> set (contents (sq p')). length (op_data op) < 2 ^ 32) \<longrightarrow>
       (\<exists>e'. receive_packets (\<lambda>_ _. []) silent 1 (\<lambda>_. undefined) 3 (map op_data (contents (sq p'))) group_host = Inr e' \<and> replica_of e' = replica_of d')"
    by blast
  have "\<forall>bs \<in> set (map op_data (contents (sq p'))). length bs < 2 ^ 32" using d'(3) p'(1) group_packet_lengths by simp
  then have "\<forall>op \<in> set (contents (sq p')). length (op_data op) < 2 ^ 32" by simp
  with p'(2) obtain e' where "receive_packets (\<lambda>_ _. []) silent 1 (\<lambda>_. undefined) 3 (map op_data (contents (sq p'))) group_host = Inr e'"
    "replica_of e' = replica_of d'" by blast
  with pd d'(1,2) p'(1) show ?thesis by metis
qed

end
