(* ===== verification/PacketTests.thy ===== *)
theory PacketTests
  imports Constants
begin

text \<open>
  The unit tests of the serialiser and the deserialiser, \<^verbatim>\<open>src/tests/PacketSerialiser.cpp\<close> and \<^verbatim>\<open>PacketDeserialiser.cpp\<close>, run on the model.
  A test is a truth value: its expectations hold. The tests of one fixture are one definition. \<open>parses\<close> is \<^verbatim>\<open>ASSERT_NO_THROW\<close> around the constructor
  and \<open>rejects\<close> is \<^verbatim>\<open>EXPECT_THROW\<close>; sizes are those of the 32-bit build.
\<close>

section \<open>Expectations\<close>

definition parses :: "byte list \<Rightarrow> (pd \<Rightarrow> bool) \<Rightarrow> bool" where
  "parses raw check = (case PacketDeserialiser raw (word_of_nat (length raw) :: 32 word) of Some (Inr pd) \<Rightarrow> check pd | _ \<Rightarrow> False)"

definition rejects :: "byte list \<Rightarrow> pd_error \<Rightarrow> bool" where
  "rejects raw e \<longleftrightarrow> PacketDeserialiser raw (word_of_nat (length raw) :: 32 word) = Some (Inl e)"

definition missing :: "pd \<Rightarrow> nat \<Rightarrow> bool" where
  "missing pd i \<longleftrightarrow> is_null pd i = Inl MissingField \<and> get_dword pd i = Inl MissingField \<and> get_data pd i = Inl MissingField
     \<and> get_wstring pd i = Inl MissingField \<and> get_guid pd i = Inl MissingField"

definition TEST_GUID :: guid where
  "TEST_GUID = DEFINE_GUID 0x67452301 0x1A89 0xDEBC [0xF0, 0x12, 0x34, 0x56, 0x78, 0x91, 0xAB, 0xCD]"

section \<open>Serialiser\<close>

definition test_PacketSerialiserEmpty :: bool where
  "test_PacketSerialiserEmpty \<longleftrightarrow> fst (raw_packet (PacketSerialiser 0xAA)) =
     [0xAA, 0, 0, 0, 0, 0, 0, 0]"

definition test_PacketSerialiserNull :: bool where
  "test_PacketSerialiserNull \<longleftrightarrow> fst (raw_packet (append_null (PacketSerialiser 0xBB))) =
     [0xBB, 0, 0, 0, 8, 0, 0, 0, 0, 0, 0, 0, 0, 0, 0, 0]"

definition test_PacketSerialiserDWORD :: bool where
  "test_PacketSerialiserDWORD \<longleftrightarrow> fst (raw_packet (append_dword (PacketSerialiser 0xAABBCCDD) 0xFFEEDDCC)) =
     [0xDD, 0xCC, 0xBB, 0xAA, 0x0C, 0, 0, 0, 1, 0, 0, 0, 4, 0, 0, 0, 0xCC, 0xDD, 0xEE, 0xFF]"

definition test_PacketSerialiserData :: bool where
  "test_PacketSerialiserData \<longleftrightarrow> fst (raw_packet (append_data (PacketSerialiser 0x1234) [1, 0x23, 0x45, 0x67, 0x89, 0xAB, 0xCD, 0xEF])) =
     [0x34, 0x12, 0, 0, 0x10, 0, 0, 0, 2, 0, 0, 0, 8, 0, 0, 0, 1, 0x23, 0x45, 0x67, 0x89, 0xAB, 0xCD, 0xEF]"

definition test_PacketSerialiserWString :: bool where
  "test_PacketSerialiserWString \<longleftrightarrow> fst (raw_packet (append_wstring (PacketSerialiser 0x1234) (wide ''Hello, I'm Gabe Newell''))) =
     [0x34, 0x12, 0, 0, 0x34, 0, 0, 0, 3, 0, 0, 0, 0x2C, 0, 0, 0, 0x48, 0, 0x65, 0, 0x6C, 0, 0x6C, 0, 0x6F, 0, 0x2C, 0, 0x20, 0, 0x49, 0, 0x27, 0,
       0x6D, 0, 0x20, 0, 0x47, 0, 0x61, 0, 0x62, 0, 0x65, 0, 0x20, 0, 0x4E, 0, 0x65, 0, 0x77, 0, 0x65, 0, 0x6C, 0, 0x6C, 0]"

definition test_PacketSerialiserGUID :: bool where
  "test_PacketSerialiserGUID \<longleftrightarrow> fst (raw_packet (append_guid (PacketSerialiser 0x1234) TEST_GUID)) =
     [0x34, 0x12, 0, 0, 0x18, 0, 0, 0, 4, 0, 0, 0, 0x10, 0, 0, 0, 1, 0x23, 0x45, 0x67, 0x89, 0x1A, 0xBC, 0xDE, 0xF0, 0x12, 0x34, 0x56, 0x78, 0x91, 0xAB, 0xCD]"

definition test_PacketSerialiserNullDWORDDataWString :: bool where
  "test_PacketSerialiserNullDWORDDataWString \<longleftrightarrow>
     fst (raw_packet (append_wstring (append_data (append_dword (append_null (PacketSerialiser 0x1234)) 0xEDFE)
       [1, 0x23, 0x45, 0x67, 0x89]) (wide ''WStr''))) =
     [0x34, 0x12, 0, 0, 0x31, 0, 0, 0, 0, 0, 0, 0, 0, 0, 0, 0, 1, 0, 0, 0, 4, 0, 0, 0, 0xFE, 0xED, 0, 0, 2, 0, 0, 0, 5, 0, 0, 0, 1, 0x23, 0x45, 0x67,
       0x89, 3, 0, 0, 0, 8, 0, 0, 0, 0x57, 0, 0x53, 0, 0x74, 0, 0x72, 0]"

section \<open>Deserialiser\<close>

definition test_PacketDeserialiserEmpty :: bool where
  "test_PacketDeserialiserEmpty = parses [1, 0, 0, 0, 0, 0, 0, 0]
     (\<lambda>pd. packet_type pd = Inr 1
        \<and> num_fields pd = 0
        \<and> missing pd 0)"

definition test_PacketDeserialiserNull :: bool where
  "test_PacketDeserialiserNull = parses [2, 0, 0, 0, 8, 0, 0, 0, 0, 0, 0, 0, 0, 0, 0, 0]
     (\<lambda>pd. packet_type pd = Inr 2
        \<and> num_fields pd = 1
        \<and> is_null pd 0 = Inr True
        \<and> get_dword pd 0 = Inl TypeMismatch \<and> get_data pd 0 = Inl TypeMismatch \<and> get_wstring pd 0 = Inl TypeMismatch \<and> get_guid pd 0 = Inl TypeMismatch
        \<and> missing pd 1)"

definition test_PacketDeserialiserDWORD :: bool where
  "test_PacketDeserialiserDWORD = parses [3, 0, 0, 0, 0xC, 0, 0, 0, 1, 0, 0, 0, 4, 0, 0, 0, 1, 0x23, 0x45, 0x67]
     (\<lambda>pd. packet_type pd = Inr 3
        \<and> num_fields pd = 1
        \<and> is_null pd 0 = Inr False
        \<and> get_dword pd 0 = Inr 0x67452301
        \<and> get_data pd 0 = Inl TypeMismatch \<and> get_wstring pd 0 = Inl TypeMismatch \<and> get_guid pd 0 = Inl TypeMismatch
        \<and> missing pd 1)"

definition test_PacketDeserialiserData :: bool where
  "test_PacketDeserialiserData = parses [4, 0, 0, 0, 0xE, 0, 0, 0, 2, 0, 0, 0, 6, 0, 0, 0, 0xFE, 0xED, 0xBE, 0xEF, 0xAA, 0xAA]
     (\<lambda>pd. packet_type pd = Inr 4
        \<and> num_fields pd = 1
        \<and> is_null pd 0 = Inr False
        \<and> get_data pd 0 = Inr [0xFE, 0xED, 0xBE, 0xEF, 0xAA, 0xAA]
        \<and> get_dword pd 0 = Inl TypeMismatch \<and> get_wstring pd 0 = Inl TypeMismatch \<and> get_guid pd 0 = Inl TypeMismatch
        \<and> missing pd 1)"

definition test_PacketDeserialiserWString :: bool where
  "test_PacketDeserialiserWString = parses [5, 0, 0, 0, 0x12, 0, 0, 0, 3, 0, 0, 0, 0xA, 0, 0, 0, 0x48, 0, 0x65, 0, 0x6C, 0, 0x6C, 0, 0x6F, 0]
     (\<lambda>pd. packet_type pd = Inr 5
        \<and> num_fields pd = 1
        \<and> is_null pd 0 = Inr False
        \<and> get_wstring pd 0 = Inr (wide ''Hello'')
        \<and> get_dword pd 0 = Inl TypeMismatch \<and> get_data pd 0 = Inl TypeMismatch \<and> get_guid pd 0 = Inl TypeMismatch
        \<and> missing pd 1)"

definition test_PacketDeserialiserGUID :: bool where
  "test_PacketDeserialiserGUID = parses [6, 0, 0, 0, 0x18, 0, 0, 0, 4, 0, 0, 0, 0x10, 0, 0, 0, 1, 0x23, 0x45, 0x67, 0x89, 0x1A, 0xBC, 0xDE, 0xF0,
    0x12, 0x34, 0x56, 0x78, 0x91, 0xAB, 0xCD]
     (\<lambda>pd. packet_type pd = Inr 6
        \<and> num_fields pd = 1
        \<and> is_null pd 0 = Inr False
        \<and> get_guid pd 0 = Inr TEST_GUID
        \<and> get_dword pd 0 = Inl TypeMismatch \<and> get_data pd 0 = Inl TypeMismatch \<and> get_wstring pd 0 = Inl TypeMismatch
        \<and> missing pd 1)"

definition test_PacketDeserialiserNullDWORDDataWString :: bool where
  "test_PacketDeserialiserNullDWORDDataWString = parses [0x34, 0x12, 0, 0, 0x31, 0, 0, 0, 0, 0, 0, 0, 0, 0, 0, 0, 1, 0, 0, 0, 4, 0, 0, 0, 0xFE,
    0xED, 0, 0, 2, 0, 0, 0, 5, 0, 0, 0, 1, 0x23, 0x45, 0x67, 0x89, 3, 0, 0, 0, 8, 0, 0, 0, 0x57, 0, 0x53, 0, 0x74, 0, 0x72, 0]
     (\<lambda>pd. packet_type pd = Inr 0x1234
        \<and> num_fields pd = 4
        \<and> is_null pd 0 = Inr True \<and> is_null pd 1 = Inr False \<and> is_null pd 2 = Inr False \<and> is_null pd 3 = Inr False
        \<and> get_dword pd 1 = Inr 0xEDFE
        \<and> get_dword pd 0 = Inl TypeMismatch \<and> get_dword pd 2 = Inl TypeMismatch \<and> get_dword pd 3 = Inl TypeMismatch
        \<and> get_data pd 2 = Inr [1, 0x23, 0x45, 0x67, 0x89]
        \<and> get_data pd 0 = Inl TypeMismatch \<and> get_data pd 1 = Inl TypeMismatch \<and> get_data pd 3 = Inl TypeMismatch
        \<and> get_wstring pd 3 = Inr (wide ''WStr'')
        \<and> get_wstring pd 0 = Inl TypeMismatch \<and> get_wstring pd 1 = Inl TypeMismatch \<and> get_wstring pd 2 = Inl TypeMismatch
        \<and> is_null pd 4 = Inl MissingField \<and> get_dword pd 4 = Inl MissingField \<and> get_data pd 4 = Inl MissingField \<and> get_wstring pd 4 = Inl MissingField)"

definition test_NoData :: bool where
  "test_NoData = rejects [] Incomplete"

definition test_PartialHeader :: bool where
  "test_PartialHeader = rejects [1, 0, 0, 0, 0, 0, 0] Incomplete"

definition test_PartialData :: bool where
  "test_PartialData = rejects [1, 0, 0, 0, 4, 0, 0, 0, 0, 0, 0] Incomplete"

definition test_ExtraData :: bool where
  "test_ExtraData = parses [1, 0, 0, 0, 8, 0, 0, 0, 0, 0, 0, 0, 0, 0, 0, 0, 0, 0] (\<lambda>pd. True)"

definition test_FieldShortHeader :: bool where
  "test_FieldShortHeader = rejects [1, 0, 0, 0, 7, 0, 0, 0, 0, 0, 0, 0, 0, 0, 0] Malformed"

definition test_FieldTooShort :: bool where
  "test_FieldTooShort = rejects [1, 0, 0, 0, 9, 0, 0, 0, 0, 0, 0, 0, 0, 0, 0, 0, 0] Malformed"

definition test_FieldTooLong :: bool where
  "test_FieldTooLong = rejects [1, 0, 0, 0, 9, 0, 0, 0, 0, 0, 0, 0, 2, 0, 0, 0, 0] Malformed"

definition test_ZeroLengthDWORD :: bool where
  "test_ZeroLengthDWORD = parses [1, 0, 0, 0, 8, 0, 0, 0, 1, 0, 0, 0, 0, 0, 0, 0] (\<lambda>pd. get_dword pd 0 = Inl Malformed)"

definition test_UndersizeDWORD :: bool where
  "test_UndersizeDWORD = parses [1, 0, 0, 0, 0xB, 0, 0, 0, 1, 0, 0, 0, 3, 0, 0, 0, 0, 0, 0] (\<lambda>pd. get_dword pd 0 = Inl Malformed)"

definition test_OversizeDWORD :: bool where
  "test_OversizeDWORD = parses [1, 0, 0, 0, 0xD, 0, 0, 0, 1, 0, 0, 0, 5, 0, 0, 0, 0, 0, 0, 0, 0] (\<lambda>pd. get_dword pd 0 = Inl Malformed)"

definition test_ZeroLengthData :: bool where
  "test_ZeroLengthData = parses [1, 0, 0, 0, 8, 0, 0, 0, 2, 0, 0, 0, 0, 0, 0, 0] (\<lambda>pd. get_data pd 0 = Inr [])"

definition test_ZeroLengthWString :: bool where
  "test_ZeroLengthWString = parses [1, 0, 0, 0, 8, 0, 0, 0, 3, 0, 0, 0, 0, 0, 0, 0] (\<lambda>pd. get_wstring pd 0 = Inr [])"

definition test_OneByteWString :: bool where
  "test_OneByteWString = parses [1, 0, 0, 0, 9, 0, 0, 0, 3, 0, 0, 0, 1, 0, 0, 0, 0] (\<lambda>pd. get_wstring pd 0 = Inl Malformed)"

definition test_ZeroLengthGUID :: bool where
  "test_ZeroLengthGUID = parses [1, 0, 0, 0, 8, 0, 0, 0, 4, 0, 0, 0, 0, 0, 0, 0] (\<lambda>pd. get_guid pd 0 = Inl Malformed)"

definition test_UndersizeGUID :: bool where
  "test_UndersizeGUID = parses [6, 0, 0, 0, 0x17, 0, 0, 0, 4, 0, 0, 0, 0xF, 0, 0, 0, 1, 0x23, 0x45, 0x67, 0x89, 0x1A, 0xBC, 0xDE, 0xF0, 0x12, 0x34,
    0x56, 0x78, 0x91, 0xAB] (\<lambda>pd. get_guid pd 0 = Inl Malformed)"

definition test_OversizeGUID :: bool where
  "test_OversizeGUID = parses [6, 0, 0, 0, 0x19, 0, 0, 0, 4, 0, 0, 0, 0x11, 0, 0, 0, 1, 0x23, 0x45, 0x67, 0x89, 0x1A, 0xBC, 0xDE, 0xF0, 0x12, 0x34,
    0x56, 0x78, 0x91, 0xAB, 0xCD, 0xAA] (\<lambda>pd. get_guid pd 0 = Inl Malformed)"


section \<open>All of them\<close>

definition packet_tests :: "bool list" where
  "packet_tests =
    [test_PacketSerialiserEmpty, test_PacketSerialiserNull, test_PacketSerialiserDWORD, test_PacketSerialiserData, test_PacketSerialiserWString,
     test_PacketSerialiserGUID, test_PacketSerialiserNullDWORDDataWString, test_PacketDeserialiserEmpty, test_PacketDeserialiserNull,
     test_PacketDeserialiserDWORD, test_PacketDeserialiserData, test_PacketDeserialiserWString, test_PacketDeserialiserGUID,
     test_PacketDeserialiserNullDWORDDataWString, test_NoData, test_PartialHeader, test_PartialData, test_ExtraData, test_FieldShortHeader,
     test_FieldTooShort, test_FieldTooLong, test_ZeroLengthDWORD, test_UndersizeDWORD, test_OversizeDWORD, test_ZeroLengthData,
     test_ZeroLengthWString, test_OneByteWString, test_ZeroLengthGUID, test_UndersizeGUID, test_OversizeGUID]"

lemma packet_tests_pass: "list_all id packet_tests"
  by code_simp

end
