(* ===== verification/SendQueueTests.thy ===== *)
theory SendQueueTests
  imports SendQueue
begin

text \<open>
  The unit tests of the send queue, \<^verbatim>\<open>src/tests/SendQueue.cpp\<close>, run on the model. A test is a list of steps, in the order of its statements; \<open>run_sq\<close> makes
  each call, compares the outcome and goes on with the queue it leaves. \<open>Signalled\<close> is \<^verbatim>\<open>event_signalled()\<close>, which resets the event; operations are told
  apart by the types of their packets.
\<close>

datatype sq_step =
    Signalled bool
  | Send SendPriority dword
  | SendAsync SendPriority dword dpnhandle
  | Peek dword
  | Take dword
  | NonePending
  | Removed "dword option"
  | RemovedByHandle dpnhandle "dword option"
  | RemovedByPriority SendPriority "dword option"

definition sqop_ptype :: "unit SendOp \<Rightarrow> dword option" where
  "sqop_ptype op =
     (case PacketDeserialiser (fst (op_get_data op)) (word_of_nat (snd (op_get_data op)) :: 32 word) of
        Some (Inr pd) \<Rightarrow> (case packet_type pd of Inr t \<Rightarrow> Some t | Inl _ \<Rightarrow> None)
      | _ \<Rightarrow> None)"

text \<open>Whether what a removal or lookup returned is an operation with the given packet type, or nothing.\<close>

definition returns :: "dword option \<Rightarrow> unit SendOp option \<Rightarrow> bool" where
  "returns expected got = (case got of None \<Rightarrow> expected = None | Some op \<Rightarrow> expected \<noteq> None \<and> sqop_ptype op = expected)"

fun run_sq :: "sq_step list \<Rightarrow> unit SendQueue \<Rightarrow> bool" where
  "run_sq [] q = True"
| "run_sq (Signalled b # ss) q = (signal_on_queue q = b \<and> run_sq ss (q\<lparr>signal_on_queue := False\<rparr>))"
| "run_sq (Send pri t # ss) q = run_sq ss (send pri (PacketSerialiser t) None () q)"
| "run_sq (SendAsync pri t h # ss) q = run_sq ss (send_async pri (PacketSerialiser t) None h () q)"
| "run_sq (Peek t # ss) q = (let (r, q') = get_pending q in returns (Some t) r \<and> fst (get_pending q') = r \<and> run_sq ss q')"
| "run_sq (Take t # ss) q =
     (case get_pending q of
        (None, _) \<Rightarrow> False
      | (Some op, q') \<Rightarrow> sqop_ptype op = Some t \<and> (case pop_pending op q' of None \<Rightarrow> False | Some q'' \<Rightarrow> run_sq ss q''))"
| "run_sq (NonePending # ss) q = (let (r, q') = get_pending q in r = None \<and> run_sq ss q')"
| "run_sq (Removed t # ss) q = (let (r, q') = remove_queued q in returns t r \<and> run_sq ss q')"
| "run_sq (RemovedByHandle h t # ss) q = (let (r, q') = remove_queued_by_handle h q in returns t r \<and> run_sq ss q')"
| "run_sq (RemovedByPriority pri t # ss) q = (let (r, q') = remove_queued_by_priority pri q in returns t r \<and> run_sq ss q')"

definition sq_test :: "sq_step list \<Rightarrow> bool" where
  "sq_test steps = run_sq steps new_SendQueue"

definition test_SendSingleLow :: bool where
  "test_SendSingleLow = sq_test
     [Signalled False, Send SEND_PRI_LOW 0, Signalled True, Signalled False, Peek 0, Take 0, NonePending]"

definition test_SendMultiLow :: bool where
  "test_SendMultiLow = sq_test
     [Signalled False, Send SEND_PRI_LOW 1, Send SEND_PRI_LOW 2, Signalled True, Signalled False,
      Send SEND_PRI_LOW 0, Signalled True, Signalled False,
      Peek 1, Take 1, Peek 2, Take 2, Peek 0, Take 0, NonePending]"

definition test_SendMultiMedium :: bool where
  "test_SendMultiMedium = sq_test
     [Signalled False, Send SEND_PRI_MEDIUM 1, Send SEND_PRI_MEDIUM 2, Signalled True, Signalled False,
      Peek 1, Take 1, Peek 2, Take 2, NonePending]"

definition test_SendMultiHigh :: bool where
  "test_SendMultiHigh = sq_test
     [Signalled False, Send SEND_PRI_HIGH 1, Send SEND_PRI_HIGH 2, Signalled True, Signalled False,
      Peek 1, Take 1, Peek 2, Take 2, NonePending]"

definition test_SendMultiPriorities :: bool where
  "test_SendMultiPriorities = sq_test
     [Signalled False, Send SEND_PRI_LOW 1, Send SEND_PRI_MEDIUM 2, Send SEND_PRI_HIGH 3, Send SEND_PRI_LOW 4, Send SEND_PRI_MEDIUM 5,
      Send SEND_PRI_HIGH 6, Signalled True, Signalled False,
      Peek 3, Take 3, Peek 6, Take 6, Peek 2, Take 2, Peek 5, Take 5, Peek 1, Take 1, Peek 4, Take 4, NonePending]"

definition send_three :: "sq_step list" where
  "send_three = [SendAsync SEND_PRI_LOW 1 1, SendAsync SEND_PRI_MEDIUM 2 2, SendAsync SEND_PRI_HIGH 3 3]"

definition test_RemoveQueued :: bool where
  "test_RemoveQueued = sq_test (send_three @ [Removed (Some 3), Removed (Some 2), Removed (Some 1), Removed None, NonePending])"

definition test_RemoveQueuedPending :: bool where
  "test_RemoveQueuedPending = sq_test (send_three @ [Take 3, Removed (Some 2), Take 1, Removed None, NonePending])"

definition test_RemoveQueuedNoHandle :: bool where
  "test_RemoveQueuedNoHandle = sq_test [Send SEND_PRI_LOW 1, Send SEND_PRI_MEDIUM 2, Send SEND_PRI_HIGH 3, Removed None]"

definition test_RemoveQueuedByHandle :: bool where
  "test_RemoveQueuedByHandle = sq_test (send_three @
     [RemovedByHandle 1 (Some 1), RemovedByHandle 1 None, RemovedByHandle 2 (Some 2), RemovedByHandle 2 None,
      RemovedByHandle 3 (Some 3), RemovedByHandle 3 None])"

definition test_RemoveQueuedByPriority :: bool where
  "test_RemoveQueuedByPriority = sq_test (send_three @
     [RemovedByPriority SEND_PRI_LOW (Some 1), RemovedByPriority SEND_PRI_LOW None,
      RemovedByPriority SEND_PRI_MEDIUM (Some 2), RemovedByPriority SEND_PRI_MEDIUM None,
      RemovedByPriority SEND_PRI_HIGH (Some 3), RemovedByPriority SEND_PRI_HIGH None])"

definition test_RemoveQueuedByPriorityNoHandle :: bool where
  "test_RemoveQueuedByPriorityNoHandle = sq_test
     [Send SEND_PRI_LOW 1, Send SEND_PRI_MEDIUM 2, Send SEND_PRI_MEDIUM 3,
      RemovedByPriority SEND_PRI_LOW None, RemovedByPriority SEND_PRI_MEDIUM None, RemovedByPriority SEND_PRI_HIGH None]"

definition send_queue_tests :: "bool list" where
  "send_queue_tests =
    [test_SendSingleLow, test_SendMultiLow, test_SendMultiMedium, test_SendMultiHigh, test_SendMultiPriorities, test_RemoveQueued,
     test_RemoveQueuedPending, test_RemoveQueuedNoHandle, test_RemoveQueuedByHandle, test_RemoveQueuedByPriority, test_RemoveQueuedByPriorityNoHandle]"

lemma send_queue_tests_pass: "list_all id send_queue_tests"
  by code_simp

end
