(* ===== verification/AddressTests.thy ===== *)
theory AddressTests
  imports Address
begin

text \<open>
  The unit tests of the address object, \<^verbatim>\<open>src/tests/DirectPlay8Address.cpp\<close>, run on the model. Each fixture is the address its \<^verbatim>\<open>SetUp\<close> builds, and the tests
  of a fixture are one definition, or several where there are many. The buffers of the tests are larger than what is written, so a buffer is its size, and the
  characters of the ANSI string are those of ASCII (\<open>ascii_mb\<close>). The tests of \<^verbatim>\<open>GetURLW\<close> and \<^verbatim>\<open>GetURLA\<close> are disabled in the source.
\<close>

section \<open>Fixtures\<close>

definition CLSID_DP8SP_SERIAL :: guid where
  "CLSID_DP8SP_SERIAL = DEFINE_GUID 0x743b5d60 0x628d 0x11d2 [0xae, 0x0f, 0x0, 0x60, 0x97, 0xb0, 0x14, 0x11]"

definition CLSID_DP8SP_BLUETOOTH :: guid where
  "CLSID_DP8SP_BLUETOOTH = DEFINE_GUID 0x995513af 0x3027 0x4b9a [0x95, 0x6e, 0xc7, 0x72, 0xb3, 0xf7, 0x80, 0x06]"

definition ascii_mb :: mb_conv where
  "ascii_mb bs n = map ucast (take (nat n) bs)"

definition zwide :: "string \<Rightarrow> wchar list" where
  "zwide s = wide s @ [0]"

text \<open>\<^verbatim>\<open>SetUp\<close>: calls that all return \<open>S_OK\<close>.\<close>

fun set_up :: "(DirectPlay8Address \<Rightarrow> hresult \<times> DirectPlay8Address) list \<Rightarrow> DirectPlay8Address \<Rightarrow> DirectPlay8Address option" where
  "set_up [] a = Some a"
| "set_up (c # cs) a = (let (res, a') = c a in if res = S_OK then set_up cs a' else None)"

definition fixture :: "(DirectPlay8Address \<Rightarrow> hresult \<times> DirectPlay8Address) list \<Rightarrow> (DirectPlay8Address \<Rightarrow> bool) \<Rightarrow> bool" where
  "fixture cs test = (case set_up cs (fst (new_address None)) of None \<Rightarrow> False | Some a \<Rightarrow> test a)"

definition WithWStringComponent :: "(DirectPlay8Address \<Rightarrow> bool) \<Rightarrow> bool" where
  "WithWStringComponent = fixture [AddComponent ascii_mb (wide ''key'') (wstring_bytes (zwide ''wide string value'')) 36 DPNA_DATATYPE_STRING]"

definition WithAStringComponent :: "(DirectPlay8Address \<Rightarrow> bool) \<Rightarrow> bool" where
  "WithAStringComponent = fixture [AddComponent ascii_mb (wide ''key'') (ascii ''ASCII string value'' @ [0]) 19 DPNA_DATATYPE_STRING_ANSI]"

definition WithDWORDComponent :: "(DirectPlay8Address \<Rightarrow> bool) \<Rightarrow> bool" where
  "WithDWORDComponent = fixture [AddComponent ascii_mb (wide ''key'') (le32 0x0EA7BEEF) 4 DPNA_DATATYPE_DWORD]"

definition WithGUIDComponent :: "(DirectPlay8Address \<Rightarrow> bool) \<Rightarrow> bool" where
  "WithGUIDComponent = fixture [AddComponent ascii_mb (wide ''key'') (guid_bytes CLSID_DirectPlay8Address) 16 DPNA_DATATYPE_GUID]"

definition REFDATA :: "byte list" where
  "REFDATA = [0, 1, 2, 3] @ ascii ''0123456789ABCDEF'' @ [0xFF, 0xFE]"

definition SetUserDataFixture :: "(DirectPlay8Address \<Rightarrow> bool) \<Rightarrow> bool" where
  "SetUserDataFixture = fixture [SetUserData (Some REFDATA) 22]"

definition IPConstructed :: "(DirectPlay8Address \<Rightarrow> bool) \<Rightarrow> bool" where
  "IPConstructed = fixture
     [SetDevice ascii_mb CLSID_DP8SP_BLUETOOTH, SetSP ascii_mb CLSID_DP8SP_TCPIP, AddComponent ascii_mb DPNA_KEY_PORT (le32 1234) 4 DPNA_DATATYPE_DWORD,
      SetUserData (Some (ascii ''user data'')) 9]"

section \<open>Expectations\<close>

definition by_index_small :: "dword \<Rightarrow> dword \<Rightarrow> DirectPlay8Address \<Rightarrow> bool" where
  "by_index_small ksize vsize a =
     (let (res, _, vsize', _, _, ksize') = GetComponentByIndex 0 True ksize True vsize 0 a
      in res = DPNERR_BUFFERTOOSMALL \<and> ksize' = 4 \<and> vsize' = 36)"

definition by_index_ok :: "dword \<Rightarrow> dword \<Rightarrow> dword \<Rightarrow> wchar list \<Rightarrow> dword \<Rightarrow> byte list \<Rightarrow> DirectPlay8Address \<Rightarrow> bool" where
  "by_index_ok i ksize vsize key ty val a =
     (let (res, bytes, vsize', ty', name, ksize') = GetComponentByIndex i True ksize True vsize 0 a
      in res = S_OK \<and> ksize' = word_of_nat (length key) \<and> vsize' = word_of_nat (length val) \<and> ty' = ty \<and> name = Some key \<and> bytes = Some val)"

definition by_name_small :: "bool \<Rightarrow> dword \<Rightarrow> dword \<Rightarrow> DirectPlay8Address \<Rightarrow> bool" where
  "by_name_small buf vsize needed a =
     (let (res, _, vsize', _) = GetComponentByName (wide ''key'') buf vsize 0 a in res = DPNERR_BUFFERTOOSMALL \<and> vsize' = needed)"

definition by_name_ok :: "wchar list \<Rightarrow> dword \<Rightarrow> dword \<Rightarrow> byte list \<Rightarrow> DirectPlay8Address \<Rightarrow> bool" where
  "by_name_ok key vsize ty val a =
     (let (res, bytes, vsize', ty') = GetComponentByName key True vsize 0 a
      in res = S_OK \<and> vsize' = word_of_nat (length val) \<and> ty' = ty \<and> bytes = Some val)"

definition no_such_name :: "wchar list \<Rightarrow> DirectPlay8Address \<Rightarrow> bool" where
  "no_such_name key a \<longleftrightarrow> fst (GetComponentByName key True 256 0 a) = DPNERR_DOESNOTEXIST"

definition no_such_index :: "dword \<Rightarrow> DirectPlay8Address \<Rightarrow> bool" where
  "no_such_index i a \<longleftrightarrow> fst (GetComponentByIndex i True 512 True 256 0 a) = DPNERR_DOESNOTEXIST"

definition has_components :: "dword \<Rightarrow> DirectPlay8Address \<Rightarrow> bool" where
  "has_components n a \<longleftrightarrow> GetNumComponents a = (S_OK, n)"

text \<open>The five tests that the fixtures with one component share.\<close>

definition component_tests :: "dword \<Rightarrow> byte list \<Rightarrow> DirectPlay8Address \<Rightarrow> bool" where
  "component_tests ty val a \<longleftrightarrow> has_components 1 a
     \<and> by_name_small False 0 (word_of_nat (length val)) a \<and> by_name_small True (word_of_nat (length val) - 1) (word_of_nat (length val)) a
     \<and> by_name_ok (wide ''key'') (word_of_nat (length val)) ty val a \<and> by_name_ok (wide ''key'') (word_of_nat (length val) * 2) ty val a"

section \<open>Tests\<close>

definition test_AddressInitial :: bool where
  "test_AddressInitial = fixture [] (\<lambda>a. has_components 0 a \<and> fst (GetSP a) = DPNERR_DOESNOTEXIST \<and> fst (GetDevice a) = DPNERR_DOESNOTEXIST
     \<and> fst (GetUserData True 256 a) = DPNERR_DOESNOTEXIST)"

definition test_WStringByIndex :: bool where
  "test_WStringByIndex = WithWStringComponent (\<lambda>a.
     by_index_small 0 36 a \<and> by_index_small 4 0 a \<and> by_index_small 3 36 a \<and> by_index_small 4 35 a
     \<and> by_index_ok 0 4 36 (zwide ''key'') DPNA_DATATYPE_STRING (wstring_bytes (zwide ''wide string value'')) a
     \<and> by_index_ok 0 8 72 (zwide ''key'') DPNA_DATATYPE_STRING (wstring_bytes (zwide ''wide string value'')) a
     \<and> no_such_index 1 a)"

definition test_WStringByName :: bool where
  "test_WStringByName = WithWStringComponent (\<lambda>a.
     component_tests DPNA_DATATYPE_STRING (wstring_bytes (zwide ''wide string value'')) a \<and> no_such_name (wide ''wrongkey'') a)"

definition test_WStringClear :: bool where
  "test_WStringClear = WithWStringComponent (\<lambda>a.
     let (res, a') = Clear a in res = S_OK \<and> has_components 0 a' \<and> no_such_name (wide ''key'') a' \<and> no_such_index 0 a')"

definition test_AString :: bool where
  "test_AString = WithAStringComponent (component_tests DPNA_DATATYPE_STRING (wstring_bytes (zwide ''ASCII string value'')))"

definition test_DWORD :: bool where
  "test_DWORD = WithDWORDComponent (component_tests DPNA_DATATYPE_DWORD (le32 0x0EA7BEEF))"

definition test_GUID :: bool where
  "test_GUID = WithGUIDComponent (component_tests DPNA_DATATYPE_GUID (guid_bytes CLSID_DirectPlay8Address))"

definition test_SetSP :: bool where
  "test_SetSP = fixture [SetSP ascii_mb CLSID_DP8SP_TCPIP] (\<lambda>a.
     GetSP a = (S_OK, Some CLSID_DP8SP_TCPIP) \<and> has_components 1 a
     \<and> by_name_ok DPNA_KEY_PROVIDER 16 DPNA_DATATYPE_GUID (guid_bytes CLSID_DP8SP_TCPIP) a)"

definition test_SetSPTwice :: bool where
  "test_SetSPTwice = fixture [SetSP ascii_mb CLSID_DP8SP_TCPIP, SetSP ascii_mb CLSID_DP8SP_SERIAL] (\<lambda>a.
     GetSP a = (S_OK, Some CLSID_DP8SP_SERIAL) \<and> has_components 1 a
     \<and> by_name_ok DPNA_KEY_PROVIDER 16 DPNA_DATATYPE_GUID (guid_bytes CLSID_DP8SP_SERIAL) a)"

definition test_SetDevice :: bool where
  "test_SetDevice = fixture [SetDevice ascii_mb CLSID_DP8SP_BLUETOOTH] (\<lambda>a.
     GetDevice a = (S_OK, Some CLSID_DP8SP_BLUETOOTH) \<and> has_components 1 a
     \<and> by_name_ok DPNA_KEY_DEVICE 16 DPNA_DATATYPE_GUID (guid_bytes CLSID_DP8SP_BLUETOOTH) a)"

definition test_SetUserData :: bool where
  "test_SetUserData = SetUserDataFixture (\<lambda>a.
     GetUserData False 0 a = (DPNERR_BUFFERTOOSMALL, None, 22) \<and> GetUserData True 21 a = (DPNERR_BUFFERTOOSMALL, None, 22)
     \<and> GetUserData True 22 a = (S_OK, Some REFDATA, 22) \<and> GetUserData True 256 a = (S_OK, Some REFDATA, 256)
     \<and> has_components 0 a \<and> (let (res, a') = Clear a in res = S_OK \<and> fst (GetUserData True 256 a') = DPNERR_DOESNOTEXIST))"

definition test_IPConstructed :: bool where
  "test_IPConstructed = IPConstructed (\<lambda>a. has_components 3 a
     \<and> by_index_ok 0 64 64 (zwide ''provider'') DPNA_DATATYPE_GUID (guid_bytes CLSID_DP8SP_TCPIP) a
     \<and> by_index_ok 1 64 64 (zwide ''device'') DPNA_DATATYPE_GUID (guid_bytes CLSID_DP8SP_BLUETOOTH) a
     \<and> by_index_ok 2 64 64 (zwide ''port'') DPNA_DATATYPE_DWORD (le32 1234) a)"

definition address_tests :: "bool list" where
  "address_tests =
    [test_AddressInitial, test_WStringByIndex, test_WStringByName, test_WStringClear, test_AString, test_DWORD, test_GUID, test_SetSP, test_SetSPTwice,
     test_SetDevice, test_SetUserData, test_IPConstructed]"

text \<open>Tests with GUIDs are evaluated by rewriting, which need not look at their bytes.\<close>

lemmas address_evaluation = fixture_def new_address_def AddRef_def AddComponent_def new_component_def SetSP_def SetDevice_def GetSP_def
  GetDevice_def guid_component_def SetUserData_def place_component_def GetComponentByName_def GetComponentByIndex_def fill_buffer_def
  has_components_def GetNumComponents_def by_name_ok_def by_index_ok_def component_tests_def by_name_small_def zwide_def Let_def

lemma string_tests_pass: "list_all id [test_WStringByIndex, test_WStringByName, test_WStringClear, test_AString]"
  by code_simp

lemma plain_tests_pass: "list_all id [test_AddressInitial, test_DWORD, test_SetUserData]"
  by code_simp

lemma guid_tests_pass: test_GUID test_SetSP test_SetSPTwice test_SetDevice
  by (simp_all add: test_GUID_def test_SetSP_def test_SetSPTwice_def test_SetDevice_def WithGUIDComponent_def address_evaluation const_defs)

lemma constructed_test_passes: test_IPConstructed
  by (simp add: test_IPConstructed_def IPConstructed_def address_evaluation const_defs key_defs)

lemma address_tests_pass: "list_all id address_tests"
  using string_tests_pass plain_tests_pass guid_tests_pass constructed_test_passes by (simp add: address_tests_def)

end
