(* ===== verification/UnitTests.thy ===== *)
theory UnitTests
  imports PacketTests SendQueueTests AddressTests
begin

text \<open>
  The unit tests of the repository that need neither threads nor sockets, evaluated on the model. They check the definitions against what the authors of the
  code expect of it, independently of the properties proved in the other theories.
\<close>

text \<open>
  The model passes the unit tests. Every expectation of the tests of the serialiser, the deserialiser, the send queue and the address object
  (\<^verbatim>\<open>src/tests/PacketSerialiser.cpp\<close>, \<^verbatim>\<open>PacketDeserialiser.cpp\<close>, \<^verbatim>\<open>SendQueue.cpp\<close>, \<^verbatim>\<open>DirectPlay8Address.cpp\<close>) holds of their definitions.
\<close>

theorem unit_tests_pass: "list_all id (packet_tests @ send_queue_tests @ address_tests)"
  using packet_tests_pass send_queue_tests_pass address_tests_pass by simp

end
