(* ===== verification/Spec2Isabelle.thy ===== *)
theory Spec2Isabelle
  imports Packet AsyncHandles SendQueue Address PoolProtocol HostEnum Network Registration PeerPackets
    PeerStream PeerPorts PeerCompletion PeerBuffers PeerHandshake PeerAborts PeerClose PeerDelivery PeerJoin HookDll
    PoolShutdown PeerReplicas UnitTests
begin

text \<open>
  Verification of DirectPlay Lite, a replacement for the peer-to-peer part of Microsoft's DirectPlay 8, written in C++ for
  32-bit Windows.

  \<^bold>\<open>The program.\<close> An application creates COM objects of two classes. An \<^emph>\<open>address\<close> (\<^verbatim>\<open>src/src/DirectPlay8Address.cpp\<close>) is a
  list of named components. A \<^emph>\<open>peer\<close> (\<^verbatim>\<open>src/src/DirectPlay8Peer.cpp\<close>) hosts or joins a session: it finds hosts by
  broadcast (\<^verbatim>\<open>HostEnumerator.cpp\<close>), holds one TCP connection to each other peer, exchanges packets (\<^verbatim>\<open>packet.cpp\<close>,
  \<^verbatim>\<open>Messages.hpp\<close>) through a queue per connection (\<^verbatim>\<open>SendQueue.cpp\<close>), and reports what happens to a message handler of the
  application. Its socket events run on a pool of threads (\<^verbatim>\<open>HandleHandlingPool.cpp\<close>), its asynchronous operations carry
  handles (\<^verbatim>\<open>AsyncHandleAllocator.cpp\<close>), its sockets come from \<^verbatim>\<open>network.cpp\<close>. The library is loaded as a COM server
  (\<^verbatim>\<open>dpnet.cpp\<close>, \<^verbatim>\<open>Factory.hpp\<close>), or by a DLL that stands in for a system library (\<^verbatim>\<open>src/hookdll\<close>) and redirects the
  functions that initialise COM with a hooking library (\<^verbatim>\<open>src/minhook\<close>).

  \<^bold>\<open>Common conventions.\<close> A class is a record, a method a function that takes the record and returns it changed. Integers
  are words of the width of the source, so that they wrap; where the width of \<^verbatim>\<open>size_t\<close> matters it is a type parameter. An
  exception, a failed assertion and undefined behaviour are values: of a sum type (\<open>Inl\<close>), or \<open>None\<close>. What Windows answers
  (sockets, the registry, memory, threads, COM) is an argument, either a record of outcomes or a list with one result for
  each call. Pointers to memory of the application are natural numbers or byte lists. Closures are the
  constructors of a datatype, so that they can be inspected in a state.

  \<^bold>\<open>Foundations.\<close>
  \<^item> \<open>Prelude\<close>: machine types, errors as values, bounded reads, little-endian encodings (locale \<open>fixed_codec\<close>).
  \<^item> \<open>OrdMap\<close>: \<^verbatim>\<open>std::map\<close> as a sorted association list (locale \<open>keyed_store\<close>).
  \<^item> \<open>RefCount\<close>: the reference counting contract of COM (locale \<open>refcounted\<close>), interpreted for factories, addresses and peers.
  \<^item> \<open>Constants\<close>: the constants of \<^verbatim>\<open>src/include/dplay8.h\<close> and \<^verbatim>\<open>dpaddr.h\<close> that the sources use.

  \<^bold>\<open>Components below the peer.\<close>
  \<^item> \<open>Packet\<close> (\<^verbatim>\<open>packet.cpp\<close>): serialiser and deserialiser. Packets have the layout of their fields and are read back. With the
    32-bit \<^verbatim>\<open>size_t\<close> of the build the deserialiser ends on any input, and reads nothing outside the packet, unless a length
    in it is within 8 of \<open>2 ^ 32\<close>: such a length makes it loop forever, or read past the packet. The walk over the fields is a
    partial function, and the theorems say when it returns.
  \<^item> \<open>SendQueue\<close>: no operation is lost or duplicated, priorities are kept, each removal method takes the first
    operation of its search order and never the one in transmission, and a socket that takes pieces gets exactly the bytes
    (locale \<open>send_discipline\<close>). The count of bytes sent wraps at 32 bits.
  \<^item> \<open>AsyncHandles\<close>: handles carry their kind and count its turns, wrapping to 1, so that two are equal exactly when they are whole
    turns of one kind apart (locale \<open>handle_source\<close>).
  \<^item> \<open>Address\<close>: components are found under their names, are read back, and respect the buffers of the caller (locale \<open>named_store\<close>).
  \<^item> \<open>HandlePool\<close>, \<open>PoolProtocol\<close> (\<^verbatim>\<open>HandleHandlingPool.cpp\<close>): the interlaced arrays implement a multiset of registrations, a
    woken worker runs the right callback. Reachable pools include those after failed calls, except that the two allocations
    \<open>add_handle\<close> does not undo are there (\<open>add_handle_failure_misaligns\<close> shows what happens otherwise). The locking protocol is a
    step relation in which a worker wakes only because of an event: it has mutual exclusion, and the threads that hold a lock
    in front of a waiting writer are woken and give it up within a bounded number of steps. \<open>PoolShutdown\<close>: the destructor against the exit of the workers; it ends in every interleaving, and frees nothing a worker still uses.
  \<^item> \<open>Network\<close> (\<^verbatim>\<open>network.cpp\<close>): no socket leaks, and none is returned half configured (locale \<open>socket_script\<close>). \<open>HostEnum\<close> (\<^verbatim>\<open>HostEnumerator.cpp\<close>): requests are counted and spaced on a
    clock that wraps, responses become messages.
  \<^item> \<open>Messages\<close> (\<^verbatim>\<open>Messages.hpp\<close>): the documented layout of each packet and the messages to the application.
  \<^item> \<open>ComServer\<close>, \<open>Registration\<close> (\<^verbatim>\<open>dpnet.cpp\<close>, \<^verbatim>\<open>Factory.hpp\<close>): the server may be unloaded exactly when nothing uses it;
    what registration does to the registry.
  \<^item> \<open>Logging\<close> (\<^verbatim>\<open>Log.cpp\<close>, \<^verbatim>\<open>COMAPIException.cpp\<close>, \<^verbatim>\<open>EventObject.cpp\<close>): no line of the log is lost.

  \<^bold>\<open>The peer: definitions.\<close> All are translated from \<^verbatim>\<open>DirectPlay8Peer.hpp\<close> and \<^verbatim>\<open>.cpp\<close>.
  \<^item> \<open>PeerState\<close>: the records, lookups, and delivery of messages. Entering the application is a function on the whole state,
    since the lock is released meanwhile.
  \<^item> \<open>PeerTeardown\<close>: the end of connections and sessions. \<open>PeerGroups\<close>: groups and the completion of operations.
    \<open>PeerSession\<close>: the handshakes and the handlers of packets. \<open>PeerIO\<close>: the socket events. \<open>PeerCalls\<close>: the methods that
    change the session. \<open>PeerQueries\<close>: the methods that read it.

  \<^bold>\<open>The peer: theorems.\<close>
  \<^item> \<open>PeerSteps\<close>, \<open>PeerApiSteps\<close>: the locale \<open>peer_relation\<close> (rely and guarantee) and its lemmas for every loop, handler and method;
    \<open>PeerOps\<close> interprets it for the accounting of operations and \<open>PeerPackets\<close> for the layout of queued packets. \<open>PeerEvents\<close> makes
    one type of everything that can happen and concludes for every application and every sequence of events.
  \<^item> \<open>PeerStream\<close>, \<open>PeerDelivery\<close>: from the bytes of a connection to messages, and from \<^verbatim>\<open>SendTo\<close> on one machine to the
    application on the other. \<open>PeerHandshake\<close>, \<open>PeerJoin\<close>: what two peers agree on when one joins the session of the other, and how
    the joining peer ends when the host, or its application, refuses.
  \<^item> \<open>PeerReplicas\<close>: the copies of the groups that the peers of a session keep stay equal; a peer that is not the host gets the
    identifiers of its groups from the host.
  \<^item> \<open>PeerCompletion\<close>: a send is completed once. \<open>PeerClose\<close>: closing ends. \<open>PeerBuffers\<close>: buffers of the caller. \<open>PeerPorts\<close>:
    the search for a port. \<open>PeerAborts\<close>: inputs that stop the process.

  \<^bold>\<open>The hooking library and the hook DLL.\<close> The memory of the process is a function from addresses to bytes.
  \<^item> \<open>Hde32\<close> (\<^verbatim>\<open>hde32.c\<close>, \<^verbatim>\<open>table32.h\<close>): the disassembler; it returns for every code, without reading outside its table.
  \<^item> \<open>HookBuffer\<close> (\<^verbatim>\<open>buffer.c\<close>): slots for trampolines (locale \<open>slot_pool\<close>). \<open>HookTrampoline\<close> (\<^verbatim>\<open>trampoline.c\<close>): what a trampoline
    that was built is like. \<open>HookTable\<close> (\<^verbatim>\<open>hook.c\<close>): the table of hooks, the threads and the interface.
  \<^item> \<open>HookCode\<close>: the invariant of table, slots and code, and hooked code along any calls. \<open>HookThreads\<close>: threads that stand in code
    that changes.
  \<^item> \<open>HookDll\<close> (\<^verbatim>\<open>hookdll.cpp\<close>): the classes are registered while COM is in use; code is as before once the DLL is gone.

  \<^bold>\<open>Unit tests.\<close> \<open>PacketTests\<close>, \<open>SendQueueTests\<close> and \<open>AddressTests\<close> run the repository's own tests of these parts (\<^verbatim>\<open>src/tests\<close>) on the
  definitions; \<open>UnitTests\<close> concludes that all of them pass. They check the translation against what the authors expect of the code, and
  are no properties of it.

  \<^bold>\<open>Fuel and partiality.\<close> Loops whose end depends on the application run on fuel: \<^verbatim>\<open>peer_destroy\<close> and its relatives, the send and receive
  loops, and the loops of \<^verbatim>\<open>TerminateSession\<close> and \<^verbatim>\<open>Close\<close>. The theorems that claim a result bound it by what is
  there to be processed (\<open>load\<close> counts the queued sends and awaited acknowledgements of a connection), and hold for any larger amount; the invariants hold
  for every amount. The scan of a packet and the interface query of \<open>Network\<close> are partial for the reasons given there. The scans of
  the disassembler and the loop that builds a trampoline have termination proofs.

  \<^bold>\<open>Not modelled.\<close> Google Test (\<^verbatim>\<open>src/googletest\<close>) is third-party code and most of the lines of the repository. The tests of the worker
  pool and of the peer, and the soak tests, create threads, sockets and processes and measure time, so they are not run on the model. The script \<^verbatim>\<open>mkstubs.pl\<close> generates assembler stubs. The branches
  of MinHook for x64 and \<^verbatim>\<open>hde64.c\<close> are not compiled into the 32-bit build. Interface declarations of the headers have no
  behaviour. Messages written to the log by the other components, and the freeing of memory by \<^verbatim>\<open>ReturnBuffer\<close>, change no state of
  the model and are left out. What COM does with the classes registered with it is not modelled, only which registrations the hook DLL
  holds. A completion and the wake-up of the thread that waits for it are one step. Threads interleave in \<open>PoolProtocol\<close>, in \<open>PoolShutdown\<close> and, for the peer, wherever the lock is
  released; data races on memory outside locks are not modelled.
\<close>

end
